(* ===== verification/Prelude.thy ===== *)
theory Prelude
  imports Main "HOL-Library.Word" "HOL-Library.Signed_Division"
begin

unbundle bit_operations_syntax

text \<open>
  Shared vocabulary of the development: the names of the C integer types, the way a signed C
  object is read and written, big-endian byte access, wrap-around time stamps, and two
  interface locales (a machine with an invariant, a machine with a latch) that every stateful
  component interprets on its own step function.

  Conventions. A stored C integer of \<open>w\<close> bits is a word of that width, signed or not;
  a signed one is read with \<^const>\<open>sint\<close> and written with \<^const>\<open>word_of_int\<close>,
  which is exactly the conversion the target's compiler performs. Intermediate \<open>int32_t\<close> and
  \<open>int64_t\<close> expressions are computed in \<^typ>\<open>int\<close>; the range lemmas of each component
  show that they stay inside their type, so that no signed overflow happens. C's \<open>/\<close> and
  \<open>%\<close> on signed operands round towards zero: \<open>sdiv\<close> and \<open>smod\<close>. A pointer that the
  code compares with \<open>NULL\<close> is an option, \<^const>\<open>None\<close> being \<open>NULL\<close>.
\<close>

section \<open>Names of the C types\<close>

type_synonym u8 = "8 word"
type_synonym u16 = "16 word"
type_synonym u32 = "32 word"
type_synonym u64 = "64 word"
type_synonym i8 = "8 word"
type_synonym i16 = "16 word"
type_synonym i32 = "32 word"
type_synonym i64 = "64 word"
type_synonym bytes = "u8 list"
type_synonym 'a ptr = "'a option"

named_theorems word_ranges "bounds of a word read as an integer"
named_theorems cast_simps "reading back what a narrowing conversion wrote"

section \<open>Ranges and conversions\<close>

lemma sint8_range [word_ranges]: "- 128 \<le> sint (x :: i8) \<and> sint x \<le> 127"
  using sint_ge [of x] sint_lt [of x] by simp

lemma sint16_range [word_ranges]: "- 32768 \<le> sint (x :: i16) \<and> sint x \<le> 32767"
  using sint_ge [of x] sint_lt [of x] by simp

lemma sint32_range [word_ranges]:
  "- 2147483648 \<le> sint (x :: i32) \<and> sint x \<le> 2147483647"
  using sint_ge [of x] sint_lt [of x] by simp

lemma uint8_range [word_ranges]: "0 \<le> uint (x :: u8) \<and> uint x \<le> 255"
  using uint_lt2p [of x] by simp

lemma uint16_range [word_ranges]: "0 \<le> uint (x :: u16) \<and> uint x \<le> 65535"
  using uint_lt2p [of x] by simp

lemma uint32_range [word_ranges]: "0 \<le> uint (x :: u32) \<and> uint x \<le> 4294967295"
  using uint_lt2p [of x] by simp

lemma sint_of_int8 [cast_simps]:
  "- 128 \<le> x \<Longrightarrow> x \<le> 127 \<Longrightarrow> sint (word_of_int x :: i8) = x"
  by (simp add: sint_sbintrunc' signed_take_bit_int_eq_self)

lemma sint_of_int16 [cast_simps]:
  "- 32768 \<le> x \<Longrightarrow> x \<le> 32767 \<Longrightarrow> sint (word_of_int x :: i16) = x"
  by (simp add: sint_sbintrunc' signed_take_bit_int_eq_self)

lemma sint_of_int32 [cast_simps]:
  "- 2147483648 \<le> x \<Longrightarrow> x \<le> 2147483647 \<Longrightarrow> sint (word_of_int x :: i32) = x"
  by (simp add: sint_sbintrunc' signed_take_bit_int_eq_self)

lemma uint_of_int16 [cast_simps]:
  "0 \<le> x \<Longrightarrow> x \<le> 65535 \<Longrightarrow> uint (word_of_int x :: u16) = x"
  by (simp add: uint_word_of_int take_bit_int_eq_self)

lemma uint_of_int32 [cast_simps]:
  "0 \<le> x \<Longrightarrow> x \<le> 4294967295 \<Longrightarrow> uint (word_of_int x :: u32) = x"
  by (simp add: uint_word_of_int take_bit_int_eq_self)

lemma unat_ucast_u16_u32 [simp]: "unat (ucast (x :: u16) :: u32) = unat x"
  using unsigned_less [of x, where ?'a = nat]
  by (simp add: unsigned_ucast_eq take_bit_nat_eq_self)

lemma unat_ucast_u8_u16 [simp]: "unat (ucast (x :: u8) :: u16) = unat x"
  using unsigned_less [of x, where ?'a = nat]
  by (simp add: unsigned_ucast_eq take_bit_nat_eq_self)

lemma uint_ucast_u16_u32 [simp]: "uint (ucast (x :: u16) :: u32) = uint x"
  using uint16_range [of x] by (simp add: unsigned_ucast_eq take_bit_int_eq_self)

lemma uint_ucast_u16_u64 [simp]: "uint (ucast (x :: u16) :: u64) = uint x"
  using uint16_range [of x] by (simp add: unsigned_ucast_eq take_bit_int_eq_self)

text \<open>Or-ing fields that do not overlap adds them.\<close>

lemma or_disjoint: "x AND y = 0 \<Longrightarrow> x OR y = x + (y :: 'a::len word)"
  using word_plus_and_or [of x y] by simp

lemma unat_or_disjoint:
  assumes "x AND y = 0" and "unat x + unat y < 2 ^ LENGTH('a)"
  shows "unat (x OR y) = unat x + unat (y :: 'a::len word)"
  using assms by (simp add: or_disjoint unat_add_lem [THEN iffD1])

lemma xor_right_inject: "a XOR c = b XOR c \<longleftrightarrow> a = (b :: 'a::len word)"
proof
  assume "a XOR c = b XOR c"
  then have "(a XOR c) XOR c = (b XOR c) XOR c" by simp
  then show "a = b" by (simp add: xor.assoc)
qed simp

lemma xor_left_inject: "c XOR a = c XOR b \<longleftrightarrow> a = (b :: 'a::len word)"
  using xor_right_inject [of a c b] by (simp only: xor.commute)

lemma unat_add_small: "unat (a :: 'a::len word) + unat b < 2 ^ LENGTH('a) \<Longrightarrow> unat (a + b) = unat a + unat b"
  using unat_add_lem by blast

text \<open>Division towards zero keeps a symmetric bound and agrees with \<open>div\<close> on naturals.\<close>

lemma sdiv_nonneg: "0 \<le> a \<Longrightarrow> 0 < b \<Longrightarrow> a sdiv b = a div (b :: int)"
  by (auto simp: signed_divide_int_def sgn_if)

lemma sdiv_neg: "a < 0 \<Longrightarrow> 0 < b \<Longrightarrow> a sdiv b = - ((- a) div (b :: int))"
  by (auto simp: signed_divide_int_def sgn_if)

lemma abs_sdiv: "0 < b \<Longrightarrow> \<bar>a sdiv b\<bar> = \<bar>a\<bar> div (b :: int)"
  by (cases "0 \<le> a") (auto simp: sdiv_nonneg sdiv_neg pos_imp_zdiv_nonneg_iff)

lemma div_mult_bounds:
  assumes "0 < (b :: int)"
  shows "a div b * b \<le> a" "a < (a div b + 1) * b"
  using div_mult_mod_eq [of a b] pos_mod_sign [OF assms, of a] pos_mod_bound [OF assms, of a]
  by (simp_all only: distrib_right mult_1_left)

lemma int_div_less:
  assumes "0 < (b :: int)" and "a < c * b"
  shows "a div b < c"
proof (rule ccontr)
  assume "\<not> a div b < c"
  then have "c * b \<le> a div b * b" using assms(1) by (simp add: mult_right_mono)
  also have "\<dots> \<le> a" by (rule div_mult_bounds(1) [OF assms(1)])
  finally show False using assms(2) by simp
qed

section \<open>Wrap-around time stamps\<close>

text \<open>
  Time stamps are free-running 32-bit counters. The code compares them in two ways: an elapsed
  time \<open>now - then\<close> against an unsigned bound, and the sign of \<open>(int32_t)(now - deadline)\<close>.
  The second is a correct test for \<open>now\<close> having reached the deadline, across the wrap of the
  counter, as long as both intervals are below half the counter's range.
\<close>

definition time_reached :: "u32 \<Rightarrow> u32 \<Rightarrow> bool" where
  "time_reached now deadline \<longleftrightarrow> 0 \<le> sint (now - deadline)"

lemma sint_u32: "sint (x :: u32) = (if 2147483648 \<le> uint x then uint x - 4294967296 else uint x)"
proof -
  have eq: "sint x = (uint x + 2147483648) mod 4294967296 - 2147483648"
    by (simp add: sint_uint signed_take_bit_eq_take_bit_shift take_bit_eq_mod)
  show ?thesis
  proof (cases "2147483648 \<le> uint x")
    case True
    have "(uint x + 2147483648) mod 4294967296 = uint x + 2147483648 - 4294967296"
      using True uint32_range [of x]
      by (subst minus_mod_self2 [symmetric]) (simp add: mod_pos_pos_trivial)
    then show ?thesis using eq True by simp
  next
    case False
    then have "(uint x + 2147483648) mod 4294967296 = uint x + 2147483648"
      using uint32_range [of x] by simp
    then show ?thesis using eq False by simp
  qed
qed

lemma sint_nonneg_iff: "0 \<le> sint (x :: u32) \<longleftrightarrow> unat x < 2147483648"
proof -
  have "uint x = int (unat x)" by simp
  then show ?thesis unfolding sint_u32 using uint32_range [of x] by arith
qed

lemma unat_minus_wrap:
  "unat ((a :: u32) - b) = (if unat b \<le> unat a then unat a - unat b
     else 4294967296 + unat a - unat b)"
  using unat_sub_if' [of a b] by (simp split: if_splits)

lemma time_reached_iff:
  assumes "unat e < 2147483648" and "unat d \<le> 2147483648"
  shows "time_reached (s + e) (s + d) \<longleftrightarrow> unat d \<le> unat e"
proof -
  have "s + e - (s + d) = e - d" by simp
  then have "time_reached (s + e) (s + d) \<longleftrightarrow> unat (e - d) < 2147483648"
    by (simp add: time_reached_def sint_nonneg_iff)
  also have "\<dots> \<longleftrightarrow> unat d \<le> unat e"
    using assms by (simp only: unat_minus_wrap split: if_split) linarith
  finally show ?thesis .
qed

section \<open>Machines\<close>

text \<open>
  The contract shared by the stateful components: an operation takes the state and an event and
  returns the next state. What one step keeps, every sequence of steps keeps.
\<close>

locale invariant_machine =
  fixes step :: "'s \<Rightarrow> 'e \<Rightarrow> 's"
    and inv :: "'s \<Rightarrow> bool"
  assumes step_inv: "inv s \<Longrightarrow> inv (step s e)"
begin

lemma run_inv: "inv s \<Longrightarrow> inv (foldl step s es)"
  by (induction es arbitrary: s) (simp_all add: step_inv)

lemma run_prefix_inv: "inv s \<Longrightarrow> inv (foldl step s (take n es))"
  by (rule run_inv)

end

text \<open>
  A latch is a condition that, once reached, only the events of a named class leave: a fault
  that only an acknowledgement clears, a failed watchdog policy that nothing clears.
\<close>

locale latching_machine =
  fixes step :: "'s \<Rightarrow> 'e \<Rightarrow> 's"
    and latched :: "'s \<Rightarrow> bool"
    and releases :: "'e \<Rightarrow> bool"
  assumes latched_step: "latched s \<Longrightarrow> \<not> releases e \<Longrightarrow> latched (step s e)"
begin

lemma latched_run:
  "latched s \<Longrightarrow> list_all (\<lambda>e. \<not> releases e) es \<Longrightarrow> latched (foldl step s es)"
  by (induction es arbitrary: s) (simp_all add: latched_step)

lemma unlatched_needs_release:
  "latched s \<Longrightarrow> \<not> latched (foldl step s es) \<Longrightarrow> list_ex releases es"
  using latched_run by (auto simp: list_all_iff list_ex_iff)

end

text \<open>The step of a run at which a condition is first entered.\<close>

lemma run_crossing:
  assumes "\<not> Q s" and "Q (foldl f s es)"
  shows "\<exists>as e bs. es = as @ e # bs \<and> \<not> Q (foldl f s as) \<and> Q (f (foldl f s as) e)"
  using assms(2)
proof (induction es rule: rev_induct)
  case Nil
  with assms(1) show ?case by simp
next
  case (snoc x xs)
  show ?case
  proof (cases "Q (foldl f s xs)")
    case True
    then obtain as e bs where "xs = as @ e # bs" "\<not> Q (foldl f s as)" "Q (f (foldl f s as) e)"
      using snoc.IH by blast
    then show ?thesis by (intro exI [of _ as] exI [of _ e] exI [of _ "bs @ [x]"]) simp
  next
    case False
    with snoc.prems show ?thesis by (intro exI [of _ xs] exI [of _ x] exI [of _ "[]"]) simp
  qed
qed

end
