(* ===== verification/App_State.thy ===== *)
theory App_State
  imports Prelude
begin

text \<open>
  The drive supervisor, \<open>firmware/src/app/app_state.c\<close>: the only application-level owner of
  bridge authority. Its record is \<open>app_supervisor_t\<close>; \<open>app_supervisor_handle_event\<close> is the
  whole event handler with every branch of its switch. A stored enum value that is none of the
  enumerators (corrupted memory) is kept as \<open>APP_STATE_OTHER\<close> or \<open>APP_AUTHORITY_OTHER\<close>, since
  the code tests for it; an event argument that is none is \<open>APP_EVENT_OTHER\<close>. The lemmas give the type invariant, the transition table as an
  inductive relation that the handler refines, and the energisation discipline: no event
  sequence reaches an authorised bridge without a confirmed readiness and an explicit request.
\<close>

section \<open>Data\<close>

datatype app_state =
    APP_STATE_RESET_SAFE | APP_STATE_DIAGNOSTIC | APP_STATE_READY
  | APP_STATE_ALIGN | APP_STATE_RUN | APP_STATE_FAULT | APP_STATE_OTHER nat

datatype app_event =
    APP_EVENT_PASSIVE_INIT_COMPLETE | APP_EVENT_READINESS_CONFIRMED | APP_EVENT_READINESS_LOST
  | APP_EVENT_DIAGNOSTIC_OPERATION_REQUESTED | APP_EVENT_ALIGNMENT_REQUESTED
  | APP_EVENT_ALIGNMENT_COMPLETED | APP_EVENT_MOTION_RUN_REQUESTED
  | APP_EVENT_AUTHORITY_RELEASED | APP_EVENT_FAULT_DETECTED | APP_EVENT_FAULT_ACKNOWLEDGED
  | APP_EVENT_OTHER nat

datatype app_authority =
    APP_AUTHORITY_NONE | APP_AUTHORITY_DIAGNOSTIC | APP_AUTHORITY_MOTION
  | APP_AUTHORITY_OTHER nat

record app_transition_context =
  safe_to_energize :: bool
  safe_to_recover :: bool

record app_supervisor =
  sv_state :: app_state
  sv_authority :: app_authority
  sv_initialized :: bool

section \<open>Operations\<close>

fun app_state_is_valid :: "app_state \<Rightarrow> bool" where
  "app_state_is_valid (APP_STATE_OTHER _) = False"
| "app_state_is_valid _ = True"

fun app_supervisor_invariants_hold :: "app_supervisor ptr \<Rightarrow> bool" where
  "app_supervisor_invariants_hold None = False"
| "app_supervisor_invariants_hold (Some s) =
     (if \<not> app_state_is_valid (sv_state s) then False
      else (case sv_state s of
          APP_STATE_RESET_SAFE \<Rightarrow> sv_authority s = APP_AUTHORITY_NONE
        | APP_STATE_DIAGNOSTIC \<Rightarrow> sv_authority s = APP_AUTHORITY_NONE
        | APP_STATE_READY \<Rightarrow> sv_authority s = APP_AUTHORITY_NONE
        | APP_STATE_FAULT \<Rightarrow> sv_authority s = APP_AUTHORITY_NONE
        | APP_STATE_ALIGN \<Rightarrow> sv_authority s = APP_AUTHORITY_MOTION
        | APP_STATE_RUN \<Rightarrow> sv_authority s = APP_AUTHORITY_DIAGNOSTIC \<or>
                           sv_authority s = APP_AUTHORITY_MOTION
        | APP_STATE_OTHER _ \<Rightarrow> False))"

definition app_supervisor_enter ::
  "app_supervisor \<Rightarrow> app_state \<Rightarrow> app_authority \<Rightarrow> app_supervisor" where
  "app_supervisor_enter s state authority = s\<lparr>sv_state := state, sv_authority := authority\<rparr>"

fun app_supervisor_init :: "app_supervisor ptr \<Rightarrow> bool \<times> app_supervisor ptr" where
  "app_supervisor_init None = (False, None)"
| "app_supervisor_init (Some s) =
     (True, Some ((app_supervisor_enter s APP_STATE_RESET_SAFE APP_AUTHORITY_NONE)
                    \<lparr>sv_initialized := True\<rparr>))"

text \<open>The handler for a supervisor that exists; the returned flag is the C function's result.\<close>

definition supervisor_handle_event ::
  "app_supervisor \<Rightarrow> app_event \<Rightarrow> app_transition_context \<Rightarrow> bool \<times> app_supervisor" where
  "supervisor_handle_event s event ctx =
     (if \<not> sv_initialized s then (False, s)
      else if \<not> app_supervisor_invariants_hold (Some s)
        then (False, app_supervisor_enter s APP_STATE_FAULT APP_AUTHORITY_NONE)
      else if event = APP_EVENT_FAULT_DETECTED
        then (True, app_supervisor_enter s APP_STATE_FAULT APP_AUTHORITY_NONE)
      else (case sv_state s of
          APP_STATE_RESET_SAFE \<Rightarrow>
            if event = APP_EVENT_PASSIVE_INIT_COMPLETE
              then (True, app_supervisor_enter s APP_STATE_DIAGNOSTIC APP_AUTHORITY_NONE)
            else (False, s)
        | APP_STATE_DIAGNOSTIC \<Rightarrow>
            if event = APP_EVENT_READINESS_LOST then (True, s)
            else if event = APP_EVENT_READINESS_CONFIRMED \<and> safe_to_energize ctx
              then (True, app_supervisor_enter s APP_STATE_READY APP_AUTHORITY_NONE)
            else (False, s)
        | APP_STATE_READY \<Rightarrow>
            if event = APP_EVENT_READINESS_LOST
              then (True, app_supervisor_enter s APP_STATE_DIAGNOSTIC APP_AUTHORITY_NONE)
            else if \<not> safe_to_energize ctx then (False, s)
            else if event = APP_EVENT_DIAGNOSTIC_OPERATION_REQUESTED
              then (True, app_supervisor_enter s APP_STATE_RUN APP_AUTHORITY_DIAGNOSTIC)
            else if event = APP_EVENT_ALIGNMENT_REQUESTED
              then (True, app_supervisor_enter s APP_STATE_ALIGN APP_AUTHORITY_MOTION)
            else if event = APP_EVENT_MOTION_RUN_REQUESTED
              then (True, app_supervisor_enter s APP_STATE_RUN APP_AUTHORITY_MOTION)
            else (False, s)
        | APP_STATE_ALIGN \<Rightarrow>
            if event = APP_EVENT_READINESS_LOST
              then (True, app_supervisor_enter s APP_STATE_FAULT APP_AUTHORITY_NONE)
            else if event = APP_EVENT_ALIGNMENT_COMPLETED \<or> event = APP_EVENT_AUTHORITY_RELEASED
              then (True, app_supervisor_enter s APP_STATE_READY APP_AUTHORITY_NONE)
            else (False, s)
        | APP_STATE_RUN \<Rightarrow>
            if event = APP_EVENT_READINESS_LOST
              then (True, app_supervisor_enter s APP_STATE_FAULT APP_AUTHORITY_NONE)
            else if event = APP_EVENT_AUTHORITY_RELEASED
              then (True, app_supervisor_enter s APP_STATE_READY APP_AUTHORITY_NONE)
            else (False, s)
        | APP_STATE_FAULT \<Rightarrow>
            if event = APP_EVENT_FAULT_ACKNOWLEDGED \<and> safe_to_recover ctx
              then (True, app_supervisor_enter s APP_STATE_DIAGNOSTIC APP_AUTHORITY_NONE)
            else (False, s)
        | APP_STATE_OTHER _ \<Rightarrow>
            (False, app_supervisor_enter s APP_STATE_FAULT APP_AUTHORITY_NONE)))"

fun app_supervisor_handle_event ::
  "app_supervisor ptr \<Rightarrow> app_event \<Rightarrow> app_transition_context \<Rightarrow> bool \<times> app_supervisor ptr" where
  "app_supervisor_handle_event None event ctx = (False, None)"
| "app_supervisor_handle_event (Some s) event ctx =
     (case supervisor_handle_event s event ctx of (ok, s') \<Rightarrow> (ok, Some s'))"

fun app_supervisor_bridge_authorized :: "app_supervisor ptr \<Rightarrow> bool" where
  "app_supervisor_bridge_authorized None = False"
| "app_supervisor_bridge_authorized (Some s) =
     (if \<not> sv_initialized s \<or> \<not> app_supervisor_invariants_hold (Some s) then False
      else if sv_state s = APP_STATE_ALIGN then sv_authority s = APP_AUTHORITY_MOTION
      else if sv_state s = APP_STATE_RUN
        then sv_authority s = APP_AUTHORITY_DIAGNOSTIC \<or> sv_authority s = APP_AUTHORITY_MOTION
      else False)"

fun app_supervisor_foreground_service_allowed :: "app_supervisor ptr \<Rightarrow> bool" where
  "app_supervisor_foreground_service_allowed None = False"
| "app_supervisor_foreground_service_allowed (Some s) =
     (sv_initialized s \<and> app_supervisor_invariants_hold (Some s) \<and>
      sv_state s \<noteq> APP_STATE_RESET_SAFE)"

section \<open>Invariant and latch\<close>

abbreviation supervisor_step ::
  "app_supervisor \<Rightarrow> app_event \<times> app_transition_context \<Rightarrow> app_supervisor" where
  "supervisor_step s ec \<equiv> snd (supervisor_handle_event s (fst ec) (snd ec))"

abbreviation supervisor_ok :: "app_supervisor \<Rightarrow> bool" where
  "supervisor_ok s \<equiv> sv_initialized s \<and> app_supervisor_invariants_hold (Some s)"

lemmas supervisor_defs = supervisor_handle_event_def app_supervisor_enter_def

lemma supervisor_step_initialized [simp]:
  "sv_initialized (supervisor_step s ec) = sv_initialized s"
  by (auto simp: supervisor_defs split: app_state.splits)

lemma supervisor_step_ok: "sv_initialized s \<Longrightarrow> supervisor_ok (supervisor_step s ec)"
  by (cases "sv_state s") (auto simp: supervisor_defs)

declare app_supervisor_invariants_hold.simps [simp del]

lemmas invariants_hold = app_supervisor_invariants_hold.simps

interpretation sup_inv: invariant_machine supervisor_step supervisor_ok
  by unfold_locales (rule supervisor_step_ok, blast)

text \<open>An event that can take the supervisor out of \<open>FAULT\<close>.\<close>

definition acknowledges :: "app_event \<times> app_transition_context \<Rightarrow> bool" where
  "acknowledges ec \<longleftrightarrow> fst ec = APP_EVENT_FAULT_ACKNOWLEDGED \<and> safe_to_recover (snd ec)"

definition confirms_ready :: "app_event \<times> app_transition_context \<Rightarrow> bool" where
  "confirms_ready ec \<longleftrightarrow> fst ec = APP_EVENT_READINESS_CONFIRMED \<and> safe_to_energize (snd ec)"

definition requests_energy :: "app_event \<times> app_transition_context \<Rightarrow> bool" where
  "requests_energy ec \<longleftrightarrow> safe_to_energize (snd ec) \<and>
     fst ec \<in> {APP_EVENT_DIAGNOSTIC_OPERATION_REQUESTED, APP_EVENT_ALIGNMENT_REQUESTED,
               APP_EVENT_MOTION_RUN_REQUESTED}"

abbreviation supervisor_faulted :: "app_supervisor \<Rightarrow> bool" where
  "supervisor_faulted s \<equiv> supervisor_ok s \<and> sv_state s = APP_STATE_FAULT"

interpretation sup_fault: latching_machine supervisor_step supervisor_faulted acknowledges
  by unfold_locales (auto simp: supervisor_defs acknowledges_def invariants_hold)

section \<open>Energisation discipline\<close>

lemma authorized_iff:
  "app_supervisor_bridge_authorized (Some s) \<longleftrightarrow>
     supervisor_ok s \<and> (sv_state s = APP_STATE_ALIGN \<or> sv_state s = APP_STATE_RUN)"
  by (cases "sv_state s") (auto simp: invariants_hold)

lemma authorized_step:
  assumes "supervisor_ok s" and "app_supervisor_bridge_authorized (Some (supervisor_step s ec))"
  shows "app_supervisor_bridge_authorized (Some s) \<or>
         (sv_state s = APP_STATE_READY \<and> requests_energy ec)"
  using assms unfolding authorized_iff
  by (cases "sv_state s") (auto simp: supervisor_defs invariants_hold requests_energy_def split: if_splits)

lemma ready_step:
  assumes "supervisor_ok s" and "sv_state (supervisor_step s ec) = APP_STATE_READY"
  shows "sv_state s = APP_STATE_READY \<or> app_supervisor_bridge_authorized (Some s) \<or>
         (sv_state s = APP_STATE_DIAGNOSTIC \<and> confirms_ready ec)"
  using assms unfolding authorized_iff
  by (cases "sv_state s") (auto simp: supervisor_defs invariants_hold confirms_ready_def split: if_splits)

lemma energise_needs_ready:
  assumes "supervisor_ok s" and "\<not> app_supervisor_bridge_authorized (Some s)"
    and "sv_state s \<noteq> APP_STATE_READY"
    and "app_supervisor_bridge_authorized (Some (foldl supervisor_step s es))"
  obtains a r b q c where "es = a @ r # b @ q # c" and "confirms_ready r" and "requests_energy q"
    and "sv_state (foldl supervisor_step s a) = APP_STATE_DIAGNOSTIC"
proof -
  define Auth where "Auth = (\<lambda>s. app_supervisor_bridge_authorized (Some s))"
  define Hot where "Hot = (\<lambda>s. Auth s \<or> sv_state s = APP_STATE_READY)"
  have ok: "supervisor_ok (foldl supervisor_step s xs)" for xs
    using assms(1) by (rule sup_inv.run_inv)
  from assms(2,4) obtain p q c where es: "es = p @ q # c"
    and p: "\<not> Auth (foldl supervisor_step s p)"
    and q: "Auth (supervisor_step (foldl supervisor_step s p) q)"
    using run_crossing [of Auth s supervisor_step es] unfolding Auth_def by blast
  from authorized_step [OF ok, of p q] p q have rq: "requests_energy q"
    and hot: "Hot (foldl supervisor_step s p)"
    unfolding Auth_def Hot_def by blast+
  from assms(2,3) have "\<not> Hot s" unfolding Hot_def Auth_def by blast
  from run_crossing [of Hot, OF this hot] obtain a r b where pb: "p = a @ r # b"
    and a: "\<not> Hot (foldl supervisor_step s a)"
    and r: "Hot (supervisor_step (foldl supervisor_step s a) r)" by blast
  from a r authorized_step [OF ok, of a r] ready_step [OF ok, of a r]
  have "sv_state (foldl supervisor_step s a) = APP_STATE_DIAGNOSTIC \<and> confirms_ready r"
    unfolding Hot_def Auth_def by blast
  with that [of a r b q c] rq es pb show thesis by simp
qed

text \<open>
  C1. Recovery path. From a latched fault, whatever events arrive, the bridge is authorised
  only after an operator acknowledgement that was safe to recover, then a readiness
  confirmation that was safe to energise, then an explicit request that was safe to energise,
  in this order.
\<close>

theorem energise_after_fault:
  assumes "supervisor_faulted s"
    and "app_supervisor_bridge_authorized (Some (foldl supervisor_step s es))"
  shows "\<exists>a k b r c q d. es = a @ k # b @ r # c @ q # d \<and>
           acknowledges k \<and> confirms_ready r \<and> requests_energy q"
proof -
  have ok: "supervisor_ok s" using assms(1) by blast
  have cold: "\<not> app_supervisor_bridge_authorized (Some s)" "sv_state s \<noteq> APP_STATE_READY"
    using assms(1) unfolding authorized_iff by simp_all
  obtain p r c q d where es: "es = p @ r # c @ q # d" and "confirms_ready r" "requests_energy q"
    and p: "sv_state (foldl supervisor_step s p) = APP_STATE_DIAGNOSTIC"
    by (rule energise_needs_ready [OF ok cold assms(2)])
  moreover have "list_ex acknowledges p"
    using sup_fault.unlatched_needs_release [OF assms(1), of p] p by simp
  then obtain a k b where "p = a @ k # b" and "acknowledges k"
    by (auto simp: list_ex_iff dest: split_list)
  ultimately have "es = a @ k # b @ r # c @ q # d \<and>
      acknowledges k \<and> confirms_ready r \<and> requests_energy q" by simp
  then show ?thesis by blast
qed

theorem energise_after_fault_witness:
  "\<exists>a k b r c q d.
     [(APP_EVENT_FAULT_ACKNOWLEDGED, \<lparr>safe_to_energize = False, safe_to_recover = True\<rparr>),
      (APP_EVENT_READINESS_CONFIRMED, \<lparr>safe_to_energize = True, safe_to_recover = False\<rparr>),
      (APP_EVENT_MOTION_RUN_REQUESTED, \<lparr>safe_to_energize = True, safe_to_recover = False\<rparr>)]
     = a @ k # b @ r # c @ q # d \<and> acknowledges k \<and> confirms_ready r \<and> requests_energy q"
  by (rule energise_after_fault
        [where s = "\<lparr>sv_state = APP_STATE_FAULT, sv_authority = APP_AUTHORITY_NONE,
                     sv_initialized = True\<rparr>"])
    (simp_all add: supervisor_defs invariants_hold)

text \<open>
  Start-up path. After \<open>app_supervisor_init\<close>, whatever events arrive, the type invariant
  holds, and the bridge is authorised only after a readiness confirmation and then a request,
  both under a context that is safe to energise: no reset leads straight to \<open>ALIGN\<close> or \<open>RUN\<close>.
\<close>

theorem energise_after_init:
  assumes "app_supervisor_init (Some u) = (True, Some s)"
  shows "app_supervisor_invariants_hold (Some (foldl supervisor_step s es)) \<and>
         (app_supervisor_bridge_authorized (Some (foldl supervisor_step s es)) \<longrightarrow>
           (\<exists>a r b q c. es = a @ r # b @ q # c \<and> confirms_ready r \<and> requests_energy q))"
proof -
  have ok: "supervisor_ok s" and st: "sv_state s = APP_STATE_RESET_SAFE"
    using assms by (auto simp: app_supervisor_enter_def invariants_hold)
  then have cold: "\<not> app_supervisor_bridge_authorized (Some s)" "sv_state s \<noteq> APP_STATE_READY"
    by (simp_all add: authorized_iff)
  from ok have inv: "supervisor_ok (foldl supervisor_step s es)" by (rule sup_inv.run_inv)
  have "\<exists>a r b q c. es = a @ r # b @ q # c \<and> confirms_ready r \<and> requests_energy q"
    if "app_supervisor_bridge_authorized (Some (foldl supervisor_step s es))"
    by (rule energise_needs_ready [OF ok cold that]) blast
  with inv show ?thesis by blast
qed

theorem energise_after_init_witness:
  "app_supervisor_invariants_hold
     (Some (foldl supervisor_step
        \<lparr>sv_state = APP_STATE_RESET_SAFE, sv_authority = APP_AUTHORITY_NONE, sv_initialized = True\<rparr>
        [(APP_EVENT_PASSIVE_INIT_COMPLETE, \<lparr>safe_to_energize = False, safe_to_recover = False\<rparr>)]))"
  by (rule energise_after_init [where u = "\<lparr>sv_state = APP_STATE_OTHER 9,
        sv_authority = APP_AUTHORITY_OTHER 7, sv_initialized = False\<rparr>", THEN conjunct1])
    (simp add: app_supervisor_enter_def)

section \<open>The transition table\<close>

text \<open>
  The documented state machine as a relation between states: one rule per arrow. The handler
  accepts an event exactly when the table has an arrow for it, and moves along that arrow.
\<close>

inductive app_transition ::
  "app_state \<Rightarrow> app_event \<times> app_transition_context \<Rightarrow> app_state \<times> app_authority \<Rightarrow> bool" where
  fault: "app_transition st (APP_EVENT_FAULT_DETECTED, c) (APP_STATE_FAULT, APP_AUTHORITY_NONE)"
| passive_init: "app_transition APP_STATE_RESET_SAFE (APP_EVENT_PASSIVE_INIT_COMPLETE, c)
     (APP_STATE_DIAGNOSTIC, APP_AUTHORITY_NONE)"
| stay: "app_transition APP_STATE_DIAGNOSTIC (APP_EVENT_READINESS_LOST, c)
     (APP_STATE_DIAGNOSTIC, APP_AUTHORITY_NONE)"
| ready: "safe_to_energize c \<Longrightarrow> app_transition APP_STATE_DIAGNOSTIC
     (APP_EVENT_READINESS_CONFIRMED, c) (APP_STATE_READY, APP_AUTHORITY_NONE)"
| unready: "app_transition APP_STATE_READY (APP_EVENT_READINESS_LOST, c)
     (APP_STATE_DIAGNOSTIC, APP_AUTHORITY_NONE)"
| diagnostic: "safe_to_energize c \<Longrightarrow> app_transition APP_STATE_READY
     (APP_EVENT_DIAGNOSTIC_OPERATION_REQUESTED, c) (APP_STATE_RUN, APP_AUTHORITY_DIAGNOSTIC)"
| align: "safe_to_energize c \<Longrightarrow> app_transition APP_STATE_READY
     (APP_EVENT_ALIGNMENT_REQUESTED, c) (APP_STATE_ALIGN, APP_AUTHORITY_MOTION)"
| motion: "safe_to_energize c \<Longrightarrow> app_transition APP_STATE_READY
     (APP_EVENT_MOTION_RUN_REQUESTED, c) (APP_STATE_RUN, APP_AUTHORITY_MOTION)"
| lost: "st = APP_STATE_ALIGN \<or> st = APP_STATE_RUN \<Longrightarrow> app_transition st
     (APP_EVENT_READINESS_LOST, c) (APP_STATE_FAULT, APP_AUTHORITY_NONE)"
| release: "st = APP_STATE_ALIGN \<or> st = APP_STATE_RUN \<Longrightarrow> app_transition st
     (APP_EVENT_AUTHORITY_RELEASED, c) (APP_STATE_READY, APP_AUTHORITY_NONE)"
| aligned: "app_transition APP_STATE_ALIGN (APP_EVENT_ALIGNMENT_COMPLETED, c)
     (APP_STATE_READY, APP_AUTHORITY_NONE)"
| recover: "safe_to_recover c \<Longrightarrow> app_transition APP_STATE_FAULT
     (APP_EVENT_FAULT_ACKNOWLEDGED, c) (APP_STATE_DIAGNOSTIC, APP_AUTHORITY_NONE)"

inductive_cases app_transitionE: "app_transition st (e, c) t"

lemma app_transition_deterministic:
  "app_transition st ec t \<Longrightarrow> app_transition st ec t' \<Longrightarrow> t = t'"
  by (cases ec) (auto elim!: app_transitionE)

lemma handle_event_accepts:
  assumes "supervisor_ok s" and "supervisor_handle_event s e c = (True, s')"
  shows "app_transition (sv_state s) (e, c) (sv_state s', sv_authority s')"
  using assms
  by (cases "sv_state s")
    (auto simp: supervisor_defs invariants_hold intro: app_transition.intros split: if_splits)

lemma handle_event_rejects:
  assumes "supervisor_ok s" and "supervisor_handle_event s e c = (False, s')"
  shows "s' = s \<and> \<not> app_transition (sv_state s) (e, c) t"
  using assms
  by (cases "sv_state s") (auto simp: supervisor_defs invariants_hold elim!: app_transitionE split: if_splits)

text \<open>
  C13. The event handler refines the transition table. On a supervisor whose invariant holds it
  returns true exactly when the table has an arrow for the event and context, the new state and
  authority are the arrow's target, and otherwise the supervisor is unchanged; on a supervisor
  whose stored state or authority is corrupted every event leads to \<open>FAULT\<close> with no authority.
\<close>

theorem handle_event_refines_table:
  assumes "sv_initialized s" and "app_supervisor_handle_event (Some s) e c = (ok, Some s')"
  shows "if app_supervisor_invariants_hold (Some s)
         then (ok \<longleftrightarrow> (\<exists>t. app_transition (sv_state s) (e, c) t)) \<and>
              (ok \<longrightarrow> app_transition (sv_state s) (e, c) (sv_state s', sv_authority s')) \<and>
              (\<not> ok \<longrightarrow> s' = s)
         else \<not> ok \<and> sv_state s' = APP_STATE_FAULT \<and> sv_authority s' = APP_AUTHORITY_NONE"
proof (cases "app_supervisor_invariants_hold (Some s)")
  case True
  have h: "supervisor_handle_event s e c = (ok, s')"
    using assms(2) by (auto split: prod.splits)
  show ?thesis
  proof (cases ok)
    case True
    with h \<open>app_supervisor_invariants_hold (Some s)\<close> assms(1) handle_event_accepts [of s e c s']
    show ?thesis by auto
  next
    case False
    with h True assms(1) handle_event_rejects [of s e c s'] show ?thesis by auto
  qed
next
  case False
  with assms show ?thesis
    by (auto simp: supervisor_defs)
qed

theorem handle_event_refines_table_witness:
  "\<exists>t. app_transition APP_STATE_READY
     (APP_EVENT_ALIGNMENT_REQUESTED, \<lparr>safe_to_energize = True, safe_to_recover = False\<rparr>) t"
  using handle_event_refines_table
    [where s = "\<lparr>sv_state = APP_STATE_READY, sv_authority = APP_AUTHORITY_NONE,
                 sv_initialized = True\<rparr>"
       and e = APP_EVENT_ALIGNMENT_REQUESTED
       and c = "\<lparr>safe_to_energize = True, safe_to_recover = False\<rparr>" and ok = True
       and s' = "\<lparr>sv_state = APP_STATE_ALIGN, sv_authority = APP_AUTHORITY_MOTION,
                  sv_initialized = True\<rparr>"]
  by (simp add: supervisor_defs invariants_hold)

end
