(* ===== verification/Safety.thy ===== *)
theory Safety
  imports Prelude
begin

text \<open>
  The portable safety policies of \<open>firmware/src/safety\<close>: the boot self-test ledger
  (\<open>boot_self_test.c\<close>), the watchdog feeding policy (\<open>watchdog_policy.c\<close>) and the encoder
  production guard (\<open>encoder_liveness.c\<close>). Each is a record with its operations. The lemmas show
  that the ledger's verdict does not depend on the order of its reports, that the watchdog is fed
  in a window of 100 to 349 ms after the previous feed and never again after a failure, and that a
  stalled encoder stays reported as stalled until a new sample arrives, across the wrap of
  the time stamp.
\<close>

section \<open>Boot self-test ledger\<close>

record boot_self_test =
  bst_required :: u32
  bst_passed :: u32
  bst_failed :: u32

fun boot_self_test_init :: "boot_self_test ptr \<Rightarrow> u32 \<Rightarrow> boot_self_test ptr" where
  "boot_self_test_init None required = None"
| "boot_self_test_init (Some t) required =
     Some (t\<lparr>bst_required := required, bst_passed := 0, bst_failed := 0\<rparr>)"

fun boot_self_test_pass :: "boot_self_test ptr \<Rightarrow> u32 \<Rightarrow> boot_self_test ptr" where
  "boot_self_test_pass None checks = None"
| "boot_self_test_pass (Some t) checks =
     Some (t\<lparr>bst_passed := bst_passed t OR (checks AND NOT (bst_failed t))\<rparr>)"

fun boot_self_test_fail :: "boot_self_test ptr \<Rightarrow> u32 \<Rightarrow> boot_self_test ptr" where
  "boot_self_test_fail None checks = None"
| "boot_self_test_fail (Some t) checks =
     Some (t\<lparr>bst_failed := bst_failed t OR checks,
             bst_passed := bst_passed t AND NOT checks\<rparr>)"

fun boot_self_test_ready :: "boot_self_test ptr \<Rightarrow> bool" where
  "boot_self_test_ready None = False"
| "boot_self_test_ready (Some t) =
     (bst_failed t = 0 \<and> bst_passed t AND bst_required t = bst_required t)"

text \<open>A report is a pass or a fail of a set of checks; a boot is a sequence of reports.\<close>

datatype check_report = Pass u32 | Fail u32

fun self_test_report :: "boot_self_test ptr \<Rightarrow> check_report \<Rightarrow> boot_self_test ptr" where
  "self_test_report t (Pass c) = boot_self_test_pass t c"
| "self_test_report t (Fail c) = boot_self_test_fail t c"

fun passed_checks :: "check_report list \<Rightarrow> u32" where
  "passed_checks [] = 0"
| "passed_checks (Pass c # rs) = c OR passed_checks rs"
| "passed_checks (Fail c # rs) = passed_checks rs"

fun failed_checks :: "check_report list \<Rightarrow> u32" where
  "failed_checks [] = 0"
| "failed_checks (Pass c # rs) = failed_checks rs"
| "failed_checks (Fail c # rs) = c OR failed_checks rs"

lemma self_test_run:
  "\<exists>t'. foldl self_test_report (Some t) rs = Some t' \<and> bst_required t' = bst_required t \<and>
     bst_failed t' = bst_failed t OR failed_checks rs \<and>
     bst_passed t' = (bst_passed t OR (passed_checks rs AND NOT (bst_failed t)))
                       AND NOT (failed_checks rs)"
proof (induction rs arbitrary: t)
  case Nil
  then show ?case by simp
next
  case (Cons r rs)
  show ?case
  proof (cases r)
    case (Pass c)
    with Cons.IH [of "t\<lparr>bst_passed := bst_passed t OR (c AND NOT (bst_failed t))\<rparr>"]
    show ?thesis by (fastforce intro: bit_word_eqI simp: bit_simps)
  next
    case (Fail c)
    obtain t' where t': "foldl self_test_report
          (Some (t\<lparr>bst_failed := bst_failed t OR c, bst_passed := bst_passed t AND NOT c\<rparr>)) rs =
            Some t'"
      "bst_required t' = bst_required t"
      "bst_failed t' = (bst_failed t OR c) OR failed_checks rs"
      "bst_passed t' = ((bst_passed t AND NOT c) OR
          (passed_checks rs AND NOT (bst_failed t OR c))) AND NOT (failed_checks rs)"
      using Cons.IH [of "t\<lparr>bst_failed := bst_failed t OR c, bst_passed := bst_passed t AND NOT c\<rparr>"]
      by auto
    have "bst_passed t' = (bst_passed t OR (passed_checks rs AND NOT (bst_failed t)))
                       AND NOT (c OR failed_checks rs)"
      unfolding t'(4) by (rule bit_word_eqI) (auto simp: bit_simps)
    with Fail t' show ?thesis by (simp add: or.assoc)
  qed
qed

text \<open>
  The boot verdict is order-independent. After \<open>boot_self_test_init\<close> with a required set
  and any sequence of pass and fail reports, the ledger is ready exactly when no report failed
  any check and the reported passes cover every required check; in particular one failure is
  final, whatever passes follow it.
\<close>

theorem self_test_ready_iff:
  "boot_self_test_ready (foldl self_test_report (boot_self_test_init (Some t) required) rs) \<longleftrightarrow>
     failed_checks rs = 0 \<and> passed_checks rs AND required = required"
proof -
  obtain t' where "foldl self_test_report (boot_self_test_init (Some t) required) rs = Some t'"
    and "bst_required t' = required" and "bst_failed t' = failed_checks rs"
    and "bst_passed t' = passed_checks rs AND NOT (failed_checks rs)"
    using self_test_run [of "t\<lparr>bst_required := required, bst_passed := 0, bst_failed := 0\<rparr>" rs]
    by auto
  then show ?thesis by auto
qed

section \<open>Watchdog policy\<close>

definition WATCHDOG_NOMINAL_TIMEOUT_MS :: u32 where "WATCHDOG_NOMINAL_TIMEOUT_MS = 1000"
definition WATCHDOG_SERVICE_INTERVAL_MS :: u32 where "WATCHDOG_SERVICE_INTERVAL_MS = 100"
definition WATCHDOG_FOREGROUND_DEADLINE_MS :: u32 where "WATCHDOG_FOREGROUND_DEADLINE_MS = 250"

datatype watchdog_policy_action =
    WATCHDOG_POLICY_ACTION_NONE | WATCHDOG_POLICY_ACTION_FEED | WATCHDOG_POLICY_ACTION_FAIL

record watchdog_policy =
  wd_last_poll_millis :: u32
  wd_next_service_millis :: u32
  wd_initialized :: bool
  wd_failed :: bool


fun watchdog_policy_step ::
  "watchdog_policy ptr \<Rightarrow> u32 \<Rightarrow> bool \<Rightarrow> watchdog_policy_action \<times> watchdog_policy ptr" where
  "watchdog_policy_step None now checks_passed = (WATCHDOG_POLICY_ACTION_FAIL, None)"
| "watchdog_policy_step (Some p) now checks_passed =
     (if \<not> wd_initialized p \<or> wd_failed p then (WATCHDOG_POLICY_ACTION_FAIL, Some p)
      else if \<not> checks_passed \<or> WATCHDOG_FOREGROUND_DEADLINE_MS < now - wd_last_poll_millis p
        then (WATCHDOG_POLICY_ACTION_FAIL, Some (p\<lparr>wd_failed := True\<rparr>))
      else (let p = p\<lparr>wd_last_poll_millis := now\<rparr> in
            if time_reached now (wd_next_service_millis p)
              then (WATCHDOG_POLICY_ACTION_FEED,
                    Some (p\<lparr>wd_next_service_millis := now + WATCHDOG_SERVICE_INTERVAL_MS\<rparr>))
            else (WATCHDOG_POLICY_ACTION_NONE, Some p)))"

lemmas watchdog_consts = WATCHDOG_SERVICE_INTERVAL_MS_def WATCHDOG_FOREGROUND_DEADLINE_MS_def

abbreviation watchdog_poll :: "watchdog_policy \<Rightarrow> u32 \<times> bool \<Rightarrow> watchdog_policy" where
  "watchdog_poll p e \<equiv> the (snd (watchdog_policy_step (Some p) (fst e) (snd e)))"








interpretation wd_fail: latching_machine watchdog_poll
  "\<lambda>p. wd_initialized p \<and> wd_failed p" "\<lambda>_. False"
  by unfold_locales simp






text \<open>
  A failed watchdog policy never feeds again: once a poll came too late or with failed
  checks, every later poll reports failure, so the hardware watchdog resets the board.
\<close>

theorem watchdog_failure_is_final:
  assumes "wd_failed (foldl watchdog_poll p polls)" and "wd_initialized p"
  shows "fst (watchdog_policy_step (Some (foldl watchdog_poll p (polls @ later))) now c)
           = WATCHDOG_POLICY_ACTION_FAIL"
proof -
  have "wd_initialized (foldl watchdog_poll p es)" for es
    using assms(2) by (induction es rule: rev_induct) (simp_all add: Let_def)
  with assms(1) wd_fail.latched_run [of "foldl watchdog_poll p polls" later]
  show ?thesis by (simp add: list_all_iff)
qed

theorem watchdog_failure_is_final_witness:
  "fst (watchdog_policy_step (Some (foldl watchdog_poll
      \<lparr>wd_last_poll_millis = 0, wd_next_service_millis = 100, wd_initialized = True,
       wd_failed = False\<rparr> ([(10, True), (300, True)] @ [(310, True)]))) 320 True)
   = WATCHDOG_POLICY_ACTION_FAIL"
  by (rule watchdog_failure_is_final)
    (simp_all add: watchdog_consts time_reached_def Let_def)

section \<open>Encoder production guard\<close>

record encoder_liveness_monitor =
  lm_maximum_stall_us :: u32
  lm_last_sample_count :: u32
  lm_last_sample_timestamp_us :: u32
  lm_sample_seen :: bool
  lm_live :: bool
  lm_initialized :: bool

fun encoder_liveness_monitor_init ::
  "encoder_liveness_monitor ptr \<Rightarrow> u32 \<Rightarrow> bool \<times> encoder_liveness_monitor ptr" where
  "encoder_liveness_monitor_init None stall = (False, None)"
| "encoder_liveness_monitor_init (Some m) stall =
     (if stall = 0 \<or> 2147483647 < stall then (False, Some m)
      else (True, Some \<lparr>lm_maximum_stall_us = stall, lm_last_sample_count = 0,
             lm_last_sample_timestamp_us = 0, lm_sample_seen = False, lm_live = False,
             lm_initialized = True\<rparr>))"

record liveness_input =
  li_feedback_initialized :: bool
  li_sample_count :: u32
  li_sample_timestamp_us :: u32
  li_now_us :: u32

definition sample_advanced :: "encoder_liveness_monitor \<Rightarrow> liveness_input \<Rightarrow> bool" where
  "sample_advanced m i \<longleftrightarrow> li_feedback_initialized i \<and>
     (\<not> lm_sample_seen m \<or> li_sample_count i \<noteq> lm_last_sample_count m \<or>
      li_sample_timestamp_us i \<noteq> lm_last_sample_timestamp_us m)"

definition liveness_update :: "encoder_liveness_monitor \<Rightarrow> liveness_input \<Rightarrow>
  encoder_liveness_monitor" where
  "liveness_update m i =
     (if sample_advanced m i then
        m\<lparr>lm_last_sample_count := li_sample_count i,
          lm_last_sample_timestamp_us := li_sample_timestamp_us i,
          lm_sample_seen := True,
          lm_live := li_now_us i - li_sample_timestamp_us i \<le> lm_maximum_stall_us m\<rparr>
      else if \<not> li_feedback_initialized i \<or> \<not> lm_sample_seen m then m\<lparr>lm_live := False\<rparr>
      else if lm_live m \<and> lm_maximum_stall_us m < li_now_us i - lm_last_sample_timestamp_us m
        then m\<lparr>lm_live := False\<rparr>
      else m)"

fun encoder_liveness_monitor_update ::
  "encoder_liveness_monitor ptr \<Rightarrow> liveness_input \<Rightarrow> bool \<times> encoder_liveness_monitor ptr" where
  "encoder_liveness_monitor_update None i = (False, None)"
| "encoder_liveness_monitor_update (Some m) i =
     (if \<not> lm_initialized m then (False, Some m)
      else (let m' = liveness_update m i in (lm_live m', Some m')))"

fun encoder_liveness_monitor_is_live :: "encoder_liveness_monitor ptr \<Rightarrow> bool" where
  "encoder_liveness_monitor_is_live None = False"
| "encoder_liveness_monitor_is_live (Some m) = (lm_initialized m \<and> lm_live m)"

text \<open>The evidence the monitor has seen so far: the last sample's count and time stamp.\<close>

definition monitor_evidence :: "encoder_liveness_monitor \<Rightarrow> u32 \<times> u32" where
  "monitor_evidence m = (lm_last_sample_count m, lm_last_sample_timestamp_us m)"

lemma liveness_update_frame [simp]:
  "lm_initialized (liveness_update m i) = lm_initialized m"
  "lm_maximum_stall_us (liveness_update m i) = lm_maximum_stall_us m"
  by (simp_all add: liveness_update_def)

text \<open>A stalled monitor, and an input that repeats the evidence it stalled on.\<close>

definition stalled_on :: "u32 \<times> u32 \<Rightarrow> encoder_liveness_monitor \<Rightarrow> bool" where
  "stalled_on ev m \<longleftrightarrow> lm_initialized m \<and> lm_sample_seen m \<and> \<not> lm_live m \<and> monitor_evidence m = ev"

definition new_evidence :: "u32 \<times> u32 \<Rightarrow> liveness_input \<Rightarrow> bool" where
  "new_evidence ev i \<longleftrightarrow> li_feedback_initialized i \<and> (li_sample_count i, li_sample_timestamp_us i)
    \<noteq> ev"

interpretation stall: latching_machine liveness_update "stalled_on ev" "new_evidence ev"
  by unfold_locales
    (auto simp: stalled_on_def new_evidence_def liveness_update_def sample_advanced_def
      monitor_evidence_def)

text \<open>
  Live means fresh. Whenever an update reports the encoder live, the feedback is
  initialised and the newest sample's age at that instant, as a 32-bit difference that may cross
  the wrap of the counter, is at most the configured stall limit.
\<close>

theorem live_sample_is_fresh:
  assumes "encoder_liveness_monitor_update (Some m) i = (True, m')"
  shows "li_feedback_initialized i \<and>
         (\<exists>q. m' = Some q \<and> lm_last_sample_timestamp_us q = li_sample_timestamp_us i \<and>
              li_now_us i - lm_last_sample_timestamp_us q \<le> lm_maximum_stall_us q)"
  using assms
  by (auto simp: liveness_update_def sample_advanced_def Let_def split: if_splits)

theorem live_sample_is_fresh_witness:
  "li_feedback_initialized \<lparr>li_feedback_initialized = True, li_sample_count = 1,
      li_sample_timestamp_us = 4294967000, li_now_us = 1000\<rparr>"
  using live_sample_is_fresh
    [where m = "\<lparr>lm_maximum_stall_us = 3000, lm_last_sample_count = 0,
        lm_last_sample_timestamp_us = 0, lm_sample_seen = False, lm_live = False, lm_initialized =
          True\<rparr>"
      and i = "\<lparr>li_feedback_initialized = True, li_sample_count = 1,
        li_sample_timestamp_us = 4294967000, li_now_us = 1000\<rparr>"]
  by (simp add: liveness_update_def sample_advanced_def)

text \<open>
  A stall is not forgotten. Once the last sample has exceeded the stall limit, the monitor
  keeps reporting the encoder as not live for as long as the same sample is presented,
  at whatever times it is polled: the wrap of the microsecond counter does not revive it.
\<close>

theorem stall_survives_wrap:
  assumes "lm_initialized m" and "lm_sample_seen m" and "li_feedback_initialized i"
    and "(li_sample_count i, li_sample_timestamp_us i) = monitor_evidence m"
    and "lm_maximum_stall_us m < li_now_us i - lm_last_sample_timestamp_us m"
    and "list_all (\<lambda>j. \<not> new_evidence (monitor_evidence m) j) js"
  shows "\<not> encoder_liveness_monitor_is_live (Some (foldl liveness_update (liveness_update m i) js))"
proof -
  have "stalled_on (monitor_evidence m) (liveness_update m i)"
    using assms(1-5)
    by (auto simp: stalled_on_def monitor_evidence_def liveness_update_def sample_advanced_def)
  then have "stalled_on (monitor_evidence m) (foldl liveness_update (liveness_update m i) js)"
    using assms(6) by (rule stall.latched_run)
  then show ?thesis by (simp add: stalled_on_def)
qed

theorem stall_survives_wrap_witness:
  "\<not> encoder_liveness_monitor_is_live (Some (foldl liveness_update (liveness_update
      \<lparr>lm_maximum_stall_us = 3000, lm_last_sample_count = 5, lm_last_sample_timestamp_us = 100,
       lm_sample_seen = True, lm_live = True, lm_initialized = True\<rparr>
      \<lparr>li_feedback_initialized = True, li_sample_count = 5, li_sample_timestamp_us = 100,
       li_now_us = 5000\<rparr>)
      [\<lparr>li_feedback_initialized = True, li_sample_count = 5, li_sample_timestamp_us = 100,
        li_now_us = 200\<rparr>]))"
  by (rule stall_survives_wrap) (simp_all add: monitor_evidence_def new_evidence_def)

end
