(* ===== verification/Dma_Ring.thy ===== *)
theory Dma_Ring
  imports Prelude
begin

text \<open>
  The receive ring cursor, \<open>firmware/src/drivers/dma_ring.c\<close>. DMA writes the bytes of the line
  round and round into a ring and publishes a wrapping count of bytes produced; foreground copies
  out what it has not consumed and accounts for what it lost. The specification is the unbounded
  stream of produced bytes: a copy returns a contiguous piece of that stream that starts where the
  previous one ended, or, when the producer lapped the cursor, at the oldest byte the ring still
  holds. Array plus size is a list: \<open>ring_size\<close> is the length of \<open>ring\<close>.
\<close>

section \<open>The cursor\<close>

record dma_ring_cursor =
  consumed_total :: u32
  overrun_count :: u32
  dropped_bytes :: u32

fun dma_ring_cursor_init :: "dma_ring_cursor ptr \<Rightarrow> u32 \<Rightarrow> dma_ring_cursor ptr" where
  "dma_ring_cursor_init None produced = None"
| "dma_ring_cursor_init (Some c) produced =
     Some \<lparr>consumed_total = produced, overrun_count = 0, dropped_bytes = 0\<rparr>"

text \<open>The copy loop: one byte, one consumed count, and the index wraps at the ring's end.\<close>

fun ring_copy_loop :: "bytes \<Rightarrow> nat \<Rightarrow> u32 \<Rightarrow> nat \<Rightarrow> bytes \<times> u32" where
  "ring_copy_loop ring index consumed 0 = ([], consumed)"
| "ring_copy_loop ring index consumed (Suc n) =
     (let (rest, consumed') = ring_copy_loop ring
            (if Suc index = length ring then 0 else Suc index) (consumed + 1) n
      in (ring ! index # rest, consumed'))"

definition ring_account :: "dma_ring_cursor \<Rightarrow> nat \<Rightarrow> u32 \<Rightarrow> u32 \<times> dma_ring_cursor" where
  "ring_account c ring_size produced =
     (let available = produced - consumed_total c in
      if of_nat ring_size < available then
        (let dropped = available - of_nat ring_size in
         (of_nat ring_size, c\<lparr>consumed_total := consumed_total c + dropped,
                              dropped_bytes := dropped_bytes c + dropped,
                              overrun_count := overrun_count c + 1\<rparr>))
      else (available, c))"

fun dma_ring_copy ::
  "dma_ring_cursor ptr \<Rightarrow> bytes ptr \<Rightarrow> u32 \<Rightarrow> bool \<Rightarrow> nat \<Rightarrow> bytes \<times> dma_ring_cursor ptr" where
  "dma_ring_copy None ring produced has_destination capacity = ([], None)"
| "dma_ring_copy (Some c) None produced has_destination capacity = ([], Some c)"
| "dma_ring_copy (Some c) (Some ring) produced has_destination capacity =
     (if length ring = 0 \<or> 4294967295 < length ring \<or> (\<not> has_destination \<and> capacity \<noteq> 0)
      then ([], Some c)
      else (let (available, c) = ring_account c (length ring) produced;
                copy_count = (if capacity < unat available then capacity else unat available);
                index = unat (consumed_total c) mod length ring;
                (copied, consumed) = ring_copy_loop ring index (consumed_total c) copy_count
            in (copied, Some (c\<lparr>consumed_total := consumed\<rparr>))))"

section \<open>The stream\<close>

text \<open>
  \<open>ring_holds s P ring\<close>: after \<open>P\<close> bytes of the stream \<open>s\<close> were produced, the ring holds the
  last \<open>length ring\<close> of them, each at its position modulo the ring size.
\<close>

definition ring_holds :: "(nat \<Rightarrow> u8) \<Rightarrow> nat \<Rightarrow> bytes \<Rightarrow> bool" where
  "ring_holds s P ring \<longleftrightarrow>
     (\<forall>i. P - length ring \<le> i \<and> i < P \<longrightarrow> ring ! (i mod length ring) = s i)"

definition stream_piece :: "(nat \<Rightarrow> u8) \<Rightarrow> nat \<Rightarrow> nat \<Rightarrow> bytes" where
  "stream_piece s i n = map s [i..<i + n]"

lemma stream_piece_Suc: "stream_piece s i (Suc n) = s i # stream_piece s (Suc i) n"
  by (simp add: stream_piece_def upt_rec)

lemma ring_copy_loop_stream:
  assumes "0 < length ring" and "\<And>k. k < n \<Longrightarrow> ring ! ((i + k) mod length ring) = s (i + k)"
  shows "ring_copy_loop ring (i mod length ring) consumed n
       = (stream_piece s i n, consumed + of_nat n)"
  using assms(2)
proof (induction n arbitrary: i consumed)
  case 0
  then show ?case by (simp add: stream_piece_def)
next
  case (Suc n)
  let ?N = "length ring"
  have idx: "(if Suc (i mod ?N) = ?N then 0 else Suc (i mod ?N)) = Suc i mod ?N"
    by (simp add: mod_Suc)
  have "ring ! ((Suc i + k) mod ?N) = s (Suc i + k)" if "k < n" for k
    using Suc.prems [of "Suc k"] that by simp
  then have "ring_copy_loop ring (Suc i mod ?N) (consumed + 1) n
      = (stream_piece s (Suc i) n, consumed + 1 + of_nat n)"
    by (rule Suc.IH)
  moreover have "ring ! (i mod ?N) = s i" using Suc.prems [of 0] by simp
  ultimately show ?case
    by (simp only: ring_copy_loop.simps idx Let_def prod.case stream_piece_Suc of_nat_Suc add.assoc)
qed

text \<open>Counters that wrap, against the true counts \<open>C \<le> P\<close>.\<close>

lemma unat_count_diff:
  assumes "C \<le> P" and "P - C < 4294967296"
  shows "unat (of_nat P - of_nat C :: u32) = P - C"
proof -
  have "(of_nat P - of_nat C :: u32) = of_nat (P - C)" using assms(1) by (simp add: of_nat_diff)
  then show ?thesis using assms(2) by (simp add: unat_of_nat)
qed

lemma ring_account_counts:
  assumes "C \<le> P" and "P - C < 4294967296" and "consumed_total c = of_nat C"
    and "N \<le> 4294967295"
  defines "C' \<equiv> max C (P - N)"
  shows "ring_account c N (of_nat P) = (of_nat (P - C'),
           c\<lparr>consumed_total := of_nat C', dropped_bytes := dropped_bytes c + of_nat (C' - C),
             overrun_count := overrun_count c + of_bool (N < P - C)\<rparr>)"
proof (cases "N < P - C")
  case True
  then have C': "C' = P - N" and le: "N \<le> P" "C \<le> P - N" unfolding C'_def by linarith+
  have "(of_nat N :: u32) < of_nat P - of_nat C"
    using True assms unat_count_diff [OF assms(1,2)] by (simp add: word_less_nat_alt unat_of_nat)
  moreover have "(of_nat P - of_nat C - of_nat N :: u32) = of_nat (C' - C)"
    using True C' le assms(1) by (simp add: of_nat_diff)
  ultimately show ?thesis
    using True C' le assms(1,3) by (simp add: ring_account_def Let_def of_nat_diff)
next
  case False
  then have C': "C' = C" unfolding C'_def using assms(1) by simp
  have "\<not> (of_nat N :: u32) < of_nat P - of_nat C"
    using False assms unat_count_diff [OF assms(1,2)] by (simp add: word_less_nat_alt unat_of_nat)
  with False C' assms(1,3) show ?thesis
    by (simp add: ring_account_def Let_def of_nat_diff)
qed

lemma unat_mod_ring:
  assumes "N dvd 4294967296"
  shows "unat (of_nat i :: u32) mod N = i mod N"
  using assms by (simp add: unat_of_nat mod_mod_cancel)

text \<open>
  C15. The ring copy is a faithful reader of the byte stream. Let the ring hold the tail of the
  stream after \<open>P\<close> produced bytes, the cursor stand at \<open>C\<close>, and the ring size divide \<open>2^32\<close>.
  Then the copy returns the stream from \<open>max C (P - size)\<close> on, as many bytes as are there and fit;
  the cursor moves to the end of what was returned, also when the 32-bit counts have wrapped; and
  the bytes the producer overwrote are added to the dropped count, with one overrun.
\<close>

theorem dma_ring_copy_reads_stream:
  fixes capacity :: nat
  assumes "ring_holds s P ring" and "ring \<noteq> []" and "length ring dvd 4294967296"
    and "length ring \<le> 4294967295"
    and "C \<le> P" and "P - C < 4294967296" and "consumed_total c = of_nat C"
  defines "C' \<equiv> max C (P - length ring)"
  defines "n \<equiv> min capacity (P - C')"
  shows "dma_ring_copy (Some c) (Some ring) (of_nat P) True capacity =
           (stream_piece s C' n,
            Some (c\<lparr>consumed_total := of_nat (C' + n),
                    dropped_bytes := dropped_bytes c + of_nat (C' - C),
                    overrun_count := overrun_count c + of_bool (length ring < P - C)\<rparr>))"
proof -
  let ?N = "length ring"
  have C'P: "C' \<le> P" "P - C' \<le> ?N" unfolding C'_def using assms(5) by auto
  have acc: "ring_account c ?N (of_nat P) = (of_nat (P - C'),
           c\<lparr>consumed_total := of_nat C', dropped_bytes := dropped_bytes c + of_nat (C' - C),
             overrun_count := overrun_count c + of_bool (?N < P - C)\<rparr>)"
    unfolding C'_def using assms(5,6,7,4) by (rule ring_account_counts)
  have "unat (of_nat (P - C') :: u32) = P - C'"
    using unat_count_diff [of C' P] C'P assms(4) by (simp add: of_nat_diff)
  then have n: "(if capacity < unat (of_nat (P - C') :: u32) then capacity
                 else unat (of_nat (P - C') :: u32)) = n"
    unfolding n_def by simp
  have "ring ! ((C' + k) mod ?N) = s (C' + k)" if "k < n" for k
  proof -
    have "P - ?N \<le> C' + k \<and> C' + k < P"
      using that C'P unfolding n_def C'_def by linarith
    with assms(1) show ?thesis unfolding ring_holds_def by blast
  qed
  then have loop: "ring_copy_loop ring (C' mod ?N) (of_nat C') n
      = (stream_piece s C' n, of_nat C' + of_nat n)"
    using assms(2) by (intro ring_copy_loop_stream) simp_all
  show ?thesis
    using assms(2,4) unat_mod_ring [OF assms(3), of C']
    by (simp add: acc n loop Let_def)
qed

theorem dma_ring_copy_reads_stream_witness:
  "dma_ring_copy (Some \<lparr>consumed_total = of_nat 1, overrun_count = 0, dropped_bytes = 0\<rparr>)
     (Some [104, 105, 102, 103]) (of_nat 6) True 3
   = (stream_piece (\<lambda>i. 100 + of_nat i) 2 3,
      Some \<lparr>consumed_total = of_nat 5, overrun_count = 1, dropped_bytes = 1\<rparr>)"
proof -
  have h: "ring_holds (\<lambda>i. 100 + of_nat i) 6 [104, 105, 102, 103]"
    unfolding ring_holds_def
  proof (intro allI impI)
    fix i :: nat
    assume "6 - length [104, 105, 102, 103 :: u8] \<le> i \<and> i < 6"
    then have "i = 2 \<or> i = 3 \<or> i = 4 \<or> i = 5" by auto
    then show "[104, 105, 102, 103] ! (i mod length [104, 105, 102, 103 :: u8]) = 100 + of_nat i"
      by auto
  qed
  have d: "length [104, 105, 102, 103 :: u8] dvd 4294967296"
    by (rule dvdI [of _ _ 1073741824]) simp
  show ?thesis
    using dma_ring_copy_reads_stream
      [OF h _ d, of 1 "\<lparr>consumed_total = of_nat 1, overrun_count = 0, dropped_bytes = 0\<rparr>" 3]
    by (simp del: dma_ring_copy.simps flip: numeral_2_eq_2)
qed

text \<open>
  The copy is bounded: it never returns more bytes than the destination holds nor more than
  the ring size, whatever the cursor and the published count are (also when the producer count has
  jumped arbitrarily), and a missing destination, an empty ring or a missing ring gives no byte.
\<close>

theorem dma_ring_copy_bounded:
  "length (fst (dma_ring_copy (Some c) (Some ring) produced has_destination capacity))
     \<le> min capacity (length ring)"
proof -
  have len: "length (fst (ring_copy_loop ring i k n)) = n" for i k n
    by (induction n arbitrary: i k) (auto simp: Let_def split_def)
  have "unat (fst (ring_account c (length ring) produced)) \<le> length ring" if "length ring \<le> 4294967295"
    using that by (simp add: ring_account_def Let_def unat_of_nat word_less_nat_alt)
  then show ?thesis
    by (auto simp: Let_def split_def len)
qed

end
