(* ===== verification/Mt6816.thy ===== *)
theory Mt6816
  imports Prelude
begin

text \<open>
  The magnetic encoder's register decoder, \<open>firmware/src/drivers/mt6816.c\<close>: the parity loop
  and \<open>mt6816_decode_registers\<close>. The loop is shown to compute the parity of the number of set
  bits, so a sample with one wrong bit in its two angle registers is always refused.
\<close>

section \<open>Data and operations\<close>

definition MT6816_ANGLE_RAW_MAX :: u16 where "MT6816_ANGLE_RAW_MAX = 16383"
definition MT6816_FLAG_NO_MAGNET :: u8 where "MT6816_FLAG_NO_MAGNET = 1"
definition MT6816_FLAG_OVER_SPEED :: u8 where "MT6816_FLAG_OVER_SPEED = 2"
definition MT6816_NO_MAGNET_BIT :: u8 where "MT6816_NO_MAGNET_BIT = 2"
definition MT6816_OVER_SPEED_BIT :: u8 where "MT6816_OVER_SPEED_BIT = 8"

datatype mt6816_status =
    MT6816_STATUS_NOT_ATTEMPTED | MT6816_STATUS_OK | MT6816_STATUS_INVALID_ARGUMENT
  | MT6816_STATUS_TRANSPORT_ERROR | MT6816_STATUS_PARITY_ERROR

record mt6816_sample =
  ms_angle_raw :: u16
  ms_flags :: u8
  ms_register_03 :: u8
  ms_register_04 :: u8
  ms_register_05 :: u8

function parity_loop :: "u16 \<Rightarrow> u32 \<Rightarrow> u32" where
  "parity_loop value parity =
     (if value \<noteq> 0 then parity_loop (drop_bit 1 value) (parity XOR ucast (value AND 1))
      else parity)"
  by pat_completeness auto
termination
proof (relation "measure (unat \<circ> fst)")
  fix v :: u16 and p :: u32
  assume "v \<noteq> 0"
  then have "0 < unat v" by (simp add: unat_gt_0)
  moreover have "unat (drop_bit 1 v) = unat v div 2"
    by (simp add: drop_bit_eq_div unat_div_distrib)
  ultimately have "unat (drop_bit 1 v) < unat v" by simp
  then show "((drop_bit 1 v, p XOR ucast (v AND 1)), v, p) \<in> measure (unat \<circ> fst)" by simp
qed simp

declare parity_loop.simps [simp del]

definition register_pair :: "u8 \<Rightarrow> u8 \<Rightarrow> u16" where
  "register_pair r3 r4 = push_bit 8 (ucast r3) OR ucast r4"

definition parity_is_even :: "u8 \<Rightarrow> u8 \<Rightarrow> bool" where
  "parity_is_even r3 r4 \<longleftrightarrow> parity_loop (register_pair r3 r4) 0 = 0"

definition mt6816_candidate :: "u8 \<Rightarrow> u8 \<Rightarrow> u8 \<Rightarrow> mt6816_sample" where
  "mt6816_candidate r3 r4 r5 =
     (let flags = 0;
          flags = (if r4 AND MT6816_NO_MAGNET_BIT \<noteq> 0 then flags OR MT6816_FLAG_NO_MAGNET else flags);
          flags = (if r5 AND MT6816_OVER_SPEED_BIT \<noteq> 0 then flags OR MT6816_FLAG_OVER_SPEED else flags)
      in \<lparr>ms_angle_raw = push_bit 6 (ucast r3) OR ucast (drop_bit 2 r4), ms_flags = flags,
          ms_register_03 = r3, ms_register_04 = r4, ms_register_05 = r5\<rparr>)"

fun mt6816_decode_registers ::
  "u8 \<Rightarrow> u8 \<Rightarrow> u8 \<Rightarrow> mt6816_sample ptr \<Rightarrow> mt6816_status \<times> mt6816_sample ptr" where
  "mt6816_decode_registers r3 r4 r5 None = (MT6816_STATUS_INVALID_ARGUMENT, None)"
| "mt6816_decode_registers r3 r4 r5 (Some sample) =
     (if \<not> parity_is_even r3 r4 then (MT6816_STATUS_PARITY_ERROR, Some sample)
      else (MT6816_STATUS_OK, Some (mt6816_candidate r3 r4 r5)))"

section \<open>Parity\<close>

text \<open>The number of set bits below position \<open>n\<close>.\<close>

definition set_bits_below :: "nat \<Rightarrow> 'a::len word \<Rightarrow> nat" where
  "set_bits_below n w = (\<Sum>i<n. of_bool (bit w i))"

lemma set_bits_below_drop:
  "set_bits_below (Suc n) w = of_bool (bit w 0) + set_bits_below n (drop_bit 1 w)"
  unfolding set_bits_below_def by (subst sum.lessThan_Suc_shift) (simp add: bit_simps)

lemma set_bits_below_16: "set_bits_below (Suc 16) (w :: u16) = set_bits_below 16 w"
proof -
  have "\<not> bit w 16" using bit_imp_le_length [of w 16] by auto
  then show ?thesis unfolding set_bits_below_def by (subst sum.lessThan_Suc) simp
qed

lemma parity_loop_eq:
  "parity_loop v p = p XOR of_bool (odd (set_bits_below 16 v))"
proof (induction v p rule: parity_loop.induct)
  case (1 v p)
  show ?case
  proof (cases "v = 0")
    case True
    then show ?thesis by (subst parity_loop.simps) (simp add: set_bits_below_def)
  next
    case False
    let ?k = "set_bits_below 16 (drop_bit 1 v)"
    have low: "ucast (v AND 1) = (of_bool (bit v 0) :: u32)"
      by (simp add: and_one_eq mod_2_eq_odd bit_0)
    have cnt: "set_bits_below 16 v = of_bool (bit v 0) + ?k"
      using set_bits_below_drop [of 16 v] set_bits_below_16 [of v] by simp
    have "parity_loop v p = parity_loop (drop_bit 1 v) (p XOR ucast (v AND 1))"
      using False by (simp add: parity_loop.simps [of v p])
    also have "\<dots> = (p XOR of_bool (bit v 0)) XOR of_bool (odd ?k)"
      using "1.IH" [OF False] low by simp
    also have "\<dots> = p XOR of_bool (odd (set_bits_below 16 v))"
      unfolding cnt by (cases "bit v 0"; cases "odd ?k") (simp_all add: xor.assoc)
    finally show ?thesis .
  qed
qed

lemma register_pair_bit:
  "bit (register_pair r3 r4) i \<longleftrightarrow> i < 8 \<and> bit r4 i \<or> 8 \<le> i \<and> i < 16 \<and> bit r3 (i - 8)"
  using bit_imp_le_length [of r4 i] by (auto simp: register_pair_def bit_simps)

lemma set_bits_register_pair:
  "set_bits_below 16 (register_pair r3 r4) = set_bits_below 8 r4 + set_bits_below 8 r3"
proof -
  have "(\<Sum>i<(16::nat). of_bool (bit (register_pair r3 r4) i) :: nat)
      = (\<Sum>i<8. of_bool (bit (register_pair r3 r4) i)) +
        (\<Sum>i<8. of_bool (bit (register_pair r3 r4) (i + 8)))"
    using sum.nat_group [of "\<lambda>i. of_bool (bit (register_pair r3 r4) i) :: nat" 8 2]
    by (simp add: numeral_eq_Suc)
  then show ?thesis
    by (simp add: set_bits_below_def register_pair_bit)
qed

lemma parity_is_even_iff:
  "parity_is_even r3 r4 \<longleftrightarrow> even (set_bits_below 8 r3 + set_bits_below 8 r4)"
  by (simp add: parity_is_even_def parity_loop_eq set_bits_register_pair add.commute)

lemma set_bits_flip:
  assumes "k < n" and "n \<le> LENGTH('a)"
  shows "odd (set_bits_below n (flip_bit k (w :: 'a::len word))) \<longleftrightarrow> even (set_bits_below n w)"
proof -
  let ?S = "\<lambda>w :: 'a word. \<Sum>i\<in>{..<n} - {k}. of_bool (bit w i) :: nat"
  have split: "set_bits_below n v = of_bool (bit v k) + ?S v" for v :: "'a word"
    unfolding set_bits_below_def using assms(1) by (subst sum.remove [of _ k]) simp_all
  have "?S (flip_bit k w) = ?S w"
    by (rule sum.cong) (use assms in \<open>auto simp: bit_simps\<close>)
  moreover have "bit (flip_bit k w) k \<longleftrightarrow> \<not> bit w k"
    using assms by (auto simp: bit_simps)
  ultimately show ?thesis by (simp add: split)
qed

text \<open>
  C16. One wrong bit is never accepted. If a register triple decodes, then flipping any single
  bit of either angle register makes the decoder report a parity error and leave the caller's
  sample untouched.
\<close>

theorem mt6816_single_bit_error_detected:
  assumes "fst (mt6816_decode_registers r3 r4 r5 (Some u)) = MT6816_STATUS_OK" and "k < 8"
  shows "mt6816_decode_registers (flip_bit k r3) r4 r5 (Some t) = (MT6816_STATUS_PARITY_ERROR, Some t) \<and>
         mt6816_decode_registers r3 (flip_bit k r4) r5 (Some t) = (MT6816_STATUS_PARITY_ERROR, Some t)"
proof -
  have "even (set_bits_below 8 r3 + set_bits_below 8 r4)"
    using assms(1) by (simp add: parity_is_even_iff split: if_splits)
  then show ?thesis
    using set_bits_flip [OF assms(2), of r3] set_bits_flip [OF assms(2), of r4]
    by (auto simp: parity_is_even_iff)
qed

theorem mt6816_single_bit_error_detected_witness:
  "mt6816_decode_registers (flip_bit 3 0) 3 0
     (Some \<lparr>ms_angle_raw = 7, ms_flags = 0, ms_register_03 = 0, ms_register_04 = 0, ms_register_05 = 0\<rparr>)
   = (MT6816_STATUS_PARITY_ERROR,
      Some \<lparr>ms_angle_raw = 7, ms_flags = 0, ms_register_03 = 0, ms_register_04 = 0, ms_register_05 = 0\<rparr>)"
  by (rule mt6816_single_bit_error_detected [THEN conjunct1])
    (simp_all add: parity_is_even_def register_pair_def parity_loop.simps)

text \<open>
  The decoded angle is the 14-bit field of the two registers, high byte first, and at most
  16383; the two status flags are the sensor's magnet and speed bits.
\<close>

theorem mt6816_angle_field:
  assumes "mt6816_decode_registers r3 r4 r5 (Some u) = (MT6816_STATUS_OK, Some sample)"
  shows "unat (ms_angle_raw sample) = unat r3 * 64 + unat r4 div 4 \<and>
         ms_angle_raw sample \<le> MT6816_ANGLE_RAW_MAX \<and>
         (ms_flags sample AND MT6816_FLAG_NO_MAGNET \<noteq> 0 \<longleftrightarrow> bit r4 1) \<and>
         (ms_flags sample AND MT6816_FLAG_OVER_SPEED \<noteq> 0 \<longleftrightarrow> bit r5 3)"
proof -
  have s: "sample = mt6816_candidate r3 r4 r5" using assms by (simp split: if_splits)
  have disj: "push_bit 6 (ucast r3) AND ucast (drop_bit 2 r4) = (0 :: u16)"
    using bit_imp_le_length [of r4] by (intro bit_word_eqI) (force simp: bit_simps)
  have hi: "unat (push_bit 6 (ucast r3) :: u16) = unat r3 * 64"
    using unsigned_less [of r3, where ?'a = nat]
    by (simp add: push_bit_eq_mult unat_word_ariths)
  have lo: "unat (ucast (drop_bit 2 r4) :: u16) = unat r4 div 4"
    by (simp add: drop_bit_eq_div unat_div_distrib)
  have r: "unat r3 < 256" "unat r4 < 256"
    using unsigned_less [of r3, where ?'a = nat] unsigned_less [of r4, where ?'a = nat] by simp_all
  have ang: "unat (ms_angle_raw sample) = unat r3 * 64 + unat r4 div 4"
    using hi lo r unat_or_disjoint [OF disj] by (simp add: s mt6816_candidate_def Let_def)
  have and2: "x AND 2 \<noteq> 0 \<longleftrightarrow> bit x 1" and and8: "x AND 8 \<noteq> 0 \<longleftrightarrow> bit x 3" for x :: u8
    using and_exp_eq_0_iff_not_bit [of x 1] and_exp_eq_0_iff_not_bit [of x 3] by simp_all
  show ?thesis
  proof (intro conjI)
    show "ms_angle_raw sample \<le> MT6816_ANGLE_RAW_MAX"
      using ang r by (simp add: word_le_nat_alt MT6816_ANGLE_RAW_MAX_def)
  qed (use ang and2 and8 in \<open>simp_all add: s mt6816_candidate_def Let_def MT6816_NO_MAGNET_BIT_def
      MT6816_FLAG_NO_MAGNET_def MT6816_FLAG_OVER_SPEED_def MT6816_OVER_SPEED_BIT_def\<close>)
qed

theorem mt6816_angle_field_witness:
  "unat (ms_angle_raw (mt6816_candidate 128 4 8)) = 128 * 64 + 4 div 4"
  using mt6816_angle_field
    [of 128 4 8 "\<lparr>ms_angle_raw = 0, ms_flags = 0, ms_register_03 = 0, ms_register_04 = 0,
        ms_register_05 = 0\<rparr>" "mt6816_candidate 128 4 8"]
  by (simp add: parity_is_even_def register_pair_def parity_loop.simps)

end
