(* ===== verification/Framing.thy ===== *)
theory Framing
  imports Prelude
begin

text \<open>
  The frame codec of \<open>firmware/src/protocol/native_protocol.c\<close>: big-endian fields,
  CRC-16/CCITT-FALSE, COBS byte stuffing, and the encoder and decoder of a wire frame. A
  C buffer with its length is a list; the COBS encoder patches code bytes into a destination
  buffer, which is modelled as a list updated by index. The decoder's destination is written in
  order only, so it is the list of the bytes written; the C result 0 (failure, or nothing decoded)
  is the empty list. The lemmas show that the stuffing loop computes the textbook COBS blocks, that
  it never writes past its capacity, that encoding and decoding round-trip for every frame the
  sender can build, and that a CRC mismatch exposes every corruption within one byte.
\<close>

section \<open>Big-endian fields\<close>

definition write_u16_be :: "u16 \<Rightarrow> bytes" where
  "write_u16_be v = [ucast (drop_bit 8 v), ucast v]"

definition write_u32_be :: "u32 \<Rightarrow> bytes" where
  "write_u32_be v = [ucast (drop_bit 24 v), ucast (drop_bit 16 v), ucast (drop_bit 8 v), ucast v]"

definition read_u16_be :: "u8 \<Rightarrow> u8 \<Rightarrow> u16" where
  "read_u16_be b0 b1 = push_bit 8 (ucast b0) OR ucast b1"

definition read_u32_be :: "u8 \<Rightarrow> u8 \<Rightarrow> u8 \<Rightarrow> u8 \<Rightarrow> u32" where
  "read_u32_be b0 b1 b2 b3 =
     ((push_bit 24 (ucast b0) OR push_bit 16 (ucast b1)) OR push_bit 8 (ucast b2)) OR ucast b3"

lemma length_write [simp]: "length (write_u16_be v) = 2" "length (write_u32_be w) = 4"
  by (simp_all add: write_u16_be_def write_u32_be_def)

lemma read_write_u16 [simp]: "read_u16_be (ucast (drop_bit 8 v)) (ucast v) = v"
  by (rule bit_word_eqI) (auto simp: read_u16_be_def bit_simps)

lemma read_write_u32 [simp]:
  "read_u32_be (ucast (drop_bit 24 v)) (ucast (drop_bit 16 v)) (ucast (drop_bit 8 v)) (ucast v) = v"
proof (rule bit_word_eqI)
  fix n
  assume "n < LENGTH(32)"
  then consider "n < 8" | "8 \<le> n" "n < 16" | "16 \<le> n" "n < 24" | "24 \<le> n" "n < 32"
    by fastforce
  then show "bit (read_u32_be (ucast (drop_bit 24 v)) (ucast (drop_bit 16 v))
      (ucast (drop_bit 8 v)) (ucast v)) n = bit v n"
    by cases (auto simp: read_u32_be_def bit_simps)
qed

lemma write_read_u16: "write_u16_be (read_u16_be a b) = [a, b]"
proof -
  have "ucast (drop_bit 8 (read_u16_be a b)) = a"
    by (rule bit_word_eqI) (use bit_imp_le_length [of b] in \<open>auto simp: read_u16_be_def bit_simps\<close>)
  moreover have "ucast (read_u16_be a b) = b"
    by (rule bit_word_eqI) (auto simp: read_u16_be_def bit_simps)
  ultimately show ?thesis by (simp add: write_u16_be_def)
qed

lemma read_u16_be_inject: "read_u16_be a b = read_u16_be c d \<longleftrightarrow> a = c \<and> b = d"
  by (metis write_read_u16 list.inject)

section \<open>CRC-16/CCITT-FALSE\<close>

definition crc16_bit :: "u16 \<Rightarrow> u16" where
  "crc16_bit crc = (if crc AND 0x8000 \<noteq> 0 then push_bit 1 crc XOR 0x1021 else push_bit 1 crc)"

definition crc16_byte :: "u16 \<Rightarrow> u8 \<Rightarrow> u16" where
  "crc16_byte crc byte = (crc16_bit ^^ 8) (crc XOR push_bit 8 (ucast byte))"

fun native_protocol_crc16_ccitt_false :: "bytes ptr \<Rightarrow> nat \<Rightarrow> u16" where
  "native_protocol_crc16_ccitt_false None len = (if len \<noteq> 0 then 0 else 0xFFFF)"
| "native_protocol_crc16_ccitt_false (Some bytes) len = foldl crc16_byte 0xFFFF (take len bytes)"

abbreviation crc16 :: "bytes \<Rightarrow> u16" where
  "crc16 bs \<equiv> native_protocol_crc16_ccitt_false (Some bs) (length bs)"

lemma crc16_bit_msb: "crc AND 0x8000 \<noteq> 0 \<longleftrightarrow> bit (crc :: u16) 15"
  using and_exp_eq_0_iff_not_bit [of crc 15] by simp

lemma crc16_bit_low: "bit (crc16_bit crc) 0 \<longleftrightarrow> bit crc 15"
proof -
  have "\<not> bit (push_bit 1 crc) 0" unfolding bit_push_bit_iff by simp
  then show ?thesis
    by (simp only: crc16_bit_def crc16_bit_msb bit_xor_iff if_distrib [of "\<lambda>x. bit x 0"]) simp
qed

lemma crc16_bit_inject: "crc16_bit a = crc16_bit b \<longleftrightarrow> a = b"
proof
  assume eq: "crc16_bit a = crc16_bit b"
  then have top: "bit a 15 = bit b 15" using crc16_bit_low by metis
  with eq have "push_bit 1 a = push_bit 1 b"
    by (auto simp: crc16_bit_def crc16_bit_msb xor_right_inject split: if_splits)
  then have shifted: "bit (push_bit 1 a) (Suc n) = bit (push_bit 1 b) (Suc n)" for n by metis
  show "a = b"
  proof (rule bit_word_eqI)
    fix n
    assume "n < LENGTH(16)"
    then show "bit a n = bit b n"
      using top shifted [of n] unfolding bit_push_bit_iff by (cases "n = 15") auto
  qed
qed simp

lemma crc16_bits_inject: "(crc16_bit ^^ n) a = (crc16_bit ^^ n) b \<longleftrightarrow> a = b"
  by (induction n) (simp_all add: crc16_bit_inject)

lemma crc16_byte_inject_state: "crc16_byte a x = crc16_byte b x \<longleftrightarrow> a = b"
  by (simp add: crc16_byte_def crc16_bits_inject xor_right_inject)

lemma crc16_byte_inject_byte: "crc16_byte a x = crc16_byte a y \<longleftrightarrow> x = y"
proof -
  have "ucast (drop_bit 8 (push_bit 8 (ucast z) :: u16)) = z" for z :: u8
    by (rule bit_word_eqI) (auto simp: bit_simps)
  then have "push_bit 8 (ucast x) = (push_bit 8 (ucast y) :: u16) \<longleftrightarrow> x = y" by metis
  then show ?thesis
    by (simp only: crc16_byte_def crc16_bits_inject xor_left_inject)
qed

lemma crc16_fold_inject: "foldl crc16_byte a xs = foldl crc16_byte b xs \<longleftrightarrow> a = b"
  by (induction xs arbitrary: a b) (simp_all add: crc16_byte_inject_state)

lemma crc16_one_byte:
  "x \<noteq> y \<Longrightarrow> crc16 (as @ x # bs) \<noteq> crc16 (as @ y # bs)"
  by (simp add: crc16_fold_inject crc16_byte_inject_byte)

section \<open>COBS encoding\<close>

fun cobs_encode_loop :: "bytes \<Rightarrow> nat \<Rightarrow> nat \<Rightarrow> nat \<Rightarrow> u8 \<Rightarrow> bytes \<Rightarrow> nat \<times> bytes" where
  "cobs_encode_loop [] capacity write_index code_index code destination =
     (write_index, destination[code_index := code])"
| "cobs_encode_loop (b # source) capacity write_index code_index code destination =
     (if b = 0 then
        (let destination = destination[code_index := code]
         in if capacity < Suc write_index then (0, destination)
            else cobs_encode_loop source capacity (Suc write_index) write_index 1 destination)
      else if capacity \<le> write_index then (0, destination)
      else
        (let destination = destination[write_index := b];
             write_index = Suc write_index;
             code = code + 1
         in if code = 0xFF then
              (let destination = destination[code_index := code]
               in if capacity < Suc write_index then (0, destination)
                  else cobs_encode_loop source capacity (Suc write_index) write_index 1 destination)
            else cobs_encode_loop source capacity write_index code_index code destination))"

definition cobs_encode :: "bytes \<Rightarrow> bytes \<Rightarrow> nat \<Rightarrow> nat \<times> bytes" where
  "cobs_encode source destination capacity =
     (if capacity = 0 then (0, destination)
      else cobs_encode_loop source capacity 1 0 1 destination)"

text \<open>The reference: maximal blocks of non-zero bytes, each preceded by its code byte.\<close>

fun cobs_blocks :: "bytes \<Rightarrow> bytes \<Rightarrow> bytes" where
  "cobs_blocks acc [] = of_nat (length acc + 1) # acc"
| "cobs_blocks acc (b # bs) =
     (if b = 0 then of_nat (length acc + 1) # acc @ cobs_blocks [] bs
      else if length acc = 253 then 0xFF # acc @ b # cobs_blocks [] bs
      else cobs_blocks (acc @ [b]) bs)"

abbreviation cobs_reference :: "bytes \<Rightarrow> bytes" where
  "cobs_reference bs \<equiv> cobs_blocks [] bs"

lemma cobs_blocks_nonempty [simp]: "cobs_blocks acc bs \<noteq> []"
  by (induction bs arbitrary: acc) simp_all

lemma cobs_blocks_min: "length acc < length (cobs_blocks acc bs)"
proof (induction bs arbitrary: acc)
  case (Cons b bs)
  from Cons.IH [of "acc @ [b]"] show ?case by simp
qed simp

lemma unat_code: "n < 255 \<Longrightarrow> unat (of_nat (n + 1) :: u8) = n + 1"
  by (simp add: unat_of_nat del: of_nat_Suc of_nat_add)

lemma code_byte_nonzero: "n < 255 \<Longrightarrow> (of_nat (n + 1) :: u8) \<noteq> 0"
  using unat_code [of n] by (metis add_is_0 unat_0 zero_neq_one)

lemma code_byte_full: "n < 255 \<Longrightarrow> (of_nat (n + 1) :: u8) = 0xFF \<longleftrightarrow> n = 254"
  using unat_code [of n] by (auto simp: word_unat_eq_iff)

lemma cobs_blocks_no_zero: "0 \<notin> set acc \<Longrightarrow> length acc < 254 \<Longrightarrow> 0 \<notin> set (cobs_blocks acc bs)"
proof (induction bs arbitrary: acc)
  case Nil
  then show ?case using code_byte_nonzero [of "length acc"] by (simp del: of_nat_Suc of_nat_add)
next
  case (Cons b bs)
  then show ?case
    using code_byte_nonzero [of "length acc"] by (simp del: of_nat_Suc of_nat_add)
qed

lemma length_cobs_blocks:
  "length acc + length bs < 254 \<Longrightarrow> length (cobs_blocks acc bs) = length acc + length bs + 1"
  by (induction bs arbitrary: acc) simp_all

text \<open>What the loop knows about its buffer: finished blocks, a hole for the code, the open block.\<close>

definition cobs_open :: "nat \<Rightarrow> nat \<Rightarrow> nat \<Rightarrow> u8 \<Rightarrow> bytes \<Rightarrow> bytes \<Rightarrow> bool" where
  "cobs_open capacity w ci code dst acc \<longleftrightarrow>
     w = ci + 1 + length acc \<and> length acc < 254 \<and> code = of_nat (length acc + 1) \<and>
     w \<le> capacity \<and> capacity \<le> length dst \<and> take (length acc) (drop (ci + 1) dst) = acc"

lemma cobs_open_close:
  assumes "cobs_open capacity w ci code dst acc"
  shows "take w (dst[ci := c]) = take ci dst @ c # acc"
proof -
  have ci: "ci < length dst" and w: "w = Suc (ci + length acc)"
    and acc: "take (length acc) (drop (Suc ci) dst) = acc"
    using assms by (auto simp: cobs_open_def)
  have "dst[ci := c] = take ci dst @ c # drop (Suc ci) dst"
    using ci by (simp add: upd_conv_take_nth_drop)
  with ci w acc show ?thesis by (simp add: min_def)
qed

lemma cobs_open_start:
  "w < capacity \<Longrightarrow> capacity \<le> length dst \<Longrightarrow> cobs_open capacity (Suc w) w 1 dst []"
  by (simp add: cobs_open_def)

lemma cobs_open_push:
  assumes "cobs_open capacity w ci code dst acc" and "w < capacity" and "length acc \<noteq> 253"
  shows "cobs_open capacity (Suc w) ci (code + 1) (dst[w := b]) (acc @ [b])"
proof -
  have w: "w = Suc (ci + length acc)" "w < length dst"
    and acc: "take (length acc) (drop (Suc ci) dst) = acc"
    using assms by (auto simp: cobs_open_def)
  have "take (Suc (length acc)) (drop (Suc ci) (dst[w := b])) = acc @ [b]"
    using w acc by (simp add: take_Suc_conv_app_nth drop_update_swap)
  with assms show ?thesis by (auto simp: cobs_open_def)
qed

lemma cobs_encode_loop_blocks:
  fixes bs :: bytes
  assumes "cobs_open capacity w ci code dst acc"
  defines "L \<equiv> cobs_encode_loop bs capacity w ci code dst"
    and "n \<equiv> ci + length (cobs_blocks acc bs)"
  shows "length (snd L) = length dst \<and> drop capacity (snd L) = drop capacity dst \<and>
         fst L = (if n \<le> capacity then n else 0) \<and>
         (n \<le> capacity \<longrightarrow> take n (snd L) = take ci dst @ cobs_blocks acc bs)"
  using assms(1) unfolding L_def n_def
proof (induction bs arbitrary: w ci code dst acc)
  case Nil
  have "code = of_nat (length acc + 1)" "w = ci + length (cobs_blocks acc [])" "w \<le> capacity"
    "ci < capacity"
    using Nil by (auto simp: cobs_open_def)
  with cobs_open_close [OF Nil, of code] show ?case by simp
next
  case (Cons b bs)
  have facts: "code = of_nat (length acc + 1)" "w = Suc (ci + length acc)" "w \<le> capacity"
    "capacity \<le> length dst" "ci < capacity" "length acc < 254"
    using Cons.prems by (auto simp: cobs_open_def)
  note close = cobs_open_close [OF Cons.prems]
  show ?case
  proof (cases "b = 0")
    case True
    have close': "take w (dst[ci := code]) = take ci dst @ code # acc" by (rule close)
    show ?thesis
    proof (cases "w < capacity")
      case False
      with True facts cobs_blocks_nonempty [of "[]" bs] show ?thesis
        by (cases "cobs_blocks [] bs") (auto simp del: of_nat_Suc of_nat_add)
    next
      case True
      then have "cobs_open capacity (Suc w) w 1 (dst[ci := code]) []"
        using facts by (intro cobs_open_start) simp_all
      from Cons.IH [OF this] True \<open>b = 0\<close> facts close' show ?thesis
        by (simp add: add.assoc del: of_nat_Suc of_nat_add)
    qed
  next
    case nz: False
    show ?thesis
    proof (cases "w < capacity")
      case False
      with nz facts cobs_blocks_min [of "acc @ [b]" bs] cobs_blocks_min [of "[]" bs]
      show ?thesis by auto
    next
      case room: True
      show ?thesis
      proof (cases "length acc = 253")
        case False
        have "code + 1 \<noteq> 0xFF"
          using code_byte_full [of "length acc + 1"] facts False by simp
        with Cons.IH [OF cobs_open_push [OF Cons.prems room False, of b]] nz room False facts
        show ?thesis by simp
      next
        case full: True
        have code: "code + 1 = 0xFF"
          using code_byte_full [of "length acc + 1"] facts full by simp
        have close2: "take (Suc w) ((dst[w := b])[ci := 0xFF]) = take ci dst @ 0xFF # acc @ [b]"
        proof -
          have "ci \<noteq> w" "w < length dst" using facts(2,4) room by simp_all
          then show ?thesis
            using close [of "0xFF"]
            by (simp add: list_update_swap [of w ci] take_Suc_conv_app_nth)
        qed
        show ?thesis
        proof (cases "Suc w < capacity")
          case False
          with nz room full code facts cobs_blocks_nonempty [of "[]" bs] show ?thesis
            by (cases "cobs_blocks [] bs") auto
        next
          case True
          then have "cobs_open capacity (Suc (Suc w)) (Suc w) 1 ((dst[w := b])[ci := 0xFF]) []"
            using facts by (intro cobs_open_start) simp_all
          from Cons.IH [OF this] True nz room full code facts close2 show ?thesis
            by (simp add: add.assoc add.left_commute)
        qed
      qed
    qed
  qed
qed

lemma cobs_encode_eq:
  assumes "capacity \<le> length dst"
  shows "length (snd (cobs_encode src dst capacity)) = length dst \<and>
         drop capacity (snd (cobs_encode src dst capacity)) = drop capacity dst \<and>
         fst (cobs_encode src dst capacity)
           = (if length (cobs_reference src) \<le> capacity then length (cobs_reference src) else 0) \<and>
         (length (cobs_reference src) \<le> capacity \<longrightarrow>
            take (length (cobs_reference src)) (snd (cobs_encode src dst capacity)) =
            cobs_reference src)"
proof (cases "capacity = 0")
  case True
  then show ?thesis by (simp add: cobs_encode_def)
next
  case False
  then have "cobs_open capacity 1 0 1 dst []"
    using assms cobs_open_start [of 0 capacity dst] by simp
  from cobs_encode_loop_blocks [OF this, of src] False show ?thesis
    by (simp add: cobs_encode_def)
qed

section \<open>COBS decoding\<close>

function cobs_decode_loop :: "bytes \<Rightarrow> nat \<Rightarrow> bytes \<Rightarrow> bytes" where
  "cobs_decode_loop [] capacity written = written"
| "cobs_decode_loop (code # rest) capacity written =
     (if code = 0 then []
      else (let copy_count = unat code - 1 in
            if length rest < copy_count \<or> capacity - length written < copy_count then []
            else (let written = written @ take copy_count rest;
                      rest = drop copy_count rest
                  in if code \<noteq> 0xFF \<and> rest \<noteq> [] then
                       (if capacity \<le> length written then []
                        else cobs_decode_loop rest capacity (written @ [0]))
                     else cobs_decode_loop rest capacity written)))"
  by pat_completeness auto
termination
  by (relation "measure (length \<circ> fst)") auto

declare cobs_decode_loop.simps(2) [simp del]

definition cobs_decode :: "bytes \<Rightarrow> nat \<Rightarrow> bytes" where
  "cobs_decode source capacity = (if source = [] then [] else cobs_decode_loop source capacity [])"

lemma cobs_decode_loop_bounded:
  "length written \<le> capacity \<Longrightarrow> length (cobs_decode_loop source capacity written) \<le> capacity"
proof (induction source capacity written rule: cobs_decode_loop.induct)
  case (1 capacity written)
  then show ?case by simp
next
  case (2 code rest capacity written)
  show ?case
    unfolding cobs_decode_loop.simps(2) Let_def
    using "2.IH" "2.prems" by (auto simp: Let_def min_def split: if_splits)
qed

lemma cobs_decode_bounded: "length (cobs_decode source capacity) \<le> capacity"
  by (simp add: cobs_decode_def cobs_decode_loop_bounded)

text \<open>One block: the decoder copies it and inserts the zero its code byte stands for.\<close>

lemma cobs_decode_short_block:
  assumes "length acc < 254" and "length written + length acc + of_bool (rest \<noteq> []) \<le> capacity"
  shows "cobs_decode_loop (of_nat (length acc + 1) # acc @ rest) capacity written
       = cobs_decode_loop rest capacity (written @ acc @ (if rest = [] then [] else [0]))"
proof -
  let ?c = "of_nat (length acc + 1) :: u8"
  have "?c \<noteq> 0" "unat ?c = length acc + 1" "?c \<noteq> 0xFF"
    using assms(1) code_byte_nonzero [of "length acc"] unat_code [of "length acc"]
      code_byte_full [of "length acc"] by simp_all
  then show ?thesis
    using assms(2) by (auto simp: cobs_decode_loop.simps(2) Let_def simp del: of_nat_Suc of_nat_add)
qed

lemma cobs_decode_full_block:
  assumes "length block = 254" and "length written + 254 \<le> capacity"
  shows "cobs_decode_loop (0xFF # block @ rest) capacity written
       = cobs_decode_loop rest capacity (written @ block)"
  using assms by (auto simp: cobs_decode_loop.simps(2) Let_def)

lemma cobs_decode_blocks:
  assumes "length acc < 254" and "length written + length acc + length bs \<le> capacity"
  shows "cobs_decode_loop (cobs_blocks acc bs) capacity written = written @ acc @ bs"
  using assms
proof (induction bs arbitrary: acc written)
  case Nil
  then show ?case using cobs_decode_short_block [of acc written "[]"] by simp
next
  case (Cons b bs)
  consider "b = 0" | "b \<noteq> 0" "length acc = 253" | "b \<noteq> 0" "length acc \<noteq> 253" by blast
  then show ?case
  proof cases
    case 1
    with Cons show ?thesis
      using cobs_decode_short_block [of acc written "cobs_blocks [] bs" capacity]
      by (simp del: of_nat_Suc of_nat_add)
  next
    case 2
    with Cons show ?thesis
      using cobs_decode_full_block [of "acc @ [b]" written capacity "cobs_blocks [] bs"] by simp
  next
    case 3
    with Cons show ?thesis by simp
  qed
qed

lemma cobs_decode_reference:
  "length bs \<le> capacity \<Longrightarrow> cobs_decode (cobs_reference bs) capacity = bs"
  using cobs_decode_blocks [of "[]" "[]" bs capacity] by (simp add: cobs_decode_def)

text \<open>
  C17. COBS round trip and buffer safety. Encoding into a buffer writes nothing at or beyond its
  capacity; it returns 0 exactly when the stuffed form does not fit, and otherwise the buffer
  starts with a string that has no zero byte, is the COBS form of the input, and decodes back to
  it in any destination that can hold it.
\<close>

theorem cobs_roundtrip:
  assumes "capacity \<le> length dst" and "cobs_encode src dst capacity = (n, dst')"
  shows "length dst' = length dst \<and> drop capacity dst' = drop capacity dst \<and>
         (n = 0 \<longleftrightarrow> capacity < length (cobs_reference src)) \<and>
         (n \<noteq> 0 \<longrightarrow> take n dst' = cobs_reference src \<and> 0 \<notin> set (take n dst') \<and>
            (\<forall>room. length src \<le> room \<longrightarrow> cobs_decode (take n dst') room = src))"
proof -
  note e = cobs_encode_eq [OF assms(1), of src]
  have "0 < length (cobs_reference src)" by simp
  with e assms(2) cobs_blocks_no_zero [of "[]" src] cobs_decode_reference [of src] show ?thesis
    by (simp split: if_splits)
qed

theorem cobs_roundtrip_witness:
  "cobs_decode [3, 17, 34, 2, 51] 4 = [17, 34, 0, 51 :: u8]"
proof -
  have "cobs_encode [17, 34, 0, 51] [9, 9, 9, 9, 9, 9] 6 = (5, [3, 17, 34, 2, 51, 9])"
    by (simp add: cobs_encode_def Let_def)
  from cobs_roundtrip [OF _ this] show ?thesis by simp
qed

section \<open>Wire frames\<close>

abbreviation NATIVE_PROTOCOL_VERSION_MAJOR :: u8 where "NATIVE_PROTOCOL_VERSION_MAJOR \<equiv> 1"
abbreviation NATIVE_PROTOCOL_MAX_PAYLOAD_SIZE :: nat where "NATIVE_PROTOCOL_MAX_PAYLOAD_SIZE \<equiv> 80"
abbreviation NATIVE_PROTOCOL_HEADER_SIZE :: nat where "NATIVE_PROTOCOL_HEADER_SIZE \<equiv> 8"
abbreviation NATIVE_PROTOCOL_CRC_SIZE :: nat where "NATIVE_PROTOCOL_CRC_SIZE \<equiv> 2"
abbreviation NATIVE_PROTOCOL_MAX_DECODED_FRAME_SIZE :: nat where
  "NATIVE_PROTOCOL_MAX_DECODED_FRAME_SIZE \<equiv> 90"
abbreviation NATIVE_PROTOCOL_MAX_ENCODED_FRAME_SIZE :: nat where
  "NATIVE_PROTOCOL_MAX_ENCODED_FRAME_SIZE \<equiv> 91"
abbreviation NATIVE_PROTOCOL_MAX_WIRE_FRAME_SIZE :: nat where
  "NATIVE_PROTOCOL_MAX_WIRE_FRAME_SIZE \<equiv> 92"

datatype native_protocol_decode_status =
    NATIVE_PROTOCOL_DECODE_OK
  | NATIVE_PROTOCOL_DECODE_INVALID_ARGUMENT
  | NATIVE_PROTOCOL_DECODE_COBS_ERROR
  | NATIVE_PROTOCOL_DECODE_LENGTH_ERROR
  | NATIVE_PROTOCOL_DECODE_CRC_ERROR
  | NATIVE_PROTOCOL_DECODE_VERSION_ERROR

record native_protocol_frame =
  nf_version :: u8
  nf_device_address :: u8
  nf_sequence :: u16
  nf_message_type :: u8
  nf_command :: u16
  nf_payload_length :: nat
  nf_payload :: bytes

text \<open>The C object is well formed when its array has its declared size.\<close>

definition frame_object :: "native_protocol_frame \<Rightarrow> bool" where
  "frame_object f \<longleftrightarrow> length (nf_payload f) = NATIVE_PROTOCOL_MAX_PAYLOAD_SIZE"

abbreviation frame_data :: "native_protocol_frame \<Rightarrow> bytes" where
  "frame_data f \<equiv> take (nf_payload_length f) (nf_payload f)"

definition decode_image ::
  "bytes \<Rightarrow> native_protocol_frame \<Rightarrow> native_protocol_decode_status \<times> native_protocol_frame" where
  "decode_image decoded frame =
     (if length decoded < NATIVE_PROTOCOL_HEADER_SIZE + NATIVE_PROTOCOL_CRC_SIZE then
        (NATIVE_PROTOCOL_DECODE_LENGTH_ERROR, frame)
      else if length decoded \<noteq>
          NATIVE_PROTOCOL_HEADER_SIZE + unat (decoded ! 7) + NATIVE_PROTOCOL_CRC_SIZE then
        (NATIVE_PROTOCOL_DECODE_LENGTH_ERROR, frame)
      else if read_u16_be (decoded ! (length decoded - 2)) (decoded ! (length decoded - 1)) \<noteq>
          native_protocol_crc16_ccitt_false (Some decoded)
            (length decoded - NATIVE_PROTOCOL_CRC_SIZE) then
        (NATIVE_PROTOCOL_DECODE_CRC_ERROR, frame)
      else if decoded ! 0 \<noteq> NATIVE_PROTOCOL_VERSION_MAJOR then
        (NATIVE_PROTOCOL_DECODE_VERSION_ERROR, frame)
      else
        (NATIVE_PROTOCOL_DECODE_OK,
         frame\<lparr>nf_version := decoded ! 0,
           nf_device_address := decoded ! 1,
           nf_sequence := read_u16_be (decoded ! 2) (decoded ! 3),
           nf_message_type := decoded ! 4,
           nf_command := read_u16_be (decoded ! 5) (decoded ! 6),
           nf_payload_length := unat (decoded ! 7),
           nf_payload := take (unat (decoded ! 7)) (drop 8 decoded)
             @ drop (unat (decoded ! 7)) (nf_payload frame)\<rparr>))"

fun decode_encoded_frame ::
  "bytes ptr \<Rightarrow> native_protocol_frame ptr \<Rightarrow>
     native_protocol_decode_status \<times> native_protocol_frame ptr" where
  "decode_encoded_frame (Some encoded_frame) (Some frame) =
     (if encoded_frame = [] \<or> NATIVE_PROTOCOL_MAX_ENCODED_FRAME_SIZE < length encoded_frame then
        (NATIVE_PROTOCOL_DECODE_LENGTH_ERROR, Some frame)
      else
        (let decoded = cobs_decode encoded_frame NATIVE_PROTOCOL_MAX_DECODED_FRAME_SIZE
         in if decoded = [] then (NATIVE_PROTOCOL_DECODE_COBS_ERROR, Some frame)
            else (case decode_image decoded frame of (status, frame') \<Rightarrow> (status, Some frame'))))"
| "decode_encoded_frame _ frame = (NATIVE_PROTOCOL_DECODE_INVALID_ARGUMENT, frame)"

definition frame_header :: "native_protocol_frame \<Rightarrow> bytes" where
  "frame_header frame =
     [nf_version frame, nf_device_address frame] @ write_u16_be (nf_sequence frame)
     @ [nf_message_type frame] @ write_u16_be (nf_command frame)
     @ [of_nat (nf_payload_length frame)]"

definition frame_image :: "native_protocol_frame \<Rightarrow> bytes" where
  "frame_image frame =
     (let body = frame_header frame @ frame_data frame
      in body @ write_u16_be (native_protocol_crc16_ccitt_false (Some body) (length body)))"

fun native_protocol_encode_wire_frame ::
  "native_protocol_frame ptr \<Rightarrow> bytes ptr \<Rightarrow> nat \<Rightarrow> nat \<times> bytes ptr" where
  "native_protocol_encode_wire_frame (Some frame) (Some destination) capacity =
     (if NATIVE_PROTOCOL_MAX_PAYLOAD_SIZE < nf_payload_length frame
         \<or> 255 < nf_payload_length frame then (0, Some destination)
      else if capacity < 2 then (0, Some destination)
      else
        (case cobs_encode (frame_image frame) destination (capacity - 1) of
           (encoded_length, destination) \<Rightarrow>
             if encoded_length = 0 \<or> capacity \<le> encoded_length then (0, Some destination)
             else (encoded_length + 1, Some (destination[encoded_length := 0]))))"
| "native_protocol_encode_wire_frame _ destination capacity = (0, destination)"

fun native_protocol_decode_wire_frame ::
  "bytes ptr \<Rightarrow> native_protocol_frame ptr \<Rightarrow>
     native_protocol_decode_status \<times> native_protocol_frame ptr" where
  "native_protocol_decode_wire_frame (Some wire_frame) (Some frame) =
     (if length wire_frame < 2 \<or> NATIVE_PROTOCOL_MAX_WIRE_FRAME_SIZE < length wire_frame
         \<or> wire_frame ! (length wire_frame - 1) \<noteq> 0 then
        (NATIVE_PROTOCOL_DECODE_LENGTH_ERROR, Some frame)
      else decode_encoded_frame (Some (take (length wire_frame - 1) wire_frame)) (Some frame))"
| "native_protocol_decode_wire_frame _ frame = (NATIVE_PROTOCOL_DECODE_INVALID_ARGUMENT, frame)"

section \<open>Facts about wire frames\<close>

lemma length_frame_header [simp]: "length (frame_header f) = 8"
  by (simp add: frame_header_def)

lemma length_frame_image:
  "frame_object f \<Longrightarrow> nf_payload_length f \<le> 80 \<Longrightarrow>
     length (frame_image f) = 10 + nf_payload_length f"
  by (simp add: frame_image_def Let_def frame_object_def)

lemma unat_payload_length: "n \<le> 80 \<Longrightarrow> unat (of_nat n :: u8) = n"
  by (simp add: unat_of_nat)

lemma frame_header_nth:
  "frame_header f ! 0 = nf_version f" "frame_header f ! Suc 0 = nf_device_address f"
  "read_u16_be (frame_header f ! 2) (frame_header f ! 3) = nf_sequence f"
  "frame_header f ! 4 = nf_message_type f"
  "read_u16_be (frame_header f ! 5) (frame_header f ! 6) = nf_command f"
  "frame_header f ! 7 = of_nat (nf_payload_length f)"
  by (simp_all add: frame_header_def write_u16_be_def)

lemma frame_image_nth: "i < 8 \<Longrightarrow> frame_image f ! i = frame_header f ! i"
  by (simp add: frame_image_def Let_def nth_append)

text \<open>Parsing the image of a frame gives its fields back.\<close>

lemma decode_frame_image:
  assumes "frame_object f" "frame_object old" "nf_payload_length f \<le> 80" "nf_version f = 1"
  shows "decode_image (frame_image f) old =
           (NATIVE_PROTOCOL_DECODE_OK,
            f\<lparr>nf_payload := frame_data f @ drop (nf_payload_length f) (nf_payload old)\<rparr>)"
proof -
  let ?body = "frame_header f @ frame_data f" and ?n = "nf_payload_length f"
  have len: "length (frame_image f) = 10 + ?n" and body: "length ?body = 8 + ?n"
    using assms by (simp_all add: length_frame_image frame_object_def)
  have img: "frame_image f = ?body @ write_u16_be (crc16 ?body)"
    by (simp only: frame_image_def Let_def)
  have crc: "read_u16_be (frame_image f ! (8 + ?n)) (frame_image f ! (9 + ?n)) = crc16 ?body"
    unfolding img using body by (simp add: nth_append write_u16_be_def)
  have pre: "native_protocol_crc16_ccitt_false (Some (frame_image f)) (8 + ?n) = crc16 ?body"
    unfolding img using body by simp
  have pay: "take ?n (drop 8 (frame_image f)) = frame_data f"
    unfolding img using assms by (simp add: frame_object_def)
  have n: "unat (of_nat ?n :: u8) = ?n" by (rule unat_payload_length [OF assms(3)])
  show ?thesis
    unfolding decode_image_def len
    using crc pre pay n assms
    by (simp add: frame_image_nth frame_header_nth del: native_protocol_crc16_ccitt_false.simps)
qed

lemma decode_image_payload:
  assumes "decode_image decoded frame = (status, frame')" and "length decoded \<le> 90"
    and "frame_object frame"
  shows "frame_object frame' \<and> (status = NATIVE_PROTOCOL_DECODE_OK \<longrightarrow>
           nf_payload_length frame' \<le> 80 \<and> nf_version frame' = 1 \<and>
           length decoded = 10 + nf_payload_length frame')
       \<and> (status \<noteq> NATIVE_PROTOCOL_DECODE_OK \<longrightarrow> frame' = frame)"
  using assms by (auto simp: decode_image_def frame_object_def split: if_splits)

text \<open>An accepted image is the image of the frame it was parsed into.\<close>

lemma decode_image_ok:
  assumes "decode_image d old = (NATIVE_PROTOCOL_DECODE_OK, f)"
  shows "10 \<le> length d" "length d = 10 + unat (d ! 7)"
    "read_u16_be (d ! (length d - 2)) (d ! (length d - 1)) = crc16 (take (length d - 2) d)"
    "d ! 0 = 1"
  using assms by (auto simp: decode_image_def split: if_splits)

lemma take_8_nth: "8 \<le> length d \<Longrightarrow> take 8 d = [d!0, d!1, d!2, d!3, d!4, d!5, d!6, d!7]"
  by (simp add: list_eq_iff_nth_eq nth_Cons' less_Suc_eq eval_nat_numeral)

lemma split_last_two:
  assumes "2 \<le> length d"
  shows "d = take (length d - 2) d @ [d ! (length d - 2), d ! (length d - 1)]"
proof -
  have "d = take (length d - 2) d @ drop (length d - 2) d" by simp
  also have "drop (length d - 2) d = [d ! (length d - 2), d ! (length d - 1)]"
    using assms by (simp add: list_eq_iff_nth_eq nth_Cons' less_Suc_eq eval_nat_numeral)
  finally show ?thesis .
qed

lemma image_of_decoded:
  assumes "decode_image d old = (NATIVE_PROTOCOL_DECODE_OK, f)" and "frame_object old"
    and "length d \<le> 90"
  shows "frame_image f = d"
proof -
  note ok = decode_image_ok [OF assms(1)]
  let ?n = "unat (d ! 7)"
  have f: "f = old\<lparr>nf_version := d ! 0, nf_device_address := d ! 1,
      nf_sequence := read_u16_be (d ! 2) (d ! 3), nf_message_type := d ! 4,
      nf_command := read_u16_be (d ! 5) (d ! 6), nf_payload_length := ?n,
      nf_payload := take ?n (drop 8 d) @ drop ?n (nf_payload old)\<rparr>"
    using assms(1) by (auto simp: decode_image_def split: if_splits)
  have "frame_header f = take 8 d"
    using ok(1) by (simp add: f frame_header_def write_read_u16 take_8_nth)
  moreover have "frame_data f = take ?n (drop 8 d)" using ok(2) by (simp add: f)
  moreover have "take 8 d @ take ?n (drop 8 d) = take (length d - 2) d"
    using ok(2) take_add [of 8 ?n d] by simp
  ultimately have body: "frame_header f @ frame_data f = take (length d - 2) d" by simp
  have "frame_image f = take (length d - 2) d @ write_u16_be (crc16 (take (length d - 2) d))"
    by (simp only: frame_image_def Let_def body)
  also have "\<dots> = d"
    unfolding ok(3) [symmetric] write_read_u16 using split_last_two [of d] ok(1) by simp
  finally show ?thesis .
qed

text \<open>One changed byte breaks the length equation or the CRC equation.\<close>

lemma crc16_update:
  "i < length xs \<Longrightarrow> b \<noteq> xs ! i \<Longrightarrow> crc16 (xs[i := b]) \<noteq> crc16 xs"
  using crc16_one_byte [of b "xs ! i" "take i xs" "drop (Suc i) xs"]
  by (simp add: upd_conv_take_nth_drop id_take_nth_drop [symmetric])

lemma image_changed_byte:
  assumes "decode_image d old = (NATIVE_PROTOCOL_DECODE_OK, f)" and "i < length d" and "b \<noteq> d ! i"
  defines "e \<equiv> d[i := b]"
  shows "10 \<le> length e" and "length e \<noteq> 10 + unat (e ! 7) \<or>
    read_u16_be (e ! (length e - 2)) (e ! (length e - 1)) \<noteq> crc16 (take (length e - 2) e)"
proof -
  note ok = decode_image_ok [OF assms(1)]
  show "10 \<le> length e" using ok(1) by (simp add: e_def)
  show "length e \<noteq> 10 + unat (e ! 7) \<or>
    read_u16_be (e ! (length e - 2)) (e ! (length e - 1)) \<noteq> crc16 (take (length e - 2) e)"
  proof (cases "i < length d - 2")
    case True
    then have "take (length d - 2) e = (take (length d - 2) d)[i := b]"
      by (simp add: e_def take_update_swap)
    then have "crc16 (take (length d - 2) e) \<noteq> crc16 (take (length d - 2) d)"
      using crc16_update [of i "take (length d - 2) d" b] True assms(3) by simp
    with ok True show ?thesis by (simp add: e_def)
  next
    case False
    then have "take (length d - 2) e = take (length d - 2) d" by (simp add: e_def)
    moreover have "i = length d - 2 \<or> i = length d - 1" using False assms(2) by auto
    moreover have "length d - 2 \<noteq> length d - 1" "length d - 2 < length d" using ok(1) by auto
    ultimately show ?thesis
      using ok assms(2,3)
      by (auto simp: e_def nth_list_update simp del: native_protocol_crc16_ccitt_false.simps)
        (metis read_u16_be_inject)+
  qed
qed

text \<open>
  Within the frame size no block is full, so a stuffed string without zero bytes is determined by
  what it decodes to.
\<close>

lemma cobs_blocks_nonzero:
  "0 \<notin> set xs \<Longrightarrow> length acc + length xs < 254 \<Longrightarrow>
     cobs_blocks acc (xs @ ys) = cobs_blocks (acc @ xs) ys"
  by (induction xs arbitrary: acc) auto

lemma code_byte_of_block:
  assumes "(c :: u8) \<noteq> 0" and "length xs = unat c - 1"
  shows "of_nat (length xs + 1) = c"
proof -
  have "length xs + 1 = unat c" using assms unat_eq_0 [of c] by simp
  then show ?thesis by (simp only:) simp
qed

lemma cobs_decode_loop_canonical:
  assumes "0 \<notin> set source" "source \<noteq> []" "capacity < 254"
    and "cobs_decode_loop source capacity written = d" "d \<noteq> []"
  shows "\<exists>t. d = written @ t \<and> cobs_reference t = source"
  using assms
proof (induction source capacity written rule: cobs_decode_loop.induct)
  case (1 capacity written)
  then show ?case by simp
next
  case (2 code rest capacity written)
  define k block tail where "k = unat code - 1" and "block = take k rest" and "tail = drop k rest"
  have c: "code \<noteq> 0" and rest: "rest = block @ tail" using "2.prems" by (auto simp: block_def
    tail_def)
  have fits: "k \<le> length rest" "k \<le> capacity - length written"
    using "2.prems"(4,5) c by (auto simp: cobs_decode_loop.simps(2) k_def Let_def split: if_splits)
  have block: "length block = k" "0 \<notin> set block" "k < 254"
    using fits "2.prems" set_take_subset [of k rest] by (auto simp: block_def)
  have code: "of_nat (length block + 1) = code" and full: "code \<noteq> 0xFF"
    using code_byte_of_block [OF c, of block] block code_byte_full [of k] by (auto simp: k_def)
  have step: "d = (if tail \<noteq> [] then (if capacity \<le> length (written @ block) then []
                     else cobs_decode_loop tail capacity (written @ block @ [0]))
                   else written @ block)"
    unfolding "2.prems"(4) [symmetric] cobs_decode_loop.simps(2) Let_def k_def [symmetric]
      block_def [symmetric] tail_def [symmetric]
    using c fits full by simp
  show ?case
  proof (cases "tail = []")
    case True
    have "cobs_reference block = code # rest"
      using cobs_blocks_nonzero [of block "[]" "[]"] block rest code True
      by (simp del: of_nat_Suc of_nat_add)
    with step True show ?thesis by auto
  next
    case False
    have "0 \<notin> set tail" using "2.prems"(1) rest by simp
    moreover have "cobs_decode_loop tail capacity (written @ block @ [0]) = d"
      and "length (written @ block) < capacity"
      using step False "2.prems"(5) by (auto split: if_splits)
    ultimately obtain t where t: "d = (written @ block @ [0]) @ t" "cobs_reference t = tail"
      using "2.IH"(1) [OF c, of k "written @ block" tail] fits full False "2.prems"(3,5)
      by (auto simp: k_def block_def tail_def)
    have "cobs_reference (block @ 0 # t) = code # rest"
      using cobs_blocks_nonzero [of block "[]" "0 # t"] block rest code t
      by (simp del: of_nat_Suc of_nat_add)
    with t show ?thesis by (intro exI [of _ "block @ 0 # t"]) simp
  qed
qed

lemma cobs_decode_canonical:
  assumes "0 \<notin> set source" and "cobs_decode source 90 \<noteq> []"
  shows "cobs_reference (cobs_decode source 90) = source"
  using assms cobs_decode_loop_canonical [of source 90 "[]" "cobs_decode source 90"]
  by (auto simp: cobs_decode_def split: if_splits)

text \<open>What the encoder leaves in its destination.\<close>

lemma encode_wire_frame_eq:
  assumes "frame_object f" "nf_payload_length f \<le> 80" "92 \<le> length dst"
  shows "\<exists>dst'. native_protocol_encode_wire_frame (Some f) (Some dst) 92
           = (nf_payload_length f + 12, Some dst') \<and> length dst' = length dst \<and>
         take (nf_payload_length f + 12) dst' = cobs_reference (frame_image f) @ [0]"
proof -
  let ?m = "nf_payload_length f + 11" and ?s = "cobs_encode (frame_image f) dst 91"
  have m: "length (cobs_reference (frame_image f)) = ?m"
    using assms by (simp add: length_frame_image length_cobs_blocks)
  have enc: "fst ?s = ?m" "length (snd ?s) = length dst"
    "take ?m (snd ?s) = cobs_reference (frame_image f)"
    using cobs_encode_eq [of 91 dst "frame_image f"] assms m by simp_all
  have "take (Suc ?m) ((snd ?s)[?m := 0]) = cobs_reference (frame_image f) @ [0]"
    using enc assms by (subst take_Suc_conv_app_nth) simp_all
  with enc assms show ?thesis by (auto simp: add.commute split: prod.splits)
qed

lemma frame_image_nonempty [simp]: "frame_image f \<noteq> []"
  by (simp add: frame_image_def Let_def frame_header_def)

lemma decode_wire_reference:
  assumes "frame_object f" "frame_object old" "nf_payload_length f \<le> 80" "nf_version f = 1"
  shows "native_protocol_decode_wire_frame (Some (cobs_reference (frame_image f) @ [0])) (Some old)
       = (NATIVE_PROTOCOL_DECODE_OK,
          Some (f\<lparr>nf_payload := frame_data f @ drop (nf_payload_length f) (nf_payload old)\<rparr>))"
proof -
  have "length (cobs_reference (frame_image f)) = nf_payload_length f + 11"
    using assms by (simp add: length_frame_image length_cobs_blocks)
  moreover from this have "(cobs_reference (frame_image f) @ [0]) ! (11 + nf_payload_length f) = 0"
    by (simp add: nth_append)
  moreover have "cobs_decode (cobs_reference (frame_image f)) 90 = frame_image f"
    using assms by (simp add: cobs_decode_reference length_frame_image)
  ultimately show ?thesis using assms decode_frame_image [OF assms] by (simp add: Let_def)
qed

text \<open>
  C18. Wire round trip. Every frame of this protocol version with at most 80 payload bytes is
  encoded, in a 92-byte buffer, to a string of its payload length plus 12 whose only zero byte is
  its last, and decoding that string into any frame object succeeds with all header fields and
  the payload restored.
\<close>

theorem wire_frame_roundtrip:
  assumes "frame_object f" "nf_payload_length f \<le> 80" "nf_version f = 1" "92 \<le> length dst"
    and "frame_object old"
  shows "\<exists>dst' n wire. native_protocol_encode_wire_frame (Some f) (Some dst) 92 = (n, Some dst') \<and>
           n = nf_payload_length f + 12 \<and> wire = take n dst' \<and> length wire = n \<and>
           last wire = 0 \<and> 0 \<notin> set (butlast wire) \<and>
           native_protocol_decode_wire_frame (Some wire) (Some old) =
             (NATIVE_PROTOCOL_DECODE_OK,
              Some (f\<lparr>nf_payload := frame_data f @ drop (nf_payload_length f) (nf_payload old)\<rparr>))"
proof -
  obtain dst' where "native_protocol_encode_wire_frame (Some f) (Some dst) 92
      = (nf_payload_length f + 12, Some dst')" "length dst' = length dst"
    "take (nf_payload_length f + 12) dst' = cobs_reference (frame_image f) @ [0]"
    using encode_wire_frame_eq [of f dst] assms by blast
  then show ?thesis
    using assms decode_wire_reference [of f old] cobs_blocks_no_zero [of "[]" "frame_image f"]
    by (intro exI [of _ dst'] exI [of _ "nf_payload_length f + 12"]
        exI [of _ "cobs_reference (frame_image f) @ [0]"])
      (auto simp: length_frame_image length_cobs_blocks)
qed

definition ping_frame :: native_protocol_frame where
  "ping_frame = \<lparr>nf_version = 1, nf_device_address = 1, nf_sequence = 0x1234, nf_message_type = 1,
     nf_command = 1, nf_payload_length = 2, nf_payload = replicate 80 7\<rparr>"

theorem wire_frame_roundtrip_witness:
  "\<exists>dst'. native_protocol_encode_wire_frame (Some ping_frame) (Some (replicate 92 0)) 92
     = (14, Some dst')"
  using wire_frame_roundtrip [of ping_frame "replicate 92 0" ping_frame]
  by (auto simp: ping_frame_def frame_object_def)

text \<open>
  C19. Decoding is safe, and canonical on delimited strings. Whatever bytes arrive, the frame object
  keeps its 80-byte payload array, its contents change only when the status is OK, and then its
  version is 1 and its payload length at most 80. If moreover the string has no zero byte before its
  last, as the server's byte collector guarantees of the strings it hands over, then encoding the
  decoded frame reproduces the string byte for byte. (The decoder itself does not look for zero
  bytes inside a block, and accepts some strings that contain them.)
\<close>

theorem wire_frame_canonical:
  assumes "frame_object old"
    and "native_protocol_decode_wire_frame (Some wire) (Some old) = (status, Some f)"
  shows "frame_object f \<and> (status \<noteq> NATIVE_PROTOCOL_DECODE_OK \<longrightarrow> f = old) \<and>
         (status = NATIVE_PROTOCOL_DECODE_OK \<longrightarrow> nf_version f = 1 \<and> nf_payload_length f \<le> 80 \<and>
            (0 \<notin> set (butlast wire) \<longrightarrow>
              (\<exists>dst'. native_protocol_encode_wire_frame (Some f) (Some (replicate 92 0)) 92
                 = (length wire, Some dst') \<and> take (length wire) dst' = wire)))"
proof -
  define src where "src = butlast wire"
  define d where "d = cobs_decode src 90"
  have short: "length d \<le> 90" by (simp add: d_def cobs_decode_bounded)
  have wire: "\<not> (length wire < 2 \<or> wire ! (length wire - 1) \<noteq> 0) \<Longrightarrow> wire = src @ [0]"
    using append_butlast_last_id [of wire] last_conv_nth [of wire]
    by (cases "wire = []") (simp_all add: src_def)
  have fail: "f = old" if "status \<noteq> NATIVE_PROTOCOL_DECODE_OK"
    using that assms decode_image_payload [OF _ short]
    by (auto simp: Let_def d_def src_def butlast_conv_take split: if_splits prod.splits)
  show ?thesis
  proof (cases "status = NATIVE_PROTOCOL_DECODE_OK")
    case False
    with fail assms(1) show ?thesis by simp
  next
    case True
    have dec: "decode_image d old = (NATIVE_PROTOCOL_DECODE_OK, f)" "d \<noteq> []" "wire = src @ [0]"
      using assms True wire
      by (auto simp: Let_def d_def src_def butlast_conv_take split: if_splits prod.splits)
    have f: "frame_object f" "nf_payload_length f \<le> 80" "nf_version f = 1"
      "length d = 10 + nf_payload_length f"
      using decode_image_payload [OF dec(1) short assms(1)] by auto
    have canon: "0 \<notin> set src \<Longrightarrow> cobs_reference (frame_image f) = src"
      using cobs_decode_canonical [of src] image_of_decoded [OF dec(1) assms(1)] dec(2) short
      by (simp add: d_def)
    moreover have "length (cobs_reference (frame_image f)) = nf_payload_length f + 11"
      using f by (simp add: length_frame_image length_cobs_blocks)
    ultimately show ?thesis
      using encode_wire_frame_eq [of f "replicate 92 0"] f dec(3) True
      by (auto simp: src_def [symmetric] add.commute)
  qed
qed

theorem wire_frame_canonical_witness:
  "\<exists>f dst'. native_protocol_decode_wire_frame (Some (cobs_reference (frame_image ping_frame) @ [0]))
       (Some ping_frame) = (NATIVE_PROTOCOL_DECODE_OK, Some f) \<and> nf_payload_length f = 2 \<and>
     native_protocol_encode_wire_frame (Some f) (Some (replicate 92 0)) 92 = (14, Some dst') \<and>
     take 14 dst' = cobs_reference (frame_image ping_frame) @ [0]"
proof -
  let ?wire = "cobs_reference (frame_image ping_frame) @ [0]"
  have p: "frame_object ping_frame" "nf_payload_length ping_frame \<le> 80" "nf_version ping_frame = 1"
    by (simp_all add: ping_frame_def frame_object_def)
  have len: "length ?wire = 14"
    using p by (simp add: length_frame_image length_cobs_blocks) (simp add: ping_frame_def)
  obtain f where f: "native_protocol_decode_wire_frame (Some ?wire) (Some ping_frame)
      = (NATIVE_PROTOCOL_DECODE_OK, Some f)" "nf_payload_length f = 2"
    using decode_wire_reference [of ping_frame ping_frame] p by (auto simp: ping_frame_def)
  have "0 \<notin> set (butlast ?wire)" using cobs_blocks_no_zero [of "[]" "frame_image ping_frame"] by
    auto
  with wire_frame_canonical [OF p(1) f(1)] obtain dst' where
    "native_protocol_encode_wire_frame (Some f) (Some (replicate 92 0)) 92 = (14, Some dst')"
    "take 14 dst' = ?wire" unfolding len by blast
  with f show ?thesis by blast
qed

text \<open>
  C20. A received image that is intact except for one byte is never accepted: if some image parses,
  then changing any one of its bytes, to any other value, gives a length or CRC error and leaves
  the frame object as it was.
\<close>

theorem one_byte_corruption_rejected:
  assumes "decode_image d old = (NATIVE_PROTOCOL_DECODE_OK, f)" and "i < length d" and "b \<noteq> d ! i"
  shows "decode_image (d[i := b]) old = (NATIVE_PROTOCOL_DECODE_LENGTH_ERROR, old) \<or>
         decode_image (d[i := b]) old = (NATIVE_PROTOCOL_DECODE_CRC_ERROR, old)"
  using image_changed_byte [OF assms] by (auto simp: decode_image_def)

theorem one_byte_corruption_rejected_witness:
  "\<exists>f. decode_image (frame_image ping_frame) ping_frame = (NATIVE_PROTOCOL_DECODE_OK, f) \<and>
     fst (decode_image ((frame_image ping_frame)[4 := 2]) ping_frame) \<noteq> NATIVE_PROTOCOL_DECODE_OK"
proof -
  have p: "frame_object ping_frame" "nf_payload_length ping_frame \<le> 80" "nf_version ping_frame = 1"
    by (simp_all add: ping_frame_def frame_object_def)
  note ok = decode_frame_image [OF p(1,1) p(2,3)]
  have "4 < length (frame_image ping_frame)" "2 \<noteq> frame_image ping_frame ! 4"
    using p by (simp_all add: length_frame_image frame_image_nth frame_header_nth)
      (simp add: ping_frame_def)
  with one_byte_corruption_rejected [OF ok, of 4 2] ok show ?thesis by auto
qed

end
