(* ===== verification/Command_Service.thy ===== *)
theory Command_Service
  imports Framing
begin

text \<open>
  The transport-independent command layer, \<open>firmware/include/mks57d/command_service.h\<close> and
  \<open>firmware/src/app/command_service.c\<close>. Every status structure of the header is a record, the
  tagged union of a response is a datatype (the kind is its constructor), and the callbacks of the
  application are optional functions on the application state, absent when the C pointer is
  \<open>NULL\<close>. Each case of \<open>command_service_dispatch\<close> is a definition of its own. The lemmas
  show that a request reaches a callback only with a payload of the accepted size, that every
  argument arrives as the host encoded it, and that a response carries data only when its status is
  OK, and then of the kind its operation promises.
\<close>

section \<open>Operations, statuses and status structures\<close>

datatype command_operation =
    COMMAND_OPERATION_PING
  | COMMAND_OPERATION_GET_IDENTITY
  | COMMAND_OPERATION_GET_CAPABILITIES
  | COMMAND_OPERATION_GET_COMMISSIONING_STATUS
  | COMMAND_OPERATION_CONFIGURE_CURRENT_TEST
  | COMMAND_OPERATION_START_CURRENT_TEST
  | COMMAND_OPERATION_STOP_CURRENT_TEST
  | COMMAND_OPERATION_GET_BOOT_STATUS
  | COMMAND_OPERATION_GET_ENCODER_STATUS
  | COMMAND_OPERATION_GET_CURRENT_TRACE
  | COMMAND_OPERATION_ARM_CURRENT_TRACE
  | COMMAND_OPERATION_GET_RUNTIME_PROFILE
  | COMMAND_OPERATION_ARM_RUNTIME_PROFILE
  | COMMAND_OPERATION_START_ALIGNMENT
  | COMMAND_OPERATION_GET_ALIGNMENT_STATUS
  | COMMAND_OPERATION_STOP_DRIVE
  | COMMAND_OPERATION_CLEAR_FAULTS
  | COMMAND_OPERATION_GET_CONFIGURATION_STATUS
  | COMMAND_OPERATION_SAVE_CONFIGURATION
  | COMMAND_OPERATION_CLEAR_CALIBRATION
  | COMMAND_OPERATION_SET_CURRENT_LOOP_GAINS
  | COMMAND_OPERATION_REVERT_CURRENT_LOOP_GAINS
  | COMMAND_OPERATION_START_ALIGNED_TORQUE
  | COMMAND_OPERATION_GET_ALIGNED_TORQUE_STATUS
  | COMMAND_OPERATION_START_VELOCITY
  | COMMAND_OPERATION_GET_VELOCITY_STATUS
  | COMMAND_OPERATION_START_POSITION_RELATIVE
  | COMMAND_OPERATION_GET_POSITION_STATUS
  | COMMAND_OPERATION_START_BOOTSTRAP_PROBE
  | COMMAND_OPERATION_OTHER

datatype command_status =
    COMMAND_STATUS_OK
  | COMMAND_STATUS_UNKNOWN_COMMAND
  | COMMAND_STATUS_INVALID_PAYLOAD
  | COMMAND_STATUS_UNAVAILABLE
  | COMMAND_STATUS_INTERNAL_ERROR

record command_fault_recovery_status =
  fr_schema_version :: u8
  fr_result :: u8
  fr_blocker_flags :: u32
  fr_cleared_fault_flags :: u32
  fr_remaining_fault_flags :: u32

record command_current_test_config =
  tc_amplitude_counts :: u16
  tc_frequency_millihz :: u32
  tc_controller_mode :: u8
  tc_controller_mode_present :: bool

record command_commissioning_status =
  cs_schema_version :: u8
  cs_flags :: u32
  cs_raw_input_levels :: u8
  cs_debounced_input_levels :: u8
  cs_adc_status :: u8
  cs_selected_leg :: u8
  cs_fault_flags :: u32
  cs_sample_count :: u32
  cs_current_a_raw :: u16
  cs_current_b_raw :: u16
  cs_current_a_zero_raw :: u16
  cs_current_b_zero_raw :: u16
  cs_current_a_reference_counts :: i16
  cs_current_b_reference_counts :: i16
  cs_current_a_measured_counts :: i16
  cs_current_b_measured_counts :: i16
  cs_phase_a_voltage_permille :: i16
  cs_phase_b_voltage_permille :: i16
  cs_duty_a1_permille :: u16
  cs_duty_a2_permille :: u16
  cs_duty_b1_permille :: u16
  cs_duty_b2_permille :: u16
  cs_test_amplitude_counts :: u16
  cs_maximum_test_amplitude_counts :: u16
  cs_hard_current_limit_counts :: u16
  cs_phase_voltage_limit_permille :: u16
  cs_test_frequency_millihz :: u32
  cs_remote_run_remaining_millis :: u32
  cs_retained_panic :: u8
  cs_watchdog_reset :: u8
  cs_vbus_raw :: u16
  cs_vbus_sample_count :: u32
  cs_missed_pwm_update_count :: u32
  cs_maximum_consecutive_missed_pwm_updates :: u32
  cs_test_controller_mode :: u8

record command_boot_status =
  bs_schema_version :: u8
  bs_reset_flags :: u32
  bs_retained_panic :: u8
  bs_uptime_millis :: u32
  bs_initial_rcc_ctrlsts :: u32
  bs_initial_rcc_ldctrl :: u32
  bs_initial_sram_ctrlsts :: u32
  bs_evidence_flags :: u8
  bs_exception_number :: u8
  bs_previous_stack_high_water_bytes :: u16
  bs_previous_stack_minimum_free_bytes :: u16
  bs_current_stack_high_water_bytes :: u16
  bs_current_stack_minimum_free_bytes :: u16
  bs_exception_return :: u32
  bs_stacked_program_counter :: u32
  bs_stacked_link_register :: u32
  bs_stacked_xpsr :: u32
  bs_main_stack_pointer :: u32
  bs_process_stack_pointer :: u32
  bs_configurable_fault_status :: u32
  bs_hard_fault_status :: u32
  bs_debug_fault_status :: u32
  bs_memory_management_fault_address :: u32
  bs_bus_fault_address :: u32
  bs_stack_capacity_bytes :: u16

record command_encoder_status =
  es_schema_version :: u8
  es_status :: u8
  es_transport_status :: u8
  es_angle_raw :: u16
  es_flags :: u8
  es_sample_count :: u32
  es_error_count :: u32
  es_last_attempt_millis :: u32
  es_estimator_flags :: u8
  es_position_revolutions_q16_16 :: i32
  es_velocity_revolutions_per_second_q16_16 :: i32
  es_estimator_timestamp_us :: u32
  es_estimator_fault_flags :: u32
  es_alignment_zero_raw :: u16
  es_alignment_direction :: i8
  es_electrical_phase_q32 :: u32
  es_estimator_sample_interval_us :: u32
  es_estimator_maximum_sample_interval_us :: u32
  es_last_error_status :: u8
  es_last_error_transport_status :: u8
  es_last_error_response_length :: u8
  es_last_error_register_03 :: u8
  es_last_error_register_04 :: u8
  es_last_error_register_05 :: u8
  es_last_error_timestamp_us :: u32

record command_current_trace_sample =
  ct_schema_version :: u8
  ct_captured_sample_count :: u16
  ct_sample_index :: u16
  ct_loop_sample_count :: u32
  ct_current_a_reference_counts :: i16
  ct_current_b_reference_counts :: i16
  ct_current_a_measured_counts :: i16
  ct_current_b_measured_counts :: i16
  ct_phase_a_voltage_permille :: i16
  ct_phase_b_voltage_permille :: i16
  ct_predicted_electrical_phase_q32 :: u32
  ct_phase_prediction_age_us :: u16
  ct_trigger_timer_count :: u16
  ct_trigger_to_dma_timer_ticks :: u16
  ct_dma_to_pwm_stage_cycles :: u16
  ct_dma_to_trace_record_cycles :: u16
  ct_pwm_preload_margin_ticks :: u16

record command_runtime_profile_metric =
  pm_total_cycles :: u32
  pm_maximum_cycles :: u32

record command_runtime_profile =
  rp_schema_version :: u8
  rp_state :: u8
  rp_captured_release_count :: u16
  rp_incomplete_release_count :: u16
  rp_foreground_sample_count :: u16
  rp_current_loop_completion_count :: u32
  rp_maximum_current_loop_completions_per_release :: u16
  rp_metrics :: "command_runtime_profile_metric list"

record command_alignment_status =
  as_schema_version :: u8
  as_state :: u8
  as_result :: u8
  as_flags :: u8
  as_alignment_current_counts :: u16
  as_phase_zero_raw :: u16
  as_phase_quarter_raw :: u16
  as_return_zero_raw :: u16
  as_observed_quarter_step_counts :: u16
  as_quarter_step_error_counts :: i16
  as_closure_error_counts :: i16
  as_encoder_direction :: i8
  as_active_sample_count :: u16
  as_elapsed_millis :: u32
  as_remaining_millis :: u32
  as_minimum_current_counts :: u16
  as_maximum_current_counts :: u16
  as_expected_quarter_step_counts :: u16
  as_maximum_quarter_step_error_counts :: u16
  as_settle_duration_millis :: u32
  as_sample_duration_millis :: u32
  as_maximum_duration_millis :: u32
  as_minimum_sample_count :: u16
  as_maximum_sample_span_counts :: u16
  as_maximum_closure_error_counts :: u16
  as_maximum_current_error_counts :: u16

record command_configuration_status =
  cf_schema_version :: u8
  cf_flags :: u8
  cf_last_result :: u8
  cf_active_slot :: u8
  cf_record_schema_version :: u16
  cf_generation :: u32
  cf_stored_encoder_counts_per_revolution :: u16
  cf_stored_electrical_cycles_per_revolution :: u16
  cf_stored_electrical_zero_raw :: u16
  cf_stored_observed_quarter_step_counts :: u16
  cf_stored_quarter_step_error_counts :: i16
  cf_stored_encoder_direction :: i8
  cf_active_encoder_counts_per_revolution :: u16
  cf_active_electrical_cycles_per_revolution :: u16
  cf_active_electrical_zero_raw :: u16
  cf_active_observed_quarter_step_counts :: u16
  cf_active_quarter_step_error_counts :: i16
  cf_active_encoder_direction :: i8
  cf_default_current_loop_proportional_gain_q16_per_count :: i32
  cf_default_current_loop_integral_gain_q16_per_count_per_step :: i32
  cf_stored_current_loop_proportional_gain_q16_per_count :: i32
  cf_stored_current_loop_integral_gain_q16_per_count_per_step :: i32
  cf_active_current_loop_proportional_gain_q16_per_count :: i32
  cf_active_current_loop_integral_gain_q16_per_count_per_step :: i32
  cf_maximum_current_loop_proportional_gain_q16_per_count :: i32
  cf_maximum_current_loop_integral_gain_q16_per_count_per_step :: i32

record command_aligned_torque_status =
  ts_schema_version :: u8
  ts_state :: u8
  ts_result :: u8
  ts_flags :: u8
  ts_fault_flags :: u32
  ts_requested_q_current_counts :: i16
  ts_applied_q_current_counts :: i16
  ts_current_a_reference_counts :: i16
  ts_current_b_reference_counts :: i16
  ts_electrical_phase_q32 :: u32
  ts_velocity_revolutions_per_second_q16_16 :: i32
  ts_acceleration_revolutions_per_second2_q16_16 :: i32
  ts_elapsed_millis :: u32
  ts_remaining_millis :: u32
  ts_maximum_current_counts :: u16
  ts_maximum_current_slew_counts_per_second :: u16
  ts_maximum_velocity_revolutions_per_second_q16_16 :: i32
  ts_maximum_acceleration_revolutions_per_second2_q16_16 :: i32
  ts_maximum_feedback_interval_us :: u16
  ts_minimum_duration_millis :: u32
  ts_maximum_duration_millis :: u32
  ts_backend_fault_flags :: u32
  ts_phase_prediction_reject_reason :: u8
  ts_rejected_phase_prediction_age_us :: u32
  ts_maximum_observed_phase_prediction_age_us :: u16
  ts_maximum_phase_prediction_age_us :: u16

record command_velocity_status =
  vs_schema_version :: u8
  vs_state :: u8
  vs_result :: u8
  vs_flags :: u8
  vs_fault_flags :: u32
  vs_target_velocity_revolutions_per_second_q16_16 :: i32
  vs_reference_velocity_revolutions_per_second_q16_16 :: i32
  vs_measured_velocity_revolutions_per_second_q16_16 :: i32
  vs_requested_q_current_counts :: i16
  vs_applied_q_current_counts :: i16
  vs_current_limit_counts :: u16
  vs_elapsed_millis :: u32
  vs_remaining_millis :: u32
  vs_maximum_target_velocity_revolutions_per_second_q16_16 :: i32
  vs_maximum_target_acceleration_revolutions_per_second2_q16_16 :: i32
  vs_maximum_feedback_velocity_revolutions_per_second_q16_16 :: i32
  vs_maximum_current_counts :: u16
  vs_maximum_feedback_interval_us :: u16
  vs_proportional_gain_current_counts_per_velocity_q16_16 :: i32
  vs_integral_gain_current_counts_per_position_q16_16 :: i32
  vs_maximum_duration_millis :: u32

record command_position_status =
  ps_schema_version :: u8
  ps_state :: u8
  ps_result :: u8
  ps_flags :: u8
  ps_fault_flags :: u32
  ps_target_position_revolutions_q16_16 :: i32
  ps_reference_position_revolutions_q16_16 :: i32
  ps_measured_position_revolutions_q16_16 :: i32
  ps_reference_velocity_revolutions_per_second_q16_16 :: i32
  ps_target_velocity_revolutions_per_second_q16_16 :: i32
  ps_measured_velocity_revolutions_per_second_q16_16 :: i32
  ps_requested_q_current_counts :: i16
  ps_applied_q_current_counts :: i16
  ps_current_limit_counts :: u16
  ps_elapsed_millis :: u32
  ps_remaining_millis :: u32
  ps_maximum_relative_travel_revolutions_q16_16 :: i32
  ps_maximum_velocity_revolutions_per_second_q16_16 :: i32
  ps_maximum_acceleration_revolutions_per_second2_q16_16 :: i32
  ps_maximum_following_error_revolutions_q16_16 :: i32

record command_echo_response =
  er_length :: nat
  er_bytes :: "u8 list"

record command_identity_response =
  ir_product_id :: u32
  ir_firmware_major :: u8
  ir_firmware_minor :: u8
  ir_firmware_patch :: u16
  ir_protocol_major :: u8
  ir_protocol_minor :: u8

datatype command_response_data =
    COMMAND_RESPONSE_NONE
  | COMMAND_RESPONSE_ECHO command_echo_response
  | COMMAND_RESPONSE_IDENTITY command_identity_response
  | COMMAND_RESPONSE_CAPABILITIES u32
  | COMMAND_RESPONSE_COMMISSIONING_STATUS command_commissioning_status
  | COMMAND_RESPONSE_CURRENT_TEST_CONFIG command_current_test_config
  | COMMAND_RESPONSE_BOOT_STATUS command_boot_status
  | COMMAND_RESPONSE_ENCODER_STATUS command_encoder_status
  | COMMAND_RESPONSE_CURRENT_TRACE command_current_trace_sample
  | COMMAND_RESPONSE_RUNTIME_PROFILE command_runtime_profile
  | COMMAND_RESPONSE_ALIGNMENT_STATUS command_alignment_status
  | COMMAND_RESPONSE_CONFIGURATION_STATUS command_configuration_status
  | COMMAND_RESPONSE_ALIGNED_TORQUE_STATUS command_aligned_torque_status
  | COMMAND_RESPONSE_VELOCITY_STATUS command_velocity_status
  | COMMAND_RESPONSE_POSITION_STATUS command_position_status
  | COMMAND_RESPONSE_FAULT_RECOVERY_STATUS command_fault_recovery_status
  | COMMAND_RESPONSE_OTHER

record command_response =
  cr_status :: command_status
  cr_data :: command_response_data

record command_request =
  rq_operation :: command_operation
  rq_payload :: "bytes ptr"
  rq_payload_length :: nat

section \<open>Callbacks\<close>

type_synonym 's command_action = "'s \<Rightarrow> command_status \<times> 's"
type_synonym ('s, 'd) command_query = "'s \<Rightarrow> command_status \<times> 'd \<times> 's"

record 's command_commissioning_api =
  ca_get_status :: "(('s, command_commissioning_status) command_query) ptr"
  ca_configure :: "(command_current_test_config \<Rightarrow> ('s, command_current_test_config) command_query)
    ptr"
  ca_start :: "(u8 \<Rightarrow> u32 \<Rightarrow> u32 \<Rightarrow> 's command_action) ptr"
  ca_stop :: "('s command_action) ptr"
  ca_get_boot_status :: "(('s, command_boot_status) command_query) ptr"
  ca_get_encoder_status :: "(('s, command_encoder_status) command_query) ptr"
  ca_get_current_trace :: "(u16 \<Rightarrow> ('s, command_current_trace_sample) command_query) ptr"
  ca_arm_current_trace :: "('s command_action) ptr"
  ca_get_runtime_profile :: "(('s, command_runtime_profile) command_query) ptr"
  ca_arm_runtime_profile :: "('s command_action) ptr"
  ca_start_bootstrap_probe :: "(u32 \<Rightarrow> 's command_action) ptr"

record 's command_alignment_api =
  aa_start :: "(u16 \<Rightarrow> 's command_action) ptr"
  aa_get_status :: "(('s, command_alignment_status) command_query) ptr"

record 's command_drive_api =
  da_stop :: "('s command_action) ptr"
  da_clear_faults :: "(('s, command_fault_recovery_status) command_query) ptr"

record 's command_configuration_api =
  fa_get_status :: "(('s, command_configuration_status) command_query) ptr"
  fa_save :: "('s command_action) ptr"
  fa_clear_calibration :: "('s command_action) ptr"
  fa_set_current_loop_gains :: "(i32 \<Rightarrow> i32 \<Rightarrow> 's command_action) ptr"
  fa_revert_current_loop_gains :: "('s command_action) ptr"

record 's command_aligned_torque_api =
  ta_start :: "(i16 \<Rightarrow> u32 \<Rightarrow> 's command_action) ptr"
  ta_get_status :: "(('s, command_aligned_torque_status) command_query) ptr"

record 's command_velocity_api =
  va_start :: "(i32 \<Rightarrow> u16 \<Rightarrow> u32 \<Rightarrow> i32 \<Rightarrow> 's command_action) ptr"
  va_get_status :: "(('s, command_velocity_status) command_query) ptr"

record 's command_position_api =
  pa_start_relative :: "(i32 \<Rightarrow> i32 \<Rightarrow> i32 \<Rightarrow> u16 \<Rightarrow> u32 \<Rightarrow> 's command_action) ptr"
  pa_get_status :: "(('s, command_position_status) command_query) ptr"

record 's command_service_context =
  cx_product_id :: u32
  cx_firmware_major :: u8
  cx_firmware_minor :: u8
  cx_firmware_patch :: u16
  cx_protocol_major :: u8
  cx_protocol_minor :: u8
  cx_capabilities :: u32
  cx_commissioning :: "'s command_commissioning_api"
  cx_alignment :: "'s command_alignment_api"
  cx_drive :: "'s command_drive_api"
  cx_configuration :: "'s command_configuration_api"
  cx_aligned_torque :: "'s command_aligned_torque_api"
  cx_velocity :: "'s command_velocity_api"
  cx_position :: "'s command_position_api"

section \<open>Dispatch\<close>

abbreviation COMMAND_SERVICE_MAX_PING_BYTES :: nat where "COMMAND_SERVICE_MAX_PING_BYTES \<equiv> 16"
abbreviation COMMAND_SERVICE_BOOTSTRAP_PROBE_MAX_DURATION_MILLIS :: u32 where
  "COMMAND_SERVICE_BOOTSTRAP_PROBE_MAX_DURATION_MILLIS \<equiv> 5000"
abbreviation COMMAND_CURRENT_TEST_CONTROLLER_STATIONARY :: u8 where
  "COMMAND_CURRENT_TEST_CONTROLLER_STATIONARY \<equiv> 0"
abbreviation COMMAND_CURRENT_TEST_CONTROLLER_COUNT :: u8 where
  "COMMAND_CURRENT_TEST_CONTROLLER_COUNT \<equiv> 2"

definition response_reset :: command_response where
  "response_reset = \<lparr>cr_status = COMMAND_STATUS_INTERNAL_ERROR, cr_data = COMMAND_RESPONSE_NONE\<rparr>"

definition reply_status :: "command_status \<Rightarrow> command_response" where
  "reply_status s = response_reset\<lparr>cr_status := s\<rparr>"

definition reply_ok :: "command_response_data \<Rightarrow> command_response" where
  "reply_ok d = response_reset\<lparr>cr_status := COMMAND_STATUS_OK, cr_data := d\<rparr>"

text \<open>The two ways a case ends: after an action, and after a callback that fills the union.\<close>

fun after_action :: "command_status \<times> 's \<Rightarrow> command_response \<times> 's" where
  "after_action (s, st) = (reply_status s, st)"

fun after_query ::
  "('d \<Rightarrow> command_response_data) \<Rightarrow> command_status \<times> 'd \<times> 's \<Rightarrow> command_response \<times> 's" where
  "after_query kind (s, d, st) =
     ((reply_status s)\<lparr>cr_data := if s = COMMAND_STATUS_OK then kind d else COMMAND_RESPONSE_NONE\<rparr>,
      st)"

abbreviation u16_at :: "bytes \<Rightarrow> nat \<Rightarrow> u16" where
  "u16_at p i \<equiv> read_u16_be (p ! i) (p ! (i + 1))"

abbreviation u32_at :: "bytes \<Rightarrow> nat \<Rightarrow> u32" where
  "u32_at p i \<equiv> read_u32_be (p ! i) (p ! (i + 1)) (p ! (i + 2)) (p ! (i + 3))"

type_synonym 's command_case =
  "'s command_service_context \<Rightarrow> bytes \<Rightarrow> nat \<Rightarrow> 's \<Rightarrow> command_response \<times> 's"

definition dispatch_ping :: "'s command_case" where
  "dispatch_ping context payload payload_length st =
     (if COMMAND_SERVICE_MAX_PING_BYTES < payload_length then
        (reply_status COMMAND_STATUS_INVALID_PAYLOAD, st)
      else
        (reply_ok (COMMAND_RESPONSE_ECHO
           \<lparr>er_length = payload_length, er_bytes = take payload_length payload\<rparr>), st))"

definition dispatch_get_identity :: "'s command_case" where
  "dispatch_get_identity context payload payload_length st =
     (if payload_length \<noteq> 0 then (reply_status COMMAND_STATUS_INVALID_PAYLOAD, st)
      else
        (reply_ok (COMMAND_RESPONSE_IDENTITY
           \<lparr>ir_product_id = cx_product_id context,
            ir_firmware_major = cx_firmware_major context,
            ir_firmware_minor = cx_firmware_minor context,
            ir_firmware_patch = cx_firmware_patch context,
            ir_protocol_major = cx_protocol_major context,
            ir_protocol_minor = cx_protocol_minor context\<rparr>), st))"

definition dispatch_get_capabilities :: "'s command_case" where
  "dispatch_get_capabilities context payload payload_length st =
     (if payload_length \<noteq> 0 then (reply_status COMMAND_STATUS_INVALID_PAYLOAD, st)
      else (reply_ok (COMMAND_RESPONSE_CAPABILITIES (cx_capabilities context)), st))"

definition dispatch_get_commissioning_status :: "'s command_case" where
  "dispatch_get_commissioning_status context payload payload_length st =
     (if payload_length \<noteq> 0 then
        (reply_status COMMAND_STATUS_INVALID_PAYLOAD, st)
      else
        (case ca_get_status (cx_commissioning context) of
           None \<Rightarrow> (reply_status COMMAND_STATUS_UNAVAILABLE, st)
         | Some callback \<Rightarrow> after_query COMMAND_RESPONSE_COMMISSIONING_STATUS (callback st)))"

definition dispatch_configure_current_test :: "'s command_case" where
  "dispatch_configure_current_test context payload payload_length st =
     (if payload_length \<noteq> 6 \<and> payload_length \<noteq> 7 then
        (reply_status COMMAND_STATUS_INVALID_PAYLOAD, st)
      else
        (case ca_configure (cx_commissioning context) of
           None \<Rightarrow> (reply_status COMMAND_STATUS_UNAVAILABLE, st)
         | Some callback \<Rightarrow>
             (let requested =
                \<lparr>tc_amplitude_counts = u16_at payload 0,
                 tc_frequency_millihz = u32_at payload 2,
                 tc_controller_mode =
                   (if payload_length = 7 then payload ! 6
                    else COMMAND_CURRENT_TEST_CONTROLLER_STATIONARY),
                 tc_controller_mode_present = (payload_length = 7)\<rparr>
              in if COMMAND_CURRENT_TEST_CONTROLLER_COUNT \<le> tc_controller_mode requested then
                   (reply_status COMMAND_STATUS_INVALID_PAYLOAD, st)
                 else after_query COMMAND_RESPONSE_CURRENT_TEST_CONFIG (callback requested st))))"

definition dispatch_start_current_test :: "'s command_case" where
  "dispatch_start_current_test context payload payload_length st =
     (if payload_length \<noteq> 5 \<and> payload_length \<noteq> 9 then
        (reply_status COMMAND_STATUS_INVALID_PAYLOAD, st)
      else
        (case ca_start (cx_commissioning context) of
           None \<Rightarrow> (reply_status COMMAND_STATUS_UNAVAILABLE, st)
         | Some callback \<Rightarrow>
             after_action
               (callback (payload ! 0)
                  (if payload_length = 9 then u32_at payload 1 else 0)
                  (u32_at payload (if payload_length = 9 then 5 else 1)) st)))"

definition dispatch_start_bootstrap_probe :: "'s command_case" where
  "dispatch_start_bootstrap_probe context payload payload_length st =
     (if payload_length \<noteq> 4 then (reply_status COMMAND_STATUS_INVALID_PAYLOAD, st)
      else
        (let duration_millis = u32_at payload 0
         in if duration_millis = 0 \<or>
               COMMAND_SERVICE_BOOTSTRAP_PROBE_MAX_DURATION_MILLIS < duration_millis then
              (reply_status COMMAND_STATUS_INVALID_PAYLOAD, st)
            else
              (case ca_start_bootstrap_probe (cx_commissioning context) of
                 None \<Rightarrow> (reply_status COMMAND_STATUS_UNAVAILABLE, st)
               | Some callback \<Rightarrow> after_action (callback duration_millis st))))"

definition dispatch_stop_current_test :: "'s command_case" where
  "dispatch_stop_current_test context payload payload_length st =
     (if payload_length \<noteq> 0 then
        (reply_status COMMAND_STATUS_INVALID_PAYLOAD, st)
      else
        (case ca_stop (cx_commissioning context) of
           None \<Rightarrow> (reply_status COMMAND_STATUS_UNAVAILABLE, st)
         | Some callback \<Rightarrow> after_action (callback st)))"

definition dispatch_start_alignment :: "'s command_case" where
  "dispatch_start_alignment context payload payload_length st =
     (if payload_length \<noteq> 2 then
        (reply_status COMMAND_STATUS_INVALID_PAYLOAD, st)
      else
        (case aa_start (cx_alignment context) of
           None \<Rightarrow> (reply_status COMMAND_STATUS_UNAVAILABLE, st)
         | Some callback \<Rightarrow> after_action (callback (u16_at payload 0) st)))"

definition dispatch_get_alignment_status :: "'s command_case" where
  "dispatch_get_alignment_status context payload payload_length st =
     (if payload_length \<noteq> 0 then
        (reply_status COMMAND_STATUS_INVALID_PAYLOAD, st)
      else
        (case aa_get_status (cx_alignment context) of
           None \<Rightarrow> (reply_status COMMAND_STATUS_UNAVAILABLE, st)
         | Some callback \<Rightarrow> after_query COMMAND_RESPONSE_ALIGNMENT_STATUS (callback st)))"

definition dispatch_stop_drive :: "'s command_case" where
  "dispatch_stop_drive context payload payload_length st =
     (if payload_length \<noteq> 0 then
        (reply_status COMMAND_STATUS_INVALID_PAYLOAD, st)
      else
        (case da_stop (cx_drive context) of
           None \<Rightarrow> (reply_status COMMAND_STATUS_UNAVAILABLE, st)
         | Some callback \<Rightarrow> after_action (callback st)))"

definition dispatch_clear_faults :: "'s command_case" where
  "dispatch_clear_faults context payload payload_length st =
     (if payload_length \<noteq> 0 then
        (reply_status COMMAND_STATUS_INVALID_PAYLOAD, st)
      else
        (case da_clear_faults (cx_drive context) of
           None \<Rightarrow> (reply_status COMMAND_STATUS_UNAVAILABLE, st)
         | Some callback \<Rightarrow> after_query COMMAND_RESPONSE_FAULT_RECOVERY_STATUS (callback st)))"

definition dispatch_get_configuration_status :: "'s command_case" where
  "dispatch_get_configuration_status context payload payload_length st =
     (if payload_length \<noteq> 0 then
        (reply_status COMMAND_STATUS_INVALID_PAYLOAD, st)
      else
        (case fa_get_status (cx_configuration context) of
           None \<Rightarrow> (reply_status COMMAND_STATUS_UNAVAILABLE, st)
         | Some callback \<Rightarrow> after_query COMMAND_RESPONSE_CONFIGURATION_STATUS (callback st)))"

definition dispatch_save_configuration :: "'s command_case" where
  "dispatch_save_configuration context payload payload_length st =
     (if payload_length \<noteq> 0 then
        (reply_status COMMAND_STATUS_INVALID_PAYLOAD, st)
      else
        (case fa_save (cx_configuration context) of
           None \<Rightarrow> (reply_status COMMAND_STATUS_UNAVAILABLE, st)
         | Some callback \<Rightarrow> after_action (callback st)))"

definition dispatch_clear_calibration :: "'s command_case" where
  "dispatch_clear_calibration context payload payload_length st =
     (if payload_length \<noteq> 0 then
        (reply_status COMMAND_STATUS_INVALID_PAYLOAD, st)
      else
        (case fa_clear_calibration (cx_configuration context) of
           None \<Rightarrow> (reply_status COMMAND_STATUS_UNAVAILABLE, st)
         | Some callback \<Rightarrow> after_action (callback st)))"

definition dispatch_set_current_loop_gains :: "'s command_case" where
  "dispatch_set_current_loop_gains context payload payload_length st =
     (if payload_length \<noteq> 8 then
        (reply_status COMMAND_STATUS_INVALID_PAYLOAD, st)
      else
        (case fa_set_current_loop_gains (cx_configuration context) of
           None \<Rightarrow> (reply_status COMMAND_STATUS_UNAVAILABLE, st)
         | Some callback \<Rightarrow> after_action (callback (u32_at payload 0) (u32_at payload 4) st)))"

definition dispatch_revert_current_loop_gains :: "'s command_case" where
  "dispatch_revert_current_loop_gains context payload payload_length st =
     (if payload_length \<noteq> 0 then
        (reply_status COMMAND_STATUS_INVALID_PAYLOAD, st)
      else
        (case fa_revert_current_loop_gains (cx_configuration context) of
           None \<Rightarrow> (reply_status COMMAND_STATUS_UNAVAILABLE, st)
         | Some callback \<Rightarrow> after_action (callback st)))"

definition dispatch_start_aligned_torque :: "'s command_case" where
  "dispatch_start_aligned_torque context payload payload_length st =
     (if payload_length \<noteq> 6 then
        (reply_status COMMAND_STATUS_INVALID_PAYLOAD, st)
      else
        (case ta_start (cx_aligned_torque context) of
           None \<Rightarrow> (reply_status COMMAND_STATUS_UNAVAILABLE, st)
         | Some callback \<Rightarrow> after_action (callback (u16_at payload 0) (u32_at payload 2) st)))"

definition dispatch_get_aligned_torque_status :: "'s command_case" where
  "dispatch_get_aligned_torque_status context payload payload_length st =
     (if payload_length \<noteq> 0 then
        (reply_status COMMAND_STATUS_INVALID_PAYLOAD, st)
      else
        (case ta_get_status (cx_aligned_torque context) of
           None \<Rightarrow> (reply_status COMMAND_STATUS_UNAVAILABLE, st)
         | Some callback \<Rightarrow> after_query COMMAND_RESPONSE_ALIGNED_TORQUE_STATUS (callback st)))"

definition dispatch_start_velocity :: "'s command_case" where
  "dispatch_start_velocity context payload payload_length st =
     (if payload_length \<noteq> 10 \<and> payload_length \<noteq> 14 then
        (reply_status COMMAND_STATUS_INVALID_PAYLOAD, st)
      else
        (case va_start (cx_velocity context) of
           None \<Rightarrow> (reply_status COMMAND_STATUS_UNAVAILABLE, st)
         | Some callback \<Rightarrow>
             after_action
               (callback (u32_at payload 0) (u16_at payload 4) (u32_at payload 6)
                  (if payload_length = 14 then u32_at payload 10 else 0) st)))"

definition dispatch_get_velocity_status :: "'s command_case" where
  "dispatch_get_velocity_status context payload payload_length st =
     (if payload_length \<noteq> 0 then
        (reply_status COMMAND_STATUS_INVALID_PAYLOAD, st)
      else
        (case va_get_status (cx_velocity context) of
           None \<Rightarrow> (reply_status COMMAND_STATUS_UNAVAILABLE, st)
         | Some callback \<Rightarrow> after_query COMMAND_RESPONSE_VELOCITY_STATUS (callback st)))"

definition dispatch_start_position_relative :: "'s command_case" where
  "dispatch_start_position_relative context payload payload_length st =
     (if payload_length \<noteq> 18 then (reply_status COMMAND_STATUS_INVALID_PAYLOAD, st)
      else
        (case pa_start_relative (cx_position context) of
           None \<Rightarrow> (reply_status COMMAND_STATUS_UNAVAILABLE, st)
         | Some callback \<Rightarrow>
             after_action
               (callback (u32_at payload 0) (u32_at payload 4) (u32_at payload 8)
                  (u16_at payload 12) (u32_at payload 14) st)))"

definition dispatch_get_position_status :: "'s command_case" where
  "dispatch_get_position_status context payload payload_length st =
     (if payload_length \<noteq> 0 then
        (reply_status COMMAND_STATUS_INVALID_PAYLOAD, st)
      else
        (case pa_get_status (cx_position context) of
           None \<Rightarrow> (reply_status COMMAND_STATUS_UNAVAILABLE, st)
         | Some callback \<Rightarrow> after_query COMMAND_RESPONSE_POSITION_STATUS (callback st)))"

definition dispatch_get_boot_status :: "'s command_case" where
  "dispatch_get_boot_status context payload payload_length st =
     (if payload_length \<noteq> 0 then
        (reply_status COMMAND_STATUS_INVALID_PAYLOAD, st)
      else
        (case ca_get_boot_status (cx_commissioning context) of
           None \<Rightarrow> (reply_status COMMAND_STATUS_UNAVAILABLE, st)
         | Some callback \<Rightarrow> after_query COMMAND_RESPONSE_BOOT_STATUS (callback st)))"

definition dispatch_get_encoder_status :: "'s command_case" where
  "dispatch_get_encoder_status context payload payload_length st =
     (if payload_length \<noteq> 0 then
        (reply_status COMMAND_STATUS_INVALID_PAYLOAD, st)
      else
        (case ca_get_encoder_status (cx_commissioning context) of
           None \<Rightarrow> (reply_status COMMAND_STATUS_UNAVAILABLE, st)
         | Some callback \<Rightarrow> after_query COMMAND_RESPONSE_ENCODER_STATUS (callback st)))"

definition dispatch_get_current_trace :: "'s command_case" where
  "dispatch_get_current_trace context payload payload_length st =
     (if payload_length \<noteq> 2 then
        (reply_status COMMAND_STATUS_INVALID_PAYLOAD, st)
      else
        (case ca_get_current_trace (cx_commissioning context) of
           None \<Rightarrow> (reply_status COMMAND_STATUS_UNAVAILABLE, st)
         | Some callback \<Rightarrow> after_query COMMAND_RESPONSE_CURRENT_TRACE (callback (u16_at payload 0)
           st)))"

definition dispatch_arm_current_trace :: "'s command_case" where
  "dispatch_arm_current_trace context payload payload_length st =
     (if payload_length \<noteq> 0 then
        (reply_status COMMAND_STATUS_INVALID_PAYLOAD, st)
      else
        (case ca_arm_current_trace (cx_commissioning context) of
           None \<Rightarrow> (reply_status COMMAND_STATUS_UNAVAILABLE, st)
         | Some callback \<Rightarrow> after_action (callback st)))"

definition dispatch_get_runtime_profile :: "'s command_case" where
  "dispatch_get_runtime_profile context payload payload_length st =
     (if payload_length \<noteq> 0 then
        (reply_status COMMAND_STATUS_INVALID_PAYLOAD, st)
      else
        (case ca_get_runtime_profile (cx_commissioning context) of
           None \<Rightarrow> (reply_status COMMAND_STATUS_UNAVAILABLE, st)
         | Some callback \<Rightarrow> after_query COMMAND_RESPONSE_RUNTIME_PROFILE (callback st)))"

definition dispatch_arm_runtime_profile :: "'s command_case" where
  "dispatch_arm_runtime_profile context payload payload_length st =
     (if payload_length \<noteq> 0 then
        (reply_status COMMAND_STATUS_INVALID_PAYLOAD, st)
      else
        (case ca_arm_runtime_profile (cx_commissioning context) of
           None \<Rightarrow> (reply_status COMMAND_STATUS_UNAVAILABLE, st)
         | Some callback \<Rightarrow> after_action (callback st)))"

primrec dispatch_operation :: "command_operation \<Rightarrow> 's command_case" where
  "dispatch_operation COMMAND_OPERATION_PING = dispatch_ping"
| "dispatch_operation COMMAND_OPERATION_GET_IDENTITY = dispatch_get_identity"
| "dispatch_operation COMMAND_OPERATION_GET_CAPABILITIES = dispatch_get_capabilities"
| "dispatch_operation COMMAND_OPERATION_GET_COMMISSIONING_STATUS =
  dispatch_get_commissioning_status"
| "dispatch_operation COMMAND_OPERATION_CONFIGURE_CURRENT_TEST = dispatch_configure_current_test"
| "dispatch_operation COMMAND_OPERATION_START_CURRENT_TEST = dispatch_start_current_test"
| "dispatch_operation COMMAND_OPERATION_STOP_CURRENT_TEST = dispatch_stop_current_test"
| "dispatch_operation COMMAND_OPERATION_GET_BOOT_STATUS = dispatch_get_boot_status"
| "dispatch_operation COMMAND_OPERATION_GET_ENCODER_STATUS = dispatch_get_encoder_status"
| "dispatch_operation COMMAND_OPERATION_GET_CURRENT_TRACE = dispatch_get_current_trace"
| "dispatch_operation COMMAND_OPERATION_ARM_CURRENT_TRACE = dispatch_arm_current_trace"
| "dispatch_operation COMMAND_OPERATION_GET_RUNTIME_PROFILE = dispatch_get_runtime_profile"
| "dispatch_operation COMMAND_OPERATION_ARM_RUNTIME_PROFILE = dispatch_arm_runtime_profile"
| "dispatch_operation COMMAND_OPERATION_START_ALIGNMENT = dispatch_start_alignment"
| "dispatch_operation COMMAND_OPERATION_GET_ALIGNMENT_STATUS = dispatch_get_alignment_status"
| "dispatch_operation COMMAND_OPERATION_STOP_DRIVE = dispatch_stop_drive"
| "dispatch_operation COMMAND_OPERATION_CLEAR_FAULTS = dispatch_clear_faults"
| "dispatch_operation COMMAND_OPERATION_GET_CONFIGURATION_STATUS =
  dispatch_get_configuration_status"
| "dispatch_operation COMMAND_OPERATION_SAVE_CONFIGURATION = dispatch_save_configuration"
| "dispatch_operation COMMAND_OPERATION_CLEAR_CALIBRATION = dispatch_clear_calibration"
| "dispatch_operation COMMAND_OPERATION_SET_CURRENT_LOOP_GAINS = dispatch_set_current_loop_gains"
| "dispatch_operation COMMAND_OPERATION_REVERT_CURRENT_LOOP_GAINS =
  dispatch_revert_current_loop_gains"
| "dispatch_operation COMMAND_OPERATION_START_ALIGNED_TORQUE = dispatch_start_aligned_torque"
| "dispatch_operation COMMAND_OPERATION_GET_ALIGNED_TORQUE_STATUS =
  dispatch_get_aligned_torque_status"
| "dispatch_operation COMMAND_OPERATION_START_VELOCITY = dispatch_start_velocity"
| "dispatch_operation COMMAND_OPERATION_GET_VELOCITY_STATUS = dispatch_get_velocity_status"
| "dispatch_operation COMMAND_OPERATION_START_POSITION_RELATIVE = dispatch_start_position_relative"
| "dispatch_operation COMMAND_OPERATION_GET_POSITION_STATUS = dispatch_get_position_status"
| "dispatch_operation COMMAND_OPERATION_START_BOOTSTRAP_PROBE = dispatch_start_bootstrap_probe"
| "dispatch_operation COMMAND_OPERATION_OTHER =
     (\<lambda>context payload payload_length st. (reply_status COMMAND_STATUS_UNKNOWN_COMMAND, st))"

fun command_service_dispatch ::
  "'s command_service_context ptr \<Rightarrow> command_request ptr \<Rightarrow> command_response ptr \<Rightarrow> 's \<Rightarrow>
     command_response ptr \<times> 's" where
  "command_service_dispatch context request None st = (None, st)"
| "command_service_dispatch (Some context) (Some request) (Some response) st =
     (case rq_payload request of
        None \<Rightarrow>
          if rq_payload_length request \<noteq> 0 then (Some response_reset, st)
          else apfst Some (dispatch_operation (rq_operation request) context [] 0 st)
      | Some payload \<Rightarrow>
          apfst Some (dispatch_operation (rq_operation request) context payload
            (rq_payload_length request) st))"
| "command_service_dispatch context request (Some response) st = (Some response_reset, st)"


section \<open>What a case may do\<close>

lemmas dispatch_defs =
  dispatch_ping_def dispatch_get_identity_def dispatch_get_capabilities_def
  dispatch_get_commissioning_status_def dispatch_configure_current_test_def
  dispatch_start_current_test_def dispatch_start_bootstrap_probe_def
  dispatch_stop_current_test_def dispatch_start_alignment_def dispatch_get_alignment_status_def
  dispatch_stop_drive_def dispatch_clear_faults_def dispatch_get_configuration_status_def
  dispatch_save_configuration_def dispatch_clear_calibration_def
  dispatch_set_current_loop_gains_def dispatch_revert_current_loop_gains_def
  dispatch_start_aligned_torque_def dispatch_get_aligned_torque_status_def
  dispatch_start_velocity_def dispatch_get_velocity_status_def
  dispatch_start_position_relative_def dispatch_get_position_status_def
  dispatch_get_boot_status_def dispatch_get_encoder_status_def dispatch_get_current_trace_def
  dispatch_arm_current_trace_def dispatch_get_runtime_profile_def dispatch_arm_runtime_profile_def

lemma reply_simps [simp]:
  "cr_status response_reset = COMMAND_STATUS_INTERNAL_ERROR"
  "cr_data response_reset = COMMAND_RESPONSE_NONE"
  "cr_status (reply_status s) = s" "cr_data (reply_status s) = COMMAND_RESPONSE_NONE"
  "cr_status (reply_ok d) = COMMAND_STATUS_OK" "cr_data (reply_ok d) = d"
  by (simp_all add: response_reset_def reply_status_def reply_ok_def)

lemma after_simps [simp]:
  "cr_status (fst (after_action r)) = fst r" "snd (after_action r) = snd r"
  "cr_data (fst (after_action r)) = COMMAND_RESPONSE_NONE"
  "cr_status (fst (after_query k q)) = fst q" "snd (after_query k q) = snd (snd q)"
  "cr_data (fst (after_query k q)) =
     (if fst q = COMMAND_STATUS_OK then k (fst (snd q)) else COMMAND_RESPONSE_NONE)"
  by (cases r; simp)+ (cases q; simp)+

text \<open>The payload sizes each operation accepts.\<close>

primrec accepted_length :: "command_operation \<Rightarrow> nat \<Rightarrow> bool" where
  "accepted_length COMMAND_OPERATION_PING n = (n \<le> 16)"
| "accepted_length COMMAND_OPERATION_GET_IDENTITY n = (n = 0)"
| "accepted_length COMMAND_OPERATION_GET_CAPABILITIES n = (n = 0)"
| "accepted_length COMMAND_OPERATION_GET_COMMISSIONING_STATUS n = (n = 0)"
| "accepted_length COMMAND_OPERATION_CONFIGURE_CURRENT_TEST n = (n \<in> {6, 7})"
| "accepted_length COMMAND_OPERATION_START_CURRENT_TEST n = (n \<in> {5, 9})"
| "accepted_length COMMAND_OPERATION_STOP_CURRENT_TEST n = (n = 0)"
| "accepted_length COMMAND_OPERATION_GET_BOOT_STATUS n = (n = 0)"
| "accepted_length COMMAND_OPERATION_GET_ENCODER_STATUS n = (n = 0)"
| "accepted_length COMMAND_OPERATION_GET_CURRENT_TRACE n = (n = 2)"
| "accepted_length COMMAND_OPERATION_ARM_CURRENT_TRACE n = (n = 0)"
| "accepted_length COMMAND_OPERATION_GET_RUNTIME_PROFILE n = (n = 0)"
| "accepted_length COMMAND_OPERATION_ARM_RUNTIME_PROFILE n = (n = 0)"
| "accepted_length COMMAND_OPERATION_START_ALIGNMENT n = (n = 2)"
| "accepted_length COMMAND_OPERATION_GET_ALIGNMENT_STATUS n = (n = 0)"
| "accepted_length COMMAND_OPERATION_STOP_DRIVE n = (n = 0)"
| "accepted_length COMMAND_OPERATION_CLEAR_FAULTS n = (n = 0)"
| "accepted_length COMMAND_OPERATION_GET_CONFIGURATION_STATUS n = (n = 0)"
| "accepted_length COMMAND_OPERATION_SAVE_CONFIGURATION n = (n = 0)"
| "accepted_length COMMAND_OPERATION_CLEAR_CALIBRATION n = (n = 0)"
| "accepted_length COMMAND_OPERATION_SET_CURRENT_LOOP_GAINS n = (n = 8)"
| "accepted_length COMMAND_OPERATION_REVERT_CURRENT_LOOP_GAINS n = (n = 0)"
| "accepted_length COMMAND_OPERATION_START_ALIGNED_TORQUE n = (n = 6)"
| "accepted_length COMMAND_OPERATION_GET_ALIGNED_TORQUE_STATUS n = (n = 0)"
| "accepted_length COMMAND_OPERATION_START_VELOCITY n = (n \<in> {10, 14})"
| "accepted_length COMMAND_OPERATION_GET_VELOCITY_STATUS n = (n = 0)"
| "accepted_length COMMAND_OPERATION_START_POSITION_RELATIVE n = (n = 18)"
| "accepted_length COMMAND_OPERATION_GET_POSITION_STATUS n = (n = 0)"
| "accepted_length COMMAND_OPERATION_START_BOOTSTRAP_PROBE n = (n = 4)"
| "accepted_length COMMAND_OPERATION_OTHER n = False"

text \<open>The kind tag of the union, and the kind each operation promises.\<close>

datatype command_response_kind =
    KIND_NONE
  | KIND_ECHO
  | KIND_IDENTITY
  | KIND_CAPABILITIES
  | KIND_COMMISSIONING_STATUS
  | KIND_CURRENT_TEST_CONFIG
  | KIND_BOOT_STATUS
  | KIND_ENCODER_STATUS
  | KIND_CURRENT_TRACE
  | KIND_RUNTIME_PROFILE
  | KIND_ALIGNMENT_STATUS
  | KIND_CONFIGURATION_STATUS
  | KIND_ALIGNED_TORQUE_STATUS
  | KIND_VELOCITY_STATUS
  | KIND_POSITION_STATUS
  | KIND_FAULT_RECOVERY_STATUS
  | KIND_OTHER

primrec response_kind :: "command_response_data \<Rightarrow> command_response_kind" where
  "response_kind COMMAND_RESPONSE_NONE = KIND_NONE"
| "response_kind (COMMAND_RESPONSE_ECHO d) = KIND_ECHO"
| "response_kind (COMMAND_RESPONSE_IDENTITY d) = KIND_IDENTITY"
| "response_kind (COMMAND_RESPONSE_CAPABILITIES d) = KIND_CAPABILITIES"
| "response_kind (COMMAND_RESPONSE_COMMISSIONING_STATUS d) = KIND_COMMISSIONING_STATUS"
| "response_kind (COMMAND_RESPONSE_CURRENT_TEST_CONFIG d) = KIND_CURRENT_TEST_CONFIG"
| "response_kind (COMMAND_RESPONSE_BOOT_STATUS d) = KIND_BOOT_STATUS"
| "response_kind (COMMAND_RESPONSE_ENCODER_STATUS d) = KIND_ENCODER_STATUS"
| "response_kind (COMMAND_RESPONSE_CURRENT_TRACE d) = KIND_CURRENT_TRACE"
| "response_kind (COMMAND_RESPONSE_RUNTIME_PROFILE d) = KIND_RUNTIME_PROFILE"
| "response_kind (COMMAND_RESPONSE_ALIGNMENT_STATUS d) = KIND_ALIGNMENT_STATUS"
| "response_kind (COMMAND_RESPONSE_CONFIGURATION_STATUS d) = KIND_CONFIGURATION_STATUS"
| "response_kind (COMMAND_RESPONSE_ALIGNED_TORQUE_STATUS d) = KIND_ALIGNED_TORQUE_STATUS"
| "response_kind (COMMAND_RESPONSE_VELOCITY_STATUS d) = KIND_VELOCITY_STATUS"
| "response_kind (COMMAND_RESPONSE_POSITION_STATUS d) = KIND_POSITION_STATUS"
| "response_kind (COMMAND_RESPONSE_FAULT_RECOVERY_STATUS d) = KIND_FAULT_RECOVERY_STATUS"
| "response_kind COMMAND_RESPONSE_OTHER = KIND_OTHER"

primrec promised_kind :: "command_operation \<Rightarrow> command_response_kind" where
  "promised_kind COMMAND_OPERATION_PING = KIND_ECHO"
| "promised_kind COMMAND_OPERATION_GET_IDENTITY = KIND_IDENTITY"
| "promised_kind COMMAND_OPERATION_GET_CAPABILITIES = KIND_CAPABILITIES"
| "promised_kind COMMAND_OPERATION_GET_COMMISSIONING_STATUS = KIND_COMMISSIONING_STATUS"
| "promised_kind COMMAND_OPERATION_CONFIGURE_CURRENT_TEST = KIND_CURRENT_TEST_CONFIG"
| "promised_kind COMMAND_OPERATION_START_CURRENT_TEST = KIND_NONE"
| "promised_kind COMMAND_OPERATION_STOP_CURRENT_TEST = KIND_NONE"
| "promised_kind COMMAND_OPERATION_GET_BOOT_STATUS = KIND_BOOT_STATUS"
| "promised_kind COMMAND_OPERATION_GET_ENCODER_STATUS = KIND_ENCODER_STATUS"
| "promised_kind COMMAND_OPERATION_GET_CURRENT_TRACE = KIND_CURRENT_TRACE"
| "promised_kind COMMAND_OPERATION_ARM_CURRENT_TRACE = KIND_NONE"
| "promised_kind COMMAND_OPERATION_GET_RUNTIME_PROFILE = KIND_RUNTIME_PROFILE"
| "promised_kind COMMAND_OPERATION_ARM_RUNTIME_PROFILE = KIND_NONE"
| "promised_kind COMMAND_OPERATION_START_ALIGNMENT = KIND_NONE"
| "promised_kind COMMAND_OPERATION_GET_ALIGNMENT_STATUS = KIND_ALIGNMENT_STATUS"
| "promised_kind COMMAND_OPERATION_STOP_DRIVE = KIND_NONE"
| "promised_kind COMMAND_OPERATION_CLEAR_FAULTS = KIND_FAULT_RECOVERY_STATUS"
| "promised_kind COMMAND_OPERATION_GET_CONFIGURATION_STATUS = KIND_CONFIGURATION_STATUS"
| "promised_kind COMMAND_OPERATION_SAVE_CONFIGURATION = KIND_NONE"
| "promised_kind COMMAND_OPERATION_CLEAR_CALIBRATION = KIND_NONE"
| "promised_kind COMMAND_OPERATION_SET_CURRENT_LOOP_GAINS = KIND_NONE"
| "promised_kind COMMAND_OPERATION_REVERT_CURRENT_LOOP_GAINS = KIND_NONE"
| "promised_kind COMMAND_OPERATION_START_ALIGNED_TORQUE = KIND_NONE"
| "promised_kind COMMAND_OPERATION_GET_ALIGNED_TORQUE_STATUS = KIND_ALIGNED_TORQUE_STATUS"
| "promised_kind COMMAND_OPERATION_START_VELOCITY = KIND_NONE"
| "promised_kind COMMAND_OPERATION_GET_VELOCITY_STATUS = KIND_VELOCITY_STATUS"
| "promised_kind COMMAND_OPERATION_START_POSITION_RELATIVE = KIND_NONE"
| "promised_kind COMMAND_OPERATION_GET_POSITION_STATUS = KIND_POSITION_STATUS"
| "promised_kind COMMAND_OPERATION_START_BOOTSTRAP_PROBE = KIND_NONE"
| "promised_kind COMMAND_OPERATION_OTHER = KIND_NONE"

lemma bad_length_dispatch:
  "\<not> accepted_length operation n \<Longrightarrow> operation \<noteq> COMMAND_OPERATION_OTHER \<Longrightarrow>
     dispatch_operation operation context payload n st
       = (reply_status COMMAND_STATUS_INVALID_PAYLOAD, st)"
  by (cases operation) (simp_all add: dispatch_defs)

lemma response_kind_if [simp]:
  "response_kind (if b then x else COMMAND_RESPONSE_NONE) =
    (if b then response_kind x else KIND_NONE)"
  by simp

lemma dispatch_kind:
  "response_kind (cr_data (fst (dispatch_operation operation context payload n st)))
     = (if cr_status (fst (dispatch_operation operation context payload n st)) = COMMAND_STATUS_OK
        then promised_kind operation else KIND_NONE)"
  by (cases operation) (simp_all add: dispatch_defs Let_def split: option.split)

section \<open>Requests as the host builds them\<close>

datatype command_call =
    Call_Ping bytes
  | Call_Configure u16 u32 "u8 option"
  | Call_Start_Test u8 "u32 option" u32
  | Call_Probe u32
  | Call_Trace u16
  | Call_Start_Alignment u16
  | Call_Set_Gains i32 i32
  | Call_Start_Torque i16 u32
  | Call_Start_Velocity i32 u16 u32 "i32 option"
  | Call_Start_Position i32 i32 i32 u16 u32
  | Call_Get_Identity
  | Call_Get_Capabilities
  | Call_Get_Commissioning_Status
  | Call_Stop_Test
  | Call_Get_Boot_Status
  | Call_Get_Encoder_Status
  | Call_Arm_Trace
  | Call_Get_Profile
  | Call_Arm_Profile
  | Call_Get_Alignment_Status
  | Call_Stop_Drive
  | Call_Clear_Drive_Faults
  | Call_Get_Configuration_Status
  | Call_Save_Configuration
  | Call_Clear_Calibration
  | Call_Revert_Gains
  | Call_Get_Torque_Status
  | Call_Get_Velocity_Status
  | Call_Get_Position_Status

primrec call_operation :: "command_call \<Rightarrow> command_operation" where
  "call_operation (Call_Ping bs) = COMMAND_OPERATION_PING"
| "call_operation (Call_Configure a f m) = COMMAND_OPERATION_CONFIGURE_CURRENT_TEST"
| "call_operation (Call_Start_Test l r d) = COMMAND_OPERATION_START_CURRENT_TEST"
| "call_operation (Call_Probe d) = COMMAND_OPERATION_START_BOOTSTRAP_PROBE"
| "call_operation (Call_Trace i) = COMMAND_OPERATION_GET_CURRENT_TRACE"
| "call_operation (Call_Start_Alignment c) = COMMAND_OPERATION_START_ALIGNMENT"
| "call_operation (Call_Set_Gains p i) = COMMAND_OPERATION_SET_CURRENT_LOOP_GAINS"
| "call_operation (Call_Start_Torque q d) = COMMAND_OPERATION_START_ALIGNED_TORQUE"
| "call_operation (Call_Start_Velocity v c d a) = COMMAND_OPERATION_START_VELOCITY"
| "call_operation (Call_Start_Position p v a c d) = COMMAND_OPERATION_START_POSITION_RELATIVE"
| "call_operation Call_Get_Identity = COMMAND_OPERATION_GET_IDENTITY"
| "call_operation Call_Get_Capabilities = COMMAND_OPERATION_GET_CAPABILITIES"
| "call_operation Call_Get_Commissioning_Status = COMMAND_OPERATION_GET_COMMISSIONING_STATUS"
| "call_operation Call_Stop_Test = COMMAND_OPERATION_STOP_CURRENT_TEST"
| "call_operation Call_Get_Boot_Status = COMMAND_OPERATION_GET_BOOT_STATUS"
| "call_operation Call_Get_Encoder_Status = COMMAND_OPERATION_GET_ENCODER_STATUS"
| "call_operation Call_Arm_Trace = COMMAND_OPERATION_ARM_CURRENT_TRACE"
| "call_operation Call_Get_Profile = COMMAND_OPERATION_GET_RUNTIME_PROFILE"
| "call_operation Call_Arm_Profile = COMMAND_OPERATION_ARM_RUNTIME_PROFILE"
| "call_operation Call_Get_Alignment_Status = COMMAND_OPERATION_GET_ALIGNMENT_STATUS"
| "call_operation Call_Stop_Drive = COMMAND_OPERATION_STOP_DRIVE"
| "call_operation Call_Clear_Drive_Faults = COMMAND_OPERATION_CLEAR_FAULTS"
| "call_operation Call_Get_Configuration_Status = COMMAND_OPERATION_GET_CONFIGURATION_STATUS"
| "call_operation Call_Save_Configuration = COMMAND_OPERATION_SAVE_CONFIGURATION"
| "call_operation Call_Clear_Calibration = COMMAND_OPERATION_CLEAR_CALIBRATION"
| "call_operation Call_Revert_Gains = COMMAND_OPERATION_REVERT_CURRENT_LOOP_GAINS"
| "call_operation Call_Get_Torque_Status = COMMAND_OPERATION_GET_ALIGNED_TORQUE_STATUS"
| "call_operation Call_Get_Velocity_Status = COMMAND_OPERATION_GET_VELOCITY_STATUS"
| "call_operation Call_Get_Position_Status = COMMAND_OPERATION_GET_POSITION_STATUS"

primrec call_payload :: "command_call \<Rightarrow> bytes" where
  "call_payload (Call_Ping bs) = bs"
| "call_payload (Call_Configure a f m) =
     write_u16_be a @ write_u32_be f @ (case m of None \<Rightarrow> [] | Some mode \<Rightarrow> [mode])"
| "call_payload (Call_Start_Test l r d) =
     [l] @ (case r of None \<Rightarrow> [] | Some ramp \<Rightarrow> write_u32_be ramp) @ write_u32_be d"
| "call_payload (Call_Probe d) = write_u32_be d"
| "call_payload (Call_Trace i) = write_u16_be i"
| "call_payload (Call_Start_Alignment c) = write_u16_be c"
| "call_payload (Call_Set_Gains p i) = write_u32_be p @ write_u32_be i"
| "call_payload (Call_Start_Torque q d) = write_u16_be q @ write_u32_be d"
| "call_payload (Call_Start_Velocity v c d a) =
     write_u32_be v @ write_u16_be c @ write_u32_be d
     @ (case a of None \<Rightarrow> [] | Some acceleration \<Rightarrow> write_u32_be acceleration)"
| "call_payload (Call_Start_Position p v a c d) =
     write_u32_be p @ write_u32_be v @ write_u32_be a @ write_u16_be c @ write_u32_be d"
| "call_payload Call_Get_Identity = []"
| "call_payload Call_Get_Capabilities = []"
| "call_payload Call_Get_Commissioning_Status = []"
| "call_payload Call_Stop_Test = []"
| "call_payload Call_Get_Boot_Status = []"
| "call_payload Call_Get_Encoder_Status = []"
| "call_payload Call_Arm_Trace = []"
| "call_payload Call_Get_Profile = []"
| "call_payload Call_Arm_Profile = []"
| "call_payload Call_Get_Alignment_Status = []"
| "call_payload Call_Stop_Drive = []"
| "call_payload Call_Clear_Drive_Faults = []"
| "call_payload Call_Get_Configuration_Status = []"
| "call_payload Call_Save_Configuration = []"
| "call_payload Call_Clear_Calibration = []"
| "call_payload Call_Revert_Gains = []"
| "call_payload Call_Get_Torque_Status = []"
| "call_payload Call_Get_Velocity_Status = []"
| "call_payload Call_Get_Position_Status = []"

text \<open>The calls the service documents as valid.\<close>

primrec valid_call :: "command_call \<Rightarrow> bool" where
  "valid_call (Call_Ping bs) = (length bs \<le> 16)"
| "valid_call (Call_Configure a f m) = (case m of None \<Rightarrow> True | Some mode \<Rightarrow> mode < 2)"
| "valid_call (Call_Start_Test l r d) = True"
| "valid_call (Call_Probe d) = (0 < d \<and> d \<le> 5000)"
| "valid_call (Call_Trace i) = True"
| "valid_call (Call_Start_Alignment c) = True"
| "valid_call (Call_Set_Gains p i) = True"
| "valid_call (Call_Start_Torque q d) = True"
| "valid_call (Call_Start_Velocity v c d a) = True"
| "valid_call (Call_Start_Position p v a c d) = True"
| "valid_call Call_Get_Identity = True"
| "valid_call Call_Get_Capabilities = True"
| "valid_call Call_Get_Commissioning_Status = True"
| "valid_call Call_Stop_Test = True"
| "valid_call Call_Get_Boot_Status = True"
| "valid_call Call_Get_Encoder_Status = True"
| "valid_call Call_Arm_Trace = True"
| "valid_call Call_Get_Profile = True"
| "valid_call Call_Arm_Profile = True"
| "valid_call Call_Get_Alignment_Status = True"
| "valid_call Call_Stop_Drive = True"
| "valid_call Call_Clear_Drive_Faults = True"
| "valid_call Call_Get_Configuration_Status = True"
| "valid_call Call_Save_Configuration = True"
| "valid_call Call_Clear_Calibration = True"
| "valid_call Call_Revert_Gains = True"
| "valid_call Call_Get_Torque_Status = True"
| "valid_call Call_Get_Velocity_Status = True"
| "valid_call Call_Get_Position_Status = True"

text \<open>The answers the service documents: the status alone, and with a status of OK the data asked
  for.\<close>

fun action_answer :: "command_status \<times> 's \<Rightarrow> command_response \<times> 's" where
  "action_answer (s, st) = (\<lparr>cr_status = s, cr_data = COMMAND_RESPONSE_NONE\<rparr>, st)"

fun query_answer ::
  "('d \<Rightarrow> command_response_data) \<Rightarrow> command_status \<times> 'd \<times> 's \<Rightarrow> command_response \<times> 's" where
  "query_answer kind (s, d, st) =
     (\<lparr>cr_status = s,
       cr_data = (if s = COMMAND_STATUS_OK then kind d else COMMAND_RESPONSE_NONE)\<rparr>, st)"

text \<open>What the call means on the application: the callback with the host's own arguments.\<close>

primrec invoke :: "'s command_service_context \<Rightarrow> command_call \<Rightarrow> 's \<Rightarrow> (command_response \<times> 's)
  option" where
  "invoke cx (Call_Ping bs) st =
     Some (\<lparr>cr_status = COMMAND_STATUS_OK,
       cr_data = COMMAND_RESPONSE_ECHO \<lparr>er_length = length bs, er_bytes = bs\<rparr>\<rparr>, st)"
| "invoke cx (Call_Configure a f m) st =
     map_option (\<lambda>c. query_answer COMMAND_RESPONSE_CURRENT_TEST_CONFIG
       (c \<lparr>tc_amplitude_counts = a, tc_frequency_millihz = f,
           tc_controller_mode = (case m of None \<Rightarrow> 0 | Some mode \<Rightarrow> mode),
           tc_controller_mode_present = (m \<noteq> None)\<rparr> st)) (ca_configure (cx_commissioning cx))"
| "invoke cx (Call_Start_Test l r d) st =
     map_option (\<lambda>c. action_answer (c l (case r of None \<Rightarrow> 0 | Some ramp \<Rightarrow> ramp) d st))
       (ca_start (cx_commissioning cx))"
| "invoke cx (Call_Probe d) st =
     map_option (\<lambda>c. action_answer (c d st)) (ca_start_bootstrap_probe (cx_commissioning cx))"
| "invoke cx (Call_Trace i) st =
     map_option (\<lambda>c. query_answer COMMAND_RESPONSE_CURRENT_TRACE (c i st))
       (ca_get_current_trace (cx_commissioning cx))"
| "invoke cx (Call_Start_Alignment i) st =
     map_option (\<lambda>c. action_answer (c i st)) (aa_start (cx_alignment cx))"
| "invoke cx (Call_Set_Gains p i) st =
     map_option (\<lambda>c. action_answer (c p i st)) (fa_set_current_loop_gains (cx_configuration cx))"
| "invoke cx (Call_Start_Torque q d) st =
     map_option (\<lambda>c. action_answer (c q d st)) (ta_start (cx_aligned_torque cx))"
| "invoke cx (Call_Start_Velocity v i d a) st =
     map_option (\<lambda>c. action_answer (c v i d (case a of None \<Rightarrow> 0 | Some acceleration \<Rightarrow> acceleration)
       st))
       (va_start (cx_velocity cx))"
| "invoke cx (Call_Start_Position p v a i d) st =
     map_option (\<lambda>c. action_answer (c p v a i d st)) (pa_start_relative (cx_position cx))"
| "invoke cx Call_Get_Identity st = Some (\<lparr>cr_status = COMMAND_STATUS_OK,
       cr_data = COMMAND_RESPONSE_IDENTITY \<lparr>ir_product_id = cx_product_id cx,
         ir_firmware_major = cx_firmware_major cx, ir_firmware_minor = cx_firmware_minor cx,
         ir_firmware_patch = cx_firmware_patch cx, ir_protocol_major = cx_protocol_major cx,
         ir_protocol_minor = cx_protocol_minor cx\<rparr>\<rparr>, st)"
| "invoke cx Call_Get_Capabilities st = Some (\<lparr>cr_status = COMMAND_STATUS_OK,
       cr_data = COMMAND_RESPONSE_CAPABILITIES (cx_capabilities cx)\<rparr>, st)"
| "invoke cx Call_Get_Commissioning_Status st =
     map_option (\<lambda>c. query_answer COMMAND_RESPONSE_COMMISSIONING_STATUS (c st))
       (ca_get_status (cx_commissioning cx))"
| "invoke cx Call_Stop_Test st =
     map_option (\<lambda>c. action_answer (c st)) (ca_stop (cx_commissioning cx))"
| "invoke cx Call_Get_Boot_Status st =
     map_option (\<lambda>c. query_answer COMMAND_RESPONSE_BOOT_STATUS (c st))
       (ca_get_boot_status (cx_commissioning cx))"
| "invoke cx Call_Get_Encoder_Status st =
     map_option (\<lambda>c. query_answer COMMAND_RESPONSE_ENCODER_STATUS (c st))
       (ca_get_encoder_status (cx_commissioning cx))"
| "invoke cx Call_Arm_Trace st =
     map_option (\<lambda>c. action_answer (c st)) (ca_arm_current_trace (cx_commissioning cx))"
| "invoke cx Call_Get_Profile st =
     map_option (\<lambda>c. query_answer COMMAND_RESPONSE_RUNTIME_PROFILE (c st))
       (ca_get_runtime_profile (cx_commissioning cx))"
| "invoke cx Call_Arm_Profile st =
     map_option (\<lambda>c. action_answer (c st)) (ca_arm_runtime_profile (cx_commissioning cx))"
| "invoke cx Call_Get_Alignment_Status st =
     map_option (\<lambda>c. query_answer COMMAND_RESPONSE_ALIGNMENT_STATUS (c st))
       (aa_get_status (cx_alignment cx))"
| "invoke cx Call_Stop_Drive st =
     map_option (\<lambda>c. action_answer (c st)) (da_stop (cx_drive cx))"
| "invoke cx Call_Clear_Drive_Faults st =
     map_option (\<lambda>c. query_answer COMMAND_RESPONSE_FAULT_RECOVERY_STATUS (c st))
       (da_clear_faults (cx_drive cx))"
| "invoke cx Call_Get_Configuration_Status st =
     map_option (\<lambda>c. query_answer COMMAND_RESPONSE_CONFIGURATION_STATUS (c st))
       (fa_get_status (cx_configuration cx))"
| "invoke cx Call_Save_Configuration st =
     map_option (\<lambda>c. action_answer (c st)) (fa_save (cx_configuration cx))"
| "invoke cx Call_Clear_Calibration st =
     map_option (\<lambda>c. action_answer (c st)) (fa_clear_calibration (cx_configuration cx))"
| "invoke cx Call_Revert_Gains st =
     map_option (\<lambda>c. action_answer (c st)) (fa_revert_current_loop_gains (cx_configuration cx))"
| "invoke cx Call_Get_Torque_Status st =
     map_option (\<lambda>c. query_answer COMMAND_RESPONSE_ALIGNED_TORQUE_STATUS (c st))
       (ta_get_status (cx_aligned_torque cx))"
| "invoke cx Call_Get_Velocity_Status st =
     map_option (\<lambda>c. query_answer COMMAND_RESPONSE_VELOCITY_STATUS (c st))
       (va_get_status (cx_velocity cx))"
| "invoke cx Call_Get_Position_Status st =
     map_option (\<lambda>c. query_answer COMMAND_RESPONSE_POSITION_STATUS (c st))
       (pa_get_status (cx_position cx))"

lemma answers: "after_action r = action_answer r" "after_query k q = query_answer k q"
  by (cases r; simp add: reply_status_def response_reset_def)
    (cases q; simp add: reply_status_def response_reset_def)

lemmas write_be_defs = write_u16_be_def write_u32_be_def

lemma dispatch_call:
  assumes "valid_call call"
  shows "dispatch_operation (call_operation call) cx (call_payload call @ rest)
           (length (call_payload call)) st
       = (case invoke cx call st of
            None \<Rightarrow> (\<lparr>cr_status = COMMAND_STATUS_UNAVAILABLE, cr_data = COMMAND_RESPONSE_NONE\<rparr>, st)
          | Some r \<Rightarrow> r)"
  using assms
  by (cases call) (simp_all add: answers reply_ok_def reply_status_def response_reset_def
    dispatch_defs write_be_defs Let_def not_less not_le word_gt_0
      split: option.split, auto dest: leD)

section \<open>Properties\<close>

text \<open>
  C21. Every command reaches its callback with its arguments intact. For every valid request of a
  host, of any of the 29 operations, whatever follows it in the receive buffer, dispatching performs
  the application's callback for that operation with exactly the arguments the host encoded, and
  answers with the callback's status and, when the operation asks for data and the status is OK,
  with the data under the operation's response kind; when the callback is not installed the answer
  is UNAVAILABLE and the application state is untouched.
\<close>

theorem dispatch_passes_arguments:
  assumes "valid_call call"
  shows "command_service_dispatch (Some cx)
           (Some \<lparr>rq_operation = call_operation call, rq_payload = Some (call_payload call @ rest),
              rq_payload_length = length (call_payload call)\<rparr>) (Some old) st
       = apfst Some (case invoke cx call st of
            None \<Rightarrow> (\<lparr>cr_status = COMMAND_STATUS_UNAVAILABLE, cr_data = COMMAND_RESPONSE_NONE\<rparr>, st)
          | Some r \<Rightarrow> r)"
  using dispatch_call [OF assms, of cx rest st] by simp

definition idle_context :: "nat command_service_context" where
  "idle_context =
     \<lparr>cx_product_id = 0x4D4B5335, cx_firmware_major = 0, cx_firmware_minor = 36,
      cx_firmware_patch = 0, cx_protocol_major = 1, cx_protocol_minor = 20, cx_capabilities = 0,
      cx_commissioning = \<lparr>ca_get_status = None, ca_configure = None, ca_start = None, ca_stop =
        None,
        ca_get_boot_status = None, ca_get_encoder_status = None, ca_get_current_trace = None,
        ca_arm_current_trace = None, ca_get_runtime_profile = None, ca_arm_runtime_profile = None,
        ca_start_bootstrap_probe = Some (\<lambda>d st. (COMMAND_STATUS_OK, st + unat d))\<rparr>,
      cx_alignment = \<lparr>aa_start = None, aa_get_status = None\<rparr>,
      cx_drive = \<lparr>da_stop = Some (\<lambda>st. (COMMAND_STATUS_OK, 0)), da_clear_faults = None\<rparr>,
      cx_configuration = \<lparr>fa_get_status = None, fa_save = None, fa_clear_calibration = None,
        fa_set_current_loop_gains = None, fa_revert_current_loop_gains = None\<rparr>,
      cx_aligned_torque = \<lparr>ta_start = None, ta_get_status = None\<rparr>,
      cx_velocity = \<lparr>va_start = None, va_get_status = None\<rparr>,
      cx_position = \<lparr>pa_start_relative = None, pa_get_status = None\<rparr>\<rparr>"

theorem dispatch_passes_arguments_witness:
  "command_service_dispatch (Some idle_context)
     (Some \<lparr>rq_operation = COMMAND_OPERATION_START_BOOTSTRAP_PROBE,
        rq_payload = Some [0, 0, 1, 2, 99], rq_payload_length = 4\<rparr>) (Some response_reset) 1000
   = (Some (reply_status COMMAND_STATUS_OK), 1258)"
proof -
  have len: "length (call_payload (Call_Probe 258)) = 4"
    and bytes: "call_payload (Call_Probe 258) = [0, 0, 1, 2]"
    by (simp_all add: write_u32_be_def drop_bit_eq_div)
  show ?thesis
    using dispatch_passes_arguments
      [of "Call_Probe 258" idle_context "[99]" response_reset 1000, unfolded len, unfolded bytes]
    by (simp add: idle_context_def)
qed

text \<open>
  A malformed request has no effect. When the payload size is not one the operation accepts,
  the answer is INVALID_PAYLOAD without data and no callback runs: the application state is the
  one before. When the operation is unknown the answer is UNKNOWN_COMMAND, with the same effect.
\<close>

theorem dispatch_rejects_bad_length:
  assumes "\<not> accepted_length operation n"
  shows "command_service_dispatch (Some cx)
           (Some \<lparr>rq_operation = operation, rq_payload = Some payload, rq_payload_length = n\<rparr>)
           (Some old) st
       = (Some (reply_status (if operation = COMMAND_OPERATION_OTHER
            then COMMAND_STATUS_UNKNOWN_COMMAND else COMMAND_STATUS_INVALID_PAYLOAD)), st)"
  using bad_length_dispatch [OF assms, of cx payload st]
  by (cases "operation = COMMAND_OPERATION_OTHER") simp_all

theorem dispatch_rejects_bad_length_witness:
  "command_service_dispatch (Some idle_context)
     (Some \<lparr>rq_operation = COMMAND_OPERATION_STOP_DRIVE, rq_payload = Some [1],
        rq_payload_length = 1\<rparr>) (Some response_reset) 7
   = (Some (reply_status COMMAND_STATUS_INVALID_PAYLOAD), 7)"
  using dispatch_rejects_bad_length [of COMMAND_OPERATION_STOP_DRIVE 1 idle_context "[1]"
      response_reset 7] by simp

text \<open>
  A response carries data only with status OK, and then data of the kind its operation
  promises; with any other status the union is not used. So a peer that knows which command it
  sent can always interpret the answer.
\<close>

theorem dispatch_response_kind:
  "\<exists>response st'. command_service_dispatch (Some cx) (Some request) (Some old) st
       = (Some response, st') \<and>
     response_kind (cr_data response) =
       (if cr_status response = COMMAND_STATUS_OK then promised_kind (rq_operation request)
        else KIND_NONE)"
  using dispatch_kind [of "rq_operation request" cx
      "case rq_payload request of None \<Rightarrow> [] | Some p \<Rightarrow> p"
      "case rq_payload request of None \<Rightarrow> 0 | Some p \<Rightarrow> rq_payload_length request" st]
  by (cases "rq_payload request") (auto simp: apfst_def map_prod_def split: prod.splits)

end
