(* ===== verification/Response_Encoding.thy ===== *)
theory Response_Encoding
  imports Command_Service
begin

text \<open>
  \<open>map_status\<close> and \<open>serialize_response\<close> of \<open>firmware/src/protocol/native_protocol.c\<close>. Each case of
  the serializer is a list of the stores it performs, in its order and with its literal offsets,
  and the payload length it sets; the stores are carried out one byte at a time on the 80-byte
  payload array of the response frame. The lemmas show that in every layout each field starts where
  the one before it ends, so that no byte of the reported payload is stale, none is written twice,
  nothing is written outside the array, that the payload is the body the protocol documents for the
  kind of the response, and that different responses never share an encoding.
\<close>

section \<open>Stores into the payload array\<close>

datatype field_write = W8 nat u8 | W16 nat u16 | W32 nat u32

fun store_bytes :: "bytes \<Rightarrow> nat \<Rightarrow> bytes \<Rightarrow> bytes" where
  "store_bytes p i [] = p"
| "store_bytes p i (b # bs) = store_bytes (p[i := b]) (i + 1) bs"

primrec field_bytes :: "field_write \<Rightarrow> bytes" where
  "field_bytes (W8 i v) = [v]"
| "field_bytes (W16 i v) = write_u16_be v"
| "field_bytes (W32 i v) = write_u32_be v"

primrec field_offset :: "field_write \<Rightarrow> nat" where
  "field_offset (W8 i v) = i"
| "field_offset (W16 i v) = i"
| "field_offset (W32 i v) = i"

definition write_field :: "bytes \<Rightarrow> field_write \<Rightarrow> bytes" where
  "write_field p w = store_bytes p (field_offset w) (field_bytes w)"

definition apply_writes :: "bytes \<Rightarrow> field_write list \<Rightarrow> bytes" where
  "apply_writes p ws = foldl write_field p ws"

section \<open>The layouts\<close>

primrec map_status :: "command_status \<Rightarrow> u8" where
  "map_status COMMAND_STATUS_OK = 0"
| "map_status COMMAND_STATUS_UNKNOWN_COMMAND = 1"
| "map_status COMMAND_STATUS_INVALID_PAYLOAD = 2"
| "map_status COMMAND_STATUS_UNAVAILABLE = 3"
| "map_status COMMAND_STATUS_INTERNAL_ERROR = 4"

definition echo_writes :: "command_echo_response \<Rightarrow> field_write list" where
  "echo_writes d = map (\<lambda>index. W8 (index + 1) (er_bytes d ! index)) [0..<er_length d]"

fun metric_writes :: "nat \<Rightarrow> command_runtime_profile_metric list \<Rightarrow> field_write list" where
  "metric_writes offset [] = []"
| "metric_writes offset (m # ms) =
     W32 offset (pm_total_cycles m) # W32 (offset + 4) (pm_maximum_cycles m)
     # metric_writes (offset + 8) ms"

definition identity_writes :: "command_identity_response \<Rightarrow> field_write list" where
  "identity_writes d =
     [W32 1 (ir_product_id d), W8 5 (ir_firmware_major d), W8 6 (ir_firmware_minor d),
      W16 7 (ir_firmware_patch d), W8 9 (ir_protocol_major d), W8 10 (ir_protocol_minor d)]"

definition commissioning_status_writes :: "command_commissioning_status \<Rightarrow> field_write list" where
  "commissioning_status_writes d =
     [W8 1 (cs_schema_version d), W32 2 (cs_flags d), W8 6 (cs_raw_input_levels d),
      W8 7 (cs_debounced_input_levels d), W8 8 (cs_adc_status d), W8 9 (cs_selected_leg d),
      W32 10 (cs_fault_flags d), W32 14 (cs_sample_count d), W16 18 (cs_current_a_raw d),
      W16 20 (cs_current_b_raw d), W16 22 (cs_current_a_zero_raw d),
      W16 24 (cs_current_b_zero_raw d), W16 26 (cs_current_a_reference_counts d),
      W16 28 (cs_current_b_reference_counts d), W16 30 (cs_current_a_measured_counts d),
      W16 32 (cs_current_b_measured_counts d), W16 34 (cs_phase_a_voltage_permille d),
      W16 36 (cs_phase_b_voltage_permille d), W16 38 (cs_duty_a1_permille d),
      W16 40 (cs_duty_a2_permille d), W16 42 (cs_duty_b1_permille d),
      W16 44 (cs_duty_b2_permille d), W16 46 (cs_test_amplitude_counts d),
      W16 48 (cs_maximum_test_amplitude_counts d), W16 50 (cs_hard_current_limit_counts d),
      W16 52 (cs_phase_voltage_limit_permille d), W32 54 (cs_test_frequency_millihz d),
      W32 58 (cs_remote_run_remaining_millis d), W8 62 (cs_retained_panic d),
      W8 63 (cs_watchdog_reset d), W16 64 (cs_vbus_raw d), W32 66 (cs_vbus_sample_count d),
      W32 70 (cs_missed_pwm_update_count d),
      W32 74 (cs_maximum_consecutive_missed_pwm_updates d), W8 78 (cs_test_controller_mode d)]"

definition current_test_config_writes :: "command_current_test_config \<Rightarrow> field_write list" where
  "current_test_config_writes d =
     [W16 1 (tc_amplitude_counts d), W32 3 (tc_frequency_millihz d), W8 7 (tc_controller_mode d)]"

definition boot_status_writes :: "command_boot_status \<Rightarrow> field_write list" where
  "boot_status_writes d =
     [W8 1 (bs_schema_version d), W32 2 (bs_reset_flags d), W8 6 (bs_retained_panic d),
      W32 7 (bs_uptime_millis d), W32 11 (bs_initial_rcc_ctrlsts d),
      W32 15 (bs_initial_rcc_ldctrl d), W32 19 (bs_initial_sram_ctrlsts d),
      W8 23 (bs_evidence_flags d), W8 24 (bs_exception_number d),
      W16 25 (bs_previous_stack_high_water_bytes d),
      W16 27 (bs_previous_stack_minimum_free_bytes d),
      W16 29 (bs_current_stack_high_water_bytes d),
      W16 31 (bs_current_stack_minimum_free_bytes d), W32 33 (bs_exception_return d),
      W32 37 (bs_stacked_program_counter d), W32 41 (bs_stacked_link_register d),
      W32 45 (bs_stacked_xpsr d), W32 49 (bs_main_stack_pointer d),
      W32 53 (bs_process_stack_pointer d), W32 57 (bs_configurable_fault_status d),
      W32 61 (bs_hard_fault_status d), W32 65 (bs_debug_fault_status d),
      W32 69 (bs_memory_management_fault_address d), W32 73 (bs_bus_fault_address d),
      W16 77 (bs_stack_capacity_bytes d)]"

definition encoder_status_writes :: "command_encoder_status \<Rightarrow> field_write list" where
  "encoder_status_writes d =
     [W8 1 (es_schema_version d), W8 2 (es_status d), W8 3 (es_transport_status d),
      W16 4 (es_angle_raw d), W8 6 (es_flags d), W32 7 (es_sample_count d),
      W32 11 (es_error_count d), W32 15 (es_last_attempt_millis d), W8 19 (es_estimator_flags d),
      W32 20 (es_position_revolutions_q16_16 d),
      W32 24 (es_velocity_revolutions_per_second_q16_16 d), W32 28 (es_estimator_timestamp_us d),
      W32 32 (es_estimator_fault_flags d), W16 36 (es_alignment_zero_raw d),
      W8 38 (es_alignment_direction d), W32 39 (es_electrical_phase_q32 d),
      W32 43 (es_estimator_sample_interval_us d),
      W32 47 (es_estimator_maximum_sample_interval_us d), W8 51 (es_last_error_status d),
      W8 52 (es_last_error_transport_status d), W8 53 (es_last_error_response_length d),
      W8 54 (es_last_error_register_03 d), W8 55 (es_last_error_register_04 d),
      W8 56 (es_last_error_register_05 d), W32 57 (es_last_error_timestamp_us d)]"

definition current_trace_writes :: "command_current_trace_sample \<Rightarrow> field_write list" where
  "current_trace_writes d =
     [W8 1 (ct_schema_version d), W16 2 (ct_captured_sample_count d), W16 4 (ct_sample_index d),
      W32 6 (ct_loop_sample_count d), W16 10 (ct_current_a_reference_counts d),
      W16 12 (ct_current_b_reference_counts d), W16 14 (ct_current_a_measured_counts d),
      W16 16 (ct_current_b_measured_counts d), W16 18 (ct_phase_a_voltage_permille d),
      W16 20 (ct_phase_b_voltage_permille d), W32 22 (ct_predicted_electrical_phase_q32 d),
      W16 26 (ct_phase_prediction_age_us d), W16 28 (ct_trigger_timer_count d),
      W16 30 (ct_trigger_to_dma_timer_ticks d), W16 32 (ct_dma_to_pwm_stage_cycles d),
      W16 34 (ct_dma_to_trace_record_cycles d), W16 36 (ct_pwm_preload_margin_ticks d)]"

definition runtime_profile_writes :: "command_runtime_profile \<Rightarrow> field_write list" where
  "runtime_profile_writes d =
     [W8 1 (rp_schema_version d), W8 2 (rp_state d), W16 3 (rp_captured_release_count d),
      W16 5 (rp_incomplete_release_count d), W16 7 (rp_foreground_sample_count d),
      W32 9 (rp_current_loop_completion_count d),
      W16 13 (rp_maximum_current_loop_completions_per_release d)] @ metric_writes 15 (take 8
        (rp_metrics d))"

definition alignment_status_writes :: "command_alignment_status \<Rightarrow> field_write list" where
  "alignment_status_writes d =
     [W8 1 (as_schema_version d), W8 2 (as_state d), W8 3 (as_result d), W8 4 (as_flags d),
      W16 5 (as_alignment_current_counts d), W16 7 (as_phase_zero_raw d),
      W16 9 (as_phase_quarter_raw d), W16 11 (as_return_zero_raw d),
      W16 13 (as_observed_quarter_step_counts d), W16 15 (as_quarter_step_error_counts d),
      W16 17 (as_closure_error_counts d), W8 19 (as_encoder_direction d),
      W16 20 (as_active_sample_count d), W32 22 (as_elapsed_millis d),
      W32 26 (as_remaining_millis d), W16 30 (as_minimum_current_counts d),
      W16 32 (as_maximum_current_counts d), W16 34 (as_expected_quarter_step_counts d),
      W16 36 (as_maximum_quarter_step_error_counts d), W32 38 (as_settle_duration_millis d),
      W32 42 (as_sample_duration_millis d), W32 46 (as_maximum_duration_millis d),
      W16 50 (as_minimum_sample_count d), W16 52 (as_maximum_sample_span_counts d),
      W16 54 (as_maximum_closure_error_counts d), W16 56 (as_maximum_current_error_counts d)]"

definition configuration_status_writes :: "command_configuration_status \<Rightarrow> field_write list" where
  "configuration_status_writes d =
     [W8 1 (cf_schema_version d), W8 2 (cf_flags d), W8 3 (cf_last_result d),
      W8 4 (cf_active_slot d), W16 5 (cf_record_schema_version d), W32 7 (cf_generation d),
      W16 11 (cf_stored_encoder_counts_per_revolution d),
      W16 13 (cf_stored_electrical_cycles_per_revolution d),
      W16 15 (cf_stored_electrical_zero_raw d),
      W16 17 (cf_stored_observed_quarter_step_counts d),
      W16 19 (cf_stored_quarter_step_error_counts d), W8 21 (cf_stored_encoder_direction d),
      W16 22 (cf_active_encoder_counts_per_revolution d),
      W16 24 (cf_active_electrical_cycles_per_revolution d),
      W16 26 (cf_active_electrical_zero_raw d),
      W16 28 (cf_active_observed_quarter_step_counts d),
      W16 30 (cf_active_quarter_step_error_counts d), W8 32 (cf_active_encoder_direction d),
      W32 33 (cf_default_current_loop_proportional_gain_q16_per_count d),
      W32 37 (cf_default_current_loop_integral_gain_q16_per_count_per_step d),
      W32 41 (cf_stored_current_loop_proportional_gain_q16_per_count d),
      W32 45 (cf_stored_current_loop_integral_gain_q16_per_count_per_step d),
      W32 49 (cf_active_current_loop_proportional_gain_q16_per_count d),
      W32 53 (cf_active_current_loop_integral_gain_q16_per_count_per_step d),
      W32 57 (cf_maximum_current_loop_proportional_gain_q16_per_count d),
      W32 61 (cf_maximum_current_loop_integral_gain_q16_per_count_per_step d)]"

definition aligned_torque_status_writes :: "command_aligned_torque_status \<Rightarrow> field_write list" where
  "aligned_torque_status_writes d =
     [W8 1 (ts_schema_version d), W8 2 (ts_state d), W8 3 (ts_result d), W8 4 (ts_flags d),
      W32 5 (ts_fault_flags d), W16 9 (ts_requested_q_current_counts d),
      W16 11 (ts_applied_q_current_counts d), W16 13 (ts_current_a_reference_counts d),
      W16 15 (ts_current_b_reference_counts d), W32 17 (ts_electrical_phase_q32 d),
      W32 21 (ts_velocity_revolutions_per_second_q16_16 d),
      W32 25 (ts_acceleration_revolutions_per_second2_q16_16 d), W32 29 (ts_elapsed_millis d),
      W32 33 (ts_remaining_millis d), W16 37 (ts_maximum_current_counts d),
      W16 39 (ts_maximum_current_slew_counts_per_second d),
      W32 41 (ts_maximum_velocity_revolutions_per_second_q16_16 d),
      W32 45 (ts_maximum_acceleration_revolutions_per_second2_q16_16 d),
      W16 49 (ts_maximum_feedback_interval_us d), W32 51 (ts_minimum_duration_millis d),
      W32 55 (ts_maximum_duration_millis d), W32 59 (ts_backend_fault_flags d),
      W8 63 (ts_phase_prediction_reject_reason d),
      W32 64 (ts_rejected_phase_prediction_age_us d),
      W16 68 (ts_maximum_observed_phase_prediction_age_us d),
      W16 70 (ts_maximum_phase_prediction_age_us d)]"

definition velocity_status_writes :: "command_velocity_status \<Rightarrow> field_write list" where
  "velocity_status_writes d =
     [W8 1 (vs_schema_version d), W8 2 (vs_state d), W8 3 (vs_result d), W8 4 (vs_flags d),
      W32 5 (vs_fault_flags d), W32 9 (vs_target_velocity_revolutions_per_second_q16_16 d),
      W32 13 (vs_reference_velocity_revolutions_per_second_q16_16 d),
      W32 17 (vs_measured_velocity_revolutions_per_second_q16_16 d),
      W16 21 (vs_requested_q_current_counts d), W16 23 (vs_applied_q_current_counts d),
      W16 25 (vs_current_limit_counts d), W32 27 (vs_elapsed_millis d),
      W32 31 (vs_remaining_millis d),
      W32 35 (vs_maximum_target_velocity_revolutions_per_second_q16_16 d),
      W32 39 (vs_maximum_target_acceleration_revolutions_per_second2_q16_16 d),
      W32 43 (vs_maximum_feedback_velocity_revolutions_per_second_q16_16 d),
      W16 47 (vs_maximum_current_counts d), W16 49 (vs_maximum_feedback_interval_us d),
      W32 51 (vs_proportional_gain_current_counts_per_velocity_q16_16 d),
      W32 55 (vs_integral_gain_current_counts_per_position_q16_16 d),
      W32 59 (vs_maximum_duration_millis d)]"

definition position_status_writes :: "command_position_status \<Rightarrow> field_write list" where
  "position_status_writes d =
     [W8 1 (ps_schema_version d), W8 2 (ps_state d), W8 3 (ps_result d), W8 4 (ps_flags d),
      W32 5 (ps_fault_flags d), W32 9 (ps_target_position_revolutions_q16_16 d),
      W32 13 (ps_reference_position_revolutions_q16_16 d),
      W32 17 (ps_measured_position_revolutions_q16_16 d),
      W32 21 (ps_reference_velocity_revolutions_per_second_q16_16 d),
      W32 25 (ps_target_velocity_revolutions_per_second_q16_16 d),
      W32 29 (ps_measured_velocity_revolutions_per_second_q16_16 d),
      W16 33 (ps_requested_q_current_counts d), W16 35 (ps_applied_q_current_counts d),
      W16 37 (ps_current_limit_counts d), W32 39 (ps_elapsed_millis d),
      W32 43 (ps_remaining_millis d), W32 47 (ps_maximum_relative_travel_revolutions_q16_16 d),
      W32 51 (ps_maximum_velocity_revolutions_per_second_q16_16 d),
      W32 55 (ps_maximum_acceleration_revolutions_per_second2_q16_16 d),
      W32 59 (ps_maximum_following_error_revolutions_q16_16 d)]"

definition fault_recovery_status_writes :: "command_fault_recovery_status \<Rightarrow> field_write list" where
  "fault_recovery_status_writes d =
     [W8 1 (fr_schema_version d), W8 2 (fr_result d), W32 3 (fr_blocker_flags d),
      W32 7 (fr_cleared_fault_flags d), W32 11 (fr_remaining_fault_flags d)]"

definition capabilities_writes :: "u32 \<Rightarrow> field_write list" where
  "capabilities_writes c = [W32 1 c]"

text \<open>The stores of a case and the payload length it reports; \<open>None\<close> when the case fails.\<close>

fun response_layout :: "command_response_data \<Rightarrow> (field_write list \<times> nat) option" where
  "response_layout (COMMAND_RESPONSE_ECHO d) =
     (if NATIVE_PROTOCOL_MAX_PAYLOAD_SIZE < er_length d + 1 then None
      else Some (echo_writes d, 1 + er_length d))"
| "response_layout (COMMAND_RESPONSE_CAPABILITIES c) = Some (capabilities_writes c, 5)"
| "response_layout (COMMAND_RESPONSE_IDENTITY d) =
     Some (identity_writes d, 11)"
| "response_layout (COMMAND_RESPONSE_COMMISSIONING_STATUS d) =
     Some (commissioning_status_writes d, 79)"
| "response_layout (COMMAND_RESPONSE_CURRENT_TEST_CONFIG d) =
     Some (current_test_config_writes d, (if tc_controller_mode_present d then 8 else 7))"
| "response_layout (COMMAND_RESPONSE_BOOT_STATUS d) =
     Some (boot_status_writes d, 79)"
| "response_layout (COMMAND_RESPONSE_ENCODER_STATUS d) =
     Some (encoder_status_writes d, 61)"
| "response_layout (COMMAND_RESPONSE_CURRENT_TRACE d) =
     Some (current_trace_writes d, 38)"
| "response_layout (COMMAND_RESPONSE_RUNTIME_PROFILE d) =
     Some (runtime_profile_writes d, 79)"
| "response_layout (COMMAND_RESPONSE_ALIGNMENT_STATUS d) =
     Some (alignment_status_writes d, 58)"
| "response_layout (COMMAND_RESPONSE_CONFIGURATION_STATUS d) =
     Some (configuration_status_writes d, 65)"
| "response_layout (COMMAND_RESPONSE_ALIGNED_TORQUE_STATUS d) =
     Some (aligned_torque_status_writes d, 72)"
| "response_layout (COMMAND_RESPONSE_VELOCITY_STATUS d) =
     Some (velocity_status_writes d, 63)"
| "response_layout (COMMAND_RESPONSE_POSITION_STATUS d) =
     Some (position_status_writes d, 63)"
| "response_layout (COMMAND_RESPONSE_FAULT_RECOVERY_STATUS d) =
     Some (fault_recovery_status_writes d, 15)"
| "response_layout COMMAND_RESPONSE_NONE = Some ([], 1)"
| "response_layout COMMAND_RESPONSE_OTHER = None"

definition serialize_response ::
  "native_protocol_frame \<Rightarrow> command_response \<Rightarrow> native_protocol_frame \<Rightarrow>
     bool \<times> native_protocol_frame" where
  "serialize_response request_frame command_response response_frame =
     (let response_frame = response_frame\<lparr>nf_version := NATIVE_PROTOCOL_VERSION_MAJOR,
            nf_device_address := nf_device_address request_frame,
            nf_sequence := nf_sequence request_frame,
            nf_message_type := 2,
            nf_command := nf_command request_frame,
            nf_payload := (nf_payload response_frame)[0 := map_status (cr_status command_response)]\<rparr>
      in if cr_status command_response = COMMAND_STATUS_OK then
           (case response_layout (cr_data command_response) of
              None \<Rightarrow> (False, response_frame)
            | Some (writes, payload_length) \<Rightarrow>
                (True, response_frame\<lparr>nf_payload := apply_writes (nf_payload response_frame) writes,
                   nf_payload_length := payload_length\<rparr>))
         else (True, response_frame\<lparr>nf_payload_length := 1\<rparr>))"

section \<open>Contiguous layouts\<close>

lemma store_bytes_eq:
  "i + length bs \<le> length p \<Longrightarrow> store_bytes p i bs = take i p @ bs @ drop (i + length bs) p"
proof (induction bs arbitrary: p i)
  case (Cons b bs)
  then have "store_bytes p i (b # bs) = take (i + 1) (p[i := b]) @ bs @ drop (i + 1 + length bs) p"
    by simp
  also have "take (i + 1) (p[i := b]) = take i p @ [b]"
    using Cons.prems by (simp add: take_Suc_conv_app_nth)
  finally show ?case by simp
qed simp

fun contiguous :: "nat \<Rightarrow> field_write list \<Rightarrow> nat \<Rightarrow> bool" where
  "contiguous i [] n = (i = n)"
| "contiguous i (w # ws) n = (field_offset w = i \<and> contiguous (i + length (field_bytes w)) ws n)"

abbreviation fields_bytes :: "field_write list \<Rightarrow> bytes" where
  "fields_bytes ws \<equiv> concat (map field_bytes ws)"

lemma contiguous_length: "contiguous i ws n \<Longrightarrow> n = i + length (fields_bytes ws)"
  by (induction ws arbitrary: i) fastforce+

lemma contiguous_append:
  "contiguous i ws m \<Longrightarrow> contiguous m vs n \<Longrightarrow> contiguous i (ws @ vs) n"
  by (induction ws arbitrary: i) auto

lemma apply_writes_contiguous:
  assumes "contiguous i ws n" and "n \<le> length p"
  shows "apply_writes p ws = take i p @ fields_bytes ws @ drop n p"
  using assms
proof (induction ws arbitrary: i p)
  case Nil
  then show ?case by (simp add: apply_writes_def)
next
  case (Cons w ws)
  let ?b = "field_bytes w"
  have n: "n = i + length ?b + length (fields_bytes ws)" and w: "field_offset w = i"
    and c: "contiguous (i + length ?b) ws n"
    using contiguous_length [OF Cons.prems(1)] Cons.prems(1) by simp_all
  have p': "write_field p w = take i p @ ?b @ drop (i + length ?b) p"
    using n Cons.prems(2) w by (simp add: write_field_def store_bytes_eq)
  have "apply_writes p (w # ws) = apply_writes (write_field p w) ws"
    by (simp add: apply_writes_def)
  also have "\<dots> = take (i + length ?b) (write_field p w) @ fields_bytes ws @ drop n (write_field p
    w)"
    by (rule Cons.IH [OF c]) (use n Cons.prems(2) in \<open>simp add: p'\<close>)
  also have "\<dots> = take i p @ fields_bytes (w # ws) @ drop n p"
    using n Cons.prems(2) by (simp add: p' add.commute add.left_commute)
  finally show ?case .
qed

lemma metric_writes_contiguous: "contiguous i (metric_writes i ms) (i + 8 * length ms)"
proof (induction i ms rule: metric_writes.induct)
  case (2 offset m ms)
  then show ?case by (simp add: add.assoc)
qed simp

lemma echo_writes_contiguous: "contiguous 1 (echo_writes d) (1 + er_length d)"
proof -
  have "contiguous (Suc 0) (map (\<lambda>index. W8 (index + 1) (bs ! index)) [0..<n]) (Suc n)" for bs n
    by (induction n) (simp_all add: contiguous_append)
  then show ?thesis by (simp add: echo_writes_def)
qed

text \<open>A response object as the dispatcher and the application build it.\<close>

fun response_object :: "command_response_data \<Rightarrow> bool" where
  "response_object (COMMAND_RESPONSE_ECHO d) = (er_length d \<le> 16 \<and> length (er_bytes d) =
    er_length d)"
| "response_object (COMMAND_RESPONSE_RUNTIME_PROFILE d) = (length (rp_metrics d) = 8)"
| "response_object (COMMAND_RESPONSE_CURRENT_TEST_CONFIG d) =
     (tc_controller_mode_present d \<or> tc_controller_mode d = 0)"
| "response_object COMMAND_RESPONSE_OTHER = False"
| "response_object d = True"

lemmas writes_defs =
  identity_writes_def commissioning_status_writes_def current_test_config_writes_def
  boot_status_writes_def encoder_status_writes_def current_trace_writes_def
  runtime_profile_writes_def alignment_status_writes_def configuration_status_writes_def
  aligned_torque_status_writes_def velocity_status_writes_def position_status_writes_def
  fault_recovery_status_writes_def capabilities_writes_def

lemma layout_contiguous:
  assumes "response_object d"
  shows "\<exists>ws n m. response_layout d = Some (ws, n) \<and> contiguous 1 ws m \<and> n \<le> m \<and> m \<le> 80 \<and> 0 < n"
proof (cases d)
  case (COMMAND_RESPONSE_RUNTIME_PROFILE p)
  with assms metric_writes_contiguous [of 15 "rp_metrics p"] show ?thesis
    by (auto simp: writes_defs intro: exI [of _ 79])
next
  case (COMMAND_RESPONSE_ECHO e)
  with assms echo_writes_contiguous [of e] show ?thesis by auto
qed (use assms in \<open>simp_all add: writes_defs\<close>)

text \<open>
  What the serializer leaves in the reported part of the payload, read off its own stores and
  length. The next section says what it has to be.
\<close>

definition stored_body :: "command_response_data \<Rightarrow> bytes" where
  "stored_body d =
     (case response_layout d of None \<Rightarrow> [] | Some (ws, n) \<Rightarrow> take (n - 1) (fields_bytes ws))"

lemma take_one_stored: "0 < length p \<Longrightarrow> take (Suc 0) (p[0 := b]) = [b]"
  by (cases p) simp_all

lemma serialize_stored:
  assumes "frame_object old" and "response_object d"
  shows "\<exists>f. serialize_response rq \<lparr>cr_status = COMMAND_STATUS_OK, cr_data = d\<rparr> old = (True, f) \<and>
           frame_object f \<and> nf_payload_length f \<le> 80 \<and> frame_data f = 0 # stored_body d"
proof -
  obtain ws n m where l: "response_layout d = Some (ws, n)" "contiguous 1 ws m" "n \<le> m" "m \<le> 80" "0
    < n"
    using layout_contiguous [OF assms(2)] by blast
  let ?p = "(nf_payload old)[0 := 0]"
  have p: "length ?p = 80" using assms(1) by (simp add: frame_object_def)
  have m: "m = Suc (length (fields_bytes ws))" using contiguous_length [OF l(2)] by simp
  have "apply_writes ?p ws = [0] @ fields_bytes ws @ drop m ?p"
    using apply_writes_contiguous [OF l(2), of ?p] p l(4) take_one_stored [of "nf_payload old" 0]
    by auto
  then show ?thesis
    using l p m by (cases n) (simp_all add: serialize_response_def Let_def frame_object_def
      stored_body_def)
qed

section \<open>The documented bodies\<close>

text \<open>
  The body of each reply as \<open>docs/PROTOCOL.md\<close> documents it: the fields after the status byte with
  their types, in the order of its tables, one after the other, most significant byte first. The
  lists have no offset and no length of their own, so a store at a wrong offset, a field left out
  and a reply cut short all differ from it. The documented body lengths are stated apart.
\<close>

datatype wire_field = U8 u8 | U16 u16 | U32 u32

primrec wire_bytes :: "wire_field \<Rightarrow> bytes" where
  "wire_bytes (U8 v) = [v]"
| "wire_bytes (U16 v) = [of_nat (unat v div 2 ^ 8), of_nat (unat v mod 2 ^ 8)]"
| "wire_bytes (U32 v) =
     [of_nat (unat v div 2 ^ 24), of_nat (unat v div 2 ^ 16 mod 2 ^ 8),
      of_nat (unat v div 2 ^ 8 mod 2 ^ 8), of_nat (unat v mod 2 ^ 8)]"

fun response_fields :: "command_response_data \<Rightarrow> wire_field list" where
  "response_fields (COMMAND_RESPONSE_ECHO d) = map U8 (er_bytes d)"
| "response_fields (COMMAND_RESPONSE_CAPABILITIES c) =
     [U32 c]"
| "response_fields (COMMAND_RESPONSE_IDENTITY d) =
     [U32 (ir_product_id d), U8 (ir_firmware_major d), U8 (ir_firmware_minor d),
      U16 (ir_firmware_patch d), U8 (ir_protocol_major d), U8 (ir_protocol_minor d)]"
| "response_fields (COMMAND_RESPONSE_COMMISSIONING_STATUS d) =
     [U8 (cs_schema_version d), U32 (cs_flags d), U8 (cs_raw_input_levels d),
      U8 (cs_debounced_input_levels d), U8 (cs_adc_status d), U8 (cs_selected_leg d),
      U32 (cs_fault_flags d), U32 (cs_sample_count d), U16 (cs_current_a_raw d),
      U16 (cs_current_b_raw d), U16 (cs_current_a_zero_raw d), U16 (cs_current_b_zero_raw d),
      U16 (cs_current_a_reference_counts d), U16 (cs_current_b_reference_counts d),
      U16 (cs_current_a_measured_counts d), U16 (cs_current_b_measured_counts d),
      U16 (cs_phase_a_voltage_permille d), U16 (cs_phase_b_voltage_permille d),
      U16 (cs_duty_a1_permille d), U16 (cs_duty_a2_permille d), U16 (cs_duty_b1_permille d),
      U16 (cs_duty_b2_permille d), U16 (cs_test_amplitude_counts d),
      U16 (cs_maximum_test_amplitude_counts d), U16 (cs_hard_current_limit_counts d),
      U16 (cs_phase_voltage_limit_permille d), U32 (cs_test_frequency_millihz d),
      U32 (cs_remote_run_remaining_millis d), U8 (cs_retained_panic d),
      U8 (cs_watchdog_reset d), U16 (cs_vbus_raw d), U32 (cs_vbus_sample_count d),
      U32 (cs_missed_pwm_update_count d), U32 (cs_maximum_consecutive_missed_pwm_updates d),
      U8 (cs_test_controller_mode d)]"
| "response_fields (COMMAND_RESPONSE_CURRENT_TEST_CONFIG d) =
     [U16 (tc_amplitude_counts d), U32 (tc_frequency_millihz d)] @
     (if tc_controller_mode_present d then [U8 (tc_controller_mode d)] else [])"
| "response_fields (COMMAND_RESPONSE_BOOT_STATUS d) =
     [U8 (bs_schema_version d), U32 (bs_reset_flags d), U8 (bs_retained_panic d),
      U32 (bs_uptime_millis d), U32 (bs_initial_rcc_ctrlsts d), U32 (bs_initial_rcc_ldctrl d),
      U32 (bs_initial_sram_ctrlsts d), U8 (bs_evidence_flags d), U8 (bs_exception_number d),
      U16 (bs_previous_stack_high_water_bytes d), U16 (bs_previous_stack_minimum_free_bytes d),
      U16 (bs_current_stack_high_water_bytes d), U16 (bs_current_stack_minimum_free_bytes d),
      U32 (bs_exception_return d), U32 (bs_stacked_program_counter d),
      U32 (bs_stacked_link_register d), U32 (bs_stacked_xpsr d), U32 (bs_main_stack_pointer d),
      U32 (bs_process_stack_pointer d), U32 (bs_configurable_fault_status d),
      U32 (bs_hard_fault_status d), U32 (bs_debug_fault_status d),
      U32 (bs_memory_management_fault_address d), U32 (bs_bus_fault_address d),
      U16 (bs_stack_capacity_bytes d)]"
| "response_fields (COMMAND_RESPONSE_ENCODER_STATUS d) =
     [U8 (es_schema_version d), U8 (es_status d), U8 (es_transport_status d),
      U16 (es_angle_raw d), U8 (es_flags d), U32 (es_sample_count d), U32 (es_error_count d),
      U32 (es_last_attempt_millis d), U8 (es_estimator_flags d),
      U32 (es_position_revolutions_q16_16 d), U32 (es_velocity_revolutions_per_second_q16_16 d),
      U32 (es_estimator_timestamp_us d), U32 (es_estimator_fault_flags d),
      U16 (es_alignment_zero_raw d), U8 (es_alignment_direction d),
      U32 (es_electrical_phase_q32 d), U32 (es_estimator_sample_interval_us d),
      U32 (es_estimator_maximum_sample_interval_us d), U8 (es_last_error_status d),
      U8 (es_last_error_transport_status d), U8 (es_last_error_response_length d),
      U8 (es_last_error_register_03 d), U8 (es_last_error_register_04 d),
      U8 (es_last_error_register_05 d), U32 (es_last_error_timestamp_us d)]"
| "response_fields (COMMAND_RESPONSE_CURRENT_TRACE d) =
     [U8 (ct_schema_version d), U16 (ct_captured_sample_count d), U16 (ct_sample_index d),
      U32 (ct_loop_sample_count d), U16 (ct_current_a_reference_counts d),
      U16 (ct_current_b_reference_counts d), U16 (ct_current_a_measured_counts d),
      U16 (ct_current_b_measured_counts d), U16 (ct_phase_a_voltage_permille d),
      U16 (ct_phase_b_voltage_permille d), U32 (ct_predicted_electrical_phase_q32 d),
      U16 (ct_phase_prediction_age_us d), U16 (ct_trigger_timer_count d),
      U16 (ct_trigger_to_dma_timer_ticks d), U16 (ct_dma_to_pwm_stage_cycles d),
      U16 (ct_dma_to_trace_record_cycles d), U16 (ct_pwm_preload_margin_ticks d)]"
| "response_fields (COMMAND_RESPONSE_RUNTIME_PROFILE d) =
     [U8 (rp_schema_version d), U8 (rp_state d), U16 (rp_captured_release_count d),
      U16 (rp_incomplete_release_count d), U16 (rp_foreground_sample_count d),
      U32 (rp_current_loop_completion_count d),
      U16 (rp_maximum_current_loop_completions_per_release d)] @
     concat (map (\<lambda>m. [U32 (pm_total_cycles m), U32 (pm_maximum_cycles m)]) (rp_metrics d))"
| "response_fields (COMMAND_RESPONSE_ALIGNMENT_STATUS d) =
     [U8 (as_schema_version d), U8 (as_state d), U8 (as_result d), U8 (as_flags d),
      U16 (as_alignment_current_counts d), U16 (as_phase_zero_raw d),
      U16 (as_phase_quarter_raw d), U16 (as_return_zero_raw d),
      U16 (as_observed_quarter_step_counts d), U16 (as_quarter_step_error_counts d),
      U16 (as_closure_error_counts d), U8 (as_encoder_direction d),
      U16 (as_active_sample_count d), U32 (as_elapsed_millis d), U32 (as_remaining_millis d),
      U16 (as_minimum_current_counts d), U16 (as_maximum_current_counts d),
      U16 (as_expected_quarter_step_counts d), U16 (as_maximum_quarter_step_error_counts d),
      U32 (as_settle_duration_millis d), U32 (as_sample_duration_millis d),
      U32 (as_maximum_duration_millis d), U16 (as_minimum_sample_count d),
      U16 (as_maximum_sample_span_counts d), U16 (as_maximum_closure_error_counts d),
      U16 (as_maximum_current_error_counts d)]"
| "response_fields (COMMAND_RESPONSE_CONFIGURATION_STATUS d) =
     [U8 (cf_schema_version d), U8 (cf_flags d), U8 (cf_last_result d), U8 (cf_active_slot d),
      U16 (cf_record_schema_version d), U32 (cf_generation d),
      U16 (cf_stored_encoder_counts_per_revolution d),
      U16 (cf_stored_electrical_cycles_per_revolution d), U16 (cf_stored_electrical_zero_raw d),
      U16 (cf_stored_observed_quarter_step_counts d),
      U16 (cf_stored_quarter_step_error_counts d), U8 (cf_stored_encoder_direction d),
      U16 (cf_active_encoder_counts_per_revolution d),
      U16 (cf_active_electrical_cycles_per_revolution d), U16 (cf_active_electrical_zero_raw d),
      U16 (cf_active_observed_quarter_step_counts d),
      U16 (cf_active_quarter_step_error_counts d), U8 (cf_active_encoder_direction d),
      U32 (cf_default_current_loop_proportional_gain_q16_per_count d),
      U32 (cf_default_current_loop_integral_gain_q16_per_count_per_step d),
      U32 (cf_stored_current_loop_proportional_gain_q16_per_count d),
      U32 (cf_stored_current_loop_integral_gain_q16_per_count_per_step d),
      U32 (cf_active_current_loop_proportional_gain_q16_per_count d),
      U32 (cf_active_current_loop_integral_gain_q16_per_count_per_step d),
      U32 (cf_maximum_current_loop_proportional_gain_q16_per_count d),
      U32 (cf_maximum_current_loop_integral_gain_q16_per_count_per_step d)]"
| "response_fields (COMMAND_RESPONSE_ALIGNED_TORQUE_STATUS d) =
     [U8 (ts_schema_version d), U8 (ts_state d), U8 (ts_result d), U8 (ts_flags d),
      U32 (ts_fault_flags d), U16 (ts_requested_q_current_counts d),
      U16 (ts_applied_q_current_counts d), U16 (ts_current_a_reference_counts d),
      U16 (ts_current_b_reference_counts d), U32 (ts_electrical_phase_q32 d),
      U32 (ts_velocity_revolutions_per_second_q16_16 d),
      U32 (ts_acceleration_revolutions_per_second2_q16_16 d), U32 (ts_elapsed_millis d),
      U32 (ts_remaining_millis d), U16 (ts_maximum_current_counts d),
      U16 (ts_maximum_current_slew_counts_per_second d),
      U32 (ts_maximum_velocity_revolutions_per_second_q16_16 d),
      U32 (ts_maximum_acceleration_revolutions_per_second2_q16_16 d),
      U16 (ts_maximum_feedback_interval_us d), U32 (ts_minimum_duration_millis d),
      U32 (ts_maximum_duration_millis d), U32 (ts_backend_fault_flags d),
      U8 (ts_phase_prediction_reject_reason d), U32 (ts_rejected_phase_prediction_age_us d),
      U16 (ts_maximum_observed_phase_prediction_age_us d),
      U16 (ts_maximum_phase_prediction_age_us d)]"
| "response_fields (COMMAND_RESPONSE_VELOCITY_STATUS d) =
     [U8 (vs_schema_version d), U8 (vs_state d), U8 (vs_result d), U8 (vs_flags d),
      U32 (vs_fault_flags d), U32 (vs_target_velocity_revolutions_per_second_q16_16 d),
      U32 (vs_reference_velocity_revolutions_per_second_q16_16 d),
      U32 (vs_measured_velocity_revolutions_per_second_q16_16 d),
      U16 (vs_requested_q_current_counts d), U16 (vs_applied_q_current_counts d),
      U16 (vs_current_limit_counts d), U32 (vs_elapsed_millis d), U32 (vs_remaining_millis d),
      U32 (vs_maximum_target_velocity_revolutions_per_second_q16_16 d),
      U32 (vs_maximum_target_acceleration_revolutions_per_second2_q16_16 d),
      U32 (vs_maximum_feedback_velocity_revolutions_per_second_q16_16 d),
      U16 (vs_maximum_current_counts d), U16 (vs_maximum_feedback_interval_us d),
      U32 (vs_proportional_gain_current_counts_per_velocity_q16_16 d),
      U32 (vs_integral_gain_current_counts_per_position_q16_16 d),
      U32 (vs_maximum_duration_millis d)]"
| "response_fields (COMMAND_RESPONSE_POSITION_STATUS d) =
     [U8 (ps_schema_version d), U8 (ps_state d), U8 (ps_result d), U8 (ps_flags d),
      U32 (ps_fault_flags d), U32 (ps_target_position_revolutions_q16_16 d),
      U32 (ps_reference_position_revolutions_q16_16 d),
      U32 (ps_measured_position_revolutions_q16_16 d),
      U32 (ps_reference_velocity_revolutions_per_second_q16_16 d),
      U32 (ps_target_velocity_revolutions_per_second_q16_16 d),
      U32 (ps_measured_velocity_revolutions_per_second_q16_16 d),
      U16 (ps_requested_q_current_counts d), U16 (ps_applied_q_current_counts d),
      U16 (ps_current_limit_counts d), U32 (ps_elapsed_millis d), U32 (ps_remaining_millis d),
      U32 (ps_maximum_relative_travel_revolutions_q16_16 d),
      U32 (ps_maximum_velocity_revolutions_per_second_q16_16 d),
      U32 (ps_maximum_acceleration_revolutions_per_second2_q16_16 d),
      U32 (ps_maximum_following_error_revolutions_q16_16 d)]"
| "response_fields (COMMAND_RESPONSE_FAULT_RECOVERY_STATUS d) =
     [U8 (fr_schema_version d), U8 (fr_result d), U32 (fr_blocker_flags d),
      U32 (fr_cleared_fault_flags d), U32 (fr_remaining_fault_flags d)]"
| "response_fields COMMAND_RESPONSE_NONE = []"
| "response_fields COMMAND_RESPONSE_OTHER = []"

definition response_body :: "command_response_data \<Rightarrow> bytes" where
  "response_body d = concat (map wire_bytes (response_fields d))"

fun documented_length :: "command_response_data \<Rightarrow> nat" where
  "documented_length (COMMAND_RESPONSE_ECHO d) = er_length d"
| "documented_length (COMMAND_RESPONSE_CAPABILITIES c) = 4"
| "documented_length (COMMAND_RESPONSE_IDENTITY d) = 10"
| "documented_length (COMMAND_RESPONSE_COMMISSIONING_STATUS d) = 78"
| "documented_length (COMMAND_RESPONSE_CURRENT_TEST_CONFIG d) =
     (if tc_controller_mode_present d then 7 else 6)"
| "documented_length (COMMAND_RESPONSE_BOOT_STATUS d) = 78"
| "documented_length (COMMAND_RESPONSE_ENCODER_STATUS d) = 60"
| "documented_length (COMMAND_RESPONSE_CURRENT_TRACE d) = 37"
| "documented_length (COMMAND_RESPONSE_RUNTIME_PROFILE d) = 78"
| "documented_length (COMMAND_RESPONSE_ALIGNMENT_STATUS d) = 57"
| "documented_length (COMMAND_RESPONSE_CONFIGURATION_STATUS d) = 64"
| "documented_length (COMMAND_RESPONSE_ALIGNED_TORQUE_STATUS d) = 71"
| "documented_length (COMMAND_RESPONSE_VELOCITY_STATUS d) = 62"
| "documented_length (COMMAND_RESPONSE_POSITION_STATUS d) = 62"
| "documented_length (COMMAND_RESPONSE_FAULT_RECOVERY_STATUS d) = 14"
| "documented_length COMMAND_RESPONSE_NONE = 0"
| "documented_length COMMAND_RESPONSE_OTHER = 0"

lemma octet_drop: "(of_nat (unat (v :: 'a :: len word) div 2 ^ n) :: u8) = ucast (drop_bit n v)"
  by (rule bit_word_eqI) (simp add: bit_simps bit_of_nat_iff flip: drop_bit_eq_div)

lemma octet_low: "(of_nat (m mod 2 ^ 8) :: u8) = of_nat m"
  by (rule word_unat_eq_iff [THEN iffD2]) (simp add: unsigned_of_nat take_bit_eq_mod)

lemma wire_bytes_16: "wire_bytes (U16 v) = write_u16_be v"
  using octet_drop [of v 8] octet_drop [of v 0] octet_low [of "unat v"]
  by (simp add: write_u16_be_def)

lemma wire_bytes_32: "wire_bytes (U32 v) = write_u32_be v"
  using octet_drop [of v 8] octet_drop [of v 16] octet_drop [of v 24] octet_drop [of v 0]
    octet_low [of "unat v"] octet_low [of "unat v div 2 ^ 8"] octet_low [of "unat v div 2 ^ 16"]
  by (simp add: write_u32_be_def)

lemmas wire_bytes_eq = wire_bytes.simps(1) wire_bytes_16 wire_bytes_32

lemma echo_wire_bytes: "concat (map wire_bytes (map U8 bs)) = bs"
  by (induction bs) simp_all

lemma metric_wire_bytes:
  "concat (map wire_bytes (concat (map (\<lambda>m. [U32 (pm_total_cycles m), U32 (pm_maximum_cycles m)])
    ms)))
     = fields_bytes (metric_writes i ms)"
  by (induction i ms rule: metric_writes.induct)
    (simp_all add: wire_bytes_eq del: wire_bytes.simps(2,3))

lemma echo_fields_bytes:
  "length (er_bytes d) = er_length d \<Longrightarrow> fields_bytes (echo_writes d) = er_bytes d"
proof -
  have "fields_bytes (map (\<lambda>i. W8 (i + 1) (bs ! i)) [0..<n]) = map (\<lambda>i. bs ! i) [0..<n]" for bs n
    by (induction n) simp_all
  then show "length (er_bytes d) = er_length d \<Longrightarrow> ?thesis"
    using map_nth [of "er_bytes d"] by (simp add: echo_writes_def)
qed

lemma stored_is_documented:
  assumes "response_object d"
  shows "stored_body d = response_body d"
proof (cases d)
  case (COMMAND_RESPONSE_ECHO e)
  with assms show ?thesis
    by (simp add: stored_body_def response_body_def echo_fields_bytes echo_wire_bytes del: map_map)
next
  case (COMMAND_RESPONSE_RUNTIME_PROFILE p)
  have "length (fields_bytes (metric_writes 15 (rp_metrics p))) = 64"
    using contiguous_length [OF metric_writes_contiguous [of 15 "rp_metrics p"]] assms
      COMMAND_RESPONSE_RUNTIME_PROFILE by simp
  with assms COMMAND_RESPONSE_RUNTIME_PROFILE show ?thesis
    by (simp add: stored_body_def response_body_def runtime_profile_writes_def metric_wire_bytes [of
      _ 15]
        wire_bytes_eq del: wire_bytes.simps(2,3))
qed (use assms in \<open>simp_all add: stored_body_def response_body_def writes_defs wire_bytes_eq
       del: wire_bytes.simps(2,3)\<close>)

lemma length_response_body:
  assumes "response_object d"
  shows "length (response_body d) = documented_length d"
proof (cases d)
  case (COMMAND_RESPONSE_ECHO e)
  with assms show ?thesis by (simp add: response_body_def echo_wire_bytes del: map_map)
next
  case (COMMAND_RESPONSE_RUNTIME_PROFILE p)
  with assms show ?thesis
    using contiguous_length [OF metric_writes_contiguous [of 15 "rp_metrics p"]]
    by (simp add: response_body_def metric_wire_bytes [of _ 15])
qed (use assms in \<open>simp_all add: response_body_def\<close>)

lemma serialize_ok:
  assumes "frame_object old" and "response_object d"
  shows "\<exists>f. serialize_response rq \<lparr>cr_status = COMMAND_STATUS_OK, cr_data = d\<rparr> old = (True, f) \<and>
           frame_object f \<and> nf_payload_length f \<le> 80 \<and> frame_data f = 0 # response_body d"
  using serialize_stored [OF assms] stored_is_documented [OF assms(2)] by simp

section \<open>Layouts are injective\<close>

primrec field_shape :: "field_write \<Rightarrow> nat \<times> nat" where
  "field_shape (W8 i v) = (i, 1)"
| "field_shape (W16 i v) = (i, 2)"
| "field_shape (W32 i v) = (i, 4)"

lemma write_u16_be_inject [simp]: "write_u16_be v = write_u16_be w \<longleftrightarrow> v = w"
  by (metis read_write_u16 write_u16_be_def list.inject)

lemma write_u32_be_inject [simp]: "write_u32_be v = write_u32_be w \<longleftrightarrow> v = w"
proof
  assume "write_u32_be v = write_u32_be w"
  then show "v = w"
    using read_write_u32 [of v, symmetric] read_write_u32 [of w] by (simp only: write_u32_be_def
      list.inject)
qed simp

lemma field_bytes_inject:
  "field_shape w = field_shape v \<Longrightarrow> field_bytes w = field_bytes v \<Longrightarrow> w = v"
  by (cases w; cases v) simp_all

lemma field_shape_length: "length (field_bytes w) = snd (field_shape w)"
  by (cases w) simp_all

lemma fields_bytes_inject:
  "map field_shape ws = map field_shape vs \<Longrightarrow> fields_bytes ws = fields_bytes vs \<Longrightarrow> ws = vs"
proof (induction ws arbitrary: vs)
  case (Cons w ws)
  then obtain v vs' where vs: "vs = v # vs'" "field_shape w = field_shape v" by (cases vs) auto
  then have "field_bytes w = field_bytes v \<and> fields_bytes ws = fields_bytes vs'"
    using Cons.prems by (simp add: append_eq_append_conv field_shape_length)
  with vs Cons show ?case by (simp add: field_bytes_inject)
qed simp

lemma metric_writes_shape:
  "length ms = length ns \<Longrightarrow>
     map field_shape (metric_writes i ms) = map field_shape (metric_writes i ns)"
  by (induction ms ns arbitrary: i rule: list_induct2) simp_all

lemma metric_eq_iff:
  "(m :: command_runtime_profile_metric) = n \<longleftrightarrow>
     pm_total_cycles m = pm_total_cycles n \<and> pm_maximum_cycles m = pm_maximum_cycles n"
  by (cases m; cases n) simp

lemma metric_writes_inject: "metric_writes i ms = metric_writes i ns \<longleftrightarrow> ms = ns"
proof (induction i ms arbitrary: ns rule: metric_writes.induct)
  case (1 offset)
  then show ?case by (cases ns) simp_all
next
  case (2 offset m ms)
  then show ?case by (cases ns) (simp_all add: metric_eq_iff)
qed

text \<open>
  What a case with a fixed layout promises: its stores are contiguous from the byte after the
  status, end at the length it reports, do not depend on the data in their offsets and widths, and
  determine the structure. Then the payload determines the structure.
\<close>

locale fixed_layout =
  fixes writes :: "'d \<Rightarrow> field_write list"
    and reported :: nat
  assumes stores_contiguous: "contiguous 1 (writes d) reported"
    and same_shape: "map field_shape (writes d) = map field_shape (writes e)"
    and stores_determine: "writes d = writes e \<Longrightarrow> d = e"
begin

lemma body_inject:
  assumes "take (reported - 1) (fields_bytes (writes d)) = take (reported - 1)
    (fields_bytes (writes e))"
  shows "d = e"
proof -
  have "reported - 1 = length (fields_bytes (writes x))" for x
    using contiguous_length [OF stores_contiguous [of x]] by simp
  then have "fields_bytes (writes d) = fields_bytes (writes e)" using assms by (metis order.refl
    take_all)
  then show ?thesis by (intro stores_determine fields_bytes_inject same_shape)
qed

end

interpretation capabilities_layout: fixed_layout capabilities_writes 5
  by unfold_locales (simp_all add: capabilities_writes_def)

interpretation identity_layout: fixed_layout identity_writes 11
  by unfold_locales (simp_all add: identity_writes_def)

interpretation commissioning_status_layout: fixed_layout commissioning_status_writes 79
  by unfold_locales (simp_all add: commissioning_status_writes_def)

interpretation boot_status_layout: fixed_layout boot_status_writes 79
  by unfold_locales (simp_all add: boot_status_writes_def)

interpretation encoder_status_layout: fixed_layout encoder_status_writes 61
  by unfold_locales (simp_all add: encoder_status_writes_def)

interpretation current_trace_layout: fixed_layout current_trace_writes 38
  by unfold_locales (simp_all add: current_trace_writes_def)

interpretation alignment_status_layout: fixed_layout alignment_status_writes 58
  by unfold_locales (simp_all add: alignment_status_writes_def)

interpretation configuration_status_layout: fixed_layout configuration_status_writes 65
  by unfold_locales (simp_all add: configuration_status_writes_def)

interpretation aligned_torque_status_layout: fixed_layout aligned_torque_status_writes 72
  by unfold_locales (simp_all add: aligned_torque_status_writes_def)

interpretation velocity_status_layout: fixed_layout velocity_status_writes 63
  by unfold_locales (simp_all add: velocity_status_writes_def)

interpretation position_status_layout: fixed_layout position_status_writes 63
  by unfold_locales (simp_all add: position_status_writes_def)

interpretation fault_recovery_status_layout: fixed_layout fault_recovery_status_writes 15
  by unfold_locales (simp_all add: fault_recovery_status_writes_def)

lemmas fixed_layouts_inject =
  capabilities_layout.body_inject
  identity_layout.body_inject
  commissioning_status_layout.body_inject
  boot_status_layout.body_inject
  encoder_status_layout.body_inject
  current_trace_layout.body_inject
  alignment_status_layout.body_inject
  configuration_status_layout.body_inject
  aligned_torque_status_layout.body_inject
  velocity_status_layout.body_inject
  position_status_layout.body_inject
  fault_recovery_status_layout.body_inject

lemma echo_body_inject:
  assumes "response_object (COMMAND_RESPONSE_ECHO d)" "response_object (COMMAND_RESPONSE_ECHO e)"
    and "stored_body (COMMAND_RESPONSE_ECHO d) = stored_body (COMMAND_RESPONSE_ECHO e)"
  shows "d = e"
proof -
  have "er_bytes d = er_bytes e" using assms by (simp add: stored_body_def echo_fields_bytes)
  with assms show ?thesis by (auto intro: command_echo_response.equality)
qed

lemma test_config_body_inject:
  assumes "response_object (COMMAND_RESPONSE_CURRENT_TEST_CONFIG d)"
    "response_object (COMMAND_RESPONSE_CURRENT_TEST_CONFIG e)"
    and "stored_body (COMMAND_RESPONSE_CURRENT_TEST_CONFIG d)
       = stored_body (COMMAND_RESPONSE_CURRENT_TEST_CONFIG e)"
  shows "d = e"
proof -
  let ?w = current_test_config_writes
  have len: "length (fields_bytes (?w x)) = 7" for x by (simp add: current_test_config_writes_def)
  have present: "tc_controller_mode_present d = tc_controller_mode_present e"
    using arg_cong [OF assms(3), of length] len
    by (auto simp: stored_body_def split: if_splits)
  have split: "fields_bytes (?w x) = take 6 (fields_bytes (?w x)) @ [tc_controller_mode x]" for x
    by (simp add: current_test_config_writes_def write_be_defs)
  have "fields_bytes (?w d) = fields_bytes (?w e)"
  proof (cases "tc_controller_mode_present d")
    case True
    with assms(3) present len show ?thesis by (simp add: stored_body_def)
  next
    case False
    with assms present have "take 6 (fields_bytes (?w d)) = take 6 (fields_bytes (?w e))"
      "tc_controller_mode d = tc_controller_mode e"
      by (simp_all add: stored_body_def)
    then show ?thesis using split [of d] split [of e] by simp
  qed
  then have "?w d = ?w e"
    by (intro fields_bytes_inject) (simp_all add: current_test_config_writes_def)
  then show ?thesis using present by (simp add: current_test_config_writes_def)
qed

lemma runtime_profile_body_inject:
  assumes "response_object (COMMAND_RESPONSE_RUNTIME_PROFILE d)"
    "response_object (COMMAND_RESPONSE_RUNTIME_PROFILE e)"
    and "stored_body (COMMAND_RESPONSE_RUNTIME_PROFILE d)
       = stored_body (COMMAND_RESPONSE_RUNTIME_PROFILE e)"
  shows "d = e"
proof -
  have len: "length (fields_bytes (runtime_profile_writes x)) = 78" if "length (rp_metrics x) =
    8" for x
    using contiguous_length [OF metric_writes_contiguous [of 15 "rp_metrics x"]] that
    by (simp add: runtime_profile_writes_def)
  have "runtime_profile_writes d = runtime_profile_writes e"
  proof (rule fields_bytes_inject)
    show "map field_shape (runtime_profile_writes d) = map field_shape (runtime_profile_writes e)"
      using assms metric_writes_shape [of "rp_metrics d" "rp_metrics e"]
      by (simp add: runtime_profile_writes_def)
    show "fields_bytes (runtime_profile_writes d) = fields_bytes (runtime_profile_writes e)"
      using assms len [of d] len [of e] by (simp add: stored_body_def)
  qed
  with assms show ?thesis by (simp add: runtime_profile_writes_def metric_writes_inject)
qed

lemma stored_body_inject:
  assumes "response_object d" "response_object e" "response_kind d = response_kind e"
    and "stored_body d = stored_body e"
  shows "d = e"
  using assms echo_body_inject test_config_body_inject runtime_profile_body_inject
  by (cases d; cases e)
    (simp_all, auto simp: stored_body_def intro: fixed_layouts_inject simp del: One_nat_def)

text \<open>The whole frame a response is serialized into.\<close>

lemma serialized_frame:
  assumes "frame_object old" and "response_object (cr_data response)"
  shows "\<exists>f. serialize_response rq response old = (True, f) \<and> frame_object f \<and>
           nf_version f = 1 \<and> nf_device_address f = nf_device_address rq \<and>
           nf_sequence f = nf_sequence rq \<and> nf_command f = nf_command rq \<and> nf_message_type f = 2 \<and>
           nf_payload_length f \<le> 80 \<and>
           frame_data f = map_status (cr_status response) #
             (if cr_status response = COMMAND_STATUS_OK then response_body (cr_data response)
             else [])"
proof -
  obtain st d where r: "response = \<lparr>cr_status = st, cr_data = d\<rparr>" by (cases response) auto
  obtain ws n where l: "response_layout d = Some (ws, n)" using layout_contiguous [of d] assms(2)
    r by auto
  show ?thesis
  proof (cases "st = COMMAND_STATUS_OK")
    case True
    then show ?thesis
      using serialize_ok [OF assms(1), of d rq] assms(2) r l by (auto simp: serialize_response_def
        Let_def)
  next
    case False
    then show ?thesis
      using assms(1) r take_one_stored [of "nf_payload old"]
      by (simp add: serialize_response_def Let_def frame_object_def)
  qed
qed

section \<open>Properties\<close>

text \<open>
  C22. Every response has exactly its documented payload. Serializing any response the dispatcher
  can produce succeeds; the reply echoes the request's address, sequence and command with type
  RESPONSE and version 1; its payload is the status byte alone when the status is not OK, and
  otherwise the status byte followed by every field of the documented body, whole and in the
  documented order, most significant byte first, so that its length is one more than the documented
  body length and at most 80. The payload array keeps its 80 bytes.
\<close>

theorem serialize_response_payload:
  assumes "frame_object old" and "response_object (cr_data response)"
  shows "\<exists>f. serialize_response rq response old = (True, f) \<and> frame_object f \<and>
           nf_version f = 1 \<and> nf_device_address f = nf_device_address rq \<and>
           nf_sequence f = nf_sequence rq \<and> nf_command f = nf_command rq \<and> nf_message_type f = 2 \<and>
           nf_payload_length f \<le> 80 \<and>
           frame_data f = map_status (cr_status response) #
             (if cr_status response = COMMAND_STATUS_OK
              then concat (map wire_bytes (response_fields (cr_data response))) else []) \<and>
           nf_payload_length f
             = 1 + (if cr_status response = COMMAND_STATUS_OK
                    then documented_length (cr_data response) else 0)"
proof -
  obtain f where f: "serialize_response rq response old = (True,
    f)" "frame_object f" "nf_version f = 1"
    "nf_device_address f = nf_device_address rq" "nf_sequence f = nf_sequence rq"
    "nf_command f = nf_command rq" "nf_message_type f = 2" "nf_payload_length f \<le> 80"
    "frame_data f = map_status (cr_status response) #
       (if cr_status response = COMMAND_STATUS_OK then response_body (cr_data response) else [])"
    using serialized_frame [OF assms] by blast
  have "length (frame_data f) = nf_payload_length f" using f(2,8) by (simp add: frame_object_def)
  then show ?thesis
    using f length_response_body [OF assms(2)] by (simp add: response_body_def split: if_splits)
qed

theorem serialize_response_payload_witness:
  "\<exists>f. serialize_response ping_frame
     \<lparr>cr_status = COMMAND_STATUS_OK, cr_data = COMMAND_RESPONSE_FAULT_RECOVERY_STATUS
       \<lparr>fr_schema_version = 1, fr_result = 2, fr_blocker_flags = 0x10002,
        fr_cleared_fault_flags = 3, fr_remaining_fault_flags = 0x40\<rparr>\<rparr> ping_frame
       = (True, f) \<and> frame_data f = [0, 1, 2, 0, 1, 0, 2, 0, 0, 0, 3, 0, 0, 0, 64]"
  using serialize_response_payload [of ping_frame
      "\<lparr>cr_status = COMMAND_STATUS_OK, cr_data = COMMAND_RESPONSE_FAULT_RECOVERY_STATUS
       \<lparr>fr_schema_version = 1, fr_result = 2, fr_blocker_flags = 0x10002,
        fr_cleared_fault_flags = 3, fr_remaining_fault_flags = 0x40\<rparr>\<rparr>" ping_frame]
  by (auto simp: ping_frame_def frame_object_def)

text \<open>
  C23. No information is lost on the wire: two OK responses of the same kind whose serialized
  payloads agree are the same response, whatever the buffers held before. A host that decodes the
  documented layout recovers every field.
\<close>

theorem serialize_response_injective:
  assumes "frame_object o1" "frame_object o2" "response_object d" "response_object e"
    and "response_kind d = response_kind e"
    and "serialize_response r1 \<lparr>cr_status = COMMAND_STATUS_OK, cr_data = d\<rparr> o1 = (b1, f1)"
    and "serialize_response r2 \<lparr>cr_status = COMMAND_STATUS_OK, cr_data = e\<rparr> o2 = (b2, f2)"
    and "frame_data f1 = frame_data f2"
  shows "d = e"
  using serialize_stored [OF assms(1,3), of r1] serialize_stored [OF assms(2,4), of r2] assms
  by (intro stored_body_inject) auto

theorem serialize_response_injective_witness:
  "frame_data (snd (serialize_response ping_frame
       \<lparr>cr_status = COMMAND_STATUS_OK, cr_data = COMMAND_RESPONSE_CAPABILITIES 1\<rparr> ping_frame))
   \<noteq> frame_data (snd (serialize_response ping_frame
       \<lparr>cr_status = COMMAND_STATUS_OK, cr_data = COMMAND_RESPONSE_CAPABILITIES 2\<rparr> ping_frame))"
proof
  have obj: "frame_object ping_frame" by (simp add: ping_frame_def frame_object_def)
  assume "frame_data (snd (serialize_response ping_frame
       \<lparr>cr_status = COMMAND_STATUS_OK, cr_data = COMMAND_RESPONSE_CAPABILITIES 1\<rparr> ping_frame))
   = frame_data (snd (serialize_response ping_frame
       \<lparr>cr_status = COMMAND_STATUS_OK, cr_data = COMMAND_RESPONSE_CAPABILITIES 2\<rparr> ping_frame))"
  from serialize_response_injective [OF obj obj _ _ _ prod.collapse [symmetric]
      prod.collapse [symmetric] this] show False by simp
qed

end
