(* ===== verification/Protocol_Server.thy ===== *)
theory Protocol_Server
  imports Response_Encoding
begin

text \<open>
  The protocol server of \<open>firmware/src/protocol/native_protocol.c\<close>: a byte-fed receiver that
  collects a frame up to its zero delimiter, discards a frame that does not fit, decodes it, filters
  it by address and message type, dispatches the command and sends the encoded response. The
  application state, which the command callbacks and the transmit function act on, is threaded
  through explicitly. Local C objects that start uninitialised start from a fixed content here; no
  result below depends on it. The lemmas give the receiver's buffer invariant, its
  resynchronisation after every delimiter, the accounting of every decoded frame, and the full path
  from a request on the wire to its response on the wire.
\<close>

section \<open>Server state\<close>

abbreviation NATIVE_PROTOCOL_BROADCAST_ADDRESS :: u8 where "NATIVE_PROTOCOL_BROADCAST_ADDRESS \<equiv> 0"
abbreviation NATIVE_PROTOCOL_DEVICE_ADDRESS_MAX :: u8 where "NATIVE_PROTOCOL_DEVICE_ADDRESS_MAX \<equiv> 247"
abbreviation NATIVE_PROTOCOL_MESSAGE_REQUEST :: u8 where "NATIVE_PROTOCOL_MESSAGE_REQUEST \<equiv> 1"

record native_protocol_stats =
  st_bytes_consumed :: u32
  st_valid_frames :: u32
  st_responses_sent :: u32
  st_cobs_errors :: u32
  st_length_errors :: u32
  st_crc_errors :: u32
  st_version_errors :: u32
  st_ignored_addresses :: u32
  st_broadcasts_dropped :: u32
  st_unexpected_message_types :: u32
  st_transmit_rejections :: u32

type_synonym 's native_protocol_send_fn = "bytes \<Rightarrow> 's \<Rightarrow> bool \<times> 's"

record 's native_protocol_server =
  sr_device_address :: u8
  sr_command_context :: "'s command_service_context"
  sr_send :: "'s native_protocol_send_fn"
  sr_encoded_frame :: bytes
  sr_encoded_length :: nat
  sr_discarding_oversize_frame :: bool
  sr_stats :: native_protocol_stats

definition empty_stats :: native_protocol_stats where
  "empty_stats = \<lparr>st_bytes_consumed = 0, st_valid_frames = 0, st_responses_sent = 0,
     st_cobs_errors = 0, st_length_errors = 0, st_crc_errors = 0, st_version_errors = 0,
     st_ignored_addresses = 0, st_broadcasts_dropped = 0, st_unexpected_message_types = 0,
     st_transmit_rejections = 0\<rparr>"

definition local_frame :: native_protocol_frame where
  "local_frame = \<lparr>nf_version = 0, nf_device_address = 0, nf_sequence = 0, nf_message_type = 0,
     nf_command = 0, nf_payload_length = 0, nf_payload = replicate 80 0\<rparr>"

text \<open>\<open>++server->stats.field\<close>\<close>

definition count_stat ::
  "((u32 \<Rightarrow> u32) \<Rightarrow> native_protocol_stats \<Rightarrow> native_protocol_stats) \<Rightarrow>
     's native_protocol_server \<Rightarrow> 's native_protocol_server" where
  "count_stat field server = server\<lparr>sr_stats := field (\<lambda>n. n + 1) (sr_stats server)\<rparr>"

section \<open>Commands\<close>

definition map_command :: "u16 \<Rightarrow> command_operation option" where
  "map_command native_command =
     (if native_command = 0x0001 then Some COMMAND_OPERATION_PING
      else if native_command = 0x0002 then Some COMMAND_OPERATION_GET_IDENTITY
      else if native_command = 0x0003 then Some COMMAND_OPERATION_GET_CAPABILITIES
      else if native_command = 0x0100 then Some COMMAND_OPERATION_GET_COMMISSIONING_STATUS
      else if native_command = 0x0101 then Some COMMAND_OPERATION_CONFIGURE_CURRENT_TEST
      else if native_command = 0x0102 then Some COMMAND_OPERATION_START_CURRENT_TEST
      else if native_command = 0x0103 then Some COMMAND_OPERATION_STOP_CURRENT_TEST
      else if native_command = 0x0104 then Some COMMAND_OPERATION_GET_BOOT_STATUS
      else if native_command = 0x0105 then Some COMMAND_OPERATION_GET_ENCODER_STATUS
      else if native_command = 0x0106 then Some COMMAND_OPERATION_GET_CURRENT_TRACE
      else if native_command = 0x0107 then Some COMMAND_OPERATION_ARM_CURRENT_TRACE
      else if native_command = 0x0108 then Some COMMAND_OPERATION_GET_RUNTIME_PROFILE
      else if native_command = 0x0109 then Some COMMAND_OPERATION_ARM_RUNTIME_PROFILE
      else if native_command = 0x010A then Some COMMAND_OPERATION_START_BOOTSTRAP_PROBE
      else if native_command = 0x0200 then Some COMMAND_OPERATION_START_ALIGNMENT
      else if native_command = 0x0201 then Some COMMAND_OPERATION_GET_ALIGNMENT_STATUS
      else if native_command = 0x0202 then Some COMMAND_OPERATION_STOP_DRIVE
      else if native_command = 0x0203 then Some COMMAND_OPERATION_CLEAR_FAULTS
      else if native_command = 0x0300 then Some COMMAND_OPERATION_GET_CONFIGURATION_STATUS
      else if native_command = 0x0301 then Some COMMAND_OPERATION_SAVE_CONFIGURATION
      else if native_command = 0x0302 then Some COMMAND_OPERATION_CLEAR_CALIBRATION
      else if native_command = 0x0303 then Some COMMAND_OPERATION_SET_CURRENT_LOOP_GAINS
      else if native_command = 0x0304 then Some COMMAND_OPERATION_REVERT_CURRENT_LOOP_GAINS
      else if native_command = 0x0400 then Some COMMAND_OPERATION_START_ALIGNED_TORQUE
      else if native_command = 0x0401 then Some COMMAND_OPERATION_GET_ALIGNED_TORQUE_STATUS
      else if native_command = 0x0500 then Some COMMAND_OPERATION_START_VELOCITY
      else if native_command = 0x0501 then Some COMMAND_OPERATION_GET_VELOCITY_STATUS
      else if native_command = 0x0600 then Some COMMAND_OPERATION_START_POSITION_RELATIVE
      else if native_command = 0x0601 then Some COMMAND_OPERATION_GET_POSITION_STATUS
      else None)"

definition execute_command ::
  "'s native_protocol_server \<Rightarrow> native_protocol_frame \<Rightarrow> 's \<Rightarrow> command_response \<times> 's" where
  "execute_command server frame st =
     (case map_command (nf_command frame) of
        None \<Rightarrow> (\<lparr>cr_status = COMMAND_STATUS_UNKNOWN_COMMAND, cr_data = COMMAND_RESPONSE_NONE\<rparr>, st)
      | Some operation \<Rightarrow>
          (case command_service_dispatch (Some (sr_command_context server))
                  (Some \<lparr>rq_operation = operation, rq_payload = Some (nf_payload frame),
                     rq_payload_length = nf_payload_length frame\<rparr>) (Some response_reset) st of
             (Some response, st) \<Rightarrow> (response, st)
           | (None, st) \<Rightarrow> (response_reset, st)))"

definition transmit_response ::
  "'s native_protocol_server \<Rightarrow> native_protocol_frame \<Rightarrow> 's \<Rightarrow> 's native_protocol_server \<times> 's" where
  "transmit_response server response_frame st =
     (case native_protocol_encode_wire_frame (Some response_frame) (Some (replicate 92 0))
             NATIVE_PROTOCOL_MAX_WIRE_FRAME_SIZE of
        (wire_length, Some wire_response) \<Rightarrow>
          (if wire_length = 0 then (count_stat st_transmit_rejections_update server, st)
           else
             (case sr_send server (take wire_length wire_response) st of
                (False, st) \<Rightarrow> (count_stat st_transmit_rejections_update server, st)
              | (True, st) \<Rightarrow> (count_stat st_responses_sent_update server, st)))
      | (wire_length, None) \<Rightarrow> (count_stat st_transmit_rejections_update server, st))"

definition respond_to_request ::
  "'s native_protocol_server \<Rightarrow> native_protocol_frame \<Rightarrow> 's \<Rightarrow> 's native_protocol_server \<times> 's" where
  "respond_to_request server frame st =
     (case execute_command server frame st of (command_response, st) \<Rightarrow>
        (case serialize_response frame command_response local_frame of
           (True, response_frame) \<Rightarrow> transmit_response server response_frame st
         | (False, response_frame) \<Rightarrow>
             (case serialize_response frame
                     \<lparr>cr_status = COMMAND_STATUS_INTERNAL_ERROR, cr_data = COMMAND_RESPONSE_NONE\<rparr>
                     response_frame of
                (True, response_frame) \<Rightarrow> transmit_response server response_frame st
              | (False, response_frame) \<Rightarrow>
                  (count_stat st_transmit_rejections_update server, st))))"

section \<open>Receiving\<close>

definition handle_decoded_frame ::
  "'s native_protocol_server \<Rightarrow> native_protocol_frame \<Rightarrow> 's \<Rightarrow> 's native_protocol_server \<times> 's" where
  "handle_decoded_frame server frame st =
     (let server = count_stat st_valid_frames_update server
      in if nf_device_address frame \<noteq> sr_device_address server \<and>
            nf_device_address frame \<noteq> NATIVE_PROTOCOL_BROADCAST_ADDRESS then
           (count_stat st_ignored_addresses_update server, st)
         else if nf_message_type frame \<noteq> NATIVE_PROTOCOL_MESSAGE_REQUEST then
           (count_stat st_unexpected_message_types_update server, st)
         else if nf_device_address frame = NATIVE_PROTOCOL_BROADCAST_ADDRESS then
           (count_stat st_broadcasts_dropped_update server, st)
         else respond_to_request server frame st)"

definition process_encoded_frame ::
  "'s native_protocol_server \<Rightarrow> 's \<Rightarrow> 's native_protocol_server \<times> 's" where
  "process_encoded_frame server st =
     (case decode_encoded_frame
             (Some (take (sr_encoded_length server) (sr_encoded_frame server))) (Some local_frame) of
        (NATIVE_PROTOCOL_DECODE_OK, Some frame) \<Rightarrow> handle_decoded_frame server frame st
      | (NATIVE_PROTOCOL_DECODE_COBS_ERROR, _) \<Rightarrow> (count_stat st_cobs_errors_update server, st)
      | (NATIVE_PROTOCOL_DECODE_CRC_ERROR, _) \<Rightarrow> (count_stat st_crc_errors_update server, st)
      | (NATIVE_PROTOCOL_DECODE_VERSION_ERROR, _) \<Rightarrow> (count_stat st_version_errors_update server, st)
      | _ \<Rightarrow> (count_stat st_length_errors_update server, st))"

fun native_protocol_server_init ::
  "'s native_protocol_server ptr \<Rightarrow> u8 \<Rightarrow> 's command_service_context ptr \<Rightarrow>
     's native_protocol_send_fn ptr \<Rightarrow> bool \<times> 's native_protocol_server ptr" where
  "native_protocol_server_init (Some server) device_address (Some command_context) (Some send) =
     (if device_address = NATIVE_PROTOCOL_BROADCAST_ADDRESS \<or>
         NATIVE_PROTOCOL_DEVICE_ADDRESS_MAX < device_address then (False, Some server)
      else
        (True, Some (server\<lparr>sr_device_address := device_address,
           sr_command_context := command_context, sr_send := send, sr_encoded_length := 0,
           sr_discarding_oversize_frame := False, sr_stats := empty_stats\<rparr>)))"
| "native_protocol_server_init server device_address command_context send = (False, server)"

fun consume_byte ::
  "'s native_protocol_server \<times> 's \<Rightarrow> u8 \<Rightarrow> 's native_protocol_server \<times> 's" where
  "consume_byte (server, st) byte =
     (let server = count_stat st_bytes_consumed_update server
      in if byte = 0 then
           (if sr_discarding_oversize_frame server then
              (server\<lparr>sr_discarding_oversize_frame := False, sr_encoded_length := 0\<rparr>, st)
            else if sr_encoded_length server \<noteq> 0 then
              (case process_encoded_frame server st of
                 (server, st) \<Rightarrow> (server\<lparr>sr_encoded_length := 0\<rparr>, st))
            else (server, st))
         else if sr_discarding_oversize_frame server then (server, st)
         else if NATIVE_PROTOCOL_MAX_ENCODED_FRAME_SIZE \<le> sr_encoded_length server then
           (count_stat st_length_errors_update
              (server\<lparr>sr_discarding_oversize_frame := True, sr_encoded_length := 0\<rparr>), st)
         else
           (server\<lparr>sr_encoded_frame := (sr_encoded_frame server)[sr_encoded_length server := byte],
              sr_encoded_length := sr_encoded_length server + 1\<rparr>, st))"

fun native_protocol_server_consume ::
  "'s native_protocol_server ptr \<Rightarrow> bytes ptr \<Rightarrow> nat \<Rightarrow> 's \<Rightarrow> 's native_protocol_server ptr \<times> 's" where
  "native_protocol_server_consume (Some server) (Some bytes) len st =
     (case foldl consume_byte (server, st) (take len bytes) of (server, st) \<Rightarrow> (Some server, st))"
| "native_protocol_server_consume server bytes len st = (server, st)"

fun native_protocol_server_get_stats ::
  "'s native_protocol_server ptr \<Rightarrow> native_protocol_stats ptr \<Rightarrow> native_protocol_stats ptr" where
  "native_protocol_server_get_stats (Some server) (Some stats) = Some (sr_stats server)"
| "native_protocol_server_get_stats server stats = stats"

section \<open>The receive buffer\<close>

lemma stat_count_simps [simp]:
  "sr_device_address (count_stat k s) = sr_device_address s"
  "sr_command_context (count_stat k s) = sr_command_context s"
  "sr_send (count_stat k s) = sr_send s"
  "sr_encoded_frame (count_stat k s) = sr_encoded_frame s"
  "sr_encoded_length (count_stat k s) = sr_encoded_length s"
  "sr_discarding_oversize_frame (count_stat k s) = sr_discarding_oversize_frame s"
  "sr_stats (count_stat k s) = k (\<lambda>n. n + 1) (sr_stats s)"
  by (simp_all add: count_stat_def)

text \<open>Everything but the statistics: what processing a frame leaves alone.\<close>

definition server_core :: "'s native_protocol_server \<Rightarrow> 's native_protocol_server" where
  "server_core s = s\<lparr>sr_stats := empty_stats\<rparr>"

lemma core_count [simp]: "server_core (count_stat k s) = server_core s"
  by (simp add: server_core_def count_stat_def)

lemma core_transmit [simp]: "server_core (fst (transmit_response s f st)) = server_core s"
  by (simp add: transmit_response_def split: prod.split option.split bool.split)

lemma core_respond [simp]: "server_core (fst (respond_to_request s f st)) = server_core s"
  by (simp add: respond_to_request_def split: prod.split bool.split)

lemma core_handle [simp]: "server_core (fst (handle_decoded_frame s f st)) = server_core s"
  by (simp add: handle_decoded_frame_def Let_def)

lemma core_process [simp]: "server_core (fst (process_encoded_frame s st)) = server_core s"
  by (simp add: process_encoded_frame_def split: prod.split option.split native_protocol_decode_status.split)

lemma core_eq_fields:
  "server_core s = server_core t \<Longrightarrow>
     sr_device_address s = sr_device_address t \<and> sr_command_context s = sr_command_context t \<and>
     sr_send s = sr_send t \<and> sr_encoded_frame s = sr_encoded_frame t \<and>
     sr_encoded_length s = sr_encoded_length t \<and>
     sr_discarding_oversize_frame s = sr_discarding_oversize_frame t"
  by (cases s; cases t) (simp add: server_core_def)

definition receiver_inv :: "'s native_protocol_server \<Rightarrow> bool" where
  "receiver_inv s \<longleftrightarrow> length (sr_encoded_frame s) = 91 \<and> sr_encoded_length s \<le> 91 \<and>
     (sr_discarding_oversize_frame s \<longrightarrow> sr_encoded_length s = 0) \<and>
     0 \<notin> set (take (sr_encoded_length s) (sr_encoded_frame s))"

text \<open>Every decoded frame is counted once, in the counter that says what became of it.\<close>

definition frames_accounted :: "'s native_protocol_server \<Rightarrow> bool" where
  "frames_accounted s \<longleftrightarrow>
     st_valid_frames (sr_stats s) = st_ignored_addresses (sr_stats s)
       + st_unexpected_message_types (sr_stats s) + st_broadcasts_dropped (sr_stats s)
       + st_responses_sent (sr_stats s) + st_transmit_rejections (sr_stats s)"

lemma accounted_transmit:
  "frames_accounted s \<Longrightarrow>
     frames_accounted (fst (transmit_response (count_stat st_valid_frames_update s) f st))"
  by (simp add: transmit_response_def frames_accounted_def split: prod.split option.split bool.split)

lemma accounted_respond:
  "frames_accounted s \<Longrightarrow>
     frames_accounted (fst (respond_to_request (count_stat st_valid_frames_update s) f st))"
  by (auto simp: respond_to_request_def accounted_transmit split: prod.split bool.split)
    (simp add: frames_accounted_def)

lemma accounted_process:
  "frames_accounted s \<Longrightarrow> frames_accounted (fst (process_encoded_frame s st))"
  by (simp add: process_encoded_frame_def handle_decoded_frame_def Let_def accounted_respond
      split: prod.split option.split native_protocol_decode_status.split)
    (simp add: frames_accounted_def)

lemma process_result:
  obtains t st' where "process_encoded_frame s st = (t, st')" "sr_encoded_frame t = sr_encoded_frame s"
    "sr_discarding_oversize_frame t = sr_discarding_oversize_frame s"
    "frames_accounted s \<longrightarrow> frames_accounted t"
  using core_eq_fields [OF core_process [of s st]] accounted_process [of s st]
  by (cases "process_encoded_frame s st") simp

lemma consume_zero:
  obtains t st' where "consume_byte (s, st) 0 = (t, st')" "sr_encoded_length t = 0"
    "\<not> sr_discarding_oversize_frame t" "sr_encoded_frame t = sr_encoded_frame s"
    "frames_accounted s \<longrightarrow> frames_accounted t"
proof -
  let ?s = "count_stat st_bytes_consumed_update s"
  obtain t st' where p: "process_encoded_frame ?s st = (t, st')" "sr_encoded_frame t = sr_encoded_frame ?s"
    "sr_discarding_oversize_frame t = sr_discarding_oversize_frame ?s"
    "frames_accounted ?s \<longrightarrow> frames_accounted t" by (rule process_result)
  have a: "frames_accounted ?s = frames_accounted s" by (simp add: frames_accounted_def)
  consider "sr_discarding_oversize_frame s" | "\<not> sr_discarding_oversize_frame s" "sr_encoded_length s = 0"
    | "\<not> sr_discarding_oversize_frame s" "sr_encoded_length s \<noteq> 0" by blast
  then show thesis
  proof cases
    case 1
    then show thesis
      by (intro that [of "?s\<lparr>sr_discarding_oversize_frame := False, sr_encoded_length := 0\<rparr>" st])
        (simp_all add: Let_def frames_accounted_def)
  next
    case 2
    then show thesis by (intro that [of ?s st]) (simp_all add: Let_def frames_accounted_def)
  next
    case 3
    with p a show thesis
      by (intro that [of "t\<lparr>sr_encoded_length := 0\<rparr>" st']) (simp_all add: Let_def frames_accounted_def)
  qed
qed

lemma receiver_inv_step:
  assumes "receiver_inv s" and "frames_accounted s"
  shows "receiver_inv (fst (consume_byte (s, st) byte)) \<and> frames_accounted (fst (consume_byte (s, st) byte))"
proof (cases "byte = 0")
  case True
  obtain t st' where "consume_byte (s, st) 0 = (t, st')" "sr_encoded_length t = 0"
    "\<not> sr_discarding_oversize_frame t" "sr_encoded_frame t = sr_encoded_frame s"
    "frames_accounted s \<longrightarrow> frames_accounted t" by (rule consume_zero)
  with True assms show ?thesis by (simp add: receiver_inv_def del: consume_byte.simps)
next
  case False
  then show ?thesis
    using assms by (simp add: Let_def receiver_inv_def frames_accounted_def take_Suc_conv_app_nth)
qed

interpretation server: invariant_machine consume_byte
  "\<lambda>x. receiver_inv (fst x) \<and> frames_accounted (fst x)"
  by unfold_locales (metis prod.collapse receiver_inv_step)

text \<open>A run of data bytes from the idle state, short enough for the buffer or not.\<close>

lemma consume_data:
  assumes "receiver_inv s" "\<not> sr_discarding_oversize_frame s" "0 \<notin> set xs"
    and "sr_encoded_length s + length xs \<le> 91"
  shows "\<exists>t. foldl consume_byte (s, st) xs = (t, st) \<and> receiver_inv t \<and>
           \<not> sr_discarding_oversize_frame t \<and> sr_encoded_length t = sr_encoded_length s + length xs \<and>
           take (sr_encoded_length t) (sr_encoded_frame t)
             = take (sr_encoded_length s) (sr_encoded_frame s) @ xs \<and>
           sr_device_address t = sr_device_address s \<and> sr_send t = sr_send s \<and>
           sr_command_context t = sr_command_context s \<and>
           sr_stats t = (sr_stats s)\<lparr>st_bytes_consumed := st_bytes_consumed (sr_stats s) + of_nat (length xs)\<rparr>"
  using assms
proof (induction xs arbitrary: s)
  case Nil
  then show ?case by (intro exI [of _ s]) simp
next
  case (Cons x xs)
  define u where "u = (count_stat st_bytes_consumed_update s)
    \<lparr>sr_encoded_frame := (sr_encoded_frame s)[sr_encoded_length s := x],
     sr_encoded_length := sr_encoded_length s + 1\<rparr>"
  have step: "consume_byte (s, st) x = (u, st)" using Cons.prems by (simp add: u_def Let_def)
  have "receiver_inv u"
    using Cons.prems by (auto simp: u_def receiver_inv_def take_Suc_conv_app_nth)
  moreover have "take (sr_encoded_length u) (sr_encoded_frame u)
      = take (sr_encoded_length s) (sr_encoded_frame s) @ [x]"
    using Cons.prems by (simp add: u_def receiver_inv_def take_Suc_conv_app_nth)
  moreover have "\<not> sr_discarding_oversize_frame u" "sr_encoded_length u = sr_encoded_length s + 1"
    "sr_device_address u = sr_device_address s" "sr_send u = sr_send s"
    "sr_command_context u = sr_command_context s"
    "sr_stats u = (sr_stats s)\<lparr>st_bytes_consumed := st_bytes_consumed (sr_stats s) + 1\<rparr>"
    using Cons.prems by (simp_all add: u_def)
  ultimately show ?case
    using Cons.IH [of u] Cons.prems step by (fastforce simp: add.assoc add.commute)
qed

lemma consume_oversize:
  assumes "receiver_inv s" "\<not> sr_discarding_oversize_frame s" "sr_encoded_length s = 0"
    and "0 \<notin> set xs" "91 < length xs"
  shows "\<exists>t. foldl consume_byte (s, st) xs = (t, st) \<and> sr_discarding_oversize_frame t \<and>
           receiver_inv t \<and> st_length_errors (sr_stats t) = st_length_errors (sr_stats s) + 1 \<and>
           st_valid_frames (sr_stats t) = st_valid_frames (sr_stats s)"
proof -
  obtain ys z zs where xs: "xs = ys @ z # zs" "length ys = 91"
    using assms(5) id_take_nth_drop [of 91 xs] by (metis length_take min.absorb4 nat_less_le)
  then obtain t where t: "foldl consume_byte (s, st) ys = (t, st)" "\<not> sr_discarding_oversize_frame t"
    "sr_encoded_length t = 91" "receiver_inv t"
    "sr_stats t = (sr_stats s)\<lparr>st_bytes_consumed := st_bytes_consumed (sr_stats s) + of_nat (length ys)\<rparr>"
    using consume_data [OF assms(1,2), of ys st] assms(3,4) by auto
  define u where "u = count_stat st_length_errors_update ((count_stat st_bytes_consumed_update t)
      \<lparr>sr_discarding_oversize_frame := True, sr_encoded_length := 0\<rparr>)"
  have u: "consume_byte (t, st) z = (u, st)" using t xs assms(4) by (simp add: u_def Let_def)
  have rest: "\<exists>v. foldl consume_byte (w, st) zs = (v, st) \<and> sr_discarding_oversize_frame v \<and>
      receiver_inv v \<and>
      st_length_errors (sr_stats v) = st_length_errors (sr_stats w) \<and>
      st_valid_frames (sr_stats v) = st_valid_frames (sr_stats w)"
    if "sr_discarding_oversize_frame w" "receiver_inv w" "0 \<notin> set zs" for w zs
    using that
  proof (induction zs arbitrary: w)
    case (Cons a zs)
    then show ?case
      using Cons.IH [of "count_stat st_bytes_consumed_update w"]
      by (simp add: Let_def receiver_inv_def)
  qed simp
  have "receiver_inv u" using t(4) by (simp add: u_def receiver_inv_def)
  then show ?thesis
    using rest [of u zs] u t xs assms(4) by (simp add: u_def del: consume_byte.simps)
qed

section \<open>From request to response\<close>

lemma dispatch_prefix:
  assumes "\<And>i. i < n \<Longrightarrow> p ! i = q ! i" "n \<le> length p" "n \<le> length q"
  shows "dispatch_operation operation cx p n st = dispatch_operation operation cx q n st"
proof (cases "accepted_length operation n")
  case False
  then show ?thesis
    by (cases "operation = COMMAND_OPERATION_OTHER") (simp_all add: bad_length_dispatch)
next
  case True
  have "take n p = take n q" using assms by (simp add: list_eq_iff_nth_eq)
  with True assms(1) show ?thesis
    by (cases operation) (auto simp: dispatch_defs Let_def split: option.split)
qed

lemma frame_data_nth:
  "frame_data f = frame_data g \<Longrightarrow> i < nf_payload_length f \<Longrightarrow>
     nf_payload_length f = nf_payload_length g \<Longrightarrow> nf_payload f ! i = nf_payload g ! i"
  by (metis nth_take)

lemma execute_prefix:
  assumes "frame_data f = frame_data g" "nf_command f = nf_command g"
    and "nf_payload_length f = nf_payload_length g" "nf_payload_length f \<le> 80"
    and "frame_object f" "frame_object g"
  shows "execute_command s f st = execute_command s g st"
proof -
  have "dispatch_operation operation cx (nf_payload f) (nf_payload_length f) st
      = dispatch_operation operation cx (nf_payload g) (nf_payload_length g) st" for operation cx
    unfolding assms(3) [symmetric]
  proof (rule dispatch_prefix)
    show "nf_payload f ! i = nf_payload g ! i" if "i < nf_payload_length f" for i
      by (rule frame_data_nth [OF assms(1) that assms(3)])
  qed (use assms in \<open>simp_all add: frame_object_def\<close>)
  with assms(2) show ?thesis by (simp add: execute_command_def split: option.split)
qed

lemma execute_context:
  "sr_command_context s = sr_command_context t \<Longrightarrow> execute_command s f st = execute_command t f st"
  by (simp add: execute_command_def split: option.split)

lemma local_frame_object [simp]: "frame_object local_frame"
  by (simp add: local_frame_def frame_object_def)

text \<open>Sending a serialized response: the bytes handed to the transmit function.\<close>

lemma transmit_eq:
  assumes "frame_object g" "nf_payload_length g \<le> 80" "nf_version g = 1"
  shows "transmit_response s g st =
     (let sent = sr_send s (cobs_reference (frame_image g) @ [0]) st
      in (count_stat (if fst sent then st_responses_sent_update else st_transmit_rejections_update) s,
          snd sent))"
  using encode_wire_frame_eq [OF assms(1,2), of "replicate 92 0"] assms
  by (auto simp: transmit_response_def Let_def simp del: native_protocol_encode_wire_frame.simps
      split: prod.split bool.split)

definition reply_frame :: "native_protocol_frame \<Rightarrow> command_response \<Rightarrow> native_protocol_frame" where
  "reply_frame f r = snd (serialize_response f r local_frame)"

lemma respond_eq:
  assumes "execute_command s f st = (r, st1)" "response_object (cr_data r)"
  shows "respond_to_request s f st = transmit_response s (reply_frame f r) st1"
proof -
  have "fst (serialize_response f r local_frame)"
    using layout_contiguous [OF assms(2)]
    by (auto simp: serialize_response_def Let_def)
  then show ?thesis
    using assms(1) by (cases "serialize_response f r local_frame")
      (simp add: respond_to_request_def reply_frame_def)
qed

lemma decode_encoded_reference:
  assumes "frame_object f" "frame_object old" "nf_payload_length f \<le> 80" "nf_version f = 1"
  shows "decode_encoded_frame (Some (cobs_reference (frame_image f))) (Some old)
       = (NATIVE_PROTOCOL_DECODE_OK,
          Some (f\<lparr>nf_payload := frame_data f @ drop (nf_payload_length f) (nf_payload old)\<rparr>))"
  using decode_wire_reference [OF assms] by (simp split: if_splits)

lemma reply_frame_fields:
  assumes "response_object (cr_data r)"
  shows "frame_object (reply_frame f r)" "nf_version (reply_frame f r) = 1"
    "nf_payload_length (reply_frame f r) \<le> 80"
    "frame_data (reply_frame f r) = map_status (cr_status r) #
       (if cr_status r = COMMAND_STATUS_OK then response_body (cr_data r) else [])"
    "nf_device_address (reply_frame f r) = nf_device_address f"
    "nf_sequence (reply_frame f r) = nf_sequence f" "nf_command (reply_frame f r) = nf_command f"
    "nf_message_type (reply_frame f r) = 2"
  using serialized_frame [OF local_frame_object assms, of f] by (auto simp: reply_frame_def)

lemma decoded_reply:
  assumes "response_object (cr_data r)"
  obtains h where "native_protocol_decode_wire_frame
      (Some (cobs_reference (frame_image (reply_frame f r)) @ [0])) (Some local_frame)
      = (NATIVE_PROTOCOL_DECODE_OK, Some h)" "frame_data h = frame_data (reply_frame f r)"
    "nf_device_address h = nf_device_address f" "nf_sequence h = nf_sequence f"
    "nf_command h = nf_command f" "nf_message_type h = 2"
proof -
  note g = reply_frame_fields [OF assms, of f]
  show thesis
    by (rule that [OF decode_wire_reference [OF g(1) local_frame_object g(3,2)]])
      (use g(1,3,5-8) in \<open>simp_all add: frame_object_def\<close>)
qed

text \<open>A frame addressed to this device, in the buffer and complete.\<close>

lemma process_request:
  assumes "frame_object f" "nf_version f = 1" "nf_payload_length f \<le> 80" "nf_message_type f = 1"
    and "nf_device_address f = sr_device_address s" "sr_device_address s \<noteq> 0"
    and "take (sr_encoded_length s) (sr_encoded_frame s) = cobs_reference (frame_image f)"
    and "execute_command s f st = (r, st1)" "response_object (cr_data r)"
  shows "process_encoded_frame s st
       = transmit_response (count_stat st_valid_frames_update s) (reply_frame f r) st1"
proof -
  let ?g = "f\<lparr>nf_payload := frame_data f @ drop (nf_payload_length f) (nf_payload local_frame)\<rparr>"
  have len: "length (frame_data f) = nf_payload_length f"
    using assms(1,3) by (simp add: frame_object_def)
  then have g: "frame_object ?g" "frame_data ?g = frame_data f"
    using assms(1,3) by (simp_all add: frame_object_def local_frame_def)
  have "execute_command s ?g st = execute_command s f st"
    using g assms(1,3) by (intro execute_prefix) simp_all
  then have "execute_command (count_stat st_valid_frames_update s) ?g st = (r, st1)"
    using assms(8) execute_context [of "count_stat st_valid_frames_update s" s] by simp
  then have "respond_to_request (count_stat st_valid_frames_update s) ?g st
      = transmit_response (count_stat st_valid_frames_update s) (reply_frame ?g r) st1"
    using assms(9) by (rule respond_eq)
  moreover have "reply_frame ?g r = reply_frame f r"
    by (simp add: reply_frame_def serialize_response_def Let_def)
  ultimately show ?thesis
    using assms(4-6) decode_encoded_reference [OF assms(1) local_frame_object assms(3,2)]
    by (simp add: process_encoded_frame_def assms(7) handle_decoded_frame_def Let_def
        del: decode_encoded_frame.simps)
qed

section \<open>Properties\<close>

abbreviation idle :: "'s native_protocol_server \<Rightarrow> bool" where
  "idle s \<equiv> receiver_inv s \<and> sr_encoded_length s = 0 \<and> \<not> sr_discarding_oversize_frame s"

text \<open>
  C24. Request to response. When the server is between frames and the wire form of a request that
  is addressed to it arrives, the command is executed once on the decoded request, and one reply is
  handed to the transmit function: a wire frame of at most 92 bytes that decodes to a frame with
  the request's address, sequence and command, type RESPONSE, the mapped status, and the
  serialized data when the status is OK. The server is then between frames again and has
  counted one valid frame and one sent or one rejected response.
\<close>

theorem request_gets_response:
  assumes "idle s" and "frame_object f" "nf_version f = 1" "nf_payload_length f \<le> 80"
    and "nf_message_type f = 1" "nf_device_address f = sr_device_address s" "sr_device_address s \<noteq> 0"
    and "native_protocol_encode_wire_frame (Some f) (Some (replicate 92 0)) 92 = (n, Some wire)"
    and "execute_command s f st = (r, st1)" "response_object (cr_data r)"
  shows "\<exists>reply g t. length reply \<le> 92 \<and>
     native_protocol_decode_wire_frame (Some reply) (Some local_frame)
       = (NATIVE_PROTOCOL_DECODE_OK, Some g) \<and>
     nf_device_address g = nf_device_address f \<and> nf_sequence g = nf_sequence f \<and>
     nf_command g = nf_command f \<and> nf_message_type g = 2 \<and>
     frame_data g = map_status (cr_status r) #
       (if cr_status r = COMMAND_STATUS_OK then response_body (cr_data r) else []) \<and>
     foldl consume_byte (s, st) (take n wire) = (t, snd (sr_send s reply st1)) \<and> idle t \<and>
     st_valid_frames (sr_stats t) = st_valid_frames (sr_stats s) + 1 \<and>
     st_responses_sent (sr_stats t)
       = st_responses_sent (sr_stats s) + of_bool (fst (sr_send s reply st1)) \<and>
     st_transmit_rejections (sr_stats t)
       = st_transmit_rejections (sr_stats s) + of_bool (\<not> fst (sr_send s reply st1))"
proof -
  let ?enc = "cobs_reference (frame_image f)" and ?g = "reply_frame f r"
  let ?reply = "cobs_reference (frame_image ?g) @ [0]"
  have enc: "take n wire = ?enc @ [0]" "0 \<notin> set ?enc" "length ?enc = nf_payload_length f + 11"
    using encode_wire_frame_eq [OF assms(2,4), of "replicate 92 0"] assms(2,4,8)
      cobs_blocks_no_zero [of "[]" "frame_image f"]
    by (auto simp: length_frame_image length_cobs_blocks)
  note g = reply_frame_fields [OF assms(10), of f]
  obtain h where h: "native_protocol_decode_wire_frame (Some ?reply) (Some local_frame)
      = (NATIVE_PROTOCOL_DECODE_OK, Some h)" "frame_data h = frame_data ?g"
    "nf_device_address h = nf_device_address f" "nf_sequence h = nf_sequence f"
    "nf_command h = nf_command f" "nf_message_type h = 2"
    by (rule decoded_reply [OF assms(10)])
  obtain t1 where t1: "foldl consume_byte (s, st) ?enc = (t1, st)" "receiver_inv t1"
    "\<not> sr_discarding_oversize_frame t1" "sr_encoded_length t1 = nf_payload_length f + 11"
    "take (sr_encoded_length t1) (sr_encoded_frame t1) = ?enc"
    "sr_device_address t1 = sr_device_address s" "sr_send t1 = sr_send s"
    "sr_command_context t1 = sr_command_context s"
    "sr_stats t1 = (sr_stats s)\<lparr>st_bytes_consumed := st_bytes_consumed (sr_stats s) + of_nat (length ?enc)\<rparr>"
    using consume_data [of s ?enc st] assms(1,4) enc by auto
  let ?t = "count_stat st_bytes_consumed_update t1"
  have p: "process_encoded_frame ?t st
      = transmit_response (count_stat st_valid_frames_update ?t) ?g st1"
    using assms(2-7,9,10) t1 execute_context [of ?t s f st] by (intro process_request) simp_all
  obtain t st' where z: "consume_byte (t1, st) 0 = (t, st')" "sr_encoded_length t = 0"
    "\<not> sr_discarding_oversize_frame t" "sr_encoded_frame t = sr_encoded_frame t1"
    by (rule consume_zero)
  have "idle t" using z t1(2) by (simp add: receiver_inv_def)
  moreover have "foldl consume_byte (s, st) (take n wire) = (t, st')"
    using t1(1) z(1) enc(1) by (simp del: consume_byte.simps)
  moreover have "length ?reply \<le> 92"
    using g(1,3) by (simp add: length_frame_image length_cobs_blocks)
  moreover have "st' = snd (sr_send s ?reply st1)"
    "st_valid_frames (sr_stats t) = st_valid_frames (sr_stats s) + 1"
    "st_responses_sent (sr_stats t)
       = st_responses_sent (sr_stats s) + of_bool (fst (sr_send s ?reply st1))"
    "st_transmit_rejections (sr_stats t)
       = st_transmit_rejections (sr_stats s) + of_bool (\<not> fst (sr_send s ?reply st1))"
    using z(1) t1(3,4,7,9) p
      transmit_eq [OF g(1,3,2), of "count_stat st_valid_frames_update ?t" st1]
    by (auto simp: Let_def)
  ultimately show ?thesis
    using g(4) h by (intro exI [of _ ?reply] exI [of _ h] exI [of _ t])
      (simp del: native_protocol_decode_wire_frame.simps consume_byte.simps)
qed

text \<open>A device that counts the replies it sends.\<close>

definition bench_server :: "nat native_protocol_server" where
  "bench_server = \<lparr>sr_device_address = 1, sr_command_context = idle_context,
     sr_send = (\<lambda>bytes sent. (True, sent + 1)), sr_encoded_frame = replicate 91 0,
     sr_encoded_length = 0, sr_discarding_oversize_frame = False, sr_stats = empty_stats\<rparr>"

lemma bench_server_idle: "idle bench_server" "frames_accounted bench_server"
  by (simp_all add: bench_server_def receiver_inv_def frames_accounted_def empty_stats_def)

theorem request_gets_response_witness:
  "\<exists>n wire t. native_protocol_encode_wire_frame (Some ping_frame) (Some (replicate 92 0)) 92
       = (n, Some wire) \<and> foldl consume_byte (bench_server, 5) (take n wire) = (t, 6)"
proof -
  have f: "frame_object ping_frame" "nf_payload_length ping_frame \<le> 80"
    by (simp_all add: ping_frame_def frame_object_def)
  obtain wire where w: "native_protocol_encode_wire_frame (Some ping_frame) (Some (replicate 92 0)) 92
      = (14, Some wire)"
    using encode_wire_frame_eq [OF f, of "replicate 92 0"] by (auto simp: ping_frame_def)
  have e: "execute_command bench_server ping_frame 5
      = (reply_ok (COMMAND_RESPONSE_ECHO \<lparr>er_length = 2, er_bytes = [7, 7]\<rparr>), 5)"
    by (simp add: execute_command_def map_command_def ping_frame_def dispatch_ping_def numeral_2_eq_2)
  show ?thesis
    using request_gets_response [OF bench_server_idle(1) f(1) _ f(2) _ _ _ w e] w
    by (auto simp: ping_frame_def bench_server_def simp del: consume_byte.simps
        native_protocol_encode_wire_frame.simps)
qed

text \<open>
  C25. The receiver never leaves its buffer. From an initialised server, whatever bytes arrive in
  whatever chunks, the 91-byte buffer keeps its size and the fill level stays within it, the
  collected bytes contain no delimiter, and every decoded frame has been counted exactly once as
  ignored, unexpected, dropped broadcast, answered or rejected by the transmitter.
\<close>

theorem server_buffer_safe:
  assumes "native_protocol_server_init (Some raw) address (Some cx) (Some send) = (True, Some s)"
    and "length (sr_encoded_frame raw) = 91"
    and "native_protocol_server_consume (Some s) (Some bytes) len st = (Some s', st')"
  shows "receiver_inv s' \<and> frames_accounted s'"
proof -
  have "receiver_inv s \<and> frames_accounted s"
    using assms(1,2) by (auto simp: receiver_inv_def frames_accounted_def empty_stats_def split: if_splits)
  then show ?thesis
    using server.run_inv [of "(s, st)" "take len bytes"] assms(3)
    by (auto simp del: consume_byte.simps split: prod.splits)
qed

theorem server_buffer_safe_witness:
  "\<exists>s s' st'. native_protocol_server_init (Some bench_server) 1 (Some idle_context)
       (Some (\<lambda>bytes sent. (True, sent + 1))) = (True, Some s) \<and>
     native_protocol_server_consume (Some s) (Some [3, 1, 2]) 3 0 = (Some s', st') \<and> receiver_inv s'"
proof -
  obtain s where s: "native_protocol_server_init (Some bench_server) 1 (Some idle_context)
      (Some (\<lambda>bytes sent. (True, sent + 1))) = (True, Some s)" by simp
  obtain s' st' where c: "native_protocol_server_consume (Some s) (Some [3, 1, 2]) 3 0 = (Some s', st')"
    by (cases "foldl consume_byte (s, 0) [3, 1, 2]") (simp del: consume_byte.simps)
  have "length (sr_encoded_frame bench_server) = 91" by (simp add: bench_server_def)
  from server_buffer_safe [OF s this c] s c show ?thesis by blast
qed

text \<open>
  C26. Nothing but a request to this device has an effect. If consuming a byte changes the
  application state (no callback runs and nothing is sent otherwise), the byte is the delimiter
  of a frame that decodes without error, carries this device's own, non-broadcast address, and
  is a request.
\<close>

theorem only_own_requests_act:
  assumes "snd (consume_byte (s, st) byte) \<noteq> st"
  shows "byte = 0 \<and> \<not> sr_discarding_oversize_frame s \<and>
     (\<exists>f. decode_encoded_frame (Some (take (sr_encoded_length s) (sr_encoded_frame s)))
            (Some local_frame) = (NATIVE_PROTOCOL_DECODE_OK, Some f) \<and>
          nf_device_address f = sr_device_address s \<and> nf_device_address f \<noteq> 0 \<and>
          nf_message_type f = 1)"
  using assms
  by (simp add: Let_def process_encoded_frame_def handle_decoded_frame_def del: decode_encoded_frame.simps
      split: if_splits prod.splits option.splits native_protocol_decode_status.splits)

theorem only_own_requests_act_witness:
  "\<exists>s f. snd (consume_byte (s, 5 :: nat) 0) = 6 \<and>
     decode_encoded_frame (Some (take (sr_encoded_length s) (sr_encoded_frame s))) (Some local_frame)
       = (NATIVE_PROTOCOL_DECODE_OK, Some f) \<and> nf_device_address f = sr_device_address s"
proof -
  let ?enc = "cobs_reference (frame_image ping_frame)"
  define s where "s = bench_server\<lparr>sr_encoded_frame := ?enc @ replicate 78 0, sr_encoded_length := 13\<rparr>"
  let ?s = "count_stat st_bytes_consumed_update s"
  have f: "frame_object ping_frame" "nf_payload_length ping_frame \<le> 80"
    by (simp_all add: ping_frame_def frame_object_def)
  then have "length ?enc = 13" by (simp add: length_frame_image length_cobs_blocks ping_frame_def)
  then have enc: "take (sr_encoded_length ?s) (sr_encoded_frame ?s) = ?enc" by (simp add: s_def)
  have e: "execute_command ?s ping_frame 5
      = (reply_ok (COMMAND_RESPONSE_ECHO \<lparr>er_length = 2, er_bytes = [7, 7]\<rparr>), 5)" (is "_ = (?r, _)")
    by (simp add: execute_command_def map_command_def ping_frame_def dispatch_ping_def numeral_2_eq_2)
  have "process_encoded_frame ?s 5
      = transmit_response (count_stat st_valid_frames_update ?s) (reply_frame ping_frame ?r) 5"
    by (rule process_request [OF f(1) _ f(2) _ _ _ enc e])
      (simp_all add: s_def bench_server_def ping_frame_def)
  moreover have r: "response_object (cr_data ?r)" by simp
  ultimately have "snd (process_encoded_frame ?s 5) = 6"
    using transmit_eq [OF reply_frame_fields(1,3,2) [OF r], of "count_stat st_valid_frames_update ?s"]
    by (simp add: s_def bench_server_def)
  then have act: "snd (consume_byte (s, 5) 0) = 6"
    by (auto simp: Let_def s_def bench_server_def split: prod.split)
  then have "snd (consume_byte (s, 5) 0) \<noteq> 5" by (simp only:)
  from only_own_requests_act [OF this] act show ?thesis by blast
qed

text \<open>
  An oversized frame is dropped whole. More than 91 bytes without a delimiter have no effect on
  the application, count as one length error and as no valid frame, and at the next delimiter the
  receiver is between frames again, so the frame after it is received normally.
\<close>

theorem oversize_frame_dropped:
  assumes "idle s" and "0 \<notin> set xs" and "91 < length xs"
  shows "\<exists>t. foldl consume_byte (s, st) (xs @ [0]) = (t, st) \<and> idle t \<and>
           st_length_errors (sr_stats t) = st_length_errors (sr_stats s) + 1 \<and>
           st_valid_frames (sr_stats t) = st_valid_frames (sr_stats s)"
proof -
  obtain t where t: "foldl consume_byte (s, st) xs = (t, st)" "sr_discarding_oversize_frame t"
    "receiver_inv t" "st_length_errors (sr_stats t) = st_length_errors (sr_stats s) + 1"
    "st_valid_frames (sr_stats t) = st_valid_frames (sr_stats s)"
    using consume_oversize [of s xs st] assms by auto
  have "consume_byte (t, st) 0 = ((count_stat st_bytes_consumed_update t)
      \<lparr>sr_discarding_oversize_frame := False, sr_encoded_length := 0\<rparr>, st)"
    using t(2) by (simp add: Let_def)
  with t show ?thesis by (simp add: receiver_inv_def del: consume_byte.simps)
qed

theorem oversize_frame_dropped_witness:
  "\<exists>t. foldl consume_byte (bench_server, 5) (replicate 100 1 @ [0]) = (t, 5) \<and> idle t \<and>
     st_length_errors (sr_stats t) = 1"
  using oversize_frame_dropped [OF bench_server_idle(1), of "replicate 100 1" 5]
  by (auto simp: bench_server_def empty_stats_def simp del: consume_byte.simps)

end
