(* ===== verification/Phase_Reference.thy ===== *)
theory Phase_Reference
  imports Prelude
begin

text \<open>
  The phase current reference generators: \<open>firmware/src/control/phase_current_reference.c\<close>
  (table sine with linear interpolation and the polar-to-phase conversion) and
  \<open>firmware/src/control/rotating_current_test.c\<close> (a rotating vector whose speed is ramped up with
  a Bresenham accumulator). Right shifts of negative 64-bit values are arithmetic on the target,
  hence \<open>div\<close>. The lemmas bound every reference by the requested magnitude and show that the ramp
  is the exactly rounded linear ramp at every step.
\<close>

section \<open>Sine and cosine\<close>

definition SINE_Q15 :: "int list" where
  "SINE_Q15 = [0, 6393, 12539, 18204, 23170, 27245, 30273, 32137,
     32767, 32137, 30273, 27245, 23170, 18204, 12539, 6393,
     0, -6393, -12539, -18204, -23170, -27245, -30273, -32137,
     -32767, -32137, -30273, -27245, -23170, -18204, -12539, -6393]"

definition interpolate_sine_q15 :: "u32 \<Rightarrow> u32 \<Rightarrow> i16" where
  "interpolate_sine_q15 index fraction =
     (let next_index = (index + 1) AND 31;
          first = SINE_Q15 ! unat index;
          difference = SINE_Q15 ! unat next_index - first
      in word_of_int (first + (difference * uint fraction) div 65536))"

fun phase_current_reference_sin_cos_q15 ::
  "u32 \<Rightarrow> i16 ptr \<Rightarrow> i16 ptr \<Rightarrow> bool \<times> i16 ptr \<times> i16 ptr" where
  "phase_current_reference_sin_cos_q15 electrical_phase_q32 (Some sine) (Some cosine) =
     (let index = drop_bit 27 electrical_phase_q32;
          fraction = drop_bit 11 electrical_phase_q32 AND 0xFFFF;
          cosine_index = (index + drop_bit 27 0x40000000) AND 31
      in (True, Some (interpolate_sine_q15 index fraction),
          Some (interpolate_sine_q15 cosine_index fraction)))"
| "phase_current_reference_sin_cos_q15 electrical_phase_q32 sine cosine = (False, sine, cosine)"

definition scale_reference :: "i16 \<Rightarrow> i16 \<Rightarrow> i16" where
  "scale_reference q15 magnitude =
     (let scaled = sint q15 * sint magnitude;
          scaled = (if 0 \<le> scaled then scaled + 16383 else scaled - 16383);
          rounded = scaled sdiv 32767
      in if 32767 < rounded then 32767
         else if rounded < - 32768 then - 32768
         else word_of_int rounded)"

definition phase_sine :: "u32 \<Rightarrow> i16" where
  "phase_sine phase = interpolate_sine_q15 (drop_bit 27 phase) (drop_bit 11 phase AND 0xFFFF)"

fun phase_current_reference_from_polar ::
  "i16 \<Rightarrow> u32 \<Rightarrow> i16 ptr \<Rightarrow> i16 ptr \<Rightarrow> bool \<times> i16 ptr \<times> i16 ptr" where
  "phase_current_reference_from_polar magnitude_counts electrical_phase_q32 (Some a) (Some b) =
     (case phase_current_reference_sin_cos_q15 electrical_phase_q32 (Some 0) (Some 0) of
        (ok, Some sine, Some cosine) \<Rightarrow>
          (True, Some (scale_reference cosine magnitude_counts),
           Some (scale_reference sine magnitude_counts))
      | _ \<Rightarrow> (True, Some a, Some b))"
| "phase_current_reference_from_polar magnitude_counts electrical_phase_q32 a b = (False, a, b)"

section \<open>The rotating test vector\<close>

record rotating_current_test =
  rt_phase :: u32
  rt_phase_increment :: u32
  rt_target_phase_increment :: u32
  rt_ramp_base_increment :: u32
  rt_ramp_remainder_increment :: u64
  rt_ramp_error :: u64
  rt_ramp_step_count :: u64
  rt_ramp_steps_elapsed :: u64
  rt_amplitude_counts :: i16
  rt_initialized :: bool

fun rotating_current_test_init ::
  "rotating_current_test ptr \<Rightarrow> i16 \<Rightarrow> u32 \<Rightarrow> u32 \<Rightarrow> u64 \<Rightarrow> bool \<times> rotating_current_test ptr" where
  "rotating_current_test_init None amplitude_counts phase_increment initial_phase ramp_step_count =
     (False, None)"
| "rotating_current_test_init (Some g) amplitude_counts phase_increment initial_phase ramp_step_count =
     (if sint amplitude_counts \<le> 0 \<or> phase_increment = 0 then (False, Some g)
      else
        (True, Some (g\<lparr>rt_phase := initial_phase,
           rt_phase_increment := (if ramp_step_count = 0 then phase_increment else 0),
           rt_target_phase_increment := phase_increment,
           rt_ramp_base_increment :=
             (if ramp_step_count = 0 then 0 else ucast (ucast phase_increment div ramp_step_count)),
           rt_ramp_remainder_increment :=
             (if ramp_step_count = 0 then 0 else ucast phase_increment mod ramp_step_count),
           rt_ramp_error := ramp_step_count div 2,
           rt_ramp_step_count := ramp_step_count,
           rt_ramp_steps_elapsed := 0,
           rt_amplitude_counts := amplitude_counts,
           rt_initialized := True\<rparr>)))"

definition ramp_advance :: "rotating_current_test \<Rightarrow> rotating_current_test" where
  "ramp_advance g =
     (if rt_ramp_steps_elapsed g < rt_ramp_step_count g then
        (let increment = rt_phase_increment g + rt_ramp_base_increment g;
             error = rt_ramp_error g + rt_ramp_remainder_increment g;
             carry = rt_ramp_step_count g \<le> error;
             increment = (if carry then increment + 1 else increment);
             error = (if carry then error - rt_ramp_step_count g else error);
             elapsed = rt_ramp_steps_elapsed g + 1
         in g\<lparr>rt_phase_increment :=
                (if elapsed = rt_ramp_step_count g then rt_target_phase_increment g else increment),
              rt_ramp_error := error, rt_ramp_steps_elapsed := elapsed\<rparr>)
      else g\<lparr>rt_phase_increment := rt_target_phase_increment g\<rparr>)"

definition rotating_step :: "rotating_current_test \<Rightarrow> rotating_current_test" where
  "rotating_step g =
     (let g = ramp_advance g in g\<lparr>rt_phase := rt_phase g + rt_phase_increment g\<rparr>)"

fun rotating_current_test_step ::
  "rotating_current_test ptr \<Rightarrow> i16 ptr \<Rightarrow> i16 ptr \<Rightarrow>
     bool \<times> rotating_current_test ptr \<times> i16 ptr \<times> i16 ptr" where
  "rotating_current_test_step (Some g) (Some a) (Some b) =
     (if \<not> rt_initialized g then (False, Some g, Some a, Some b)
      else
        (case phase_current_reference_from_polar (rt_amplitude_counts g) (rt_phase g) (Some a) (Some b) of
           (True, a, b) \<Rightarrow> (True, Some (rotating_step g), a, b)
         | (False, a, b) \<Rightarrow> (False, Some g, a, b)))"
| "rotating_current_test_step g a b = (False, g, a, b)"

section \<open>Bounds\<close>

lemma SINE_Q15_bound: "i < 32 \<Longrightarrow> \<bar>SINE_Q15 ! i\<bar> \<le> 32767"
proof -
  have "list_all (\<lambda>x. \<bar>x\<bar> \<le> 32767) SINE_Q15" by (simp add: SINE_Q15_def)
  moreover have "length SINE_Q15 = 32" by (simp add: SINE_Q15_def)
  ultimately show "i < 32 \<Longrightarrow> \<bar>SINE_Q15 ! i\<bar> \<le> 32767" by (simp add: list_all_length)
qed

lemma unat_and_31: "unat ((x :: u32) AND 31) < 32"
proof -
  have "x AND 31 \<le> 31" by (rule word_and_le1)
  then show ?thesis by (simp add: word_le_nat_alt)
qed

lemma unat_index: "unat (drop_bit 27 (x :: u32)) < 32"
  using unsigned_less [of x, where ?'a = nat]
  by (simp add: drop_bit_eq_div unat_div less_mult_imp_div_less)

lemma uint_fraction: "0 \<le> uint ((x :: u32) AND 0xFFFF) \<and> uint (x AND 0xFFFF) < 65536"
proof -
  have "x AND 0xFFFF \<le> 0xFFFF" by (rule word_and_le1)
  then show ?thesis by (simp add: word_le_def)
qed

text \<open>Interpolation stays between its two end points.\<close>

lemma interpolate_between:
  assumes "0 \<le> f" "f < (65536 :: int)"
  shows "min a b \<le> a + ((b - a) * f) div 65536" "a + ((b - a) * f) div 65536 \<le> max a b"
proof -
  have "a + ((b - a) * f) div 65536 \<le> max a b \<and> min a b \<le> a + ((b - a) * f) div 65536"
  proof (cases "a \<le> b")
    case True
    then have "0 \<le> (b - a) * f" "(b - a) * f \<le> (b - a) * 65536"
      using assms mult_left_mono [of f 65536 "b - a"] by simp_all
    then have "0 \<le> (b - a) * f div 65536" "(b - a) * f div 65536 \<le> b - a"
      using zdiv_mono1 [of "(b - a) * f" "(b - a) * 65536" 65536] by simp_all
    with True show ?thesis by simp
  next
    case False
    then have "(b - a) * f \<le> 0" "(b - a) * 65536 \<le> (b - a) * f"
      using assms mult_left_mono_neg [of f 65536 "b - a"] by (simp_all add: mult_nonpos_nonneg)
    then have "(b - a) * f div 65536 \<le> 0" "b - a \<le> (b - a) * f div 65536"
      using zdiv_mono1 [of "(b - a) * 65536" "(b - a) * f" 65536]
        zdiv_mono1 [of "(b - a) * f" 0 65536] by simp_all
    with False show ?thesis by simp
  qed
  then show "min a b \<le> a + ((b - a) * f) div 65536" "a + ((b - a) * f) div 65536 \<le> max a b"
    by simp_all
qed

lemma sint_interpolate:
  assumes "unat i < 32" "0 \<le> uint f" "uint f < 65536"
  shows "min (SINE_Q15 ! unat i) (SINE_Q15 ! unat ((i + 1) AND 31)) \<le> sint (interpolate_sine_q15 i f)"
    "sint (interpolate_sine_q15 i f) \<le> max (SINE_Q15 ! unat i) (SINE_Q15 ! unat ((i + 1) AND 31))"
proof -
  let ?a = "SINE_Q15 ! unat i" and ?b = "SINE_Q15 ! unat ((i + 1) AND 31)"
  have "\<bar>?a\<bar> \<le> 32767" "\<bar>?b\<bar> \<le> 32767" using SINE_Q15_bound unat_and_31 assms(1) by blast+
  with interpolate_between [OF assms(2,3), of ?a ?b]
  have "sint (interpolate_sine_q15 i f) = ?a + ((?b - ?a) * uint f) div 65536"
    unfolding interpolate_sine_q15_def Let_def by (intro sint_of_int16) linarith+
  with interpolate_between [OF assms(2,3), of ?a ?b]
  show "min ?a ?b \<le> sint (interpolate_sine_q15 i f)" "sint (interpolate_sine_q15 i f) \<le> max ?a ?b"
    by simp_all
qed

lemma sine_bound:
  assumes "unat i < 32" "0 \<le> uint f" "uint f < 65536"
  shows "\<bar>sint (interpolate_sine_q15 i f)\<bar> \<le> 32767"
  using sint_interpolate [OF assms] SINE_Q15_bound [of "unat i"]
    SINE_Q15_bound [of "unat ((i + 1) AND 31)"] unat_and_31 [of "i + 1"] assms(1) by linarith

lemma rounded_quotient:
  fixes p :: int
  defines "r \<equiv> (if 0 \<le> p then p + 16383 else p - 16383) sdiv 32767"
  shows "\<bar>r\<bar> = (\<bar>p\<bar> + 16383) div 32767" "\<bar>r * 32767 - p\<bar> \<le> 16383"
proof -
  show "\<bar>r\<bar> = (\<bar>p\<bar> + 16383) div 32767" by (simp add: r_def abs_sdiv)
  show "\<bar>r * 32767 - p\<bar> \<le> 16383"
  proof (cases "0 \<le> p")
    case True
    then have "r = (p + 16383) div 32767" by (simp add: r_def sdiv_nonneg)
    then show ?thesis using div_mult_bounds [of 32767 "p + 16383"] by simp
  next
    case False
    then have "r = - ((16383 - p) div 32767)" by (simp add: r_def sdiv_neg)
    then show ?thesis using div_mult_bounds [of 32767 "16383 - p"] by simp
  qed
qed

lemma scale_reference_bound:
  assumes "\<bar>sint q\<bar> \<le> 32767"
  shows "\<bar>sint (scale_reference q m)\<bar> \<le> \<bar>sint m\<bar>"
    "sint m \<noteq> - 32768 \<Longrightarrow> \<bar>sint (scale_reference q m) * 32767 - sint q * sint m\<bar> \<le> 16383"
proof -
  define p where "p = sint q * sint m"
  define r where "r = (if 0 \<le> p then p + 16383 else p - 16383) sdiv 32767"
  note rq = rounded_quotient [of p, folded r_def]
  have "\<bar>p\<bar> \<le> 32767 * \<bar>sint m\<bar>" using assms by (simp add: p_def abs_mult mult_right_mono)
  then have "(\<bar>p\<bar> + 16383) div 32767 \<le> (16383 + \<bar>sint m\<bar> * 32767) div 32767"
    by (intro zdiv_mono1) simp_all
  then have rm: "\<bar>r\<bar> \<le> \<bar>sint m\<bar>" unfolding rq(1) by simp
  have m: "\<bar>sint m\<bar> \<le> 32768" using sint16_range [of m] by linarith
  have eq: "scale_reference q m = (if 32767 < r then 32767 else if r < - 32768 then - 32768 else word_of_int r)"
    by (simp add: scale_reference_def Let_def p_def r_def)
  show "\<bar>sint (scale_reference q m)\<bar> \<le> \<bar>sint m\<bar>"
    using rm m sint_of_int16 [of r] unfolding eq by auto
  show "\<bar>sint (scale_reference q m) * 32767 - sint q * sint m\<bar> \<le> 16383" if "sint m \<noteq> - 32768"
  proof -
    have "\<bar>r\<bar> \<le> 32767" using that rm sint16_range [of m] by linarith
    then have "sint (scale_reference q m) = r" unfolding eq by (auto intro: sint_of_int16)
    then show ?thesis using rq(2) by (simp add: p_def)
  qed
qed

text \<open>A quarter cycle ahead in the table is a quarter cycle ahead in phase.\<close>

lemma and_as_mod:
  "(x :: u32) AND 31 = x mod 32" "(x :: u32) AND 0xFFFF = x mod 0x10000"
proof -
  have "31 = (mask 5 :: u32)" "0xFFFF = (mask 16 :: u32)" by (simp_all add: mask_eq_exp_minus_1)
  then show "x AND 31 = x mod 32" "x AND 0xFFFF = x mod 0x10000"
    by (simp_all only: take_bit_eq_mask [symmetric] take_bit_eq_mod) simp_all
qed

lemma mod_div_shift:
  "0 < b \<Longrightarrow> 0 < c \<Longrightarrow> ((a + k * b) mod (b * c)) div b = (a div b + k) mod (c :: int)"
  by (simp add: zmod_zmult2_eq add.commute)

lemma quarter_ahead:
  "drop_bit 27 (phase + 0x40000000 :: u32) = (drop_bit 27 phase + 8) AND 31"
  "drop_bit 11 (phase + 0x40000000 :: u32) AND 0xFFFF = drop_bit 11 phase AND 0xFFFF"
proof -
  let ?p = "uint phase"
  have q: "uint (phase + 0x40000000) = (?p + 1073741824) mod 4294967296"
    by (simp add: uint_word_ariths)
  have "uint (drop_bit 27 (phase + 0x40000000)) = (?p div 134217728 + 8) mod 32"
    using mod_div_shift [of 134217728 32 ?p 8] by (simp add: drop_bit_eq_div uint_div q)
  moreover have "uint ((drop_bit 27 phase + 8) AND 31) = (?p div 134217728 + 8) mod 32"
    by (simp add: and_as_mod uint_mod drop_bit_eq_div uint_div uint_word_ariths mod_mod_cancel)
  ultimately show "drop_bit 27 (phase + 0x40000000) = (drop_bit 27 phase + 8) AND 31"
    by (simp add: word_uint_eq_iff)
  have "uint (drop_bit 11 (phase + 0x40000000) AND 0xFFFF)
      = (?p div 2048 + 524288) mod 2097152 mod 65536"
    using mod_div_shift [of 2048 2097152 ?p 524288]
    by (simp add: and_as_mod uint_mod drop_bit_eq_div uint_div q)
  also have "\<dots> = ?p div 2048 mod 65536"
    using mod_mult_self1 [of "?p div 2048" 8 65536] by (simp add: mod_mod_cancel)
  finally show "drop_bit 11 (phase + 0x40000000) AND 0xFFFF = drop_bit 11 phase AND 0xFFFF"
    by (simp add: word_uint_eq_iff and_as_mod uint_mod drop_bit_eq_div uint_div)
qed

lemma polar_eq:
  "phase_current_reference_from_polar m phase (Some a) (Some b) =
     (True, Some (scale_reference (phase_sine (phase + 0x40000000)) m),
      Some (scale_reference (phase_sine phase) m))"
  by (simp add: phase_sine_def quarter_ahead Let_def)

lemma phase_sine_bound: "\<bar>sint (phase_sine phase)\<bar> \<le> 32767"
  unfolding phase_sine_def
  by (rule sine_bound) (simp_all add: unat_index uint_fraction)

text \<open>
  The phase references never exceed the requested magnitude. For every magnitude and every
  electrical phase the conversion succeeds, B is the sine and A the sine a quarter cycle later,
  both are bounded by the magnitude, and each is the product with the Q15 sine rounded to the
  nearest count.
\<close>

theorem polar_reference_bounded:
  "\<exists>ra rb. phase_current_reference_from_polar m phase (Some a) (Some b) = (True, Some ra, Some rb) \<and>
     \<bar>sint ra\<bar> \<le> \<bar>sint m\<bar> \<and> \<bar>sint rb\<bar> \<le> \<bar>sint m\<bar> \<and>
     (sint m = - 32768 \<or>
       \<bar>sint rb * 32767 - sint (phase_sine phase) * sint m\<bar> \<le> 16383 \<and>
       \<bar>sint ra * 32767 - sint (phase_sine (phase + 0x40000000)) * sint m\<bar> \<le> 16383)"
  unfolding polar_eq using scale_reference_bound [OF phase_sine_bound] by blast

section \<open>The ramp\<close>

text \<open>The state after \<open>k\<close> steps of a ramp of \<open>n\<close> steps to increment \<open>t\<close>.\<close>

definition ramp_at :: "nat \<Rightarrow> nat \<Rightarrow> nat \<Rightarrow> rotating_current_test \<Rightarrow> bool" where
  "ramp_at t n k g \<longleftrightarrow> unat (rt_target_phase_increment g) = t \<and> unat (rt_ramp_step_count g) = n \<and>
     unat (rt_ramp_base_increment g) = t div n \<and> unat (rt_ramp_remainder_increment g) = t mod n \<and>
     unat (rt_ramp_steps_elapsed g) = k \<and>
     unat (rt_phase_increment g) = (t * k + n div 2) div n \<and>
     unat (rt_ramp_error g) = (t * k + n div 2) mod n"

lemma bresenham:
  assumes "0 < n"
  shows "(x + t) div n = x div n + t div n + (if n \<le> x mod n + t mod n then 1 else (0 :: nat))"
    "(x + t) mod n = (if n \<le> x mod n + t mod n then x mod n + t mod n - n else x mod n + t mod n)"
proof -
  let ?s = "x mod n + t mod n"
  have s: "?s < 2 * n" using assms mod_less_divisor [of n x] mod_less_divisor [of n t] by linarith
  have "?s div n = (if n \<le> ?s then 1 else 0)"
    using s by (auto intro!: div_nat_eqI)
  then show "(x + t) div n = x div n + t div n + (if n \<le> ?s then 1 else 0)"
    using div_add1_eq [of x t n] by simp
  have "?s mod n = (if n \<le> ?s then ?s - n else ?s)"
    using s by (simp add: le_mod_geq)
  then show "(x + t) mod n = (if n \<le> ?s then ?s - n else ?s)" using mod_add_eq [of x n t] by simp
qed

lemma ramp_value_bound:
  assumes "0 < n" "k \<le> n" "t < (4294967296 :: nat)"
  shows "(t * k + n div 2) div n \<le> t"
proof -
  have "(t * k + n div 2) div n \<le> (n div 2 + t * n) div n"
    using assms by (intro div_le_mono) simp
  then show ?thesis using assms(1) by simp
qed

lemma ramp_advance_at:
  assumes "ramp_at t n k g" "k < n" "n \<le> 9223372036854775808" "t < 4294967296"
  shows "ramp_at t n (k + 1) (ramp_advance g)"
proof -
  define x where "x = t * k + n div 2"
  note r = assms(1) [unfolded ramp_at_def, folded x_def]
  have n: "0 < n" using assms(2) by simp
  have step: "t * (k + 1) + n div 2 = x + t" by (simp add: x_def)
  note br = bresenham [OF n, of x t]
  have le: "(x + t) div n \<le> t"
    using ramp_value_bound [OF n, of "k + 1" t] assms(2,4) unfolding step by simp
  have k: "unat (rt_ramp_steps_elapsed g + 1) = k + 1"
    using r assms(2,3) by (subst unat_add_small) simp_all
  have sum: "x mod n + t mod n < 18446744073709551616"
    using assms(3) mod_less_divisor [OF n, of x] mod_less_divisor [OF n, of t] by linarith
  have e: "unat (rt_ramp_error g + rt_ramp_remainder_increment g) = x mod n + t mod n"
    using r sum by (subst unat_add_small) simp_all
  have c: "rt_ramp_step_count g \<le> rt_ramp_error g + rt_ramp_remainder_increment g
      \<longleftrightarrow> n \<le> x mod n + t mod n"
    using e r by (simp add: word_le_nat_alt)
  have e2: "unat (rt_ramp_error g + rt_ramp_remainder_increment g - rt_ramp_step_count g)
      = x mod n + t mod n - n" if "n \<le> x mod n + t mod n"
    using that e r by (simp add: unat_sub word_le_nat_alt)
  have i: "unat (rt_phase_increment g + rt_ramp_base_increment g) = x div n + t div n"
    using r br(1) le assms(4) by (subst unat_add_small) (simp_all split: if_splits)
  have i1: "unat (rt_phase_increment g + rt_ramp_base_increment g + 1) = x div n + t div n + 1"
    if "n \<le> x mod n + t mod n"
    using that i br(1) le assms(4) by (subst unat_add_small) simp_all
  have el: "rt_ramp_steps_elapsed g + 1 = rt_ramp_step_count g \<longleftrightarrow> k + 1 = n"
    using k r by (simp add: word_unat_eq_iff)
  have last: "(x + t) div n = t" if "k + 1 = n"
  proof -
    have "x + t = n div 2 + t * n" using that step by (simp add: distrib_left mult.commute)
    then show ?thesis using n by simp
  qed
  have run: "rt_ramp_steps_elapsed g < rt_ramp_step_count g"
    using r assms(2) by (simp add: word_less_nat_alt)
  let ?c = "rt_ramp_step_count g \<le> rt_ramp_error g + rt_ramp_remainder_increment g"
  let ?i = "rt_phase_increment g + rt_ramp_base_increment g"
  have inc: "unat (if rt_ramp_steps_elapsed g + 1 = rt_ramp_step_count g
      then rt_target_phase_increment g else if ?c then ?i + 1 else ?i) = (x + t) div n"
    using el last r br(1) c i i1 by (cases "k + 1 = n") simp_all
  have err: "unat (if ?c then rt_ramp_error g + rt_ramp_remainder_increment g - rt_ramp_step_count g
      else rt_ramp_error g + rt_ramp_remainder_increment g) = (x + t) mod n"
    using br(2) c e e2 by simp
  from r run k inc err show ?thesis
    unfolding ramp_at_def step ramp_advance_def Let_def by simp
qed

lemma ramp_at_step: "ramp_at t n k (rotating_step g) = ramp_at t n k (ramp_advance g)"
  by (simp add: ramp_at_def rotating_step_def Let_def)

lemma unat_widen: "unat (ucast (t :: u32) :: u64) = unat t"
  using unsigned_less [of t, where ?'a = nat] by (simp add: unsigned_ucast_eq take_bit_nat_eq_self)

lemma unat_base_increment: "unat (ucast (ucast (t :: u32) div (n :: u64)) :: u32) = unat t div unat n"
proof -
  have "unat t div unat n < 2 ^ 32"
    using unsigned_less [of t, where ?'a = nat] div_le_dividend [of "unat t" "unat n"]
    by (simp del: div_le_dividend)
  moreover have "unat (ucast t div n :: u64) = unat t div unat n" by (simp only: unat_div unat_widen)
  ultimately show ?thesis
    by (simp only: unsigned_ucast_eq [of "ucast t div n :: u64"]) (simp add: take_bit_nat_eq_self)
qed

lemma ramp_run:
  assumes "ramp_at t n 0 g" "k \<le> n" "n \<le> 9223372036854775808" "t < 4294967296"
  shows "ramp_at t n k ((rotating_step ^^ k) g)"
  using assms(2)
proof (induction k)
  case 0
  with assms(1) show ?case by simp
next
  case (Suc k)
  then have "ramp_at t n (k + 1) (ramp_advance ((rotating_step ^^ k) g))"
    using assms(3,4) by (intro ramp_advance_at) simp_all
  then show ?case by (simp add: ramp_at_step)
qed

text \<open>
  The start-up ramp is exact. After initialising a ramp of \<open>n > 0\<close> control steps (at most
  \<open>2^63\<close>) to a target increment, the speed after \<open>k\<close> steps is the linear ramp
  \<open>target * k / n\<close> rounded to nearest, for every \<open>k\<close> up to \<open>n\<close>: no counter wraps, and the last
  step reaches the target exactly.
\<close>

theorem ramp_is_rounded_line:
  assumes "rotating_current_test_init (Some u) amplitude target phase n = (True, Some g)"
    and "0 < unat n" "unat n \<le> 2 ^ 63" "k \<le> unat n"
  shows "unat (rt_phase_increment ((rotating_step ^^ k) g)) = (unat target * k + unat n div 2) div unat n
       \<and> (k = unat n \<longrightarrow> rt_phase_increment ((rotating_step ^^ k) g) = target)"
proof -
  let ?t = "unat target" and ?n = "unat n"
  have t: "?t < 4294967296" using unsigned_less [of target, where ?'a = nat] by simp
  have n0: "n \<noteq> 0" using assms(2) by auto
  have "ramp_at ?t ?n 0 g"
    using assms(1,2) n0 t
    by (auto simp: ramp_at_def unat_div unat_mod unat_widen unat_base_increment split: if_splits)
  from ramp_run [OF this assms(4) _ t] assms(3)
  have r: "ramp_at ?t ?n k ((rotating_step ^^ k) g)" by simp
  moreover have "(?t * ?n + ?n div 2) div ?n = ?t" using assms(2) by simp
  ultimately show ?thesis by (auto simp: ramp_at_def word_unat_eq_iff)
qed

theorem ramp_is_rounded_line_witness:
  "\<exists>g. rotating_current_test_init
       (Some \<lparr>rt_phase = 0, rt_phase_increment = 0, rt_target_phase_increment = 0,
          rt_ramp_base_increment = 0, rt_ramp_remainder_increment = 0, rt_ramp_error = 0,
          rt_ramp_step_count = 0, rt_ramp_steps_elapsed = 0, rt_amplitude_counts = 0,
          rt_initialized = False\<rparr>) 10 7 0 3 = (True, Some g) \<and>
     unat (rt_phase_increment ((rotating_step ^^ 2) g)) = 5"
proof -
  obtain g where g: "rotating_current_test_init
       (Some \<lparr>rt_phase = 0, rt_phase_increment = 0, rt_target_phase_increment = 0,
          rt_ramp_base_increment = 0, rt_ramp_remainder_increment = 0, rt_ramp_error = 0,
          rt_ramp_step_count = 0, rt_ramp_steps_elapsed = 0, rt_amplitude_counts = 0,
          rt_initialized = False\<rparr>) 10 7 0 3 = (True, Some g)" by simp
  from ramp_is_rounded_line [OF this, of 2] g show ?thesis by simp
qed

end
