(* ===== verification/Current_Loop.thy ===== *)
theory Current_Loop
  imports Phase_Reference
begin

text \<open>
  The fixed-point phase current regulator, \<open>firmware/src/control/phase_current_loop.c\<close>: the
  stationary-frame PI step, the rotating-frame (Park) step with its anti-windup selection and
  division-free saturation, the overcurrent and plausibility latches, and the mapping of phase
  voltages to the four half-bridge duties. Stored state is in words; the 64-bit intermediate
  arithmetic is in integers. The lemmas show that for a valid configuration neither step can
  command a duty outside the permitted range, that the integrators stay within the voltage limit,
  that the restoring search computes the exact quotient, and that a latched fault is final.
\<close>

section \<open>Data\<close>

abbreviation ADC_SAMPLE_RAW_MAX :: u16 where "ADC_SAMPLE_RAW_MAX \<equiv> 4095"
definition PHASE_CURRENT_LOOP_FAULT_NONE :: u32 where "PHASE_CURRENT_LOOP_FAULT_NONE = 0"
definition PHASE_CURRENT_LOOP_FAULT_INVALID_SAMPLE :: u32 where
  "PHASE_CURRENT_LOOP_FAULT_INVALID_SAMPLE = 1"
definition PHASE_CURRENT_LOOP_FAULT_OVERCURRENT_A :: u32 where
  "PHASE_CURRENT_LOOP_FAULT_OVERCURRENT_A = 2"
definition PHASE_CURRENT_LOOP_FAULT_OVERCURRENT_B :: u32 where
  "PHASE_CURRENT_LOOP_FAULT_OVERCURRENT_B = 4"
definition PHASE_CURRENT_LOOP_FAULT_INVALID_REFERENCE :: u32 where
  "PHASE_CURRENT_LOOP_FAULT_INVALID_REFERENCE = 8"
definition PHASE_CURRENT_LOOP_FAULT_INVALID_OUTPUT :: u32 where
  "PHASE_CURRENT_LOOP_FAULT_INVALID_OUTPUT = 16"

record phase_current_loop_config =
  lc_current_a_zero_raw :: u16
  lc_current_b_zero_raw :: u16
  lc_reference_limit_counts :: u16
  lc_hard_current_limit_counts :: u16
  lc_proportional_gain_q16_per_count :: i32
  lc_integral_gain_q16_per_count_per_step :: i32
  lc_phase_voltage_limit_permille :: u16
  lc_duty_margin_permille :: u16
  lc_current_a_polarity :: i8
  lc_current_b_polarity :: i8

record phase_current_loop =
  pl_current_a_integrator_q16 :: i32
  pl_current_b_integrator_q16 :: i32
  pl_current_a_reference_counts :: i16
  pl_current_b_reference_counts :: i16
  pl_fault_flags :: u32
  pl_initialized :: bool
  pl_running :: bool

record phase_current_loop_output =
  po_current_a_measured_counts :: i16
  po_current_b_measured_counts :: i16
  po_phase_a_voltage_permille :: i16
  po_phase_b_voltage_permille :: i16
  po_duty_permille :: "u16 list"

section \<open>Configuration, references, start and stop\<close>

definition clamp_i64_to_i32 :: "int \<Rightarrow> int \<Rightarrow> int \<Rightarrow> int" where
  "clamp_i64_to_i32 value minimum maximum =
     (if value < minimum then minimum else if maximum < value then maximum else value)"

definition zero_output :: phase_current_loop_output where
  "zero_output = \<lparr>po_current_a_measured_counts = 0, po_current_b_measured_counts = 0,
     po_phase_a_voltage_permille = 0, po_phase_b_voltage_permille = 0,
     po_duty_permille = [0, 0, 0, 0]\<rparr>"

definition polarity_is_valid :: "i8 \<Rightarrow> bool" where
  "polarity_is_valid polarity \<longleftrightarrow> sint polarity = 1 \<or> sint polarity = - 1"

fun phase_current_loop_config_is_valid :: "phase_current_loop_config ptr \<Rightarrow> bool" where
  "phase_current_loop_config_is_valid None = False"
| "phase_current_loop_config_is_valid (Some config) =
     (let maximum_phase_voltage = 1000 - ucast (lc_duty_margin_permille config) :: u32
      in lc_current_a_zero_raw config \<le> ADC_SAMPLE_RAW_MAX \<and>
         lc_current_b_zero_raw config \<le> ADC_SAMPLE_RAW_MAX \<and>
         lc_hard_current_limit_counts config \<noteq> 0 \<and>
         lc_reference_limit_counts config \<noteq> 0 \<and>
         lc_reference_limit_counts config < lc_hard_current_limit_counts config \<and>
         lc_hard_current_limit_counts config \<le> lc_current_a_zero_raw config \<and>
         (ucast (lc_current_a_zero_raw config) + ucast (lc_hard_current_limit_counts config) :: u32)
           \<le> 4095 \<and>
         lc_hard_current_limit_counts config \<le> lc_current_b_zero_raw config \<and>
         (ucast (lc_current_b_zero_raw config) + ucast (lc_hard_current_limit_counts config) :: u32)
           \<le> 4095 \<and>
         0 \<le> sint (lc_proportional_gain_q16_per_count config) \<and>
         sint (lc_proportional_gain_q16_per_count config) \<le> 16 * 65536 \<and>
         0 \<le> sint (lc_integral_gain_q16_per_count_per_step config) \<and>
         sint (lc_integral_gain_q16_per_count_per_step config) \<le> 4 * 65536 \<and>
         lc_phase_voltage_limit_permille config \<noteq> 0 \<and>
         lc_duty_margin_permille config < 1000 \<and>
         ucast (lc_phase_voltage_limit_permille config) \<le> maximum_phase_voltage \<and>
         polarity_is_valid (lc_current_a_polarity config) \<and>
         polarity_is_valid (lc_current_b_polarity config))"

definition empty_loop :: phase_current_loop where
  "empty_loop = \<lparr>pl_current_a_integrator_q16 = 0, pl_current_b_integrator_q16 = 0,
     pl_current_a_reference_counts = 0, pl_current_b_reference_counts = 0, pl_fault_flags = 0,
     pl_initialized = False, pl_running = False\<rparr>"

fun phase_current_loop_init ::
  "phase_current_loop ptr \<Rightarrow> phase_current_loop_config ptr \<Rightarrow> bool \<times> phase_current_loop ptr" where
  "phase_current_loop_init None config = (False, None)"
| "phase_current_loop_init (Some loop) config =
     (if \<not> phase_current_loop_config_is_valid config then (False, Some loop)
      else (True, Some (empty_loop\<lparr>pl_initialized := True\<rparr>)))"

definition latch_fault :: "phase_current_loop \<Rightarrow> u32 \<Rightarrow> phase_current_loop" where
  "latch_fault loop fault =
     loop\<lparr>pl_fault_flags := pl_fault_flags loop OR fault, pl_running := False,
       pl_current_a_integrator_q16 := 0, pl_current_b_integrator_q16 := 0\<rparr>"

fun phase_current_loop_set_reference_counts_prevalidated ::
  "phase_current_loop ptr \<Rightarrow> phase_current_loop_config ptr \<Rightarrow> i16 \<Rightarrow> i16 \<Rightarrow>
     bool \<times> phase_current_loop ptr" where
  "phase_current_loop_set_reference_counts_prevalidated (Some loop) (Some config) a b =
     (if \<not> pl_initialized loop \<or> pl_fault_flags loop \<noteq> PHASE_CURRENT_LOOP_FAULT_NONE then
        (False, Some loop)
      else if uint (lc_reference_limit_counts config) < \<bar>sint a\<bar> \<or>
              uint (lc_reference_limit_counts config) < \<bar>sint b\<bar> then
        (False, Some (latch_fault loop PHASE_CURRENT_LOOP_FAULT_INVALID_REFERENCE))
      else
        (True, Some (loop\<lparr>pl_current_a_reference_counts := a, pl_current_b_reference_counts :=
          b\<rparr>)))"
| "phase_current_loop_set_reference_counts_prevalidated loop config a b = (False, loop)"

definition phase_current_loop_set_reference_counts ::
  "phase_current_loop ptr \<Rightarrow> phase_current_loop_config ptr \<Rightarrow> i16 \<Rightarrow> i16 \<Rightarrow>
     bool \<times> phase_current_loop ptr" where
  "phase_current_loop_set_reference_counts loop config a b =
     (if \<not> phase_current_loop_config_is_valid config then (False, loop)
      else phase_current_loop_set_reference_counts_prevalidated loop config a b)"

fun phase_current_loop_start :: "phase_current_loop ptr \<Rightarrow> bool \<times> phase_current_loop ptr" where
  "phase_current_loop_start None = (False, None)"
| "phase_current_loop_start (Some loop) =
     (if \<not> pl_initialized loop \<or> pl_fault_flags loop \<noteq> PHASE_CURRENT_LOOP_FAULT_NONE then
        (False, Some loop)
      else
        (True, Some (loop\<lparr>pl_current_a_integrator_q16 := 0, pl_current_b_integrator_q16 := 0,
           pl_running := True\<rparr>)))"

fun phase_current_loop_stop :: "phase_current_loop ptr \<Rightarrow> phase_current_loop ptr" where
  "phase_current_loop_stop None = None"
| "phase_current_loop_stop (Some loop) =
     Some (loop\<lparr>pl_running := False, pl_current_a_integrator_q16 := 0,
       pl_current_b_integrator_q16 := 0, pl_current_a_reference_counts := 0,
       pl_current_b_reference_counts := 0\<rparr>)"

section \<open>The stationary step\<close>

definition controller_axis_step :: "i16 \<Rightarrow> i16 \<Rightarrow> i32 \<Rightarrow> i32 \<Rightarrow> int \<Rightarrow> i32 \<Rightarrow> i16 \<times> i32" where
  "controller_axis_step reference measured proportional_gain_q16 integral_gain_q16 output_limit_q16
       integrator_q16 =
     (let error = sint reference - sint measured;
          proportional = error * sint proportional_gain_q16;
          previous_integrator = sint integrator_q16;
          candidate_integrator = clamp_i64_to_i32
            (previous_integrator + error * sint integral_gain_q16) (- output_limit_q16)
            output_limit_q16;
          unconstrained = proportional + candidate_integrator;
          wound_up = (output_limit_q16 < unconstrained \<and> 0 < error) \<or>
            (unconstrained < - output_limit_q16 \<and> error < 0);
          candidate_integrator = (if wound_up then previous_integrator else candidate_integrator);
          unconstrained = (if wound_up then proportional + candidate_integrator else unconstrained);
          unconstrained = clamp_i64_to_i32 unconstrained (- output_limit_q16) output_limit_q16;
          unconstrained = (if 0 \<le> unconstrained then unconstrained + 32768 else unconstrained -
            32768)
      in (word_of_int (unconstrained sdiv 65536), word_of_int candidate_integrator))"

text \<open>The duty loop over the channels: it stops at the first value out of range.\<close>

fun fill_duties :: "int \<Rightarrow> int list \<Rightarrow> u16 list \<Rightarrow> bool \<times> u16 list" where
  "fill_duties maximum_active_duty (v # vs) (d # ds) =
     (if v < 0 \<or> maximum_active_duty < v then (False, d # ds)
      else (case fill_duties maximum_active_duty vs ds of (ok, ds) \<Rightarrow> (ok, word_of_int v # ds)))"
| "fill_duties maximum_active_duty vs ds = (True, ds)"

definition build_duties ::
  "i16 \<Rightarrow> i16 \<Rightarrow> phase_current_loop_config \<Rightarrow> phase_current_loop_output \<Rightarrow>
     bool \<times> phase_current_loop_output" where
  "build_duties command_a command_b config output =
     (let duty_values =
            [if sint command_a < 0 then - sint command_a else 0,
             if 0 < sint command_a then sint command_a else 0,
             if 0 < sint command_b then sint command_b else 0,
             if sint command_b < 0 then - sint command_b else 0];
          maximum_active_duty = 1000 - uint (lc_duty_margin_permille config)
      in case fill_duties maximum_active_duty duty_values (po_duty_permille output) of
           (ok, duties) \<Rightarrow> (ok, output\<lparr>po_duty_permille := duties\<rparr>))"

definition phase_current_loop_measure_prevalidated ::
  "phase_current_loop \<Rightarrow> phase_current_loop_config \<Rightarrow> u16 \<Rightarrow> u16 \<Rightarrow> phase_current_loop_output \<Rightarrow>
     bool \<times> phase_current_loop \<times> phase_current_loop_output" where
  "phase_current_loop_measure_prevalidated loop config current_a_raw current_b_raw output =
     (if ADC_SAMPLE_RAW_MAX < current_a_raw \<or> ADC_SAMPLE_RAW_MAX < current_b_raw then
        (False, latch_fault loop PHASE_CURRENT_LOOP_FAULT_INVALID_SAMPLE, output)
      else
        (let current_a_delta = uint current_a_raw - uint (lc_current_a_zero_raw config);
             current_b_delta = uint current_b_raw - uint (lc_current_b_zero_raw config);
             output = output\<lparr>
               po_current_a_measured_counts :=
                 word_of_int (current_a_delta * sint (lc_current_a_polarity config)),
               po_current_b_measured_counts :=
                 word_of_int (current_b_delta * sint (lc_current_b_polarity config))\<rparr>;
             loop = (if uint (lc_hard_current_limit_counts config) < \<bar>current_a_delta\<bar>
               then latch_fault loop PHASE_CURRENT_LOOP_FAULT_OVERCURRENT_A else loop);
             loop = (if uint (lc_hard_current_limit_counts config) < \<bar>current_b_delta\<bar>
               then latch_fault loop PHASE_CURRENT_LOOP_FAULT_OVERCURRENT_B else loop)
         in (pl_fault_flags loop = PHASE_CURRENT_LOOP_FAULT_NONE, loop, output)))"

definition publish_phase_voltage ::
  "phase_current_loop \<Rightarrow> phase_current_loop_config \<Rightarrow> i16 \<Rightarrow> i16 \<Rightarrow> phase_current_loop_output \<Rightarrow>
     bool \<times> phase_current_loop \<times> phase_current_loop_output" where
  "publish_phase_voltage loop config phase_a_voltage_permille phase_b_voltage_permille output =
     (let output = output\<lparr>po_phase_a_voltage_permille := phase_a_voltage_permille,
            po_phase_b_voltage_permille := phase_b_voltage_permille\<rparr>
      in case build_duties phase_a_voltage_permille phase_b_voltage_permille config output of
           (True, output) \<Rightarrow> (True, loop, output)
         | (False, output) \<Rightarrow>
             (False, latch_fault loop PHASE_CURRENT_LOOP_FAULT_INVALID_OUTPUT, zero_output))"

definition step_stationary ::
  "phase_current_loop \<Rightarrow> phase_current_loop_config \<Rightarrow> u16 \<Rightarrow> u16 \<Rightarrow>
     bool \<times> phase_current_loop \<times> phase_current_loop_output" where
  "step_stationary loop config current_a_raw current_b_raw =
     (if \<not> pl_initialized loop \<or> \<not> pl_running loop \<or>
         pl_fault_flags loop \<noteq> PHASE_CURRENT_LOOP_FAULT_NONE then (False, loop, zero_output)
      else
        (case phase_current_loop_measure_prevalidated loop config current_a_raw current_b_raw
                zero_output of
           (False, loop, output) \<Rightarrow> (False, loop, output)
         | (True, loop, output) \<Rightarrow>
             (let output_limit_q16 = uint (lc_phase_voltage_limit_permille config) * 65536;
                  (phase_a_voltage_permille, integrator_a) = controller_axis_step
                    (pl_current_a_reference_counts loop) (po_current_a_measured_counts output)
                    (lc_proportional_gain_q16_per_count config)
                    (lc_integral_gain_q16_per_count_per_step config) output_limit_q16
                    (pl_current_a_integrator_q16 loop);
                  (phase_b_voltage_permille, integrator_b) = controller_axis_step
                    (pl_current_b_reference_counts loop) (po_current_b_measured_counts output)
                    (lc_proportional_gain_q16_per_count config)
                    (lc_integral_gain_q16_per_count_per_step config) output_limit_q16
                    (pl_current_b_integrator_q16 loop)
              in publish_phase_voltage
                   (loop\<lparr>pl_current_a_integrator_q16 := integrator_a,
                      pl_current_b_integrator_q16 := integrator_b\<rparr>)
                   config phase_a_voltage_permille phase_b_voltage_permille output)))"

fun phase_current_loop_step_prevalidated ::
  "phase_current_loop ptr \<Rightarrow> phase_current_loop_config ptr \<Rightarrow> u16 \<Rightarrow> u16 \<Rightarrow>
     phase_current_loop_output ptr \<Rightarrow>
     bool \<times> phase_current_loop ptr \<times> phase_current_loop_output ptr" where
  "phase_current_loop_step_prevalidated (Some loop) (Some config) a_raw b_raw (Some output) =
     (case step_stationary loop config a_raw b_raw of (ok, loop, output) \<Rightarrow>
        (ok, Some loop, Some output))"
| "phase_current_loop_step_prevalidated loop config a_raw b_raw output =
     (False, loop, map_option (\<lambda>_. zero_output) output)"

definition phase_current_loop_step ::
  "phase_current_loop ptr \<Rightarrow> phase_current_loop_config ptr \<Rightarrow> u16 \<Rightarrow> u16 \<Rightarrow>
     phase_current_loop_output ptr \<Rightarrow>
     bool \<times> phase_current_loop ptr \<times> phase_current_loop_output ptr" where
  "phase_current_loop_step loop config a_raw b_raw output =
     (if \<not> phase_current_loop_config_is_valid config
      then (False, loop, map_option (\<lambda>_. zero_output) output)
      else phase_current_loop_step_prevalidated loop config a_raw b_raw
             (map_option (\<lambda>_. zero_output) output))"

section \<open>The rotating step\<close>

definition round_shift_q15 :: "int \<Rightarrow> int" where
  "round_shift_q15 value =
     (let magnitude = (if value < 0 then - value else value);
          magnitude = (magnitude + 16384) div 32768
      in if value < 0 then - magnitude else magnitude)"

definition park_current_counts :: "i16 \<Rightarrow> i16 \<Rightarrow> i16 \<Rightarrow> i16 \<Rightarrow> int \<times> int" where
  "park_current_counts current_a_counts current_b_counts sine_q15 cosine_q15 =
     (round_shift_q15 (sint current_a_counts * sint cosine_q15 + sint current_b_counts * sint
       sine_q15),
      round_shift_q15 (- sint current_a_counts * sint sine_q15
        + sint current_b_counts * sint cosine_q15))"

definition inverse_park_voltage_q16 :: "int \<Rightarrow> int \<Rightarrow> i16 \<Rightarrow> i16 \<Rightarrow> int \<times> int" where
  "inverse_park_voltage_q16 voltage_d_q16 voltage_q_q16 sine_q15 cosine_q15 =
     (round_shift_q15 (voltage_d_q16 * sint cosine_q15 - voltage_q_q16 * sint sine_q15),
      round_shift_q15 (voltage_d_q16 * sint sine_q15 + voltage_q_q16 * sint cosine_q15))"

definition controller_axis_candidate_integrator :: "int \<Rightarrow> i32 \<Rightarrow> int \<Rightarrow> i32 \<Rightarrow> int" where
  "controller_axis_candidate_integrator error_counts integral_gain_q16 output_limit_q16
       previous_integrator_q16 =
     clamp_i64_to_i32 (sint previous_integrator_q16 + error_counts * sint integral_gain_q16)
       (- output_limit_q16) output_limit_q16"

definition phase_voltage_peak_q16 :: "int \<times> int \<Rightarrow> int" where
  "phase_voltage_peak_q16 v =
     (let magnitude_a = \<bar>fst v\<bar>; magnitude_b = \<bar>snd v\<bar>
      in if magnitude_b < magnitude_a then magnitude_a else magnitude_b)"

definition calculate_rotating_phase_voltage_q16 ::
  "int \<Rightarrow> int \<Rightarrow> i32 \<Rightarrow> int \<Rightarrow> int \<Rightarrow> i16 \<Rightarrow> i16 \<Rightarrow> int \<times> int" where
  "calculate_rotating_phase_voltage_q16 error_d_counts error_q_counts proportional_gain_q16
       integrator_d_q16 integrator_q_q16 application_sine_q15 application_cosine_q15 =
     (let voltage_d_q16 = error_d_counts * sint proportional_gain_q16 + integrator_d_q16;
          voltage_q_q16 = error_q_counts * sint proportional_gain_q16 + integrator_q_q16
      in inverse_park_voltage_q16 voltage_d_q16 voltage_q_q16 application_sine_q15
           application_cosine_q15)"

text \<open>The restoring search over the bits \<open>1 << n\<close> down to 1.\<close>

fun scale_search :: "nat \<Rightarrow> u64 \<Rightarrow> u64 \<Rightarrow> u32 \<Rightarrow> u32" where
  "scale_search n peak scaled_limit scale_q15 =
     (let candidate = scale_q15 OR push_bit n 1;
          scale_q15 = (if peak * ucast candidate \<le> scaled_limit then candidate else scale_q15)
      in case n of 0 \<Rightarrow> scale_q15 | Suc m \<Rightarrow> scale_search m peak scaled_limit scale_q15)"

declare scale_search.simps [simp del]

definition phase_voltage_scale_q15 :: "int \<Rightarrow> int \<Rightarrow> u16" where
  "phase_voltage_scale_q15 peak_q16 limit_q16 =
     ucast (scale_search 14 (word_of_int peak_q16)
       (push_bit 15 (ucast (word_of_int limit_q16 :: u32))) 0)"

definition scale_signed_q15 :: "int \<Rightarrow> u16 \<Rightarrow> int" where
  "scale_signed_q15 value scale_q15 =
     (let magnitude = (if value < 0 then - value else value);
          magnitude = (magnitude * uint scale_q15) div 32768
      in if value < 0 then - magnitude else magnitude)"

definition round_q16_to_i16 :: "int \<Rightarrow> i16" where
  "round_q16_to_i16 value_q16 =
     (let magnitude = (if value_q16 < 0 then - value_q16 else value_q16);
          magnitude = (magnitude + 32768) div 65536
      in if value_q16 < 0 then word_of_int (- magnitude) else word_of_int magnitude)"

text \<open>The saturation of both phases by the scale of the larger one.\<close>

definition saturate_voltage :: "int \<Rightarrow> int \<times> int \<Rightarrow> int \<times> int" where
  "saturate_voltage output_limit_q16 voltage =
     (if output_limit_q16 < phase_voltage_peak_q16 voltage then
        (let scale_q15 = phase_voltage_scale_q15 (phase_voltage_peak_q16 voltage) output_limit_q16
         in (scale_signed_q15 (fst voltage) scale_q15, scale_signed_q15 (snd voltage) scale_q15))
      else voltage)"

text \<open>The voltage selection: candidate or previous integrators, then saturation.\<close>

definition rotating_voltage ::
  "phase_current_loop \<Rightarrow> phase_current_loop_config \<Rightarrow> int \<Rightarrow> int \<Rightarrow> i16 \<Rightarrow> i16 \<Rightarrow>
     phase_current_loop \<times> int \<times> int" where
  "rotating_voltage loop config error_d_counts error_q_counts application_sine_q15
       application_cosine_q15 =
     (let output_limit_q16 = uint (lc_phase_voltage_limit_permille config) * 65536;
          candidate_d = controller_axis_candidate_integrator error_d_counts
            (lc_integral_gain_q16_per_count_per_step config) output_limit_q16
            (pl_current_a_integrator_q16 loop);
          candidate_q = controller_axis_candidate_integrator error_q_counts
            (lc_integral_gain_q16_per_count_per_step config) output_limit_q16
            (pl_current_b_integrator_q16 loop);
          voltage = calculate_rotating_phase_voltage_q16 error_d_counts error_q_counts
            (lc_proportional_gain_q16_per_count config) candidate_d candidate_q
            application_sine_q15 application_cosine_q15;
          updated = loop\<lparr>pl_current_a_integrator_q16 := word_of_int candidate_d,
            pl_current_b_integrator_q16 := word_of_int candidate_q\<rparr>;
          (loop, voltage) =
            (if output_limit_q16 < phase_voltage_peak_q16 voltage then
               (let previous = calculate_rotating_phase_voltage_q16 error_d_counts error_q_counts
                      (lc_proportional_gain_q16_per_count config)
                      (sint (pl_current_a_integrator_q16 loop))
                      (sint (pl_current_b_integrator_q16 loop))
                      application_sine_q15 application_cosine_q15
                in if phase_voltage_peak_q16 previous \<le> phase_voltage_peak_q16 voltage
                   then (loop, previous) else (updated, voltage))
             else (updated, voltage))
      in (loop, saturate_voltage output_limit_q16 voltage))"

definition sin_cos :: "u32 \<Rightarrow> i16 \<times> i16" where
  "sin_cos phase =
     (case phase_current_reference_sin_cos_q15 phase (Some 0) (Some 0) of
        (ok, Some sine, Some cosine) \<Rightarrow> (sine, cosine) | _ \<Rightarrow> (0, 0))"

definition step_rotating ::
  "phase_current_loop \<Rightarrow> phase_current_loop_config \<Rightarrow> u16 \<Rightarrow> u16 \<Rightarrow> i16 \<Rightarrow> i16 \<Rightarrow> u32 \<Rightarrow> u32 \<Rightarrow>
     bool \<times> phase_current_loop \<times> phase_current_loop_output" where
  "step_rotating loop config current_a_raw current_b_raw current_d_reference_counts
       current_q_reference_counts sample_electrical_phase_q32 pwm_application_phase_q32 =
     (if \<not> pl_initialized loop \<or> \<not> pl_running loop \<or>
         pl_fault_flags loop \<noteq> PHASE_CURRENT_LOOP_FAULT_NONE then (False, loop, zero_output)
      else
        (case phase_current_loop_measure_prevalidated loop config current_a_raw current_b_raw
                zero_output of
           (False, loop, output) \<Rightarrow> (False, loop, output)
         | (True, loop, output) \<Rightarrow>
             if uint (lc_reference_limit_counts config) < \<bar>sint current_d_reference_counts\<bar> \<or>
                uint (lc_reference_limit_counts config) < \<bar>sint current_q_reference_counts\<bar> then
               (False, latch_fault loop PHASE_CURRENT_LOOP_FAULT_INVALID_REFERENCE, output)
             else
               (let loop = loop\<lparr>pl_current_a_reference_counts := current_d_reference_counts,
                      pl_current_b_reference_counts := current_q_reference_counts\<rparr>;
                    (sample_sine_q15, sample_cosine_q15) = sin_cos sample_electrical_phase_q32;
                    (application_sine_q15, application_cosine_q15) =
                    sin_cos pwm_application_phase_q32;
                    (current_d_measured, current_q_measured) = park_current_counts
                      (po_current_a_measured_counts output) (po_current_b_measured_counts output)
                      sample_sine_q15 sample_cosine_q15;
                    (loop, voltage_a_q16, voltage_b_q16) = rotating_voltage loop config
                      (sint current_d_reference_counts - current_d_measured)
                      (sint current_q_reference_counts - current_q_measured)
                      application_sine_q15 application_cosine_q15
                in publish_phase_voltage loop config (round_q16_to_i16 voltage_a_q16)
                     (round_q16_to_i16 voltage_b_q16) output)))"

fun phase_current_loop_step_rotating_prevalidated ::
  "phase_current_loop ptr \<Rightarrow> phase_current_loop_config ptr \<Rightarrow> u16 \<Rightarrow> u16 \<Rightarrow> i16 \<Rightarrow> i16 \<Rightarrow> u32 \<Rightarrow> u32 \<Rightarrow>
     phase_current_loop_output ptr \<Rightarrow>
     bool \<times> phase_current_loop ptr \<times> phase_current_loop_output ptr" where
  "phase_current_loop_step_rotating_prevalidated (Some loop) (Some config) a_raw b_raw d_ref q_ref
       sample_phase application_phase (Some output) =
     (case step_rotating loop config a_raw b_raw d_ref q_ref sample_phase application_phase of
        (ok, loop, output) \<Rightarrow> (ok, Some loop, Some output))"
| "phase_current_loop_step_rotating_prevalidated loop config a_raw b_raw d_ref q_ref sample_phase
       application_phase output = (False, loop, map_option (\<lambda>_. zero_output) output)"

section \<open>Ranges for a valid configuration\<close>

abbreviation voltage_limit :: "phase_current_loop_config \<Rightarrow> int" where
  "voltage_limit c \<equiv> uint (lc_phase_voltage_limit_permille c)"

abbreviation duty_limit :: "phase_current_loop_config \<Rightarrow> int" where
  "duty_limit c \<equiv> 1000 - uint (lc_duty_margin_permille c)"

lemma valid_loop_config:
  assumes "phase_current_loop_config_is_valid (Some c)"
  shows "0 < voltage_limit c" "voltage_limit c \<le> duty_limit c" "voltage_limit c \<le> 1000"
    "uint (lc_reference_limit_counts c) \<le> 4095"
    "0 \<le> sint (lc_proportional_gain_q16_per_count c)"
    "sint (lc_proportional_gain_q16_per_count c) \<le> 1048576"
    "0 \<le> sint (lc_integral_gain_q16_per_count_per_step c)"
    "sint (lc_integral_gain_q16_per_count_per_step c) \<le> 262144"
    "uint (lc_current_a_zero_raw c) \<le> 4095" "uint (lc_current_b_zero_raw c) \<le> 4095"
    "sint (lc_current_a_polarity c) \<in> {1, - 1}" "sint (lc_current_b_polarity c) \<in> {1, - 1}"
proof -
  have m: "uint (lc_duty_margin_permille c) < 1000"
    using assms by (simp add: Let_def word_less_def)
  then have "uint (1000 - ucast (lc_duty_margin_permille c) :: u32) = duty_limit c"
    by (simp add: uint_sub_if')
  moreover have "ucast (lc_phase_voltage_limit_permille c)
      \<le> (1000 - ucast (lc_duty_margin_permille c) :: u32)" using assms by (simp add: Let_def)
  ultimately show v: "voltage_limit c \<le> duty_limit c" by (simp add: word_le_def)
  then show "voltage_limit c \<le> 1000" by (rule order_trans) simp
  show "0 < voltage_limit c"
    using assms by (simp add: Let_def word_neq_0_conv word_less_def)
  show "uint (lc_reference_limit_counts c) \<le> 4095"
    using assms by (simp add: Let_def word_less_def word_le_def)
qed (use assms in \<open>simp_all add: Let_def word_le_def polarity_is_valid_def\<close>)

section \<open>Rounding and clamping\<close>

lemma clamp_bound: "0 \<le> l \<Longrightarrow> \<bar>clamp_i64_to_i32 x (- l) l\<bar> \<le> l"
  by (simp add: clamp_i64_to_i32_def) linarith

lemma rounded_bound: "0 \<le> v \<Longrightarrow> \<bar>u\<bar> \<le> v * 65536 \<Longrightarrow> (\<bar>u\<bar> + 32768) div 65536 \<le> (v :: int)"
  using zdiv_mono1 [of "\<bar>u\<bar> + 32768" "v * 65536 + 32768" 65536] by simp

lemma axis_step_bounded:
  assumes "controller_axis_step r m kp ki (v * 65536) i = (out, i')"
    and "0 \<le> v" "v \<le> 1000" "\<bar>sint i\<bar> \<le> v * 65536"
  shows "\<bar>sint out\<bar> \<le> v" "\<bar>sint i'\<bar> \<le> v * 65536"
proof -
  define e c where "e = sint r - sint m"
    and "c = clamp_i64_to_i32 (sint i + e * sint ki) (- (v * 65536)) (v * 65536)"
  have c: "\<bar>c\<bar> \<le> v * 65536" using assms(2) by (simp add: c_def clamp_bound)
  define p where "p = e * sint kp"
  define wound where "wound \<longleftrightarrow> (v * 65536 < p + c \<and> 0 < e) \<or> (p + c < - (v * 65536) \<and> e < 0)"
  define c' where "c' = (if wound then sint i else c)"
  define u where "u = clamp_i64_to_i32 (if wound then p + c' else p + c) (- (v * 65536))
    (v * 65536)"
  have "controller_axis_step r m kp ki (v * 65536) i
      = (word_of_int ((if 0 \<le> u then u + 32768 else u - 32768) sdiv 65536), word_of_int c')"
    by (simp only: controller_axis_step_def Let_def u_def c'_def wound_def p_def c_def e_def)
  then have i': "i' = word_of_int c'"
    and out: "out = word_of_int ((if 0 \<le> u then u + 32768 else u - 32768) sdiv 65536)"
    using assms(1) by simp_all
  have u: "\<bar>u\<bar> \<le> v * 65536" using assms(2) by (simp add: u_def clamp_bound)
  have "\<bar>c'\<bar> \<le> v * 65536" using c assms(4) by (simp add: c'_def)
  then show "\<bar>sint i'\<bar> \<le> v * 65536" using assms(3) unfolding i' by (subst sint_of_int32) simp_all
  define w where "w = (if 0 \<le> u then u + 32768 else u - 32768) sdiv 65536"
  have "\<bar>w\<bar> = (\<bar>u\<bar> + 32768) div 65536" by (simp add: w_def abs_sdiv)
  then have "\<bar>w\<bar> \<le> v" using rounded_bound [OF assms(2) u] by simp
  then show "\<bar>sint out\<bar> \<le> v"
    using assms(3) unfolding out w_def [symmetric] by (subst sint_of_int16) simp_all
qed

lemma round_q16_bounded:
  assumes "\<bar>u\<bar> \<le> v * 65536" "0 \<le> v" "v \<le> 1000"
  shows "\<bar>sint (round_q16_to_i16 u)\<bar> \<le> v"
proof -
  define w where "w = (\<bar>u\<bar> + 32768) div 65536"
  have w: "0 \<le> w" "w \<le> v" using rounded_bound [OF assms(2,1)] by (simp_all add: w_def)
  have "round_q16_to_i16 u = word_of_int (if u < 0 then - w else w)"
    by (simp add: round_q16_to_i16_def Let_def w_def)
  moreover have k: "\<bar>if u < 0 then - w else w\<bar> \<le> v" using w by simp
  moreover have "sint (word_of_int (if u < 0 then - w else w) :: i16) = (if u < 0 then - w else w)"
    using k assms(3) by (intro sint_of_int16) linarith+
  ultimately show ?thesis by simp
qed

section \<open>Duties\<close>

definition duties_match :: "i16 \<Rightarrow> i16 \<Rightarrow> u16 list \<Rightarrow> bool" where
  "duties_match a b ds \<longleftrightarrow>
     (\<exists>a1 a2 b1 b2. ds = [a1, a2, b1, b2] \<and> (a1 = 0 \<or> a2 = 0) \<and> (b1 = 0 \<or> b2 = 0) \<and>
        uint a2 - uint a1 = sint a \<and> uint b1 - uint b2 = sint b)"

lemma fill_duties_ok:
  "list_all (\<lambda>v. 0 \<le> v \<and> v \<le> m) vs \<Longrightarrow> length vs = length ds \<Longrightarrow>
     fill_duties m vs ds = (True, map word_of_int vs)"
  by (induction m vs ds rule: fill_duties.induct) auto

lemma build_duties_ok:
  assumes "length (po_duty_permille out) = 4"
    and "\<bar>sint a\<bar> \<le> duty_limit c" "\<bar>sint b\<bar> \<le> duty_limit c"
  shows "\<exists>ds. build_duties a b c out = (True, out\<lparr>po_duty_permille := ds\<rparr>) \<and> duties_match a b ds \<and>
           (\<forall>d\<in>set ds. uint d \<le> duty_limit c)"
proof -
  define a1 a2 b1 b2 where "a1 = (if sint a < 0 then - sint a else 0)"
    and "a2 = (if 0 < sint a then sint a else 0)" and "b1 = (if 0 < sint b then sint b else 0)"
    and "b2 = (if sint b < 0 then - sint b else 0)"
  note abs = a1_def a2_def b1_def b2_def
  let ?w = "\<lambda>x. word_of_int x :: u16"
  have lim: "0 \<le> a1 \<and> a1 \<le> duty_limit c" "0 \<le> a2 \<and> a2 \<le> duty_limit c"
    "0 \<le> b1 \<and> b1 \<le> duty_limit c" "0 \<le> b2 \<and> b2 \<le> duty_limit c"
    using assms(2,3) by (simp_all add: abs abs_if split: if_splits) linarith?
  have val: "a2 - a1 = sint a" "b1 - b2 = sint b" "a1 = 0 \<or> a2 = 0" "b1 = 0 \<or> b2 = 0"
    by (simp_all add: abs)
  have u: "uint (?w x) = x" if "0 \<le> x \<and> x \<le> duty_limit c" for x
  proof (rule uint_of_int16)
    have "duty_limit c \<le> 1000" by simp
    then show "x \<le> 65535" using that by linarith
  qed (rule that [THEN conjunct1])
  have "build_duties a b c out = (True, out\<lparr>po_duty_permille := map ?w [a1, a2, b1, b2]\<rparr>)"
    using fill_duties_ok [of "duty_limit c" "[a1, a2, b1, b2]" "po_duty_permille out"] assms(1) lim
    unfolding build_duties_def Let_def abs [symmetric] by simp
  moreover have "duties_match a b (map ?w [a1, a2, b1, b2])"
    using lim [THEN u] val by (auto simp: duties_match_def)
  moreover have "\<forall>d\<in>set (map ?w [a1, a2, b1, b2]). uint d \<le> duty_limit c"
    using lim lim [THEN u] by simp
  ultimately show ?thesis by blast
qed

text \<open>A published voltage within the limit never trips the output check.\<close>

lemma publish_ok:
  assumes "phase_current_loop_config_is_valid (Some c)" "length (po_duty_permille out) = 4"
    and "\<bar>sint a\<bar> \<le> voltage_limit c" "\<bar>sint b\<bar> \<le> voltage_limit c"
  shows "\<exists>ds. publish_phase_voltage l c a b out = (True, l, out\<lparr>po_phase_a_voltage_permille := a,
            po_phase_b_voltage_permille := b, po_duty_permille := ds\<rparr>) \<and> duties_match a b ds \<and>
           (\<forall>d\<in>set ds. uint d \<le> duty_limit c)"
proof -
  have "\<bar>sint a\<bar> \<le> duty_limit c" "\<bar>sint b\<bar> \<le> duty_limit c"
    using valid_loop_config(2) [OF assms(1)] assms(3,4) by linarith+
  from build_duties_ok [OF _ this, of "out\<lparr>po_phase_a_voltage_permille := a,
      po_phase_b_voltage_permille := b\<rparr>"] assms(2) show ?thesis
    by (auto simp: publish_phase_voltage_def Let_def)
qed

section \<open>The restoring search\<close>

lemma search_candidate:
  assumes "2 ^ (n + 1) dvd unat (s :: u32)" "unat s + 2 ^ n < 2 ^ 32" "n < 32"
  shows "unat (s OR push_bit n 1) = unat s + 2 ^ n"
proof -
  from assms(1) obtain k where k: "unat s = 2 ^ n * (2 * k)" by (auto elim!: dvdE)
  have "bit s n = bit (unat s) n" using assms(3) by (simp add: bit_unsigned_iff)
  also have "\<dots> = odd (unat s div 2 ^ n)" by (rule bit_iff_odd)
  finally have "\<not> bit s n" by (simp add: k)
  then have d: "s AND push_bit n 1 = 0"
    using assms(3) by (intro bit_word_eqI) (auto simp: bit_simps)
  have "unat (push_bit n 1 :: u32) = 2 ^ n" using assms(3) by (subst unsigned_push_bit_eq)
    (simp add: take_bit_push_bit)
  with d assms(2) show ?thesis by (simp add: unat_or_disjoint)
qed

lemma unat_search_product:
  assumes "unat (p :: u64) < 2 ^ 48" "unat (c :: u32) < 2 ^ 15"
  shows "unat (p * ucast c) = unat p * unat c"
proof -
  have c: "unat (ucast c :: u64) = unat c"
    using unsigned_less [of c, where ?'a =
      nat] by (simp add: unsigned_ucast_eq take_bit_nat_eq_self)
  have "unat p * unat c < 2 ^ 48 * 2 ^ 15" using assms by (intro mult_strict_mono) simp_all
  then show ?thesis unfolding unat_mult_lem [THEN iffD1, symmetric] by (simp add: unat_word_ariths
    c)
qed

lemma scale_search_floor:
  assumes "2 ^ (n + 1) dvd unat s" "unat s + 2 ^ (n + 1) \<le> 2 ^ 15" "unat p < 2 ^ 48"
    and "unat p * unat s \<le> unat L" "unat L < unat p * (unat s + 2 ^ (n + 1))"
  shows "unat p * unat (scale_search n p L s) \<le> unat L \<and>
         unat L < unat p * (unat (scale_search n p L s) + 1) \<and> unat (scale_search n p L s) < 2 ^ 15"
  using assms
proof (induction n arbitrary: s)
  case (0 s)
  have c: "unat (s OR push_bit 0 1) = unat s + 1" using search_candidate [of 0 s] 0 by simp
  with 0 unat_search_product [of p "s OR push_bit 0 1"] show ?case
    by (simp add: scale_search.simps [of 0] Let_def word_le_nat_alt)
next
  case (Suc n s)
  have dvd: "2 ^ (Suc n + 1) dvd unat s" and fit: "unat s + 2 ^ (Suc n + 1)
    \<le> 2 ^ 15" using Suc.prems by simp_all
  have pow: "(2 :: nat) ^ (Suc n + 1) = 2 ^ Suc n + 2 ^ Suc n" by simp
  have "(2 :: nat) ^ (Suc n + 1) \<le> 2 ^ 15" using fit by linarith
  then have n: "Suc n < 32" by (subst (asm) power_increasing_iff) simp_all
  let ?c = "s OR push_bit (Suc n) 1"
  have c: "unat ?c = unat s + 2 ^ Suc n"
    using search_candidate [OF dvd _ n] fit pow by simp
  have "0 < (2 :: nat) ^ Suc n" by simp
  then have "unat ?c < 2 ^ 15" using fit unfolding c pow by linarith
  then have pc: "unat (p * ucast ?c) = unat p * unat ?c"
    by (rule unat_search_product [OF Suc.prems(3)])
  define t where "t = (if p * ucast ?c \<le> L then ?c else s)"
  have dvd': "2 ^ (n + 1) dvd unat s" by (rule dvd_trans [OF le_imp_power_dvd dvd]) simp
  have step: "scale_search (Suc n) p L s = scale_search n p L t"
    unfolding t_def by (simp only: scale_search.simps [of "Suc n"] Let_def nat.case)
  consider "unat t = unat s + 2 ^ Suc n" "unat p * unat t \<le> unat L"
    | "t = s" "unat L < unat p * (unat s + 2 ^ Suc n)"
  proof (cases "p * ucast ?c \<le> L")
    case True
    then have "t = ?c" by (simp only: t_def if_True)
    moreover have "unat p * unat ?c \<le> unat L" using True pc by (simp only: word_le_nat_alt)
    ultimately show thesis using that(1) c by simp
  next
    case False
    then have "t = s" by (simp only: t_def if_False)
    moreover have "unat L < unat p * unat ?c" using False pc by (simp only: word_le_nat_alt not_le)
    ultimately show thesis using that(2) c by simp
  qed
  then show ?case
  proof cases
    case 1
    have "2 ^ (n + 1) dvd unat t" unfolding 1(1) using dvd' by (simp only: dvd_add_right_iff
      Suc_eq_plus1 dvd_refl)
    with 1 Suc.prems(3,5) fit pow show ?thesis unfolding step by (intro Suc.IH)
      (simp_all only: Suc_eq_plus1 add.assoc)
  next
    case 2
    with dvd' Suc.prems(3,4) fit pow show ?thesis unfolding step by (intro Suc.IH) simp_all
  qed
qed


text \<open>Used as the code uses it, the search is the truncated quotient, without overflow.\<close>

lemma scale_exact:
  assumes "0 < limit" "limit < peak" "limit < 2 ^ 31" "peak < 2 ^ 48"
  shows "uint (phase_voltage_scale_q15 peak limit) = limit * 32768 div peak"
proof -
  define p L where "p = (word_of_int peak :: u64)"
    and "L = (push_bit 15 (ucast (word_of_int limit :: u32)) :: u64)"
  define s where "s = scale_search 14 p L 0"
  have up: "uint p = peak" using assms by (simp add: p_def uint_word_of_int take_bit_int_eq_self)
  have ul: "uint (word_of_int limit :: u32) = limit" using assms by (intro uint_of_int32) simp_all
  have "uint (ucast (word_of_int limit :: u32) :: u64) = limit"
    using assms by (simp add: unsigned_ucast_eq ul take_bit_int_eq_self)
  then have "uint L = take_bit 64 (limit * 32768)"
    unfolding L_def by (subst unsigned_push_bit_eq) (simp add: push_bit_eq_mult)
  then have uL: "uint L = limit * 32768" using assms by (simp add: take_bit_int_eq_self)
  have n: "int (unat p) = peak" "int (unat L) = limit * 32768" using up uL by simp_all
  have "int (unat p) < int 281474976710656" "int (unat L) < int (unat p * 32768)"
    using assms unfolding of_nat_mult n by simp_all
  then have pre: "unat p < 281474976710656" "unat L < unat p * 32768"
    by (simp_all only: of_nat_less_iff)
  have "unat p * unat s \<le> unat L \<and> unat L < unat p * (unat s + 1) \<and> unat s < 2 ^ 15"
    unfolding s_def using pre by (intro scale_search_floor) simp_all
  then have "int (unat p * unat s) \<le> int (unat L)" "int (unat L) < int (unat p * (unat s + 1))"
    and lt: "unat s < 2 ^ 15" by (simp_all only: of_nat_le_iff of_nat_less_iff)
  then have "int (unat s) * peak \<le> limit * 32768" "limit * 32768 < (int (unat s) + 1) * peak"
    using n by (simp_all add: algebra_simps)
  then have "limit * 32768 div peak = int (unat s)" 
    by (intro int_div_pos_eq [where r = "limit * 32768 - int (unat s) * peak"])
      (simp_all add: algebra_simps)
  moreover have "take_bit 16 (unat s) = unat s" using lt by (simp add: take_bit_nat_eq_self)
  then have "unat (ucast s :: u16) = unat s" by (simp add: unsigned_ucast_eq)
  then have "uint (ucast s :: u16) = int (unat s)"
    by (metis uint_nat)
  ultimately show ?thesis by (simp add: phase_voltage_scale_q15_def s_def p_def L_def)
qed

lemma scaled_within_limit:
  assumes "0 < limit" "limit < peak" "limit < 2 ^ 31" "peak < 2 ^ 48" "\<bar>v\<bar> \<le> peak"
  shows "\<bar>scale_signed_q15 v (phase_voltage_scale_q15 peak limit)\<bar> \<le> limit"
proof -
  let ?s = "limit * 32768 div peak"
  have s0: "0 \<le> ?s" using assms by (simp add: pos_imp_zdiv_nonneg_iff)
  have "\<bar>v\<bar> * ?s \<le> ?s * peak" using mult_right_mono [OF assms(5) s0] by (simp add: mult.commute)
  also have "\<dots> \<le> limit * 32768" using assms by (intro div_mult_bounds(1)) simp
  finally have "(\<bar>v\<bar> * ?s) div 32768 \<le> limit" using zdiv_mono1 [of "\<bar>v\<bar> * ?s" "limit * 32768" 32768]
    by simp
  moreover have "0 \<le> (\<bar>v\<bar> * ?s) div 32768" using s0 by (simp add: pos_imp_zdiv_nonneg_iff)
  moreover have "\<bar>scale_signed_q15 v (phase_voltage_scale_q15 peak limit)\<bar> = \<bar>(\<bar>v\<bar> * ?s) div 32768\<bar>"
    by (simp add: scale_signed_q15_def Let_def scale_exact [OF assms(1-4)] abs_if)
  ultimately show ?thesis by simp
qed

section \<open>Transforms\<close>

lemma round_shift_bound:
  assumes "\<bar>x\<bar> \<le> m * 32768"
  shows "\<bar>round_shift_q15 x\<bar> \<le> m"
proof -
  have "\<bar>round_shift_q15 x\<bar> = (\<bar>x\<bar> + 16384) div 32768"
    by (simp add: round_shift_q15_def Let_def)
  also have "\<dots> \<le> (m * 32768 + 16384) div 32768" using assms by (intro zdiv_mono1) simp_all
  finally show ?thesis by simp
qed

lemma q15_product_bound:
  assumes "\<bar>p\<bar> \<le> m" "\<bar>s\<bar> \<le> (32767 :: int)"
  shows "\<bar>p * s\<bar> \<le> m * 32768"
  using mult_mono [of "\<bar>p\<bar>" m "\<bar>s\<bar>" 32768] assms by (simp add: abs_mult)

lemma park_bounded:
  assumes "\<bar>sint a\<bar> \<le> m" "\<bar>sint b\<bar> \<le> m" "\<bar>sint s\<bar> \<le> 32767" "\<bar>sint c\<bar> \<le> 32767"
  shows "\<bar>fst (park_current_counts a b s c)\<bar> \<le> 2 * m" "\<bar>snd (park_current_counts a b s c)\<bar> \<le> 2 * m"
  using q15_product_bound [OF assms(1,4)] q15_product_bound [OF assms(2,3)]
    q15_product_bound [OF assms(1,3)] q15_product_bound [OF assms(2,4)]
  unfolding park_current_counts_def fst_conv snd_conv by (intro round_shift_bound; linarith)+

lemma inverse_park_bounded:
  assumes "\<bar>d\<bar> \<le> m" "\<bar>q\<bar> \<le> m" "\<bar>sint s\<bar> \<le> 32767" "\<bar>sint c\<bar> \<le> 32767"
  shows "\<bar>fst (inverse_park_voltage_q16 d q s c)\<bar> \<le> 2 * m" "\<bar>snd (inverse_park_voltage_q16 d q s c)\<bar>
    \<le> 2 * m"
  using q15_product_bound [OF assms(1,4)] q15_product_bound [OF assms(2,3)]
    q15_product_bound [OF assms(1,3)] q15_product_bound [OF assms(2,4)]
  unfolding inverse_park_voltage_q16_def fst_conv snd_conv by (intro round_shift_bound; linarith)+

lemma peak_bounds: "\<bar>fst v\<bar> \<le> phase_voltage_peak_q16 v" "\<bar>snd v\<bar> \<le> phase_voltage_peak_q16 v"
  by (simp_all add: phase_voltage_peak_q16_def Let_def)

lemma peak_less: "\<bar>fst v\<bar> < m \<Longrightarrow> \<bar>snd v\<bar> < m \<Longrightarrow> phase_voltage_peak_q16 v < m"
  by (simp add: phase_voltage_peak_q16_def Let_def)

text \<open>Currents are 12-bit counts, so errors, voltages and products fit their types with room.\<close>

lemma rotating_peak_bounded:
  assumes "\<bar>ed\<bar> \<le> 12285" "\<bar>eq\<bar> \<le> 12285" "0 \<le> sint kp" "sint kp \<le> 1048576"
    and "\<bar>i\<bar> \<le> 65536000" "\<bar>j\<bar> \<le> 65536000" "\<bar>sint s\<bar> \<le> 32767" "\<bar>sint c\<bar> \<le> 32767"
  shows "phase_voltage_peak_q16 (calculate_rotating_phase_voltage_q16 ed eq kp i j s c) < 2 ^ 36"
proof -
  have "\<bar>ed * sint kp\<bar> \<le> 12285 * 1048576" "\<bar>eq * sint kp\<bar> \<le> 12285 * 1048576"
    using assms mult_mono [of "\<bar>ed\<bar>" 12285 "sint kp" 1048576]
      mult_mono [of "\<bar>eq\<bar>" 12285 "sint kp" 1048576] by (simp_all add: abs_mult)
  then have "\<bar>ed * sint kp + i\<bar> \<le> 17179869184" "\<bar>eq * sint kp + j\<bar> \<le> 17179869184"
    using assms(5,6) by linarith+
  from inverse_park_bounded [OF this assms(7,8)] show ?thesis
    unfolding calculate_rotating_phase_voltage_q16_def Let_def by (intro peak_less) simp_all
qed

section \<open>The regulator's invariant\<close>

definition integrators_ok :: "phase_current_loop_config \<Rightarrow> phase_current_loop \<Rightarrow> bool" where
  "integrators_ok c l \<longleftrightarrow> \<bar>sint (pl_current_a_integrator_q16 l)\<bar> \<le> voltage_limit c * 65536 \<and>
     \<bar>sint (pl_current_b_integrator_q16 l)\<bar> \<le> voltage_limit c * 65536"

lemma integrators_zero:
  "integrators_ok c (l\<lparr>pl_current_a_integrator_q16 := 0, pl_current_b_integrator_q16 := 0\<rparr>)"
  by (simp add: integrators_ok_def)

lemma latch_fault_effect:
  "integrators_ok c (latch_fault l f)" "\<not> pl_running (latch_fault l f)"
  "pl_fault_flags (latch_fault l f) = pl_fault_flags l OR f"
  "pl_initialized (latch_fault l f) = pl_initialized l"
  by (simp_all add: integrators_ok_def latch_fault_def)

lemma candidate_bounded:
  assumes "0 \<le> v" "v \<le> (1000 :: int)"
  shows "\<bar>controller_axis_candidate_integrator e ki (v * 65536) i\<bar> \<le> v * 65536"
    "\<bar>sint (word_of_int (controller_axis_candidate_integrator e ki (v * 65536) i)
      :: i32)\<bar> \<le> v * 65536"
proof -
  let ?c = "controller_axis_candidate_integrator e ki (v * 65536) i"
  show b: "\<bar>?c\<bar> \<le> v * 65536"
    using assms(1) by (simp add: controller_axis_candidate_integrator_def clamp_bound)
  then have "sint (word_of_int ?c :: i32) = ?c" using assms by (intro sint_of_int32) linarith+
  with b show "\<bar>sint (word_of_int ?c :: i32)\<bar> \<le> v * 65536" by simp
qed

lemma saturate_bounded:
  assumes "0 < limit" "limit < 2 ^ 31" "phase_voltage_peak_q16 v < 2 ^ 48"
  shows "\<bar>fst (saturate_voltage limit v)\<bar> \<le> limit" "\<bar>snd (saturate_voltage limit v)\<bar> \<le> limit"
  using assms peak_bounds [of v] by (auto simp: saturate_voltage_def Let_def intro!:
    scaled_within_limit)

lemma rotating_voltage_cases:
  fixes l c ed eq s k
  defines "kp \<equiv> lc_proportional_gain_q16_per_count c" and "ki \<equiv>
    lc_integral_gain_q16_per_count_per_step c"
    and "lim \<equiv> voltage_limit c * 65536"
  defines "i \<equiv> controller_axis_candidate_integrator ed ki lim (pl_current_a_integrator_q16 l)"
    and "j \<equiv> controller_axis_candidate_integrator eq ki lim (pl_current_b_integrator_q16 l)"
  shows "rotating_voltage l c ed eq s k =
       (l, saturate_voltage lim (calculate_rotating_phase_voltage_q16 ed eq kp
          (sint (pl_current_a_integrator_q16 l)) (sint (pl_current_b_integrator_q16 l)) s k)) \<or>
     rotating_voltage l c ed eq s k =
       (l\<lparr>pl_current_a_integrator_q16 := word_of_int i, pl_current_b_integrator_q16 :=
         word_of_int j\<rparr>,
        saturate_voltage lim (calculate_rotating_phase_voltage_q16 ed eq kp i j s k))"
  unfolding assms rotating_voltage_def Let_def by simp

lemma rotating_voltage_ok:
  assumes "phase_current_loop_config_is_valid (Some c)"
    and "integrators_ok c l" "\<bar>ed\<bar> \<le> 12285" "\<bar>eq\<bar> \<le> 12285" "\<bar>sint s\<bar> \<le> 32767" "\<bar>sint k\<bar> \<le> 32767"
  shows "\<exists>i j x y. rotating_voltage l c ed eq s k =
      (l\<lparr>pl_current_a_integrator_q16 := i, pl_current_b_integrator_q16 := j\<rparr>, x, y) \<and>
      \<bar>x\<bar> \<le> voltage_limit c * 65536 \<and> \<bar>y\<bar> \<le> voltage_limit c * 65536 \<and>
      \<bar>sint i\<bar> \<le> voltage_limit c * 65536 \<and> \<bar>sint j\<bar> \<le> voltage_limit c * 65536"
proof -
  note vc = valid_loop_config [OF assms(1)]
  let ?lim = "voltage_limit c * 65536"
  let ?volt = "\<lambda>i j. calculate_rotating_phase_voltage_q16 ed eq (lc_proportional_gain_q16_per_count
    c) i j s k"
  have sat: "\<bar>fst (saturate_voltage ?lim (?volt i j))\<bar> \<le> ?lim \<and> \<bar>snd (saturate_voltage ?lim (?volt i
    j))\<bar> \<le> ?lim"
    if "\<bar>i\<bar> \<le> ?lim" "\<bar>j\<bar> \<le> ?lim" for i j
  proof -
    have "\<bar>i\<bar> \<le> 65536000" "\<bar>j\<bar> \<le> 65536000" using that vc(3) by linarith+
    then have "phase_voltage_peak_q16 (?volt i j) < 2 ^ 36"
      using assms vc by (intro rotating_peak_bounded)
    then have "phase_voltage_peak_q16 (?volt i j) < 2 ^ 48" by simp
    then show ?thesis using vc(1,3) by (intro conjI saturate_bounded) simp_all
  qed
  have cand: "\<bar>controller_axis_candidate_integrator e ki ?lim i\<bar> \<le> ?lim"
    "\<bar>sint (word_of_int (controller_axis_candidate_integrator e ki ?lim i)
      :: i32)\<bar> \<le> ?lim" for e ki i
    using vc(3) by (simp_all add: candidate_bounded)
  have old: "\<bar>sint (pl_current_a_integrator_q16 l)\<bar> \<le> ?lim" "\<bar>sint (pl_current_b_integrator_q16 l)\<bar>
    \<le> ?lim"
    using assms(2) by (simp_all add: integrators_ok_def)
  have same: "l = l\<lparr>pl_current_a_integrator_q16 := pl_current_a_integrator_q16 l,
      pl_current_b_integrator_q16 := pl_current_b_integrator_q16 l\<rparr>" by simp
  from rotating_voltage_cases [of l c ed eq s k] show ?thesis
  proof
    assume "rotating_voltage l c ed eq s k = (l, saturate_voltage ?lim
      (?volt (sint (pl_current_a_integrator_q16 l)) (sint (pl_current_b_integrator_q16 l))))"
    with same sat [OF old] old show ?thesis by (metis prod.collapse)
  next
    assume "rotating_voltage l c ed eq s k = (l\<lparr>pl_current_a_integrator_q16 := word_of_int
          (controller_axis_candidate_integrator ed (lc_integral_gain_q16_per_count_per_step c) ?lim
            (pl_current_a_integrator_q16 l)),
        pl_current_b_integrator_q16 := word_of_int
          (controller_axis_candidate_integrator eq (lc_integral_gain_q16_per_count_per_step c) ?lim
            (pl_current_b_integrator_q16 l))\<rparr>,
        saturate_voltage ?lim (?volt
          (controller_axis_candidate_integrator ed (lc_integral_gain_q16_per_count_per_step c) ?lim
            (pl_current_a_integrator_q16 l))
          (controller_axis_candidate_integrator eq (lc_integral_gain_q16_per_count_per_step c) ?lim
            (pl_current_b_integrator_q16 l))))"
    with sat [OF cand(1) cand(1)] cand(2) show ?thesis by (metis prod.collapse)
  qed
qed

section \<open>Samples\<close>

definition sample_ok :: "phase_current_loop_config \<Rightarrow> u16 \<Rightarrow> u16 \<Rightarrow> bool" where
  "sample_ok c a b \<longleftrightarrow> a \<le> 4095 \<and> b \<le> 4095 \<and>
     \<bar>uint a - uint (lc_current_a_zero_raw c)\<bar> \<le> uint (lc_hard_current_limit_counts c) \<and>
     \<bar>uint b - uint (lc_current_b_zero_raw c)\<bar> \<le> uint (lc_hard_current_limit_counts c)"

definition idle_output :: "phase_current_loop_output \<Rightarrow> bool" where
  "idle_output out \<longleftrightarrow> po_duty_permille out = [0, 0, 0, 0] \<and> po_phase_a_voltage_permille out = 0 \<and>
     po_phase_b_voltage_permille out = 0"

definition fault_latched :: "phase_current_loop \<Rightarrow> bool" where
  "fault_latched l \<longleftrightarrow> pl_fault_flags l \<noteq> PHASE_CURRENT_LOOP_FAULT_NONE \<and> \<not> pl_running l"

lemmas fault_bits = PHASE_CURRENT_LOOP_FAULT_NONE_def PHASE_CURRENT_LOOP_FAULT_INVALID_SAMPLE_def
  PHASE_CURRENT_LOOP_FAULT_OVERCURRENT_A_def PHASE_CURRENT_LOOP_FAULT_OVERCURRENT_B_def
  PHASE_CURRENT_LOOP_FAULT_INVALID_REFERENCE_def PHASE_CURRENT_LOOP_FAULT_INVALID_OUTPUT_def

lemma latch_fault_latches: "f \<noteq> 0 \<Longrightarrow> fault_latched (latch_fault l f)"
  by (simp add: fault_latched_def latch_fault_def fault_bits or_eq_0_iff)

lemma zero_output_idle: "idle_output zero_output"
  by (simp add: idle_output_def zero_output_def)

lemma measured_bound:
  assumes "uint (r :: u16) \<le> 4095" "uint (z :: u16) \<le> 4095" "sint (p :: i8) \<in> {1, - 1}"
  shows "\<bar>sint (word_of_int ((uint r - uint z) * sint p) :: i16)\<bar> \<le> 4095"
proof -
  have "\<bar>uint r - uint z\<bar> \<le> 4095" using assms(1,2) uint16_range [of r] uint16_range [of z] by
    linarith
  then have b: "\<bar>(uint r - uint z) * sint p\<bar> \<le> 4095" using assms(3) by (auto simp: abs_mult)
  then show ?thesis by (subst sint_of_int16) linarith+
qed

lemma measure_rejects:
  assumes "\<not> sample_ok c a b" "phase_current_loop_measure_prevalidated l c a b zero_output = (ok,
    l', out)"
  shows "\<not> ok" "fault_latched l'" "idle_output out" "integrators_ok c l'" "pl_initialized l' =
    pl_initialized l"
    "pl_current_a_reference_counts l' = pl_current_a_reference_counts l"
    "pl_current_b_reference_counts l' = pl_current_b_reference_counts l"
  using assms
  by (auto simp: phase_current_loop_measure_prevalidated_def Let_def sample_ok_def idle_output_def
    zero_output_def
      fault_latched_def latch_fault_def fault_bits or_eq_0_iff integrators_ok_def not_le split:
        if_splits)

lemma measure_accepts:
  assumes "phase_current_loop_config_is_valid (Some c)" "sample_ok c a b"
    "pl_fault_flags l = PHASE_CURRENT_LOOP_FAULT_NONE"
  obtains out where "phase_current_loop_measure_prevalidated l c a b zero_output = (True, l, out)"
    and "length (po_duty_permille out) = 4" "idle_output out"
    and "\<bar>sint (po_current_a_measured_counts out)\<bar> \<le> 4095" "\<bar>sint (po_current_b_measured_counts
      out)\<bar> \<le> 4095"
proof -
  note vc = valid_loop_config [OF assms(1)]
  have "uint a \<le> 4095" "uint b \<le> 4095" using assms(2) by (simp_all add: sample_ok_def word_le_def)
  note m = measured_bound [OF this(1) vc(9,11)] measured_bound [OF this(2) vc(10,12)]
  show thesis
    by (rule that [of "zero_output\<lparr>
          po_current_a_measured_counts := word_of_int ((uint a - uint (lc_current_a_zero_raw c))
            * sint (lc_current_a_polarity c)),
          po_current_b_measured_counts := word_of_int ((uint b - uint (lc_current_b_zero_raw c))
            * sint (lc_current_b_polarity c))\<rparr>"])
      (use assms(2,3) m in \<open>simp_all add: phase_current_loop_measure_prevalidated_def Let_def
        sample_ok_def not_less zero_output_def idle_output_def\<close>)
qed

section \<open>The result of a step\<close>

fun safe_result :: "phase_current_loop_config \<Rightarrow> bool \<times> phase_current_loop \<times>
  phase_current_loop_output \<Rightarrow> bool" where
  "safe_result c (ok, l, out) \<longleftrightarrow>
     (if ok then
        \<bar>sint (po_phase_a_voltage_permille out)\<bar> \<le> voltage_limit c \<and>
        \<bar>sint (po_phase_b_voltage_permille out)\<bar> \<le> voltage_limit c \<and>
        duties_match (po_phase_a_voltage_permille out) (po_phase_b_voltage_permille out)
          (po_duty_permille out) \<and>
        (\<forall>d\<in>set (po_duty_permille out). uint d \<le> duty_limit c)
      else idle_output out)"

definition loop_ok :: "phase_current_loop_config \<Rightarrow> phase_current_loop \<Rightarrow> bool" where
  "loop_ok c l \<longleftrightarrow> pl_initialized l \<and> integrators_ok c l \<and>
     (pl_running l \<longrightarrow> pl_fault_flags l = PHASE_CURRENT_LOOP_FAULT_NONE) \<and>
     \<bar>sint (pl_current_a_reference_counts l)\<bar> \<le> uint (lc_reference_limit_counts c) \<and>
     \<bar>sint (pl_current_b_reference_counts l)\<bar> \<le> uint (lc_reference_limit_counts c)"

lemma publish_safe:
  assumes "phase_current_loop_config_is_valid (Some c)" "length (po_duty_permille out) = 4"
    and "\<bar>sint a\<bar> \<le> voltage_limit c" "\<bar>sint b\<bar> \<le> voltage_limit c"
  shows "\<exists>out'. publish_phase_voltage l c a b out = (True, l, out') \<and> safe_result c (True, l, out')"
  using publish_ok [OF assms, of l] assms(3,4) by auto

lemma stationary_accepts:
  assumes "phase_current_loop_config_is_valid (Some c)" "loop_ok c l" "pl_running l" "sample_ok c a
    b"
  shows "\<exists>l' out. step_stationary l c a b = (True, l', out) \<and> safe_result c (True, l', out) \<and>
    loop_ok c l' \<and> pl_running l'"
proof -
  note vc = valid_loop_config [OF assms(1)]
  have run: "pl_initialized l" "pl_fault_flags l = PHASE_CURRENT_LOOP_FAULT_NONE" "integrators_ok c
    l"
    using assms(2,3) by (simp_all add: loop_ok_def)
  obtain out where out: "phase_current_loop_measure_prevalidated l c a b zero_output = (True, l,
    out)"
    "length (po_duty_permille out) = 4" using measure_accepts [OF assms(1,4) run(2)] by metis
  let ?axis = "\<lambda>r m i. controller_axis_step r m (lc_proportional_gain_q16_per_count c)
      (lc_integral_gain_q16_per_count_per_step c) (voltage_limit c * 65536) i"
  obtain va ia where a: "?axis (pl_current_a_reference_counts l) (po_current_a_measured_counts out)
      (pl_current_a_integrator_q16 l) = (va, ia)" by fastforce
  obtain vb ib where b: "?axis (pl_current_b_reference_counts l) (po_current_b_measured_counts out)
      (pl_current_b_integrator_q16 l) = (vb, ib)" by fastforce
  have ba: "\<bar>sint va\<bar> \<le> voltage_limit c" "\<bar>sint ia\<bar> \<le> voltage_limit c * 65536"
    using axis_step_bounded [OF a] vc(3) run(3) by (simp_all add: integrators_ok_def)
  have bb: "\<bar>sint vb\<bar> \<le> voltage_limit c" "\<bar>sint ib\<bar> \<le> voltage_limit c * 65536"
    using axis_step_bounded [OF b] vc(3) run(3) by (simp_all add: integrators_ok_def)
  let ?l = "l\<lparr>pl_current_a_integrator_q16 := ia, pl_current_b_integrator_q16 := ib\<rparr>"
  have "step_stationary l c a b = publish_phase_voltage ?l c va vb out"
    using run assms(3) by (simp add: step_stationary_def out(1) a b)
  moreover have "loop_ok c ?l" "pl_running ?l"
    using assms(2,3) ba(2) bb(2) by (simp_all add: loop_ok_def integrators_ok_def)
  ultimately show ?thesis using publish_safe [OF assms(1) out(2) ba(1) bb(1), of ?l] by fastforce
qed

lemma sin_cos_bound: "\<bar>sint (fst (sin_cos p))\<bar> \<le> 32767" "\<bar>sint (snd (sin_cos p))\<bar> \<le> 32767"
  using sine_bound unat_index unat_and_31 uint_fraction by (simp_all add: sin_cos_def Let_def)

lemma rotating_accepts:
  assumes "phase_current_loop_config_is_valid (Some c)" "loop_ok c l" "pl_running l" "sample_ok c a
    b"
    and "\<bar>sint d\<bar> \<le> uint (lc_reference_limit_counts c)" "\<bar>sint q\<bar> \<le> uint (lc_reference_limit_counts
      c)"
  shows "\<exists>l' out. step_rotating l c a b d q p p' = (True, l', out) \<and> safe_result c (True, l', out) \<and>
    loop_ok c l' \<and> pl_running l'"
proof -
  note vc = valid_loop_config [OF assms(1)]
  have run: "pl_initialized l" "pl_fault_flags l = PHASE_CURRENT_LOOP_FAULT_NONE" "integrators_ok c
    l"
    using assms(2,3) by (simp_all add: loop_ok_def)
  obtain out where out: "phase_current_loop_measure_prevalidated l c a b zero_output = (True, l,
    out)"
    "length (po_duty_permille out) = 4" "\<bar>sint (po_current_a_measured_counts out)\<bar> \<le> 4095"
    "\<bar>sint (po_current_b_measured_counts out)\<bar> \<le> 4095" using measure_accepts [OF assms(1,4)
      run(2)] by metis
  obtain s k where sk: "sin_cos p = (s, k)" by fastforce
  obtain s' k' where sk': "sin_cos p' = (s', k')" by fastforce
  obtain md mq where park: "park_current_counts (po_current_a_measured_counts out)
      (po_current_b_measured_counts out) s k = (md, mq)" by fastforce
  have bs: "\<bar>sint s\<bar> \<le> 32767" "\<bar>sint k\<bar> \<le> 32767" "\<bar>sint s'\<bar> \<le> 32767" "\<bar>sint k'\<bar> \<le> 32767"
    using sin_cos_bound [of p] sin_cos_bound [of p'] sk sk' by simp_all
  have "\<bar>md\<bar> \<le> 8190" "\<bar>mq\<bar> \<le> 8190" using park_bounded [OF out(3,4) bs(1,2)] park by simp_all
  then have e: "\<bar>sint d - md\<bar> \<le> 12285" "\<bar>sint q - mq\<bar> \<le> 12285" using assms(5,6) vc(4) by linarith+
  let ?l = "l\<lparr>pl_current_a_reference_counts := d, pl_current_b_reference_counts := q\<rparr>"
  have "integrators_ok c ?l" using run(3) by (simp add: integrators_ok_def)
  from rotating_voltage_ok [OF assms(1) this e bs(3,4)] obtain i j x y where
    r: "rotating_voltage ?l c (sint d - md) (sint q - mq) s' k' =
        (?l\<lparr>pl_current_a_integrator_q16 := i, pl_current_b_integrator_q16 := j\<rparr>, x, y)"
    "\<bar>x\<bar> \<le> voltage_limit c * 65536" "\<bar>y\<bar> \<le> voltage_limit c * 65536"
    "\<bar>sint i\<bar> \<le> voltage_limit c * 65536" "\<bar>sint j\<bar> \<le> voltage_limit c * 65536" by blast
  let ?m = "?l\<lparr>pl_current_a_integrator_q16 := i, pl_current_b_integrator_q16 := j\<rparr>"
  have "\<not> uint (lc_reference_limit_counts c) < \<bar>sint d\<bar>" "\<not> uint (lc_reference_limit_counts c)
    < \<bar>sint q\<bar>"
    using assms(5,6) by linarith+
  then have "step_rotating l c a b d q p p' =
      publish_phase_voltage ?m c (round_q16_to_i16 x) (round_q16_to_i16 y) out"
    using run assms(3) r(1) by (simp add: step_rotating_def out(1) sk sk' park)
  moreover have "loop_ok c ?m" "pl_running ?m"
    using assms r(4,5) by (simp_all add: loop_ok_def integrators_ok_def)
  moreover have "\<bar>sint (round_q16_to_i16 x)\<bar> \<le> voltage_limit c" "\<bar>sint (round_q16_to_i16 y)\<bar> \<le>
    voltage_limit c"
    using round_q16_bounded r(2,3) vc(1,3) by simp_all
  ultimately show ?thesis using publish_safe [OF assms(1) out(2), of _ _ ?m] by fastforce
qed

lemma stationary_rejects:
  assumes "loop_ok c l" "\<not> pl_running l \<or> \<not> sample_ok c a b" "step_stationary l c a b = (ok, l',
    out)"
  shows "\<not> ok" "idle_output out" "loop_ok c l'" "pl_running l \<longrightarrow> fault_latched l'" "\<not> pl_running l \<longrightarrow>
    l' = l"
proof -
  obtain ok1 l1 out1 where m: "phase_current_loop_measure_prevalidated l c a b zero_output = (ok1,
    l1, out1)"
    by (metis prod_cases3)
  have "\<not> ok \<and> idle_output out \<and> loop_ok c l' \<and> (pl_running l \<longrightarrow> fault_latched l') \<and>
    (\<not> pl_running l \<longrightarrow> l' = l)"
  proof (cases "pl_running l")
    case True
    then have "\<not> sample_ok c a b" using assms(2) by simp
    note r = measure_rejects [OF this m]
    have "(ok, l', out) = (False, l1, out1)"
      using assms(1,3) True r(1) by (simp add: step_stationary_def m loop_ok_def)
    then show ?thesis using r assms(1) True by (simp add: loop_ok_def fault_latched_def)
  next
    case False
    then show ?thesis using assms(1,3) by (simp add: step_stationary_def zero_output_idle)
  qed
  then show "\<not> ok" "idle_output out" "loop_ok c l'" "pl_running l \<longrightarrow> fault_latched l'" "\<not> pl_running
    l \<longrightarrow> l' = l"
    by simp_all
qed

lemma rotating_rejects:
  assumes "phase_current_loop_config_is_valid (Some c)" "loop_ok c l"
    "\<not> (pl_running l \<and> sample_ok c a b \<and> \<bar>sint d\<bar> \<le> uint (lc_reference_limit_counts c) \<and>
        \<bar>sint q\<bar> \<le> uint (lc_reference_limit_counts c))"
    "step_rotating l c a b d q p p' = (ok, l', out)"
  shows "\<not> ok" "idle_output out" "loop_ok c l'" "pl_running l \<longrightarrow> fault_latched l'" "\<not> pl_running l \<longrightarrow>
    l' = l"
proof -
  obtain ok1 l1 out1 where m: "phase_current_loop_measure_prevalidated l c a b zero_output = (ok1,
    l1, out1)"
    by (metis prod_cases3)
  have "\<not> ok \<and> idle_output out \<and> loop_ok c l' \<and> (pl_running l \<longrightarrow> fault_latched l') \<and>
    (\<not> pl_running l \<longrightarrow> l' = l)"
  proof (cases "pl_running l")
    case run: True
    have ini: "pl_initialized l" "pl_fault_flags l = PHASE_CURRENT_LOOP_FAULT_NONE"
      using assms(2) run by (simp_all add: loop_ok_def)
    show ?thesis
    proof (cases "sample_ok c a b")
      case False
      note r = measure_rejects [OF this m]
      have "(ok, l', out) = (False, l1, out1)"
        using assms(4) run r(1) ini by (simp add: step_rotating_def m)
      then show ?thesis using r assms(2) run by (simp add: loop_ok_def fault_latched_def)
    next
      case True
      then have "ok1 \<and> l1 = l \<and> idle_output out1"
        using measure_accepts [OF assms(1) True ini(2)] m by (metis prod.inject)
      moreover have "uint (lc_reference_limit_counts c) < \<bar>sint d\<bar> \<or> uint (lc_reference_limit_counts
        c) < \<bar>sint q\<bar>"
        using assms(3) run True by linarith
      ultimately have "(ok, l', out) = (False,
        latch_fault l PHASE_CURRENT_LOOP_FAULT_INVALID_REFERENCE, out1)"
        using assms(4) run ini m by (simp add: step_rotating_def)
      moreover have "fault_latched (latch_fault l PHASE_CURRENT_LOOP_FAULT_INVALID_REFERENCE)"
        by (rule latch_fault_latches) (simp add: fault_bits)
      moreover have "loop_ok c (latch_fault l f)" for f
        using assms(2) by (simp add: loop_ok_def latch_fault_effect) (simp add: latch_fault_def)
      ultimately show ?thesis using run \<open>ok1 \<and> l1 = l \<and> idle_output out1\<close> by simp
    qed
  next
    case False
    then show ?thesis using assms(2,4) by (simp add: step_rotating_def zero_output_idle)
  qed
  then show "\<not> ok" "idle_output out" "loop_ok c l'" "pl_running l \<longrightarrow> fault_latched l'" "\<not> pl_running
    l \<longrightarrow> l' = l"
    by simp_all
qed

section \<open>Any sequence of calls\<close>

text \<open>
  The calls of the regulator from one initialisation to the next: whatever the backend calls it with
  in between, the measurement without a step included. A new initialisation starts a new sequence.
\<close>

datatype loop_call =
  Loop_Set_Reference i16 i16
| Loop_Start
| Loop_Stop
| Loop_Step u16 u16
| Loop_Step_Rotating u16 u16 i16 i16 u32 u32
| Loop_Measure u16 u16

fun call_loop :: "phase_current_loop_config \<Rightarrow> phase_current_loop \<Rightarrow> loop_call \<Rightarrow>
  phase_current_loop" where
  "call_loop c l (Loop_Set_Reference a b) =
     the (snd (phase_current_loop_set_reference_counts_prevalidated (Some l) (Some c) a b))"
| "call_loop c l Loop_Start = the (snd (phase_current_loop_start (Some l)))"
| "call_loop c l Loop_Stop = the (phase_current_loop_stop (Some l))"
| "call_loop c l (Loop_Step a b) =
     the (fst (snd (phase_current_loop_step_prevalidated (Some l) (Some c)
       a b (Some zero_output))))"
| "call_loop c l (Loop_Step_Rotating a b d q p p') =
     the (fst (snd (phase_current_loop_step_rotating_prevalidated (Some l) (Some c) a b d q p p'
       (Some zero_output))))"
| "call_loop c l (Loop_Measure a b) =
     fst (snd (phase_current_loop_measure_prevalidated l c a b zero_output))"

lemma call_loop_step [simp]: "call_loop c l (Loop_Step a b) = fst (snd (step_stationary l c a b))"
  by (simp split: prod.split)

lemma call_loop_rotating [simp]:
  "call_loop c l (Loop_Step_Rotating a b d q p p') = fst (snd (step_rotating l c a b d q p p'))"
  by (simp split: prod.split)

declare call_loop.simps(4,5) [simp del]

lemma stationary_keeps:
  assumes "phase_current_loop_config_is_valid (Some c)" "loop_ok c l"
  shows "loop_ok c (fst (snd (step_stationary l c a b)))"
  using stationary_accepts [OF assms, of a b] stationary_rejects(3) [OF assms(2), of a b]
  by (metis fst_conv prod_cases3 snd_conv)

lemma rotating_keeps:
  assumes "phase_current_loop_config_is_valid (Some c)" "loop_ok c l"
  shows "loop_ok c (fst (snd (step_rotating l c a b d q p p')))"
  using rotating_accepts [OF assms, of a b d q p p'] rotating_rejects(3) [OF assms, of a b d q p p']
  by (metis fst_conv prod_cases3 snd_conv)

lemma call_loop_keeps:
  assumes "phase_current_loop_config_is_valid (Some c)" "loop_ok c l"
  shows "loop_ok c (call_loop c l e)"
proof (cases e)
  case (Loop_Set_Reference a b)
  then show ?thesis
    using assms(2) by (auto simp: loop_ok_def latch_fault_effect integrators_ok_def not_less
      latch_fault_def)
next
  case Loop_Start
  then show ?thesis using assms(2) by (auto simp: loop_ok_def integrators_ok_def)
next
  case Loop_Stop
  then show ?thesis using assms(2) by (auto simp: loop_ok_def integrators_ok_def)
next
  case (Loop_Measure a b)
  then show ?thesis using assms(2)
    by (auto simp: phase_current_loop_measure_prevalidated_def Let_def loop_ok_def
      integrators_ok_def
        latch_fault_def)
qed (simp_all add: stationary_keeps [OF assms] rotating_keeps [OF assms])

interpretation regulator: invariant_machine "call_loop c"
    "\<lambda>l. phase_current_loop_config_is_valid (Some c) \<longrightarrow> loop_ok c l" for c
  by unfold_locales (blast intro: call_loop_keeps)

lemma fault_is_final: "fault_latched l \<Longrightarrow> fault_latched (call_loop c l e)"
  by (cases e) (auto simp: fault_latched_def step_stationary_def step_rotating_def
      phase_current_loop_measure_prevalidated_def latch_fault_def Let_def fault_bits or_eq_0_iff
      split: if_splits)

interpretation regulator_fault: latching_machine "call_loop c" fault_latched "\<lambda>_. False" for c
  by unfold_locales (rule fault_is_final)

lemma initialised_ok:
  "phase_current_loop_init (Some l) (Some c) = (True, Some l0) \<Longrightarrow> loop_ok c l0"
  by (auto simp: loop_ok_def integrators_ok_def empty_loop_def split: if_splits)

lemma reachable_ok:
  assumes "phase_current_loop_init (Some l) (Some c) = (True, Some l0)"
  shows "phase_current_loop_config_is_valid (Some c)" "loop_ok c (foldl (call_loop c) l0 es)"
proof -
  show v: "phase_current_loop_config_is_valid (Some c)" using assms by (simp del:
    phase_current_loop_config_is_valid.simps split: if_splits)
  show "loop_ok c (foldl (call_loop c) l0 es)"
    using regulator.run_inv [of c l0 es] initialised_ok [OF assms] v by simp
qed

text \<open>
  C10. From initialisation on, whatever calls came before, a rotating step succeeds exactly when
  the regulator runs, the samples are plausible and within the hard limit, and the references are
  within theirs. Then both phase voltages are within the configured limit and the four duties
  realise them: one leg of each bridge is at zero, the other carries the magnitude, none above the
  permitted duty. Otherwise all duties are zero and a running regulator has latched a fault.
\<close>

theorem rotating_step_safe:
  assumes "phase_current_loop_init (Some l) (Some c) = (True, Some l0)"
    and "phase_current_loop_step_rotating_prevalidated (Some (foldl (call_loop c) l0 es)) (Some c)
          a b d q p p' (Some out0) = (ok, Some l', Some out)"
  shows "(ok \<longleftrightarrow> pl_running (foldl (call_loop c) l0 es) \<and> sample_ok c a b \<and>
            \<bar>sint d\<bar> \<le> uint (lc_reference_limit_counts c) \<and>
            \<bar>sint q\<bar> \<le> uint (lc_reference_limit_counts c)) \<and>
         safe_result c (ok, l', out) \<and>
         (pl_running (foldl (call_loop c) l0 es) \<longrightarrow> (if ok then pl_running l' else fault_latched
           l'))"
proof -
  note v = reachable_ok(1) [OF assms(1)] and inv = reachable_ok(2) [OF assms(1), of es]
  have st: "step_rotating (foldl (call_loop c) l0 es) c a b d q p p' = (ok, l', out)"
    using assms(2) by (simp split: prod.splits)
  show ?thesis
    using rotating_accepts [OF v inv, of a b d q p p'] rotating_rejects [OF v inv _ st] st
    by (cases ok) (auto simp del: phase_current_loop_config_is_valid.simps)
qed

text \<open>
  The same for the stationary step, with the references set by the earlier calls.
\<close>

theorem stationary_step_safe:
  assumes "phase_current_loop_init (Some l) (Some c) = (True, Some l0)"
    and "phase_current_loop_step (Some (foldl (call_loop c) l0 es)) (Some c) a b (Some out0)
          = (ok, Some l', Some out)"
  shows "(ok \<longleftrightarrow> pl_running (foldl (call_loop c) l0 es) \<and> sample_ok c a b) \<and>
         safe_result c (ok, l', out) \<and>
         (pl_running (foldl (call_loop c) l0 es) \<longrightarrow> (if ok then pl_running l' else fault_latched
           l'))"
proof -
  note v = reachable_ok(1) [OF assms(1)] and inv = reachable_ok(2) [OF assms(1), of es]
  have st: "step_stationary (foldl (call_loop c) l0 es) c a b = (ok, l', out)"
    using assms(2) v by (simp add: phase_current_loop_step_def del:
      phase_current_loop_config_is_valid.simps split: prod.splits)
  show ?thesis
    using stationary_accepts [OF v inv, of a b] stationary_rejects [OF inv _ st] st
    by (cases ok) (auto simp del: phase_current_loop_config_is_valid.simps)
qed

text \<open>
  C11. A sample beyond the hard current limit, on either phase, in either kind of step, ends the
  drive: that step commands zero duties, and so does every later step, whatever calls come
  between; only a new initialisation clears the fault.
\<close>

theorem overcurrent_ends_drive:
  assumes "phase_current_loop_init (Some l) (Some c) = (True, Some l0)"
    and "\<not> sample_ok c a b" "pl_running (foldl (call_loop c) l0 es)"
    and "e = Loop_Step a b \<or> e = Loop_Step_Rotating a b d q p p'"
  shows "\<forall>fs a b d q p p'. (case step_rotating (foldl (call_loop c) l0 (es @ e # fs))
    c a b d q p p' of
            (ok, l', out) \<Rightarrow> \<not> ok \<and> idle_output out \<and> l' = foldl (call_loop c) l0 (es @ e # fs)) \<and>
         (case step_stationary (foldl (call_loop c) l0 (es @ e # fs)) c a b of
            (ok, l', out) \<Rightarrow> \<not> ok \<and> idle_output out \<and> l' = foldl (call_loop c) l0 (es @ e # fs))"
proof -
  note v = reachable_ok(1) [OF assms(1)] and inv = reachable_ok(2) [OF assms(1), of es]
  have "fault_latched (call_loop c (foldl (call_loop c) l0 es) e)"
    using assms(2,3,4) stationary_rejects(4) [OF inv, of a b] rotating_rejects(4) [OF v inv,
      of a b d q p p']
    by (metis fst_conv call_loop_rotating call_loop_step prod_cases3 snd_conv)
  then have "fault_latched (foldl (call_loop c) l0 (es @ e # fs))" for fs
    using regulator_fault.latched_run [where es = fs] by (simp add: list_all_iff)
  then show ?thesis
    by (auto simp: fault_latched_def step_rotating_def step_stationary_def zero_output_idle)
qed

section \<open>A concrete configuration\<close>

definition demo_loop_config :: phase_current_loop_config where
  "demo_loop_config = \<lparr>lc_current_a_zero_raw = 2048, lc_current_b_zero_raw = 2050,
     lc_reference_limit_counts = 400, lc_hard_current_limit_counts = 500,
     lc_proportional_gain_q16_per_count = 65536, lc_integral_gain_q16_per_count_per_step = 6553,
     lc_phase_voltage_limit_permille = 500, lc_duty_margin_permille = 50,
     lc_current_a_polarity = 1, lc_current_b_polarity = 255\<rparr>"

lemma demo_loop_start:
  "phase_current_loop_init (Some empty_loop) (Some demo_loop_config) =
     (True, Some (empty_loop\<lparr>pl_initialized := True\<rparr>))"
  "pl_running (foldl (call_loop demo_loop_config) (empty_loop\<lparr>pl_initialized := True\<rparr>)
    [Loop_Start])"
  by (simp_all add: demo_loop_config_def empty_loop_def polarity_is_valid_def fault_bits)

lemma demo_samples:
  "sample_ok demo_loop_config 2100 2000" "\<not> sample_ok demo_loop_config 2100 3000"
  by (simp_all add: sample_ok_def demo_loop_config_def)

lemma step_has_result:
  "\<exists>ok l' out. phase_current_loop_step_rotating_prevalidated (Some l) (Some c)
    a b d q p p' (Some out0)
     = (ok, Some l', Some out)"
  "\<exists>ok l' out. phase_current_loop_step (Some l) (Some c) a b (Some out0) = (ok, Some l', Some out)"
  by (cases "step_rotating l c a b d q p p'", simp)
    (cases "step_stationary l c a b", auto simp: phase_current_loop_step_def
      simp del: phase_current_loop_config_is_valid.simps)

theorem rotating_step_safe_witness:
  "\<exists>l' out. phase_current_loop_step_rotating_prevalidated
       (Some (foldl (call_loop demo_loop_config) (empty_loop\<lparr>pl_initialized := True\<rparr>) [Loop_Start]))
       (Some demo_loop_config) 2100 2000 100 (- 50) 0 12345 (Some zero_output) = (True, Some l',
         Some out) \<and>
     safe_result demo_loop_config (True, l', out)"
proof -
  obtain ok l' out where st: "phase_current_loop_step_rotating_prevalidated
       (Some (foldl (call_loop demo_loop_config) (empty_loop\<lparr>pl_initialized := True\<rparr>) [Loop_Start]))
       (Some demo_loop_config) 2100 2000 100 (- 50) 0 12345 (Some zero_output) = (ok, Some l',
         Some out)"
    using step_has_result(1) by metis
  have ok: "ok = True" using rotating_step_safe [OF demo_loop_start(1) st] demo_loop_start(2)
    demo_samples(1)
    by (simp add: demo_loop_config_def)
  show ?thesis
    using rotating_step_safe [OF demo_loop_start(1) st] st unfolding ok by blast
qed

theorem stationary_step_safe_witness:
  "\<exists>l' out. phase_current_loop_step
       (Some (foldl (call_loop demo_loop_config) (empty_loop\<lparr>pl_initialized := True\<rparr>) [Loop_Start]))
       (Some demo_loop_config) 2100 2000 (Some zero_output) = (True, Some l', Some out) \<and>
     safe_result demo_loop_config (True, l', out)"
proof -
  obtain ok l' out where st: "phase_current_loop_step
       (Some (foldl (call_loop demo_loop_config) (empty_loop\<lparr>pl_initialized := True\<rparr>) [Loop_Start]))
       (Some demo_loop_config) 2100 2000 (Some zero_output) = (ok, Some l', Some out)"
    using step_has_result(2) by metis
  have ok: "ok = True" using stationary_step_safe [OF demo_loop_start(1) st] demo_loop_start(2)
    demo_samples(1) by simp
  show ?thesis
    using stationary_step_safe [OF demo_loop_start(1) st] st unfolding ok by blast
qed

theorem overcurrent_ends_drive_witness:
  "case step_stationary (foldl (call_loop demo_loop_config) (empty_loop\<lparr>pl_initialized := True\<rparr>)
       ([Loop_Start] @ Loop_Step 2100 3000 # [Loop_Stop, Loop_Start])) demo_loop_config 2100 2000 of
     (ok, l', out) \<Rightarrow> \<not> ok \<and> idle_output out \<and>
       l' = foldl (call_loop demo_loop_config) (empty_loop\<lparr>pl_initialized := True\<rparr>)
         ([Loop_Start] @ Loop_Step 2100 3000 # [Loop_Stop, Loop_Start])"
  by (rule overcurrent_ends_drive [OF demo_loop_start(1) demo_samples(2) demo_loop_start(2)
    disjI1 [OF refl],
      THEN spec, THEN spec, THEN spec, THEN spec, THEN spec, THEN spec, THEN spec, THEN conjunct2])

text \<open>
  C28. Where saturation calls it, the division-free restoring search returns exactly the truncated
  quotient of the limit and the peak in Q1.15, with no overflow of its 64-bit products.
\<close>

theorem restoring_search_exact:
  assumes "0 < limit" "limit < peak" "limit < 2 ^ 31" "peak < 2 ^ 48"
  shows "uint (phase_voltage_scale_q15 peak limit) = limit * 32768 div peak"
  using assms by (rule scale_exact)

theorem restoring_search_exact_witness:
  "uint (phase_voltage_scale_q15 65536005 42598400) = 21299"
  using restoring_search_exact [of 42598400 65536005] by simp

end
