(* ===== verification/Motor_Alignment.thy ===== *)
theory Motor_Alignment
  imports Prelude
begin

text \<open>
  The rotor alignment, \<open>firmware/src/control/motor_alignment.c\<close>: from two encoder readings taken
  a quarter electrical cycle apart it derives where electrical zero is and which way the encoder
  counts, keeps that calibration, restores a stored one, and maps an encoder reading to a Q32
  electrical phase. \<open>uint32_t\<close> expressions are 32-bit words; the signed and 64-bit ones are
  integers. The lemmas show that no intermediate product wraps for a valid configuration, that a
  calibration survives being stored and restored, and that the phase is exact to one unit of Q32.
\<close>

section \<open>Data and operations\<close>

record motor_alignment_config =
  mc_encoder_counts_per_revolution :: u16
  mc_electrical_cycles_per_revolution :: u16
  mc_maximum_quarter_step_error_counts :: u16

record motor_alignment_status =
  ms_electrical_zero_raw :: u16
  ms_observed_quarter_step_counts :: u16
  ms_quarter_step_error_counts :: i16
  ms_encoder_direction :: i8
  ms_valid :: bool

record motor_alignment =
  ma_config :: motor_alignment_config
  ma_status :: motor_alignment_status
  ma_initialized :: bool

definition empty_alignment_status :: motor_alignment_status where
  "empty_alignment_status = \<lparr>ms_electrical_zero_raw = 0, ms_observed_quarter_step_counts = 0,
     ms_quarter_step_error_counts = 0, ms_encoder_direction = 0, ms_valid = False\<rparr>"

definition wrapped_delta :: "u16 \<Rightarrow> u16 \<Rightarrow> u16 \<Rightarrow> int" where
  "wrapped_delta from to counts_per_revolution =
     (let delta = uint to - uint from;
          half_revolution = uint counts_per_revolution div 2
      in if half_revolution < delta then delta - uint counts_per_revolution
         else if delta < - half_revolution then delta + uint counts_per_revolution
         else delta)"

fun motor_alignment_config_is_valid :: "motor_alignment_config ptr \<Rightarrow> bool" where
  "motor_alignment_config_is_valid None = False"
| "motor_alignment_config_is_valid (Some config) =
     (if mc_encoder_counts_per_revolution config < 8 \<or>
         mc_electrical_cycles_per_revolution config = 0 \<or>
         mc_maximum_quarter_step_error_counts config = 0 then False
      else (ucast (mc_electrical_cycles_per_revolution config) * 4 :: u32)
           \<le> ucast (mc_encoder_counts_per_revolution config) div 2)"

fun motor_alignment_init ::
  "motor_alignment ptr \<Rightarrow> motor_alignment_config ptr \<Rightarrow> bool \<times> motor_alignment ptr" where
  "motor_alignment_init (Some alignment) (Some config) =
     (if \<not> motor_alignment_config_is_valid (Some config) then (False, Some alignment)
      else (True, Some (alignment\<lparr>ma_config := config, ma_status := empty_alignment_status,
              ma_initialized := True\<rparr>)))"
| "motor_alignment_init alignment config = (False, alignment)"

text \<open>The body of the calibration after its argument checks: the new status, if accepted.\<close>

definition calibration_result :: "motor_alignment_config \<Rightarrow> u16 \<Rightarrow> u16 \<Rightarrow> motor_alignment_status option" where
  "calibration_result config phase_zero_raw phase_quarter_raw =
     (let counts = ucast (mc_encoder_counts_per_revolution config) :: u32;
          delta = wrapped_delta phase_zero_raw phase_quarter_raw (mc_encoder_counts_per_revolution config)
      in if delta = 0 then None
         else
           (let magnitude = word_of_int (if delta < 0 then - delta else delta) :: u32;
                denominator = ucast (mc_electrical_cycles_per_revolution config) * 4 :: u32;
                expected_rounded = (counts + denominator div 2) div denominator;
                scaled_error =
                  (if counts < magnitude * denominator then magnitude * denominator - counts
                   else counts - magnitude * denominator);
                allowed_scaled_error =
                  ucast (mc_maximum_quarter_step_error_counts config) * denominator
            in if allowed_scaled_error < scaled_error then None
               else
                 (let quarter_step_error = sint magnitude - sint expected_rounded
                  in if quarter_step_error < - 32768 \<or> 32767 < quarter_step_error then None
                     else
                       Some \<lparr>ms_electrical_zero_raw = phase_zero_raw,
                         ms_observed_quarter_step_counts = ucast magnitude,
                         ms_quarter_step_error_counts = word_of_int quarter_step_error,
                         ms_encoder_direction = word_of_int (if 0 < delta then 1 else - 1),
                         ms_valid = True\<rparr>)))"

fun motor_alignment_calibrate ::
  "motor_alignment ptr \<Rightarrow> u16 \<Rightarrow> u16 \<Rightarrow> bool \<times> motor_alignment ptr" where
  "motor_alignment_calibrate None phase_zero_raw phase_quarter_raw = (False, None)"
| "motor_alignment_calibrate (Some alignment) phase_zero_raw phase_quarter_raw =
     (if \<not> ma_initialized alignment \<or>
         mc_encoder_counts_per_revolution (ma_config alignment) \<le> phase_zero_raw \<or>
         mc_encoder_counts_per_revolution (ma_config alignment) \<le> phase_quarter_raw then
        (False, Some alignment)
      else
        (case calibration_result (ma_config alignment) phase_zero_raw phase_quarter_raw of
           None \<Rightarrow> (False, Some alignment)
         | Some status \<Rightarrow> (True, Some (alignment\<lparr>ma_status := status\<rparr>))))"

definition restored_quarter_raw :: "motor_alignment_config \<Rightarrow> motor_alignment_status \<Rightarrow> u16" where
  "restored_quarter_raw config status =
     (let counts = ucast (mc_encoder_counts_per_revolution config) :: u32;
          step = ucast (ms_observed_quarter_step_counts status) :: u32
      in ucast ((ucast (ms_electrical_zero_raw status) +
                 (if 0 < sint (ms_encoder_direction status) then step else counts - step))
                mod counts))"

fun motor_alignment_restore ::
  "motor_alignment ptr \<Rightarrow> motor_alignment_status ptr \<Rightarrow> bool \<times> motor_alignment ptr" where
  "motor_alignment_restore (Some alignment) (Some status) =
     (if \<not> ma_initialized alignment \<or> \<not> ms_valid status \<or>
         (sint (ms_encoder_direction status) \<noteq> 1 \<and> sint (ms_encoder_direction status) \<noteq> - 1) \<or>
         mc_encoder_counts_per_revolution (ma_config alignment) \<le> ms_electrical_zero_raw status \<or>
         ms_observed_quarter_step_counts status = 0 \<or>
         mc_encoder_counts_per_revolution (ma_config alignment) div 2
           \<le> ms_observed_quarter_step_counts status then (False, Some alignment)
      else
        (case motor_alignment_calibrate (Some alignment) (ms_electrical_zero_raw status)
                (restored_quarter_raw (ma_config alignment) status) of
           (True, Some candidate) \<Rightarrow>
             (if ms_observed_quarter_step_counts (ma_status candidate)
                   \<noteq> ms_observed_quarter_step_counts status \<or>
                 ms_quarter_step_error_counts (ma_status candidate)
                   \<noteq> ms_quarter_step_error_counts status \<or>
                 ms_encoder_direction (ma_status candidate) \<noteq> ms_encoder_direction status then
                (False, Some alignment)
              else (True, Some (alignment\<lparr>ma_status := ma_status candidate\<rparr>)))
         | _ \<Rightarrow> (False, Some alignment)))"
| "motor_alignment_restore alignment status = (False, alignment)"

fun motor_alignment_clear :: "motor_alignment ptr \<Rightarrow> motor_alignment ptr" where
  "motor_alignment_clear None = None"
| "motor_alignment_clear (Some alignment) = Some (alignment\<lparr>ma_status := empty_alignment_status\<rparr>)"

definition alignment_phase_q32 :: "motor_alignment \<Rightarrow> u16 \<Rightarrow> u32" where
  "alignment_phase_q32 alignment encoder_raw =
     (let counts = uint (mc_encoder_counts_per_revolution (ma_config alignment));
          phase_numerator = (uint encoder_raw - uint (ms_electrical_zero_raw (ma_status alignment)))
            * sint (ms_encoder_direction (ma_status alignment))
            * uint (mc_electrical_cycles_per_revolution (ma_config alignment));
          phase_remainder = phase_numerator smod counts;
          phase_remainder = (if phase_remainder < 0 then phase_remainder + counts else phase_remainder)
      in word_of_int ((phase_remainder * 2 ^ 32) div counts))"

fun motor_alignment_electrical_phase_q32 ::
  "motor_alignment ptr \<Rightarrow> u16 \<Rightarrow> u32 ptr \<Rightarrow> bool \<times> u32 ptr" where
  "motor_alignment_electrical_phase_q32 (Some alignment) encoder_raw (Some phase) =
     (if \<not> ma_initialized alignment \<or> \<not> ms_valid (ma_status alignment) \<or>
         mc_encoder_counts_per_revolution (ma_config alignment) \<le> encoder_raw \<or>
         (sint (ms_encoder_direction (ma_status alignment)) \<noteq> 1 \<and>
          sint (ms_encoder_direction (ma_status alignment)) \<noteq> - 1) then (False, Some phase)
      else (True, Some (alignment_phase_q32 alignment encoder_raw)))"
| "motor_alignment_electrical_phase_q32 alignment encoder_raw phase = (False, phase)"

fun motor_alignment_get_status ::
  "motor_alignment ptr \<Rightarrow> motor_alignment_status ptr \<Rightarrow> motor_alignment_status ptr" where
  "motor_alignment_get_status alignment None = None"
| "motor_alignment_get_status None (Some status) = Some empty_alignment_status"
| "motor_alignment_get_status (Some alignment) (Some status) =
     Some (if ma_initialized alignment then ma_status alignment else empty_alignment_status)"

section \<open>Ranges\<close>

abbreviation counts_of :: "motor_alignment_config \<Rightarrow> int" where
  "counts_of c \<equiv> uint (mc_encoder_counts_per_revolution c)"

abbreviation cycles_of :: "motor_alignment_config \<Rightarrow> int" where
  "cycles_of c \<equiv> uint (mc_electrical_cycles_per_revolution c)"

lemma uint_cycles4: "uint (ucast (x :: u16) * 4 :: u32) = uint x * 4"
  using uint16_range [of x] by (simp add: uint_word_ariths)

lemma valid_config_ranges:
  assumes "motor_alignment_config_is_valid (Some c)"
  shows "8 \<le> counts_of c" "0 < cycles_of c" "cycles_of c * 8 \<le> counts_of c"
    "0 < uint (mc_maximum_quarter_step_error_counts c)"
  using assms
  by (auto simp: word_less_def word_le_def uint_cycles4 uint_div not_less word_neq_0_conv
      split: if_splits)

lemma fold_to_half:
  "0 \<le> a \<Longrightarrow> a < n \<Longrightarrow> 0 \<le> b \<Longrightarrow> b < (n :: int) \<Longrightarrow>
     \<bar>if n div 2 < b - a then b - a - n else if b - a < - (n div 2) then b - a + n else b - a\<bar>
       \<le> n div 2"
  by (simp split: if_split) linarith

lemma wrapped_delta_bound:
  assumes "from < cpr" "to < cpr"
  shows "\<bar>wrapped_delta from to cpr\<bar> \<le> uint cpr div 2"
    "wrapped_delta from to cpr mod uint cpr = (uint to - uint from) mod uint cpr"
proof -
  show "\<bar>wrapped_delta from to cpr\<bar> \<le> uint cpr div 2"
    using assms fold_to_half [of "uint from" "uint cpr" "uint to"]
    by (simp add: wrapped_delta_def Let_def word_less_def)
  show "wrapped_delta from to cpr mod uint cpr = (uint to - uint from) mod uint cpr"
    by (simp add: wrapped_delta_def Let_def)
qed

lemma uint_mult_bound:
  assumes "uint (a :: u32) * uint b < 4294967296"
  shows "uint (a * b) = uint a * uint b"
  using assms by (simp add: uint_word_ariths)

lemma rounded_quarter:
  fixes n den :: u32
  assumes "k \<le> 65535" "uint n = k" "uint den = d" "0 < d" "d \<le> 32767" "d * 2 \<le> k" "4 \<le> d"
  shows "uint ((n + den div 2) div den) = (k + d div 2) div d" "(k + d div 2) div d \<le> 32767"
    "0 \<le> (k + d div 2) div d"
proof -
  have "uint (den div 2) = d div 2" using assms by (simp add: uint_div)
  moreover have "d div 2 \<le> 32767" "0 \<le> d div 2" using assms by simp_all
  ultimately have "uint (n + den div 2) = k + d div 2"
    using assms by (simp add: uint_word_ariths)
  then show "uint ((n + den div 2) div den) = (k + d div 2) div d"
    using assms by (simp add: uint_div)
  have "(k + d div 2) div d \<le> (k + d div 2) div 4"
    using assms by (intro zdiv_mono2) simp_all
  also have "\<dots> \<le> 32767" using assms by simp
  finally show "(k + d div 2) div d \<le> 32767" .
  show "0 \<le> (k + d div 2) div d" using assms by (simp add: pos_imp_zdiv_nonneg_iff)
qed

text \<open>The calibration in integers: for a valid configuration nothing wraps.\<close>

lemma calibration_in_integers:
  assumes "motor_alignment_config_is_valid (Some c)"
    and "z < mc_encoder_counts_per_revolution c" "q < mc_encoder_counts_per_revolution c"
  defines "d \<equiv> wrapped_delta z q (mc_encoder_counts_per_revolution c)" and "den \<equiv> cycles_of c * 4"
  shows "calibration_result c z q =
     (if d = 0 \<or> uint (mc_maximum_quarter_step_error_counts c) * den < \<bar>\<bar>d\<bar> * den - counts_of c\<bar>
      then None
      else Some \<lparr>ms_electrical_zero_raw = z, ms_observed_quarter_step_counts = word_of_int \<bar>d\<bar>,
        ms_quarter_step_error_counts = word_of_int (\<bar>d\<bar> - (counts_of c + den div 2) div den),
        ms_encoder_direction = word_of_int (sgn d), ms_valid = True\<rparr>)"
proof -
  note r = valid_config_ranges [OF assms(1)]
  let ?m = "word_of_int \<bar>d\<bar> :: u32"
  let ?n = "ucast (mc_encoder_counts_per_revolution c) :: u32"
  let ?den = "ucast (mc_electrical_cycles_per_revolution c) * 4 :: u32"
  let ?e = "(?n + ?den div 2) div ?den"
  have n: "uint ?n = counts_of c" "counts_of c \<le> 65535"
    using uint16_range [of "mc_encoder_counts_per_revolution c"] by simp_all
  have den: "uint ?den = den" "0 < den" "den \<le> 32767"
    using r(2,3) n(2) by (simp_all add: uint_cycles4 den_def)
  have dm: "\<bar>d\<bar> \<le> 32767" using wrapped_delta_bound(1) [OF assms(2,3)] n(2) by (simp add: d_def)
  then have m: "uint ?m = \<bar>d\<bar>" "sint ?m = \<bar>d\<bar>" by (simp_all add: cast_simps)
  have "\<bar>d\<bar> * den \<le> 32767 * 32767" using dm den by (intro mult_mono) simp_all
  then have md: "uint (?m * ?den) = \<bar>d\<bar> * den" using m den by (simp add: uint_mult_bound)
  have "uint (mc_maximum_quarter_step_error_counts c) * den \<le> 65535 * 32767"
    using uint16_range [of "mc_maximum_quarter_step_error_counts c"] den by (intro mult_mono) simp_all
  then have al: "uint (ucast (mc_maximum_quarter_step_error_counts c) * ?den)
      = uint (mc_maximum_quarter_step_error_counts c) * den"
    using den by (simp add: uint_mult_bound)
  have e: "uint ?e = (counts_of c + den div 2) div den" "(counts_of c + den div 2) div den \<le> 32767"
    "0 \<le> (counts_of c + den div 2) div den"
    using rounded_quarter [OF n(2,1) den(1,2,3)] r(2,3) by (simp_all add: den_def)
  then have es: "sint ?e = (counts_of c + den div 2) div den" using sint_u32 [of ?e] by simp
  have mag: "(if d < 0 then - d else d) = \<bar>d\<bar>" by simp
  have sub: "uint (if ?n < ?m * ?den then ?m * ?den - ?n else ?n - ?m * ?den) = \<bar>\<bar>d\<bar> * den - counts_of c\<bar>"
    using md n by (simp add: word_less_def uint_sub_if')
  have guard: "ucast (mc_maximum_quarter_step_error_counts c) * ?den
      < (if ?n < ?m * ?den then ?m * ?den - ?n else ?n - ?m * ?den) \<longleftrightarrow>
      uint (mc_maximum_quarter_step_error_counts c) * den < \<bar>\<bar>d\<bar> * den - counts_of c\<bar>"
    by (subst word_less_def) (simp only: sub al)
  have fits: "\<not> (\<bar>d\<bar> - (counts_of c + den div 2) div den < - 32768 \<or>
      32767 < \<bar>d\<bar> - (counts_of c + den div 2) div den)"
    using e(2,3) dm by linarith
  have narrow: "(ucast ?m :: u16) = word_of_int \<bar>d\<bar>" unfolding ucast_eq m(1) ..
  have dir: "d \<noteq> 0 \<Longrightarrow> (if 0 < d then 1 else - 1) = sgn d" by (simp add: sgn_if)
  show ?thesis
    unfolding calibration_result_def Let_def d_def [symmetric] mag guard es m(2) narrow
    using fits dir by (cases "d = 0") (simp_all only: if_True if_False simp_thms)
qed

section \<open>Storing and restoring a calibration\<close>

lemma calibrated_status:
  assumes "motor_alignment_config_is_valid (Some (ma_config a))"
    and "motor_alignment_calibrate (Some a) z q = (True, Some b)"
  shows "z < mc_encoder_counts_per_revolution (ma_config a)"
    "q < mc_encoder_counts_per_revolution (ma_config a)"
    "calibration_result (ma_config a) z q = Some (ma_status b)"
    "b = a\<lparr>ma_status := ma_status b\<rparr>"
  using assms(2) by (auto split: if_splits option.splits)

lemma calibration_fields:
  assumes "motor_alignment_config_is_valid (Some c)"
    and "z < mc_encoder_counts_per_revolution c" "q < mc_encoder_counts_per_revolution c"
    and "calibration_result c z q = Some st"
  defines "d \<equiv> wrapped_delta z q (mc_encoder_counts_per_revolution c)"
  shows "d \<noteq> 0" "ms_electrical_zero_raw st = z" "ms_valid st"
    "ms_observed_quarter_step_counts st = word_of_int \<bar>d\<bar>" "ms_encoder_direction st = word_of_int (sgn d)"
  using assms(4) unfolding calibration_in_integers [OF assms(1-3)] d_def [symmetric]
  by (auto split: if_splits)

lemma sint_direction: "sint (word_of_int (sgn (d :: int)) :: i8) = sgn d"
  by (simp add: cast_simps sgn_if)

lemma restored_quarter_is_quarter:
  assumes "motor_alignment_config_is_valid (Some c)"
    and "z < mc_encoder_counts_per_revolution c" "q < mc_encoder_counts_per_revolution c"
    and "calibration_result c z q = Some st"
  shows "restored_quarter_raw c st = q"
proof -
  define n d where "n = counts_of c" and "d = wrapped_delta z q (mc_encoder_counts_per_revolution c)"
  have n: "0 < n" "n \<le> 65535" "uint z < n" "uint q < n"
    using valid_config_ranges(1) [OF assms(1)] uint16_range [of "mc_encoder_counts_per_revolution c"]
      assms(2,3) by (simp_all add: n_def word_less_def)
  have d: "\<bar>d\<bar> \<le> n div 2" "d mod n = (uint q - uint z) mod n"
    using wrapped_delta_bound [OF assms(2,3)] by (simp_all add: d_def n_def)
  note st = calibration_fields [OF assms, folded d_def]
  define M :: u16 where "M = word_of_int \<bar>d\<bar>"
  have m: "uint M = \<bar>d\<bar>" using d(1) n(2) by (simp add: cast_simps M_def)
  define w :: u32 where
    "w = (if 0 < sgn d then ucast M else ucast (mc_encoder_counts_per_revolution c) - ucast M)"
  have w: "uint w = (if 0 < d then d else n + d)"
  proof (cases "0 < d")
    case True
    then show ?thesis using m by (simp add: w_def)
  next
    case False
    then have "uint M = - d" "- d \<le> n" using m d(1) n(1) st(1) by simp_all
    with False show ?thesis by (simp add: w_def uint_sub_if' n_def [symmetric])
  qed
  have "n div 2 \<le> n" using n(1) by simp
  then have "uint w \<le> n" using w d(1) by (auto split: if_splits)
  then have "uint (ucast z :: u32) + uint w < 2 ^ LENGTH(32)" using n by simp
  from uint_add_lem [THEN iffD1, OF this] have "uint (ucast z + w) = uint z + uint w" by simp
  then have "uint ((ucast z + w) mod ucast (mc_encoder_counts_per_revolution c))
      = (uint z + (if 0 < d then d else n + d)) mod n"
    by (simp only: uint_mod w n_def uint_ucast_u16_u32)
  also have "\<dots> = (uint z + d) mod n" by (simp add: add.left_commute [of "uint z" n])
  also have "\<dots> = (uint z + d mod n) mod n" by (simp add: mod_simps)
  also have "\<dots> = uint q mod n" unfolding d(2) by (simp add: mod_simps)
  also have "\<dots> = uint q" using n by simp
  finally have "uint ((ucast z + w) mod ucast (mc_encoder_counts_per_revolution c)) = uint q" .
  then show ?thesis
    unfolding restored_quarter_raw_def Let_def st sint_direction M_def [symmetric] w_def [symmetric]
    by (simp only: ucast_eq word_of_int_uint)
qed

lemma observed_nonzero:
  assumes "motor_alignment_config_is_valid (Some c)"
    and "z < mc_encoder_counts_per_revolution c" "q < mc_encoder_counts_per_revolution c"
  defines "d \<equiv> wrapped_delta z q (mc_encoder_counts_per_revolution c)"
  shows "d \<noteq> 0 \<Longrightarrow> (word_of_int \<bar>d\<bar> :: u16) \<noteq> 0"
proof -
  have "\<bar>d\<bar> \<le> 65535"
    using wrapped_delta_bound(1) [OF assms(2,3)] uint16_range [of "mc_encoder_counts_per_revolution c"]
    by (simp add: d_def)
  then have "uint (word_of_int \<bar>d\<bar> :: u16) = \<bar>d\<bar>" by (simp add: cast_simps)
  then show "d \<noteq> 0 \<Longrightarrow> (word_of_int \<bar>d\<bar> :: u16) \<noteq> 0" by (metis abs_eq_0 unsigned_0)
qed

text \<open>The remainder as the code corrects it is the non-negative one.\<close>

lemma smod_corrected:
  assumes "0 < (b :: int)"
  shows "(if a smod b < 0 then a smod b + b else a smod b) = a mod b"
proof (cases "0 \<le> a")
  case True
  then have "a smod b = a mod b" using assms by (simp add: signed_modulo_int_def sgn_if)
  then show ?thesis using pos_mod_sign [OF assms, of a] by simp
next
  case False
  then have "a smod b = - ((- a) mod b)" using assms by (simp add: signed_modulo_int_def sgn_if)
  with assms show ?thesis by (simp add: zmod_zminus1_eq_if split: if_splits)
qed

section \<open>Properties\<close>

text \<open>
  A calibration survives storage. Restoring the status of any successful calibration into an
  alignment object with the same configuration succeeds and installs exactly that status,
  provided the observed quarter step is below half a revolution.
\<close>

theorem calibration_survives_storage:
  assumes "motor_alignment_config_is_valid (Some (ma_config a))"
    and "motor_alignment_calibrate (Some a) z q = (True, Some b)"
    and "ms_observed_quarter_step_counts (ma_status b)
           < mc_encoder_counts_per_revolution (ma_config a) div 2"
    and "ma_initialized r" "ma_config r = ma_config a"
  shows "motor_alignment_restore (Some r) (Some (ma_status b))
       = (True, Some (r\<lparr>ma_status := ma_status b\<rparr>))"
proof -
  note cal = calibrated_status [OF assms(1,2)]
  note st = calibration_fields [OF assms(1) cal(1-3)]
  have "sint (ms_encoder_direction (ma_status b)) \<in> {1, - 1}"
    unfolding st(5) sint_direction using st(1) by (simp add: sgn_if)
  moreover have "ms_observed_quarter_step_counts (ma_status b) \<noteq> 0"
    unfolding st(4) using st(1) by (rule observed_nonzero [OF assms(1) cal(1,2)])
  moreover have "restored_quarter_raw (ma_config r) (ma_status b) = q"
    using restored_quarter_is_quarter [OF assms(1) cal(1,2,3)] assms(5) by simp
  ultimately show ?thesis
    using st(2,3) cal(1-3) assms(3-5) by (simp add: not_le)
qed

definition bench_alignment :: motor_alignment where
  "bench_alignment = \<lparr>ma_config = \<lparr>mc_encoder_counts_per_revolution = 16384,
     mc_electrical_cycles_per_revolution = 50, mc_maximum_quarter_step_error_counts = 20\<rparr>,
     ma_status = empty_alignment_status, ma_initialized = True\<rparr>"

definition bench_status :: motor_alignment_status where
  "bench_status = \<lparr>ms_electrical_zero_raw = 16380, ms_observed_quarter_step_counts = 84,
     ms_quarter_step_error_counts = 2, ms_encoder_direction = 1, ms_valid = True\<rparr>"

lemma bench_calibrate:
  "motor_alignment_config_is_valid (Some (ma_config bench_alignment))"
  "motor_alignment_calibrate (Some bench_alignment) 16380 80
     = (True, Some (bench_alignment\<lparr>ma_status := bench_status\<rparr>))"
  by (simp_all add: bench_alignment_def bench_status_def calibration_result_def wrapped_delta_def Let_def)

theorem calibration_survives_storage_witness:
  "motor_alignment_restore (Some bench_alignment) (Some bench_status)
     = (True, Some (bench_alignment\<lparr>ma_status := bench_status\<rparr>))"
  using calibration_survives_storage [OF bench_calibrate, of bench_alignment]
  by (simp add: bench_alignment_def bench_status_def)

text \<open>
  C27. The electrical phase is exact. Whenever a phase is returned it is the position within the
  electrical cycle, measured from the calibrated zero in the calibrated direction, rounded down to
  a multiple of one part in \<open>2^32\<close> of a cycle; at the calibrated zero it is 0.
\<close>

theorem electrical_phase_exact:
  assumes "motor_alignment_config_is_valid (Some (ma_config a))"
    and "motor_alignment_electrical_phase_q32 (Some a) raw (Some old) = (True, Some phase)"
  defines "turn \<equiv> (uint raw - uint (ms_electrical_zero_raw (ma_status a)))
      * sint (ms_encoder_direction (ma_status a)) * cycles_of (ma_config a)
      mod counts_of (ma_config a)"
  shows "uint phase * counts_of (ma_config a) \<le> turn * 2 ^ 32 \<and>
         turn * 2 ^ 32 < (uint phase + 1) * counts_of (ma_config a) \<and>
         (raw = ms_electrical_zero_raw (ma_status a) \<longrightarrow> phase = 0)"
proof -
  let ?n = "counts_of (ma_config a)"
  have n: "0 < ?n" using valid_config_ranges(1) [OF assms(1)] by simp
  have t: "0 \<le> turn" "turn < ?n" using n by (simp_all add: turn_def)
  have p: "phase = word_of_int (turn * 2 ^ 32 div ?n)"
    using assms(2) smod_corrected [OF n]
    by (auto simp: alignment_phase_q32_def Let_def turn_def split: if_splits)
  have "turn * 2 ^ 32 div ?n < 2 ^ 32" using t n by (intro int_div_less) simp_all
  then have u: "uint phase = turn * 2 ^ 32 div ?n"
    using t n unfolding p by (simp add: cast_simps pos_imp_zdiv_nonneg_iff)
  have "raw = ms_electrical_zero_raw (ma_status a) \<longrightarrow> phase = 0" unfolding p turn_def by simp
  moreover note div_mult_bounds [OF n, of "turn * 2 ^ 32"]
  ultimately show ?thesis unfolding u by blast
qed

theorem electrical_phase_exact_witness:
  "\<exists>phase. motor_alignment_electrical_phase_q32
       (Some (bench_alignment\<lparr>ma_status := bench_status\<rparr>)) 80 (Some 0) = (True, Some phase) \<and>
     uint phase * 16384 \<le> 4200 * 2 ^ 32"
  using electrical_phase_exact
      [of "bench_alignment\<lparr>ma_status := bench_status\<rparr>" 80 0
          "alignment_phase_q32 (bench_alignment\<lparr>ma_status := bench_status\<rparr>) 80"]
  by (simp add: bench_alignment_def bench_status_def)

end
