(* ===== verification/Config_Store.thy ===== *)
theory Config_Store
  imports Motor_Alignment
begin

text \<open>
  The persistent product configuration, \<open>firmware/src/services/configuration_store.c\<close>: its validity
  check, the CRC-protected record in two schema versions, and the two-slot store with its load and
  save. The storage backend is a parameter: three callbacks on the state of the device behind the
  \<open>context\<close> pointer. The lemmas show that a record is read back exactly, that damage to any one word
  of it is noticed, and that after any history of saves, each of them possibly cut short in the
  middle of an erase or of a word, the last configuration reported stored or one of those attempted
  after it is loaded.
\<close>

section \<open>Data\<close>

abbreviation CONFIGURATION_STORE_INVALID_SLOT :: u8 where "CONFIGURATION_STORE_INVALID_SLOT \<equiv> 0xFF"
abbreviation CONFIGURATION_STORE_RECORD_SCHEMA_VERSION :: u16 where
  "CONFIGURATION_STORE_RECORD_SCHEMA_VERSION \<equiv> 2"
abbreviation CONFIGURATION_RECORD_SCHEMA1_VERSION :: u16 where
  "CONFIGURATION_RECORD_SCHEMA1_VERSION \<equiv> 1"
definition CONFIGURATION_RECORD_MAGIC :: u32 where "CONFIGURATION_RECORD_MAGIC = 0x4D4B4346"
definition CONFIGURATION_RECORD_COMMIT :: u32 where "CONFIGURATION_RECORD_COMMIT = 0x434D4954"
definition CONFIGURATION_RECORD_ALIGNMENT_VALID :: u32 where
  "CONFIGURATION_RECORD_ALIGNMENT_VALID = push_bit 24 1"
definition CONFIGURATION_RECORD_RESERVED_MASK :: u32 where
  "CONFIGURATION_RECORD_RESERVED_MASK = 0xFE000000"
definition PRODUCT_CONFIGURATION_DEFAULT_CURRENT_LOOP_KP_Q16 :: i32 where
  "PRODUCT_CONFIGURATION_DEFAULT_CURRENT_LOOP_KP_Q16 = 4 * 65536"
definition PRODUCT_CONFIGURATION_DEFAULT_CURRENT_LOOP_KI_Q16 :: i32 where
  "PRODUCT_CONFIGURATION_DEFAULT_CURRENT_LOOP_KI_Q16 = 65536 div 64"

record product_configuration =
  pc_encoder_counts_per_revolution :: u16
  pc_electrical_cycles_per_revolution :: u16
  pc_alignment :: motor_alignment_status
  pc_current_loop_proportional_gain_q16_per_count :: i32
  pc_current_loop_integral_gain_q16_per_count_per_step :: i32

text \<open>
  A callback works on the device behind the context pointer. A read yields the word or fails; erase
  and program report success.
\<close>

record 'd configuration_store_backend =
  cb_read_word :: "('d \<Rightarrow> u8 \<Rightarrow> nat \<Rightarrow> u32 option \<times> 'd) ptr"
  cb_erase_slot :: "('d \<Rightarrow> u8 \<Rightarrow> bool \<times> 'd) ptr"
  cb_program_word :: "('d \<Rightarrow> u8 \<Rightarrow> nat \<Rightarrow> u32 \<Rightarrow> bool \<times> 'd) ptr"

datatype configuration_store_result =
  CONFIGURATION_STORE_RESULT_OK
| CONFIGURATION_STORE_RESULT_EMPTY
| CONFIGURATION_STORE_RESULT_INVALID_ARGUMENT
| CONFIGURATION_STORE_RESULT_IO_ERROR
| CONFIGURATION_STORE_RESULT_VERIFY_ERROR

record 'd configuration_store =
  st_backend :: "'d configuration_store_backend"
  st_configuration :: product_configuration
  st_generation :: u32
  st_record_schema_version :: u16
  st_active_slot :: u8
  st_valid_slot_mask :: u8
  st_last_result :: configuration_store_result
  st_initialized :: bool
  st_record_valid :: bool

record decoded_record =
  dr_configuration :: product_configuration
  dr_generation :: u32
  dr_schema_version :: u16
  dr_words :: "u32 list"

section \<open>CRC-32\<close>

definition crc32_bit :: "u32 \<Rightarrow> u32" where
  "crc32_bit crc = (if crc AND 1 \<noteq> 0 then drop_bit 1 crc XOR 0xEDB88320 else drop_bit 1 crc)"

definition crc32_update :: "u32 \<Rightarrow> u8 \<Rightarrow> u32" where
  "crc32_update crc byte = (crc32_bit ^^ 8) (crc XOR ucast byte)"

definition crc32_word :: "u32 \<Rightarrow> u32 \<Rightarrow> u32" where
  "crc32_word crc word =
     foldl (\<lambda>crc byte_index. crc32_update crc (ucast (drop_bit (byte_index * 8) word))) crc [0, 1,
       2, 3]"

definition record_crc32 :: "u32 list \<Rightarrow> nat \<Rightarrow> u32" where
  "record_crc32 words word_count = foldl crc32_word 0xFFFFFFFF (take word_count words)
    XOR 0xFFFFFFFF"

section \<open>Configurations\<close>

definition configurations_equal :: "product_configuration \<Rightarrow> product_configuration \<Rightarrow> bool" where
  "configurations_equal left right \<longleftrightarrow>
     pc_encoder_counts_per_revolution left = pc_encoder_counts_per_revolution right \<and>
     pc_electrical_cycles_per_revolution left = pc_electrical_cycles_per_revolution right \<and>
     ms_electrical_zero_raw (pc_alignment left) = ms_electrical_zero_raw (pc_alignment right) \<and>
     ms_observed_quarter_step_counts (pc_alignment left)
       = ms_observed_quarter_step_counts (pc_alignment right) \<and>
     ms_quarter_step_error_counts (pc_alignment left)
       = ms_quarter_step_error_counts (pc_alignment right) \<and>
     ms_encoder_direction (pc_alignment left) = ms_encoder_direction (pc_alignment right) \<and>
     ms_valid (pc_alignment left) = ms_valid (pc_alignment right) \<and>
     pc_current_loop_proportional_gain_q16_per_count left
       = pc_current_loop_proportional_gain_q16_per_count right \<and>
     pc_current_loop_integral_gain_q16_per_count_per_step left
       = pc_current_loop_integral_gain_q16_per_count_per_step right"

fun product_configuration_is_valid :: "product_configuration ptr \<Rightarrow> bool" where
  "product_configuration_is_valid None = False"
| "product_configuration_is_valid (Some c) =
     (if pc_encoder_counts_per_revolution c < 8 \<or> pc_electrical_cycles_per_revolution c = 0 \<or>
         sint (pc_current_loop_proportional_gain_q16_per_count c) < 0 \<or>
         16 * 65536 < sint (pc_current_loop_proportional_gain_q16_per_count c) \<or>
         sint (pc_current_loop_integral_gain_q16_per_count_per_step c) < 0 \<or>
         4 * 65536 < sint (pc_current_loop_integral_gain_q16_per_count_per_step c) then False
      else
        (let denominator = ucast (pc_electrical_cycles_per_revolution c) * 4 :: u32;
             counts = ucast (pc_encoder_counts_per_revolution c) :: u32;
             alignment = pc_alignment c
         in if counts div 2 < denominator then False
            else if \<not> ms_valid alignment then
              ms_electrical_zero_raw alignment = 0 \<and> ms_observed_quarter_step_counts alignment = 0 \<and>
              ms_quarter_step_error_counts alignment = 0 \<and> ms_encoder_direction alignment = 0
            else if counts \<le> ucast (ms_electrical_zero_raw alignment) \<or>
                    ms_observed_quarter_step_counts alignment = 0 \<or>
                    counts div 2 \<le> ucast (ms_observed_quarter_step_counts alignment) \<or>
                    sint (ms_encoder_direction alignment) \<noteq> 1 \<and>
                    sint (ms_encoder_direction alignment) \<noteq> - 1 then False
            else
              (let expected_quarter_step = (counts + denominator div 2) div denominator;
                   expected_error = uint (ms_observed_quarter_step_counts alignment)
                     - sint expected_quarter_step
               in - 32768 \<le> expected_error \<and> expected_error \<le> 32767 \<and>
                  expected_error = sint (ms_quarter_step_error_counts alignment))))"

section \<open>Records\<close>

definition encode_record :: "product_configuration \<Rightarrow> u32 \<Rightarrow> u32 list" where
  "encode_record configuration generation =
     (let alignment = pc_alignment configuration;
          words =
            [CONFIGURATION_RECORD_MAGIC,
             push_bit 16 (ucast CONFIGURATION_STORE_RECORD_SCHEMA_VERSION) OR 10,
             generation,
             ucast (pc_encoder_counts_per_revolution configuration)
               OR push_bit 16 (ucast (pc_electrical_cycles_per_revolution configuration)),
             ucast (ms_electrical_zero_raw alignment)
               OR push_bit 16 (ucast (ms_observed_quarter_step_counts alignment)),
             ucast (ms_quarter_step_error_counts alignment)
               OR push_bit 16 (ucast (ms_encoder_direction alignment))
               OR (if ms_valid alignment then CONFIGURATION_RECORD_ALIGNMENT_VALID else 0),
             pc_current_loop_proportional_gain_q16_per_count configuration,
             pc_current_loop_integral_gain_q16_per_count_per_step configuration]
      in words @ [record_crc32 words 8, CONFIGURATION_RECORD_COMMIT])"

text \<open>A call through the backend; initialisation refuses null callbacks.\<close>

definition backend_read ::
  "'d configuration_store_backend \<Rightarrow> 'd \<Rightarrow> u8 \<Rightarrow> nat \<Rightarrow> u32 option \<times> 'd" where
  "backend_read backend d slot index =
     (case cb_read_word backend of Some f \<Rightarrow> f d slot index | None \<Rightarrow> (None, d))"

definition backend_erase :: "'d configuration_store_backend \<Rightarrow> 'd \<Rightarrow> u8 \<Rightarrow> bool \<times> 'd" where
  "backend_erase backend d slot =
     (case cb_erase_slot backend of Some f \<Rightarrow> f d slot | None \<Rightarrow> (False, d))"

definition backend_program ::
  "'d configuration_store_backend \<Rightarrow> 'd \<Rightarrow> u8 \<Rightarrow> nat \<Rightarrow> u32 \<Rightarrow> bool \<times> 'd" where
  "backend_program backend d slot index value =
     (case cb_program_word backend of Some f \<Rightarrow> f d slot index value | None \<Rightarrow> (False, d))"

text \<open>The read loops: words are stored until a read fails.\<close>

fun read_words ::
  "'d configuration_store_backend \<Rightarrow> 'd \<Rightarrow> u8 \<Rightarrow> nat list \<Rightarrow> u32 list \<Rightarrow> bool \<times> u32 list \<times> 'd" where
  "read_words backend d slot [] words = (True, words, d)"
| "read_words backend d slot (index # indices) words =
     (case backend_read backend d slot index of
        (None, d) \<Rightarrow> (False, words, d)
      | (Some value, d) \<Rightarrow> read_words backend d slot indices (words[index := value]))"

definition record_format :: "u32 \<Rightarrow> (u16 \<times> nat \<times> nat \<times> nat) option" where
  "record_format header =
     (let schema_version = ucast (drop_bit 16 header) :: u16
      in if schema_version = CONFIGURATION_RECORD_SCHEMA1_VERSION \<and> header AND 0xFFFF = 8
         then Some (schema_version, 8, 6, 7)
         else if schema_version = CONFIGURATION_STORE_RECORD_SCHEMA_VERSION \<and> header AND 0xFFFF = 10
         then Some (schema_version, 10, 8, 9)
         else None)"

definition decode_words :: "u16 \<Rightarrow> u32 list \<Rightarrow> decoded_record" where
  "decode_words schema_version words =
     \<lparr>dr_configuration =
        \<lparr>pc_encoder_counts_per_revolution = ucast (words ! 3),
         pc_electrical_cycles_per_revolution = ucast (drop_bit 16 (words ! 3)),
         pc_alignment =
           \<lparr>ms_electrical_zero_raw = ucast (words ! 4),
            ms_observed_quarter_step_counts = ucast (drop_bit 16 (words ! 4)),
            ms_quarter_step_error_counts = ucast (words ! 5),
            ms_encoder_direction = ucast (drop_bit 16 (words ! 5)),
            ms_valid = (words ! 5 AND CONFIGURATION_RECORD_ALIGNMENT_VALID \<noteq> 0)\<rparr>,
         pc_current_loop_proportional_gain_q16_per_count =
           (if schema_version = CONFIGURATION_RECORD_SCHEMA1_VERSION
            then PRODUCT_CONFIGURATION_DEFAULT_CURRENT_LOOP_KP_Q16 else words ! 6),
         pc_current_loop_integral_gain_q16_per_count_per_step =
           (if schema_version = CONFIGURATION_RECORD_SCHEMA1_VERSION
            then PRODUCT_CONFIGURATION_DEFAULT_CURRENT_LOOP_KI_Q16 else words ! 7)\<rparr>,
      dr_generation = words ! 2, dr_schema_version = schema_version, dr_words = words\<rparr>"

text \<open>
  The result of \<open>read_record\<close>: the record if it is valid (its content is not used otherwise) and the
  input-output error flag, which is only ever set.
\<close>

definition read_record ::
  "'d configuration_store_backend \<Rightarrow> 'd \<Rightarrow> u8 \<Rightarrow> bool \<Rightarrow> decoded_record option \<times> bool \<times> 'd" where
  "read_record backend d slot io_error =
     (case read_words backend d slot [0, 1] (replicate 10 0) of
        (False, words, d) \<Rightarrow> (None, True, d)
      | (True, words, d) \<Rightarrow>
          if words ! 0 \<noteq> CONFIGURATION_RECORD_MAGIC then (None, io_error, d)
          else
            (case record_format (words ! 1) of
               None \<Rightarrow> (None, io_error, d)
             | Some (schema_version, word_count, crc_word_index, commit_word_index) \<Rightarrow>
                 (case read_words backend d slot [2..<word_count] words of
                    (False, words, d) \<Rightarrow> (None, True, d)
                  | (True, words, d) \<Rightarrow>
                      if words ! commit_word_index \<noteq> CONFIGURATION_RECORD_COMMIT \<or>
                         words ! crc_word_index \<noteq> record_crc32 words crc_word_index \<or>
                         words ! 5 AND CONFIGURATION_RECORD_RESERVED_MASK \<noteq> 0
                      then (None, io_error, d)
                      else
                        (let record = decode_words schema_version words
                         in if product_configuration_is_valid (Some (dr_configuration record))
                            then (Some record, io_error, d) else (None, io_error, d)))))"

definition generation_is_newer :: "u32 \<Rightarrow> u32 \<Rightarrow> bool" where
  "generation_is_newer candidate reference \<longleftrightarrow>
     (let distance = candidate - reference in distance \<noteq> 0 \<and> distance < 0x80000000)"

section \<open>The store\<close>

definition empty_configuration :: product_configuration where
  "empty_configuration = \<lparr>pc_encoder_counts_per_revolution = 0,
     pc_electrical_cycles_per_revolution = 0, pc_alignment = empty_alignment_status,
     pc_current_loop_proportional_gain_q16_per_count = 0,
     pc_current_loop_integral_gain_q16_per_count_per_step = 0\<rparr>"

definition select_slot :: "decoded_record option \<Rightarrow> decoded_record option \<Rightarrow> (u8 \<times> decoded_record)
  option" where
  "select_slot record0 record1 =
     (case (record0, record1) of
        (None, None) \<Rightarrow> None
      | (Some r0, None) \<Rightarrow> Some (0, r0)
      | (None, Some r1) \<Rightarrow> Some (1, r1)
      | (Some r0, Some r1) \<Rightarrow>
          if generation_is_newer (dr_generation r1) (dr_generation r0) then Some (1, r1)
            else Some (0, r0))"

definition slot_mask :: "decoded_record option \<Rightarrow> decoded_record option \<Rightarrow> u8" where
  "slot_mask record0 record1 =
     (if record0 = None then 0 else push_bit 0 1) OR (if record1 = None then 0 else push_bit 1 1)"

fun configuration_store_init ::
  "'d configuration_store ptr \<Rightarrow> 'd configuration_store_backend ptr \<Rightarrow> 'd \<Rightarrow>
     configuration_store_result \<times> 'd configuration_store ptr \<times> 'd" where
  "configuration_store_init (Some store) (Some backend) d =
     (if cb_read_word backend = None \<or> cb_erase_slot backend = None \<or> cb_program_word backend = None
      then (CONFIGURATION_STORE_RESULT_INVALID_ARGUMENT, Some store, d)
      else
        (case read_record backend d 0 False of (record0, io_error, d) \<Rightarrow>
         case read_record backend d 1 io_error of (record1, io_error, d) \<Rightarrow>
           (let store = \<lparr>st_backend = backend, st_configuration = empty_configuration,
                  st_generation = 0, st_record_schema_version = 0,
                  st_active_slot = CONFIGURATION_STORE_INVALID_SLOT,
                  st_valid_slot_mask = slot_mask record0 record1,
                  st_last_result = CONFIGURATION_STORE_RESULT_OK, st_initialized = True,
                  st_record_valid = False\<rparr>;
                store =
                  (case select_slot record0 record1 of
                     Some (selected, record) \<Rightarrow>
                       store\<lparr>st_configuration := dr_configuration record,
                         st_generation := dr_generation record,
                         st_record_schema_version := dr_schema_version record,
                         st_active_slot := selected, st_record_valid := True,
                         st_last_result := CONFIGURATION_STORE_RESULT_OK\<rparr>
                   | None \<Rightarrow>
                       store\<lparr>st_last_result :=
                         (if io_error then CONFIGURATION_STORE_RESULT_IO_ERROR
                          else CONFIGURATION_STORE_RESULT_EMPTY)\<rparr>)
            in (st_last_result store, Some store, d))))"
| "configuration_store_init store backend d = (CONFIGURATION_STORE_RESULT_INVALID_ARGUMENT, store,
  d)"

text \<open>The programming loop: the words in order, until one fails.\<close>

fun program_words ::
  "'d configuration_store_backend \<Rightarrow> 'd \<Rightarrow> u8 \<Rightarrow> nat \<Rightarrow> u32 list \<Rightarrow> bool \<times> 'd" where
  "program_words backend d slot index [] = (True, d)"
| "program_words backend d slot index (word # words) =
     (case backend_program backend d slot index word of
        (False, d) \<Rightarrow> (False, d)
      | (True, d) \<Rightarrow> program_words backend d slot (index + 1) words)"

definition store_fail ::
  "'d configuration_store \<Rightarrow> configuration_store_result \<Rightarrow> 'd \<Rightarrow>
     configuration_store_result \<times> 'd configuration_store ptr \<times> 'd" where
  "store_fail store result d = (result, Some (store\<lparr>st_last_result := result\<rparr>), d)"

definition write_record ::
  "'d configuration_store \<Rightarrow> product_configuration \<Rightarrow> 'd \<Rightarrow>
     configuration_store_result \<times> 'd configuration_store ptr \<times> 'd" where
  "write_record store configuration d =
     (let target_slot = (if st_record_valid store then st_active_slot store XOR 1 else 0);
          generation = (if st_record_valid store then st_generation store + 1 else 1);
          words = encode_record configuration generation;
          store = store\<lparr>st_valid_slot_mask :=
            st_valid_slot_mask store AND NOT (push_bit (unat target_slot) 1)\<rparr>
      in case backend_erase (st_backend store) d target_slot of
           (False, d) \<Rightarrow> store_fail store CONFIGURATION_STORE_RESULT_IO_ERROR d
         | (True, d) \<Rightarrow>
             (case program_words (st_backend store) d target_slot 0 words of
                (False, d) \<Rightarrow> store_fail store CONFIGURATION_STORE_RESULT_IO_ERROR d
              | (True, d) \<Rightarrow>
                  (case read_record (st_backend store) d target_slot False of
                     (None, io_error, d) \<Rightarrow>
                       store_fail store (if io_error then CONFIGURATION_STORE_RESULT_IO_ERROR
                         else CONFIGURATION_STORE_RESULT_VERIFY_ERROR) d
                   | (Some verified, io_error, d) \<Rightarrow>
                       if io_error \<or> dr_generation verified \<noteq> generation \<or>
                          \<not> configurations_equal (dr_configuration verified) configuration
                       then store_fail store (if io_error then CONFIGURATION_STORE_RESULT_IO_ERROR
                              else CONFIGURATION_STORE_RESULT_VERIFY_ERROR) d
                       else
                         (CONFIGURATION_STORE_RESULT_OK,
                          Some (store\<lparr>st_configuration := dr_configuration verified,
                            st_generation := generation,
                            st_record_schema_version := dr_schema_version verified,
                            st_active_slot := target_slot,
                            st_valid_slot_mask :=
                              st_valid_slot_mask store OR push_bit (unat target_slot) 1,
                            st_record_valid := True,
                            st_last_result := CONFIGURATION_STORE_RESULT_OK\<rparr>), d))))"

fun configuration_store_save ::
  "'d configuration_store ptr \<Rightarrow> product_configuration ptr \<Rightarrow> 'd \<Rightarrow>
     configuration_store_result \<times> 'd configuration_store ptr \<times> 'd" where
  "configuration_store_save None configuration d =
     (CONFIGURATION_STORE_RESULT_INVALID_ARGUMENT, None, d)"
| "configuration_store_save (Some store) configuration d =
     (if \<not> st_initialized store \<or> \<not> product_configuration_is_valid configuration
      then store_fail store CONFIGURATION_STORE_RESULT_INVALID_ARGUMENT d
      else if st_record_valid store \<and>
              st_record_schema_version store = CONFIGURATION_STORE_RECORD_SCHEMA_VERSION \<and>
              configurations_equal (st_configuration store) (the configuration)
      then (CONFIGURATION_STORE_RESULT_OK,
            Some (store\<lparr>st_last_result := CONFIGURATION_STORE_RESULT_OK\<rparr>), d)
      else write_record store (the configuration) d)"

fun configuration_store_get ::
  "'d configuration_store ptr \<Rightarrow> product_configuration ptr \<Rightarrow> bool \<times> product_configuration ptr" where
  "configuration_store_get (Some store) (Some configuration) =
     (if \<not> st_initialized store \<or> \<not> st_record_valid store then (False, Some configuration)
      else (True, Some (st_configuration store)))"
| "configuration_store_get store configuration = (False, configuration)"

fun configuration_store_matches ::
  "'d configuration_store ptr \<Rightarrow> product_configuration ptr \<Rightarrow> bool" where
  "configuration_store_matches (Some store) (Some configuration) =
     (st_initialized store \<and> st_record_valid store \<and>
      configurations_equal (st_configuration store) configuration)"
| "configuration_store_matches store configuration = False"

fun configuration_store_restore_current_loop_gains ::
  "'d configuration_store ptr \<Rightarrow> product_configuration ptr \<Rightarrow> product_configuration ptr" where
  "configuration_store_restore_current_loop_gains store None = None"
| "configuration_store_restore_current_loop_gains store (Some configuration) =
     Some (case store of
       Some s \<Rightarrow>
         if st_initialized s \<and> st_record_valid s then
           configuration\<lparr>
             pc_current_loop_proportional_gain_q16_per_count :=
               pc_current_loop_proportional_gain_q16_per_count (st_configuration s),
             pc_current_loop_integral_gain_q16_per_count_per_step :=
               pc_current_loop_integral_gain_q16_per_count_per_step (st_configuration s)\<rparr>
         else configuration\<lparr>
             pc_current_loop_proportional_gain_q16_per_count :=
               PRODUCT_CONFIGURATION_DEFAULT_CURRENT_LOOP_KP_Q16,
             pc_current_loop_integral_gain_q16_per_count_per_step :=
               PRODUCT_CONFIGURATION_DEFAULT_CURRENT_LOOP_KI_Q16\<rparr>
     | None \<Rightarrow> configuration\<lparr>
             pc_current_loop_proportional_gain_q16_per_count :=
               PRODUCT_CONFIGURATION_DEFAULT_CURRENT_LOOP_KP_Q16,
             pc_current_loop_integral_gain_q16_per_count_per_step :=
               PRODUCT_CONFIGURATION_DEFAULT_CURRENT_LOOP_KI_Q16\<rparr>)"

section \<open>The CRC distinguishes\<close>

lemma and_one_bit: "c AND 1 \<noteq> 0 \<longleftrightarrow> bit (c :: u32) 0"
  by (simp add: and_one_eq bit_0 odd_iff_mod_2_eq_one)

lemma crc32_bit_top: "bit (crc32_bit c) 31 \<longleftrightarrow> bit c 0"
proof -
  have "\<not> bit (drop_bit 1 c) 31" by (auto simp: bit_drop_bit_eq dest: bit_imp_le_length)
  then show ?thesis
    by (simp only: crc32_bit_def and_one_bit bit_xor_iff if_distrib [of "\<lambda>x. bit x 31"]) simp
qed

lemma crc32_bit_inject: "crc32_bit a = crc32_bit b \<longleftrightarrow> a = b"
proof
  assume eq: "crc32_bit a = crc32_bit b"
  then have low: "bit a 0 = bit b 0" using crc32_bit_top by metis
  with eq have "drop_bit 1 a = drop_bit 1 b"
    by (auto simp: crc32_bit_def and_one_bit xor_right_inject split: if_splits)
  then have high: "bit a (Suc n) = bit b (Suc n)" for n
    by (metis bit_drop_bit_eq comp_apply plus_1_eq_Suc)
  show "a = b"
  proof (rule bit_word_eqI)
    fix n
    show "bit a n = bit b n" using low high by (cases n) simp_all
  qed
qed simp

lemma crc32_bits_inject: "(crc32_bit ^^ n) a = (crc32_bit ^^ n) b \<longleftrightarrow> a = b"
  by (induction n) (simp_all add: crc32_bit_inject)

text \<open>The register is linear, and a part with only zeros in its low bits is merely shifted.\<close>

lemma drop_bit_xor_word: "drop_bit n (a XOR b) = drop_bit n a XOR drop_bit n (b :: u32)"
  by (rule bit_word_eqI) (auto simp: bit_simps)

lemma crc32_bit_xor: "crc32_bit (a XOR b) = crc32_bit a XOR crc32_bit b"
proof -
  have "bit (a XOR b) 0 \<longleftrightarrow> bit a 0 \<noteq> bit b 0" by (simp add: bit_simps)
  then show ?thesis
    by (auto simp: crc32_bit_def and_one_bit drop_bit_xor_word xor.assoc xor.left_commute
      xor.commute)
qed

lemma crc32_bits_xor: "(crc32_bit ^^ n) (a XOR b) = (crc32_bit ^^ n) a XOR (crc32_bit ^^ n) b"
  by (induction n) (simp_all add: crc32_bit_xor)

lemma crc32_bits_shift:
  "(\<And>i. i < n \<Longrightarrow> \<not> bit c i) \<Longrightarrow> (crc32_bit ^^ n) c = drop_bit n c"
proof (induction n)
  case (Suc n)
  have "(crc32_bit ^^ Suc n) c = crc32_bit (drop_bit n c)" using Suc by simp
  also have "\<dots> = drop_bit 1 (drop_bit n c)"
    using Suc.prems [of n] by (simp add: crc32_bit_def and_one_bit bit_drop_bit_eq)
  finally show ?case by (simp add: ac_simps)
qed simp

lemma crc32_byte_step:
  "(crc32_bit ^^ 8) (s XOR w) = crc32_update s (ucast w) XOR drop_bit 8 w"
proof -
  let ?low = "ucast (ucast w :: u8) :: u32" and ?high = "push_bit 8 (drop_bit 8 w)"
  have "w = ?low XOR ?high" by (rule bit_word_eqI) (auto simp: bit_simps)
  then have "s XOR w = (s XOR ?low) XOR ?high" by (metis xor.assoc)
  moreover have "(crc32_bit ^^ 8) ?high = drop_bit 8 ?high"
    by (rule crc32_bits_shift) (auto simp: bit_simps)
  moreover have "drop_bit 8 ?high = drop_bit 8 w"
    by (rule bit_word_eqI) (auto simp: bit_simps dest: bit_imp_le_length)
  ultimately show ?thesis by (simp only: crc32_bits_xor crc32_update_def)
qed

lemma crc32_word_eq: "crc32_word crc w = (crc32_bit ^^ 32) (crc XOR w)"
proof -
  define s1 where "s1 = crc32_update crc (ucast w)"
  define s2 where "s2 = crc32_update s1 (ucast (drop_bit 8 w))"
  define s3 where "s3 = crc32_update s2 (ucast (drop_bit 16 w))"
  have d: "drop_bit 8 (drop_bit 8 w) = drop_bit 16 w" "drop_bit 8 (drop_bit 16 w) = drop_bit 24 w"
    by (simp_all add: drop_bit_drop_bit)
  have z: "drop_bit 8 (drop_bit 24 w) = 0" by (rule bit_word_eqI)
    (auto simp: bit_simps bit_imp_le_length)
  have "(crc32_bit ^^ 32) (crc XOR w)
      = (crc32_bit ^^ 8) ((crc32_bit ^^ 8) ((crc32_bit ^^ 8) ((crc32_bit ^^ 8) (crc XOR w))))"
    by (simp add: numeral_eq_Suc)
  also have "\<dots> = crc32_update s3 (ucast (drop_bit 24 w))"
    by (simp only: crc32_byte_step s1_def [symmetric] s2_def [symmetric] s3_def [symmetric] d z
      xor.right_neutral)
  finally show ?thesis by (simp add: crc32_word_def s1_def s2_def s3_def)
qed

lemma crc32_word_inject:
  "crc32_word a w = crc32_word b w \<longleftrightarrow> a = b" "crc32_word a v = crc32_word a w \<longleftrightarrow> v = w"
  by (simp_all only: crc32_word_eq crc32_bits_inject xor_right_inject xor_left_inject)

lemma crc32_fold_inject: "foldl crc32_word a ws = foldl crc32_word b ws \<longleftrightarrow> a = b"
  by (induction ws arbitrary: a b) (simp_all add: crc32_word_inject)

lemma record_crc32_detects:
  assumes "i < n" "n \<le> length ws" "w \<noteq> ws ! i"
  shows "record_crc32 (ws[i := w]) n \<noteq> record_crc32 ws n"
proof -
  obtain as bs where eq: "take n ws = as @ ws ! i # bs" "take n (ws[i := w]) = as @ w # bs"
  proof
    show "take n ws = take i ws @ ws ! i # drop (Suc i) (take n ws)"
      using assms id_take_nth_drop [of i "take n ws"] by (simp add: min_absorb1)
    show "take n (ws[i := w]) = take i ws @ w # drop (Suc i) (take n ws)"
      using assms upd_conv_take_nth_drop [of i "take n ws" w] by (simp add: take_update_swap
        min_absorb1)
  qed
  then show ?thesis
    using assms(3) by (simp add: record_crc32_def xor_right_inject crc32_fold_inject
      crc32_word_inject)
qed

section \<open>Pages\<close>

text \<open>What \<open>read_record\<close> makes of a page, as a function of its words.\<close>

definition page_record :: "(nat \<Rightarrow> u32) \<Rightarrow> decoded_record option" where
  "page_record f =
     (if f 0 \<noteq> CONFIGURATION_RECORD_MAGIC then None
      else case record_format (f 1) of
          None \<Rightarrow> None
        | Some (schema_version, word_count, crc_word_index, commit_word_index) \<Rightarrow>
            (let words = map f [0..<word_count] @ replicate (10 - word_count) 0
             in if words ! commit_word_index \<noteq> CONFIGURATION_RECORD_COMMIT \<or>
                   words ! crc_word_index \<noteq> record_crc32 words crc_word_index \<or>
                   words ! 5 AND CONFIGURATION_RECORD_RESERVED_MASK \<noteq> 0 \<or>
                   \<not> product_configuration_is_valid (Some (dr_configuration (decode_words
                   schema_version words)))
                then None else Some (decode_words schema_version words)))"

definition header2 :: u32 where "header2 = 0x2000A"

lemma record_format_header2: "record_format header2 = Some (2, 10, 8, 9)"
  by (simp add: record_format_def header2_def Let_def)

lemma record_format_cases:
  "record_format h = None \<or> record_format h = Some (1, 8, 6, 7) \<or> record_format h = Some (2, 10, 8,
    9)"
  by (simp add: record_format_def Let_def)

lemma record_format_2: "record_format h = Some (2, 10, 8, 9) \<longleftrightarrow> h = header2"
proof
  assume "record_format h = Some (2, 10, 8, 9)"
  then have a: "ucast (drop_bit 16 h) = (2 :: u16)" and b: "h AND 0xFFFF = 10"
    by (auto simp: record_format_def Let_def split: if_splits)
  have m: "(0xFFFF :: u32) = mask 16" by (simp add: mask_eq_exp_minus_1)
  have "h = push_bit 16 (ucast (ucast (drop_bit 16 h) :: u16)) OR (h AND 0xFFFF)"
    unfolding m by (rule bit_word_eqI) (auto simp: bit_simps not_less dest: bit_imp_le_length)
  then show "h = header2" unfolding a b by (simp add: header2_def)
qed (simp add: record_format_header2)

lemma length_encode_record: "length (encode_record c g) = 10"
  by (simp add: encode_record_def Let_def)

text \<open>The fields of words that were put together from parts.\<close>

definition two_halves :: "u16 \<Rightarrow> u16 \<Rightarrow> u32" where
  "two_halves low high = ucast low OR push_bit 16 (ucast high)"

definition alignment_word :: "u16 \<Rightarrow> u8 \<Rightarrow> bool \<Rightarrow> u32" where
  "alignment_word e d v = ucast e OR push_bit 16 (ucast d)
     OR (if v then CONFIGURATION_RECORD_ALIGNMENT_VALID else 0)"

lemma bit_alignment_valid: "bit CONFIGURATION_RECORD_ALIGNMENT_VALID n \<longleftrightarrow> n = 24"
  unfolding CONFIGURATION_RECORD_ALIGNMENT_VALID_def bit_push_bit_iff by (auto simp: bit_1_iff)

lemma bit_two_halves:
  "bit (two_halves a b) n \<longleftrightarrow> n < 16 \<and> bit a n \<or> 16 \<le> n \<and> n < 32 \<and> bit b (n - 16)"
  unfolding two_halves_def bit_or_iff bit_push_bit_iff by (auto simp: bit_simps dest:
    bit_imp_le_length)

lemma bit_alignment_word:
  "bit (alignment_word e d v) n \<longleftrightarrow>
     n < 16 \<and> bit e n \<or> 16 \<le> n \<and> n < 24 \<and> bit d (n - 16) \<or> v \<and> n = 24"
  unfolding alignment_word_def bit_or_iff bit_push_bit_iff
  by (auto simp: bit_simps bit_alignment_valid dest: bit_imp_le_length)

lemma split_two_halves [simp]:
  "ucast (two_halves a b) = a" "ucast (drop_bit 16 (two_halves a b)) = b"
  by (rule bit_word_eqI, auto simp: bit_simps bit_two_halves dest: bit_imp_le_length)+

lemma split_alignment_word [simp]:
  "ucast (alignment_word e d v) = e" "ucast (drop_bit 16 (alignment_word e d v)) = d"
  "alignment_word e d v AND CONFIGURATION_RECORD_ALIGNMENT_VALID = 0 \<longleftrightarrow> \<not> v"
  "alignment_word e d v AND CONFIGURATION_RECORD_RESERVED_MASK = 0"
proof -
  show "ucast (alignment_word e d v) = e" "ucast (drop_bit 16 (alignment_word e d v)) = d"
    by (rule bit_word_eqI, auto simp: bit_simps bit_alignment_word dest: bit_imp_le_length)+
  have "alignment_word e d v AND push_bit 24 1 = 0 \<longleftrightarrow> \<not> bit (alignment_word e d v) 24"
    using and_exp_eq_0_iff_not_bit [of "alignment_word e d v" 24] by (simp only: push_bit_of_1)
  also have "\<dots> \<longleftrightarrow> \<not> v" by (simp add: bit_alignment_word)
  finally show "alignment_word e d v AND CONFIGURATION_RECORD_ALIGNMENT_VALID = 0 \<longleftrightarrow> \<not> v"
    by (simp only: CONFIGURATION_RECORD_ALIGNMENT_VALID_def)
  have m: "CONFIGURATION_RECORD_RESERVED_MASK = push_bit 25 (mask 7)"
    by (simp add: CONFIGURATION_RECORD_RESERVED_MASK_def mask_eq_exp_minus_1 push_bit_eq_mult)
  show "alignment_word e d v AND CONFIGURATION_RECORD_RESERVED_MASK = 0"
    unfolding m by (rule bit_word_eqI) (auto simp: bit_and_iff bit_push_bit_iff bit_alignment_word)
qed

lemma encode_record_words:
  "encode_record c g =
    (let ws = [CONFIGURATION_RECORD_MAGIC, header2, g,
        two_halves (pc_encoder_counts_per_revolution c) (pc_electrical_cycles_per_revolution c),
        two_halves (ms_electrical_zero_raw (pc_alignment c))
          (ms_observed_quarter_step_counts (pc_alignment c)),
        alignment_word (ms_quarter_step_error_counts (pc_alignment c))
          (ms_encoder_direction (pc_alignment c))
          (ms_valid (pc_alignment c)),
        pc_current_loop_proportional_gain_q16_per_count c,
        pc_current_loop_integral_gain_q16_per_count_per_step c]
     in ws @ [record_crc32 ws 8, CONFIGURATION_RECORD_COMMIT])"
  by (simp add: encode_record_def Let_def alignment_word_def two_halves_def header2_def)

lemma record_crc32_take: "n \<le> length ws \<Longrightarrow> record_crc32 (ws @ vs) n = record_crc32 ws n"
  by (simp add: record_crc32_def)

lemma encode_record_crc: "encode_record c g ! 8 = record_crc32 (encode_record c g) 8"
  unfolding encode_record_words Let_def by (subst record_crc32_take) (simp_all add: nth_append)

lemma decode_encode:
  "decode_words 2 (encode_record c g) = \<lparr>dr_configuration = c, dr_generation = g,
    dr_schema_version = 2,
     dr_words = encode_record c g\<rparr>"
  by (simp add: decode_words_def) (simp add: encode_record_words Let_def)

declare product_configuration_is_valid.simps(2) [simp del]

definition holds_record :: "(nat \<Rightarrow> u32) \<Rightarrow> u32 list \<Rightarrow> bool" where
  "holds_record f words \<longleftrightarrow> map f [0..<10] = words"

lemma holds_record_nth: "holds_record f words \<Longrightarrow> i < 10 \<Longrightarrow> f i = words ! i"
  by (auto simp: holds_record_def)

lemma holds_recordI: "length words = 10 \<Longrightarrow> (\<And>i. i < 10 \<Longrightarrow> f i = words ! i) \<Longrightarrow> holds_record f words"
  unfolding holds_record_def by (rule nth_equalityI) simp_all

lemma encode_record_nth:
  "encode_record c g ! 0 = CONFIGURATION_RECORD_MAGIC" "encode_record c g ! 1 = header2"
  "encode_record c g ! 5 AND CONFIGURATION_RECORD_RESERVED_MASK = 0"
  "encode_record c g ! 7 = pc_current_loop_integral_gain_q16_per_count_per_step c"
  "encode_record c g ! 9 = CONFIGURATION_RECORD_COMMIT"
  by (simp_all add: encode_record_words Let_def)

lemma page_record_2:
  assumes "f 0 = CONFIGURATION_RECORD_MAGIC" "f 1 = header2"
  shows "page_record f = (let words = map f [0..<10] in
     if f 9 \<noteq> CONFIGURATION_RECORD_COMMIT \<or> f 8 \<noteq> record_crc32 words 8 \<or>
        f 5 AND CONFIGURATION_RECORD_RESERVED_MASK \<noteq> 0 \<or>
        \<not> product_configuration_is_valid (Some (dr_configuration (decode_words 2 words)))
     then None else Some (decode_words 2 words))"
  by (simp add: page_record_def assms record_format_header2 Let_def del: upt_rec_numeral
    One_nat_def)

lemma page_of_encoded_record:
  assumes "product_configuration_is_valid (Some c)" "holds_record f (encode_record c g)"
  shows "page_record f = Some \<lparr>dr_configuration = c, dr_generation = g, dr_schema_version = 2,
    dr_words = encode_record c g\<rparr>"
proof -
  note nth = holds_record_nth [OF assms(2)]
  have w: "map f [0..<10] = encode_record c g" using assms(2) by (simp only: holds_record_def)
  show ?thesis
    using assms(1) by (subst page_record_2) (simp_all only: nth encode_record_nth w Let_def
        encode_record_crc [symmetric] decode_encode, simp_all)
qed

text \<open>A damaged word is noticed, wherever it is.\<close>

lemma commit_is_no_gain:
  "product_configuration_is_valid (Some c) \<Longrightarrow>
     pc_current_loop_integral_gain_q16_per_count_per_step c \<noteq> CONFIGURATION_RECORD_COMMIT"
  by (auto simp: CONFIGURATION_RECORD_COMMIT_def Let_def product_configuration_is_valid.simps(2))

lemma damaged_page:
  assumes "product_configuration_is_valid (Some c)" "holds_record f (encode_record c g)"
    and "i < 10" "w \<noteq> f i"
  shows "page_record (f(i := w)) = None"
proof -
  note nth = holds_record_nth [OF assms(2)]
  let ?f = "f(i := w)"
  have w: "map ?f [0..<10] = (encode_record c g)[i := w]"
    using assms(2,3) by (auto simp: holds_record_def list_eq_iff_nth_eq nth_list_update
      length_encode_record)
  consider "i = 0" | "i = 1" | "2 \<le> i" "i < 8" | "i = 8" | "i = 9" using assms(3) by linarith
  then show ?thesis
  proof cases
    case 1
    then show ?thesis using assms(4) nth [of 0] by (simp add: page_record_def encode_record_nth)
  next
    case 2
    then have "record_format w \<noteq> Some (2, 10, 8, 9)"
      using assms(4) nth [of 1] by (simp add: record_format_2 encode_record_nth del: One_nat_def)
    moreover have "f 7 \<noteq> CONFIGURATION_RECORD_COMMIT"
      using nth [of 7] commit_is_no_gain [OF assms(1)] by (simp add: encode_record_nth)
    ultimately show ?thesis
      using 2 record_format_cases [of w] by (auto simp: page_record_def Let_def nth_append)
  next
    case 3
    have "record_crc32 ((encode_record c g)[i := w]) 8 \<noteq> record_crc32 (encode_record c g) 8"
      using 3 assms(4) nth [of i] by (intro record_crc32_detects)
        (simp_all add: length_encode_record)
    then have "?f 8 \<noteq> record_crc32 (map ?f [0..<10]) 8"
      unfolding w using 3 nth [of 8] by (simp add: encode_record_crc)
    then show ?thesis
      using 3 nth [of 0] nth [of 1] by (subst page_record_2)
        (simp_all add: encode_record_nth Let_def del: upt_rec_numeral One_nat_def)
  next
    case 4
    have "?f 8 \<noteq> record_crc32 (map ?f [0..<10]) 8"
      unfolding w using 4 assms(4) nth [of 8]
      by (simp add: encode_record_crc record_crc32_def take_update_cancel)
    then show ?thesis
      using 4 nth [of 0] nth [of 1] by (subst page_record_2)
        (simp_all add: encode_record_nth Let_def del: upt_rec_numeral One_nat_def)
  next
    case 5
    then show ?thesis
      using assms(4) nth [of 0] nth [of 1] nth [of 9]
      by (subst page_record_2) (simp_all add: encode_record_nth Let_def del: upt_rec_numeral
        One_nat_def)
  qed
qed

text \<open>A record that is only partly programmed is no record.\<close>

definition partly_programmed :: "u32 list \<Rightarrow> nat \<Rightarrow> nat \<Rightarrow> u32" where
  "partly_programmed words k i = (if i < k then words ! i else 0xFFFFFFFF)"

lemma record_format_erased: "record_format 0xFFFFFFFF = None"
  by (simp add: record_format_def Let_def drop_bit_eq_div)

text \<open>
  Neither is one whose last programmed word came out wrong: before the commit word nothing commits
  the page, and a wrong commit word commits nothing.
\<close>

lemma torn_page:
  assumes "k < 9"
  shows "page_record ((partly_programmed (encode_record c g) k)(k := v)) = None"
proof -
  let ?f = "(partly_programmed (encode_record c g) k)(k := v)"
  have late: "?f i = 0xFFFFFFFF" if "k < i" for i using that by (simp add: partly_programmed_def)
  have last: "?f 9 \<noteq> CONFIGURATION_RECORD_COMMIT"
    using assms late [of 9] by (simp add: CONFIGURATION_RECORD_COMMIT_def)
  consider "k = 0" | "k = 1" | "1 < k" by linarith
  then show ?thesis
  proof cases
    case 1
    then show ?thesis using late [of 1] by (simp add: page_record_def record_format_erased)
  next
    case 2
    then show ?thesis
      using last late [of 7] record_format_cases [of v]
      by (auto simp: page_record_def Let_def nth_append CONFIGURATION_RECORD_COMMIT_def)
  next
    case 3
    then have "?f 0 = CONFIGURATION_RECORD_MAGIC" "?f 1 = header2"
      by (simp_all add: partly_programmed_def encode_record_nth del: One_nat_def)
    then show ?thesis using last by (simp add: page_record_2 Let_def del: upt_rec_numeral
      fun_upd_apply)
  qed
qed

definition record_of :: "product_configuration \<Rightarrow> u32 \<Rightarrow> decoded_record" where
  "record_of c g = \<lparr>dr_configuration = c, dr_generation = g, dr_schema_version = 2,
     dr_words = encode_record c g\<rparr>"

lemma full_page:
  assumes "product_configuration_is_valid (Some c)"
  shows "holds_record (partly_programmed (encode_record c g) 10) (encode_record c g)"
    "page_record (partly_programmed (encode_record c g) 10) = Some (record_of c g)"
proof -
  show h: "holds_record (partly_programmed (encode_record c g) 10) (encode_record c g)"
    by (rule holds_recordI) (simp_all add: partly_programmed_def length_encode_record)
  show "page_record (partly_programmed (encode_record c g) 10) = Some (record_of c g)"
    using page_of_encoded_record [OF assms h] by (simp add: record_of_def)
qed

lemma torn_record:
  assumes "product_configuration_is_valid (Some c)" "k < 10"
  shows "page_record ((partly_programmed (encode_record c g) k)(k := v)) \<in> {None,
    Some (record_of c g)}"
proof (cases "k = 9")
  case True
  let ?full = "partly_programmed (encode_record c g) 10"
  have eq: "(partly_programmed (encode_record c g) 9)(9 := v) = ?full(9 := v)"
    by (auto simp: partly_programmed_def fun_eq_iff)
  show ?thesis
  proof (cases "v = ?full 9")
    case True
    then show ?thesis using \<open>k = 9\<close> eq full_page(2) [OF assms(1)] by (simp add: fun_upd_idem)
  next
    case False
    then show ?thesis using \<open>k = 9\<close> eq damaged_page [OF assms(1) full_page(1) [OF assms(1)],
      of 9 v] by simp
  qed
qed (use torn_page [of k c g v] assms(2) in simp)

section \<open>Selecting a slot\<close>

definition stored :: "(u8 \<Rightarrow> nat \<Rightarrow> u32) \<Rightarrow> (u8 \<times> decoded_record) option" where
  "stored v = select_slot (page_record (v 0)) (page_record (v 1))"

lemma newer_by_one: "generation_is_newer (g + 1) g" "\<not> generation_is_newer g (g + 1)"
  by (simp_all add: generation_is_newer_def Let_def)

lemma stored_active: "stored v = Some (a, r) \<Longrightarrow> (a = 0 \<or> a = 1) \<and> page_record (v a) = Some r"
  by (auto simp: stored_def select_slot_def split: option.splits if_splits)

lemma stored_other_lost:
  "stored v = Some (a, r) \<Longrightarrow> page_record f = None \<Longrightarrow> stored (v(a XOR 1 := f)) = Some (a, r)"
  using stored_active [of v a r] by (auto simp: stored_def select_slot_def)

lemma stored_newer:
  "stored v = Some (a, r) \<Longrightarrow> page_record f = Some r' \<Longrightarrow> dr_generation r' = dr_generation r + 1 \<Longrightarrow>
     stored (v(a XOR 1 := f)) = Some (a XOR 1, r')"
  using stored_active [of v a r] by (auto simp: stored_def select_slot_def newer_by_one)

lemma stored_none:
  "stored v = None \<Longrightarrow> page_record f = None \<Longrightarrow> stored (v(0 := f)) = None"
  "stored v = None \<Longrightarrow> page_record f = Some r \<Longrightarrow> stored (v(0 := f)) = Some (0, r)"
  by (auto simp: stored_def select_slot_def split: option.splits if_splits)

lemma stored_cong:
  "page_record (v 0) = page_record (w 0) \<Longrightarrow> page_record (v 1) = page_record (w 1) \<Longrightarrow> stored v =
    stored w"
  by (simp add: stored_def)

lemma erased_page: "page_record (\<lambda>_. 0xFFFFFFFF) = None"
  by (simp add: page_record_def CONFIGURATION_RECORD_MAGIC_def)

text \<open>The slot the next save writes, and the generation it gives.\<close>

definition save_target :: "'d configuration_store \<Rightarrow> u8" where
  "save_target store = (if st_record_valid store then st_active_slot store XOR 1 else 0)"

definition save_generation :: "'d configuration_store \<Rightarrow> u32" where
  "save_generation store = (if st_record_valid store then st_generation store + 1 else 1)"

text \<open>
  A store in step with what the slots show; and a store that is in step with them but for the slot
  the next save writes, which may show a record of one of the configurations attempted before.
\<close>

definition in_step :: "'d configuration_store \<Rightarrow> (u8 \<Rightarrow> nat \<Rightarrow> u32) \<Rightarrow> bool" where
  "in_step store v \<longleftrightarrow> st_initialized store \<and>
     (case stored v of
        None \<Rightarrow> \<not> st_record_valid store
      | Some (a, r) \<Rightarrow> st_record_valid store \<and> st_active_slot store = a \<and>
          st_configuration store = dr_configuration r \<and> st_generation store = dr_generation r)"

definition beside_target :: "'d configuration_store \<Rightarrow> (u8 \<Rightarrow> nat \<Rightarrow> u32) \<Rightarrow> u8 \<Rightarrow> nat \<Rightarrow> u32" where
  "beside_target store v = v(save_target store := \<lambda>_. 0xFFFFFFFF)"

definition keeps_up ::
  "'d configuration_store \<Rightarrow> product_configuration list \<Rightarrow> (u8 \<Rightarrow> nat \<Rightarrow> u32) \<Rightarrow> bool" where
  "keeps_up store attempts v \<longleftrightarrow> in_step store (beside_target store v) \<and>
     (stored v = stored (beside_target store v) \<or>
      (\<exists>r. stored v = Some (save_target store, r) \<and> dr_configuration r \<in> set attempts))"

lemma in_step_target:
  assumes "in_step store v"
  shows "save_target store < 2"
    "page_record f = None \<Longrightarrow> stored (v(save_target store := f)) = stored v"
    "page_record f = Some r \<Longrightarrow> dr_generation r = save_generation store \<Longrightarrow>
       stored (v(save_target store := f)) = Some (save_target store, r)"
  using assms stored_other_lost stored_none stored_newer
  by (auto simp: in_step_def save_target_def save_generation_def split: option.splits dest:
    stored_active)

lemma in_step_keeps_up:
  assumes "in_step store v"
  shows "keeps_up store attempts v"
proof -
  have "stored (beside_target store v) = stored v"
    using in_step_target(2) [OF assms erased_page] by (simp add: beside_target_def)
  then show ?thesis using assms by (simp add: keeps_up_def in_step_def)
qed

lemma keeps_up_marks:
  "keeps_up (store\<lparr>st_valid_slot_mask := m\<rparr>) a v = keeps_up store a v"
  "keeps_up (store\<lparr>st_last_result := l\<rparr>) a v = keeps_up store a v"
  by (simp_all add: keeps_up_def in_step_def beside_target_def save_target_def split: option.split)

text \<open>The slot to write may come to show what it showed, nothing, or the new record.\<close>

lemma keeps_up_target:
  assumes "keeps_up store attempts v" "save_target store < 2"
    and "page_record f \<in> {None, page_record (v (save_target store)),
      Some (record_of c (save_generation store))}"
  shows "keeps_up store (c # attempts) (v(save_target store := f))"
proof -
  let ?t = "save_target store" and ?v = "v(save_target store := f)"
  have b: "beside_target store ?v = beside_target store v"
    "?v = (beside_target store v)(?t := f)" by (simp_all add: beside_target_def)
  have i: "in_step store (beside_target store v)" using assms(1) by (simp add: keeps_up_def)
  consider "page_record f = None" | "page_record f = page_record (v ?t)"
    | "page_record f = Some (record_of c (save_generation store))" using assms(3) by auto
  then show ?thesis
  proof cases
    case 1
    then have "stored ?v = stored (beside_target store v)"
      using in_step_target(2) [OF i, of f] b(2) by simp
    then show ?thesis using i b(1) by (simp add: keeps_up_def)
  next
    case 2
    then have "stored ?v = stored v" by (intro stored_cong) simp_all
    then show ?thesis using assms(1) b(1) by (auto simp: keeps_up_def)
  next
    case 3
    then have "stored ?v = Some (?t, record_of c (save_generation store))"
      using in_step_target(3) [OF i 3] b(2) by (simp add: record_of_def)
    then show ?thesis using i b(1) by (simp add: keeps_up_def record_of_def)
  qed
qed

lemma configurations_equal_iff: "configurations_equal l r \<longleftrightarrow> l = r"
  by (cases l; cases r) (auto simp: configurations_equal_def intro: motor_alignment_status.equality)

section \<open>The storage device\<close>

text \<open>
  What the store relies on, in terms of the words a device shows. Loading needs that the reads of
  the record area succeed.
\<close>

locale storage_reader =
  fixes b :: "'d configuration_store_backend"
    and view :: "'d \<Rightarrow> u8 \<Rightarrow> nat \<Rightarrow> u32"
  assumes callbacks: "cb_read_word b \<noteq> None" "cb_erase_slot b \<noteq> None" "cb_program_word b \<noteq> None"
    and read_shows: "s < 2 \<Longrightarrow> i < 10 \<Longrightarrow>
      \<exists>d'. backend_read b d s i = (Some (view d s i), d') \<and> view d' = view d"
begin

lemma read_words_show:
  "s < 2 \<Longrightarrow> list_all (\<lambda>i. i < 10) is \<Longrightarrow>
     \<exists>d'. read_words b d s is ws = (True, foldl (\<lambda>ws i. ws[i := view d s i]) ws is, d') \<and> view d' =
       view d"
proof (induction "is" arbitrary: d ws)
  case (Cons i "is")
  then obtain d1 where "backend_read b d s i = (Some (view d s i), d1)" "view d1 = view d"
    using read_shows [of s i d] by auto
  moreover obtain d2 where "read_words b d1 s is (ws[i := view d s i])
      = (True, foldl (\<lambda>ws i. ws[i := view d1 s i]) (ws[i := view d s i]) is, d2)" "view d2 =
        view d1"
    using Cons by fastforce
  ultimately show ?case by simp
qed simp

lemma first_words: "foldl (\<lambda>ws i. ws[i := f i]) (replicate 10 0) [0, 1] = [f 0, f 1, 0, 0, 0, 0, 0,
  0, 0, (0 :: u32)]"
  by (simp add: numeral_eq_Suc)

lemma all_words:
  "foldl (\<lambda>ws i. ws[i := f i]) [f 0, f 1, 0, 0, 0, 0, 0, 0, 0, (0 :: u32)] [2..<8]
     = map f [0..<8] @ replicate (10 - 8) 0"
  "foldl (\<lambda>ws i. ws[i := f i]) [f 0, f 1, 0, 0, 0, 0, 0, 0, 0, (0 :: u32)] [2..<10]
     = map f [0..<10] @ replicate (10 - 10) 0"
  by (simp_all add: upt_rec numeral_eq_Suc)

lemma read_record_shows:
  assumes "s < 2"
  shows "\<exists>d'. read_record b d s io = (page_record (view d s), io, d') \<and> view d' = view d"
proof -
  let ?f = "view d s"
  obtain d1 where r1: "read_words b d s [0, 1] (replicate 10 0)
      = (True, [?f 0, ?f 1, 0, 0, 0, 0, 0, 0, 0, 0], d1)" "view d1 = view d"
    using read_words_show [OF assms, of "[0, 1]" d "replicate 10 0"] first_words [of ?f] by auto
  have idx: "list_all (\<lambda>i. i < 10) [2..<8]" "list_all (\<lambda>i. i < 10) [2..<10]"
    by (simp_all add: list_all_iff)
  obtain d2 where r2: "read_words b d1 s [2..<8] [?f 0, ?f 1, 0, 0, 0, 0, 0, 0, 0, 0]
      = (True, map ?f [0..<8] @ replicate (10 - 8) 0, d2)" "view d2 = view d"
    using read_words_show [OF assms idx(1), of d1 "[?f 0, ?f 1, 0, 0, 0, 0, 0, 0, 0, 0]"]
    unfolding r1(2) all_words(1) by blast
  obtain d3 where r3: "read_words b d1 s [2..<10] [?f 0, ?f 1, 0, 0, 0, 0, 0, 0, 0, 0]
      = (True, map ?f [0..<10] @ replicate (10 - 10) 0, d3)" "view d3 = view d"
    using read_words_show [OF assms idx(2), of d1 "[?f 0, ?f 1, 0, 0, 0, 0, 0, 0, 0, 0]"]
    unfolding r1(2) all_words(2) by blast
  have n: "[?f 0, ?f 1, 0, 0, 0, 0, 0, 0, 0, 0] ! 0 = ?f 0" "[?f 0, ?f 1, 0, 0, 0, 0, 0, 0, 0,
    0] ! 1 = ?f 1"
    by simp_all
  have rr: "read_record b d s io =
      (if ?f 0 \<noteq> CONFIGURATION_RECORD_MAGIC then (None, io, d1)
       else case record_format (?f 1) of None \<Rightarrow> (None, io, d1)
         | Some (schema_version, word_count, crc_word_index, commit_word_index) \<Rightarrow>
             (case read_words b d1 s [2..<word_count] [?f 0, ?f 1, 0, 0, 0, 0, 0, 0, 0, 0] of
                (False, words, d) \<Rightarrow> (None, True, d)
              | (True, words, d) \<Rightarrow>
                  if words ! commit_word_index \<noteq> CONFIGURATION_RECORD_COMMIT \<or>
                     words ! crc_word_index \<noteq> record_crc32 words crc_word_index \<or>
                     words ! 5 AND CONFIGURATION_RECORD_RESERVED_MASK \<noteq> 0
                  then (None, io, d)
                  else
                    (let record = decode_words schema_version words
                     in if product_configuration_is_valid (Some (dr_configuration record))
                        then (Some record, io, d) else (None, io, d))))"
    unfolding read_record_def r1(1) prod.case bool.case n ..
  consider "?f 0 \<noteq> CONFIGURATION_RECORD_MAGIC" | "?f 0 = CONFIGURATION_RECORD_MAGIC" "record_format
    (?f 1) = None"
    | "?f 0 = CONFIGURATION_RECORD_MAGIC" "record_format (?f 1) = Some (1, 8, 6, 7)"
    | "?f 0 = CONFIGURATION_RECORD_MAGIC" "record_format (?f 1) = Some (2, 10, 8, 9)"
    using record_format_cases [of "?f 1"] by argo
  then show ?thesis
  proof cases
    case 3
    have "read_record b d s io = (page_record ?f, io, d2)"
      unfolding rr page_record_def 3(2) option.case prod.case r2(1) bool.case Let_def using 3(1)
        by simp
    with r2(2) show ?thesis by blast
  next
    case 4
    have "read_record b d s io = (page_record ?f, io, d3)"
      unfolding rr page_record_def 4(2) option.case prod.case r3(1) bool.case Let_def using 4(1)
        by simp
    with r3(2) show ?thesis by blast
  qed (use r1(2) in \<open>simp_all add: rr page_record_def\<close>)
qed

lemma init_shows:
  "\<exists>d' store. configuration_store_init (Some s0) (Some b) d = (st_last_result store, Some store, d')
    \<and>
     view d' = view d \<and> st_backend store = b \<and> st_initialized store \<and>
     (case stored (view d) of
        None \<Rightarrow> \<not> st_record_valid store \<and> st_last_result store = CONFIGURATION_STORE_RESULT_EMPTY
      | Some (a, r) \<Rightarrow> st_record_valid store \<and> st_last_result store = CONFIGURATION_STORE_RESULT_OK \<and>
          st_active_slot store = a \<and> st_configuration store = dr_configuration r \<and>
          st_generation store = dr_generation r \<and> st_record_schema_version store =
            dr_schema_version r)"
proof -
  obtain d1 where d1: "read_record b d 0 False = (page_record (view d 0), False, d1)" "view d1 =
    view d"
    using read_record_shows [of 0 d False] by auto
  obtain d2 where d2: "read_record b d1 1 False = (page_record (view d 1), False, d2)" "view d2 =
    view d"
    using read_record_shows [of 1 d1 False] d1(2) by auto
  show ?thesis
    using callbacks d2(2) by (auto simp: d1(1) d2(1) Let_def stored_def split: option.split)
qed

end

text \<open>
  Saving needs more. An erase or a programming that reports success has been done in full. One that
  reports failure, or that a loss of power cuts off, may have been done in full, in part or not at
  all: a word may hold anything then, and so may a page, except that the wreck of an erase is not
  taken for a record it did not hold (\<open>erase_effect\<close>),
    which is what the CRC is relied on for. Neither
  touches another slot.
\<close>

locale storage_device = storage_reader +
  assumes erase_effect: "s < 2 \<Longrightarrow> backend_erase b d s = (ok, d') \<Longrightarrow>
      \<exists>f. view d' = (view d)(s := f) \<and> (ok \<longrightarrow> f = (\<lambda>_. 0xFFFFFFFF)) \<and>
        page_record f \<in> {None, page_record (view d s)}"
    and program_effect: "s < 2 \<Longrightarrow> i < 10 \<Longrightarrow> backend_program b d s i w = (ok, d') \<Longrightarrow>
      \<exists>w'. view d' = (view d)(s := (view d s)(i := w')) \<and> (ok \<longrightarrow> w' = w)"
begin

text \<open>Programming a record: all its words, or some first ones and then one that may be wrong.\<close>

lemma program_words_effect:
  assumes "s < 2" "length ws = 10" "view d s = partly_programmed ws k" "k \<le> 10"
    and "program_words b d s k (drop k ws) = (ok, d')"
  shows "\<exists>f. view d' = (view d)(s := f) \<and>
    (f = partly_programmed ws 10 \<or> \<not> ok \<and> (\<exists>j<10. \<exists>w. f = (partly_programmed ws j)(j := w)))"
  using assms(3-5)
proof (induction "drop k ws" arbitrary: k d)
  case Nil
  then have "k = 10" using assms(2) by simp
  then show ?case
    using Nil.prems Nil.hyps by (intro exI [of _ "partly_programmed ws 10"]) (auto simp: fun_eq_iff)
next
  case (Cons w rest)
  have k: "k < 10" using Cons.hyps(2) assms(2) by (metis drop_eq_Nil list.distinct(1) not_le)
  have w: "w = ws ! k" "rest = drop (Suc k) ws"
    using Cons.hyps(2) k assms(2) by (metis Cons_nth_drop_Suc list.inject)+
  have next_page: "(partly_programmed ws k)(k := ws ! k) = partly_programmed ws (Suc k)"
    by (auto simp: partly_programmed_def fun_eq_iff less_Suc_eq)
  obtain okk d1 where p: "backend_program b d s k w = (okk, d1)" by fastforce
  obtain w' where v: "view d1 = (view d)(s := (partly_programmed ws k)(k := w'))" "okk \<longrightarrow> w' = w"
    using program_effect [OF assms(1) k p] Cons.prems(1) by auto
  show ?case
  proof (cases okk)
    case True
    then have v1: "view d1 = (view d)(s := partly_programmed ws (Suc k))" using v w(1)
      next_page by simp
    have "program_words b d1 s (Suc k) (drop (Suc k) ws) = (ok, d')"
      using Cons.prems(3) Cons.hyps(2) [symmetric] p True w(2) by simp
    then show ?thesis using Cons.hyps(1) [of "Suc k" d1] w(2) v1 k by auto
  next
    case False
    then have "ok = False" "d' = d1" using Cons.prems(3) Cons.hyps(2) [symmetric] p by simp_all
    then show ?thesis using v(1) k by blast
  qed
qed

lemma write_record_effect:
  assumes "keeps_up store attempts (view d)" "st_backend store =
    b" "product_configuration_is_valid (Some c)"
    and "write_record store c d = (res, Some store', d')"
  shows "st_backend store' = b \<and>
     (if res = CONFIGURATION_STORE_RESULT_OK then in_step store' (view d') \<and>
       st_configuration store' = c \<and>
        st_record_valid store'
      else keeps_up store' (c # attempts) (view d') \<and> st_configuration store' =
        st_configuration store \<and>
        st_record_valid store' = st_record_valid store)"
proof -
  define t g where "t = save_target store" and "g = save_generation store"
  define ws where "ws = encode_record c g"
  have i: "in_step store (beside_target store (view d))" using assms(1) by (simp add: keeps_up_def)
  note t = in_step_target(1) [OF i, folded t_def]
  note kept = keeps_up_target [OF assms(1), of _ c, folded t_def g_def, OF t]
  note wr = write_record_def Let_def assms(2) store_fail_def
    t_def [symmetric, unfolded save_target_def] g_def [symmetric,
      unfolded save_generation_def] ws_def [symmetric]
  obtain ok1 d1 where e: "backend_erase b d t = (ok1, d1)" by fastforce
  obtain f1 where f1: "view d1 = (view d)(t := f1)" "ok1 \<longrightarrow> f1 = (\<lambda>_. 0xFFFFFFFF)"
    "page_record f1 \<in> {None, page_record (view d t)}" using erase_effect [OF t e] by blast
  obtain ok2 d2 where p: "program_words b d1 t 0 ws = (ok2, d2)" by fastforce
  show ?thesis
  proof (cases ok1)
    case False
    then have "res \<noteq> CONFIGURATION_STORE_RESULT_OK" "d' = d1"
      "\<exists>m l. store' = store\<lparr>st_valid_slot_mask := m, st_last_result := l\<rparr>"
      using assms(4) e by (auto simp: wr)
    then show ?thesis using kept [of f1] f1(1,3) assms(2) by (auto simp: keeps_up_marks)
  next
    case True
    have v1: "view d1 t = partly_programmed ws 0"
      using f1(1,2) True by (simp add: fun_eq_iff partly_programmed_def)
    obtain f where f: "view d2 = (view d1)(t := f)"
      "f = partly_programmed ws 10 \<or> \<not> ok2 \<and> (\<exists>j<10. \<exists>w. f = (partly_programmed ws j)(j := w))"
      using program_words_effect [OF t _ v1,
        of ok2 d2] p by (auto simp: ws_def length_encode_record)
    have v2: "view d2 = (view d)(t := f)" using f(1) f1(1) by simp
    have pf: "page_record f \<in> {None, Some (record_of c g)}"
      using f(2) torn_record [OF assms(3)] full_page(2) [OF assms(3)] unfolding ws_def by auto
    show ?thesis
    proof (cases ok2)
      case False
      then have "res \<noteq> CONFIGURATION_STORE_RESULT_OK" "d' = d2"
        "\<exists>m l. store' = store\<lparr>st_valid_slot_mask := m, st_last_result := l\<rparr>"
        using assms(4) e True p by (auto simp: wr)
      then show ?thesis using kept [of f] pf v2 assms(2) by (auto simp: keeps_up_marks)
    next
      case ok2: True
      then have pr: "page_record (view d2 t) = Some (record_of c g)"
        using f(2) v2 full_page(2) [OF assms(3)] by (simp add: ws_def)
      obtain d3 where r: "read_record b d2 t False = (Some (record_of c g), False, d3)" "view d3 =
        view d2"
        using read_record_shows [OF t] pr by metis
      have st: "stored (view d3) = Some (t, record_of c g)"
        using in_step_target(3) [OF i, folded t_def g_def, of f "record_of c g"] v2 pr r(2)
        by (simp add: beside_target_def t_def record_of_def)
      then show ?thesis
        using assms(4) e True p ok2 r(1) i
        by (auto simp: wr configurations_equal_def in_step_def record_of_def)
    qed
  qed
qed

end

section \<open>Histories of saves\<close>

text \<open>
  A history of the store on a device: it is loaded, then configurations are saved. \<open>kept\<close> is the
    last
  configuration a save reported stored (or what was loaded, if none did since); \<open>attempts\<close> are the
  configurations of the saves since then that did not report success. A save of the configuration
  the store already holds reports success without writing anything, so it does not end the attempts
  before it. A loss of power is a save whose remaining operations have no effect; a new history
  starts with the next load.
\<close>

definition held :: "'d configuration_store \<Rightarrow> product_configuration option" where
  "held store = (if st_initialized store \<and> st_record_valid store then Some (st_configuration store)
    else None)"

inductive store_history ::
  "'d configuration_store_backend \<Rightarrow> 'd configuration_store \<Rightarrow> 'd \<Rightarrow> product_configuration option \<Rightarrow>
     product_configuration list \<Rightarrow> bool" for b where
  loaded: "configuration_store_init (Some s0) (Some b) d = (r, Some store, d') \<Longrightarrow>
     store_history b store d' (held store) []"
| saved: "store_history b store d kept attempts \<Longrightarrow>
     configuration_store_save (Some store) (Some c) d = (CONFIGURATION_STORE_RESULT_OK, Some store',
       d') \<Longrightarrow>
     store_history b store' d' (Some c)
       (if configuration_store_matches (Some store) (Some c) then attempts else [])"
| failed: "store_history b store d kept attempts \<Longrightarrow>
     configuration_store_save (Some store) (Some c) d = (res, Some store', d') \<Longrightarrow>
     res \<noteq> CONFIGURATION_STORE_RESULT_OK \<Longrightarrow> store_history b store' d' kept (c # attempts)"

context storage_device
begin

lemma save_effect:
  assumes "keeps_up store attempts (view d)" "st_backend store = b"
    and "configuration_store_save (Some store) (Some c) d = (res, Some store', d')"
  shows "st_backend store' = b \<and>
     (if res = CONFIGURATION_STORE_RESULT_OK
      then held store' = Some c \<and>
        keeps_up store' (if configuration_store_matches (Some store) (Some c) then attempts else [])
          (view d')
      else held store' = held store \<and> keeps_up store' (c # attempts) (view d'))"
proof -
  have init: "st_initialized store" using assms(1) by (simp add: keeps_up_def in_step_def)
  have more: "keeps_up store (c # attempts) (view d)" using assms(1) by (auto simp: keeps_up_def)
  show ?thesis
  proof (cases "product_configuration_is_valid (Some c)")
    case False
    then show ?thesis using assms more by (auto simp: keeps_up_marks store_fail_def held_def)
  next
    case valid: True
    show ?thesis
    proof (cases "st_record_valid store \<and> st_record_schema_version store = 2 \<and>
      st_configuration store = c")
      case True
      then show ?thesis using assms valid init by (auto simp: keeps_up_marks
        configurations_equal_iff held_def)
    next
      case False
      then have w: "write_record store c d = (res, Some store', d')"
        using assms(3) valid init by (auto simp: configurations_equal_iff)
      note e = write_record_effect [OF assms(1,2) valid w]
      then have "st_initialized store'" by (auto simp: keeps_up_def in_step_def split: if_splits)
      with e show ?thesis
        using init in_step_keeps_up [of store' "view d'"] by (simp add: held_def split: if_splits)
    qed
  qed
qed

lemma history_keeps_up:
  "store_history b store d kept attempts \<Longrightarrow>
     st_backend store = b \<and> held store = kept \<and> keeps_up store attempts (view d)"
proof (induction rule: store_history.induct)
  case (loaded s0 d r store d')
  then have "st_backend store = b \<and> in_step store (view d')"
    using init_shows [of s0 d] by (auto simp: in_step_def split: option.splits)
  then show ?case using in_step_keeps_up by blast
next
  case (saved store d kept attempts c store' d')
  then show ?case using save_effect [of store attempts d c] by auto
next
  case (failed store d kept attempts c res store' d')
  then show ?case using save_effect [of store attempts d c] by auto
qed

lemma load_after_history:
  assumes "store_history b store d kept attempts"
    and "configuration_store_init (Some s1) (Some b) d = (res1, Some store1, d1)"
  shows "held store = kept \<and> (held store1 = kept \<or> (\<exists>c\<in>set attempts. held store1 = Some c))"
proof -
  have h: "held store = kept" "keeps_up store attempts (view d)"
    using history_keeps_up [OF assms(1)] by simp_all
  have s1: "held store1 = map_option (dr_configuration \<circ> snd) (stored (view d))"
    using init_shows [of s1 d] assms(2) by (auto simp: held_def split: option.splits)
  have s: "held store = map_option (dr_configuration \<circ> snd) (stored (beside_target store (view d)))"
    using h(2) by (auto simp: keeps_up_def in_step_def held_def split: option.splits)
  show ?thesis using h s s1 by (auto simp: keeps_up_def)
qed

end

end
