(* ===== verification/Config_Flash.thy ===== *)
theory Config_Flash
  imports Config_Store
begin

text \<open>
  The flash backend of the configuration store, \<open>firmware/src/platform/configuration_flash.c\<close>. The
  microcontroller is a parameter: what its registers and its memory answer, and what the interrupt
  mask instructions do, are functions on a hardware state; the linker symbols are parameters too.
  Under the controller's documented behaviour (a page is only changed by a start with page erase
  selected, a word only by a store to it; either may go wrong and leave anything there) the backend
  is a storage device in the sense of the store, whatever the status flags, timeouts and failures.
  An operation takes its effect, complete or not, at the write that starts it: an erase that is
  still under way after the driver has given up polling is not modelled.
\<close>

section \<open>Hardware\<close>

datatype flash_register = RCC_CTRL | FLASH_STS | FLASH_CTRL | FLASH_KEYR | FLASH_ADD

record 'h flash_bus =
  fb_read :: "'h \<Rightarrow> flash_register \<Rightarrow> u32 \<times> 'h"
  fb_write :: "'h \<Rightarrow> flash_register \<Rightarrow> u32 \<Rightarrow> 'h"
  fb_load :: "'h \<Rightarrow> u32 \<Rightarrow> u32 \<times> 'h"
  fb_store :: "'h \<Rightarrow> u32 \<Rightarrow> u32 \<Rightarrow> 'h"
  fb_primask :: "'h \<Rightarrow> u32"
  fb_disable_irq :: "'h \<Rightarrow> 'h"
  fb_enable_irq :: "'h \<Rightarrow> 'h"

record linker_symbols =
  configuration_slot0_start :: u32
  configuration_slot1_start :: u32
  configuration_slot1_end :: u32

abbreviation RCC_CTRL_HSIEN :: u32 where "RCC_CTRL_HSIEN \<equiv> 1"
abbreviation RCC_CTRL_HSIRDF :: u32 where "RCC_CTRL_HSIRDF \<equiv> 2"
abbreviation FLASH_STS_BUSY :: u32 where "FLASH_STS_BUSY \<equiv> 1"
abbreviation FLASH_STS_EOP :: u32 where "FLASH_STS_EOP \<equiv> 0x20"
abbreviation FLASH_CTRL_PG :: u32 where "FLASH_CTRL_PG \<equiv> 1"
abbreviation FLASH_CTRL_PER :: u32 where "FLASH_CTRL_PER \<equiv> 2"
abbreviation FLASH_CTRL_START :: u32 where "FLASH_CTRL_START \<equiv> 0x40"
abbreviation FLASH_CTRL_LOCK :: u32 where "FLASH_CTRL_LOCK \<equiv> 0x80"

text \<open>Programming, verify, protection, erase-verify and ECC errors; with end of operation.\<close>

abbreviation FLASH_STATUS_ERROR_MASK :: u32 where "FLASH_STATUS_ERROR_MASK \<equiv> 0xDC"
abbreviation FLASH_STATUS_CLEAR_MASK :: u32 where "FLASH_STATUS_CLEAR_MASK \<equiv> 0xFC"

text \<open>The mode bits: PG, PER, MER, OPTPG and OPTER; with the programming size select.\<close>

abbreviation FLASH_MODE_MASK :: u32 where "FLASH_MODE_MASK \<equiv> 0x37"
abbreviation FLASH_MODE_SMPSEL_MASK :: u32 where "FLASH_MODE_SMPSEL_MASK \<equiv> 0x137"

definition modify :: "'h flash_bus \<Rightarrow> flash_register \<Rightarrow> (u32 \<Rightarrow> u32) \<Rightarrow> 'h \<Rightarrow> 'h" where
  "modify b r f h = (case fb_read b h r of (v, h) \<Rightarrow> fb_write b h r (f v))"

section \<open>Operations\<close>

definition slot_base :: "linker_symbols \<Rightarrow> u8 \<Rightarrow> u32" where
  "slot_base ld slot =
     (if slot = 0 then configuration_slot0_start ld
      else if slot = 1 then configuration_slot1_start ld else 0)"

text \<open>
  The polling loops: while the flag has the awaited value and iterations remain. The register is
  read once more for the result.
\<close>

fun poll :: "'h flash_bus \<Rightarrow> flash_register \<Rightarrow> u32 \<Rightarrow> bool \<Rightarrow> nat \<Rightarrow> 'h \<Rightarrow> 'h" where
  "poll b r flag level remaining h =
     (case fb_read b h r of (v, h) \<Rightarrow>
        if (v AND flag \<noteq> 0) = level \<and> remaining \<noteq> 0
        then poll b r flag level (remaining - 1) h else h)"

declare poll.simps [simp del]

definition wait_for_hsi :: "'h flash_bus \<Rightarrow> 'h \<Rightarrow> bool \<times> 'h" where
  "wait_for_hsi b h =
     (case fb_read b (poll b RCC_CTRL RCC_CTRL_HSIRDF False 1000000 h) RCC_CTRL of
        (v, h) \<Rightarrow> (v AND RCC_CTRL_HSIRDF \<noteq> 0, h))"

definition wait_for_flash :: "'h flash_bus \<Rightarrow> 'h \<Rightarrow> bool \<times> 'h" where
  "wait_for_flash b h =
     (case fb_read b (poll b FLASH_STS FLASH_STS_BUSY True 8000000 h) FLASH_STS of
        (v, h) \<Rightarrow> (v AND FLASH_STS_BUSY = 0, h))"

text \<open>The result, whether the internal oscillator was already on, and the hardware.\<close>

definition release_hsi :: "'h flash_bus \<Rightarrow> bool \<Rightarrow> 'h \<Rightarrow> 'h" where
  "release_hsi b hsi_was_enabled h =
     (if hsi_was_enabled then h else modify b RCC_CTRL (\<lambda>v. v AND NOT RCC_CTRL_HSIEN) h)"

definition unlock_flash :: "'h flash_bus \<Rightarrow> 'h \<Rightarrow> 'h" where
  "unlock_flash b h =
     (case fb_read b h FLASH_CTRL of (v, h) \<Rightarrow>
        if v AND FLASH_CTRL_LOCK \<noteq> 0
        then fb_write b (fb_write b h FLASH_KEYR 0x45670123) FLASH_KEYR 0xCDEF89AB else h)"

definition begin_operation :: "'h flash_bus \<Rightarrow> 'h \<Rightarrow> bool \<times> bool \<times> 'h" where
  "begin_operation b h =
     (case fb_read b h RCC_CTRL of (v, h) \<Rightarrow>
      let hsi_was_enabled = (v AND RCC_CTRL_HSIEN \<noteq> 0);
          (hsi_ready, h) =
            (if hsi_was_enabled then (True, h)
             else wait_for_hsi b (modify b RCC_CTRL (\<lambda>v. v OR RCC_CTRL_HSIEN) h))
      in if \<not> hsi_ready
         then (False, hsi_was_enabled, modify b RCC_CTRL (\<lambda>v. v AND NOT RCC_CTRL_HSIEN) h)
         else
           (case wait_for_flash b h of
              (False, h) \<Rightarrow> (False, hsi_was_enabled, release_hsi b hsi_was_enabled h)
            | (True, h) \<Rightarrow>
                (case fb_read b (unlock_flash b h) FLASH_CTRL of (v, h) \<Rightarrow>
                   if v AND FLASH_CTRL_LOCK \<noteq> 0
                   then (False, hsi_was_enabled, release_hsi b hsi_was_enabled h)
                   else (True, hsi_was_enabled,
                         fb_write b (modify b FLASH_CTRL (\<lambda>v. v AND NOT FLASH_MODE_SMPSEL_MASK) h)
                           FLASH_STS FLASH_STATUS_CLEAR_MASK))))"

definition end_operation :: "'h flash_bus \<Rightarrow> bool \<Rightarrow> 'h \<Rightarrow> 'h" where
  "end_operation b hsi_was_enabled h =
     release_hsi b hsi_was_enabled
       (modify b FLASH_CTRL (\<lambda>v. v OR FLASH_CTRL_LOCK)
         (modify b FLASH_CTRL (\<lambda>v. v AND NOT FLASH_MODE_MASK) h))"

text \<open>
  An operation with interrupts masked, bracketed by begin and end: the common frame of erase and
  program.
\<close>

definition guarded :: "'h flash_bus \<Rightarrow> ('h \<Rightarrow> bool \<times> 'h) \<Rightarrow> 'h \<Rightarrow> bool \<times> 'h" where
  "guarded b operation h =
     (let saved_primask = fb_primask b h;
          (success, h) =
            (case begin_operation b (fb_disable_irq b h) of
               (False, hsi_was_enabled, h) \<Rightarrow> (False, h)
             | (True, hsi_was_enabled, h) \<Rightarrow>
                 (case operation h of (success, h) \<Rightarrow> (success, end_operation b hsi_was_enabled h)))
      in (success, if saved_primask = 0 then fb_enable_irq b h else h))"

definition word_address :: "u32 \<Rightarrow> nat \<Rightarrow> u32" where
  "word_address base word_index = base + of_nat (word_index * 4)"

definition flash_read_word ::
  "linker_symbols \<Rightarrow> 'h flash_bus \<Rightarrow> 'h \<Rightarrow> u8 \<Rightarrow> nat \<Rightarrow> u32 option \<times> 'h" where
  "flash_read_word ld b h slot word_index =
     (let base = slot_base ld slot
      in if base = 0 \<or> 512 \<le> word_index then (None, h)
         else (case fb_load b h (word_address base word_index) of (v, h) \<Rightarrow> (Some v, h)))"

fun check_erased :: "'h flash_bus \<Rightarrow> u32 \<Rightarrow> nat list \<Rightarrow> 'h \<Rightarrow> bool \<times> 'h" where
  "check_erased b base [] h = (True, h)"
| "check_erased b base (index # indices) h =
     (case fb_load b h (word_address base index) of (v, h) \<Rightarrow>
        if v \<noteq> 0xFFFFFFFF then (False, h) else check_erased b base indices h)"

definition erase_page :: "'h flash_bus \<Rightarrow> u32 \<Rightarrow> 'h \<Rightarrow> bool \<times> 'h" where
  "erase_page b base h =
     (case fb_read b h FLASH_CTRL of (v, h) \<Rightarrow>
        if v AND FLASH_CTRL_START \<noteq> 0 then (False, h)
        else
          (let h = modify b FLASH_CTRL (\<lambda>v. v OR FLASH_CTRL_PER) h;
               h = fb_write b h FLASH_ADD base;
               h = modify b FLASH_CTRL (\<lambda>v. v OR FLASH_CTRL_START) h
           in case wait_for_flash b h of
                (False, h) \<Rightarrow> (False, h)
              | (True, h) \<Rightarrow>
                  (case fb_read b h FLASH_STS of (status, h) \<Rightarrow>
                     if status AND FLASH_STATUS_ERROR_MASK \<noteq> 0 \<or> status AND FLASH_STS_EOP = 0
                     then (False, h)
                     else check_erased b base [0..<512]
                            (fb_write b h FLASH_STS FLASH_STATUS_CLEAR_MASK))))"

definition flash_erase_slot :: "linker_symbols \<Rightarrow> 'h flash_bus \<Rightarrow> 'h \<Rightarrow> u8 \<Rightarrow> bool \<times> 'h" where
  "flash_erase_slot ld b h slot =
     (let base = slot_base ld slot
      in if base = 0 \<or> base mod 2048 \<noteq> 0 then (False, h) else guarded b (erase_page b base) h)"

definition program_at :: "'h flash_bus \<Rightarrow> u32 \<Rightarrow> u32 \<Rightarrow> 'h \<Rightarrow> bool \<times> 'h" where
  "program_at b address value h =
     (case fb_read b h FLASH_CTRL of (v, h) \<Rightarrow>
        if v AND FLASH_CTRL_START \<noteq> 0 then (False, h)
        else
          (let h = modify b FLASH_CTRL (\<lambda>v. v OR FLASH_CTRL_PG) h;
               h = fb_store b h address value
           in case wait_for_flash b h of
                (False, h) \<Rightarrow> (False, h)
              | (True, h) \<Rightarrow>
                  (case fb_read b h FLASH_STS of (status, h) \<Rightarrow>
                   let (success, h) =
                         (if status AND FLASH_STATUS_ERROR_MASK = 0 \<and> status AND FLASH_STS_EOP \<noteq> 0
                          then (case fb_load b h address of (v, h) \<Rightarrow> (v = value, h)) else (False,
                          h))
                   in (success, fb_write b h FLASH_STS FLASH_STATUS_CLEAR_MASK))))"

definition flash_program_word ::
  "linker_symbols \<Rightarrow> 'h flash_bus \<Rightarrow> 'h \<Rightarrow> u8 \<Rightarrow> nat \<Rightarrow> u32 \<Rightarrow> bool \<times> 'h" where
  "flash_program_word ld b h slot word_index value =
     (let base = slot_base ld slot; address = word_address base word_index
      in if base = 0 \<or> 512 \<le> word_index then (False, h)
         else (case fb_load b h address of (v, h) \<Rightarrow>
                 if v \<noteq> 0xFFFFFFFF then (False, h) else guarded b (program_at b address value) h))"

definition flash_backend :: "linker_symbols \<Rightarrow> 'h flash_bus \<Rightarrow> 'h configuration_store_backend" where
  "flash_backend ld b = \<lparr>cb_read_word = Some (flash_read_word ld b),
     cb_erase_slot = Some (flash_erase_slot ld b), cb_program_word =
       Some (flash_program_word ld b)\<rparr>"

fun configuration_flash_backend_init ::
  "linker_symbols \<Rightarrow> 'h flash_bus \<Rightarrow> 'h configuration_store_backend ptr \<Rightarrow>
     bool \<times> 'h configuration_store_backend ptr" where
  "configuration_flash_backend_init ld b None = (False, None)"
| "configuration_flash_backend_init ld b (Some backend) =
     (let slot0 = configuration_slot0_start ld; slot1 = configuration_slot1_start ld;
          slot1_end = configuration_slot1_end ld
      in if slot0 \<noteq> 0x0801F000 \<or> slot1 \<noteq> 0x0801F800 \<or> slot1_end \<noteq> 0x08020000 \<or>
            slot1 - slot0 \<noteq> 2048 \<or> slot1_end - slot1 \<noteq> 2048
         then (False, Some backend) else (True, Some (flash_backend ld b)))"

section \<open>The controller\<close>

definition erased_page_at :: "u32 \<Rightarrow> (u32 \<Rightarrow> u32) \<Rightarrow> u32 \<Rightarrow> u32" where
  "erased_page_at base m a = (if unat (a - base) < 2048 then 0xFFFFFFFF else m a)"

text \<open>
  The documented behaviour the driver relies on. \<open>mem\<close> is what the memory holds, \<open>add\<close> the page
  address register, \<open>per\<close> and \<open>start\<close> two bits of the control register. Reads change nothing but may
  find the start bit cleared; the page erase bit reads back as written; the page addressed can only
  change by writing both bits, a word by a store to it. What they hold afterwards is open: an erase
  or a store may fail, do nothing, or be cut off half way and leave any contents, which is what the
  driver's error flags, its check of the erased page and its reading back are for.
\<close>

locale flash_hardware =
  fixes b :: "'h flash_bus"
    and mem :: "'h \<Rightarrow> u32 \<Rightarrow> u32" and add :: "'h \<Rightarrow> u32"
    and per :: "'h \<Rightarrow> bool" and start :: "'h \<Rightarrow> bool"
  assumes read_law: "fb_read b h r = (v, h') \<Longrightarrow>
      mem h' = mem h \<and> add h' = add h \<and> per h' = per h \<and> (start h' \<longrightarrow> start h) \<and>
      (r = FLASH_CTRL \<longrightarrow> (v AND FLASH_CTRL_PER \<noteq> 0) = per h \<and> (v AND FLASH_CTRL_START \<noteq> 0) =
        start h')"
    and write_law: "fb_write b h r v = h' \<Longrightarrow>
      add h' = (if r = FLASH_ADD then v else add h) \<and>
      per h' = (if r = FLASH_CTRL then v AND FLASH_CTRL_PER \<noteq> 0 else per h) \<and>
      (start h' \<longrightarrow> (if r = FLASH_CTRL then v AND FLASH_CTRL_START \<noteq> 0 else start h)) \<and>
      (mem h' = mem h \<or>
       r = FLASH_CTRL \<and> v AND FLASH_CTRL_PER \<noteq> 0 \<and> v AND FLASH_CTRL_START \<noteq> 0 \<and>
       (\<forall>a. \<not> unat (a - add h) < 2048 \<longrightarrow> mem h' a = mem h a))"
    and load_law: "\<exists>h'. fb_load b h a = (mem h a, h') \<and> mem h' = mem h \<and> add h' = add h \<and> per h' =
      per h"
    and store_law: "fb_store b h a v = h' \<Longrightarrow>
      (\<exists>w. mem h' = (mem h)(a := w)) \<and> add h' = add h \<and> per h' = per h"
    and disable_law: "mem (fb_disable_irq b h) = mem h \<and> per (fb_disable_irq b h) = per h"
    and enable_law: "mem (fb_enable_irq b h) = mem h \<and> per (fb_enable_irq b h) = per h"
begin

lemma and_or_flag: "(v OR f) AND g = 0 \<longleftrightarrow> v AND g = 0 \<and> f AND g = (0 :: u32)"
  by (simp add: bit.conj_disj_distrib2 or_eq_0_iff)

lemma and_not_flag: "f AND g = f \<Longrightarrow> (v AND NOT g) AND f = (0 :: u32)"
proof -
  assume "f AND g = f"
  then have "bit f n \<Longrightarrow> bit g n" for n by (metis bit_and_iff)
  then show ?thesis by (auto intro!: bit_word_eqI simp: bit_simps)
qed

lemma modify_other:
  assumes "r \<noteq> FLASH_CTRL" "r \<noteq> FLASH_ADD"
  shows "mem (modify b r f h) = mem h \<and> add (modify b r f h) = add h \<and> per (modify b r f h) = per h"
  using assms read_law [of h r] write_law [of _ r] by (auto simp: modify_def split: prod.split)

lemma modify_ctrl_quiet:
  assumes "\<And>v. f v AND FLASH_CTRL_PER \<noteq> 0 \<Longrightarrow> v AND FLASH_CTRL_PER \<noteq> 0" "\<not> per h"
  shows "mem (modify b FLASH_CTRL f h) = mem h \<and> add (modify b FLASH_CTRL f h) = add h \<and>
    \<not> per (modify b FLASH_CTRL f h)"
proof -
  obtain v h1 where r: "fb_read b h FLASH_CTRL = (v, h1)" by fastforce
  have "f v AND FLASH_CTRL_PER = 0" using assms read_law [OF r] by blast
  then show ?thesis using read_law [OF r] write_law [OF refl,
    of h1 FLASH_CTRL "f v"] by (simp add: modify_def r)
qed

lemma modify_ctrl_clear:
  assumes "\<And>v. f v AND FLASH_CTRL_PER = 0"
  shows "mem (modify b FLASH_CTRL f h) = mem h \<and> add (modify b FLASH_CTRL f h) = add h \<and>
    \<not> per (modify b FLASH_CTRL f h)"
proof -
  obtain v h1 where r: "fb_read b h FLASH_CTRL = (v, h1)" by fastforce
  then show ?thesis
    using assms [of v] read_law [OF r] write_law [OF refl,
      of h1 FLASH_CTRL "f v"] by (simp add: modify_def r)
qed

lemma poll_keeps:
  "mem (poll b r flag level n h) = mem h \<and> add (poll b r flag level n h) = add h \<and>
    per (poll b r flag level n h) = per h"
proof (induction n arbitrary: h)
  case 0
  then show ?case using read_law [of h r] by (simp add: poll.simps [of _ _ _ _ 0] split: prod.split)
next
  case (Suc n)
  then show ?case
    using read_law [of h r] by (simp add: poll.simps [of _ _ _ _ "Suc n"] split: prod.split)
qed

lemma wait_for_flash_keeps:
  "wait_for_flash b h = (ok, h') \<Longrightarrow> mem h' = mem h \<and> add h' = add h \<and> per h' = per h"
  using poll_keeps read_law by (auto simp: wait_for_flash_def split: prod.splits)

lemma wait_for_hsi_keeps:
  "wait_for_hsi b h = (ok, h') \<Longrightarrow> mem h' = mem h \<and> add h' = add h \<and> per h' = per h"
  using poll_keeps read_law by (auto simp: wait_for_hsi_def split: prod.splits)

lemma release_hsi_keeps:
  "mem (release_hsi b w h) = mem h \<and> add (release_hsi b w h) = add h \<and> per (release_hsi b w h) =
    per h"
  by (simp add: release_hsi_def modify_other)

lemma unlock_keeps: "mem (unlock_flash b h) = mem h \<and> per (unlock_flash b h) = per h"
  using read_law [of h FLASH_CTRL] write_law [of _ FLASH_KEYR] by (auto simp: unlock_flash_def
    split: prod.split)

lemma mode_cleared: "(v AND NOT FLASH_MODE_SMPSEL_MASK) AND FLASH_CTRL_PER = 0"
  "(v AND NOT FLASH_MODE_MASK) AND FLASH_CTRL_PER = 0"
  by (rule and_not_flag; simp)+

lemma begin_keeps:
  assumes "begin_operation b h = (ok, w, h')"
  shows "mem h' = mem h" "ok \<Longrightarrow> \<not> per h'"
proof -
  obtain v h1 where r: "fb_read b h RCC_CTRL = (v, h1)" by fastforce
  have m1: "mem h1 = mem h" using read_law [OF r] by simp
  obtain rdy h2 where w2: "(if v AND RCC_CTRL_HSIEN \<noteq> 0 then (True, h1)
      else wait_for_hsi b (modify b RCC_CTRL (\<lambda>v. v OR RCC_CTRL_HSIEN) h1)) = (rdy,
        h2)" by fastforce
  have m2: "mem h2 = mem h"
    using w2 m1 wait_for_hsi_keeps modify_other [of RCC_CTRL] by (auto split: if_splits)
  obtain fl h3 where w3: "wait_for_flash b h2 = (fl, h3)" by fastforce
  have m3: "mem h3 = mem h" using wait_for_flash_keeps [OF w3] m2 by simp
  obtain v4 h4 where r4: "fb_read b (unlock_flash b h3) FLASH_CTRL = (v4, h4)" by fastforce
  have m4: "mem h4 = mem h" using read_law [OF r4] unlock_keeps [of h3] m3 by simp
  let ?h5 = "modify b FLASH_CTRL (\<lambda>v. v AND NOT FLASH_MODE_SMPSEL_MASK) h4"
  have m5: "mem ?h5 = mem h" "\<not> per ?h5" using modify_ctrl_clear [of "\<lambda>v. v AND NOT
    FLASH_MODE_SMPSEL_MASK" h4, OF mode_cleared(1)] m4 by simp_all
  have m6: "mem (fb_write b ?h5 FLASH_STS FLASH_STATUS_CLEAR_MASK) = mem h"
    "\<not> per (fb_write b ?h5 FLASH_STS FLASH_STATUS_CLEAR_MASK)"
    using write_law [OF refl, of ?h5 FLASH_STS] m5 by simp_all
  have "mem h' = mem h \<and> (ok \<longrightarrow> \<not> per h')"
    using assms m2 m3 m4 m6 modify_other [of RCC_CTRL] release_hsi_keeps
    unfolding begin_operation_def r prod.case Let_def w2
    by (auto simp: w3 r4 split: if_splits bool.splits)
  then show "mem h' = mem h" "ok \<Longrightarrow> \<not> per h'" by simp_all
qed

lemma end_keeps: "mem (end_operation b w h) = mem h"
proof -
  let ?h1 = "modify b FLASH_CTRL (\<lambda>v. v AND NOT FLASH_MODE_MASK) h"
  have "mem ?h1 = mem h \<and> \<not> per ?h1" using modify_ctrl_clear [of "\<lambda>v. v AND NOT FLASH_MODE_MASK" h,
    OF mode_cleared(2)] by simp
  moreover have "\<not> per ?h1 \<Longrightarrow> mem (modify b FLASH_CTRL (\<lambda>v. v OR FLASH_CTRL_LOCK) ?h1) = mem ?h1"
    by (rule modify_ctrl_quiet [THEN conjunct1]) (simp_all add: and_or_flag)
  ultimately show ?thesis by (simp add: end_operation_def release_hsi_keeps)
qed

lemma guarded_effect:
  assumes "guarded b operation h = (ok, h')"
    and "\<And>h1 s h2. operation h1 = (s, h2) \<Longrightarrow> mem h1 = mem h \<Longrightarrow> \<not> per h1 \<Longrightarrow> P s (mem h2)"
    and "P False (mem h)"
  shows "P ok (mem h')"
proof -
  obtain ok1 w h1 where bo: "begin_operation b (fb_disable_irq b h) = (ok1, w,
    h1)" by (metis prod_cases3)
  have m: "mem h1 = mem h" "ok1 \<Longrightarrow> \<not> per h1" using begin_keeps [OF bo] disable_law [of h] by simp_all
  obtain s h2 where op: "operation h1 = (s, h2)" by fastforce
  show ?thesis
  proof (cases ok1)
    case True
    then have "ok = s" "mem h' = mem h2"
      using assms(1) enable_law end_keeps by (auto simp: guarded_def bo op Let_def)
    then show ?thesis using assms(2) [OF op] m True by simp
  next
    case False
    then have "\<not> ok" "mem h' = mem h" using assms(1) enable_law m(1)
      by (auto simp: guarded_def bo Let_def)
    then show ?thesis using assms(3) by simp
  qed
qed

end

context flash_hardware
begin

lemma check_erased_reads:
  "check_erased b base is h = (ok, h') \<Longrightarrow>
     mem h' = mem h \<and> (ok \<longrightarrow> (\<forall>i\<in>set is. mem h (word_address base i) = 0xFFFFFFFF))"
proof (induction "is" arbitrary: h)
  case (Cons i "is")
  obtain h1 where l: "fb_load b h (word_address base i) = (mem h (word_address base i),
    h1)" "mem h1 = mem h"
    using load_law [of h "word_address base i"] by blast
  then show ?case using Cons.prems Cons.IH [of h1] by (auto split: if_splits)
qed simp

lemma modify_ctrl_select:
  assumes "\<not> start h"
  shows "mem (modify b FLASH_CTRL (\<lambda>v. v OR FLASH_CTRL_PER) h) = mem h"
proof -
  obtain v h1 where r: "fb_read b h FLASH_CTRL = (v, h1)" by fastforce
  have "(v OR FLASH_CTRL_PER) AND FLASH_CTRL_START = 0"
    using read_law [OF r] assms by (auto simp: and_or_flag)
  then show ?thesis
    using read_law [OF r] write_law [OF refl, of h1 FLASH_CTRL "v OR FLASH_CTRL_PER"] by (simp add:
      modify_def r)
qed

text \<open>The memory an erase of the page at \<open>base\<close> may leave.\<close>

definition erase_outcome :: "u32 \<Rightarrow> 'h \<Rightarrow> (u32 \<Rightarrow> u32) \<Rightarrow> bool" where
  "erase_outcome base h m \<longleftrightarrow> m = mem h \<or>
     (\<forall>a. \<not> unat (a - base) < 2048 \<longrightarrow> m a = mem h a) \<and>
     (\<exists>k v. mem k = mem h \<and> add k = base \<and> m = mem (fb_write b k FLASH_CTRL v))"

lemma modify_ctrl_start:
  assumes "mem h = mem h0" "add h = base"
  shows "erase_outcome base h0 (mem (modify b FLASH_CTRL (\<lambda>v. v OR FLASH_CTRL_START) h))"
proof -
  obtain v h1 where r: "fb_read b h FLASH_CTRL = (v, h1)" by fastforce
  have h1: "mem h1 = mem h0" "add h1 = base" using read_law [OF r] assms by simp_all
  show ?thesis
    using write_law [OF refl, of h1 FLASH_CTRL "v OR FLASH_CTRL_START"] h1
    by (auto simp: modify_def r erase_outcome_def)
qed

lemma erase_page_effect:
  assumes "erase_page b base h = (ok, h')"
  shows "erase_outcome base h (mem h') \<and>
    (ok \<longrightarrow> (\<forall>i<512. mem h' (word_address base i) = 0xFFFFFFFF))"
proof -
  obtain v h1 where r: "fb_read b h FLASH_CTRL = (v, h1)" by fastforce
  define h2 where "h2 = modify b FLASH_CTRL (\<lambda>v. v OR FLASH_CTRL_PER) h1"
  define h3 where "h3 = fb_write b h2 FLASH_ADD base"
  define h4 where "h4 = modify b FLASH_CTRL (\<lambda>v. v OR FLASH_CTRL_START) h3"
  obtain fl h5 where w: "wait_for_flash b h4 = (fl, h5)" by fastforce
  obtain status h6 where r6: "fb_read b h5 FLASH_STS = (status, h6)" by fastforce
  define h7 where "h7 = fb_write b h6 FLASH_STS FLASH_STATUS_CLEAR_MASK"
  obtain ce h8 where c: "check_erased b base [0..<512] h7 = (ce, h8)" by fastforce
  have m1: "mem h1 = mem h" using read_law [OF r] by simp
  show ?thesis
  proof (cases "v AND FLASH_CTRL_START \<noteq> 0")
    case True
    then show ?thesis using assms m1 by (simp add: erase_page_def r erase_outcome_def)
  next
    case False
    then have "mem h2 = mem h" using modify_ctrl_select [of h1] read_law [OF r] m1 by (simp add:
      h2_def)
    then have "mem h3 = mem h" "add h3 = base" using write_law [OF h3_def [symmetric]] by simp_all
    then have m4: "erase_outcome base h (mem h4)" unfolding h4_def by (rule modify_ctrl_start)
    have m5: "mem h5 = mem h4" using wait_for_flash_keeps [OF w] by simp
    have m6: "mem h6 = mem h4" using read_law [OF r6] m5 by simp
    have m7: "mem h7 = mem h4" using write_law [OF h7_def [symmetric]] m6 by simp
    have m8: "mem h8 = mem h4" "ce \<Longrightarrow> \<forall>i<512. mem h8 (word_address base i) = 0xFFFFFFFF"
      using check_erased_reads [OF c] m7 by simp_all
    have "(ok, h') = (if \<not> fl then (False, h5)
        else if status AND FLASH_STATUS_ERROR_MASK \<noteq> 0 \<or> status AND FLASH_STS_EOP = 0 then (False,
          h6) else (ce, h8))"
      using assms False
      by (cases fl) (auto simp: erase_page_def r h2_def [symmetric] h3_def [symmetric] h4_def
        [symmetric] Let_def w r6
          h7_def [symmetric] c simp del: upt_rec_numeral split: if_splits)
    then show ?thesis using m4 m5 m6 m8 by (auto split: if_splits)
  qed
qed

lemma program_at_effect:
  assumes "program_at b address value h = (ok, h')" "\<not> per h"
  shows "\<exists>w. mem h' = (mem h)(address := w) \<and> (ok \<longrightarrow> w = value)"
proof -
  obtain v h1 where r: "fb_read b h FLASH_CTRL = (v, h1)" by fastforce
  define h2 where "h2 = modify b FLASH_CTRL (\<lambda>v. v OR FLASH_CTRL_PG) h1"
  define h3 where "h3 = fb_store b h2 address value"
  obtain fl h4 where fl: "wait_for_flash b h3 = (fl, h4)" by fastforce
  obtain status h5 where r5: "fb_read b h4 FLASH_STS = (status, h5)" by fastforce
  obtain h6 where l: "fb_load b h5 address = (mem h5 address, h6)" "mem h6 = mem h5"
    using load_law [of h5 address] by blast
  have m1: "mem h1 = mem h" "\<not> per h1" using read_law [OF r] assms(2) by simp_all
  show ?thesis
  proof (cases "v AND FLASH_CTRL_START \<noteq> 0")
    case True
    then show ?thesis
      using assms m1 by (intro exI [of _ "mem h address"]) (simp add: program_at_def r)
  next
    case False
    have "mem h2 = mem h"
      unfolding h2_def using m1 by (subst modify_ctrl_quiet [THEN conjunct1])
        (simp_all add: and_or_flag)
    then obtain w where m3: "mem h3 = (mem h)(address := w)"
      using store_law [OF h3_def [symmetric]] by auto
    have m4: "mem h4 = mem h3" using wait_for_flash_keeps [OF fl] by simp
    have m5: "mem h5 = mem h3" using read_law [OF r5] m4 by simp
    have keep: "mem (fb_write b k FLASH_STS FLASH_STATUS_CLEAR_MASK) = mem k" for k
      using write_law [OF refl, of k FLASH_STS FLASH_STATUS_CLEAR_MASK] by simp
    let ?good = "status AND FLASH_STATUS_ERROR_MASK = 0 \<and> status AND FLASH_STS_EOP \<noteq> 0"
    have res: "(ok, h') = (if \<not> fl then (False, h4)
        else if ?good then (mem h5 address = value, fb_write b h6 FLASH_STS FLASH_STATUS_CLEAR_MASK)
        else (False, fb_write b h5 FLASH_STS FLASH_STATUS_CLEAR_MASK))"
      using assms False
      by (cases fl; cases "status AND FLASH_STATUS_ERROR_MASK =
        0"; cases "status AND FLASH_STS_EOP = 0")
        (simp_all add: program_at_def r h2_def [symmetric] h3_def [symmetric] Let_def fl r5 l(1))
    have "mem h' = mem h3" "ok \<longrightarrow> mem h3 address = value"
      using res m4 m5 l(2) keep by (auto split: if_splits)
    then show ?thesis using m3 by auto
  qed
qed

end

section \<open>The driver is a storage device\<close>

definition slots_linked :: "linker_symbols \<Rightarrow> bool" where
  "slots_linked ld \<longleftrightarrow> configuration_slot0_start ld = 0x0801F000 \<and> configuration_slot1_start ld =
    0x0801F800"

definition slot_view :: "linker_symbols \<Rightarrow> (u32 \<Rightarrow> u32) \<Rightarrow> u8 \<Rightarrow> nat \<Rightarrow> u32" where
  "slot_view ld m s i = (if s < 2 \<and> i < 512 then m (word_address (slot_base ld s) i)
    else 0xFFFFFFFF)"

lemma slot_cases: "(s :: u8) < 2 \<Longrightarrow> s = 0 \<or> s = 1"
  by (auto simp: word_less_nat_alt less_2_cases_iff word_unat_eq_iff)

lemma unat_four: "i < 512 \<Longrightarrow> unat (of_nat (i * 4) :: u32) = i * 4"
  by (subst unat_of_nat) simp

lemma word_offset: "i < 512 \<Longrightarrow> unat (word_address base i - base) = i * 4"
  unfolding word_address_def by (simp only: add_diff_cancel_left' unat_four)

lemma slot_base_eq:
  assumes "slots_linked ld"
  shows "slot_base ld 0 = 0x0801F000" "slot_base ld 1 = 0x0801F800"
  using assms by (simp_all add: slot_base_def slots_linked_def)

text \<open>The offset of a word of one slot from the base of another.\<close>

lemma slot_offset:
  assumes "slots_linked ld" "s < 2" "t < 2" "i < 512"
  shows "unat (word_address (slot_base ld s) i - slot_base ld t) < 2048 \<longleftrightarrow> s = t"
proof -
  let ?x = "of_nat (i * 4) :: u32"
  have x: "unat ?x = i * 4" by (rule unat_four [OF assms(4)])
  have e: "word_address 0x0801F000 i - 0x0801F800 =
    ?x - 2048" "word_address 0x0801F800 i - 0x0801F000 = ?x + 2048"
    unfolding word_address_def by (simp_all only: diff_conv_add_uminus) simp_all
  have f1: "\<not> unat (?x - 2048) < 2048" using assms(4) x by (simp only: unat_minus_wrap) simp
  have f2: "\<not> unat (?x + 2048) < 2048" using assms(4) x by (subst unat_add_small) (simp_all only: x,
    simp_all)
  have far: "\<not> unat (word_address 0x0801F000 i - 0x0801F800) < 2048"
    "\<not> unat (word_address 0x0801F800 i - 0x0801F000) < 2048" unfolding e by (rule f1, rule f2)
  have near: "unat (word_address base i - base) < 2048" for base using word_offset [OF assms(4)]
    assms(4) by simp
  show ?thesis
    using slot_cases [OF assms(2)] slot_cases [OF assms(3)] far near
    by (elim disjE) (simp_all only: slot_base_eq [OF assms(1)], simp_all)
qed


lemma slot_view_erased:
  assumes "slots_linked ld" "s < 2"
  shows "slot_view ld (erased_page_at (slot_base ld s) m) = (slot_view ld m)(s := \<lambda>_. 0xFFFFFFFF)"
  using slot_offset [OF assms(1) _ assms(2)] by (auto simp: slot_view_def erased_page_at_def
    fun_eq_iff)

lemma word_address_inject:
  assumes "slots_linked ld" "s < 2" "t < 2" "i < 512" "j < 512"
    and "word_address (slot_base ld t) j = word_address (slot_base ld s) i"
  shows "t = s \<and> j = i"
proof -
  have "s = t" using slot_offset [OF assms(1-3,4)] slot_offset [OF assms(1,3,3,5)] assms(6) by simp
  moreover have "i * 4 = j * 4" using word_offset [OF assms(4), of "slot_base ld s"]
      word_offset [OF assms(5), of "slot_base ld s"] assms(6) calculation by simp
  ultimately show ?thesis by simp
qed

lemma slot_view_programmed:
  assumes "slots_linked ld" "s < 2" "i < 512"
  shows "slot_view ld (m(word_address (slot_base ld s) i := w))
    = (slot_view ld m)(s := (slot_view ld m s)(i := w))"
  using word_address_inject [OF assms(1,2) _ assms(3)] assms(2,3)
    by (auto simp: slot_view_def fun_eq_iff)

lemma slot_base_ok: "slots_linked ld \<Longrightarrow> s < 2 \<Longrightarrow> slot_base ld s \<noteq> 0 \<and> slot_base ld s mod 2048 = 0"
  using slot_cases [of s] by (auto simp: slot_base_eq)

locale flash_storage = flash_hardware +
  fixes ld :: linker_symbols
  assumes linked: "slots_linked ld"
begin

lemma flash_read_shows:
  assumes "s < 2" "i < 10"
  shows "\<exists>h'. flash_read_word ld b h s i = (Some (slot_view ld (mem h) s i), h') \<and> mem h' = mem h"
proof -
  obtain h' where "fb_load b h (word_address (slot_base ld s) i) =
    (mem h (word_address (slot_base ld s) i), h')"
    "mem h' = mem h" using load_law by blast
  then show ?thesis using assms slot_base_ok [OF linked assms(1)] by (simp add: flash_read_word_def
    slot_view_def Let_def)
qed

lemma slot_view_outside:
  assumes "s < 2" "\<forall>a. \<not> unat (a - slot_base ld s) < 2048 \<longrightarrow> m a = m0 a"
  shows "slot_view ld m = (slot_view ld m0)(s := slot_view ld m s)"
  using assms(2) slot_offset [OF linked _ assms(1)] by (auto simp: slot_view_def fun_eq_iff)

lemma flash_erase_effect:
  assumes "s < 2" "flash_erase_slot ld b h s = (ok, h')"
  shows "slot_view ld (mem h') = (slot_view ld (mem h))(s := slot_view ld (mem h') s) \<and>
    (ok \<longrightarrow> slot_view ld (mem h') s = (\<lambda>_. 0xFFFFFFFF)) \<and> erase_outcome (slot_base ld s) h (mem h')"
proof -
  let ?base = "slot_base ld s"
  let ?P = "\<lambda>ok m. erase_outcome ?base h m \<and> (ok \<longrightarrow> (\<forall>i<512. m (word_address ?base i) = 0xFFFFFFFF))"
  have g: "guarded b (erase_page b ?base) h = (ok, h')"
    using assms(2) slot_base_ok [OF linked assms(1)] by (simp add: flash_erase_slot_def Let_def)
  have P: "?P ok (mem h')"
  proof (rule guarded_effect [OF g, of ?P])
    show "?P r (mem h2)" if "erase_page b ?base h1 = (r, h2)" "mem h1 = mem h" for h1 r h2
      using erase_page_effect [OF that(1)] that(2) by (simp add: erase_outcome_def)
  qed (simp add: erase_outcome_def)
  moreover have "slot_view ld (mem h') s = (\<lambda>_. 0xFFFFFFFF)" if ok
    using P that by (auto simp: slot_view_def fun_eq_iff)
  moreover have "slot_view ld (mem h') = (slot_view ld (mem h))(s := slot_view ld (mem h') s)"
    using P slot_view_outside [OF assms(1), of "mem h'" "mem h"] by (auto simp: erase_outcome_def)
  ultimately show ?thesis by blast
qed

lemma flash_program_effect:
  assumes "s < 2" "i < 10" "flash_program_word ld b h s i w = (ok, h')"
  shows "\<exists>w'. slot_view ld (mem h') = (slot_view ld (mem h))(s := (slot_view ld (mem h) s)(i := w'))
    \<and>
    (ok \<longrightarrow> w' = w)"
proof -
  let ?a = "word_address (slot_base ld s) i"
  obtain h1 where l: "fb_load b h ?a = (mem h ?a, h1)" "mem h1 = mem h" using load_law by blast
  have "\<exists>w'. mem h' = (mem h)(?a := w') \<and> (ok \<longrightarrow> w' = w)"
  proof (cases "mem h ?a = 0xFFFFFFFF")
    case True
    then have g: "guarded b (program_at b ?a w) h1 = (ok, h')"
      using assms(2,3) slot_base_ok [OF linked assms(1)] l(1)
        by (simp add: flash_program_word_def Let_def)
    show ?thesis
    proof (rule guarded_effect [OF g, of "\<lambda>ok m. \<exists>w'. m = (mem h)(?a := w') \<and> (ok \<longrightarrow> w' = w)"])
      show "\<exists>w'. mem k2 = (mem h)(?a := w') \<and> (r \<longrightarrow> w' = w)"
        if "program_at b ?a w k1 = (r, k2)" "mem k1 = mem h1" "\<not> per k1" for k1 r k2
        using program_at_effect [OF that(1,3)] that(2) l(2) by simp
    qed (auto simp: l(2) intro: exI [of _ "mem h ?a"])
  next
    case False
    then show ?thesis
      using assms(2,3) slot_base_ok [OF linked assms(1)] l
      by (intro exI [of _ "mem h ?a"]) (auto simp: flash_program_word_def Let_def)
  qed
  then obtain w' where "mem h' = (mem h)(?a := w')" "ok \<longrightarrow> w' = w" by blast
  moreover have "i < 512" using assms(2) by simp
  ultimately show ?thesis using slot_view_programmed [OF linked assms(1), of i "mem h" w'] by auto
qed

end

sublocale flash_storage \<subseteq> storage_reader "flash_backend ld b" "\<lambda>h. slot_view ld (mem h)"
proof
  show "cb_read_word (flash_backend ld b) \<noteq> None" "cb_erase_slot (flash_backend ld b) \<noteq> None"
    "cb_program_word (flash_backend ld b) \<noteq> None" by (simp_all add: flash_backend_def)
  show "\<exists>d'. backend_read (flash_backend ld b) d s i = (Some (slot_view ld (mem d) s i), d') \<and>
      slot_view ld (mem d') = slot_view ld (mem d)" if "s < 2" "i < 10" for s i d
    using flash_read_shows [OF that, of d] by (auto simp: backend_read_def flash_backend_def)
qed

text \<open>
  What the store relies on beyond the controller: starting the erase of a slot, whatever becomes of
  it, does not leave there a valid record other than the one the slot held. A complete erase leaves
  none; for the wreck of an incomplete one this is what the magic numbers and the CRC-32 are trusted
  to tell.
\<close>

definition torn_erase_noticed ::
  "linker_symbols \<Rightarrow> 'h flash_bus \<Rightarrow> ('h \<Rightarrow> u32 \<Rightarrow> u32) \<Rightarrow> ('h \<Rightarrow> u32) \<Rightarrow> bool" where
  "torn_erase_noticed ld b mem add \<longleftrightarrow>
     (\<forall>h v s. s < 2 \<and> add h = slot_base ld s \<longrightarrow>
        page_record (slot_view ld (mem (fb_write b h FLASH_CTRL v)) s)
          \<in> {None, page_record (slot_view ld (mem h) s)})"

locale flash_records = flash_storage +
  assumes torn_erase: "torn_erase_noticed ld b mem add"

sublocale flash_records \<subseteq> storage_device "flash_backend ld b" "\<lambda>h. slot_view ld (mem h)"
proof
  fix s h ok h'
  assume s: "s < 2" and "backend_erase (flash_backend ld b) h s = (ok, h')"
  then have e: "flash_erase_slot ld b h s = (ok,
    h')" by (simp add: backend_erase_def flash_backend_def)
  note eff = flash_erase_effect [OF s e]
  have "page_record (slot_view ld (mem h') s) \<in> {None, page_record (slot_view ld (mem h) s)}"
  proof (cases "mem h' = mem h")
    case False
    then obtain k v where k: "mem k = mem h" "add k = slot_base ld s" "mem h' =
      mem (fb_write b k FLASH_CTRL v)"
      using eff unfolding erase_outcome_def by blast
    then show ?thesis
      using torn_erase [unfolded torn_erase_noticed_def, rule_format, of s k v] s by simp
  qed simp
  then show "\<exists>f. slot_view ld (mem h') = (slot_view ld (mem h))(s := f) \<and> (ok \<longrightarrow> f =
    (\<lambda>_. 0xFFFFFFFF)) \<and>
      page_record f \<in> {None, page_record (slot_view ld (mem h) s)}"
    using eff by (intro exI [of _ "slot_view ld (mem h') s"]) blast
next
  fix s i h w ok h'
  assume "s < 2" "i < 10" "backend_program (flash_backend ld b) h s i w = (ok, h')"
  then show "\<exists>w'. slot_view ld (mem h') = (slot_view ld (mem h))(s := (slot_view ld (mem h) s)(i :=
    w')) \<and>
      (ok \<longrightarrow> w' = w)"
    by (intro flash_program_effect) (simp_all add: backend_program_def flash_backend_def)
qed

section \<open>A controller that behaves as documented\<close>

record nor_flash =
  nf_mem :: "u32 \<Rightarrow> u32"
  nf_ctrl :: u32
  nf_add :: u32
  nf_eop :: bool
  nf_masked :: bool

fun nor_read :: "nor_flash \<Rightarrow> flash_register \<Rightarrow> u32 \<times> nor_flash" where
  "nor_read h RCC_CTRL = (RCC_CTRL_HSIEN OR RCC_CTRL_HSIRDF, h)"
| "nor_read h FLASH_STS = (if nf_eop h then FLASH_STS_EOP else 0, h)"
| "nor_read h FLASH_CTRL = (nf_ctrl h AND NOT FLASH_CTRL_START, h)"
| "nor_read h FLASH_KEYR = (0, h)"
| "nor_read h FLASH_ADD = (nf_add h, h)"

fun nor_write :: "nor_flash \<Rightarrow> flash_register \<Rightarrow> u32 \<Rightarrow> nor_flash" where
  "nor_write h RCC_CTRL v = h"
| "nor_write h FLASH_STS v = h\<lparr>nf_eop := nf_eop h \<and> v AND FLASH_STS_EOP = 0\<rparr>"
| "nor_write h FLASH_CTRL v =
     (if v AND FLASH_CTRL_PER \<noteq> 0 \<and> v AND FLASH_CTRL_START \<noteq> 0
      then h\<lparr>nf_ctrl := v, nf_mem := erased_page_at (nf_add h) (nf_mem h), nf_eop := True\<rparr>
      else h\<lparr>nf_ctrl := v\<rparr>)"
| "nor_write h FLASH_KEYR v =
     (if v = 0xCDEF89AB then h\<lparr>nf_ctrl := nf_ctrl h AND NOT FLASH_CTRL_LOCK\<rparr> else h)"
| "nor_write h FLASH_ADD v = h\<lparr>nf_add := v\<rparr>"

definition nor_store :: "nor_flash \<Rightarrow> u32 \<Rightarrow> u32 \<Rightarrow> nor_flash" where
  "nor_store h a v =
     (if nf_ctrl h AND FLASH_CTRL_PG \<noteq> 0 then h\<lparr>nf_mem := (nf_mem h)(a := v), nf_eop :=
       True\<rparr> else h)"

definition nor_bus :: "nor_flash flash_bus" where
  "nor_bus = \<lparr>fb_read = nor_read, fb_write = nor_write, fb_load = \<lambda>h a. (nf_mem h a, h),
     fb_store = nor_store, fb_primask = \<lambda>h. if nf_masked h then 1 else 0,
     fb_disable_irq = \<lambda>h. h\<lparr>nf_masked := True\<rparr>, fb_enable_irq = \<lambda>h. h\<lparr>nf_masked := False\<rparr>\<rparr>"

definition product_link :: linker_symbols where
  "product_link = \<lparr>configuration_slot0_start = 0x0801F000, configuration_slot1_start = 0x0801F800,
     configuration_slot1_end = 0x08020000\<rparr>"

interpretation nor: flash_records nor_bus nf_mem nf_add "\<lambda>h. nf_ctrl h AND FLASH_CTRL_PER \<noteq> 0"
  "\<lambda>h. False" product_link
proof
  fix h r v h'
  show "fb_read nor_bus h r = (v, h') \<Longrightarrow> nf_mem h' = nf_mem h \<and> nf_add h' = nf_add h \<and>
      (nf_ctrl h' AND FLASH_CTRL_PER \<noteq> 0) = (nf_ctrl h AND FLASH_CTRL_PER \<noteq> 0) \<and> (False \<longrightarrow> False) \<and>
      (r = FLASH_CTRL \<longrightarrow> (v AND FLASH_CTRL_PER \<noteq> 0) = (nf_ctrl h AND FLASH_CTRL_PER \<noteq> 0) \<and>
        (v AND FLASH_CTRL_START \<noteq> 0) = False)"
    by (cases r) (auto simp: nor_bus_def and.assoc)
  show "fb_write nor_bus h r v = h' \<Longrightarrow>
      nf_add h' = (if r = FLASH_ADD then v else nf_add h) \<and>
      (nf_ctrl h' AND FLASH_CTRL_PER \<noteq> 0)
        = (if r = FLASH_CTRL then v AND FLASH_CTRL_PER \<noteq> 0 else nf_ctrl h AND FLASH_CTRL_PER \<noteq> 0) \<and>
      (False \<longrightarrow> (if r = FLASH_CTRL then v AND FLASH_CTRL_START \<noteq> 0 else False)) \<and>
      (nf_mem h' = nf_mem h \<or>
       r = FLASH_CTRL \<and> v AND FLASH_CTRL_PER \<noteq> 0 \<and> v AND FLASH_CTRL_START \<noteq> 0 \<and>
       (\<forall>a. \<not> unat (a - nf_add h) < 2048 \<longrightarrow> nf_mem h' a = nf_mem h a))"
    by (cases r) (auto simp: nor_bus_def and.assoc erased_page_at_def split: if_splits)
  show "fb_store nor_bus h a v = h' \<Longrightarrow> (\<exists>w. nf_mem h' = (nf_mem h)(a := w)) \<and> nf_add h' = nf_add h \<and>
      (nf_ctrl h' AND FLASH_CTRL_PER \<noteq> 0) = (nf_ctrl h AND FLASH_CTRL_PER \<noteq> 0)" for a
    by (cases "nf_ctrl h AND FLASH_CTRL_PG = 0")
      (auto simp: nor_bus_def nor_store_def intro: fun_upd_triv [symmetric])
  have linked: "slots_linked product_link" by (simp add: slots_linked_def product_link_def)
  show "slots_linked product_link" by (rule linked)
  show "torn_erase_noticed product_link nor_bus nf_mem nf_add"
    by (auto simp: torn_erase_noticed_def nor_bus_def slot_view_erased [OF linked] erased_page)
qed (auto simp: nor_bus_def)

section \<open>Saving and loading on flash\<close>

context flash_storage
begin

lemmas flash_read_record = read_record_shows

end

context flash_records
begin

lemmas flash_load_after_history = load_after_history

end



definition demo_configuration :: product_configuration where
  "demo_configuration = \<lparr>pc_encoder_counts_per_revolution = 16384,
    pc_electrical_cycles_per_revolution = 50,
     pc_alignment = bench_status, pc_current_loop_proportional_gain_q16_per_count = 65536,
     pc_current_loop_integral_gain_q16_per_count_per_step = 512\<rparr>"

definition blank_flash :: nor_flash where
  "blank_flash = \<lparr>nf_mem = \<lambda>_. 0xFFFFFFFF, nf_ctrl = FLASH_CTRL_LOCK, nf_add = 0, nf_eop = False,
    nf_masked = False\<rparr>"





text \<open>
  C29. A stored record is read back exactly, and damage to any one of its words is noticed. If the
  slot holds the record of a valid configuration, \<open>read_record\<close> returns that configuration and its
  generation; if any one word differs, it returns no record.
\<close>

theorem record_damage_noticed:
  assumes "flash_storage b mem add per start ld" "product_configuration_is_valid (Some c)" "s < 2"
    "k < 10"
    and "\<forall>i<10. slot_view ld (mem h) s i = (encode_record c g)[k := w] ! i"
  shows "if w = encode_record c g ! k
         then \<exists>r h'. read_record (flash_backend ld b) h s io = (Some r, io, h') \<and>
           dr_configuration r = c \<and> dr_generation r = g
         else \<exists>h'. read_record (flash_backend ld b) h s io = (None, io, h')"
proof -
  let ?f = "slot_view ld (mem h) s" and ?ws = "encode_record c g"
  obtain h' where r: "read_record (flash_backend ld b) h s io = (page_record ?f, io, h')"
    using flash_storage.flash_read_record [OF assms(1,3)] by blast
  define f0 where "f0 = ?f(k := ?ws ! k)"
  have nth: "?f i = ?ws[k := w] ! i" if "i < 10" for i using assms(5) that by blast
  have f0: "holds_record f0 ?ws"
  proof (rule holds_recordI)
    show "f0 i = ?ws ! i" if "i < 10" for i using nth [OF that] by (cases "i = k")
      (simp_all add: f0_def)
  qed (rule length_encode_record)
  have fk: "?f k = w" using nth [OF assms(4)] assms(4) by (simp add: length_encode_record)
  then have f: "?f = f0(k := w)" by (simp add: f0_def fun_upd_idem)
  show ?thesis
  proof (cases "w = ?ws ! k")
    case True
    then have "f0 = ?f" using fk by (simp only: f0_def fun_upd_idem)
    then show ?thesis using r page_of_encoded_record [OF assms(2) f0] True by auto
  next
    case False
    then have "page_record (f0(k := w)) = None"
      by (intro damaged_page [OF assms(2) f0 assms(4)]) (simp add: f0_def)
    then show ?thesis using r f False by auto
  qed
qed

lemma demo_configuration_valid: "product_configuration_is_valid (Some demo_configuration)"
  by (simp add: product_configuration_is_valid.simps(2)
    demo_configuration_def bench_status_def Let_def)

definition damaged_flash :: nor_flash where
  "damaged_flash = blank_flash\<lparr>nf_mem := \<lambda>a.
     if unat (a - 0x0801F000) < 40 then (encode_record demo_configuration 7)[2 :=
       8] ! (unat (a - 0x0801F000) div 4)
     else 0xFFFFFFFF\<rparr>"

theorem record_damage_noticed_witness:
  "\<exists>h'. read_record (flash_backend product_link nor_bus) damaged_flash 0 False = (None, False, h')"
proof -
  have fs: "flash_storage nor_bus nf_mem nf_add (\<lambda>h. nf_ctrl h AND FLASH_CTRL_PER \<noteq> 0) (\<lambda>h. False)
    product_link"
    by (rule nor.flash_storage_axioms)
  have sl: "slots_linked product_link" by (simp add: slots_linked_def product_link_def)
  have "\<forall>i<10. slot_view product_link (nf_mem damaged_flash) 0 i =
    (encode_record demo_configuration 7)[2 := 8] ! i"
    using word_offset [of _ "0x0801F000"]
    by (simp add: slot_view_def damaged_flash_def slot_base_eq [OF sl] del: One_nat_def)
  moreover have "(8 :: u32) \<noteq> encode_record demo_configuration 7 ! 2" by (simp add:
    encode_record_words Let_def)
  ultimately show ?thesis
    using record_damage_noticed [OF fs demo_configuration_valid,
      of 0 2 damaged_flash 7 8 False] by simp
qed

end
