(* ===== verification/Alignment_Controller.thy ===== *)
theory Alignment_Controller
  imports Motor_Alignment
begin

text \<open>
  The alignment procedure, \<open>firmware/src/control/alignment_controller.c\<close>: it holds a current vector
  at electrical zero, a quarter cycle later and at zero again, averages the encoder at each stop,
  checks the closure and calibrates the motor alignment. The alignment object the controller points
  to is passed and returned explicitly; the pointer itself is a flag. The file's own static copy of
  \<open>wrapped_delta\<close> is that of \<open>motor_alignment.c\<close>. The two wrap-around loops of the mean are partial,
  so an update is an option, and the lemmas show that it always returns. They
  further show that current is only commanded while the procedure is active, that the mean is the
  rounded mean of the samples, that only a closed, in-time run calibrates, and that the procedure
  ends.
\<close>

section \<open>Data\<close>

datatype alignment_controller_state =
  ALIGNMENT_CONTROLLER_STATE_IDLE
| ALIGNMENT_CONTROLLER_STATE_PHASE_ZERO_SETTLE
| ALIGNMENT_CONTROLLER_STATE_PHASE_ZERO_SAMPLE
| ALIGNMENT_CONTROLLER_STATE_PHASE_QUARTER_SETTLE
| ALIGNMENT_CONTROLLER_STATE_PHASE_QUARTER_SAMPLE
| ALIGNMENT_CONTROLLER_STATE_RETURN_ZERO_SETTLE
| ALIGNMENT_CONTROLLER_STATE_RETURN_ZERO_SAMPLE
| ALIGNMENT_CONTROLLER_STATE_COMPLETE
| ALIGNMENT_CONTROLLER_STATE_FAILED
| ALIGNMENT_CONTROLLER_STATE_ABORTED

datatype alignment_controller_result =
  ALIGNMENT_CONTROLLER_RESULT_NONE
| ALIGNMENT_CONTROLLER_RESULT_SUCCESS
| ALIGNMENT_CONTROLLER_RESULT_ABORTED
| ALIGNMENT_CONTROLLER_RESULT_DEADLINE
| ALIGNMENT_CONTROLLER_RESULT_ENCODER_INVALID
| ALIGNMENT_CONTROLLER_RESULT_BACKEND_INACTIVE
| ALIGNMENT_CONTROLLER_RESULT_CURRENT_TRACKING
| ALIGNMENT_CONTROLLER_RESULT_ENCODER_UNSTABLE
| ALIGNMENT_CONTROLLER_RESULT_GEOMETRY
| ALIGNMENT_CONTROLLER_RESULT_CLOSURE

datatype alignment_controller_event =
  ALIGNMENT_CONTROLLER_EVENT_NONE
| ALIGNMENT_CONTROLLER_EVENT_REFERENCE_CHANGED
| ALIGNMENT_CONTROLLER_EVENT_COMPLETED
| ALIGNMENT_CONTROLLER_EVENT_FAILED

record alignment_controller_config =
  kc_settle_duration_millis :: u32
  kc_sample_duration_millis :: u32
  kc_maximum_duration_millis :: u32
  kc_minimum_sample_count :: u16
  kc_maximum_sample_span_counts :: u16
  kc_maximum_closure_error_counts :: u16
  kc_maximum_current_error_counts :: u16

record alignment_controller_status =
  ks_state :: alignment_controller_state
  ks_result :: alignment_controller_result
  ks_alignment_current_counts :: u16
  ks_phase_zero_raw :: u16
  ks_phase_quarter_raw :: u16
  ks_return_zero_raw :: u16
  ks_observed_quarter_step_counts :: u16
  ks_quarter_step_error_counts :: i16
  ks_closure_error_counts :: i16
  ks_encoder_direction :: i8
  ks_active_sample_count :: u16
  ks_elapsed_millis :: u32

record alignment_controller_sampler =
  sp_origin_raw :: u16
  sp_minimum_delta_counts :: i32
  sp_maximum_delta_counts :: i32
  sp_delta_sum_counts :: i64
  sp_sample_count :: u16
  sp_initialized :: bool

text \<open>The pointer to the alignment object is a flag: null or the object passed along.\<close>

record alignment_controller =
  ak_config :: alignment_controller_config
  ak_status :: alignment_controller_status
  ak_sampler :: alignment_controller_sampler
  ak_alignment_set :: bool
  ak_operation_start_millis :: u32
  ak_stage_start_millis :: u32
  ak_current_a_reference_counts :: i16
  ak_current_b_reference_counts :: i16
  ak_initialized :: bool

definition empty_controller_status :: alignment_controller_status where
  "empty_controller_status = \<lparr>ks_state = ALIGNMENT_CONTROLLER_STATE_IDLE,
     ks_result = ALIGNMENT_CONTROLLER_RESULT_NONE, ks_alignment_current_counts = 0,
     ks_phase_zero_raw = 0, ks_phase_quarter_raw = 0, ks_return_zero_raw = 0,
     ks_observed_quarter_step_counts = 0, ks_quarter_step_error_counts = 0,
     ks_closure_error_counts = 0, ks_encoder_direction = 0, ks_active_sample_count = 0,
     ks_elapsed_millis = 0\<rparr>"

section \<open>Sampling\<close>

definition state_is_active :: "alignment_controller_state \<Rightarrow> bool" where
  "state_is_active state \<longleftrightarrow>
     state \<in> {ALIGNMENT_CONTROLLER_STATE_PHASE_ZERO_SETTLE,
       ALIGNMENT_CONTROLLER_STATE_PHASE_ZERO_SAMPLE,
       ALIGNMENT_CONTROLLER_STATE_PHASE_QUARTER_SETTLE,
         ALIGNMENT_CONTROLLER_STATE_PHASE_QUARTER_SAMPLE,
       ALIGNMENT_CONTROLLER_STATE_RETURN_ZERO_SETTLE,
         ALIGNMENT_CONTROLLER_STATE_RETURN_ZERO_SAMPLE}"

definition sampler_reset :: alignment_controller_sampler where
  "sampler_reset = \<lparr>sp_origin_raw = 0, sp_minimum_delta_counts = 0, sp_maximum_delta_counts = 0,
     sp_delta_sum_counts = 0, sp_sample_count = 0, sp_initialized = False\<rparr>"

definition sampler_extend ::
  "alignment_controller_sampler \<Rightarrow> u16 \<Rightarrow> u16 \<Rightarrow> int \<times> alignment_controller_sampler" where
  "sampler_extend sampler encoder_raw counts_per_revolution =
     (let sampler = (if \<not> sp_initialized sampler
            then sampler\<lparr>sp_origin_raw := encoder_raw, sp_initialized := True\<rparr> else sampler);
          delta = wrapped_delta (sp_origin_raw sampler) encoder_raw counts_per_revolution
      in (delta,
          if sp_sample_count sampler = 0 then
            sampler\<lparr>sp_minimum_delta_counts := word_of_int delta,
              sp_maximum_delta_counts := word_of_int delta\<rparr>
          else
            sampler\<lparr>
              sp_minimum_delta_counts :=
                (if delta < sint (sp_minimum_delta_counts sampler) then word_of_int delta
                 else sp_minimum_delta_counts sampler),
              sp_maximum_delta_counts :=
                (if sint (sp_maximum_delta_counts sampler) < delta then word_of_int delta
                 else sp_maximum_delta_counts sampler)\<rparr>))"

definition sampler_observe ::
  "alignment_controller_sampler \<Rightarrow> u16 \<Rightarrow> u16 \<Rightarrow> u16 \<Rightarrow> bool \<times> alignment_controller_sampler" where
  "sampler_observe sampler encoder_raw counts_per_revolution maximum_span_counts =
     (case sampler_extend sampler encoder_raw counts_per_revolution of (delta, sampler) \<Rightarrow>
        if uint maximum_span_counts
             < sint (sp_maximum_delta_counts sampler) - sint (sp_minimum_delta_counts sampler)
        then (False, sampler)
        else if sp_sample_count sampler = 0xFFFF then (False, sampler)
        else (True, sampler\<lparr>sp_delta_sum_counts := sp_delta_sum_counts sampler + word_of_int delta,
                sp_sample_count := sp_sample_count sampler + 1\<rparr>))"

text \<open>The two loops that bring the mean into the range of the encoder.\<close>

partial_function (option) raise_mean :: "int \<Rightarrow> int \<Rightarrow> int option" where
  "raise_mean counts mean = (if mean < 0 then raise_mean counts (mean + counts) else Some mean)"

partial_function (option) lower_mean :: "int \<Rightarrow> int \<Rightarrow> int option" where
  "lower_mean counts mean = (if counts \<le> mean then lower_mean counts (mean - counts)
    else Some mean)"

definition rounded_mean_delta :: "alignment_controller_sampler \<Rightarrow> int" where
  "rounded_mean_delta sampler =
     (let rounded_sum = sint (sp_delta_sum_counts sampler);
          half = uint (sp_sample_count sampler) div 2
      in (if 0 \<le> rounded_sum then rounded_sum + half else rounded_sum - half)
           sdiv uint (sp_sample_count sampler))"

text \<open>\<open>None\<close>: the loops do not end. \<open>Some None\<close>: false is returned.\<close>

definition sampler_mean :: "alignment_controller_sampler \<Rightarrow> u16 \<Rightarrow> u16 option option" where
  "sampler_mean sampler counts_per_revolution =
     (if \<not> sp_initialized sampler \<or> sp_sample_count sampler = 0 then Some None
      else
        (case raise_mean (uint counts_per_revolution)
                (uint (sp_origin_raw sampler) + rounded_mean_delta sampler) of
           None \<Rightarrow> None
         | Some mean \<Rightarrow>
             (case lower_mean (uint counts_per_revolution) mean of
                None \<Rightarrow> None
              | Some mean \<Rightarrow> Some (Some (word_of_int mean)))))"

section \<open>The procedure\<close>

definition set_reference :: "alignment_controller \<Rightarrow> i16 \<Rightarrow> i16 \<Rightarrow> alignment_controller" where
  "set_reference controller a b =
     controller\<lparr>ak_current_a_reference_counts := a, ak_current_b_reference_counts := b\<rparr>"

definition fail ::
  "alignment_controller \<Rightarrow> alignment_controller_result \<Rightarrow> u32 \<Rightarrow>
     alignment_controller_event \<times> alignment_controller" where
  "fail controller result now_millis =
     (ALIGNMENT_CONTROLLER_EVENT_FAILED,
      set_reference (controller\<lparr>ak_status := (ak_status controller)\<lparr>
        ks_state := ALIGNMENT_CONTROLLER_STATE_FAILED, ks_result := result,
        ks_elapsed_millis := now_millis - ak_operation_start_millis controller\<rparr>\<rparr>) 0 0)"

definition current_tracks_reference :: "alignment_controller \<Rightarrow> i16 \<Rightarrow> i16 \<Rightarrow> bool" where
  "current_tracks_reference controller a b \<longleftrightarrow>
     \<bar>sint a - sint (ak_current_a_reference_counts controller)\<bar>
       \<le> uint (kc_maximum_current_error_counts (ak_config controller)) \<and>
     \<bar>sint b - sint (ak_current_b_reference_counts controller)\<bar>
       \<le> uint (kc_maximum_current_error_counts (ak_config controller))"

definition begin_sampling ::
  "alignment_controller \<Rightarrow> alignment_controller_state \<Rightarrow> u32 \<Rightarrow> alignment_controller" where
  "begin_sampling controller state now_millis =
     controller\<lparr>ak_status := (ak_status controller)\<lparr>ks_state := state, ks_active_sample_count := 0\<rparr>,
       ak_stage_start_millis := now_millis, ak_sampler := sampler_reset\<rparr>"

fun alignment_controller_config_is_valid :: "alignment_controller_config ptr \<Rightarrow> bool" where
  "alignment_controller_config_is_valid None = False"
| "alignment_controller_config_is_valid (Some config) =
     (kc_settle_duration_millis config \<noteq> 0 \<and> kc_sample_duration_millis config \<noteq> 0 \<and>
      kc_maximum_duration_millis config \<noteq> 0 \<and> kc_minimum_sample_count config \<noteq> 0 \<and>
      kc_maximum_sample_span_counts config \<noteq> 0 \<and> kc_maximum_closure_error_counts config \<noteq> 0 \<and>
      kc_maximum_current_error_counts config \<noteq> 0 \<and>
      (3 * (ucast (kc_settle_duration_millis config) + ucast (kc_sample_duration_millis config))
        :: u64)
        \<le> ucast (kc_maximum_duration_millis config))"

fun alignment_controller_is_active :: "alignment_controller ptr \<Rightarrow> bool" where
  "alignment_controller_is_active None = False"
| "alignment_controller_is_active (Some controller) =
     (ak_initialized controller \<and> state_is_active (ks_state (ak_status controller)))"

fun alignment_controller_init ::
  "alignment_controller ptr \<Rightarrow> alignment_controller_config ptr \<Rightarrow>
    bool \<times> alignment_controller ptr" where
  "alignment_controller_init None config = (False, None)"
| "alignment_controller_init (Some controller) config =
     (if \<not> alignment_controller_config_is_valid config then (False, Some controller)
      else (True, Some \<lparr>ak_config = the config, ak_status = empty_controller_status,
              ak_sampler = sampler_reset, ak_alignment_set = False, ak_operation_start_millis = 0,
              ak_stage_start_millis = 0, ak_current_a_reference_counts = 0,
              ak_current_b_reference_counts = 0, ak_initialized = True\<rparr>))"

text \<open>The object behind the alignment pointer is an argument; null is \<open>None\<close>.\<close>

fun alignment_controller_start ::
  "alignment_controller ptr \<Rightarrow> motor_alignment ptr \<Rightarrow> u16 \<Rightarrow> u32 \<Rightarrow>
    bool \<times> alignment_controller ptr" where
  "alignment_controller_start (Some controller) (Some alignment)
    alignment_current_counts now_millis =
     (if \<not> ak_initialized controller \<or> \<not> ma_initialized alignment \<or> alignment_current_counts = 0 \<or>
         32767 < alignment_current_counts \<or> alignment_controller_is_active (Some controller)
      then (False, Some controller)
      else (True, Some (set_reference
        (controller\<lparr>ak_status := empty_controller_status\<lparr>
             ks_state := ALIGNMENT_CONTROLLER_STATE_PHASE_ZERO_SETTLE,
             ks_alignment_current_counts := alignment_current_counts\<rparr>,
           ak_alignment_set := True, ak_operation_start_millis := now_millis,
           ak_stage_start_millis := now_millis, ak_sampler := sampler_reset\<rparr>)
        alignment_current_counts 0)))"
| "alignment_controller_start controller alignment alignment_current_counts now_millis = (False,
  controller)"

definition settle_stage :: "alignment_controller \<Rightarrow> u32 \<Rightarrow> alignment_controller" where
  "settle_stage controller now_millis =
     (let settled = kc_settle_duration_millis (ak_config controller)
            \<le> now_millis - ak_stage_start_millis controller
      in case ks_state (ak_status controller) of
           ALIGNMENT_CONTROLLER_STATE_PHASE_ZERO_SETTLE \<Rightarrow>
             if settled then begin_sampling controller ALIGNMENT_CONTROLLER_STATE_PHASE_ZERO_SAMPLE
             now_millis
             else controller
         | ALIGNMENT_CONTROLLER_STATE_PHASE_QUARTER_SETTLE \<Rightarrow>
             if settled then begin_sampling controller
             ALIGNMENT_CONTROLLER_STATE_PHASE_QUARTER_SAMPLE now_millis
             else controller
         | ALIGNMENT_CONTROLLER_STATE_RETURN_ZERO_SETTLE \<Rightarrow>
             if settled then begin_sampling controller ALIGNMENT_CONTROLLER_STATE_RETURN_ZERO_SAMPLE
             now_millis
             else controller
         | _ \<Rightarrow> controller)"

definition next_stop ::
  "alignment_controller \<Rightarrow> alignment_controller_state \<Rightarrow> u32 \<Rightarrow> i16 \<Rightarrow> i16 \<Rightarrow>
     alignment_controller_event \<times> alignment_controller" where
  "next_stop controller state now_millis a b =
     (ALIGNMENT_CONTROLLER_EVENT_REFERENCE_CHANGED,
      set_reference (controller\<lparr>ak_status := (ak_status controller)\<lparr>ks_state := state\<rparr>,
        ak_stage_start_millis := now_millis\<rparr>) a b)"

definition finish_zero ::
  "alignment_controller \<Rightarrow> u16 \<Rightarrow> u32 \<Rightarrow> alignment_controller_event \<times> alignment_controller" where
  "finish_zero controller mean_raw now_millis =
     next_stop (controller\<lparr>ak_status := (ak_status controller)\<lparr>ks_phase_zero_raw := mean_raw\<rparr>\<rparr>)
       ALIGNMENT_CONTROLLER_STATE_PHASE_QUARTER_SETTLE now_millis 0
       (ks_alignment_current_counts (ak_status controller))"

definition finish_quarter ::
  "alignment_controller \<Rightarrow> motor_alignment \<Rightarrow> u16 \<Rightarrow> u32 \<Rightarrow>
     alignment_controller_event \<times> alignment_controller" where
  "finish_quarter controller alignment mean_raw now_millis =
     (let counts = mc_encoder_counts_per_revolution (ma_config alignment);
          quarter_delta = wrapped_delta (ks_phase_zero_raw (ak_status controller)) mean_raw counts;
          quarter_magnitude = \<bar>quarter_delta\<bar>;
          denominator = ucast (mc_electrical_cycles_per_revolution (ma_config alignment))
            * 4 :: u32;
          expected_rounded = (ucast counts + denominator div 2) div denominator;
          quarter_error = quarter_magnitude - sint expected_rounded
      in next_stop (controller\<lparr>ak_status := (ak_status controller)\<lparr>
             ks_phase_quarter_raw := mean_raw,
             ks_observed_quarter_step_counts := word_of_int quarter_magnitude,
             ks_quarter_step_error_counts := word_of_int quarter_error,
             ks_encoder_direction := (if 0 < quarter_delta then 1 else if quarter_delta < 0 then - 1
             else 0)\<rparr>\<rparr>)
           ALIGNMENT_CONTROLLER_STATE_RETURN_ZERO_SETTLE now_millis
           (ks_alignment_current_counts (ak_status controller)) 0)"

definition finish_return ::
  "alignment_controller \<Rightarrow> motor_alignment \<Rightarrow> u16 \<Rightarrow> u32 \<Rightarrow>
     (alignment_controller_event \<times> alignment_controller) \<times> motor_alignment" where
  "finish_return controller alignment mean_raw now_millis =
     (let controller = controller\<lparr>ak_status := (ak_status controller)\<lparr>ks_return_zero_raw :=
       mean_raw\<rparr>\<rparr>;
          closure_error = wrapped_delta (ks_phase_zero_raw (ak_status controller)) mean_raw
            (mc_encoder_counts_per_revolution (ma_config alignment))
      in if closure_error < - 32768 \<or> 32767 < closure_error
         then (fail controller ALIGNMENT_CONTROLLER_RESULT_CLOSURE now_millis, alignment)
         else
           (let controller = controller\<lparr>ak_status :=
                  (ak_status controller)\<lparr>ks_closure_error_counts := word_of_int closure_error\<rparr>\<rparr>
            in if uint (kc_maximum_closure_error_counts (ak_config controller)) < \<bar>closure_error\<bar>
               then (fail controller ALIGNMENT_CONTROLLER_RESULT_CLOSURE now_millis, alignment)
               else
                 (case motor_alignment_calibrate (Some alignment)
                         (ks_phase_zero_raw (ak_status controller))
                         (ks_phase_quarter_raw (ak_status controller)) of
                    (True, Some alignment) \<Rightarrow>
                      ((ALIGNMENT_CONTROLLER_EVENT_COMPLETED,
                        set_reference (controller\<lparr>ak_status := (ak_status controller)\<lparr>
                          ks_state := ALIGNMENT_CONTROLLER_STATE_COMPLETE,
                          ks_result := ALIGNMENT_CONTROLLER_RESULT_SUCCESS,
                          ks_elapsed_millis := now_millis - ak_operation_start_millis controller\<rparr>\<rparr>)
                          0 0),
                       alignment)
                  | (_, after) \<Rightarrow>
                      (fail controller ALIGNMENT_CONTROLLER_RESULT_GEOMETRY now_millis,
                       (case after of Some alignment \<Rightarrow> alignment | None \<Rightarrow> alignment)))))"

definition finish_stop ::
  "alignment_controller \<Rightarrow> motor_alignment \<Rightarrow> u16 \<Rightarrow> u32 \<Rightarrow>
     (alignment_controller_event \<times> alignment_controller) \<times> motor_alignment" where
  "finish_stop controller alignment mean_raw now_millis =
     (case ks_state (ak_status controller) of
        ALIGNMENT_CONTROLLER_STATE_PHASE_ZERO_SAMPLE \<Rightarrow>
          (finish_zero controller mean_raw now_millis, alignment)
      | ALIGNMENT_CONTROLLER_STATE_PHASE_QUARTER_SAMPLE \<Rightarrow>
          (finish_quarter controller alignment mean_raw now_millis, alignment)
      | ALIGNMENT_CONTROLLER_STATE_RETURN_ZERO_SAMPLE \<Rightarrow>
          finish_return controller alignment mean_raw now_millis
      | _ \<Rightarrow>
          (fail controller ALIGNMENT_CONTROLLER_RESULT_ENCODER_UNSTABLE now_millis, alignment))"

text \<open>The sampling part of an update; \<open>None\<close>: it does not return.\<close>

definition sample_stage ::
  "alignment_controller \<Rightarrow> motor_alignment \<Rightarrow> u32 \<Rightarrow> u16 \<Rightarrow> i16 \<Rightarrow> i16 \<Rightarrow>
     ((alignment_controller_event \<times> alignment_controller) \<times> motor_alignment) option" where
  "sample_stage controller alignment now_millis encoder_raw a b =
     (let counts = mc_encoder_counts_per_revolution (ma_config alignment)
      in if ks_state (ak_status controller) \<notin> {ALIGNMENT_CONTROLLER_STATE_PHASE_ZERO_SAMPLE,
              ALIGNMENT_CONTROLLER_STATE_PHASE_QUARTER_SAMPLE,
              ALIGNMENT_CONTROLLER_STATE_RETURN_ZERO_SAMPLE}
         then Some ((ALIGNMENT_CONTROLLER_EVENT_NONE, controller), alignment)
         else if \<not> current_tracks_reference controller a b
         then Some (fail controller ALIGNMENT_CONTROLLER_RESULT_CURRENT_TRACKING now_millis,
           alignment)
         else
           (case sampler_observe (ak_sampler controller) encoder_raw counts
                   (kc_maximum_sample_span_counts (ak_config controller)) of
              (False, sampler) \<Rightarrow>
                Some (fail (controller\<lparr>ak_sampler := sampler\<rparr>)
                  ALIGNMENT_CONTROLLER_RESULT_ENCODER_UNSTABLE now_millis, alignment)
            | (True, sampler) \<Rightarrow>
                (let controller = controller\<lparr>ak_sampler := sampler,
                       ak_status := (ak_status controller)\<lparr>ks_active_sample_count :=
                       sp_sample_count sampler\<rparr>\<rparr>
                 in if now_millis - ak_stage_start_millis controller
                         < kc_sample_duration_millis (ak_config controller) \<or>
                       sp_sample_count sampler < kc_minimum_sample_count (ak_config controller)
                    then Some ((ALIGNMENT_CONTROLLER_EVENT_NONE, controller), alignment)
                    else
                      (case sampler_mean sampler counts of
                         None \<Rightarrow> None
                       | Some None \<Rightarrow>
                           Some (fail controller ALIGNMENT_CONTROLLER_RESULT_ENCODER_UNSTABLE
                           now_millis,
                             alignment)
                       | Some (Some mean_raw) \<Rightarrow>
                           Some (finish_stop controller alignment mean_raw now_millis)))))"

definition update_active ::
  "alignment_controller \<Rightarrow> motor_alignment \<Rightarrow> u32 \<Rightarrow> bool \<Rightarrow> u16 \<Rightarrow> i16 \<Rightarrow> i16 \<Rightarrow> bool \<Rightarrow>
     ((alignment_controller_event \<times> alignment_controller) \<times> motor_alignment) option" where
  "update_active controller alignment now_millis encoder_valid encoder_raw a b backend_active =
     (let elapsed = now_millis - ak_operation_start_millis controller;
          controller = controller\<lparr>ak_status := (ak_status controller)\<lparr>ks_elapsed_millis := elapsed\<rparr>\<rparr>
      in if kc_maximum_duration_millis (ak_config controller) < elapsed
         then Some (fail controller ALIGNMENT_CONTROLLER_RESULT_DEADLINE now_millis, alignment)
         else if \<not> encoder_valid
         then Some (fail controller ALIGNMENT_CONTROLLER_RESULT_ENCODER_INVALID now_millis,
           alignment)
         else if \<not> backend_active
         then Some (fail controller ALIGNMENT_CONTROLLER_RESULT_BACKEND_INACTIVE now_millis,
           alignment)
         else if mc_encoder_counts_per_revolution (ma_config alignment) \<le> encoder_raw
         then Some (fail controller ALIGNMENT_CONTROLLER_RESULT_ENCODER_INVALID now_millis,
           alignment)
         else sample_stage (settle_stage controller now_millis)
           alignment now_millis encoder_raw a b)"

fun alignment_controller_update ::
  "alignment_controller ptr \<Rightarrow> motor_alignment \<Rightarrow> u32 \<Rightarrow> bool \<Rightarrow> u16 \<Rightarrow> i16 \<Rightarrow> i16 \<Rightarrow> bool \<Rightarrow>
     ((alignment_controller_event \<times> alignment_controller ptr) \<times> motor_alignment) option" where
  "alignment_controller_update None alignment now_millis encoder_valid encoder_raw a b
    backend_active =
     Some ((ALIGNMENT_CONTROLLER_EVENT_NONE, None), alignment)"
| "alignment_controller_update (Some controller) alignment now_millis encoder_valid encoder_raw a b
       backend_active =
     (if \<not> ak_initialized controller \<or> \<not> alignment_controller_is_active (Some controller) \<or>
         \<not> ak_alignment_set controller \<or> \<not> ma_initialized alignment
      then Some ((ALIGNMENT_CONTROLLER_EVENT_NONE, Some controller), alignment)
      else map_option (\<lambda>((event, controller), alignment). ((event, Some controller), alignment))
             (update_active controller alignment now_millis encoder_valid encoder_raw a b
             backend_active))"

fun alignment_controller_abort :: "alignment_controller ptr \<Rightarrow> u32 \<Rightarrow> alignment_controller ptr" where
  "alignment_controller_abort None now_millis = None"
| "alignment_controller_abort (Some controller) now_millis =
     (if \<not> ak_initialized controller \<or> \<not> alignment_controller_is_active (Some controller)
      then Some controller
      else Some (set_reference (controller\<lparr>ak_status := (ak_status controller)\<lparr>
        ks_state := ALIGNMENT_CONTROLLER_STATE_ABORTED, ks_result :=
          ALIGNMENT_CONTROLLER_RESULT_ABORTED,
        ks_elapsed_millis := now_millis - ak_operation_start_millis controller\<rparr>\<rparr>) 0 0))"

fun alignment_controller_get_reference_counts ::
  "alignment_controller ptr \<Rightarrow> i16 ptr \<Rightarrow> i16 ptr \<Rightarrow> bool \<times> i16 ptr \<times> i16 ptr" where
  "alignment_controller_get_reference_counts (Some controller) (Some a) (Some b) =
     (if \<not> ak_initialized controller then (False, Some a, Some b)
      else (True, Some (ak_current_a_reference_counts controller),
            Some (ak_current_b_reference_counts controller)))"
| "alignment_controller_get_reference_counts controller a b = (False, a, b)"

fun alignment_controller_get_status ::
  "alignment_controller ptr \<Rightarrow> alignment_controller_status ptr \<Rightarrow>
    alignment_controller_status ptr" where
  "alignment_controller_get_status controller None = None"
| "alignment_controller_get_status (Some controller) (Some status) =
     Some (if ak_initialized controller then ak_status controller else empty_controller_status)"
| "alignment_controller_get_status None (Some status) = Some empty_controller_status"

section \<open>The loops end\<close>

lemma raise_mean_ends:
  assumes "0 < counts"
  shows "raise_mean counts mean = Some (if mean < 0 then mean mod counts else mean)"
proof (induction "nat (- mean)" arbitrary: mean rule: less_induct)
  case less
  show ?case
  proof (cases "mean < 0")
    case True
    then have "raise_mean counts (mean + counts) = Some (if mean + counts < 0 then (mean + counts)
      mod counts else mean + counts)"
      using assms by (intro less) simp
    moreover have "(mean + counts) mod counts = mean mod counts" by simp
    moreover have "mean mod counts = mean + counts" if "\<not> mean + counts < 0"
      using that True mod_pos_pos_trivial [of "mean + counts" counts] by simp
    ultimately show ?thesis using True by (simp add: raise_mean.simps [of counts mean])
  qed (simp add: raise_mean.simps)
qed

lemma lower_mean_ends:
  assumes "0 < counts" "0 \<le> mean"
  shows "lower_mean counts mean = Some (mean mod counts)"
  using assms(2)
proof (induction "nat mean" arbitrary: mean rule: less_induct)
  case less
  show ?case
  proof (cases "counts \<le> mean")
    case True
    then have "lower_mean counts (mean - counts) = Some ((mean - counts) mod counts)"
      using assms(1) by (intro less) simp_all
    then show ?thesis using True by (simp add: lower_mean.simps [of counts mean])
  qed (use less.prems in \<open>simp add: lower_mean.simps\<close>)
qed

lemma sampler_mean_value:
  assumes "0 < counts_per_revolution" "sp_initialized s" "sp_sample_count s \<noteq> 0"
  shows "sampler_mean s counts_per_revolution = Some (Some (word_of_int
    ((uint (sp_origin_raw s) + rounded_mean_delta s) mod uint counts_per_revolution)))"
proof -
  have n: "0 < uint counts_per_revolution" using assms(1) by (simp add: word_less_def)
  show ?thesis
    using assms(2,3) lower_mean_ends [OF n] n by (simp add: sampler_mean_def raise_mean_ends [OF n])
qed

lemma sampler_mean_ends: "0 < counts_per_revolution \<Longrightarrow> \<exists>r. sampler_mean s counts_per_revolution =
  Some r"
  using sampler_mean_value by (cases "sp_initialized s \<and> sp_sample_count s \<noteq> 0")
    (auto simp: sampler_mean_def)

lemma sample_stage_ends:
  assumes "0 < mc_encoder_counts_per_revolution (ma_config al)"
  shows "sample_stage c al now raw a b \<noteq> None"
proof -
  obtain ok s where "sampler_observe (ak_sampler c) raw (mc_encoder_counts_per_revolution (ma_config
    al))
      (kc_maximum_sample_span_counts (ak_config c)) = (ok, s)" by fastforce
  moreover obtain r where "sampler_mean s (mc_encoder_counts_per_revolution (ma_config al)) =
    Some r"
    using sampler_mean_ends [OF assms] by blast
  ultimately show ?thesis
    by (cases ok; cases r) (simp_all add: sample_stage_def Let_def del: not_None_eq)
qed

lemma update_active_ends: "update_active c al now v raw a b act \<noteq> None"
proof (cases "mc_encoder_counts_per_revolution (ma_config al) \<le> raw")
  case False
  then have "0 < mc_encoder_counts_per_revolution (ma_config al)" by (simp add: not_le
    word_neq_0_conv [symmetric]) (metis word_not_simps(1))
  from sample_stage_ends [OF this] show ?thesis by (simp add: update_active_def Let_def del:
    not_None_eq)
qed (simp add: update_active_def Let_def del: not_None_eq)

section \<open>Stages\<close>

text \<open>The current vector of each stage.\<close>

definition stage_reference :: "alignment_controller_status \<Rightarrow> i16 \<times> i16" where
  "stage_reference s =
     (if ks_state s \<in> {ALIGNMENT_CONTROLLER_STATE_PHASE_ZERO_SETTLE,
       ALIGNMENT_CONTROLLER_STATE_PHASE_ZERO_SAMPLE,
         ALIGNMENT_CONTROLLER_STATE_RETURN_ZERO_SETTLE,
           ALIGNMENT_CONTROLLER_STATE_RETURN_ZERO_SAMPLE}
      then (ks_alignment_current_counts s, 0)
      else if ks_state s \<in> {ALIGNMENT_CONTROLLER_STATE_PHASE_QUARTER_SETTLE,
        ALIGNMENT_CONTROLLER_STATE_PHASE_QUARTER_SAMPLE}
      then (0, ks_alignment_current_counts s) else (0, 0))"

definition controller_ok :: "alignment_controller \<Rightarrow> bool" where
  "controller_ok c \<longleftrightarrow> ak_initialized c \<and>
     (ak_current_a_reference_counts c, ak_current_b_reference_counts c) =
       stage_reference (ak_status c) \<and>
     ks_alignment_current_counts (ak_status c) \<le> 32767 \<and>
     (state_is_active (ks_state (ak_status c)) \<longrightarrow> ks_alignment_current_counts (ak_status c) \<noteq> 0 \<and>
       ak_alignment_set c)"

lemmas controller_unfold = controller_ok_def stage_reference_def state_is_active_def
  set_reference_def

lemma fail_ok: "controller_ok c \<Longrightarrow> controller_ok (snd (fail c r now))"
  by (simp add: fail_def controller_unfold)

lemma settle_stage_ok: "controller_ok c \<Longrightarrow> controller_ok (settle_stage c now)"
  by (cases "ks_state (ak_status c)") (simp_all add: settle_stage_def begin_sampling_def
    controller_unfold Let_def)

lemma finish_zero_ok:
  assumes "controller_ok c" "ks_state (ak_status c) = ALIGNMENT_CONTROLLER_STATE_PHASE_ZERO_SAMPLE"
  shows "controller_ok (snd (finish_zero c mean now))"
  using assms by (simp add: finish_zero_def next_stop_def controller_unfold)

lemma finish_quarter_ok:
  assumes "controller_ok c" "ks_state (ak_status c) =
    ALIGNMENT_CONTROLLER_STATE_PHASE_QUARTER_SAMPLE"
  shows "controller_ok (snd (finish_quarter c al mean now))"
  using assms by (simp add: finish_quarter_def next_stop_def controller_unfold Let_def)

lemma finish_return_ok:
  assumes "controller_ok c"
  shows "controller_ok (snd (fst (finish_return c al mean now)))"
  using assms by (auto simp: finish_return_def Let_def fail_def controller_unfold
      split: prod.splits bool.splits option.splits)

lemma same_reference:
  "controller_ok c \<Longrightarrow> controller_ok (c\<lparr>ak_sampler := s\<rparr>)"
  "controller_ok c \<Longrightarrow> controller_ok (c\<lparr>ak_status := (ak_status c)\<lparr>ks_elapsed_millis := e\<rparr>\<rparr>)"
  "controller_ok c \<Longrightarrow> controller_ok (c\<lparr>ak_sampler := s, ak_status :=
    (ak_status c)\<lparr>ks_active_sample_count := n\<rparr>\<rparr>)"
  by (simp_all add: controller_unfold)

text \<open>What an update does to the alignment object and when.\<close>

definition calibrated_by :: "alignment_controller \<Rightarrow> u16 \<Rightarrow> motor_alignment \<Rightarrow> motor_alignment \<Rightarrow>
  bool" where
  "calibrated_by c return_raw al al' \<longleftrightarrow>
     ks_state (ak_status c) = ALIGNMENT_CONTROLLER_STATE_RETURN_ZERO_SAMPLE \<and>
     \<bar>wrapped_delta (ks_phase_zero_raw (ak_status c)) return_raw (mc_encoder_counts_per_revolution
       (ma_config al))\<bar>
       \<le> uint (kc_maximum_closure_error_counts (ak_config c)) \<and>
     motor_alignment_calibrate (Some al) (ks_phase_zero_raw (ak_status c))
       (ks_phase_quarter_raw (ak_status c))
       = (True, Some al')"

text \<open>The return position the controller has recorded is the mean of its sampler, over at least the
  minimum number of samples.\<close>

definition return_recorded :: "alignment_controller \<Rightarrow> motor_alignment \<Rightarrow> bool" where
  "return_recorded c al \<longleftrightarrow>
     sampler_mean (ak_sampler c) (mc_encoder_counts_per_revolution (ma_config al))
       = Some (Some (ks_return_zero_raw (ak_status c))) \<and>
     kc_minimum_sample_count (ak_config c) \<le> sp_sample_count (ak_sampler c)"

lemma finish_return_effect:
  assumes "finish_return c al mean now = ((e, c'), al')"
    "ks_state (ak_status c) = ALIGNMENT_CONTROLLER_STATE_RETURN_ZERO_SAMPLE"
  shows "(e = ALIGNMENT_CONTROLLER_EVENT_COMPLETED \<and> calibrated_by c mean al al' \<and>
            ks_return_zero_raw (ak_status c') = mean \<and> ak_sampler c' = ak_sampler c \<and>
            ak_config c' = ak_config c \<and>
            ks_state (ak_status c') = ALIGNMENT_CONTROLLER_STATE_COMPLETE) \<or>
         (e = ALIGNMENT_CONTROLLER_EVENT_FAILED \<and> al' = al \<and>
            ks_state (ak_status c') = ALIGNMENT_CONTROLLER_STATE_FAILED)"
  using assms
  by (auto simp: finish_return_def Let_def fail_def calibrated_by_def set_reference_def not_less
      split: if_splits option.splits)

definition update_outcome ::
  "alignment_controller \<Rightarrow> motor_alignment \<Rightarrow> alignment_controller_event \<Rightarrow> alignment_controller \<Rightarrow>
     motor_alignment \<Rightarrow> bool" where
  "update_outcome c al e c' al' \<longleftrightarrow> controller_ok c' \<and>
     (e = ALIGNMENT_CONTROLLER_EVENT_COMPLETED \<and>
        calibrated_by c (ks_return_zero_raw (ak_status c')) al al' \<and> return_recorded c' al \<and>
        ks_state (ak_status c') = ALIGNMENT_CONTROLLER_STATE_COMPLETE \<or>
      e \<noteq> ALIGNMENT_CONTROLLER_EVENT_COMPLETED \<and> al' = al \<and>
        ks_state (ak_status c') \<noteq> ALIGNMENT_CONTROLLER_STATE_COMPLETE)"

lemma fail_outcome: "controller_ok c \<Longrightarrow> fail c r now = (e, c') \<Longrightarrow> update_outcome c0 al e c' al"
  using fail_ok [of c r now] by (auto simp: update_outcome_def fail_def set_reference_def)

lemma finish_stop_outcome:
  assumes "finish_stop c al mean now = ((e, c'), al')" "controller_ok c"
    "sampler_mean (ak_sampler c) (mc_encoder_counts_per_revolution (ma_config al)) =
      Some (Some mean)"
    "kc_minimum_sample_count (ak_config c) \<le> sp_sample_count (ak_sampler c)"
  shows "update_outcome c al e c' al'"
proof (cases "ks_state (ak_status c)")
  case ALIGNMENT_CONTROLLER_STATE_PHASE_ZERO_SAMPLE
  then show ?thesis using assms finish_zero_ok [OF assms(2), of mean now]
    by (auto simp: finish_stop_def update_outcome_def finish_zero_def next_stop_def
      set_reference_def)
next
  case ALIGNMENT_CONTROLLER_STATE_PHASE_QUARTER_SAMPLE
  then show ?thesis using assms finish_quarter_ok [OF assms(2), of al mean now]
    by (auto simp: finish_stop_def update_outcome_def finish_quarter_def next_stop_def
      set_reference_def Let_def)
next
  case ALIGNMENT_CONTROLLER_STATE_RETURN_ZERO_SAMPLE
  then have f: "finish_return c al mean now = ((e, c'), al')" using assms(1)
    by (simp add: finish_stop_def)
  show ?thesis
    using finish_return_effect [OF f ALIGNMENT_CONTROLLER_STATE_RETURN_ZERO_SAMPLE] f
      finish_return_ok [OF assms(2), of al mean now] assms(3,4)
    by (auto simp: update_outcome_def return_recorded_def)
qed (use assms in \<open>auto simp: finish_stop_def intro: fail_outcome [OF assms(2)]\<close>)

lemma sample_stage_outcome:
  assumes "sample_stage c al now raw a b = Some ((e, c'), al')" "controller_ok c"
    "ks_state (ak_status c) \<noteq> ALIGNMENT_CONTROLLER_STATE_COMPLETE"
  shows "update_outcome c al e c' al'"
proof -
  define n where "n = mc_encoder_counts_per_revolution (ma_config al)"
  obtain ok s where o: "sampler_observe (ak_sampler c)
    raw n (kc_maximum_sample_span_counts (ak_config c)) = (ok, s)"
    by fastforce
  define c1 where "c1 = c\<lparr>ak_sampler := s, ak_status := (ak_status c)\<lparr>ks_active_sample_count :=
    sp_sample_count s\<rparr>\<rparr>"
  have c1: "controller_ok c1" "ks_state (ak_status c1) = ks_state (ak_status c)"
    using same_reference(3) [OF assms(2)] by (simp_all add: c1_def)
  have unit: "update_outcome c al ALIGNMENT_CONTROLLER_EVENT_NONE k al"
    if "controller_ok k" "ks_state (ak_status k) = ks_state (ak_status c)" for k
    using that assms(3) by (simp add: update_outcome_def)
  have stop: "update_outcome c al e' c'' al''"
    if "finish_stop c1 al mean now = ((e', c''), al'')" "sampler_mean s n = Some (Some mean)"
      "\<not> sp_sample_count s < kc_minimum_sample_count (ak_config c1)" for mean e' c'' al''
    using finish_stop_outcome [OF that(1) c1(1)] that(2,3)
      by (simp add: update_outcome_def calibrated_by_def
      c1_def n_def not_less)
  note fl = fail_outcome [OF assms(2)] fail_outcome [OF same_reference(1)
    [OF assms(2)]] fail_outcome [OF c1(1)]
  show ?thesis
    using assms(1) fl unit [OF assms(2)] unit [OF c1] stop
    by (auto simp: sample_stage_def Let_def n_def [symmetric] o c1_def [symmetric]
        split: if_splits bool.splits option.splits)
qed

lemma settle_stage_keeps:
  "ak_config (settle_stage c now) = ak_config c"
  "ks_phase_zero_raw (ak_status (settle_stage c now)) = ks_phase_zero_raw (ak_status c)"
  "ks_phase_quarter_raw (ak_status (settle_stage c now)) = ks_phase_quarter_raw (ak_status c)"
  "ks_state (ak_status (settle_stage c now)) = ALIGNMENT_CONTROLLER_STATE_RETURN_ZERO_SAMPLE \<Longrightarrow>
     ks_state (ak_status c) \<in> {ALIGNMENT_CONTROLLER_STATE_RETURN_ZERO_SETTLE,
       ALIGNMENT_CONTROLLER_STATE_RETURN_ZERO_SAMPLE}"
  "ks_state (ak_status (settle_stage c now)) = ALIGNMENT_CONTROLLER_STATE_COMPLETE \<longleftrightarrow>
     ks_state (ak_status c) = ALIGNMENT_CONTROLLER_STATE_COMPLETE"
  by (cases "ks_state (ak_status c)"; simp add: settle_stage_def begin_sampling_def Let_def split:
    if_splits)+

text \<open>A completed run, as the controller before and after the update and the two alignment objects
  show it: the return position recorded is the mean of the samples taken at the return stop, and it
  is this position that closes on the first one.\<close>

definition completed_run :: "alignment_controller \<Rightarrow> alignment_controller \<Rightarrow> u32 \<Rightarrow>
  motor_alignment \<Rightarrow> motor_alignment \<Rightarrow> bool" where
  "completed_run c c' now al al' \<longleftrightarrow>
     ks_state (ak_status c) \<in> {ALIGNMENT_CONTROLLER_STATE_RETURN_ZERO_SETTLE,
       ALIGNMENT_CONTROLLER_STATE_RETURN_ZERO_SAMPLE} \<and>
     now - ak_operation_start_millis c \<le> kc_maximum_duration_millis (ak_config c) \<and>
     return_recorded c' al \<and>
     \<bar>wrapped_delta (ks_phase_zero_raw (ak_status c)) (ks_return_zero_raw (ak_status c'))
        (mc_encoder_counts_per_revolution (ma_config al))\<bar>
       \<le> uint (kc_maximum_closure_error_counts (ak_config c)) \<and>
     motor_alignment_calibrate (Some al) (ks_phase_zero_raw (ak_status c))
       (ks_phase_quarter_raw (ak_status c))
       = (True, Some al')"

lemma update_active_outcome:
  assumes "update_active c al now v raw a b act = Some ((e, c'), al')" "controller_ok c"
    "state_is_active (ks_state (ak_status c))"
  shows "controller_ok c' \<and>
    (e = ALIGNMENT_CONTROLLER_EVENT_COMPLETED \<and> completed_run c c' now al al' \<and>
       ks_state (ak_status c') = ALIGNMENT_CONTROLLER_STATE_COMPLETE \<or>
     e \<noteq> ALIGNMENT_CONTROLLER_EVENT_COMPLETED \<and> al' = al \<and>
       ks_state (ak_status c') \<noteq> ALIGNMENT_CONTROLLER_STATE_COMPLETE) \<and>
    (kc_maximum_duration_millis (ak_config c) < now - ak_operation_start_millis c \<longrightarrow>
       ks_state (ak_status c') = ALIGNMENT_CONTROLLER_STATE_FAILED \<and>
       ks_result (ak_status c') = ALIGNMENT_CONTROLLER_RESULT_DEADLINE)"
proof -
  define k where "k = c\<lparr>ak_status := (ak_status c)\<lparr>ks_elapsed_millis :=
    now - ak_operation_start_millis c\<rparr>\<rparr>"
  have k: "controller_ok k" using same_reference(2) [OF assms(2)] by (simp add: k_def)
  have nc: "ks_state (ak_status k) \<noteq> ALIGNMENT_CONTROLLER_STATE_COMPLETE"
    using assms(3) by (auto simp: k_def state_is_active_def)
  let ?late = "kc_maximum_duration_millis (ak_config c) < now - ak_operation_start_millis c"
  let ?done = "sample_stage (settle_stage k now) al now raw a b = Some ((e, c'), al')"
  have cases: "(\<exists>r. fail k r now = (e, c') \<and> al' = al \<and> (?late \<longrightarrow> r =
    ALIGNMENT_CONTROLLER_RESULT_DEADLINE)) \<or>
      \<not> ?late \<and> ?done"
    using assms(1) by (auto simp: update_active_def Let_def k_def [symmetric] split: if_splits)
  then show ?thesis
  proof
    assume "\<exists>r. fail k r now = (e, c') \<and> al' = al \<and> (?late \<longrightarrow> r =
      ALIGNMENT_CONTROLLER_RESULT_DEADLINE)"
    then show ?thesis using fail_ok [OF k] by (auto simp: fail_def set_reference_def)
  next
    assume d: "\<not> ?late \<and> ?done"
    have "update_outcome (settle_stage k now) al e c' al'"
      using nc by (intro sample_stage_outcome [OF d [THEN conjunct2] settle_stage_ok [OF k]])
        (simp add: settle_stage_keeps)
    then show ?thesis
      using d settle_stage_keeps(4) [of k now]
      by (auto simp: update_outcome_def calibrated_by_def completed_run_def settle_stage_keeps k_def
        not_less)
  qed
qed

section \<open>Any sequence of calls\<close>

datatype alignment_call =
  Align_Start u16 u32
| Align_Update u32 bool u16 i16 i16 bool
| Align_Abort u32

fun call_alignment ::
  "alignment_controller \<times> motor_alignment \<Rightarrow> alignment_call \<Rightarrow> alignment_controller \<times> motor_alignment"
    where
  "call_alignment (c, al) (Align_Start current now) =
     (the (snd (alignment_controller_start (Some c) (Some al) current now)), al)"
| "call_alignment (c, al) (Align_Update now v raw a b act) =
     (case alignment_controller_update (Some c) al now v raw a b act of
        Some ((e, Some c'), al') \<Rightarrow> (c', al') | _ \<Rightarrow> (c, al))"
| "call_alignment (c, al) (Align_Abort now) = (the (alignment_controller_abort (Some c) now), al)"

lemma update_result:
  assumes "controller_ok c"
  shows "\<exists>e c' al'. alignment_controller_update (Some c) al now v raw a b act = Some ((e, Some c'),
    al') \<and>
    (if state_is_active (ks_state (ak_status c)) \<and> ma_initialized al
     then update_active c al now v raw a b act = Some ((e, c'), al')
     else e = ALIGNMENT_CONTROLLER_EVENT_NONE \<and> c' = c \<and> al' = al)"
proof -
  obtain e c' al' where u: "update_active c al now v raw a b act = Some ((e, c'), al')"
    using update_active_ends [of c al now v raw a b act] by auto
  have i: "ak_initialized c" "state_is_active (ks_state (ak_status c)) \<longrightarrow> ak_alignment_set c"
    using assms by (auto simp: controller_ok_def)
  show ?thesis
  proof (cases "state_is_active (ks_state (ak_status c)) \<and> ma_initialized al")
    case True
    then show ?thesis using i u by simp
  next
    case False
    then show ?thesis using i by auto
  qed
qed

lemma start_result: "\<exists>ok c'. alignment_controller_start (Some c) (Some al) current now = (ok,
  Some c')"
  by (metis alignment_controller_start.simps(1))

lemma start_ok:
  assumes "controller_ok c" "alignment_controller_start (Some c) (Some al) current now = (ok,
    Some c')"
  shows "controller_ok c'"
proof (cases ok)
  case True
  have "ak_initialized c" "current \<noteq> 0" "current \<le> 32767" and c': "c' = set_reference
      (c\<lparr>ak_status := empty_controller_status\<lparr>ks_state :=
        ALIGNMENT_CONTROLLER_STATE_PHASE_ZERO_SETTLE,
           ks_alignment_current_counts := current\<rparr>,
         ak_alignment_set := True, ak_operation_start_millis := now,
         ak_stage_start_millis := now, ak_sampler := sampler_reset\<rparr>) current 0"
    using assms(2) True
    by (simp_all add: not_less del: alignment_controller_is_active.simps split: if_split_asm)
  then show ?thesis unfolding c' by (simp add: controller_ok_def stage_reference_def
    set_reference_def)
next
  case False
  then have "c' = c" using assms(2) by (simp del: alignment_controller_is_active.simps split:
    if_split_asm)
  then show ?thesis using assms(1) by simp
qed

lemma call_alignment_keeps: "controller_ok (fst s) \<Longrightarrow> controller_ok (fst (call_alignment s e))"
proof (cases s; cases e)
  fix c al current now
  assume s: "s = (c, al)" "e = Align_Start current now" and ok: "controller_ok (fst s)"
  obtain r c' where "alignment_controller_start (Some c) (Some al) current now = (r, Some c')"
    using start_result by metis
  then show ?thesis using s ok start_ok [of c al current now r c'] by simp
next
  fix c al now v raw a b act
  assume s: "s = (c, al)" "e = Align_Update now v raw a b act" and ok: "controller_ok (fst s)"
  then obtain e' c' al' where
    "alignment_controller_update (Some c) al now v raw a b act = Some ((e', Some c'), al')"
    "if state_is_active (ks_state (ak_status c)) \<and> ma_initialized al
     then update_active c al now v raw a b act = Some ((e', c'), al') else c' = c"
    using update_result [of c al now v raw a b act] by auto
  then show ?thesis using s ok update_active_outcome [of c al now v raw a b act e' c' al']
    by (auto split: if_splits)
next
  fix c al now
  assume "s = (c, al)" "e = Align_Abort now" "controller_ok (fst s)"
  then show ?thesis by (auto simp: controller_unfold)
qed

interpretation alignment_run: invariant_machine call_alignment "\<lambda>s. controller_ok (fst s)"
  by unfold_locales (rule call_alignment_keeps)

lemma init_controller_ok:
  "alignment_controller_init (Some c) k = (True, Some c0) \<Longrightarrow> controller_ok c0"
  by (auto simp: controller_unfold empty_controller_status_def split: if_splits)

lemma reached_controller_ok:
  assumes "alignment_controller_init (Some c) k = (True, Some c0)"
    and "foldl call_alignment (c0, al0) es = (c1, al1)"
  shows "controller_ok c1"
  using alignment_run.run_inv [of "(c0, al0)" es] init_controller_ok [OF assms(1)] assms(2) by simp

text \<open>
  C30. Current is commanded only while the procedure is active. After initialisation and any
    sequence
  of starts, updates and aborts, the references are those of the current stage: the requested
  current on phase A at the zero stops, on phase B at the quarter stop, never on both, at most
  32767 counts, and zero on both phases whenever the procedure is not active.
\<close>

theorem alignment_current_only_when_active:
  assumes "alignment_controller_init (Some c) k = (True, Some c0)"
    and "foldl call_alignment (c0, al0) es = (c1, al1)"
  shows "\<exists>a b. alignment_controller_get_reference_counts (Some c1) (Some x) (Some y) = (True,
    Some a, Some b) \<and>
     (a = 0 \<or> b = 0) \<and> 0 \<le> sint a \<and> 0 \<le> sint b \<and>
     (if alignment_controller_is_active (Some c1)
      then sint a + sint b = uint (ks_alignment_current_counts (ak_status c1)) \<and> 0 < sint a + sint b
      else a = 0 \<and> b = 0)"
proof -
  have ok: "controller_ok c1" by (rule reached_controller_ok [OF assms])
  let ?i = "ks_alignment_current_counts (ak_status c1)"
  have i: "sint ?i = uint ?i" if "?i \<le> 32767"
  proof -
    have "- (2 ^ 15) \<le> uint ?i" by (rule order_trans [OF _ uint_ge_0]) simp
    moreover have "uint ?i < 2 ^ 15" using that by (simp add: word_le_def)
    ultimately have "signed_take_bit 15 (uint ?i) = uint ?i" by (rule signed_take_bit_int_eq_self)
    then show ?thesis by (simp add: sint_uint)
  qed
  have pos: "0 < uint ?i" if "?i \<noteq> 0" using that by (simp add: word_neq_0_conv word_less_def)
  have ref: "alignment_controller_get_reference_counts (Some c1) (Some x) (Some y)
      = (True, Some (fst (stage_reference (ak_status c1))),
        Some (snd (stage_reference (ak_status c1))))"
    using ok by (simp add: controller_ok_def prod_eq_iff)
  show ?thesis
  proof (cases "state_is_active (ks_state (ak_status c1))")
    case True
    then have cur: "?i \<le> 32767" "?i \<noteq> 0" using ok by (simp_all add: controller_ok_def)
    from i [OF cur(1)] pos [OF cur(2)] show ?thesis
      using True ok unfolding ref
      by (intro exI conjI refl) (auto simp: stage_reference_def controller_ok_def
        state_is_active_def)
  next
    case False
    then show ?thesis
      unfolding ref by (intro exI conjI refl) (auto simp: stage_reference_def state_is_active_def)
  qed
qed

text \<open>
  C31. Only a completed, closed, in-time run calibrates. An update changes the alignment object only
  if it reports completion; then the run was at its return stop, within the maximum duration, the
  position recorded for the return is the mean of at least the minimum number of samples and lies
  within the permitted closure error of the position recorded at the first stop, and the new
  calibration is exactly the one of the two recorded stops. Any other update leaves the alignment
  object as it was.
\<close>

theorem alignment_calibrates_only_closed_run:
  assumes "alignment_controller_init (Some c) k = (True, Some c0)"
    and "foldl call_alignment (c0, al0) es = (c1, al1)"
    and "alignment_controller_update (Some c1) al1 now v raw a b act = Some ((e, Some c2), al2)"
  shows "(if e = ALIGNMENT_CONTROLLER_EVENT_COMPLETED
          then completed_run c1 c2 now al1 al2 \<and> ks_state (ak_status c2) =
            ALIGNMENT_CONTROLLER_STATE_COMPLETE
          else al2 = al1)"
  using update_result [OF reached_controller_ok [OF assms(1,2)], of al1 now v raw a b act] assms(3)
    update_active_outcome [of c1 al1 now v raw a b act e c2 al2] reached_controller_ok [OF
      assms(1,2)]
  by (auto split: if_splits)

text \<open>
  C32. The procedure ends. Every update returns, its averaging loops included; and an update of an
  active procedure later than the maximum duration after the start ends it: state FAILED, result
  DEADLINE, no current.
\<close>

theorem alignment_ends:
  assumes "alignment_controller_init (Some c) k = (True, Some c0)"
    and "foldl call_alignment (c0, al0) es = (c1, al1)"
  shows "\<exists>e c2 al2. alignment_controller_update (Some c1) al1 now v raw a b act = Some ((e,
    Some c2), al2) \<and>
     (alignment_controller_is_active (Some c1) \<and> ma_initialized al1 \<and>
      kc_maximum_duration_millis (ak_config c1) < now - ak_operation_start_millis c1 \<longrightarrow>
      ks_state (ak_status c2) = ALIGNMENT_CONTROLLER_STATE_FAILED \<and>
      ks_result (ak_status c2) = ALIGNMENT_CONTROLLER_RESULT_DEADLINE \<and>
      \<not> alignment_controller_is_active (Some c2) \<and>
      ak_current_a_reference_counts c2 = 0 \<and> ak_current_b_reference_counts c2 = 0)"
proof -
  have ok: "controller_ok c1" by (rule reached_controller_ok [OF assms])
  obtain e c2 al2 where u: "alignment_controller_update (Some c1) al1 now v raw a b act = Some ((e,
    Some c2), al2)"
    "if state_is_active (ks_state (ak_status c1)) \<and> ma_initialized al1
     then update_active c1 al1 now v raw a b act = Some ((e, c2), al2) else c2 = c1"
    using update_result [OF ok] by metis
  have "ks_state (ak_status c2) = ALIGNMENT_CONTROLLER_STATE_FAILED \<Longrightarrow> controller_ok c2 \<Longrightarrow>
      \<not> alignment_controller_is_active (Some c2) \<and> ak_current_a_reference_counts c2 = 0 \<and>
      ak_current_b_reference_counts c2 = 0"
    by (simp add: controller_unfold)
  then show ?thesis
    using u update_active_outcome [OF _ ok, of al1 now v raw a b act e c2 al2]
    by (intro exI [of _ e] exI [of _ c2] exI [of _ al2])
      (simp del: alignment_controller_update.simps split: if_split_asm)
qed

section \<open>A concrete run\<close>

definition bench_controller_config :: alignment_controller_config where
  "bench_controller_config = \<lparr>kc_settle_duration_millis = 10, kc_sample_duration_millis = 10,
     kc_maximum_duration_millis = 100, kc_minimum_sample_count = 2, kc_maximum_sample_span_counts =
       4,
     kc_maximum_closure_error_counts = 3, kc_maximum_current_error_counts = 5\<rparr>"

definition bench_controller :: alignment_controller where
  "bench_controller = \<lparr>ak_config = bench_controller_config, ak_status = empty_controller_status,
     ak_sampler = sampler_reset, ak_alignment_set = False, ak_operation_start_millis = 0,
     ak_stage_start_millis = 0, ak_current_a_reference_counts = 0, ak_current_b_reference_counts =
       0,
     ak_initialized = True\<rparr>"

definition started_controller :: alignment_controller where
  "started_controller = set_reference (bench_controller\<lparr>ak_status := empty_controller_status\<lparr>
       ks_state := ALIGNMENT_CONTROLLER_STATE_PHASE_ZERO_SETTLE, ks_alignment_current_counts :=
         300\<rparr>,
     ak_alignment_set := True, ak_operation_start_millis := 5, ak_stage_start_millis := 5\<rparr>) 300 0"

lemma bench_start:
  "alignment_controller_init (Some bench_controller) (Some bench_controller_config) = (True,
    Some bench_controller)"
  "foldl call_alignment (bench_controller, bench_alignment) [Align_Start 300 5] =
    (started_controller, bench_alignment)"
  "alignment_controller_is_active (Some started_controller)"
  by (simp_all add: bench_controller_def bench_controller_config_def started_controller_def
    bench_alignment_def
      set_reference_def state_is_active_def empty_controller_status_def)

theorem alignment_current_only_when_active_witness:
  "\<exists>a b. alignment_controller_get_reference_counts (Some started_controller) (Some 0) (Some 0)
       = (True, Some a, Some b) \<and> sint a + sint b = 300"
proof -
  have "uint (ks_alignment_current_counts (ak_status started_controller)) = 300"
    by (simp add: started_controller_def set_reference_def)
  then show ?thesis
    using alignment_current_only_when_active [OF bench_start(1,2), of 0 0] bench_start(3)
    by (simp del: alignment_controller_get_reference_counts.simps
      alignment_controller_is_active.simps) blast
qed

text \<open>The three stops of a motor that follows: zero at 80, a quarter cycle later at 161,
  back at 80.\<close>

definition calibration_run :: "alignment_call list" where
  "calibration_run = [Align_Start 300 5,
     Align_Update 15 True 80 300 0 True, Align_Update 20 True 80 300 0 True,
       Align_Update 25 True 80 300 0 True,
     Align_Update 35 True 161 0 300 True, Align_Update 40 True 161 0 300 True,
       Align_Update 45 True 161 0 300 True,
     Align_Update 55 True 80 300 0 True, Align_Update 60 True 80 300 0 True]"

declare raise_mean.simps [code] lower_mean.simps [code]

lemma calibration_run_completes:
  "map_option (fst \<circ> fst) (alignment_controller_update
       (Some (fst (foldl call_alignment (bench_controller, bench_alignment) calibration_run)))
       (snd (foldl call_alignment (bench_controller, bench_alignment) calibration_run))
         65 True 80 300 0 True)
     = Some ALIGNMENT_CONTROLLER_EVENT_COMPLETED"
  by code_simp

theorem alignment_calibrates_only_closed_run_witness:
  "\<exists>c1 al1 c2 al2. foldl call_alignment (bench_controller, bench_alignment) calibration_run = (c1,
    al1) \<and>
     alignment_controller_update (Some c1) al1 65 True 80 300 0 True
       = Some ((ALIGNMENT_CONTROLLER_EVENT_COMPLETED, Some c2), al2) \<and>
     completed_run c1 c2 65 al1 al2 \<and> ks_state (ak_status c2) = ALIGNMENT_CONTROLLER_STATE_COMPLETE"
proof -
  obtain c1 al1 where run: "foldl call_alignment (bench_controller, bench_alignment)
    calibration_run = (c1, al1)"
    by fastforce
  obtain e c2 al2 where u: "alignment_controller_update (Some c1) al1 65 True 80 300 0 True
      = Some ((e, Some c2), al2)"
    using update_result [OF reached_controller_ok [OF bench_start(1) run]] by metis
  moreover have "e = ALIGNMENT_CONTROLLER_EVENT_COMPLETED"
    using calibration_run_completes u by (simp add: run del: alignment_controller_update.simps)
  ultimately show ?thesis
    using run alignment_calibrates_only_closed_run [OF bench_start(1) run u] by auto
qed

theorem alignment_ends_witness:
  "\<exists>e c2 al2. alignment_controller_update (Some started_controller)
    bench_alignment 200 True 80 300 0 True
       = Some ((e, Some c2), al2) \<and>
     ks_result (ak_status c2) = ALIGNMENT_CONTROLLER_RESULT_DEADLINE"
proof -
  have "ma_initialized bench_alignment"
    "kc_maximum_duration_millis (ak_config started_controller)
      < 200 - ak_operation_start_millis started_controller"
    by (simp_all add: bench_alignment_def started_controller_def bench_controller_def
      bench_controller_config_def
        set_reference_def)
  with alignment_ends [OF bench_start(1,2), of 200 True 80 300 0 True] bench_start(3)
    show ?thesis by blast
qed

end
