(* ===== verification/Aligned_Torque.thy ===== *)
theory Aligned_Torque
  imports Phase_Reference
begin

text \<open>
  The aligned torque controller, \<open>firmware/src/control/aligned_torque_controller.c\<close>: a q-axis
  current request is approached at a limited slew rate, for a limited time, as long as the encoder
  phase, the speed and the acceleration are acceptable, and turned into two phase references. The
  lemmas show that the current never exceeds the configured maximum nor its slew rate, that it is
  zero whenever the controller is not active, and that it reaches the requested value.
\<close>

section \<open>Data\<close>

datatype aligned_torque_state = ALIGNED_TORQUE_STATE_IDLE | ALIGNED_TORQUE_STATE_RAMPING
  | ALIGNED_TORQUE_STATE_HOLDING | ALIGNED_TORQUE_STATE_COMPLETE | ALIGNED_TORQUE_STATE_STOPPED
  | ALIGNED_TORQUE_STATE_FAILED

datatype aligned_torque_result = ALIGNED_TORQUE_RESULT_NONE | ALIGNED_TORQUE_RESULT_DEADLINE
  | ALIGNED_TORQUE_RESULT_STOPPED | ALIGNED_TORQUE_RESULT_PHASE_INVALID
  | ALIGNED_TORQUE_RESULT_FEEDBACK_TIMING | ALIGNED_TORQUE_RESULT_OVERSPEED
  | ALIGNED_TORQUE_RESULT_OVERACCELERATION | ALIGNED_TORQUE_RESULT_BACKEND_INACTIVE
  | ALIGNED_TORQUE_RESULT_REFERENCE_REJECTED

datatype aligned_torque_event = ALIGNED_TORQUE_EVENT_NONE | ALIGNED_TORQUE_EVENT_REFERENCE_CHANGED
  | ALIGNED_TORQUE_EVENT_COMPLETED | ALIGNED_TORQUE_EVENT_FAILED

definition ALIGNED_TORQUE_FAULT_PHASE_INVALID :: u32 where "ALIGNED_TORQUE_FAULT_PHASE_INVALID = 1"
definition ALIGNED_TORQUE_FAULT_FEEDBACK_TIMING :: u32 where "ALIGNED_TORQUE_FAULT_FEEDBACK_TIMING =
  2"
definition ALIGNED_TORQUE_FAULT_OVERSPEED :: u32 where "ALIGNED_TORQUE_FAULT_OVERSPEED = 4"
definition ALIGNED_TORQUE_FAULT_OVERACCELERATION :: u32 where "ALIGNED_TORQUE_FAULT_OVERACCELERATION
  = 8"
definition ALIGNED_TORQUE_FAULT_BACKEND_INACTIVE :: u32 where "ALIGNED_TORQUE_FAULT_BACKEND_INACTIVE
  = 16"
definition ALIGNED_TORQUE_FAULT_REFERENCE_REJECTED :: u32 where
  "ALIGNED_TORQUE_FAULT_REFERENCE_REJECTED = 32"

record aligned_torque_config =
  tc_maximum_current_counts :: u16
  tc_maximum_current_slew_counts_per_second :: u16
  tc_maximum_velocity_revolutions_per_second_q16_16 :: i32
  tc_maximum_acceleration_revolutions_per_second2_q16_16 :: i32
  tc_maximum_feedback_interval_us :: u16
  tc_minimum_duration_millis :: u32
  tc_maximum_duration_millis :: u32

record aligned_torque_status =
  ts_state :: aligned_torque_state
  ts_result :: aligned_torque_result
  ts_fault_flags :: u32
  ts_requested_q_current_counts :: i16
  ts_applied_q_current_counts :: i16
  ts_current_a_reference_counts :: i16
  ts_current_b_reference_counts :: i16
  ts_electrical_phase_q32 :: u32
  ts_velocity_revolutions_per_second_q16_16 :: i32
  ts_acceleration_revolutions_per_second2_q16_16 :: i32
  ts_elapsed_millis :: u32
  ts_phase_valid :: bool
  ts_active :: bool

record aligned_torque_controller =
  tq_config :: aligned_torque_config
  tq_status :: aligned_torque_status
  tq_applied_q_current_q16_16 :: i32
  tq_start_millis :: u32
  tq_deadline_millis :: u32
  tq_last_encoder_timestamp_us :: u32
  tq_last_velocity_revolutions_per_second_q16_16 :: i32
  tq_initialized :: bool

definition empty_torque_status :: aligned_torque_status where
  "empty_torque_status = \<lparr>ts_state = ALIGNED_TORQUE_STATE_IDLE, ts_result =
    ALIGNED_TORQUE_RESULT_NONE,
     ts_fault_flags = 0, ts_requested_q_current_counts = 0, ts_applied_q_current_counts = 0,
     ts_current_a_reference_counts = 0, ts_current_b_reference_counts = 0, ts_electrical_phase_q32 =
       0,
     ts_velocity_revolutions_per_second_q16_16 = 0, ts_acceleration_revolutions_per_second2_q16_16 =
       0,
     ts_elapsed_millis = 0, ts_phase_valid = False, ts_active = False\<rparr>"

section \<open>Operations\<close>

definition magnitude_i32 :: "int \<Rightarrow> int" where
  "magnitude_i32 value = (if value < 0 then - value else value)"

definition magnitude_i64 :: "int \<Rightarrow> int" where
  "magnitude_i64 value = (if value < 0 then - (value + 1) + 1 else value)"

definition q16_16_to_i16 :: "i32 \<Rightarrow> i16" where
  "q16_16_to_i16 value =
     (if 0 \<le> sint value then word_of_int ((sint value + 32768) div 65536)
      else word_of_int (- ((- sint value + 32768) div 65536)))"

definition clear_applied_reference :: "aligned_torque_controller \<Rightarrow> aligned_torque_controller" where
  "clear_applied_reference controller = controller\<lparr>tq_applied_q_current_q16_16 := 0,
     tq_status := (tq_status controller)\<lparr>ts_applied_q_current_counts := 0,
       ts_current_a_reference_counts := 0, ts_current_b_reference_counts := 0, ts_active := False\<rparr>\<rparr>"

definition fail_controller ::
  "aligned_torque_controller \<Rightarrow> aligned_torque_result \<Rightarrow> u32 \<Rightarrow> u32 \<Rightarrow>
     aligned_torque_event \<times> aligned_torque_controller" where
  "fail_controller controller result fault now_millis =
     (ALIGNED_TORQUE_EVENT_FAILED, clear_applied_reference
       (controller\<lparr>tq_status := (tq_status controller)\<lparr>ts_state := ALIGNED_TORQUE_STATE_FAILED,
          ts_result := result, ts_fault_flags := ts_fault_flags (tq_status controller) OR fault,
          ts_elapsed_millis := now_millis - tq_start_millis controller\<rparr>\<rparr>))"

fun aligned_torque_config_is_valid :: "aligned_torque_config ptr \<Rightarrow> bool" where
  "aligned_torque_config_is_valid None = False"
| "aligned_torque_config_is_valid (Some config) =
     (0 < tc_maximum_current_counts config \<and> tc_maximum_current_counts config \<le> 32767 \<and>
      0 < tc_maximum_current_slew_counts_per_second config \<and>
      0 < sint (tc_maximum_velocity_revolutions_per_second_q16_16 config) \<and>
      0 < sint (tc_maximum_acceleration_revolutions_per_second2_q16_16 config) \<and>
      0 < tc_maximum_feedback_interval_us config \<and> 0 < tc_minimum_duration_millis config \<and>
      tc_minimum_duration_millis config \<le> tc_maximum_duration_millis config \<and>
      tc_maximum_duration_millis config \<le> 0x7FFFFFFF)"

fun aligned_torque_controller_init ::
  "aligned_torque_controller ptr \<Rightarrow> aligned_torque_config ptr \<Rightarrow> bool \<times> aligned_torque_controller ptr"
    where
  "aligned_torque_controller_init None config = (False, None)"
| "aligned_torque_controller_init (Some controller) config =
     (if \<not> aligned_torque_config_is_valid config then (False, Some controller)
      else (True, Some \<lparr>tq_config = the config, tq_status = empty_torque_status,
              tq_applied_q_current_q16_16 = 0, tq_start_millis = 0, tq_deadline_millis = 0,
              tq_last_encoder_timestamp_us = 0, tq_last_velocity_revolutions_per_second_q16_16 = 0,
              tq_initialized = True\<rparr>))"

fun start_controller ::
  "aligned_torque_controller ptr \<Rightarrow> i16 \<Rightarrow> u32 \<Rightarrow> u32 \<Rightarrow> u32 \<Rightarrow> i32 \<Rightarrow>
     bool \<times> aligned_torque_controller ptr" where
  "start_controller None requested duration_millis now_millis encoder_timestamp_us velocity =
    (False, None)"
| "start_controller (Some controller) requested duration_millis now_millis encoder_timestamp_us
  velocity =
     (if \<not> tq_initialized controller \<or> ts_active (tq_status controller) \<or>
         uint (tc_maximum_current_counts (tq_config controller)) < magnitude_i32 (sint requested) \<or>
         duration_millis < tc_minimum_duration_millis (tq_config controller) \<or>
         tc_maximum_duration_millis (tq_config controller) < duration_millis \<or>
         sint (tc_maximum_velocity_revolutions_per_second_q16_16 (tq_config controller))
           < magnitude_i32 (sint velocity)
      then (False, Some controller)
      else (True, Some (controller\<lparr>tq_status := empty_torque_status\<lparr>ts_state :=
        ALIGNED_TORQUE_STATE_RAMPING,
               ts_requested_q_current_counts := requested,
               ts_velocity_revolutions_per_second_q16_16 := velocity, ts_active := True\<rparr>,
             tq_applied_q_current_q16_16 := 0, tq_start_millis := now_millis,
             tq_deadline_millis := now_millis + duration_millis,
             tq_last_encoder_timestamp_us := encoder_timestamp_us,
             tq_last_velocity_revolutions_per_second_q16_16 := velocity\<rparr>)))"

definition aligned_torque_controller_start ::
  "aligned_torque_controller ptr \<Rightarrow> i16 \<Rightarrow> u32 \<Rightarrow> u32 \<Rightarrow> u32 \<Rightarrow> i32 \<Rightarrow>
     bool \<times> aligned_torque_controller ptr" where
  "aligned_torque_controller_start controller requested duration_millis now_millis
    encoder_timestamp_us velocity =
     (if requested \<noteq> 0
      then start_controller controller requested duration_millis now_millis encoder_timestamp_us
        velocity
      else (False, controller))"

definition aligned_torque_controller_start_tracking ::
  "aligned_torque_controller ptr \<Rightarrow> u32 \<Rightarrow> u32 \<Rightarrow> u32 \<Rightarrow> i32 \<Rightarrow>
     bool \<times> aligned_torque_controller ptr" where
  "aligned_torque_controller_start_tracking controller duration_millis now_millis
    encoder_timestamp_us velocity =
     start_controller controller 0 duration_millis now_millis encoder_timestamp_us velocity"

fun aligned_torque_controller_set_target ::
  "aligned_torque_controller ptr \<Rightarrow> i16 \<Rightarrow> bool \<times> aligned_torque_controller ptr" where
  "aligned_torque_controller_set_target None requested = (False, None)"
| "aligned_torque_controller_set_target (Some controller) requested =
     (if \<not> tq_initialized controller \<or> \<not> ts_active (tq_status controller) \<or>
         uint (tc_maximum_current_counts (tq_config controller)) < magnitude_i32 (sint requested)
      then (False, Some controller)
      else (True, Some (controller\<lparr>tq_status :=
              (tq_status controller)\<lparr>ts_requested_q_current_counts := requested\<rparr>\<rparr>)))"

text \<open>Acceleration between two observations, in \<open>int64_t\<close>, rounded to nearest.\<close>

definition measured_acceleration :: "i32 \<Rightarrow> i32 \<Rightarrow> u32 \<Rightarrow> int" where
  "measured_acceleration velocity last_velocity elapsed_us =
     (let acceleration = (if sint last_velocity \<le> sint velocity then sint velocity - sint
       last_velocity
                          else sint last_velocity - sint velocity) * 1000000
      in (acceleration + uint (elapsed_us div 2)) sdiv uint elapsed_us)"

definition maximum_delta :: "aligned_torque_config \<Rightarrow> u32 \<Rightarrow> int" where
  "maximum_delta config elapsed_us =
     (uint (tc_maximum_current_slew_counts_per_second config) * uint elapsed_us * 65536)
       sdiv 1000000"

text \<open>One step of the current towards the request.\<close>

definition slew_current :: "aligned_torque_controller \<Rightarrow> u32 \<Rightarrow> aligned_torque_controller" where
  "slew_current controller elapsed_us =
     (let target = sint (ts_requested_q_current_counts (tq_status controller)) * 65536;
          applied = tq_applied_q_current_q16_16 controller;
          remaining = target - sint applied;
          delta = maximum_delta (tq_config controller) elapsed_us
      in if magnitude_i64 remaining \<le> delta
         then controller\<lparr>tq_applied_q_current_q16_16 := word_of_int target,
                tq_status := (tq_status controller)\<lparr>ts_state := ALIGNED_TORQUE_STATE_HOLDING\<rparr>\<rparr>
         else if 0 < remaining
         then controller\<lparr>tq_applied_q_current_q16_16 := applied + word_of_int delta\<rparr>
         else controller\<lparr>tq_applied_q_current_q16_16 := applied - word_of_int delta\<rparr>)"

definition publish_reference ::
  "aligned_torque_controller \<Rightarrow> u32 \<Rightarrow> u32 \<Rightarrow> u32 \<Rightarrow> i32 \<Rightarrow>
     aligned_torque_event \<times> aligned_torque_controller" where
  "publish_reference controller now_millis encoder_timestamp_us electrical_phase_q32 velocity =
     (let applied = q16_16_to_i16 (tq_applied_q_current_q16_16 controller);
          status = (tq_status controller)\<lparr>ts_applied_q_current_counts := applied,
            ts_electrical_phase_q32 := electrical_phase_q32, ts_phase_valid := True,
            ts_velocity_revolutions_per_second_q16_16 := velocity\<rparr>
      in case phase_current_reference_from_polar applied (electrical_phase_q32 + 0x40000000)
             (Some (ts_current_a_reference_counts status))
             (Some (ts_current_b_reference_counts status)) of
           (True, Some a, Some b) \<Rightarrow>
             (ALIGNED_TORQUE_EVENT_REFERENCE_CHANGED,
              controller\<lparr>tq_status := status\<lparr>ts_current_a_reference_counts := a,
                  ts_current_b_reference_counts := b\<rparr>,
                tq_last_encoder_timestamp_us := encoder_timestamp_us,
                tq_last_velocity_revolutions_per_second_q16_16 := velocity\<rparr>)
         | _ \<Rightarrow> fail_controller (controller\<lparr>tq_status := status\<rparr>)
                  ALIGNED_TORQUE_RESULT_REFERENCE_REJECTED ALIGNED_TORQUE_FAULT_REFERENCE_REJECTED
                  now_millis)"

definition torque_update_active ::
  "aligned_torque_controller \<Rightarrow> u32 \<Rightarrow> u32 \<Rightarrow> bool \<Rightarrow> u32 \<Rightarrow> i32 \<Rightarrow> bool \<Rightarrow>
     aligned_torque_event \<times> aligned_torque_controller" where
  "torque_update_active controller now_millis encoder_timestamp_us phase_valid electrical_phase_q32
     velocity backend_active =
     (let controller = controller\<lparr>tq_status := (tq_status controller)\<lparr>
            ts_elapsed_millis := now_millis - tq_start_millis controller\<rparr>\<rparr>;
          config = tq_config controller;
          elapsed_us = encoder_timestamp_us - tq_last_encoder_timestamp_us controller
      in if \<not> backend_active
         then fail_controller controller ALIGNED_TORQUE_RESULT_BACKEND_INACTIVE
                ALIGNED_TORQUE_FAULT_BACKEND_INACTIVE now_millis
         else if \<not> phase_valid
         then fail_controller controller ALIGNED_TORQUE_RESULT_PHASE_INVALID
                ALIGNED_TORQUE_FAULT_PHASE_INVALID now_millis
         else if elapsed_us = 0 \<or> ucast (tc_maximum_feedback_interval_us config) < elapsed_us
         then fail_controller controller ALIGNED_TORQUE_RESULT_FEEDBACK_TIMING
                ALIGNED_TORQUE_FAULT_FEEDBACK_TIMING now_millis
         else if sint (tc_maximum_velocity_revolutions_per_second_q16_16 config)
           < magnitude_i32 (sint velocity)
         then fail_controller controller ALIGNED_TORQUE_RESULT_OVERSPEED
                ALIGNED_TORQUE_FAULT_OVERSPEED now_millis
         else
           let acceleration = measured_acceleration velocity
                 (tq_last_velocity_revolutions_per_second_q16_16 controller) elapsed_us;
               controller = controller\<lparr>tq_status := (tq_status controller)\<lparr>
                 ts_acceleration_revolutions_per_second2_q16_16 :=
                   (if 2147483647 < acceleration then 0x7FFFFFFF else word_of_int acceleration)\<rparr>\<rparr>
           in if sint (tc_maximum_acceleration_revolutions_per_second2_q16_16 config) < acceleration
              then fail_controller controller ALIGNED_TORQUE_RESULT_OVERACCELERATION
                     ALIGNED_TORQUE_FAULT_OVERACCELERATION now_millis
              else if 0 \<le> sint (now_millis - tq_deadline_millis controller)
              then (ALIGNED_TORQUE_EVENT_COMPLETED, clear_applied_reference
                     (controller\<lparr>tq_status := (tq_status controller)\<lparr>ts_state :=
                     ALIGNED_TORQUE_STATE_COMPLETE,
                        ts_result := ALIGNED_TORQUE_RESULT_DEADLINE\<rparr>\<rparr>))
              else publish_reference (slew_current controller elapsed_us)
              now_millis encoder_timestamp_us
                     electrical_phase_q32 velocity)"

fun aligned_torque_controller_update ::
  "aligned_torque_controller ptr \<Rightarrow> u32 \<Rightarrow> u32 \<Rightarrow> bool \<Rightarrow> u32 \<Rightarrow> i32 \<Rightarrow> bool \<Rightarrow>
     aligned_torque_event \<times> aligned_torque_controller ptr" where
  "aligned_torque_controller_update None now_millis encoder_timestamp_us phase_valid
     electrical_phase_q32 velocity backend_active = (ALIGNED_TORQUE_EVENT_NONE, None)"
| "aligned_torque_controller_update (Some controller) now_millis encoder_timestamp_us phase_valid
     electrical_phase_q32 velocity backend_active =
     (if \<not> tq_initialized controller \<or> \<not> ts_active (tq_status controller)
      then (ALIGNED_TORQUE_EVENT_NONE, Some controller)
      else case torque_update_active controller now_millis encoder_timestamp_us phase_valid
                  electrical_phase_q32 velocity backend_active of
             (event, controller) \<Rightarrow> (event, Some controller))"

fun aligned_torque_controller_stop ::
  "aligned_torque_controller ptr \<Rightarrow> u32 \<Rightarrow> bool \<times> aligned_torque_controller ptr" where
  "aligned_torque_controller_stop None now_millis = (False, None)"
| "aligned_torque_controller_stop (Some controller) now_millis =
     (if \<not> tq_initialized controller \<or> \<not> ts_active (tq_status controller) then (False,
       Some controller)
      else (True, Some (clear_applied_reference
        (controller\<lparr>tq_status := (tq_status controller)\<lparr>ts_state := ALIGNED_TORQUE_STATE_STOPPED,
           ts_result := ALIGNED_TORQUE_RESULT_STOPPED,
           ts_elapsed_millis := now_millis - tq_start_millis controller\<rparr>\<rparr>))))"

fun aligned_torque_controller_reference_rejected ::
  "aligned_torque_controller ptr \<Rightarrow> u32 \<Rightarrow> bool \<times> aligned_torque_controller ptr" where
  "aligned_torque_controller_reference_rejected None now_millis = (False, None)"
| "aligned_torque_controller_reference_rejected (Some controller) now_millis =
     (if \<not> tq_initialized controller \<or> \<not> ts_active (tq_status controller) then (False,
       Some controller)
      else (True, Some (snd (fail_controller controller ALIGNED_TORQUE_RESULT_REFERENCE_REJECTED
              ALIGNED_TORQUE_FAULT_REFERENCE_REJECTED now_millis))))"

fun aligned_torque_controller_is_active :: "aligned_torque_controller ptr \<Rightarrow> bool" where
  "aligned_torque_controller_is_active None = False"
| "aligned_torque_controller_is_active (Some controller) =
     (tq_initialized controller \<and> ts_active (tq_status controller))"

fun aligned_torque_controller_get_status ::
  "aligned_torque_controller ptr \<Rightarrow> aligned_torque_status ptr \<Rightarrow> aligned_torque_status ptr" where
  "aligned_torque_controller_get_status controller None = None"
| "aligned_torque_controller_get_status (Some controller) (Some status) =
     Some (if tq_initialized controller then tq_status controller else empty_torque_status)"
| "aligned_torque_controller_get_status None (Some status) = Some empty_torque_status"

section \<open>The current stays in range and approaches the request\<close>

lemma sint16_zero: "sint (x :: i16) = 0 \<longleftrightarrow> x = 0"
  using signed_word_eqI [of x 0] by auto

lemma magnitude_abs [simp]: "magnitude_i32 v = \<bar>v\<bar>" "magnitude_i64 v = \<bar>v\<bar>"
  by (simp_all add: magnitude_i32_def magnitude_i64_def)

text \<open>The mathematical slew step: to the target if it is near enough, else by the permitted step.\<close>

definition slewed :: "int \<Rightarrow> int \<Rightarrow> int \<Rightarrow> int" where
  "slewed applied target delta =
     (if \<bar>target - applied\<bar> \<le> delta then target
      else if applied < target then applied + delta else applied - delta)"

lemma slewed_between:
  "\<bar>a\<bar> \<le> m \<Longrightarrow> \<bar>t\<bar> \<le> m \<Longrightarrow> 0 \<le> d \<Longrightarrow> \<bar>slewed a t d\<bar> \<le> m"
  unfolding slewed_def by (auto simp: abs_le_iff abs_if split: if_splits)

lemma slewed_distance:
  "0 \<le> d \<Longrightarrow> \<bar>t - slewed a t d\<bar> = max 0 (\<bar>t - a\<bar> - d)" "0 \<le> d \<Longrightarrow> \<bar>slewed a t d - a\<bar> \<le> d"
  unfolding slewed_def by (auto simp: abs_if split: if_splits)

definition accepted_interval :: "aligned_torque_controller \<Rightarrow> u32 \<Rightarrow> bool" where
  "accepted_interval c elapsed_us \<longleftrightarrow>
     0 < unat elapsed_us \<and> unat elapsed_us \<le> unat (tc_maximum_feedback_interval_us (tq_config c))"

lemma maximum_delta_range:
  assumes "uint elapsed_us \<le> 65535"
  shows "0 \<le> maximum_delta config elapsed_us \<and> maximum_delta config elapsed_us \<le> 281475000"
proof -
  let ?p = "uint (tc_maximum_current_slew_counts_per_second config) * uint elapsed_us * 65536"
  have "?p \<le> 65535 * 65535 * 65536"
    using assms uint16_range [of "tc_maximum_current_slew_counts_per_second config"]
    by (intro mult_right_mono mult_mono) simp_all
  then have "?p div 1000000 \<le> (65535 * 65535 * 65536) div 1000000" by (intro zdiv_mono1) simp_all
  then show ?thesis by (simp add: maximum_delta_def sdiv_nonneg pos_imp_zdiv_nonneg_iff)
qed

lemma slew_current_value:
  fixes c defines "m \<equiv> uint (tc_maximum_current_counts (tq_config c)) * 65536"
  defines "target \<equiv> sint (ts_requested_q_current_counts (tq_status c)) * 65536"
  assumes "tc_maximum_current_counts (tq_config c) \<le> 32767"
    and "\<bar>sint (ts_requested_q_current_counts (tq_status c))\<bar> \<le> uint (tc_maximum_current_counts
      (tq_config c))"
    and "\<bar>sint (tq_applied_q_current_q16_16 c)\<bar> \<le> m" and "uint elapsed_us \<le> 65535"
  shows "sint (tq_applied_q_current_q16_16 (slew_current c elapsed_us)) =
      slewed (sint (tq_applied_q_current_q16_16 c)) target (maximum_delta (tq_config c) elapsed_us)"
    and "\<bar>sint (tq_applied_q_current_q16_16 (slew_current c elapsed_us))\<bar> \<le> m"
proof -
  let ?a = "tq_applied_q_current_q16_16 c" and ?d = "maximum_delta (tq_config c) elapsed_us"
  let ?s = "slewed (sint ?a) target ?d"
  have m: "m \<le> 2147418112" using assms(3) by (simp add: m_def word_le_def)
  have t: "\<bar>target\<bar> \<le> m" using assms(4) by (simp add: target_def m_def abs_mult)
  have d: "0 \<le> ?d" using maximum_delta_range [OF assms(6)] by simp
  have s: "\<bar>?s\<bar> \<le> m" by (rule slewed_between [OF assms(5) t d])
  have "tq_applied_q_current_q16_16 (slew_current c elapsed_us) = word_of_int ?s"
    unfolding slew_current_def slewed_def target_def [symmetric] Let_def
    by (auto simp: wi_hom_add [symmetric] wi_hom_sub [symmetric])
  then show "sint (tq_applied_q_current_q16_16 (slew_current c elapsed_us)) = ?s"
    using s m by (simp only:) (rule sint_of_int32; linarith)
  with s show "\<bar>sint (tq_applied_q_current_q16_16 (slew_current c elapsed_us))\<bar> \<le> m" by simp
qed

lemma slew_current_rest:
  "tq_config (slew_current c e) = tq_config c" "tq_initialized (slew_current c e) =
    tq_initialized c"
  "tq_start_millis (slew_current c e) = tq_start_millis c" "tq_deadline_millis (slew_current c e) =
    tq_deadline_millis c"
  "ts_requested_q_current_counts (tq_status (slew_current c e)) =
    ts_requested_q_current_counts (tq_status c)"
  "ts_active (tq_status (slew_current c e)) = ts_active (tq_status c)"
  "ts_fault_flags (tq_status (slew_current c e)) = ts_fault_flags (tq_status c)"
  "ts_result (tq_status (slew_current c e)) = ts_result (tq_status c)"
  "ts_state (tq_status (slew_current c e)) \<in> {ts_state (tq_status c), ALIGNED_TORQUE_STATE_HOLDING}"
  by (simp_all add: slew_current_def Let_def)

lemma slew_current_holds:
  "\<bar>sint (ts_requested_q_current_counts (tq_status c)) * 65536 - sint (tq_applied_q_current_q16_16
    c)\<bar>
     \<le> maximum_delta (tq_config c) e \<Longrightarrow> ts_state (tq_status (slew_current c e)) =
       ALIGNED_TORQUE_STATE_HOLDING"
  by (simp add: slew_current_def Let_def)

text \<open>Conversion to counts rounds to the nearest count, half away from zero.\<close>

lemma q16_to_counts:
  assumes "\<bar>sint v\<bar> \<le> k * 65536" "0 \<le> k" "k \<le> 32767"
  shows "\<bar>sint (q16_16_to_i16 v)\<bar> \<le> k" "\<bar>sint (q16_16_to_i16 v) * 65536 - sint v\<bar> \<le> 32768"
proof -
  define r where "r = (if 0 \<le> sint v then (sint v + 32768) div 65536 else - ((- sint v + 32768)
    div 65536))"
  have abs_r: "\<bar>r\<bar> = (\<bar>sint v\<bar> + 32768) div 65536" by (simp add: r_def pos_imp_zdiv_nonneg_iff)
  have "(\<bar>sint v\<bar> + 32768) div 65536 < k + 1"
    using assms(1) by (intro int_div_less) simp_all
  then have r: "\<bar>r\<bar> \<le> k" using abs_r by simp
  have "q16_16_to_i16 v = word_of_int r" by (simp add: q16_16_to_i16_def r_def)
  then have s: "sint (q16_16_to_i16 v) = r" using r assms(3) by (simp only:)
    (rule sint_of_int16; linarith)
  then show "\<bar>sint (q16_16_to_i16 v)\<bar> \<le> k" using r by simp
  have "\<bar>r * 65536 - sint v\<bar> \<le> 32768"
    using div_mult_bounds [of 65536 "sint v + 32768"] div_mult_bounds [of 65536 "- sint v + 32768"]
    by (auto simp: r_def)
  then show "\<bar>sint (q16_16_to_i16 v) * 65536 - sint v\<bar> \<le> 32768" using s by simp
qed

section \<open>The invariant\<close>

definition torque_ok :: "aligned_torque_controller \<Rightarrow> bool" where
  "torque_ok c \<longleftrightarrow> (let k = tq_config c; s = tq_status c; m = uint (tc_maximum_current_counts k) in
     tq_initialized c \<and> aligned_torque_config_is_valid (Some k) \<and>
     \<bar>sint (ts_requested_q_current_counts s)\<bar> \<le> m \<and>
     \<bar>sint (tq_applied_q_current_q16_16 c)\<bar> \<le> m * 65536 \<and>
     \<bar>sint (ts_applied_q_current_counts s)\<bar> \<le> m \<and>
     \<bar>sint (ts_current_a_reference_counts s)\<bar> \<le> \<bar>sint (ts_applied_q_current_counts s)\<bar> \<and>
     \<bar>sint (ts_current_b_reference_counts s)\<bar> \<le> \<bar>sint (ts_applied_q_current_counts s)\<bar> \<and>
     (ts_active s \<longleftrightarrow> ts_state s \<in> {ALIGNED_TORQUE_STATE_RAMPING, ALIGNED_TORQUE_STATE_HOLDING}) \<and>
     (\<not> ts_active s \<longrightarrow> tq_applied_q_current_q16_16 c = 0 \<and> ts_applied_q_current_counts s = 0))"

text \<open>What every way of ending leaves behind.\<close>

lemma cleared_ok:
  assumes "torque_ok c" "st \<notin> {ALIGNED_TORQUE_STATE_RAMPING, ALIGNED_TORQUE_STATE_HOLDING}"
    "tq_config c' = tq_config c" "tq_initialized c' = tq_initialized c" "ts_state (tq_status c') =
      st"
    "ts_requested_q_current_counts (tq_status c') = ts_requested_q_current_counts (tq_status c)"
  shows "torque_ok (clear_applied_reference c')"
  using assms by (simp add: torque_ok_def clear_applied_reference_def Let_def del:
    aligned_torque_config_is_valid.simps)

definition torque_ended :: "aligned_torque_controller \<Rightarrow> aligned_torque_state \<Rightarrow>
  aligned_torque_result \<Rightarrow> bool" where
  "torque_ended c st r \<longleftrightarrow> ts_state (tq_status c) = st \<and> ts_result (tq_status c) = r \<and>
     \<not> ts_active (tq_status c) \<and> tq_applied_q_current_q16_16 c = 0 \<and>
     ts_applied_q_current_counts (tq_status c) = 0 \<and> ts_current_a_reference_counts (tq_status c) =
       0 \<and>
     ts_current_b_reference_counts (tq_status c) = 0"

lemma fail_controller_result:
  "fst (fail_controller c r f now) = ALIGNED_TORQUE_EVENT_FAILED"
  "torque_ended (snd (fail_controller c r f now)) ALIGNED_TORQUE_STATE_FAILED r"
  by (simp_all add: fail_controller_def torque_ended_def clear_applied_reference_def)

lemma fail_controller_ok:
  assumes "torque_ok c" "tq_config c' = tq_config c" "tq_initialized c' = tq_initialized c"
    "ts_requested_q_current_counts (tq_status c') = ts_requested_q_current_counts (tq_status c)"
  shows "torque_ok (snd (fail_controller c' r f now))"
  unfolding fail_controller_def snd_conv
  by (rule cleared_ok [OF assms(1)]) (simp_all add: assms)

text \<open>
  What decides an update of an active controller, in the order of the checks: the reason that ends
  it, or none.
\<close>

definition update_verdict ::
  "aligned_torque_controller \<Rightarrow> u32 \<Rightarrow> u32 \<Rightarrow> bool \<Rightarrow> i32 \<Rightarrow> bool \<Rightarrow> aligned_torque_result" where
  "update_verdict c now_millis encoder_timestamp_us phase_valid velocity backend_active =
     (let elapsed_us = encoder_timestamp_us - tq_last_encoder_timestamp_us c in
      if \<not> backend_active then ALIGNED_TORQUE_RESULT_BACKEND_INACTIVE
      else if \<not> phase_valid then ALIGNED_TORQUE_RESULT_PHASE_INVALID
      else if \<not> accepted_interval c elapsed_us then ALIGNED_TORQUE_RESULT_FEEDBACK_TIMING
      else if sint (tc_maximum_velocity_revolutions_per_second_q16_16 (tq_config c))
        < \<bar>sint velocity\<bar>
      then ALIGNED_TORQUE_RESULT_OVERSPEED
      else if sint (tc_maximum_acceleration_revolutions_per_second2_q16_16 (tq_config c))
          < measured_acceleration velocity (tq_last_velocity_revolutions_per_second_q16_16 c)
            elapsed_us
      then ALIGNED_TORQUE_RESULT_OVERACCELERATION
      else if time_reached now_millis (tq_deadline_millis c) then ALIGNED_TORQUE_RESULT_DEADLINE
      else ALIGNED_TORQUE_RESULT_NONE)"

lemma interval_iff:
  "accepted_interval c e \<longleftrightarrow> \<not> (e = 0 \<or> ucast (tc_maximum_feedback_interval_us (tq_config c)) < e)"
  by (auto simp: accepted_interval_def word_less_nat_alt unat_gt_0 not_less)

lemma interval_small: "accepted_interval c e \<Longrightarrow> uint e \<le> 65535"
proof -
  assume "accepted_interval c e"
  then have "unat e \<le> unat (tc_maximum_feedback_interval_us (tq_config c))"
    by (simp add: accepted_interval_def)
  then have "int (unat e) \<le> int (unat (tc_maximum_feedback_interval_us (tq_config c)))"
    by (rule of_nat_mono)
  then show ?thesis using uint16_range [of "tc_maximum_feedback_interval_us (tq_config c)"] by simp
qed

text \<open>A continuing update: the slewed current, published on both phases.\<close>

definition continued :: "aligned_torque_controller \<Rightarrow> aligned_torque_controller \<Rightarrow> u32 \<Rightarrow> u32 \<Rightarrow> i32 \<Rightarrow>
  bool" where
  "continued c c' encoder_timestamp_us phase velocity \<longleftrightarrow> torque_ok c' \<and>
     tq_config c' = tq_config c \<and> tq_deadline_millis c' = tq_deadline_millis c \<and>
     tq_start_millis c' = tq_start_millis c \<and>
     ts_requested_q_current_counts (tq_status c') = ts_requested_q_current_counts (tq_status c) \<and>
     tq_last_encoder_timestamp_us c' = encoder_timestamp_us \<and>
     tq_last_velocity_revolutions_per_second_q16_16 c' = velocity \<and> ts_active (tq_status c') \<and>
     sint (tq_applied_q_current_q16_16 c') = slewed (sint (tq_applied_q_current_q16_16 c))
       (sint (ts_requested_q_current_counts (tq_status c)) * 65536)
       (maximum_delta (tq_config c) (encoder_timestamp_us - tq_last_encoder_timestamp_us c)) \<and>
     \<bar>sint (ts_applied_q_current_counts (tq_status c')) * 65536 - sint (tq_applied_q_current_q16_16
       c')\<bar> \<le> 32768 \<and>
     (\<bar>sint (ts_requested_q_current_counts (tq_status c))
       * 65536 - sint (tq_applied_q_current_q16_16 c)\<bar>
        \<le> maximum_delta (tq_config c) (encoder_timestamp_us - tq_last_encoder_timestamp_us c) \<longrightarrow>
      ts_state (tq_status c') = ALIGNED_TORQUE_STATE_HOLDING) \<and>
     phase_current_reference_from_polar (ts_applied_q_current_counts (tq_status c'))
       (phase + 0x40000000)
       (Some 0) (Some 0) = (True, Some (ts_current_a_reference_counts (tq_status c')),
         Some (ts_current_b_reference_counts (tq_status c')))"

lemma continued_current:
  assumes "continued c c' t phase velocity"
  shows "aligned_torque_controller_is_active (Some c') \<and> sint (tq_applied_q_current_q16_16 c') =
     slewed (sint (tq_applied_q_current_q16_16 c)) (sint (ts_requested_q_current_counts (tq_status
       c)) * 65536)
       (maximum_delta (tq_config c) (t - tq_last_encoder_timestamp_us c))"
  using assms unfolding continued_def torque_ok_def Let_def
    aligned_torque_controller_is_active.simps by blast

lemma publish_slewed:
  assumes "torque_ok c" "ts_active (tq_status c)" "uint e \<le> 65535"
    and "publish_reference (slew_current c e) now t phase velocity = (ev, c')"
    and "e = t - tq_last_encoder_timestamp_us c"
  shows "ev = ALIGNED_TORQUE_EVENT_REFERENCE_CHANGED \<and> continued c c' t phase velocity"
proof -
  let ?m = "uint (tc_maximum_current_counts (tq_config c))"
  have ok: "tc_maximum_current_counts (tq_config c) \<le> 32767" "tq_initialized c"
    "aligned_torque_config_is_valid (Some (tq_config c))"
    "\<bar>sint (ts_requested_q_current_counts (tq_status c))\<bar> \<le> ?m" "\<bar>sint (tq_applied_q_current_q16_16
      c)\<bar> \<le> ?m * 65536"
    "ts_state (tq_status c) \<in> {ALIGNED_TORQUE_STATE_RAMPING, ALIGNED_TORQUE_STATE_HOLDING}"
    using assms(1,2) by (simp_all add: torque_ok_def Let_def)
  have m: "?m \<le> 32767" using ok(1) by (simp add: word_le_def)
  note slew = slew_current_value [OF ok(1,4,5) assms(3)]
  note q = q16_to_counts [OF slew(2) _ m]
  let ?q = "q16_16_to_i16 (tq_applied_q_current_q16_16 (slew_current c e))"
  obtain a b where polar: "phase_current_reference_from_polar ?q (phase + 0x40000000) (Some x)
    (Some y) = (True, Some a, Some b)"
      for x y
    using polar_eq [of ?q "phase + 0x40000000"] by blast
  have ab: "\<bar>sint a\<bar> \<le> \<bar>sint ?q\<bar>" "\<bar>sint b\<bar> \<le> \<bar>sint ?q\<bar>"
    using polar [of 0 0] polar_eq [of ?q "phase + 0x40000000" 0 0] scale_reference_bound(1)
      [OF phase_sine_bound]
    by auto
  have ev: "ev = ALIGNED_TORQUE_EVENT_REFERENCE_CHANGED" and c': "c' = (slew_current c e)\<lparr>
      tq_status := (tq_status (slew_current c e))\<lparr>ts_applied_q_current_counts := ?q,
        ts_electrical_phase_q32 := phase, ts_phase_valid := True,
        ts_velocity_revolutions_per_second_q16_16 := velocity,
        ts_current_a_reference_counts := a, ts_current_b_reference_counts := b\<rparr>,
      tq_last_encoder_timestamp_us := t, tq_last_velocity_revolutions_per_second_q16_16 :=
        velocity\<rparr>"
    using assms(4) by (simp_all add: publish_reference_def Let_def polar
      del: phase_current_reference_from_polar.simps)
  have inv: "torque_ok c'"
    using ok(2-4) slew(2) q(1) ab slew_current_rest(9) [of c e] ok(6) assms(2)
      unfolding c' torque_ok_def Let_def
    by (auto simp: slew_current_rest simp del: aligned_torque_config_is_valid.simps)
  have "sint (tq_applied_q_current_q16_16 c') = slewed (sint (tq_applied_q_current_q16_16 c))
       (sint (ts_requested_q_current_counts (tq_status c)) * 65536)
       (maximum_delta (tq_config c) (t - tq_last_encoder_timestamp_us c))"
    using slew(1) by (simp add: c' assms(5) [symmetric])
  moreover have "\<bar>sint (ts_applied_q_current_counts (tq_status c'))
    * 65536 - sint (tq_applied_q_current_q16_16 c')\<bar> \<le> 32768"
    using q(2) by (simp add: c')
  ultimately show ?thesis
    using ev inv polar [of 0 0] assms(2,5) slew_current_holds [of c e] unfolding continued_def
    by (simp add: c' slew_current_rest del: phase_current_reference_from_polar.simps)
qed

text \<open>An update of an active controller either continues or ends with no current.\<close>

lemma torque_update_cases:
  assumes "torque_ok c" "ts_active (tq_status c)"
    and "torque_update_active c now t valid phase velocity backend = (ev, c')"
  defines "v \<equiv> update_verdict c now t valid velocity backend"
  shows "if v = ALIGNED_TORQUE_RESULT_NONE
     then ev = ALIGNED_TORQUE_EVENT_REFERENCE_CHANGED \<and> continued c c' t phase velocity
     else torque_ok c' \<and> tq_config c' = tq_config c \<and>
       (if v = ALIGNED_TORQUE_RESULT_DEADLINE
        then ev = ALIGNED_TORQUE_EVENT_COMPLETED \<and> torque_ended c' ALIGNED_TORQUE_STATE_COMPLETE v
        else ev = ALIGNED_TORQUE_EVENT_FAILED \<and> torque_ended c' ALIGNED_TORQUE_STATE_FAILED v)"
proof -
  let ?e = "t - tq_last_encoder_timestamp_us c"
  let ?a = "measured_acceleration velocity (tq_last_velocity_revolutions_per_second_q16_16 c) ?e"
  define c1 where "c1 = c\<lparr>tq_status := (tq_status c)\<lparr>ts_elapsed_millis := now - tq_start_millis c\<rparr>\<rparr>"
  define c2 where "c2 = c1\<lparr>tq_status :=
    (tq_status c1)\<lparr>ts_acceleration_revolutions_per_second2_q16_16 :=
      (if 2147483647 < ?a then 0x7FFFFFFF else word_of_int ?a)\<rparr>\<rparr>"
  have same: "torque_ok c1" "torque_ok c2" "ts_active (tq_status c2)" "tq_config c1 =
    tq_config c" "tq_config c2 = tq_config c"
    "tq_deadline_millis c2 = tq_deadline_millis c" "tq_last_encoder_timestamp_us c2 =
      tq_last_encoder_timestamp_us c"
    using assms(1,2) by (simp_all add: c1_def c2_def torque_ok_def Let_def del:
      aligned_torque_config_is_valid.simps)
  have cont: "continued c2 k t phase velocity = continued c k t phase velocity" for k
    by (simp add: continued_def c2_def c1_def)
  have failing: "torque_ok (snd (fail_controller k r f now)) \<and>
    tq_config (snd (fail_controller k r f now)) = tq_config c"
    if "k = c1 \<or> k = c2" for k r f
    using that fail_controller_ok [of k k] same by (auto simp: fail_controller_def
      clear_applied_reference_def)
  define c3 where "c3 = clear_applied_reference
     (c2\<lparr>tq_status := (tq_status c2)\<lparr>ts_state := ALIGNED_TORQUE_STATE_COMPLETE,
        ts_result := ALIGNED_TORQUE_RESULT_DEADLINE\<rparr>\<rparr>)"
  have c3: "torque_ok c3" "torque_ended c3 ALIGNED_TORQUE_STATE_COMPLETE
    ALIGNED_TORQUE_RESULT_DEADLINE" "tq_config c3 = tq_config c"
    unfolding c3_def by (rule cleared_ok [OF same(2)]) (simp_all add: clear_applied_reference_def
      torque_ended_def same)
  have update: "(ev, c') =
     (if \<not> backend then fail_controller c1 v ALIGNED_TORQUE_FAULT_BACKEND_INACTIVE now
      else if \<not> valid then fail_controller c1 v ALIGNED_TORQUE_FAULT_PHASE_INVALID now
      else if \<not> accepted_interval c ?e then fail_controller c1 v
        ALIGNED_TORQUE_FAULT_FEEDBACK_TIMING now
      else if sint (tc_maximum_velocity_revolutions_per_second_q16_16 (tq_config c))
        < \<bar>sint velocity\<bar>
      then fail_controller c1 v ALIGNED_TORQUE_FAULT_OVERSPEED now
      else if sint (tc_maximum_acceleration_revolutions_per_second2_q16_16 (tq_config c)) < ?a
      then fail_controller c2 v ALIGNED_TORQUE_FAULT_OVERACCELERATION now
      else if time_reached now (tq_deadline_millis c) then (ALIGNED_TORQUE_EVENT_COMPLETED, c3)
      else publish_reference (slew_current c2 ?e) now t phase velocity)"
    unfolding assms(3) [symmetric] torque_update_active_def v_def update_verdict_def interval_iff
      Let_def time_reached_def c1_def [symmetric]
    by (simp add: c3_def c2_def c1_def)
  define fast where "fast \<longleftrightarrow> sint (tc_maximum_velocity_revolutions_per_second_q16_16 (tq_config c))
    < \<bar>sint velocity\<bar>"
  define jerk where "jerk \<longleftrightarrow> sint (tc_maximum_acceleration_revolutions_per_second2_q16_16 (tq_config
    c)) < ?a"
  have verdict: "v = (if \<not> backend then ALIGNED_TORQUE_RESULT_BACKEND_INACTIVE
      else if \<not> valid then ALIGNED_TORQUE_RESULT_PHASE_INVALID
      else if \<not> accepted_interval c ?e then ALIGNED_TORQUE_RESULT_FEEDBACK_TIMING
      else if fast then ALIGNED_TORQUE_RESULT_OVERSPEED else if jerk then
        ALIGNED_TORQUE_RESULT_OVERACCELERATION
      else if time_reached now (tq_deadline_millis c) then ALIGNED_TORQUE_RESULT_DEADLINE
      else ALIGNED_TORQUE_RESULT_NONE)"
    by (simp add: v_def update_verdict_def fast_def jerk_def)
  note chain = update [folded fast_def jerk_def]
  let ?go = "backend \<and> valid \<and> accepted_interval c ?e \<and> \<not> fast \<and> \<not> jerk"
  have none_iff: "v = ALIGNED_TORQUE_RESULT_NONE \<longleftrightarrow> ?go \<and> \<not> time_reached now (tq_deadline_millis c)"
    by (subst verdict) simp
  have deadline_iff: "v = ALIGNED_TORQUE_RESULT_DEADLINE \<longleftrightarrow> ?go \<and>
    time_reached now (tq_deadline_millis c)"
    by (subst verdict) simp
  consider (none) "v = ALIGNED_TORQUE_RESULT_NONE" | (deadline) "v = ALIGNED_TORQUE_RESULT_DEADLINE"
    | (failed) "v \<noteq> ALIGNED_TORQUE_RESULT_NONE" "v \<noteq> ALIGNED_TORQUE_RESULT_DEADLINE" by blast
  then show ?thesis
  proof cases
    case none
    then have conds: "backend" "valid" "accepted_interval c ?e" "\<not> fast" "\<not> jerk" "\<not> time_reached
      now (tq_deadline_millis c)"
      unfolding none_iff by blast+
    have "publish_reference (slew_current c2 ?e) now t phase velocity = (ev, c')"
      using chain conds by simp
    then have "ev = ALIGNED_TORQUE_EVENT_REFERENCE_CHANGED \<and> continued c2 c' t phase velocity"
      by (rule publish_slewed [OF same(2,3) interval_small [OF conds(3)]]) (simp add: same(7))
    with none cont show ?thesis by simp
  next
    case deadline
    then have conds: "backend" "valid" "accepted_interval c ?e" "\<not> fast" "\<not> jerk" "time_reached now
      (tq_deadline_millis c)"
      unfolding deadline_iff by blast+
    have "(ev, c') = (ALIGNED_TORQUE_EVENT_COMPLETED, c3)" using chain conds by simp
    with c3 deadline show ?thesis by simp
  next
    case failed
    then have "\<not> ?go" unfolding none_iff deadline_iff by blast
    then obtain k f where k: "k = c1 \<or> k = c2" "(ev, c') = fail_controller k v f now"
      using chain by (simp split: if_splits) blast+
    then have "ev = fst (fail_controller k v f now)" "c' = snd (fail_controller k v f now)"
      by (metis fst_conv snd_conv)+
    with failed failing [OF k(1), of v f] fail_controller_result [of k v f now] show ?thesis by simp
  qed
qed

section \<open>Any sequence of calls\<close>

datatype torque_call =
  Torque_Start i16 u32 u32 u32 i32
| Torque_Track u32 u32 u32 i32
| Torque_Target i16
| Torque_Update u32 u32 bool u32 i32 bool
| Torque_Stop u32
| Torque_Rejected u32

fun call_torque :: "aligned_torque_controller \<Rightarrow> torque_call \<Rightarrow> aligned_torque_controller" where
  "call_torque c (Torque_Start i d now t v) = the (snd (aligned_torque_controller_start (Some c)
    i d now t v))"
| "call_torque c (Torque_Track d now t v) = the (snd (aligned_torque_controller_start_tracking (Some
  c) d now t v))"
| "call_torque c (Torque_Target i) = the (snd (aligned_torque_controller_set_target (Some c) i))"
| "call_torque c (Torque_Update now t ok p v act) =
     the (snd (aligned_torque_controller_update (Some c) now t ok p v act))"
| "call_torque c (Torque_Stop now) = the (snd (aligned_torque_controller_stop (Some c) now))"
| "call_torque c (Torque_Rejected now) = the (snd (aligned_torque_controller_reference_rejected
  (Some c) now))"

lemma start_controller_ok:
  assumes "torque_ok c" shows "torque_ok (the (snd (start_controller (Some c) i d now t v)))"
  using assms by (auto simp: torque_ok_def empty_torque_status_def Let_def
    simp del: aligned_torque_config_is_valid.simps)

lemma torque_update_ok:
  assumes "torque_ok c" "ts_active (tq_status c)"
  shows "torque_ok (snd (torque_update_active c now t valid phase velocity backend))"
  using torque_update_cases [OF assms, of now t valid phase velocity backend
      "fst (torque_update_active c now t valid phase velocity backend)"
      "snd (torque_update_active c now t valid phase velocity backend)"]
  by (simp add: continued_def split: if_splits)

lemma call_torque_ok: "torque_ok c \<Longrightarrow> torque_ok (call_torque c e)"
proof (cases e)
  case (Torque_Start i d now t v)
  assume "torque_ok c"
  then show ?thesis using start_controller_ok [of c i d now t v]
    by (simp add: Torque_Start aligned_torque_controller_start_def del: start_controller.simps)
next
  case (Torque_Track d now t v)
  assume "torque_ok c"
  then show ?thesis using start_controller_ok [of c 0 d now t v]
    by (simp add: Torque_Track aligned_torque_controller_start_tracking_def del:
      start_controller.simps)
next
  case (Torque_Target i)
  assume "torque_ok c"
  then show ?thesis
    by (auto simp: Torque_Target torque_ok_def Let_def simp del:
      aligned_torque_config_is_valid.simps)
next
  case (Torque_Update now t valid p v act)
  assume "torque_ok c"
  then show ?thesis using torque_update_ok [of c now t valid p v act]
    by (cases "torque_update_active c now t valid p v act") (simp add: Torque_Update)
next
  case (Torque_Stop now)
  assume ok: "torque_ok c"
  show ?thesis unfolding Torque_Stop
    by (auto simp: ok intro!: cleared_ok [OF ok, of ALIGNED_TORQUE_STATE_STOPPED])
next
  case (Torque_Rejected now)
  assume ok: "torque_ok c"
  show ?thesis unfolding Torque_Rejected
    by (auto simp: ok intro!: fail_controller_ok [OF ok])
qed

interpretation torque_run: invariant_machine call_torque torque_ok
  by unfold_locales (rule call_torque_ok)

lemma init_torque_ok: "aligned_torque_controller_init (Some c) k = (True, Some c0) \<Longrightarrow> torque_ok c0"
  by (cases k) (auto simp: torque_ok_def empty_torque_status_def Let_def
    simp del: aligned_torque_config_is_valid.simps(2) split: if_splits)

lemma reached_torque_ok:
  "aligned_torque_controller_init (Some c) k = (True, Some c0) \<Longrightarrow>
    torque_ok (foldl call_torque c0 es)"
  by (rule torque_run.run_inv [OF init_torque_ok])

text \<open>
  Torque current stays within its limit and is off when the controller is not active. After any
  sequence of calls on an initialised controller, the reported q current is within the configured
  maximum, each phase reference is within the q current, and unless the controller is active all
  of them are zero.
\<close>

theorem torque_current_bounded:
  assumes "aligned_torque_controller_init (Some c) k = (True, Some c0)"
    and "foldl call_torque c0 es = c1"
  shows "\<exists>s. aligned_torque_controller_get_status (Some c1) (Some s0) = Some s \<and>
     \<bar>sint (ts_applied_q_current_counts s)\<bar> \<le> uint (tc_maximum_current_counts (tq_config c1)) \<and>
     \<bar>sint (ts_current_a_reference_counts s)\<bar> \<le> \<bar>sint (ts_applied_q_current_counts s)\<bar> \<and>
     \<bar>sint (ts_current_b_reference_counts s)\<bar> \<le> \<bar>sint (ts_applied_q_current_counts s)\<bar> \<and>
     (\<not> aligned_torque_controller_is_active (Some c1) \<longrightarrow> ts_applied_q_current_counts s = 0 \<and>
        ts_current_a_reference_counts s = 0 \<and> ts_current_b_reference_counts s = 0)"
proof -
  have ok: "torque_ok c1" using reached_torque_ok [OF assms(1), of es] assms(2) by simp
  then have zero: "ts_applied_q_current_counts (tq_status c1) = 0 \<Longrightarrow>
      ts_current_a_reference_counts (tq_status c1) = 0 \<and> ts_current_b_reference_counts (tq_status
        c1) = 0"
    by (simp add: torque_ok_def Let_def sint16_zero)
  with ok show ?thesis by (auto simp: torque_ok_def Let_def)
qed

text \<open>
  C34. Every update is decided by the documented checks, in their order. On an active controller an
  update continues exactly if the backend is active, the phase is valid, the encoder interval, the
  speed and the acceleration are within their limits and the deadline is not reached; then the
  current moves towards the request by at most the slew rate times the interval, without passing
  it. Otherwise the controller ends with all currents zero and reports the first check that failed
  (a reached deadline is a completion, everything else a failure). On an inactive controller an
  update does nothing.
\<close>

theorem torque_update_decided:
  assumes "aligned_torque_controller_init (Some c) k = (True, Some c0)"
    and "foldl call_torque c0 es = c1"
    and "update_verdict c1 now t valid velocity backend = r"
    and "maximum_delta (tq_config c1) (t - tq_last_encoder_timestamp_us c1) = d"
    and "sint (ts_requested_q_current_counts (tq_status c1)) * 65536 = target"
  shows "\<exists>ev c2. aligned_torque_controller_update (Some c1) now t valid phase velocity backend =
    (ev, Some c2) \<and>
     (if \<not> aligned_torque_controller_is_active (Some c1) then ev = ALIGNED_TORQUE_EVENT_NONE \<and> c2 =
       c1
      else if r = ALIGNED_TORQUE_RESULT_NONE
      then ev = ALIGNED_TORQUE_EVENT_REFERENCE_CHANGED \<and> aligned_torque_controller_is_active (Some
        c2) \<and>
        \<bar>sint (tq_applied_q_current_q16_16 c2) - sint (tq_applied_q_current_q16_16 c1)\<bar> \<le> d \<and>
        \<bar>target - sint (tq_applied_q_current_q16_16 c2)\<bar>
          = max 0 (\<bar>target - sint (tq_applied_q_current_q16_16 c1)\<bar> - d)
      else if r = ALIGNED_TORQUE_RESULT_DEADLINE
      then ev = ALIGNED_TORQUE_EVENT_COMPLETED \<and> torque_ended c2 ALIGNED_TORQUE_STATE_COMPLETE r
      else ev = ALIGNED_TORQUE_EVENT_FAILED \<and> torque_ended c2 ALIGNED_TORQUE_STATE_FAILED r)"
proof -
  have ok: "torque_ok c1" using reached_torque_ok [OF assms(1), of es] assms(2) by simp
  then have i: "tq_initialized c1" by (simp add: torque_ok_def Let_def)
  obtain ev c2 where u: "torque_update_active c1 now t valid phase velocity backend = (ev,
    c2)" by fastforce
  show ?thesis
  proof (cases "ts_active (tq_status c1)")
    case True
    have d: "0 \<le> d" if "r = ALIGNED_TORQUE_RESULT_NONE"
    proof -
      have "accepted_interval c1 (t - tq_last_encoder_timestamp_us c1)"
        using that assms(3) by (auto simp: update_verdict_def Let_def split: if_splits)
      from maximum_delta_range [OF interval_small [OF this]] show ?thesis using assms(4) by blast
    qed
    note cont = continued_current [of c1 c2 t phase velocity, unfolded assms(4,5)]
    note outcome = torque_update_cases [OF ok True u, unfolded assms(3)]
    have update: "aligned_torque_controller_update (Some c1) now t valid phase velocity backend =
      (ev, Some c2)"
      "aligned_torque_controller_is_active (Some c1)"
      using True i u by simp_all
    show ?thesis
    proof (cases "r = ALIGNED_TORQUE_RESULT_NONE")
      case True
      with outcome have "ev = ALIGNED_TORQUE_EVENT_REFERENCE_CHANGED" "continued c1 c2 t phase
        velocity" by simp_all
      with True update cont [OF this(2)] slewed_distance(1) [OF d [OF True],
        of target "sint (tq_applied_q_current_q16_16 c1)"]
        slewed_distance(2) [OF d [OF True], of "sint (tq_applied_q_current_q16_16 c1)" target]
      show ?thesis by (intro exI [of _ ev] exI [of _ c2])
        (simp del: aligned_torque_controller_update.simps aligned_torque_controller_is_active.simps)
    next
      case False
      with update outcome show ?thesis
        by (intro exI [of _ ev] exI [of _ c2], cases "r = ALIGNED_TORQUE_RESULT_DEADLINE")
          (simp_all del: aligned_torque_controller_update.simps
            aligned_torque_controller_is_active.simps)
    qed
  next
    case False
    with i show ?thesis by simp
  qed
qed

section \<open>Reaching the request\<close>

text \<open>
  A run of updates (milliseconds, encoder time, phase, speed) that were all accepted, and the change
  of current the slew rate permits over it.
\<close>

fun accepted_updates ::
  "aligned_torque_controller \<Rightarrow> (u32 \<times> u32 \<times> u32 \<times> i32) list \<Rightarrow>
    aligned_torque_controller option" where
  "accepted_updates c [] = Some c"
| "accepted_updates c ((now, t, phase, velocity) # us) =
     (let r = aligned_torque_controller_update (Some c) now t True phase velocity True
      in if fst r = ALIGNED_TORQUE_EVENT_REFERENCE_CHANGED then accepted_updates (the (snd r))
        us else None)"

fun permitted_change :: "aligned_torque_config \<Rightarrow> u32 \<Rightarrow> (u32 \<times> u32 \<times> u32 \<times> i32) list \<Rightarrow> int" where
  "permitted_change k t0 [] = 0"
| "permitted_change k t0 ((now, t, phase, velocity) # us) = maximum_delta k (t - t0)
  + permitted_change k t us"

definition current_gap :: "aligned_torque_controller \<Rightarrow> int" where
  "current_gap c = \<bar>sint (ts_requested_q_current_counts (tq_status c))
    * 65536 - sint (tq_applied_q_current_q16_16 c)\<bar>"

lemma accepted_update_step:
  assumes "torque_ok c"
    and "aligned_torque_controller_update (Some c) now t True phase velocity True
       = (ALIGNED_TORQUE_EVENT_REFERENCE_CHANGED, Some c')"
  shows "continued c c' t phase velocity" "0 \<le> maximum_delta (tq_config c)
    (t - tq_last_encoder_timestamp_us c)"
    "current_gap c' = max 0 (current_gap c - maximum_delta (tq_config c)
      (t - tq_last_encoder_timestamp_us c))"
proof -
  let ?d = "maximum_delta (tq_config c) (t - tq_last_encoder_timestamp_us c)"
  obtain ev k where u: "torque_update_active c now t True phase velocity True = (ev,
    k)" by fastforce
  have act: "ts_active (tq_status c)" and ek: "ev = ALIGNED_TORQUE_EVENT_REFERENCE_CHANGED" "k = c'"
    using assms(2) u by (simp_all split: if_splits)
  have none: "update_verdict c now t True velocity True = ALIGNED_TORQUE_RESULT_NONE"
    using torque_update_cases [OF assms(1) act u] ek by (simp split: if_splits)
  then show cont: "continued c c' t phase velocity"
    using torque_update_cases [OF assms(1) act u] ek by simp
  have "accepted_interval c (t - tq_last_encoder_timestamp_us c)"
    using none by (auto simp: update_verdict_def Let_def split: if_splits)
  from maximum_delta_range [OF interval_small [OF this]] show d: "0 \<le> ?d" by blast
  have req: "ts_requested_q_current_counts (tq_status c') = ts_requested_q_current_counts (tq_status
    c)"
    using cont unfolding continued_def by blast
  show "current_gap c' = max 0 (current_gap c - ?d)"
    using continued_current [OF cont] slewed_distance(1)
      [OF d] unfolding current_gap_def req by simp
qed

lemma update_some: "\<exists>ev c'. aligned_torque_controller_update (Some c) now t ok phase velocity act =
  (ev, Some c')"
  by (cases "torque_update_active c now t ok phase velocity act") simp

lemma accepted_updates_Cons:
  assumes "accepted_updates c ((now, t, phase, velocity) # us) = Some c'"
  obtains c1 where "aligned_torque_controller_update (Some c) now t True phase velocity True
      = (ALIGNED_TORQUE_EVENT_REFERENCE_CHANGED, Some c1)" "accepted_updates c1 us = Some c'"
  using assms update_some [of c now t True phase velocity True]
  by (auto simp: Let_def simp del: aligned_torque_controller_update.simps split: if_splits)

lemma accepted_updates_gap:
  assumes "torque_ok c" "accepted_updates c us = Some c'"
  shows "torque_ok c' \<and> ts_requested_q_current_counts (tq_status c') =
    ts_requested_q_current_counts (tq_status c) \<and>
    0 \<le> permitted_change (tq_config c) (tq_last_encoder_timestamp_us c) us \<and>
    current_gap c' = max 0 (current_gap c - permitted_change (tq_config c)
      (tq_last_encoder_timestamp_us c) us)"
  using assms
proof (induction us arbitrary: c)
  case Nil
  then show ?case by (simp add: current_gap_def)
next
  case (Cons x us)
  obtain now t phase velocity where x: "x = (now, t, phase, velocity)" by (cases x) auto
  obtain c1 where u: "aligned_torque_controller_update (Some c) now t True phase velocity True
      = (ALIGNED_TORQUE_EVENT_REFERENCE_CHANGED, Some c1)" "accepted_updates c1 us = Some c'"
    using Cons.prems(2) unfolding x by (rule accepted_updates_Cons)
  note step = accepted_update_step [OF Cons.prems(1) u(1)]
  have same: "torque_ok c1" "tq_config c1 = tq_config c" "tq_last_encoder_timestamp_us c1 = t"
    "ts_requested_q_current_counts (tq_status c1) = ts_requested_q_current_counts (tq_status c)"
    using step(1) unfolding continued_def by blast+
  show ?case
    using Cons.IH [OF same(1) u(2)] step(2,3) unfolding x by (simp add: same max_def)
qed

lemma accepted_updates_append:
  "accepted_updates c (us @ vs) = Some c' \<Longrightarrow>
     \<exists>cm. accepted_updates c us = Some cm \<and> accepted_updates cm vs = Some c'"
  by (induction us arbitrary: c)
    (auto simp: Let_def simp del: aligned_torque_controller_update.simps split: if_splits)

lemma permitted_change_append:
  assumes "torque_ok c" "accepted_updates c us = Some cm"
  shows "permitted_change (tq_config c) (tq_last_encoder_timestamp_us c) (us @ vs) =
     permitted_change (tq_config c) (tq_last_encoder_timestamp_us c) us
       + permitted_change (tq_config cm) (tq_last_encoder_timestamp_us cm) vs"
  using assms
proof (induction us arbitrary: c)
  case Nil
  then show ?case by simp
next
  case (Cons x us)
  obtain now t phase velocity where x: "x = (now, t, phase, velocity)" by (cases x) auto
  obtain c1 where u: "aligned_torque_controller_update (Some c) now t True phase velocity True
      = (ALIGNED_TORQUE_EVENT_REFERENCE_CHANGED, Some c1)" "accepted_updates c1 us = Some cm"
    using Cons.prems(2) unfolding x by (rule accepted_updates_Cons)
  have same: "torque_ok c1" "tq_config c1 = tq_config c" "tq_last_encoder_timestamp_us c1 = t"
    using accepted_update_step(1) [OF Cons.prems(1) u(1)] unfolding continued_def by blast+
  show ?case using Cons.IH [OF same(1) u(2)] unfolding x by (simp add: same)
qed

text \<open>
  The requested current is reached. Along any run of accepted updates of a controller reached by
  any calls, the distance to the request shrinks by what the slew rate permits; once the permitted
  change covers the initial distance, the applied current is exactly the request and the controller
  reports that it holds.
\<close>

theorem torque_reaches_request:
  assumes "aligned_torque_controller_init (Some c) k = (True, Some c0)"
    and "foldl call_torque c0 es = c1"
    and "accepted_updates c1 us = Some c2" and "us \<noteq> []"
    and "current_gap c1 \<le> permitted_change (tq_config c1) (tq_last_encoder_timestamp_us c1) us"
  shows "ts_applied_q_current_counts (tq_status c2) = ts_requested_q_current_counts (tq_status c1) \<and>
    ts_state (tq_status c2) = ALIGNED_TORQUE_STATE_HOLDING"
proof -
  have ok: "torque_ok c1" using reached_torque_ok [OF assms(1), of es] assms(2) by simp
  obtain vs now t phase velocity where us: "us = vs @ [(now, t, phase, velocity)]"
    using assms(4) by (metis append_butlast_last_id prod_cases4)
  from accepted_updates_append [OF assms(3) [unfolded us]] obtain cm where
    cm: "accepted_updates c1 vs = Some cm" "accepted_updates cm [(now, t, phase, velocity)] =
      Some c2" by blast
  note run = accepted_updates_gap [OF ok cm(1)]
  have last: "aligned_torque_controller_update (Some cm) now t True phase velocity True
      = (ALIGNED_TORQUE_EVENT_REFERENCE_CHANGED, Some c2)"
    using cm(2) by (rule accepted_updates_Cons) simp
  note step = accepted_update_step [OF conjunct1 [OF run] last]
  have near: "current_gap cm \<le> maximum_delta (tq_config cm) (t - tq_last_encoder_timestamp_us cm)"
    using run step(2) assms(5) permitted_change_append [OF ok cm(1)] unfolding us by simp
  have held: "ts_state (tq_status c2) = ALIGNED_TORQUE_STATE_HOLDING"
    "\<bar>sint (ts_applied_q_current_counts (tq_status c2)) * 65536 - sint (tq_applied_q_current_q16_16
      c2)\<bar> \<le> 32768"
    "ts_requested_q_current_counts (tq_status c2) = ts_requested_q_current_counts (tq_status cm)"
    using step(1) near unfolding continued_def current_gap_def by blast+
  have "current_gap c2 = 0" using step(3) near by simp
  then have "\<bar>sint (ts_applied_q_current_counts (tq_status c2)) * 65536
      - sint (ts_requested_q_current_counts (tq_status c1)) * 65536\<bar> \<le> 32768"
    using held(2,3) run by (simp add: current_gap_def)
  then have "sint (ts_applied_q_current_counts (tq_status c2)) =
    sint (ts_requested_q_current_counts (tq_status c1))"
    by linarith
  with held(1) show ?thesis by (simp add: signed_word_eqI)
qed

section \<open>A concrete run\<close>

definition bench_torque_config :: aligned_torque_config where
  "bench_torque_config = \<lparr>tc_maximum_current_counts = 400, tc_maximum_current_slew_counts_per_second
    = 10000,
     tc_maximum_velocity_revolutions_per_second_q16_16 = 655360,
     tc_maximum_acceleration_revolutions_per_second2_q16_16 = 65536000,
       tc_maximum_feedback_interval_us = 1000,
     tc_minimum_duration_millis = 10, tc_maximum_duration_millis = 5000\<rparr>"

definition bench_torque :: aligned_torque_controller where
  "bench_torque = \<lparr>tq_config = bench_torque_config, tq_status = empty_torque_status,
     tq_applied_q_current_q16_16 = 0, tq_start_millis = 0, tq_deadline_millis = 0,
     tq_last_encoder_timestamp_us = 0, tq_last_velocity_revolutions_per_second_q16_16 = 0,
       tq_initialized = True\<rparr>"

lemma bench_torque_init:
  "aligned_torque_controller_init (Some bench_torque) (Some bench_torque_config) = (True,
    Some bench_torque)"
  by (simp add: bench_torque_def bench_torque_config_def)

definition started_torque :: aligned_torque_controller where
  "started_torque = foldl call_torque bench_torque [Torque_Start (- 4) 100 7 4294967290 1000]"

lemma started_torque_run:
  "foldl call_torque bench_torque [Torque_Start (- 4) 100 7 4294967290 1000] = started_torque"
  by (simp only: started_torque_def)

theorem torque_current_bounded_witness:
  "\<exists>s. aligned_torque_controller_get_status (Some (foldl call_torque bench_torque
        [Torque_Start (- 4) 100 7 4294967290 1000, Torque_Update 8 250 True 12345 1200 True,
          Torque_Stop 9]))
        (Some empty_torque_status) = Some s \<and>
     ts_applied_q_current_counts s = 0 \<and> ts_current_a_reference_counts s = 0 \<and>
       ts_current_b_reference_counts s = 0"
proof -
  let ?c = "foldl call_torque bench_torque
    [Torque_Start (- 4) 100 7 4294967290 1000, Torque_Update 8 250 True 12345 1200 True,
      Torque_Stop 9]"
  have "\<not> aligned_torque_controller_is_active (Some ?c)" by code_simp
  then show ?thesis
    using torque_current_bounded [OF bench_torque_init refl, of
      "[Torque_Start (- 4) 100 7 4294967290 1000, Torque_Update 8 250 True 12345 1200 True,
        Torque_Stop 9]"
      empty_torque_status] by blast
qed

theorem torque_update_decided_witness:
  "\<exists>ev c2. aligned_torque_controller_update (Some started_torque) 8 244 True 12345 1200 True = (ev,
    Some c2) \<and>
     ev = ALIGNED_TORQUE_EVENT_REFERENCE_CHANGED \<and>
     \<bar>- 262144 - sint (tq_applied_q_current_q16_16 c2)\<bar> = 98304"
proof -
  have facts: "update_verdict started_torque 8 244 True 1200 True = ALIGNED_TORQUE_RESULT_NONE"
    "maximum_delta (tq_config started_torque) (244 - tq_last_encoder_timestamp_us started_torque) =
      163840"
    "sint (ts_requested_q_current_counts (tq_status started_torque)) * 65536 = - 262144"
    "aligned_torque_controller_is_active (Some started_torque)" "tq_applied_q_current_q16_16
      started_torque = 0"
    by code_simp+
  show ?thesis
    using torque_update_decided [OF bench_torque_init started_torque_run facts(1-3),
      of 12345] facts(4,5) by auto
qed

theorem torque_reaches_request_witness:
  "\<exists>c2. accepted_updates started_torque [(8, 244, 12345, 1200), (8, 494, 23456, 1300)] = Some c2 \<and>
     ts_applied_q_current_counts (tq_status c2) = - 4 \<and> ts_state (tq_status c2) =
       ALIGNED_TORQUE_STATE_HOLDING"
proof -
  let ?us = "[(8, 244, 12345, 1200), (8, 494, 23456, 1300)] :: (u32 \<times> u32 \<times> u32 \<times> i32) list"
  have "\<not> Option.is_none (accepted_updates started_torque ?us)"
    "current_gap started_torque \<le> permitted_change (tq_config started_torque)
      (tq_last_encoder_timestamp_us started_torque) ?us"
    "ts_requested_q_current_counts (tq_status started_torque) = - 4"
    by code_simp+
  moreover from this obtain c2 where "accepted_updates started_torque ?us = Some c2"
    by (metis is_none_code(1) option.exhaust)
  ultimately show ?thesis
    using torque_reaches_request [OF bench_torque_init started_torque_run,
      of ?us c2] by (metis list.distinct(1))
qed

end
