(* ===== verification/Phase_Predictor.thy ===== *)
theory Phase_Predictor
  imports Prelude
begin

text \<open>
  The electrical phase predictor, \<open>firmware/src/control/electrical_phase_predictor.c\<close>: the encoder
  is read a few thousand times a second, the current loop runs several times per reading, and the
  predictor extrapolates the last observed electrical phase with the observed speed. Output
  pointers are options whose content is what the caller's variable holds. The lemmas show that no
  intermediate leaves its C type, and that a prediction is the exact extrapolation of the observed
  phase with a rate rounded to the nearest unit.
\<close>

record electrical_phase_predictor_config =
  pc_electrical_cycles_per_mechanical_revolution :: u16
  pc_output_lead_us :: u16
  pc_maximum_prediction_age_us :: u32
  pc_maximum_mechanical_velocity_q16_16 :: i32

record electrical_phase_predictor =
  pp_config :: electrical_phase_predictor_config
  pp_observed_electrical_phase_q32 :: u32
  pp_observation_timestamp_us :: u32
  pp_electrical_phase_rate_q32_per_us :: i32
  pp_output_lead_phase_delta_q32 :: u32
  pp_observation_valid :: bool
  pp_initialized :: bool

section \<open>Operations\<close>

definition rate_numerator :: "electrical_phase_predictor_config \<Rightarrow> i32 \<Rightarrow> i8 \<Rightarrow> int" where
  "rate_numerator config velocity encoder_direction =
     sint velocity * uint (pc_electrical_cycles_per_mechanical_revolution config) * 65536 *
     sint encoder_direction"

fun phase_rate_from_velocity ::
  "electrical_phase_predictor_config ptr \<Rightarrow> i32 \<Rightarrow> i8 \<Rightarrow> i32 ptr \<Rightarrow> bool \<times> i32 ptr" where
  "phase_rate_from_velocity (Some config) velocity encoder_direction (Some rate) =
     (if encoder_direction \<noteq> 1 \<and> encoder_direction \<noteq> - 1 \<or>
         sint (pc_maximum_mechanical_velocity_q16_16 config) < sint velocity \<or>
         sint velocity < - sint (pc_maximum_mechanical_velocity_q16_16 config)
      then (False, Some rate)
      else
        let numerator = rate_numerator config velocity encoder_direction;
            numerator = numerator + (if 0 \<le> numerator then 500000 else - 500000);
            new_rate = numerator sdiv 1000000
        in if 2147483647 < new_rate \<or> new_rate < - 2147483648 then (False, Some rate)
           else (True, Some (word_of_int new_rate)))"
| "phase_rate_from_velocity config velocity encoder_direction rate = (False, rate)"

fun electrical_phase_predictor_config_is_valid :: "electrical_phase_predictor_config ptr \<Rightarrow>
  bool" where
  "electrical_phase_predictor_config_is_valid None = False"
| "electrical_phase_predictor_config_is_valid (Some config) =
     (pc_electrical_cycles_per_mechanical_revolution config \<noteq> 0 \<and>
      pc_maximum_prediction_age_us config \<noteq> 0 \<and>
      pc_maximum_prediction_age_us config \<le> 0x7FFFFFFF \<and>
      ucast (pc_output_lead_us config) \<le> pc_maximum_prediction_age_us config \<and>
      0 < sint (pc_maximum_mechanical_velocity_q16_16 config) \<and>
      fst (phase_rate_from_velocity (Some config) (pc_maximum_mechanical_velocity_q16_16 config)
        1 (Some 0)))"

fun electrical_phase_predictor_init ::
  "electrical_phase_predictor ptr \<Rightarrow> electrical_phase_predictor_config ptr \<Rightarrow>
     bool \<times> electrical_phase_predictor ptr" where
  "electrical_phase_predictor_init None config = (False, None)"
| "electrical_phase_predictor_init (Some predictor) config =
     (if \<not> electrical_phase_predictor_config_is_valid config then (False, Some predictor)
      else (True, Some \<lparr>pp_config = the config, pp_observed_electrical_phase_q32 = 0,
              pp_observation_timestamp_us = 0, pp_electrical_phase_rate_q32_per_us = 0,
              pp_output_lead_phase_delta_q32 = 0, pp_observation_valid = False,
              pp_initialized = True\<rparr>))"

fun electrical_phase_predictor_set_observation ::
  "electrical_phase_predictor ptr \<Rightarrow> u32 \<Rightarrow> i32 \<Rightarrow> i8 \<Rightarrow> u32 \<Rightarrow>
     bool \<times> electrical_phase_predictor ptr" where
  "electrical_phase_predictor_set_observation None electrical_phase_q32 velocity encoder_direction
     observation_timestamp_us = (False, None)"
| "electrical_phase_predictor_set_observation (Some predictor) electrical_phase_q32 velocity
     encoder_direction observation_timestamp_us =
     (if \<not> pp_initialized predictor then (False, Some predictor)
      else case phase_rate_from_velocity (Some (pp_config predictor))
        velocity encoder_direction (Some 0) of
        (True, Some phase_rate) \<Rightarrow>
          (True, Some (predictor\<lparr>pp_observed_electrical_phase_q32 := electrical_phase_q32,
             pp_observation_timestamp_us := observation_timestamp_us,
             pp_electrical_phase_rate_q32_per_us := phase_rate,
             pp_output_lead_phase_delta_q32 :=
               word_of_int (sint phase_rate * uint (pc_output_lead_us (pp_config predictor))),
             pp_observation_valid := True\<rparr>))
      | _ \<Rightarrow> (False, Some predictor))"

text \<open>
  The result is the return value with the contents of the sample phase, the PWM phase and the age.
  The age is written, if its pointer is not null, before the age is judged.
\<close>

fun electrical_phase_predictor_predict_horizons ::
  "electrical_phase_predictor ptr \<Rightarrow> u32 \<Rightarrow> u32 ptr \<Rightarrow> u32 ptr \<Rightarrow> u32 ptr \<Rightarrow>
     bool \<times> u32 ptr \<times> u32 ptr \<times> u32 ptr" where
  "electrical_phase_predictor_predict_horizons (Some predictor) now_us (Some sample_phase)
     (Some pwm_phase) prediction_age =
     (if \<not> pp_initialized predictor \<or> \<not> pp_observation_valid predictor
      then (False, Some sample_phase, Some pwm_phase, prediction_age)
      else
        let age_us = now_us - pp_observation_timestamp_us predictor;
            prediction_age = map_option (\<lambda>_. age_us) prediction_age
        in if pc_maximum_prediction_age_us (pp_config predictor) < age_us
           then (False, Some sample_phase, Some pwm_phase, prediction_age)
           else
             let sample_phase_delta =
                   sint (pp_electrical_phase_rate_q32_per_us predictor) * uint age_us;
                 sample = pp_observed_electrical_phase_q32 predictor + word_of_int
                 sample_phase_delta
             in (True, Some sample, Some (sample + pp_output_lead_phase_delta_q32 predictor),
                 prediction_age))"
| "electrical_phase_predictor_predict_horizons predictor now_us sample_phase pwm_phase
  prediction_age =
     (False, sample_phase, pwm_phase, prediction_age)"

definition electrical_phase_predictor_predict ::
  "electrical_phase_predictor ptr \<Rightarrow> u32 \<Rightarrow> u32 ptr \<Rightarrow> u32 ptr \<Rightarrow> bool \<times> u32 ptr \<times> u32 ptr" where
  "electrical_phase_predictor_predict predictor now_us electrical_phase_q32 prediction_age_us =
     (case electrical_phase_predictor_predict_horizons predictor now_us (Some 0)
       electrical_phase_q32
             prediction_age_us of
        (ok, _, phase, age) \<Rightarrow> (ok, phase, age))"

fun electrical_phase_predictor_reset :: "electrical_phase_predictor ptr \<Rightarrow>
  electrical_phase_predictor ptr" where
  "electrical_phase_predictor_reset None = None"
| "electrical_phase_predictor_reset (Some predictor) =
     (if \<not> pp_initialized predictor then Some predictor
      else Some (predictor\<lparr>pp_observed_electrical_phase_q32 := 0, pp_observation_timestamp_us := 0,
        pp_electrical_phase_rate_q32_per_us := 0, pp_output_lead_phase_delta_q32 := 0,
        pp_observation_valid := False\<rparr>))"

section \<open>No intermediate overflows\<close>

lemma direction_values: "(d :: i8) = 1 \<or> d = - 1 \<Longrightarrow> \<bar>sint d\<bar> = 1"
  by auto

lemma rate_numerator_range:
  assumes "encoder_direction = 1 \<or> encoder_direction = - 1"
    and "\<bar>sint velocity\<bar> \<le> 2147483647"
  shows "\<bar>rate_numerator config velocity encoder_direction\<bar> + 500000 < 2 ^ 63"
proof -
  let ?c = "uint (pc_electrical_cycles_per_mechanical_revolution config)"
  have "\<bar>rate_numerator config velocity encoder_direction\<bar> = \<bar>sint velocity\<bar> * ?c * 65536"
    using direction_values [OF assms(1)] by (simp add: rate_numerator_def abs_mult)
  also have "\<dots> \<le> 2147483647 * 65535 * 65536"
    using assms(2) uint16_range [of "pc_electrical_cycles_per_mechanical_revolution config"]
    by (intro mult_right_mono mult_mono) simp_all
  finally show ?thesis by simp
qed

text \<open>Rounding half away from zero by adding half the divisor.\<close>

definition rounded_rate :: "int \<Rightarrow> int" where
  "rounded_rate n = (n + (if 0 \<le> n then 500000 else - 500000)) sdiv 1000000"

lemma rounded_rate_near: "\<bar>rounded_rate n * 1000000 - n\<bar> \<le> 500000"
proof (cases "0 \<le> n")
  case True
  then have "rounded_rate n = (n + 500000) div 1000000" by (simp add: rounded_rate_def sdiv_nonneg)
  then show ?thesis using div_mult_bounds [of 1000000 "n + 500000"] by simp
next
  case False
  then have "rounded_rate n = - ((500000 - n) div 1000000)" by (simp add: rounded_rate_def sdiv_neg)
  then show ?thesis using div_mult_bounds [of 1000000 "500000 - n"] by simp
qed

lemma abs_rounded_rate: "\<bar>rounded_rate n\<bar> = (\<bar>n\<bar> + 500000) div 1000000"
  by (simp add: rounded_rate_def abs_sdiv)

lemma abs_rounded_rate_mono: "\<bar>n\<bar> \<le> \<bar>m\<bar> \<Longrightarrow> \<bar>rounded_rate n\<bar> \<le> \<bar>rounded_rate m\<bar>"
  unfolding abs_rounded_rate by (intro zdiv_mono1) simp_all

text \<open>A valid configuration makes every speed up to its maximum representable.\<close>

definition accepted_velocity :: "electrical_phase_predictor_config \<Rightarrow> i32 \<Rightarrow> i8 \<Rightarrow> bool" where
  "accepted_velocity config velocity direction \<longleftrightarrow> (direction = 1 \<or> direction = - 1) \<and>
     \<bar>sint velocity\<bar> \<le> sint (pc_maximum_mechanical_velocity_q16_16 config)"

lemma rate_from_velocity_cases:
  assumes "electrical_phase_predictor_config_is_valid (Some config)"
  shows "phase_rate_from_velocity (Some config) velocity direction (Some r) =
     (if accepted_velocity config velocity direction
      then (True, Some (word_of_int (rounded_rate (rate_numerator config velocity direction))))
      else (False, Some r))"
    and "accepted_velocity config velocity direction \<Longrightarrow>
      \<bar>rounded_rate (rate_numerator config velocity direction)\<bar> \<le> 2147483647"
proof -
  let ?ok = "accepted_velocity config velocity direction"
  let ?max = "pc_maximum_mechanical_velocity_q16_16 config"
  let ?top = "rounded_rate (rate_numerator config ?max 1)"
  have pos: "0 < sint ?max" using assms by simp
  have "0 \<le> rate_numerator config ?max 1" using pos by (simp add: rate_numerator_def)
  then have nonneg: "0 \<le> ?top" by (simp add: rounded_rate_def sdiv_nonneg pos_imp_zdiv_nonneg_iff)
  have top: "?top \<le> 2147483647"
    using assms pos by (simp add: rounded_rate_def Let_def split: if_splits)
  have bound: "\<bar>rounded_rate (rate_numerator config velocity direction)\<bar> \<le> 2147483647" if "?ok"
  proof -
    have "\<bar>sint direction\<bar> = 1" using that by (intro direction_values)
      (simp add: accepted_velocity_def)
    then have "\<bar>rate_numerator config velocity direction\<bar> \<le> \<bar>rate_numerator config ?max 1\<bar>"
      using that pos by (simp add: accepted_velocity_def rate_numerator_def abs_mult
        mult_right_mono)
    from abs_rounded_rate_mono [OF this] show ?thesis using nonneg top by linarith
  qed
  then show "?ok \<Longrightarrow> \<bar>rounded_rate (rate_numerator config velocity direction)\<bar> \<le> 2147483647" .
  show "phase_rate_from_velocity (Some config) velocity direction (Some r) =
     (if ?ok then (True, Some (word_of_int (rounded_rate (rate_numerator config velocity
       direction))))
      else (False, Some r))"
  proof (cases ?ok)
    case True
    with bound [OF True] show ?thesis
      by (auto simp: Let_def rounded_rate_def [symmetric] abs_le_iff accepted_velocity_def)
  next
    case False
    then show ?thesis by (auto simp: abs_le_iff accepted_velocity_def)
  qed
qed

section \<open>Any sequence of observations\<close>

datatype predictor_call = Observe u32 i32 i8 u32 | Forget

fun call_predictor :: "electrical_phase_predictor \<Rightarrow> predictor_call \<Rightarrow>
  electrical_phase_predictor" where
  "call_predictor p (Observe phase velocity direction t) =
     the (snd (electrical_phase_predictor_set_observation (Some p) phase velocity direction t))"
| "call_predictor p Forget = the (electrical_phase_predictor_reset (Some p))"

definition predictor_ok :: "electrical_phase_predictor \<Rightarrow> bool" where
  "predictor_ok p \<longleftrightarrow> pp_initialized p \<and> electrical_phase_predictor_config_is_valid (Some (pp_config
    p))"

lemma predictor_ok_step: "predictor_ok p \<Longrightarrow> predictor_ok (call_predictor p e)"
  by (cases e) (auto simp: predictor_ok_def rate_from_velocity_cases
    simp del: electrical_phase_predictor_config_is_valid.simps phase_rate_from_velocity.simps)

interpretation predictor_run: invariant_machine call_predictor predictor_ok
  by unfold_locales (rule predictor_ok_step)

lemma init_predictor_ok:
  "electrical_phase_predictor_init (Some p) config = (True, Some p0) \<Longrightarrow> predictor_ok p0"
  by (cases config) (auto simp: predictor_ok_def
    simp del: electrical_phase_predictor_config_is_valid.simps(2) split: if_splits)

text \<open>The state an accepted observation leaves.\<close>

definition observed_by :: "electrical_phase_predictor \<Rightarrow> u32 \<Rightarrow> int \<Rightarrow> u32 \<Rightarrow>
  electrical_phase_predictor" where
  "observed_by p phase r t = p\<lparr>pp_observed_electrical_phase_q32 := phase,
    pp_observation_timestamp_us := t,
     pp_electrical_phase_rate_q32_per_us := word_of_int r,
     pp_output_lead_phase_delta_q32 := word_of_int (r * uint (pc_output_lead_us (pp_config p))),
     pp_observation_valid := True\<rparr>"

definition exact_rate_numerator :: "electrical_phase_predictor_config \<Rightarrow> int \<Rightarrow> int" where
  "exact_rate_numerator config signed_velocity =
     signed_velocity * int (unat (pc_electrical_cycles_per_mechanical_revolution config)) * 65536"

lemma observation_cases:
  assumes "predictor_ok p"
  obtains r where
    "\<bar>r * 1000000 - exact_rate_numerator (pp_config p) (sint velocity * sint direction)\<bar> \<le> 500000"
    "electrical_phase_predictor_set_observation (Some p) phase velocity direction t =
       (if accepted_velocity (pp_config p) velocity direction then (True,
         Some (observed_by p phase r t))
        else (False, Some p))"
    "accepted_velocity (pp_config p) velocity direction \<Longrightarrow> \<bar>r\<bar> \<le> 2147483647"
proof
  let ?r = "rounded_rate (rate_numerator (pp_config p) velocity direction)"
  have valid: "electrical_phase_predictor_config_is_valid (Some (pp_config p))" and i:
    "pp_initialized p"
    using assms by (simp_all add: predictor_ok_def del:
      electrical_phase_predictor_config_is_valid.simps)
  note rate = rate_from_velocity_cases [OF valid, of velocity direction]
  show "\<bar>?r * 1000000 - exact_rate_numerator (pp_config p) (sint velocity * sint direction)\<bar> \<le>
    500000"
    using rounded_rate_near [of "rate_numerator (pp_config p) velocity direction"]
    by (simp add: rate_numerator_def exact_rate_numerator_def mult_ac)
  show b: "\<bar>?r\<bar> \<le> 2147483647" if "accepted_velocity (pp_config p) velocity direction"
    using that by (rule rate(2))
  have "sint (word_of_int ?r :: i32) = ?r" if "accepted_velocity (pp_config p) velocity direction"
    using b [OF that] by (intro sint_of_int32) linarith+
  then show "electrical_phase_predictor_set_observation (Some p) phase velocity direction t =
       (if accepted_velocity (pp_config p) velocity direction then (True,
         Some (observed_by p phase ?r t))
        else (False, Some p))"
    using i rate(1) by (simp add: observed_by_def del: phase_rate_from_velocity.simps)
qed

lemma predict_observed:
  assumes "pp_initialized p" "\<bar>r\<bar> \<le> 2147483647"
  shows "electrical_phase_predictor_predict_horizons (Some (observed_by p phase r t)) (t + age)
    (Some x) (Some y) z =
     (if age \<le> pc_maximum_prediction_age_us (pp_config p)
      then (True, Some (word_of_int (uint phase + r * uint age)),
        Some (word_of_int (uint phase + r * (uint age + uint (pc_output_lead_us (pp_config p))))),
        map_option (\<lambda>_. age) z)
      else (False, Some x, Some y, map_option (\<lambda>_. age) z))"
proof -
  have sr: "sint (word_of_int r :: i32) = r" using assms(2) by (intro sint_of_int32) linarith+
  have ph: "word_of_int (uint phase + k) = phase + word_of_int k" for k
    by (simp add: wi_hom_add [symmetric] word_of_int_uint)
  show ?thesis using assms(1) sr
    by (simp add: observed_by_def not_less [symmetric] ph distrib_left wi_hom_add [symmetric]
      add.assoc Let_def)
qed

text \<open>
  C33. The predicted phase is the exact extrapolation of the last observation. After any sequence of
  calls an observation is accepted exactly if the direction is plus or minus one and the speed is
  within the configured maximum. Then there is a rate within half a unit of the exact electrical
  rate (in parts of \<open>2^32\<close> cycle per microsecond) such that, for every age up to the maximum, the
  sample phase is the observed phase plus rate times age, and the PWM phase the same with the output
  lead added to the age, modulo one cycle; the age itself is exact across the wrap of the clock. A
  prediction from an older observation is refused and writes no phase.
\<close>

theorem predicted_phase_exact:
  assumes "electrical_phase_predictor_init (Some p) config = (True, Some p0)"
    and "foldl call_predictor p0 es = p1"
    and "electrical_phase_predictor_set_observation (Some p1) phase velocity direction t = (ok,
      Some p2)"
  shows "(ok \<longleftrightarrow> (direction = 1 \<or> direction = - 1) \<and>
        \<bar>sint velocity\<bar> \<le> sint (pc_maximum_mechanical_velocity_q16_16 (pp_config p1))) \<and>
    (ok \<longrightarrow> (\<exists>r.
      \<bar>r * 1000000 - exact_rate_numerator (pp_config p1) (sint velocity * sint direction)\<bar> \<le> 500000
        \<and>
      (\<forall>age x y z.
        electrical_phase_predictor_predict_horizons (Some p2) (t + age) (Some x) (Some y) (Some z) =
        (if age \<le> pc_maximum_prediction_age_us (pp_config p1)
         then (True, Some (word_of_int (uint phase + r * uint age)),
           Some (word_of_int (uint phase + r * (uint age + uint (pc_output_lead_us (pp_config
             p1))))), Some age)
         else (False, Some x, Some y, Some age)))))"
proof -
  have inv: "predictor_ok p1"
    using predictor_run.run_inv [OF init_predictor_ok [OF assms(1)], of es] assms(2) by simp
  then have i: "pp_initialized p1" by (simp add: predictor_ok_def)
  obtain r where
    near: "\<bar>r * 1000000 - exact_rate_numerator (pp_config p1) (sint velocity * sint direction)\<bar> \<le>
      500000"
    and set: "electrical_phase_predictor_set_observation (Some p1) phase velocity direction t =
       (if accepted_velocity (pp_config p1) velocity direction then (True,
         Some (observed_by p1 phase r t))
        else (False, Some p1))"
    and bound: "accepted_velocity (pp_config p1) velocity direction \<Longrightarrow> \<bar>r\<bar> \<le> 2147483647"
    by (rule observation_cases [OF inv, where phase = phase and velocity = velocity
        and direction = direction and t = t]) blast
  have acc: "ok \<longleftrightarrow> accepted_velocity (pp_config p1) velocity direction"
    using assms(3) unfolding set by (simp split: if_splits)
  have "p2 = observed_by p1 phase r t" if ok
    using assms(3) that unfolding set by (simp split: if_splits)
  then have "ok \<Longrightarrow> electrical_phase_predictor_predict_horizons (Some p2) (t + age) (Some x) (Some y)
    (Some z) =
        (if age \<le> pc_maximum_prediction_age_us (pp_config p1)
         then (True, Some (word_of_int (uint phase + r * uint age)),
           Some (word_of_int (uint phase + r * (uint age + uint (pc_output_lead_us (pp_config
             p1))))), Some age)
         else (False, Some x, Some y, Some age))" for age x y z
    using predict_observed [OF i bound, of phase t age x y "Some z"] acc
    by (simp del: electrical_phase_predictor_predict_horizons.simps)
  then show ?thesis
    using near acc unfolding accepted_velocity_def by blast
qed

definition bench_predictor_config :: electrical_phase_predictor_config where
  "bench_predictor_config = \<lparr>pc_electrical_cycles_per_mechanical_revolution = 50,
    pc_output_lead_us = 25,
     pc_maximum_prediction_age_us = 1000, pc_maximum_mechanical_velocity_q16_16 = 655360\<rparr>"

definition bench_predictor :: electrical_phase_predictor where
  "bench_predictor = \<lparr>pp_config = bench_predictor_config, pp_observed_electrical_phase_q32 = 0,
     pp_observation_timestamp_us = 0, pp_electrical_phase_rate_q32_per_us = 0,
     pp_output_lead_phase_delta_q32 = 0, pp_observation_valid = False, pp_initialized = True\<rparr>"

text \<open>Two revolutions per second backwards, observed just before the clock wraps.\<close>

theorem predicted_phase_exact_witness:
  "\<exists>p2. electrical_phase_predictor_set_observation (Some bench_predictor) 500 131072 (- 1)
    0xFFFFFFF0 = (True, Some p2) \<and>
     (\<exists>r. \<bar>r * 1000000 - exact_rate_numerator bench_predictor_config (- 131072)\<bar> \<le> 500000 \<and>
        electrical_phase_predictor_predict_horizons (Some p2) (0xFFFFFFF0 + 100) (Some 0) (Some 0)
          (Some 0) =
          (True, Some (word_of_int (500 + r * 100)), Some (word_of_int (500 + r * 125)), Some 100) \<and>
        electrical_phase_predictor_predict_horizons (Some p2) (0xFFFFFFF0 + 1001) (Some 0) (Some 0)
          (Some 0) =
          (False, Some 0, Some 0, Some 1001))"
proof -
  have init: "electrical_phase_predictor_init (Some bench_predictor) (Some bench_predictor_config)
      = (True, Some bench_predictor)"
    by (simp add: bench_predictor_def bench_predictor_config_def rate_numerator_def sdiv_nonneg)
  obtain ok p2 where set: "electrical_phase_predictor_set_observation (Some bench_predictor)
    500 131072 (- 1) 0xFFFFFFF0
      = (ok, Some p2)"
    using observation_cases [OF init_predictor_ok [OF init],
      where phase = 500 and velocity = 131072 and direction = "- 1" and t = "0xFFFFFFF0"]
    by (metis (full_types))
  have c: "pp_config bench_predictor = bench_predictor_config" by (simp add: bench_predictor_def)
  have k: "pc_maximum_mechanical_velocity_q16_16 bench_predictor_config = 655360"
    "pc_maximum_prediction_age_us bench_predictor_config =
      1000" "pc_output_lead_us bench_predictor_config = 25"
    by (simp_all add: bench_predictor_config_def)
  have acc: "\<bar>sint (131072 :: i32)\<bar> \<le> sint (655360 :: i32)" "sint (131072 :: i32) * sint (- 1 :: i8)
    = - 131072" by simp_all
  note all = predicted_phase_exact [OF init _ set, of "[]", unfolded c k acc(2)]
  from all acc(1) have ok by simp
  with all obtain r where near: "\<bar>r * 1000000 - exact_rate_numerator bench_predictor_config (-
    131072)\<bar> \<le> 500000"
    and pred: "\<And>age x y z. electrical_phase_predictor_predict_horizons (Some p2) (0xFFFFFFF0 + age)
      (Some x) (Some y) (Some z) =
        (if age \<le> 1000
         then (True, Some (word_of_int (uint (500 :: u32) + r * uint age)),
           Some (word_of_int (uint (500 :: u32) + r * (uint age + uint (25 :: u16)))), Some age)
         else (False, Some x, Some y, Some age))"
    by auto
  show ?thesis
    using set \<open>ok\<close> near pred [of 100 0 0 0] pred [of 1001 0 0 0]
    by (intro exI [of _ p2] conjI exI [of _ r])
      (simp_all del: electrical_phase_predictor_predict_horizons.simps)
qed

end
