(* ===== verification/Bridge_Pwm.thy ===== *)
theory Bridge_Pwm
  imports Prelude
begin

text \<open>
  The bridge output stage: \<open>firmware/src/platform/tim3_bridge_pwm.c\<close> (the four-channel PWM timer)
  and the bridge functions of \<open>firmware/src/board/board.c\<close> (the pins). The microcontroller is a
  parameter: a state of any type, with a function that reads a register, one that writes a register
  and one for the interrupt controller. What the code relies on of the ports is the locale
  \<open>gpio_ports\<close>: clock enables and pin modes read back, the clear register clears output bits, and
  no other register access changes them. The lemmas show that forcing the bridge low leaves all four
  bridge pins driven low whatever the state was, that no operation of a stopped driver changes that,
  and that the staged compare values are the requested duties rounded to the nearest timer tick.
  Barrier instructions have no counterpart.
\<close>

section \<open>The microcontroller as the driver sees it\<close>

datatype gpio_port = GPIOA | GPIOB | GPIOD
datatype gpio_register = PMODE | POTYPE | SR | PUPD | POD | PBSC | AFL | PBC | DS
datatype tim_register = CTRL1 | CTRL2 | SMCTRL | DINTEN | STS | EVTGEN | CCMOD1 | CCMOD2 | CCEN |
  CNT
  | PSC | AR | CCDAT1 | CCDAT2 | CCDAT3 | CCDAT4

datatype mcu_register = RCC_APB1PCLKEN | RCC_APB1PRST | RCC_APB2PCLKEN | DBG_CTRL
  | TIM3 tim_register | GPIO gpio_port gpio_register

datatype nvic_operation = NVIC_DisableIRQ | NVIC_ClearPendingIRQ | NVIC_EnableIRQ | NVIC_SetPriority
  u32

record 'h mcu_bus =
  reg_read :: "'h \<Rightarrow> mcu_register \<Rightarrow> u32"
  reg_write :: "'h \<Rightarrow> mcu_register \<Rightarrow> u32 \<Rightarrow> 'h"
  nvic_tim3 :: "'h \<Rightarrow> nvic_operation \<Rightarrow> 'h"

definition RCC_APB1PCLKEN_TIM3EN :: u32 where "RCC_APB1PCLKEN_TIM3EN = 0x00000002"
definition RCC_APB1PRST_TIM3RST :: u32 where "RCC_APB1PRST_TIM3RST = 0x00000002"
definition RCC_APB2PCLKEN_IOPAEN :: u32 where "RCC_APB2PCLKEN_IOPAEN = 0x00000004"
definition RCC_APB2PCLKEN_IOPBEN :: u32 where "RCC_APB2PCLKEN_IOPBEN = 0x00000008"
definition DBG_CTRL_TIM3_STOP :: u32 where "DBG_CTRL_TIM3_STOP = 0x00001000"
definition TIM_CTRL1_CNTEN :: u32 where "TIM_CTRL1_CNTEN = 0x00000001"
definition TIM_CTRL1_UPDIS :: u32 where "TIM_CTRL1_UPDIS = 0x00000002"
definition TIM_CTRL1_ARPEN :: u32 where "TIM_CTRL1_ARPEN = 0x00000080"
definition TIM_CTRL2_MMSEL :: u32 where "TIM_CTRL2_MMSEL = 0x00000070"
definition MASTER_TRIGGER_ON_UPDATE :: u32 where "MASTER_TRIGGER_ON_UPDATE = 0x00000020"
definition TIM_STS_UDITF :: u32 where "TIM_STS_UDITF = 0x00000001"
definition TIM_DINTEN_UIEN :: u16 where "TIM_DINTEN_UIEN = 0x0001"
definition TIM_EVTGEN_UDGN :: u16 where "TIM_EVTGEN_UDGN = 0x0001"
definition PWM1_WITH_PRELOAD_CH1 :: u16 where "PWM1_WITH_PRELOAD_CH1 = 0x0020 OR 0x0040 OR 0x0008"
definition PWM1_WITH_PRELOAD_CH2 :: u16 where "PWM1_WITH_PRELOAD_CH2 = 0x2000 OR 0x4000 OR 0x0800"
definition PWM1_WITH_PRELOAD_CH3 :: u16 where "PWM1_WITH_PRELOAD_CH3 = 0x0020 OR 0x0040 OR 0x0008"
definition PWM1_WITH_PRELOAD_CH4 :: u16 where "PWM1_WITH_PRELOAD_CH4 = 0x2000 OR 0x4000 OR 0x0800"
definition ALL_CHANNEL_OUTPUTS_ENABLED :: u32 where "ALL_CHANNEL_OUTPUTS_ENABLED = 0x1111"
definition TIM3_BRIDGE_PWM_FREQUENCY_HZ :: u32 where "TIM3_BRIDGE_PWM_FREQUENCY_HZ = 20000"
definition TIM3_BRIDGE_PWM_CHANNEL_COUNT :: u32 where "TIM3_BRIDGE_PWM_CHANNEL_COUNT = 4"
definition INTERRUPT_PRIORITY_CONTROL_GUARDIAN :: u32 where "INTERRUPT_PRIORITY_CONTROL_GUARDIAN =
  1"

definition BRIDGE_PA_PIN_MASK :: u32 where "BRIDGE_PA_PIN_MASK = 0x000000C0"
definition BRIDGE_PB_PIN_MASK :: u32 where "BRIDGE_PB_PIN_MASK = 0x00000003"
definition BRIDGE_PA_MODE_MASK :: u32 where "BRIDGE_PA_MODE_MASK = 0x0000F000"
definition BRIDGE_PB_CONTROL_MODE_MASK :: u32 where "BRIDGE_PB_CONTROL_MODE_MASK = 0x0000000F"
definition BRIDGE_PA_OUTPUT_MODE_MASK :: u32 where "BRIDGE_PA_OUTPUT_MODE_MASK = 0x00005000"
definition BRIDGE_PB_OUTPUT_MODE_MASK :: u32 where "BRIDGE_PB_OUTPUT_MODE_MASK = 0x00000005"
definition BRIDGE_PA_AF_MODE_MASK :: u32 where "BRIDGE_PA_AF_MODE_MASK = 0x0000A000"
definition BRIDGE_PB_AF_MODE_MASK :: u32 where "BRIDGE_PB_AF_MODE_MASK = 0x0000000A"
definition BRIDGE_PA_DRIVE_4MA_MASK :: u32 where "BRIDGE_PA_DRIVE_4MA_MASK = 0x0000A000"
definition BRIDGE_PB_DRIVE_4MA_MASK :: u32 where "BRIDGE_PB_DRIVE_4MA_MASK = 0x0000000A"
definition BRIDGE_PA_AF_MASK :: u32 where "BRIDGE_PA_AF_MASK = 0xFF000000"
definition BRIDGE_PB_AF_MASK :: u32 where "BRIDGE_PB_AF_MASK = 0x000000FF"
definition BRIDGE_PA_AF_TIM3_MASK :: u32 where "BRIDGE_PA_AF_TIM3_MASK = 0x22000000"
definition BRIDGE_PB_AF_TIM3_MASK :: u32 where "BRIDGE_PB_AF_TIM3_MASK = 0x00000022"

text \<open>
  The static variables of the timer driver, with the microcontroller state. The only update handler
  the firmware installs is that of the current loop backend.
\<close>

datatype pwm_update_handler = PWM_UPDATE_EVENT

record 'h bridge =
  br_hw :: 'h
  br_period_counts :: u16
  br_initialized :: bool
  br_update_handler :: "pwm_update_handler ptr"

definition rd :: "'h mcu_bus \<Rightarrow> mcu_register \<Rightarrow> 'h bridge \<Rightarrow> u32" where
  "rd bus r s = reg_read bus (br_hw s) r"

definition rd16 :: "'h mcu_bus \<Rightarrow> tim_register \<Rightarrow> 'h bridge \<Rightarrow> u16" where
  "rd16 bus r s = ucast (reg_read bus (br_hw s) (TIM3 r))"

definition wr :: "'h mcu_bus \<Rightarrow> mcu_register \<Rightarrow> u32 \<Rightarrow> 'h bridge \<Rightarrow> 'h bridge" where
  "wr bus r v s = s\<lparr>br_hw := reg_write bus (br_hw s) r v\<rparr>"

definition wr16 :: "'h mcu_bus \<Rightarrow> tim_register \<Rightarrow> u16 \<Rightarrow> 'h bridge \<Rightarrow> 'h bridge" where
  "wr16 bus r v s = wr bus (TIM3 r) (ucast v) s"

definition nvic :: "'h mcu_bus \<Rightarrow> nvic_operation \<Rightarrow> 'h bridge \<Rightarrow> 'h bridge" where
  "nvic bus op s = s\<lparr>br_hw := nvic_tim3 bus (br_hw s) op\<rparr>"

text \<open>Read-modify-write of a register: \<open>|=\<close>, \<open>&=\<close> and field replacement.\<close>

definition set_bits :: "'h mcu_bus \<Rightarrow> mcu_register \<Rightarrow> u32 \<Rightarrow> 'h bridge \<Rightarrow> 'h bridge" where
  "set_bits bus r m s = wr bus r (rd bus r s OR m) s"

definition clear_bits :: "'h mcu_bus \<Rightarrow> mcu_register \<Rightarrow> u32 \<Rightarrow> 'h bridge \<Rightarrow> 'h bridge" where
  "clear_bits bus r m s = wr bus r (rd bus r s AND NOT m) s"

definition replace_bits :: "'h mcu_bus \<Rightarrow> mcu_register \<Rightarrow> u32 \<Rightarrow> u32 \<Rightarrow> 'h bridge \<Rightarrow> 'h bridge" where
  "replace_bits bus r m v s = wr bus r ((rd bus r s AND NOT m) OR v) s"

section \<open>The PWM timer\<close>

definition write_duty_compares :: "'h mcu_bus \<Rightarrow> u16 list \<Rightarrow> 'h bridge \<Rightarrow> 'h bridge" where
  "write_duty_compares bus compares s =
     wr16 bus CCDAT4 (compares ! 3) (wr16 bus CCDAT3 (compares ! 2)
       (wr16 bus CCDAT2 (compares ! 1) (wr16 bus CCDAT1 (compares ! 0) s)))"

definition duty_compares_match :: "'h mcu_bus \<Rightarrow> u16 list \<Rightarrow> 'h bridge \<Rightarrow> bool" where
  "duty_compares_match bus compares s \<longleftrightarrow>
     rd16 bus CCDAT1 s = compares ! 0 \<and> rd16 bus CCDAT2 s = compares ! 1 \<and>
     rd16 bus CCDAT3 s = compares ! 2 \<and> rd16 bus CCDAT4 s = compares ! 3"

definition write_compares :: "'h mcu_bus \<Rightarrow> u32 \<Rightarrow> u16 \<Rightarrow> 'h bridge \<Rightarrow> 'h bridge" where
  "write_compares bus selected_channel selected_compare s =
     wr16 bus CCDAT4 (if selected_channel = 3 then selected_compare else 0)
       (wr16 bus CCDAT3 (if selected_channel = 2 then selected_compare else 0)
         (wr16 bus CCDAT2 (if selected_channel = 1 then selected_compare else 0)
           (wr16 bus CCDAT1 (if selected_channel = 0 then selected_compare else 0) s)))"

definition compares_match :: "'h mcu_bus \<Rightarrow> u32 \<Rightarrow> u16 \<Rightarrow> 'h bridge \<Rightarrow> bool" where
  "compares_match bus selected_channel selected_compare s \<longleftrightarrow>
     rd16 bus CCDAT1 s = (if selected_channel = 0 then selected_compare else 0) \<and>
     rd16 bus CCDAT2 s = (if selected_channel = 1 then selected_compare else 0) \<and>
     rd16 bus CCDAT3 s = (if selected_channel = 2 then selected_compare else 0) \<and>
     rd16 bus CCDAT4 s = (if selected_channel = 3 then selected_compare else 0)"

text \<open>The register sequence of the initialisation, up to the read-back.\<close>

definition program_timer :: "'h mcu_bus \<Rightarrow> u32 \<Rightarrow> 'h bridge \<Rightarrow> 'h bridge" where
  "program_timer bus period_counts s =
     (let s = set_bits bus RCC_APB1PCLKEN RCC_APB1PCLKEN_TIM3EN s;
          s = set_bits bus RCC_APB1PRST RCC_APB1PRST_TIM3RST s;
          s = clear_bits bus RCC_APB1PRST RCC_APB1PRST_TIM3RST s;
          s = wr bus (TIM3 CTRL1) 0 s;
          s = wr bus (TIM3 CTRL2) MASTER_TRIGGER_ON_UPDATE s;
          s = wr16 bus SMCTRL 0 s;
          s = wr16 bus DINTEN 0 s;
          s = wr bus (TIM3 CCEN) 0 s;
          s = wr16 bus CNT 0 s;
          s = wr16 bus PSC 0 s;
          s = wr16 bus AR (ucast (period_counts - 1)) s;
          s = wr16 bus CCMOD1 (PWM1_WITH_PRELOAD_CH1 OR PWM1_WITH_PRELOAD_CH2) s;
          s = wr16 bus CCMOD2 (PWM1_WITH_PRELOAD_CH3 OR PWM1_WITH_PRELOAD_CH4) s;
          s = write_compares bus TIM3_BRIDGE_PWM_CHANNEL_COUNT 0 s;
          s = wr bus (TIM3 CCEN) ALL_CHANNEL_OUTPUTS_ENABLED s;
          s = wr bus (TIM3 CTRL1) TIM_CTRL1_ARPEN s;
          s = wr16 bus EVTGEN TIM_EVTGEN_UDGN s;
          s = wr bus (TIM3 STS) (NOT TIM_STS_UDITF) s;
          s = set_bits bus (TIM3 CTRL1) TIM_CTRL1_CNTEN s
      in clear_bits bus DBG_CTRL DBG_CTRL_TIM3_STOP s)"

definition tim3_bridge_pwm_init :: "'h mcu_bus \<Rightarrow> u32 \<Rightarrow> 'h bridge \<Rightarrow> bool \<times> 'h bridge" where
  "tim3_bridge_pwm_init bus timer_clock_hz s =
     (let s = s\<lparr>br_initialized := False, br_period_counts := 0, br_update_handler := None\<rparr>;
          s = nvic bus NVIC_DisableIRQ s;
          period_counts = timer_clock_hz div TIM3_BRIDGE_PWM_FREQUENCY_HZ
      in if timer_clock_hz = 0 \<or> timer_clock_hz mod TIM3_BRIDGE_PWM_FREQUENCY_HZ \<noteq> 0 then (False, s)
         else if period_counts < 2 \<or> 65536 < period_counts \<or> period_counts AND 1 \<noteq> 0 then (False, s)
         else
           let s = program_timer bus period_counts s;
               s = s\<lparr>br_period_counts := ucast period_counts\<rparr>;
               ok = (rd16 bus PSC s = 0 \<and> rd16 bus AR s = ucast (period_counts - 1) \<and>
                     rd bus (TIM3 CTRL1) s AND (TIM_CTRL1_CNTEN OR TIM_CTRL1_ARPEN)
                       = TIM_CTRL1_CNTEN OR TIM_CTRL1_ARPEN \<and>
                     rd bus (TIM3 CTRL2) s AND TIM_CTRL2_MMSEL = MASTER_TRIGGER_ON_UPDATE \<and>
                     rd bus (TIM3 CCEN) s AND ALL_CHANNEL_OUTPUTS_ENABLED =
                     ALL_CHANNEL_OUTPUTS_ENABLED \<and>
                     compares_match bus TIM3_BRIDGE_PWM_CHANNEL_COUNT 0 s)
           in (ok, s\<lparr>br_initialized := ok\<rparr>))"

text \<open>The compare values of a duty vector, or \<open>None\<close> at the first duty that is out of range.\<close>

fun duty_compares :: "u16 \<Rightarrow> u16 list \<Rightarrow> u16 list option" where
  "duty_compares period [] = Some []"
| "duty_compares period (duty # duties) =
     (let compare = (ucast period * ucast duty + 500) div 1000 :: u32
      in if 1000 < duty \<or> ucast period < compare then None
         else map_option ((#) (ucast compare)) (duty_compares period duties))"

definition tim3_bridge_pwm_stage_duties ::
  "'h mcu_bus \<Rightarrow> u16 list ptr \<Rightarrow> 'h bridge \<Rightarrow> bool \<times> 'h bridge" where
  "tim3_bridge_pwm_stage_duties bus duty_permille s =
     (case duty_permille of
        None \<Rightarrow> (False, s)
      | Some duties \<Rightarrow>
          if \<not> br_initialized s \<or> br_period_counts s = 0 then (False, s)
          else case duty_compares (br_period_counts s) duties of
            None \<Rightarrow> (False, s)
          | Some compares \<Rightarrow>
              let s = write_duty_compares bus compares s
              in (duty_compares_match bus compares s \<and>
                  rd bus (TIM3 CTRL1) s AND TIM_CTRL1_CNTEN \<noteq> 0 \<and>
                  rd bus (TIM3 CCEN) s AND ALL_CHANNEL_OUTPUTS_ENABLED =
                  ALL_CHANNEL_OUTPUTS_ENABLED, s))"

definition tim3_bridge_pwm_get_preload_margin_ticks ::
  "'h mcu_bus \<Rightarrow> u16 ptr \<Rightarrow> 'h bridge \<Rightarrow> bool \<times> u16 ptr" where
  "tim3_bridge_pwm_get_preload_margin_ticks bus margin_ticks s =
     (case margin_ticks of
        None \<Rightarrow> (False, None)
      | Some margin \<Rightarrow>
          if \<not> br_initialized s \<or> br_period_counts s = 0 then (False, Some margin)
          else let counter = rd16 bus CNT s
               in if br_period_counts s \<le> counter then (False, Some margin)
                  else (True, Some (br_period_counts s - counter)))"

definition tim3_bridge_pwm_zero :: "'h mcu_bus \<Rightarrow> 'h bridge \<Rightarrow> bool \<times> 'h bridge" where
  "tim3_bridge_pwm_zero bus s =
     (if \<not> br_initialized s then (False, s)
      else
        let s = set_bits bus (TIM3 CTRL1) TIM_CTRL1_UPDIS s;
            s = write_compares bus TIM3_BRIDGE_PWM_CHANNEL_COUNT 0 s;
            s = clear_bits bus (TIM3 CTRL1) TIM_CTRL1_UPDIS s;
            s = wr16 bus EVTGEN TIM_EVTGEN_UDGN s;
            s = wr bus (TIM3 STS) (NOT TIM_STS_UDITF) s
        in (compares_match bus TIM3_BRIDGE_PWM_CHANNEL_COUNT 0 s, s))"

definition tim3_bridge_pwm_stage_bootstrap_probe :: "'h mcu_bus \<Rightarrow> 'h bridge \<Rightarrow>
  bool \<times> 'h bridge" where
  "tim3_bridge_pwm_stage_bootstrap_probe bus s =
     (if \<not> br_initialized s \<or> br_period_counts s = 0 \<or>
         rd bus (TIM3 CTRL1) s AND (TIM_CTRL1_CNTEN OR TIM_CTRL1_UPDIS) \<noteq> TIM_CTRL1_CNTEN \<or>
         rd bus (TIM3 CCEN) s AND ALL_CHANNEL_OUTPUTS_ENABLED \<noteq> ALL_CHANNEL_OUTPUTS_ENABLED
      then (False, s)
      else
        let compares = replicate 4 (br_period_counts s);
            s = set_bits bus (TIM3 CTRL1) TIM_CTRL1_UPDIS s;
            s = write_duty_compares bus compares s;
            s = clear_bits bus (TIM3 CTRL1) TIM_CTRL1_UPDIS s
        in (duty_compares_match bus compares s, s))"

definition tim3_bridge_pwm_set_update_handler ::
  "'h mcu_bus \<Rightarrow> pwm_update_handler ptr \<Rightarrow> 'h bridge \<Rightarrow> bool \<times> 'h bridge" where
  "tim3_bridge_pwm_set_update_handler bus handler s =
     (if \<not> br_initialized s \<or> rd16 bus DINTEN s AND TIM_DINTEN_UIEN \<noteq> 0 then (False, s)
      else (True, s\<lparr>br_update_handler := handler\<rparr>))"

definition tim3_bridge_pwm_update_irq_enable ::
  "'h mcu_bus \<Rightarrow> bool \<Rightarrow> 'h bridge \<Rightarrow> bool \<times> 'h bridge" where
  "tim3_bridge_pwm_update_irq_enable bus enable s =
     (if \<not> br_initialized s then (False, s)
      else if \<not> enable then
        (let s = wr16 bus DINTEN (rd16 bus DINTEN s AND NOT TIM_DINTEN_UIEN) s;
             s = nvic bus NVIC_DisableIRQ s;
             s = nvic bus NVIC_ClearPendingIRQ s;
             s = wr bus (TIM3 STS) (NOT TIM_STS_UDITF) s
         in (True, s))
      else if br_update_handler s = None then (False, s)
      else
        (let s = nvic bus NVIC_DisableIRQ s;
             s = wr bus (TIM3 STS) (NOT TIM_STS_UDITF) s;
             s = nvic bus NVIC_ClearPendingIRQ s;
             s = nvic bus (NVIC_SetPriority INTERRUPT_PRIORITY_CONTROL_GUARDIAN) s;
             s = wr16 bus DINTEN (rd16 bus DINTEN s OR TIM_DINTEN_UIEN) s;
             s = nvic bus NVIC_EnableIRQ s
         in (rd16 bus DINTEN s AND TIM_DINTEN_UIEN \<noteq> 0, s)))"

definition tim3_bridge_pwm_stop :: "'h mcu_bus \<Rightarrow> 'h bridge \<Rightarrow> 'h bridge" where
  "tim3_bridge_pwm_stop bus s =
     (let s = s\<lparr>br_initialized := False, br_period_counts := 0, br_update_handler := None\<rparr>;
          s = nvic bus NVIC_DisableIRQ s;
          s = nvic bus NVIC_ClearPendingIRQ s
      in if rd bus RCC_APB1PCLKEN s AND RCC_APB1PCLKEN_TIM3EN = 0 then s
         else
           let s = wr16 bus CCDAT1 0 s; s = wr16 bus CCDAT2 0 s; s = wr16 bus CCDAT3 0 s;
               s = wr16 bus CCDAT4 0 s; s = wr16 bus DINTEN 0 s; s = wr bus (TIM3 CCEN) 0 s
           in clear_bits bus (TIM3 CTRL1) TIM_CTRL1_CNTEN s)"

text \<open>The interrupt service routine up to the handler, which it returns.\<close>

definition TIM3_IRQHandler :: "'h mcu_bus \<Rightarrow> 'h bridge \<Rightarrow> pwm_update_handler ptr \<times> 'h bridge" where
  "TIM3_IRQHandler bus s =
     (if rd bus (TIM3 STS) s AND TIM_STS_UDITF = 0
      then (None, wr16 bus DINTEN (rd16 bus DINTEN s AND NOT TIM_DINTEN_UIEN) s)
      else
        let s = wr bus (TIM3 STS) (NOT TIM_STS_UDITF) s
        in case br_update_handler s of
             None \<Rightarrow> (None, wr16 bus DINTEN (rd16 bus DINTEN s AND NOT TIM_DINTEN_UIEN) s)
           | Some handler \<Rightarrow> (Some handler, s))"

section \<open>The bridge pins\<close>

text \<open>The slew rate register of a port is accessed as a 16-bit word.\<close>

definition set_slow_slew :: "'h mcu_bus \<Rightarrow> gpio_port \<Rightarrow> u16 \<Rightarrow> 'h bridge \<Rightarrow> 'h bridge" where
  "set_slow_slew bus p m s =
     wr bus (GPIO p SR) (ucast ((ucast (rd bus (GPIO p SR) s) :: u16) OR m)) s"

definition board_bridge_force_low_zero :: "'h mcu_bus \<Rightarrow> 'h bridge \<Rightarrow> 'h bridge" where
  "board_bridge_force_low_zero bus s =
     (let s = set_bits bus RCC_APB2PCLKEN (RCC_APB2PCLKEN_IOPAEN OR RCC_APB2PCLKEN_IOPBEN) s;
          s = wr bus (GPIO GPIOA PBC) BRIDGE_PA_PIN_MASK s;
          s = wr bus (GPIO GPIOB PBC) BRIDGE_PB_PIN_MASK s;
          s = clear_bits bus (GPIO GPIOA POTYPE) BRIDGE_PA_PIN_MASK s;
          s = clear_bits bus (GPIO GPIOB POTYPE) BRIDGE_PB_PIN_MASK s;
          s = clear_bits bus (GPIO GPIOA PUPD) BRIDGE_PA_MODE_MASK s;
          s = clear_bits bus (GPIO GPIOB PUPD) BRIDGE_PB_CONTROL_MODE_MASK s;
          s = replace_bits bus (GPIO GPIOA DS) BRIDGE_PA_MODE_MASK BRIDGE_PA_DRIVE_4MA_MASK s;
          s = replace_bits bus (GPIO GPIOB DS) BRIDGE_PB_CONTROL_MODE_MASK BRIDGE_PB_DRIVE_4MA_MASK
            s;
          s = set_slow_slew bus GPIOA (ucast BRIDGE_PA_PIN_MASK) s;
          s = set_slow_slew bus GPIOB (ucast BRIDGE_PB_PIN_MASK) s;
          s = replace_bits bus (GPIO GPIOA PMODE) BRIDGE_PA_MODE_MASK BRIDGE_PA_OUTPUT_MODE_MASK s;
          s = replace_bits bus (GPIO GPIOB PMODE)
            BRIDGE_PB_CONTROL_MODE_MASK BRIDGE_PB_OUTPUT_MODE_MASK s
      in tim3_bridge_pwm_stop bus s)"

definition board_bridge_pwm_init :: "'h mcu_bus \<Rightarrow> u32 \<Rightarrow> 'h bridge \<Rightarrow> bool \<times> 'h bridge" where
  "board_bridge_pwm_init bus timer_clock_hz s =
     (case tim3_bridge_pwm_init bus timer_clock_hz (board_bridge_force_low_zero bus s) of
        (False, s) \<Rightarrow> (False, s)
      | (True, s) \<Rightarrow>
          let s = replace_bits bus (GPIO GPIOA AFL) BRIDGE_PA_AF_MASK BRIDGE_PA_AF_TIM3_MASK s;
              s = replace_bits bus (GPIO GPIOB AFL) BRIDGE_PB_AF_MASK BRIDGE_PB_AF_TIM3_MASK s;
              s = replace_bits bus (GPIO GPIOA PMODE) BRIDGE_PA_MODE_MASK BRIDGE_PA_AF_MODE_MASK s;
              s = replace_bits bus (GPIO GPIOB PMODE)
              BRIDGE_PB_CONTROL_MODE_MASK BRIDGE_PB_AF_MODE_MASK s
          in if rd bus (GPIO GPIOA PMODE) s AND BRIDGE_PA_MODE_MASK \<noteq> BRIDGE_PA_AF_MODE_MASK \<or>
                rd bus (GPIO GPIOB PMODE) s AND BRIDGE_PB_CONTROL_MODE_MASK \<noteq> BRIDGE_PB_AF_MODE_MASK
                \<or>
                rd bus (GPIO GPIOA AFL) s AND BRIDGE_PA_AF_MASK \<noteq> BRIDGE_PA_AF_TIM3_MASK \<or>
                rd bus (GPIO GPIOB AFL) s AND BRIDGE_PB_AF_MASK \<noteq> BRIDGE_PB_AF_TIM3_MASK
             then (False, board_bridge_force_low_zero bus s)
             else (True, s))"

section \<open>The ports\<close>

definition port_clock :: "gpio_port \<Rightarrow> u32" where
  "port_clock p = (case p of GPIOA \<Rightarrow> RCC_APB2PCLKEN_IOPAEN | GPIOB \<Rightarrow> RCC_APB2PCLKEN_IOPBEN | GPIOD \<Rightarrow>
    0x00000020)"

definition port_clocked :: "'h mcu_bus \<Rightarrow> gpio_port \<Rightarrow> 'h \<Rightarrow> bool" where
  "port_clocked bus p h \<longleftrightarrow> reg_read bus h RCC_APB2PCLKEN AND port_clock p \<noteq> 0"

fun is_port_register :: "mcu_register \<Rightarrow> bool" where
  "is_port_register RCC_APB2PCLKEN = True"
| "is_port_register (GPIO p r) = (r \<in> {PMODE, POD})"
| "is_port_register _ = False"

text \<open>
  What the reference manual promises of the ports: clock enables and modes read back; the clear
  register clears output bits; nothing else changes them.
\<close>

locale gpio_ports =
  fixes bus :: "'h mcu_bus"
  assumes clock_readback: "reg_read bus (reg_write bus h RCC_APB2PCLKEN v) RCC_APB2PCLKEN = v"
    and clock_kept: "r \<noteq> RCC_APB2PCLKEN \<Longrightarrow>
      reg_read bus (reg_write bus h r v) RCC_APB2PCLKEN = reg_read bus h RCC_APB2PCLKEN"
    and mode_readback: "port_clocked bus p h \<Longrightarrow>
      reg_read bus (reg_write bus h (GPIO p PMODE) v) (GPIO p PMODE) = v"
    and mode_kept: "r \<noteq> GPIO p PMODE \<Longrightarrow>
      reg_read bus (reg_write bus h r v) (GPIO p PMODE) = reg_read bus h (GPIO p PMODE)"
    and output_cleared: "port_clocked bus p h \<Longrightarrow>
      reg_read bus (reg_write bus h (GPIO p PBC) v) (GPIO p POD) = reg_read bus h (GPIO p POD)
        AND NOT v"
    and output_kept: "r \<notin> {GPIO p POD, GPIO p PBC, GPIO p PBSC} \<Longrightarrow>
      reg_read bus (reg_write bus h r v) (GPIO p POD) = reg_read bus h (GPIO p POD)"
    and nvic_kept: "is_port_register r \<Longrightarrow> reg_read bus (nvic_tim3 bus h op) r = reg_read bus h r"

text \<open>
  The bridge is low: all four command pins are outputs (not timer channels) and their output bits
  are zero, which turns every low side on and every high side off.
\<close>

definition bridge_low :: "'h mcu_bus \<Rightarrow> 'h \<Rightarrow> bool" where
  "bridge_low bus h \<longleftrightarrow>
     reg_read bus h (GPIO GPIOA PMODE) AND BRIDGE_PA_MODE_MASK = BRIDGE_PA_OUTPUT_MODE_MASK \<and>
     reg_read bus h (GPIO GPIOB PMODE) AND BRIDGE_PB_CONTROL_MODE_MASK =
       BRIDGE_PB_OUTPUT_MODE_MASK \<and>
     reg_read bus h (GPIO GPIOA POD) AND BRIDGE_PA_PIN_MASK = 0 \<and>
     reg_read bus h (GPIO GPIOB POD) AND BRIDGE_PB_PIN_MASK = 0"

text \<open>Registers whose writing can change what the ports do.\<close>

fun port_writer :: "mcu_register \<Rightarrow> bool" where
  "port_writer RCC_APB2PCLKEN = True"
| "port_writer (GPIO p r) = (r \<in> {PMODE, POD, PBC, PBSC})"
| "port_writer _ = False"

definition same_ports :: "'h mcu_bus \<Rightarrow> 'h \<Rightarrow> 'h \<Rightarrow> bool" where
  "same_ports bus h h' \<longleftrightarrow> reg_read bus h' RCC_APB2PCLKEN = reg_read bus h RCC_APB2PCLKEN \<and>
     (\<forall>p. reg_read bus h' (GPIO p PMODE) = reg_read bus h (GPIO p PMODE) \<and>
        reg_read bus h' (GPIO p POD) = reg_read bus h (GPIO p POD))"

lemma same_ports_refl: "same_ports bus h h"
  by (simp add: same_ports_def)

lemma same_ports_trans: "same_ports bus h h' \<Longrightarrow> same_ports bus h' h'' \<Longrightarrow> same_ports bus h h''"
  by (simp add: same_ports_def)

lemma same_ports_low: "same_ports bus h h' \<Longrightarrow> bridge_low bus h' = bridge_low bus h"
  by (simp add: same_ports_def bridge_low_def)

text \<open>The driver variables a register access leaves alone.\<close>

lemma access_rest [simp]:
  "br_initialized (wr bus r v s) = br_initialized s" "br_period_counts (wr bus r v s) =
    br_period_counts s"
  "br_update_handler (wr bus r v s) = br_update_handler s"
  "br_initialized (nvic bus op s) = br_initialized s" "br_period_counts (nvic bus op s) =
    br_period_counts s"
  "br_update_handler (nvic bus op s) = br_update_handler s"
  by (simp_all add: wr_def nvic_def)

lemmas access_defs = set_bits_def clear_bits_def replace_bits_def wr16_def set_slow_slew_def
  write_compares_def write_duty_compares_def

text \<open>Bit fields.\<close>

lemma replaced_field: "v AND m = v \<Longrightarrow> ((x AND NOT m) OR v) AND m = (v :: u32)"
  by (simp add: bit_eq_iff bit_simps) blast

lemma cleared_field: "(x AND NOT m) AND m = (0 :: u32)"
  by (simp add: bit_eq_iff bit_simps)

lemma set_field: "m AND k \<noteq> 0 \<Longrightarrow> (x OR m) AND k \<noteq> (0 :: u32)"
  by (auto simp: bit_eq_iff bit_simps)

lemmas pin_masks = BRIDGE_PA_PIN_MASK_def BRIDGE_PB_PIN_MASK_def BRIDGE_PA_MODE_MASK_def
  BRIDGE_PB_CONTROL_MODE_MASK_def BRIDGE_PA_OUTPUT_MODE_MASK_def BRIDGE_PB_OUTPUT_MODE_MASK_def
  BRIDGE_PA_AF_MODE_MASK_def BRIDGE_PB_AF_MODE_MASK_def

lemma init_result: "br_initialized (snd (tim3_bridge_pwm_init bus f s)) =
  fst (tim3_bridge_pwm_init bus f s)"
  by (simp add: tim3_bridge_pwm_init_def Let_def)

context gpio_ports
begin

lemma same_write: "\<not> port_writer r \<Longrightarrow> same_ports bus h (reg_write bus h r v)"
  by (cases r rule: port_writer.cases)
    (auto simp: same_ports_def clock_kept mode_kept output_kept)

lemma same_wr: "\<not> port_writer r \<Longrightarrow> same_ports bus h (br_hw s) \<Longrightarrow>
  same_ports bus h (br_hw (wr bus r v s))"
  using same_write same_ports_trans by (fastforce simp: wr_def)

lemma same_nvic: "same_ports bus h (br_hw s) \<Longrightarrow> same_ports bus h (br_hw (nvic bus op s))"
  by (simp add: same_ports_def nvic_def nvic_kept)

lemma same_statics [simp]:
  "same_ports bus h (br_hw (s\<lparr>br_initialized := a\<rparr>)) = same_ports bus h (br_hw s)"
  "same_ports bus h (br_hw (s\<lparr>br_period_counts := b\<rparr>)) = same_ports bus h (br_hw s)"
  "same_ports bus h (br_hw (s\<lparr>br_update_handler := c\<rparr>)) = same_ports bus h (br_hw s)"
  by simp_all

lemmas same_intros = same_wr same_nvic

text \<open>No operation of the timer driver changes what the ports do.\<close>

lemma program_timer_same: "same_ports bus h (br_hw s) \<Longrightarrow> same_ports bus h (br_hw (program_timer bus n
  s))"
  unfolding program_timer_def Let_def access_defs by (intro same_intros) simp_all

lemma init_same: "same_ports bus h (br_hw s) \<Longrightarrow> same_ports bus h (br_hw (snd (tim3_bridge_pwm_init
  bus f s)))"
  unfolding tim3_bridge_pwm_init_def Let_def by (auto intro!: program_timer_same same_nvic)

lemma stage_duties_same:
  "same_ports bus h (br_hw s) \<Longrightarrow> same_ports bus h (br_hw (snd (tim3_bridge_pwm_stage_duties bus d
    s)))"
  unfolding tim3_bridge_pwm_stage_duties_def Let_def access_defs
  by (auto intro!: same_intros split: option.split)

lemma zero_same: "same_ports bus h (br_hw s) \<Longrightarrow> same_ports bus h (br_hw (snd (tim3_bridge_pwm_zero
  bus s)))"
  unfolding tim3_bridge_pwm_zero_def Let_def access_defs by (auto intro!: same_intros)

lemma probe_same:
  "same_ports bus h (br_hw s) \<Longrightarrow> same_ports bus h (br_hw (snd (tim3_bridge_pwm_stage_bootstrap_probe
    bus s)))"
  unfolding tim3_bridge_pwm_stage_bootstrap_probe_def Let_def access_defs by (auto intro!:
    same_intros)

lemma handler_same:
  "same_ports bus h (br_hw s) \<Longrightarrow> same_ports bus h (br_hw (snd (tim3_bridge_pwm_set_update_handler bus
    f s)))"
  unfolding tim3_bridge_pwm_set_update_handler_def by auto

lemma irq_enable_same:
  "same_ports bus h (br_hw s) \<Longrightarrow> same_ports bus h (br_hw (snd (tim3_bridge_pwm_update_irq_enable bus
    e s)))"
  unfolding tim3_bridge_pwm_update_irq_enable_def Let_def access_defs by (auto intro!: same_intros)

lemma stop_same: "same_ports bus h (br_hw s) \<Longrightarrow> same_ports bus h (br_hw (tim3_bridge_pwm_stop bus
  s))"
  unfolding tim3_bridge_pwm_stop_def Let_def access_defs by (auto intro!: same_intros)

lemma isr_same: "same_ports bus h (br_hw s) \<Longrightarrow> same_ports bus h (br_hw (snd (TIM3_IRQHandler bus
  s)))"
  unfolding TIM3_IRQHandler_def Let_def access_defs by (auto intro!: same_intros split:
    option.split)

lemmas driver_same = init_same stage_duties_same zero_same probe_same handler_same irq_enable_same
  stop_same isr_same

lemmas driver_low = driver_same [OF same_ports_refl, THEN same_ports_low]

lemma field_readback:
  assumes "port_clocked bus p (br_hw s)" "v AND m = v"
  shows "rd bus (GPIO p PMODE) (replace_bits bus (GPIO p PMODE) m v s) AND m = v"
  using assms by (simp add: rd_def replace_bits_def wr_def mode_readback replaced_field)

lemma force_low:
  shows "bridge_low bus (br_hw (board_bridge_force_low_zero bus s))"
    and "\<not> br_initialized (board_bridge_force_low_zero bus s)"
    and "br_period_counts (board_bridge_force_low_zero bus s) = 0"
proof -
  have clocks: "(x OR (RCC_APB2PCLKEN_IOPAEN OR RCC_APB2PCLKEN_IOPBEN))
    AND RCC_APB2PCLKEN_IOPAEN \<noteq> 0"
    "(x OR (RCC_APB2PCLKEN_IOPAEN OR RCC_APB2PCLKEN_IOPBEN)) AND RCC_APB2PCLKEN_IOPBEN \<noteq> 0" for x ::
      u32
    by (rule set_field, simp add: RCC_APB2PCLKEN_IOPAEN_def RCC_APB2PCLKEN_IOPBEN_def)+
  have masks: "BRIDGE_PA_OUTPUT_MODE_MASK AND BRIDGE_PA_MODE_MASK = BRIDGE_PA_OUTPUT_MODE_MASK"
    "BRIDGE_PB_OUTPUT_MODE_MASK AND BRIDGE_PB_CONTROL_MODE_MASK = BRIDGE_PB_OUTPUT_MODE_MASK"
    by (simp_all add: pin_masks)
  show "bridge_low bus (br_hw (board_bridge_force_low_zero bus s))"
    unfolding board_bridge_force_low_zero_def Let_def same_ports_low [OF stop_same [OF
      same_ports_refl]]
    by (simp add: bridge_low_def access_defs rd_def wr_def clock_readback clock_kept mode_readback
      mode_kept
        output_cleared output_kept port_clocked_def port_clock_def clocks replaced_field masks
          cleared_field)
  show "\<not> br_initialized (board_bridge_force_low_zero bus s)"
    "br_period_counts (board_bridge_force_low_zero bus s) = 0"
    by (simp_all add: board_bridge_force_low_zero_def Let_def tim3_bridge_pwm_stop_def access_defs)
qed

lemma pwm_init_fails_low:
  assumes "board_bridge_pwm_init bus f s = (False, s')"
  shows "bridge_low bus (br_hw s')" "\<not> br_initialized s'"
proof -
  let ?l = "board_bridge_force_low_zero bus s"
  obtain ok s1 where init: "tim3_bridge_pwm_init bus f ?l = (ok, s1)" by fastforce
  have "same_ports bus (br_hw ?l) (br_hw s1)"
    using init_same [OF same_ports_refl, of ?l f] init by simp
  then have low: "bridge_low bus (br_hw s1)" using force_low(1)
    [of s] by (simp only: same_ports_low)
  have i: "br_initialized s1 = ok" using init_result [of bus f ?l] init by simp
  have "bridge_low bus (br_hw s') \<and> \<not> br_initialized s'"
  proof (cases ok)
    case False
    with assms have "s' = s1" by (simp add: board_bridge_pwm_init_def init)
    with low i False show ?thesis by simp
  next
    case True
    then obtain s2 where "s' = board_bridge_force_low_zero bus s2"
      using assms unfolding board_bridge_pwm_init_def init Let_def by (auto split: if_splits)
    then show ?thesis by (simp add: force_low)
  qed
  then show "bridge_low bus (br_hw s')" "\<not> br_initialized s'" by simp_all
qed

end

text \<open>
  A stopped driver does nothing: every operation but the initialisation returns without touching the
  hardware.
\<close>

lemma stopped_driver:
  assumes "\<not> br_initialized s"
  shows "tim3_bridge_pwm_stage_duties bus d s = (False, s)" "tim3_bridge_pwm_zero bus s = (False,
    s)"
    "tim3_bridge_pwm_stage_bootstrap_probe bus s = (False, s)"
    "tim3_bridge_pwm_set_update_handler bus f s = (False, s)"
    "tim3_bridge_pwm_update_irq_enable bus e s = (False, s)"
  using assms by (simp_all add: tim3_bridge_pwm_stage_duties_def tim3_bridge_pwm_zero_def
      tim3_bridge_pwm_stage_bootstrap_probe_def tim3_bridge_pwm_set_update_handler_def
      tim3_bridge_pwm_update_irq_enable_def split: option.split)

section \<open>Duties\<close>

lemma duty_compares_exact:
  assumes "duty_compares period duties = Some compares"
  shows "length compares = length duties \<and> (\<forall>i < length duties. duties ! i \<le> 1000 \<and>
    compares ! i \<le> period \<and>
      \<bar>uint (compares ! i) * 1000 - uint period * uint (duties ! i)\<bar> \<le> 500)"
  using assms
proof (induction duties arbitrary: compares)
  case (Cons duty duties)
  let ?c = "(ucast period * ucast duty + 500) div 1000 :: u32"
  from Cons.prems obtain rest where ok: "duty \<le> 1000" "?c \<le> ucast period"
      "duty_compares period duties = Some rest" "compares = ucast ?c # rest"
    by (auto simp: Let_def not_less split: if_splits)
  have small: "uint period * uint duty + 500 < 2 ^ 32"
  proof -
    have "uint period * uint duty \<le> 65535 * 1000"
      using ok(1) uint16_range [of period] by (intro mult_mono) (simp_all add: word_le_def)
    then show ?thesis by simp
  qed
  have c: "uint ?c = (uint period * uint duty + 500) div 1000"
    using small by (simp add: uint_div uint_word_ariths)
  then have "(uint period * uint duty + 500) div 1000 \<le> uint period"
    using ok(2) by (simp add: word_le_def)
  moreover from this have "take_bit 16 ((uint period * uint duty + 500) div 1000) =
    (uint period * uint duty + 500) div 1000"
    using uint16_range [of period] by (intro take_bit_int_eq_self)
      (simp_all add: pos_imp_zdiv_nonneg_iff)
  ultimately have "uint (ucast ?c :: u16) = (uint period * uint duty + 500)
    div 1000" "ucast ?c \<le> period"
    using c by (simp_all add: word_le_def unsigned_ucast_eq)
  then have head: "ucast ?c \<le> period" "\<bar>uint (ucast ?c :: u16) * 1000 - uint period * uint duty\<bar> \<le>
    500"
    using div_mult_bounds [of 1000 "uint period * uint duty + 500"] by simp_all
  then show ?case
    using Cons.IH [OF ok(3)] ok(1,4) by (simp add: nth_Cons split: nat.split)
qed simp

lemma duty_compares_refuses: "(\<exists>i < length duties. 1000 < duties ! i) \<Longrightarrow>
  duty_compares period duties = None"
proof (induction duties)
  case (Cons duty duties)
  then obtain i where "i < length (duty # duties)" "1000 < (duty # duties) ! i" by blast
  with Cons.IH show ?case by (cases i) (auto simp: Let_def)
qed simp

text \<open>The compare registers hold a duty vector: each the period times the duty, to the nearest
  tick.\<close>

definition compares_staged :: "'h mcu_bus \<Rightarrow> u16 list \<Rightarrow> 'h bridge \<Rightarrow> bool" where
  "compares_staged bus duties s \<longleftrightarrow> (\<forall>i < 4.
     rd16 bus ([CCDAT1, CCDAT2, CCDAT3, CCDAT4] ! i) s \<le> br_period_counts s \<and>
     \<bar>uint (rd16 bus ([CCDAT1, CCDAT2, CCDAT3, CCDAT4] ! i) s) * 1000
        - uint (br_period_counts s) * uint (duties ! i)\<bar> \<le> 500)"

text \<open>
  The staged duties are exact. If staging a four-channel duty vector succeeds, every duty is at
  most 1000 permille and the timer's compare registers, read back, hold the period times the duty
  rounded to the nearest tick, never more than the period. A vector with a duty above 1000 permille
  is refused without touching the hardware.
\<close>

theorem stage_duties_exact:
  assumes "tim3_bridge_pwm_stage_duties bus (Some duties) s = (ok, s')" and "length duties = 4"
  shows "(ok \<longrightarrow> (\<forall>i < 4. duties ! i \<le> 1000 \<and>
      rd16 bus ([CCDAT1, CCDAT2, CCDAT3, CCDAT4] ! i) s' \<le> br_period_counts s \<and>
      \<bar>uint (rd16 bus ([CCDAT1, CCDAT2, CCDAT3, CCDAT4] ! i) s') * 1000
         - uint (br_period_counts s) * uint (duties ! i)\<bar> \<le> 500)) \<and>
    ((\<exists>i < 4. 1000 < duties ! i) \<longrightarrow> \<not> ok \<and> s' = s)"
proof (cases "duty_compares (br_period_counts s) duties")
  case None
  with assms show ?thesis by (auto simp: tim3_bridge_pwm_stage_duties_def split: if_splits)
next
  case (Some compares)
  then have no: "\<not> (\<exists>i < 4. 1000 < duties ! i)" using duty_compares_refuses [of duties] assms(2)
    by fastforce
  have "rd16 bus ([CCDAT1, CCDAT2, CCDAT3, CCDAT4] ! i) s' = compares ! i" if ok "i < 4" for i
  proof -
    have "i = 0 \<or> i = 1 \<or> i = 2 \<or> i = 3" using that(2) by auto
    then show ?thesis
      using assms(1) that(1) Some
      by (auto simp: tim3_bridge_pwm_stage_duties_def Let_def duty_compares_match_def split:
        if_splits)
  qed
  then show ?thesis using duty_compares_exact [OF Some] no assms(2) by auto
qed

lemma stage_compares:
  assumes "tim3_bridge_pwm_stage_duties bus (Some duties) s = (True, s')" and "length duties = 4"
  shows "compares_staged bus duties s'"
proof -
  have "br_period_counts s' = br_period_counts s"
    using assms(1) by (auto simp: tim3_bridge_pwm_stage_duties_def Let_def access_defs
      split: option.splits if_splits)
  then show ?thesis using stage_duties_exact [OF assms] by (simp add: compares_staged_def)
qed

section \<open>Any sequence of driver calls\<close>

datatype bridge_call = Stage_Duties "u16 list" | Pwm_Zero | Stage_Probe | Install_Handler
  "pwm_update_handler ptr"
  | Irq_Enable bool | Timer_Interrupt | Timer_Init u32 | Force_Low | Pwm_Init u32

fun call_bridge :: "'h mcu_bus \<Rightarrow> 'h bridge \<Rightarrow> bridge_call \<Rightarrow> 'h bridge" where
  "call_bridge bus s (Stage_Duties d) = snd (tim3_bridge_pwm_stage_duties bus (Some d) s)"
| "call_bridge bus s Pwm_Zero = snd (tim3_bridge_pwm_zero bus s)"
| "call_bridge bus s Stage_Probe = snd (tim3_bridge_pwm_stage_bootstrap_probe bus s)"
| "call_bridge bus s (Install_Handler f) = snd (tim3_bridge_pwm_set_update_handler bus f s)"
| "call_bridge bus s (Irq_Enable e) = snd (tim3_bridge_pwm_update_irq_enable bus e s)"
| "call_bridge bus s Timer_Interrupt = snd (TIM3_IRQHandler bus s)"
| "call_bridge bus s (Timer_Init f) = snd (tim3_bridge_pwm_init bus f s)"
| "call_bridge bus s Force_Low = board_bridge_force_low_zero bus s"
| "call_bridge bus s (Pwm_Init f) = snd (board_bridge_pwm_init bus f s)"

context gpio_ports
begin

lemma call_bridge_low:
  assumes "bridge_low bus (br_hw s)" "\<not> bridge_low bus (br_hw (call_bridge bus s e))"
  obtains f where "e = Pwm_Init f" "fst (board_bridge_pwm_init bus f s)"
proof (cases e)
  case (Pwm_Init f)
  moreover have "fst (board_bridge_pwm_init bus f s)"
    using pwm_init_fails_low(1) [of f s "snd (board_bridge_pwm_init bus f s)"] assms(2) Pwm_Init
    by (cases "board_bridge_pwm_init bus f s") auto
  ultimately show ?thesis using that by blast
next
  case Force_Low
  with assms force_low(1) show ?thesis by simp
qed (use assms in \<open>simp_all add: driver_low\<close>)

end

text \<open>
  C9. Once forced low, the bridge stays low until it is deliberately initialised. On any
  microcontroller whose ports work as documented, forcing the bridge low leaves all four command
    pins
  driven low, whatever state the ports and the timer were in; if after any further sequence of
    driver
  calls and timer interrupts they are not, then one of the calls was a board-level PWM
  initialisation that succeeded.
\<close>

theorem bridge_stays_low:
  assumes "gpio_ports bus"
  shows "bridge_low bus (br_hw (foldl (call_bridge bus) (board_bridge_force_low_zero bus s) es)) \<or>
    (\<exists>as f bs. es = as @ Pwm_Init f # bs \<and>
      fst (board_bridge_pwm_init bus f (foldl (call_bridge bus) (board_bridge_force_low_zero bus s)
        as)))"
proof (cases "bridge_low bus (br_hw (foldl (call_bridge bus) (board_bridge_force_low_zero bus s)
  es))")
  case False
  let ?s = "board_bridge_force_low_zero bus s"
  note False
  moreover have "\<not> \<not> bridge_low bus (br_hw ?s)" using gpio_ports.force_low(1) [OF assms] by simp
  ultimately obtain as e bs where
    split: "es = as @ e # bs" "bridge_low bus (br_hw (foldl (call_bridge bus) ?s as))"
    "\<not> bridge_low bus (br_hw (call_bridge bus (foldl (call_bridge bus) ?s as) e))"
    using run_crossing [where Q = "\<lambda>s. \<not> bridge_low bus (br_hw s)" and f = "call_bridge bus" and s =
      ?s and es = es]
    by auto
  from gpio_ports.call_bridge_low [OF assms split(2,3)] show ?thesis using split(1) by metis
qed simp

section \<open>A register file\<close>

text \<open>The documented behaviour of the registers the driver uses, as an executable model.\<close>

fun file_write :: "(mcu_register \<Rightarrow> u32) \<Rightarrow> mcu_register \<Rightarrow> u32 \<Rightarrow> mcu_register \<Rightarrow> u32" where
  "file_write h (GPIO p r) v =
     (if h RCC_APB2PCLKEN AND port_clock p = 0 then h
      else case r of
        PBC \<Rightarrow> h(GPIO p POD := h (GPIO p POD) AND NOT v)
      | PBSC \<Rightarrow> h(GPIO p POD := (h (GPIO p POD) AND NOT (drop_bit 16 v)) OR (v AND 0xFFFF))
      | _ \<Rightarrow> h(GPIO p r := v))"
| "file_write h (TIM3 r) v =
     (if h RCC_APB1PCLKEN AND RCC_APB1PCLKEN_TIM3EN = 0 then h
      else case r of
        STS \<Rightarrow> h(TIM3 STS := h (TIM3 STS) AND v)
      | EVTGEN \<Rightarrow> h(TIM3 STS := h (TIM3 STS) OR v, TIM3 CNT := 0)
      | _ \<Rightarrow> h(TIM3 r := v))"
| "file_write h r v = h(r := v)"

definition register_file :: "(mcu_register \<Rightarrow> u32) mcu_bus" where
  "register_file = \<lparr>reg_read = \<lambda>h r. h r, reg_write = file_write, nvic_tim3 = \<lambda>h op. h\<rparr>"

interpretation ports: gpio_ports register_file
proof
  fix h :: "mcu_register \<Rightarrow> u32" and v r p op
  show "reg_read register_file (reg_write register_file h RCC_APB2PCLKEN v) RCC_APB2PCLKEN = v"
    by (simp add: register_file_def)
  show "reg_read register_file (reg_write register_file h r v) RCC_APB2PCLKEN =
    reg_read register_file h RCC_APB2PCLKEN"
    if "r \<noteq> RCC_APB2PCLKEN"
    using that by (cases "(h, r, v)" rule: file_write.cases)
      (auto simp: register_file_def split: gpio_register.split tim_register.split)
  show "reg_read register_file (reg_write register_file h (GPIO p PMODE) v) (GPIO p PMODE) = v"
    if "port_clocked register_file p h"
    using that by (simp add: register_file_def port_clocked_def)
  show "reg_read register_file (reg_write register_file h r v) (GPIO p PMODE) =
    reg_read register_file h (GPIO p PMODE)"
    if "r \<noteq> GPIO p PMODE"
    using that by (cases "(h, r, v)" rule: file_write.cases)
      (auto simp: register_file_def split: gpio_register.split tim_register.split)
  show "reg_read register_file (reg_write register_file h (GPIO p PBC) v) (GPIO p POD)
      = reg_read register_file h (GPIO p POD) AND NOT v"
    if "port_clocked register_file p h"
    using that by (simp add: register_file_def port_clocked_def)
  show "reg_read register_file (reg_write register_file h r v) (GPIO p POD) =
    reg_read register_file h (GPIO p POD)"
    if "r \<notin> {GPIO p POD, GPIO p PBC, GPIO p PBSC}"
    using that by (cases "(h, r, v)" rule: file_write.cases)
      (auto simp: register_file_def split: gpio_register.split tim_register.split)
  show "reg_read register_file (nvic_tim3 register_file h op) r = reg_read register_file h r"
    by (simp add: register_file_def)
qed

text \<open>The state a successful initialisation at 48 MHz leaves in the registers that matter for
  staging.\<close>

definition ready_bridge :: "(mcu_register \<Rightarrow> u32) bridge" where
  "ready_bridge = \<lparr>br_hw = (\<lambda>_. 0)(RCC_APB1PCLKEN := RCC_APB1PCLKEN_TIM3EN, RCC_APB2PCLKEN := 12,
       TIM3 CTRL1 := 0x81, TIM3 CTRL2 := 0x20, TIM3 CCEN := 0x1111, TIM3 AR := 2399,
       GPIO GPIOA PMODE := 0xA000, GPIO GPIOB PMODE := 0xA),
     br_period_counts = 2400, br_initialized = True, br_update_handler = Some PWM_UPDATE_EVENT\<rparr>"

theorem stage_duties_exact_witness:
  "\<exists>s'. tim3_bridge_pwm_stage_duties register_file (Some [0, 333, 500, 1000]) ready_bridge = (True,
    s') \<and>
     \<bar>uint (rd16 register_file CCDAT2 s') * 1000 - 2400 * 333\<bar> \<le> 500 \<and>
     tim3_bridge_pwm_stage_duties register_file (Some [0, 1001, 500, 1000]) ready_bridge = (False,
       ready_bridge)"
proof -
  obtain ok s' where a: "tim3_bridge_pwm_stage_duties register_file (Some [0, 333, 500, 1000])
    ready_bridge = (ok, s')"
    by fastforce
  obtain ok2 s2 where b: "tim3_bridge_pwm_stage_duties register_file (Some [0, 1001, 500, 1000])
    ready_bridge = (ok2, s2)"
    by fastforce
  have ok: ok
    using a by (auto simp: tim3_bridge_pwm_stage_duties_def ready_bridge_def register_file_def
      Let_def rd_def rd16_def
        wr16_def wr_def write_duty_compares_def duty_compares_match_def RCC_APB1PCLKEN_TIM3EN_def
        TIM_CTRL1_CNTEN_def ALL_CHANNEL_OUTPUTS_ENABLED_def)
  have p: "br_period_counts ready_bridge = 2400" by (simp add: ready_bridge_def)
  have "\<bar>uint (rd16 register_file CCDAT2 s') * 1000 - 2400 * 333\<bar> \<le> 500"
    using stage_duties_exact [OF a] ok p by (auto dest: spec [of _ 1])
  moreover have "\<exists>i<4. (1000 :: u16) < [0, 1001, 500, 1000] ! i" by (rule exI [of _ 1]) simp
  then have "\<not> ok2 \<and> s2 = ready_bridge" using stage_duties_exact [OF b] by simp
  ultimately show ?thesis using a b ok by simp
qed

theorem bridge_stays_low_witness:
  "bridge_low register_file (br_hw (foldl (call_bridge register_file)
     (board_bridge_force_low_zero register_file ready_bridge)
     [Stage_Duties [1000, 1000, 1000, 1000], Stage_Probe, Timer_Interrupt, Timer_Init 48000000,
       Pwm_Zero]))"
  using bridge_stays_low [OF ports.gpio_ports_axioms, of ready_bridge
      "[Stage_Duties [1000, 1000, 1000, 1000], Stage_Probe, Timer_Interrupt, Timer_Init 48000000,
        Pwm_Zero]"]
  by (auto simp: Cons_eq_append_conv simp del: foldl.simps)

end
