(* ===== verification/Loop_Backend.thy ===== *)
theory Loop_Backend
  imports Current_Loop Phase_Predictor Bridge_Pwm
begin

text \<open>
  The current loop backend, \<open>firmware/src/platform/current_loop_backend.c\<close>: it owns the regulator,
  the phase predictor and the bridge, runs the regulator in the ADC interrupt,
    guards it from the PWM
  update interrupt, and latches every fault with the bridge forced low. Its static variables are the
  fields of one record, which also holds the bridge driver and the microcontroller. The ADC driver,
  the clock and the cycle counter are parameters (record \<open>platform\<close>), so that everything proved here
  holds for every behaviour of theirs that leaves the ports alone. A call runs as one step, as the
  code masks interrupts around most of its state changes; \<open>current_loop_backend_start\<close> checks for
  faults and stages its zero duties before it masks them, and \<open>current_loop_backend_stop\<close> zeroes the
  bridge after it has unmasked them, and an interrupt inside these stretches is not modelled. The
  ADC event, which runs unmasked, can be preempted by the guardian before its second look at the
  active flag, before it stages the duties and before it publishes the output, not in the middle of
  the regulator's arithmetic.
\<close>

section \<open>Data\<close>

datatype adc1_status = ADC1_STATUS_OK | ADC1_STATUS_INVALID_ARGUMENT | ADC1_STATUS_NOT_READY
  | ADC1_STATUS_UNSUPPORTED_CLOCK | ADC1_STATUS_CLOCK_TIMEOUT | ADC1_STATUS_POWER_TIMEOUT
  | ADC1_STATUS_CALIBRATION_TIMEOUT | ADC1_STATUS_BUSY | ADC1_STATUS_CONVERSION_TIMEOUT
  | ADC1_STATUS_DATA_OUT_OF_RANGE | ADC1_STATUS_DMA_ERROR | ADC1_STATUS_NO_SAMPLE

record adc1_current_snapshot =
  as_current_b_raw :: u16
  as_current_a_raw :: u16
  as_trigger_timer_count :: u16
  as_trigger_to_dma_timer_ticks :: u16
  as_dma_entry_cycle_count :: u32
  as_timing_valid :: bool

definition CURRENT_LOOP_BACKEND_FAULT_NONE :: u32 where "CURRENT_LOOP_BACKEND_FAULT_NONE = 0"
definition CURRENT_LOOP_BACKEND_FAULT_PHASE_MASK :: u32 where "CURRENT_LOOP_BACKEND_FAULT_PHASE_MASK
  = 0x0000FFFF"
definition CURRENT_LOOP_BACKEND_FAULT_ADC :: u32 where "CURRENT_LOOP_BACKEND_FAULT_ADC = 0x00010000"
definition CURRENT_LOOP_BACKEND_FAULT_PWM :: u32 where "CURRENT_LOOP_BACKEND_FAULT_PWM = 0x00020000"
definition CURRENT_LOOP_BACKEND_FAULT_DEADLINE :: u32 where "CURRENT_LOOP_BACKEND_FAULT_DEADLINE =
  0x00040000"
definition CURRENT_LOOP_BACKEND_FAULT_INTERNAL :: u32 where "CURRENT_LOOP_BACKEND_FAULT_INTERNAL =
  0x00080000"
definition CURRENT_LOOP_BACKEND_FAULT_PHASE_PREDICTION :: u32 where
  "CURRENT_LOOP_BACKEND_FAULT_PHASE_PREDICTION = 0x00100000"
definition CURRENT_LOOP_BACKEND_FAULT_BOOTSTRAP_VBUS :: u32 where
  "CURRENT_LOOP_BACKEND_FAULT_BOOTSTRAP_VBUS = 0x00200000"
definition CURRENT_LOOP_BACKEND_TRACE_CAPACITY :: u16 where "CURRENT_LOOP_BACKEND_TRACE_CAPACITY =
  256"
definition CURRENT_LOOP_BACKEND_BOOTSTRAP_MAX_DURATION_MS :: u32 where
  "CURRENT_LOOP_BACKEND_BOOTSTRAP_MAX_DURATION_MS = 5000"
definition CURRENT_LOOP_BACKEND_BOOTSTRAP_VBUS_MIN_RAW :: u16 where
  "CURRENT_LOOP_BACKEND_BOOTSTRAP_VBUS_MIN_RAW = 757"
definition CURRENT_LOOP_BACKEND_BOOTSTRAP_VBUS_MAX_RAW :: u16 where
  "CURRENT_LOOP_BACKEND_BOOTSTRAP_VBUS_MAX_RAW = 1059"
definition CURRENT_LOOP_BACKEND_BOOTSTRAP_ENTRY_CURRENT_COUNTS :: int where
  "CURRENT_LOOP_BACKEND_BOOTSTRAP_ENTRY_CURRENT_COUNTS = 10"
definition MAX_CONSECUTIVE_EMPTY_PWM_UPDATES :: u32 where "MAX_CONSECUTIVE_EMPTY_PWM_UPDATES = 1"
definition CURRENT_LOOP_STEP_US :: u64 where "CURRENT_LOOP_STEP_US = 50"
definition BOOTSTRAP_TICKS_PER_MS :: u32 where "BOOTSTRAP_TICKS_PER_MS = 20"
definition BOOTSTRAP_VBUS_LEASE_TICKS :: u32 where "BOOTSTRAP_VBUS_LEASE_TICKS = 600"
definition QUARTER_CYCLE_PHASE_Q32 :: u32 where "QUARTER_CYCLE_PHASE_Q32 = 0x40000000"

datatype current_loop_phase_prediction_reject = CURRENT_LOOP_PHASE_PREDICTION_REJECT_NONE
  | CURRENT_LOOP_PHASE_PREDICTION_REJECT_OBSERVATION_INVALID |
    CURRENT_LOOP_PHASE_PREDICTION_REJECT_STALE
  | CURRENT_LOOP_PHASE_PREDICTION_REJECT_REFERENCE_RANGE |
    CURRENT_LOOP_PHASE_PREDICTION_REJECT_REFERENCE_MAPPING

datatype current_loop_backend_controller = CURRENT_LOOP_BACKEND_CONTROLLER_STATIONARY
  | CURRENT_LOOP_BACKEND_CONTROLLER_ROTATING_FRAME | CURRENT_LOOP_BACKEND_CONTROLLER_COUNT

record current_loop_backend_trace_sample =
  tr_loop_sample_count :: u32
  tr_current_a_reference_counts :: i16
  tr_current_b_reference_counts :: i16
  tr_current_a_measured_counts :: i16
  tr_current_b_measured_counts :: i16
  tr_phase_a_voltage_permille :: i16
  tr_phase_b_voltage_permille :: i16
  tr_predicted_electrical_phase_q32 :: u32
  tr_phase_prediction_age_us :: u16
  tr_trigger_timer_count :: u16
  tr_trigger_to_dma_timer_ticks :: u16
  tr_dma_to_pwm_stage_cycles :: u16
  tr_dma_to_trace_record_cycles :: u16
  tr_pwm_preload_margin_ticks :: u16

record 'h platform =
  pf_bus :: "'h mcu_bus"
  pf_adc1_set_current_timing_capture :: "bool \<Rightarrow> 'h \<Rightarrow> bool \<times> 'h"
  pf_adc1_set_current_event_handler :: "'h \<Rightarrow> bool \<times> 'h"
  pf_adc1_restart_pwm_synchronized_current :: "'h \<Rightarrow> adc1_status \<times> 'h"
  pf_adc1_read_synchronized_current :: "'h \<Rightarrow> (adc1_status \<times> adc1_current_snapshot) \<times> 'h"
  pf_timebase_micros :: "'h \<Rightarrow> u32 \<times> 'h"
  pf_cycle_counter_init :: "'h \<Rightarrow> bool \<times> 'h"
  pf_cycle_counter_read :: "'h \<Rightarrow> u32"
  pf_apb1_timer_clock_hz :: "'h \<Rightarrow> u32"

record 'h loop_backend =
  cb_bridge :: "'h bridge"
  cb_config :: phase_current_loop_config
  cb_phase_predictor_config :: electrical_phase_predictor_config
  cb_loop :: phase_current_loop
  cb_phase_predictor :: electrical_phase_predictor
  cb_fault_flags :: u32
  cb_sample_count :: u32
  cb_output_generation :: u32
  cb_last_reference_a_counts :: i16
  cb_last_reference_b_counts :: i16
  cb_aligned_q_reference_counts :: i16
  cb_predicted_electrical_phase_q32 :: u32
  cb_phase_prediction_age_us :: u32
  cb_maximum_observed_phase_prediction_age_us :: u32
  cb_rejected_phase_prediction_age_us :: u32
  cb_guardian_generation :: u32
  cb_guardian_empty_updates :: u32
  cb_guardian_missed_update_count :: u32
  cb_guardian_maximum_empty_updates :: u32
  cb_phase_prediction_reject_reason :: current_loop_phase_prediction_reject
  cb_rotating_reference_controller_mode :: current_loop_backend_controller
  cb_initialized :: bool
  cb_active :: bool
  cb_bootstrap_probe_active :: bool
  cb_bootstrap_probe_completed :: bool
  cb_bootstrap_probe_staged :: bool
  cb_bootstrap_remaining_ticks :: u32
  cb_bootstrap_vbus_lease_ticks :: u32
  cb_phase_prediction_active :: bool
  cb_rotating_reference_active :: bool
  cb_guardian_primed :: bool
  cb_rotating_reference :: rotating_current_test
  cb_latest_output :: phase_current_loop_output
  cb_trace :: "current_loop_backend_trace_sample list"
  cb_trace_count :: u16
  cb_trace_armed :: bool

section \<open>Access to the hardware\<close>

definition on_hw :: "('h \<Rightarrow> 'r \<times> 'h) \<Rightarrow> 'h loop_backend \<Rightarrow> 'r \<times> 'h loop_backend" where
  "on_hw f s = (case f (br_hw (cb_bridge s)) of
     (r, h) \<Rightarrow> (r, s\<lparr>cb_bridge := (cb_bridge s)\<lparr>br_hw := h\<rparr>\<rparr>))"

definition on_bridge :: "('h bridge \<Rightarrow> bool \<times> 'h bridge) \<Rightarrow> 'h loop_backend \<Rightarrow>
  bool \<times> 'h loop_backend" where
  "on_bridge f s = (case f (cb_bridge s) of (r, b) \<Rightarrow> (r, s\<lparr>cb_bridge := b\<rparr>))"

definition force_bridge_low :: "'h platform \<Rightarrow> 'h loop_backend \<Rightarrow> 'h loop_backend" where
  "force_bridge_low pf s = s\<lparr>cb_bridge := board_bridge_force_low_zero (pf_bus pf) (cb_bridge s)\<rparr>"

definition timing_capture_off :: "'h platform \<Rightarrow> 'h loop_backend \<Rightarrow> 'h loop_backend" where
  "timing_capture_off pf s = snd (on_hw (pf_adc1_set_current_timing_capture pf False) s)"

definition update_irq_off :: "'h platform \<Rightarrow> 'h loop_backend \<Rightarrow> 'h loop_backend" where
  "update_irq_off pf s = snd (on_bridge (tim3_bridge_pwm_update_irq_enable (pf_bus pf) False) s)"

definition stop_loop :: "'h loop_backend \<Rightarrow> 'h loop_backend" where
  "stop_loop s = s\<lparr>cb_loop := the (phase_current_loop_stop (Some (cb_loop s)))\<rparr>"

definition add_fault :: "u32 \<Rightarrow> 'h loop_backend \<Rightarrow> 'h loop_backend" where
  "add_fault fault s = s\<lparr>cb_fault_flags := cb_fault_flags s OR fault\<rparr>"

definition saturate_u16 :: "u32 \<Rightarrow> u16" where
  "saturate_u16 value = (if 65535 < value then 65535 else ucast value)"

text \<open>The fault the regulator reports, or an internal one if it reports none.\<close>

definition loop_fault :: "'h loop_backend \<Rightarrow> u32" where
  "loop_fault s = (let phase_fault = pl_fault_flags (cb_loop s)
    AND CURRENT_LOOP_BACKEND_FAULT_PHASE_MASK
     in if phase_fault \<noteq> 0 then phase_fault else CURRENT_LOOP_BACKEND_FAULT_INTERNAL)"

section \<open>Interrupts\<close>

definition fault_from_interrupt :: "'h platform \<Rightarrow> u32 \<Rightarrow> 'h loop_backend \<Rightarrow> 'h loop_backend" where
  "fault_from_interrupt pf fault s =
     (let s = s\<lparr>cb_active := False, cb_bootstrap_probe_active := False,
            cb_bootstrap_probe_completed := False, cb_rotating_reference_active := False,
            cb_trace_armed := False\<rparr>;
          s = timing_capture_off pf s;
          s = add_fault fault s;
          s = stop_loop s
      in force_bridge_low pf s)"

definition bootstrap_vbus_valid :: "u16 \<Rightarrow> bool" where
  "bootstrap_vbus_valid raw \<longleftrightarrow>
     CURRENT_LOOP_BACKEND_BOOTSTRAP_VBUS_MIN_RAW \<le> raw \<and>
       raw \<le> CURRENT_LOOP_BACKEND_BOOTSTRAP_VBUS_MAX_RAW"

definition bootstrap_probe_adc_event ::
  "'h platform \<Rightarrow> adc1_current_snapshot \<Rightarrow> 'h loop_backend \<Rightarrow> 'h loop_backend" where
  "bootstrap_probe_adc_event pf snapshot s =
     (if \<not> cb_active s \<or> \<not> cb_bootstrap_probe_active s then s
      else case phase_current_loop_measure_prevalidated (cb_loop s) (cb_config s)
                  (as_current_a_raw snapshot) (as_current_b_raw snapshot) zero_output of
        (ok, loop, output) \<Rightarrow>
          let s = s\<lparr>cb_loop := loop\<rparr>
          in if \<not> ok then
               fault_from_interrupt pf
                 (if pl_fault_flags (cb_loop s) \<noteq> 0 then pl_fault_flags (cb_loop s)
                  else CURRENT_LOOP_BACKEND_FAULT_INTERNAL) s
             else
               let (staged, s) =
                     (if \<not> cb_bootstrap_probe_staged s
                      then on_bridge (tim3_bridge_pwm_stage_bootstrap_probe (pf_bus pf)) s
                      else (True, s))
               in if \<not> staged then fault_from_interrupt pf CURRENT_LOOP_BACKEND_FAULT_PWM s
                  else s\<lparr>cb_bootstrap_probe_staged := True,
                         cb_latest_output := output\<lparr>po_duty_permille := replicate 4 1000\<rparr>,
                         cb_sample_count := cb_sample_count s + 1,
                         cb_output_generation := cb_output_generation s + 1\<rparr>)"

text \<open>The prediction with the reason for a refusal; outputs are the caller's initialised variables.\<close>

definition predict_aligned_phases ::
  "electrical_phase_predictor \<Rightarrow> u32 \<Rightarrow>
     bool \<times> u32 \<times> u32 \<times> u32 \<times> current_loop_phase_prediction_reject" where
  "predict_aligned_phases predictor now_us =
     (case electrical_phase_predictor_predict_horizons (Some predictor) now_us (Some 0) (Some 0)
       (Some 0) of
        (ok, sample, pwm, age) \<Rightarrow>
          (ok, the sample, the pwm, the age,
           if ok then CURRENT_LOOP_PHASE_PREDICTION_REJECT_NONE
           else if pp_initialized predictor \<and> pp_observation_valid predictor
           then CURRENT_LOOP_PHASE_PREDICTION_REJECT_STALE
           else CURRENT_LOOP_PHASE_PREDICTION_REJECT_OBSERVATION_INVALID))"

definition record_prediction_age :: "u32 \<Rightarrow> 'h loop_backend \<Rightarrow> 'h loop_backend" where
  "record_prediction_age age s = s\<lparr>cb_phase_prediction_age_us := age,
     cb_maximum_observed_phase_prediction_age_us :=
       (if cb_maximum_observed_phase_prediction_age_us s < age then age
        else cb_maximum_observed_phase_prediction_age_us s)\<rparr>"

definition record_prediction_rejection ::
  "current_loop_phase_prediction_reject \<Rightarrow> u32 \<Rightarrow> 'h loop_backend \<Rightarrow> 'h loop_backend" where
  "record_prediction_rejection reason age s =
     s\<lparr>cb_phase_prediction_reject_reason := reason, cb_rejected_phase_prediction_age_us := age\<rparr>"

text \<open>The guardian, in the PWM update interrupt.\<close>

definition finish_bootstrap_probe :: "'h platform \<Rightarrow> 'h loop_backend \<Rightarrow> 'h loop_backend" where
  "finish_bootstrap_probe pf s =
     (let s = stop_loop (s\<lparr>cb_active := False, cb_bootstrap_probe_active := False\<rparr>);
          (zeroed, s) = on_bridge (tim3_bridge_pwm_zero (pf_bus pf)) s;
          (ok, s) = (if zeroed then on_bridge (tim3_bridge_pwm_update_irq_enable (pf_bus pf) False)
            s
                     else (False, s))
      in if \<not> ok then fault_from_interrupt pf CURRENT_LOOP_BACKEND_FAULT_PWM s
         else s\<lparr>cb_latest_output := zero_output, cb_bootstrap_probe_completed := True\<rparr>)"

definition count_empty_update :: "'h loop_backend \<Rightarrow> 'h loop_backend" where
  "count_empty_update s =
     (let s = (if cb_guardian_empty_updates s \<noteq> 0xFFFFFFFF
               then s\<lparr>cb_guardian_empty_updates := cb_guardian_empty_updates s + 1\<rparr> else s);
          s = (if cb_guardian_missed_update_count s \<noteq> 0xFFFFFFFF
               then s\<lparr>cb_guardian_missed_update_count := cb_guardian_missed_update_count s + 1\<rparr> else
               s)
      in if cb_guardian_maximum_empty_updates s < cb_guardian_empty_updates s
         then s\<lparr>cb_guardian_maximum_empty_updates := cb_guardian_empty_updates s\<rparr> else s)"

definition guardian_check :: "'h platform \<Rightarrow> u32 \<Rightarrow> 'h loop_backend \<Rightarrow> 'h loop_backend" where
  "guardian_check pf generation s =
     (if \<not> cb_guardian_primed s
      then s\<lparr>cb_guardian_generation := generation, cb_guardian_primed := True\<rparr>
      else if generation = cb_guardian_generation s then
        let s = count_empty_update s
        in if MAX_CONSECUTIVE_EMPTY_PWM_UPDATES < cb_guardian_empty_updates s
           then fault_from_interrupt pf CURRENT_LOOP_BACKEND_FAULT_DEADLINE s else s
      else s\<lparr>cb_guardian_generation := generation, cb_guardian_empty_updates := 0\<rparr>)"

definition pwm_update_event :: "'h platform \<Rightarrow> 'h loop_backend \<Rightarrow> 'h loop_backend" where
  "pwm_update_event pf s =
     (let generation = cb_output_generation s
      in if \<not> cb_active s then s
         else if cb_bootstrap_probe_active s then
           (if cb_bootstrap_remaining_ticks s \<le> 1 then finish_bootstrap_probe pf s
            else
              let s = s\<lparr>cb_bootstrap_remaining_ticks := cb_bootstrap_remaining_ticks s - 1\<rparr>
              in if cb_bootstrap_vbus_lease_ticks s \<le> 1
                 then fault_from_interrupt pf CURRENT_LOOP_BACKEND_FAULT_BOOTSTRAP_VBUS s
                 else guardian_check pf generation
                        (s\<lparr>cb_bootstrap_vbus_lease_ticks := cb_bootstrap_vbus_lease_ticks s - 1\<rparr>))
         else guardian_check pf generation s)"

text \<open>
  The ADC event. First the references of the period: the d and q references, the phase at the sample
  and at the application, the age of the prediction, whether the rotating controller is used and
  whether the aligned reference is reported; or the state after a fault.
\<close>

record period_reference =
  pr_d :: i16
  pr_q :: i16
  pr_sample_phase :: u32
  pr_pwm_phase :: u32
  pr_age :: u32
  pr_rotating :: bool
  pr_aligned :: bool

definition rotating_reference_period ::
  "'h platform \<Rightarrow> 'h loop_backend \<Rightarrow> 'h loop_backend + (period_reference \<times> 'h loop_backend)" where
  "rotating_reference_period pf s =
     (let sample_phase = rt_phase (cb_rotating_reference s)
      in case rotating_current_test_step (Some (cb_rotating_reference s)) (Some 0) (Some 0) of
           (ok, g, a, b) \<Rightarrow>
             let s = s\<lparr>cb_rotating_reference := the g\<rparr>
             in if \<not> ok then Inl (fault_from_interrupt pf (loop_fault s) s)
                else if cb_rotating_reference_controller_mode s =
                CURRENT_LOOP_BACKEND_CONTROLLER_ROTATING_FRAME then
                  let lead_numerator = ucast (rt_phase_increment (cb_rotating_reference s)) *
                        ucast (pc_output_lead_us (cb_phase_predictor_config s)) :: u64;
                      pwm_phase = sample_phase +
                        ucast ((lead_numerator + CURRENT_LOOP_STEP_US div 2)
                        div CURRENT_LOOP_STEP_US)
                  in Inr (\<lparr>pr_d = rt_amplitude_counts (cb_rotating_reference s), pr_q = 0,
                        pr_sample_phase = sample_phase, pr_pwm_phase = pwm_phase, pr_age = 0,
                        pr_rotating = True, pr_aligned = False\<rparr>,
                      s\<lparr>cb_last_reference_a_counts := the a, cb_last_reference_b_counts := the b\<rparr>)
                else
                  case phase_current_loop_set_reference_counts_prevalidated (Some (cb_loop s))
                  (Some (cb_config s))
                         (the a) (the b) of
                    (accepted, loop) \<Rightarrow>
                      let s = s\<lparr>cb_loop := the loop\<rparr>
                      in if \<not> accepted then Inl (fault_from_interrupt pf (loop_fault s) s)
                         else Inr (\<lparr>pr_d = 0, pr_q = 0, pr_sample_phase = sample_phase,
                         pr_pwm_phase = 0,
                               pr_age = 0, pr_rotating = False, pr_aligned = False\<rparr>,
                             s\<lparr>cb_last_reference_a_counts := the a, cb_last_reference_b_counts :=
                             the b\<rparr>))"

definition aligned_reference_period ::
  "'h platform \<Rightarrow> 'h loop_backend \<Rightarrow> 'h loop_backend + (period_reference \<times> 'h loop_backend)" where
  "aligned_reference_period pf s =
     (let (now_us, s) = on_hw (pf_timebase_micros pf) s;
          (ok, sample_phase, pwm_phase, age, reason) = predict_aligned_phases (cb_phase_predictor s)
            now_us
      in if \<not> ok then Inl (fault_from_interrupt pf CURRENT_LOOP_BACKEND_FAULT_PHASE_PREDICTION
             (record_prediction_rejection reason age s))
         else Inr (\<lparr>pr_d = 0, pr_q = cb_aligned_q_reference_counts s, pr_sample_phase =
           sample_phase,
                 pr_pwm_phase = pwm_phase, pr_age = age, pr_rotating = True, pr_aligned = True\<rparr>,
                 s))"

definition period_references ::
  "'h platform \<Rightarrow> 'h loop_backend \<Rightarrow> 'h loop_backend + (period_reference \<times> 'h loop_backend)" where
  "period_references pf s =
     (if cb_rotating_reference_active s then rotating_reference_period pf s
      else if cb_phase_prediction_active s then aligned_reference_period pf s
      else Inr (\<lparr>pr_d = 0, pr_q = 0, pr_sample_phase = 0, pr_pwm_phase = 0, pr_age = 0,
             pr_rotating = False, pr_aligned = False\<rparr>, s))"

definition regulator_step ::
  "period_reference \<Rightarrow> adc1_current_snapshot \<Rightarrow> 'h loop_backend \<Rightarrow>
     bool \<times> phase_current_loop_output \<times> 'h loop_backend" where
  "regulator_step r snapshot s =
     (case (if pr_rotating r
            then phase_current_loop_step_rotating_prevalidated (Some (cb_loop s))
            (Some (cb_config s))
                   (as_current_a_raw snapshot) (as_current_b_raw snapshot) (pr_d r) (pr_q r)
                   (pr_sample_phase r) (pr_pwm_phase r) (Some zero_output)
            else phase_current_loop_step_prevalidated (Some (cb_loop s)) (Some (cb_config s))
                   (as_current_a_raw snapshot) (as_current_b_raw snapshot) (Some zero_output)) of
        (ok, loop, output) \<Rightarrow> (ok, the output, s\<lparr>cb_loop := the loop\<rparr>))"

text \<open>What follows a staged output: trace, reporting and the new generation.\<close>

definition trace_record ::
  "'h platform \<Rightarrow> adc1_current_snapshot \<Rightarrow> phase_current_loop_output \<Rightarrow> u32 \<Rightarrow> u16 \<Rightarrow>
     'h loop_backend \<Rightarrow> 'h loop_backend" where
  "trace_record pf snapshot output stage_cycles margin s =
     (let sample = \<lparr>tr_loop_sample_count = cb_sample_count s + 1,
            tr_current_a_reference_counts = cb_last_reference_a_counts s,
            tr_current_b_reference_counts = cb_last_reference_b_counts s,
            tr_current_a_measured_counts = po_current_a_measured_counts output,
            tr_current_b_measured_counts = po_current_b_measured_counts output,
            tr_phase_a_voltage_permille = po_phase_a_voltage_permille output,
            tr_phase_b_voltage_permille = po_phase_b_voltage_permille output,
            tr_predicted_electrical_phase_q32 = cb_predicted_electrical_phase_q32 s,
            tr_phase_prediction_age_us = saturate_u16 (cb_phase_prediction_age_us s),
            tr_trigger_timer_count = as_trigger_timer_count snapshot,
            tr_trigger_to_dma_timer_ticks = as_trigger_to_dma_timer_ticks snapshot,
            tr_dma_to_pwm_stage_cycles = saturate_u16 (stage_cycles - as_dma_entry_cycle_count
            snapshot),
            tr_dma_to_trace_record_cycles =
              saturate_u16 (pf_cycle_counter_read pf (br_hw (cb_bridge s))
              - as_dma_entry_cycle_count snapshot),
            tr_pwm_preload_margin_ticks = margin\<rparr>;
          s = s\<lparr>cb_trace := (cb_trace s)[unat (cb_trace_count s) := sample],
                cb_trace_count := cb_trace_count s + 1\<rparr>
      in if cb_trace_count s = CURRENT_LOOP_BACKEND_TRACE_CAPACITY
         then timing_capture_off pf (s\<lparr>cb_trace_armed := False\<rparr>) else s)"

definition publish_output ::
  "'h platform \<Rightarrow> period_reference \<Rightarrow> adc1_current_snapshot \<Rightarrow> phase_current_loop_output \<Rightarrow>
     'h loop_backend \<Rightarrow> 'h loop_backend" where
  "publish_output pf r snapshot output s =
     (let trace_armed = cb_trace_armed s;
          stage_cycles = (if trace_armed then pf_cycle_counter_read pf (br_hw (cb_bridge s))
            else 0);
          (margin_ok, margin) =
            (if trace_armed then tim3_bridge_pwm_get_preload_margin_ticks (pf_bus pf) (Some 0)
            (cb_bridge s)
             else (True, Some 0))
      in if \<not> margin_ok then fault_from_interrupt pf CURRENT_LOOP_BACKEND_FAULT_PWM s
         else
           let s = (if pr_aligned r
                    then record_prediction_age (pr_age r) (s\<lparr>cb_predicted_electrical_phase_q32 :=
                    pr_pwm_phase r\<rparr>)
                    else s);
               (mapped, a, b) =
                 (if trace_armed \<and> pr_aligned r
                  then phase_current_reference_from_polar (cb_aligned_q_reference_counts s)
                         (pr_pwm_phase r + QUARTER_CYCLE_PHASE_Q32) (Some 0) (Some 0)
                  else (True, Some (cb_last_reference_a_counts s),
                  Some (cb_last_reference_b_counts s)))
           in if \<not> mapped
              then fault_from_interrupt pf CURRENT_LOOP_BACKEND_FAULT_PHASE_PREDICTION
                     (record_prediction_rejection
                     CURRENT_LOOP_PHASE_PREDICTION_REJECT_REFERENCE_MAPPING (pr_age r) s)
              else
                let s = s\<lparr>cb_last_reference_a_counts := the a, cb_last_reference_b_counts := the b\<rparr>;
                    s = (if trace_armed \<and> cb_trace_count s < CURRENT_LOOP_BACKEND_TRACE_CAPACITY \<and>
                            as_timing_valid snapshot
                         then trace_record pf snapshot output stage_cycles (the margin) s else s)
                in s\<lparr>cb_latest_output := output, cb_sample_count := cb_sample_count s + 1,
                     cb_output_generation := cb_output_generation s + 1\<rparr>)"

definition preempt :: "'h platform \<Rightarrow> bool \<Rightarrow> 'h loop_backend \<Rightarrow> 'h loop_backend" where
  "preempt pf guardian s = (if guardian then pwm_update_event pf s else s)"

definition stage_output ::
  "'h platform \<Rightarrow> bool \<Rightarrow> bool \<Rightarrow> bool \<Rightarrow> period_reference \<Rightarrow> adc1_current_snapshot \<Rightarrow>
    phase_current_loop_output \<Rightarrow>
     'h loop_backend \<Rightarrow> 'h loop_backend" where
  "stage_output pf early late after r snapshot output s =
     (let s = preempt pf early s
      in if \<not> cb_active s then s
         else
           let s = preempt pf late s;
               (staged, s) = on_bridge (tim3_bridge_pwm_stage_duties (pf_bus pf)
               (Some (po_duty_permille output))) s
           in if \<not> staged then fault_from_interrupt pf CURRENT_LOOP_BACKEND_FAULT_PWM s
              else publish_output pf r snapshot output (preempt pf after s))"

definition adc_current_event ::
  "'h platform \<Rightarrow> bool \<Rightarrow> bool \<Rightarrow> bool \<Rightarrow> adc1_status \<Rightarrow> adc1_current_snapshot ptr \<Rightarrow> 'h loop_backend \<Rightarrow>
    'h loop_backend" where
  "adc_current_event pf early late after status snapshot s =
     (if status \<noteq> ADC1_STATUS_OK then fault_from_interrupt pf CURRENT_LOOP_BACKEND_FAULT_ADC s
      else if \<not> cb_active s then s
      else case snapshot of
        None \<Rightarrow> fault_from_interrupt pf CURRENT_LOOP_BACKEND_FAULT_INTERNAL s
      | Some snapshot \<Rightarrow>
          if cb_bootstrap_probe_active s \<or> cb_bootstrap_probe_completed s
          then bootstrap_probe_adc_event pf snapshot s
          else case period_references pf s of
            Inl s \<Rightarrow> s
          | Inr (r, s) \<Rightarrow>
              (case regulator_step r snapshot s of (ok, output, s) \<Rightarrow>
                 if \<not> ok then fault_from_interrupt pf (loop_fault s) (s\<lparr>cb_latest_output := output\<rparr>)
                 else stage_output pf early late after r snapshot output s))"

section \<open>Foreground calls\<close>

text \<open>The reset of the run-time variables shared by initialisation, reconfiguration and recovery.\<close>

definition reset_reporting :: "'h loop_backend \<Rightarrow> 'h loop_backend" where
  "reset_reporting s = s\<lparr>cb_latest_output := zero_output, cb_output_generation := 0,
     cb_last_reference_a_counts := 0, cb_last_reference_b_counts := 0,
       cb_aligned_q_reference_counts := 0,
     cb_predicted_electrical_phase_q32 := 0, cb_phase_prediction_age_us := 0,
     cb_maximum_observed_phase_prediction_age_us := 0, cb_rejected_phase_prediction_age_us := 0,
     cb_phase_prediction_reject_reason := CURRENT_LOOP_PHASE_PREDICTION_REJECT_NONE,
     cb_guardian_generation := 0, cb_guardian_empty_updates := 0, cb_guardian_missed_update_count :=
       0,
     cb_guardian_maximum_empty_updates := 0, cb_guardian_primed := False, cb_trace_count := 0,
     cb_phase_prediction_active := False, cb_rotating_reference_active := False\<rparr>"

definition reset_predictor :: "'h loop_backend \<Rightarrow> 'h loop_backend" where
  "reset_predictor s =
     s\<lparr>cb_phase_predictor := the (electrical_phase_predictor_reset (Some (cb_phase_predictor s)))\<rparr>"

text \<open>Initialisation of regulator, predictor and handlers, each only if those before succeeded.\<close>

definition init_loop :: "'h loop_backend \<Rightarrow> bool \<times> 'h loop_backend" where
  "init_loop s = (case phase_current_loop_init (Some (cb_loop s)) (Some (cb_config s)) of
     (ok, loop) \<Rightarrow> (ok, s\<lparr>cb_loop := the loop\<rparr>))"

definition init_predictor :: "'h loop_backend \<Rightarrow> bool \<times> 'h loop_backend" where
  "init_predictor s =
     (case electrical_phase_predictor_init (Some (cb_phase_predictor s))
       (Some (cb_phase_predictor_config s)) of
        (ok, predictor) \<Rightarrow> (ok, s\<lparr>cb_phase_predictor := the predictor\<rparr>))"

definition and_then ::
  "('h loop_backend \<Rightarrow> bool \<times> 'h loop_backend) \<Rightarrow> bool \<times> 'h loop_backend \<Rightarrow>
    bool \<times> 'h loop_backend" where
  "and_then f r = (if fst r then f (snd r) else r)"

definition install_update_handler :: "'h platform \<Rightarrow> 'h loop_backend \<Rightarrow> bool \<times> 'h loop_backend" where
  "install_update_handler pf =
     on_bridge (tim3_bridge_pwm_set_update_handler (pf_bus pf) (Some PWM_UPDATE_EVENT))"

definition clear_backend ::
  "'h platform \<Rightarrow> phase_current_loop_config \<Rightarrow> electrical_phase_predictor_config \<Rightarrow> 'h loop_backend \<Rightarrow>
    'h loop_backend" where
  "clear_backend pf config phase_predictor_config s =
     timing_capture_off pf (reset_reporting (s\<lparr>cb_config := config,
       cb_phase_predictor_config := phase_predictor_config,
       cb_fault_flags := CURRENT_LOOP_BACKEND_FAULT_NONE, cb_sample_count := 0,
       cb_rotating_reference_controller_mode := CURRENT_LOOP_BACKEND_CONTROLLER_STATIONARY,
       cb_trace_armed := False, cb_active := False, cb_bootstrap_probe_active := False,
       cb_bootstrap_probe_staged := False, cb_bootstrap_probe_completed := False,
       cb_bootstrap_remaining_ticks := 0, cb_bootstrap_vbus_lease_ticks := 0, cb_initialized :=
         False\<rparr>))"

definition attach_backend :: "'h platform \<Rightarrow> 'h loop_backend \<Rightarrow> bool \<times> 'h loop_backend" where
  "attach_backend pf s =
     and_then (install_update_handler pf)
       (and_then (on_hw (pf_adc1_set_current_event_handler pf))
         (and_then init_predictor (init_loop s)))"

definition current_loop_backend_init ::
  "'h platform \<Rightarrow> phase_current_loop_config ptr \<Rightarrow> electrical_phase_predictor_config ptr \<Rightarrow>
     'h loop_backend \<Rightarrow> bool \<times> 'h loop_backend" where
  "current_loop_backend_init pf config phase_predictor_config s =
     (if cb_initialized s \<or> \<not> phase_current_loop_config_is_valid config \<or>
         \<not> electrical_phase_predictor_config_is_valid phase_predictor_config then (False, s)
      else case attach_backend pf (clear_backend pf (the config) (the phase_predictor_config) s) of
        (True, s) \<Rightarrow> (True, s\<lparr>cb_initialized := True\<rparr>)
      | (False, s) \<Rightarrow> (False, s))"

definition set_loop_reference :: "i16 \<Rightarrow> i16 \<Rightarrow> 'h loop_backend \<Rightarrow> bool \<times> 'h loop_backend" where
  "set_loop_reference a b s =
     (case phase_current_loop_set_reference_counts (Some (cb_loop s)) (Some (cb_config s)) a b of
        (ok, loop) \<Rightarrow> (ok, s\<lparr>cb_loop := the loop\<rparr>))"

definition current_loop_backend_set_reference_counts ::
  "'h platform \<Rightarrow> i16 \<Rightarrow> i16 \<Rightarrow> 'h loop_backend \<Rightarrow> bool \<times> 'h loop_backend" where
  "current_loop_backend_set_reference_counts pf a b s =
     (if \<not> cb_initialized s \<or> cb_bootstrap_probe_active s \<or>
         cb_fault_flags s \<noteq> CURRENT_LOOP_BACKEND_FAULT_NONE then (False, s)
      else case set_loop_reference a b s of
        (True, s) \<Rightarrow>
          (True, (reset_predictor s)\<lparr>cb_phase_prediction_active := False,
            cb_rotating_reference_active := False,
             cb_aligned_q_reference_counts := 0, cb_predicted_electrical_phase_q32 := 0,
             cb_phase_prediction_age_us := 0, cb_last_reference_a_counts := a,
             cb_last_reference_b_counts := b\<rparr>)
      | (False, s) \<Rightarrow>
          let phase_fault = loop_fault s;
              s = timing_capture_off pf (s\<lparr>cb_active := False, cb_trace_armed := False\<rparr>)
          in (False, force_bridge_low pf (add_fault phase_fault s)))"

definition empty_rotating_test :: rotating_current_test where
  "empty_rotating_test = \<lparr>rt_phase = 0, rt_phase_increment = 0, rt_target_phase_increment = 0,
     rt_ramp_base_increment = 0, rt_ramp_remainder_increment = 0, rt_ramp_error = 0,
       rt_ramp_step_count = 0,
     rt_ramp_steps_elapsed = 0, rt_amplitude_counts = 0, rt_initialized = False\<rparr>"

definition current_loop_backend_set_rotating_reference ::
  "i16 \<Rightarrow> u32 \<Rightarrow> u32 \<Rightarrow> u64 \<Rightarrow> current_loop_backend_controller \<Rightarrow> 'h loop_backend \<Rightarrow>
     bool \<times> 'h loop_backend" where
  "current_loop_backend_set_rotating_reference amplitude_counts phase_increment_q32_per_step
     initial_phase_q32 ramp_step_count controller_mode s =
     (if \<not> cb_initialized s \<or> cb_active s \<or> cb_fault_flags s \<noteq> CURRENT_LOOP_BACKEND_FAULT_NONE \<or>
         controller_mode = CURRENT_LOOP_BACKEND_CONTROLLER_COUNT \<or>
         lc_reference_limit_counts (cb_config s) < amplitude_counts then (False, s)
      else case rotating_current_test_init (Some empty_rotating_test) amplitude_counts
                  phase_increment_q32_per_step initial_phase_q32 ramp_step_count of
        (False, candidate) \<Rightarrow> (False, s)
      | (True, candidate) \<Rightarrow>
          (case set_loop_reference 0 0 s of
             (False, s) \<Rightarrow> (False, s)
           | (True, s) \<Rightarrow>
               (True, (reset_predictor s)\<lparr>cb_rotating_reference := the candidate,
                  cb_rotating_reference_controller_mode := controller_mode,
                  cb_phase_prediction_active := False, cb_rotating_reference_active := True,
                  cb_aligned_q_reference_counts := 0, cb_predicted_electrical_phase_q32 := 0,
                  cb_phase_prediction_age_us := 0, cb_last_reference_a_counts := 0,
                  cb_last_reference_b_counts := 0\<rparr>)))"

text \<open>
  The candidate of an aligned reference: the predictor with the new observation,
    the phase and age of
  its first prediction and the mapped phase references, or the reason and age of its rejection.
\<close>

definition aligned_candidate ::
  "i16 \<Rightarrow> u32 \<Rightarrow> i32 \<Rightarrow> i8 \<Rightarrow> u32 \<Rightarrow> u32 \<Rightarrow> 'h loop_backend \<Rightarrow>
     (current_loop_phase_prediction_reject \<times> u32) + (electrical_phase_predictor \<times> u32 \<times> u32 \<times> i16 \<times>
       i16)" where
  "aligned_candidate q electrical_phase_q32 velocity encoder_direction encoder_timestamp_us now_us s
    =
     (if uint (lc_reference_limit_counts (cb_config s)) < \<bar>sint q\<bar>
      then Inl (CURRENT_LOOP_PHASE_PREDICTION_REJECT_REFERENCE_RANGE, 0)
      else case electrical_phase_predictor_set_observation (Some (cb_phase_predictor s))
        electrical_phase_q32
                  velocity encoder_direction encoder_timestamp_us of
        (False, _) \<Rightarrow> Inl (CURRENT_LOOP_PHASE_PREDICTION_REJECT_OBSERVATION_INVALID, 0)
      | (True, candidate) \<Rightarrow>
          (case predict_aligned_phases (the candidate) now_us of
             (ok, sample_phase, pwm_phase, age, reason) \<Rightarrow>
               if \<not> ok then Inl (reason, age)
               else case phase_current_reference_from_polar q (pwm_phase + QUARTER_CYCLE_PHASE_Q32)
                           (Some 0) (Some 0) of
                 (True, Some a, Some b) \<Rightarrow> Inr (the candidate, pwm_phase, age, a, b)
               | _ \<Rightarrow> Inl (CURRENT_LOOP_PHASE_PREDICTION_REJECT_REFERENCE_MAPPING, age)))"

definition current_loop_backend_set_aligned_q_reference ::
  "'h platform \<Rightarrow> i16 \<Rightarrow> u32 \<Rightarrow> i32 \<Rightarrow> i8 \<Rightarrow> u32 \<Rightarrow> 'h loop_backend \<Rightarrow> bool \<times> 'h loop_backend" where
  "current_loop_backend_set_aligned_q_reference pf q electrical_phase_q32 velocity encoder_direction
     encoder_timestamp_us s =
     (let (now_us, s) = on_hw (pf_timebase_micros pf) s
      in if \<not> cb_initialized s \<or> cb_bootstrap_probe_active s \<or>
            cb_fault_flags s \<noteq> CURRENT_LOOP_BACKEND_FAULT_NONE then (False, s)
         else case aligned_candidate q electrical_phase_q32 velocity encoder_direction
           encoder_timestamp_us now_us s of
           Inl (reason, age) \<Rightarrow>
             let s = record_prediction_rejection reason age s;
                 s = timing_capture_off pf (s\<lparr>cb_active := False, cb_trace_armed := False\<rparr>)
             in (False, force_bridge_low pf (add_fault CURRENT_LOOP_BACKEND_FAULT_PHASE_PREDICTION
             s))
         | Inr (candidate, pwm_phase, age, a, b) \<Rightarrow>
             (case set_loop_reference 0 q s of
                (False, s) \<Rightarrow>
                  let phase_fault = loop_fault s;
                      s = timing_capture_off pf (s\<lparr>cb_active := False, cb_trace_armed := False\<rparr>)
                  in (False, force_bridge_low pf (add_fault phase_fault s))
              | (True, s) \<Rightarrow>
                  (True, (record_prediction_age age
                     (s\<lparr>cb_phase_predictor := candidate, cb_phase_prediction_active := True,
                        cb_rotating_reference_active := False, cb_aligned_q_reference_counts := q,
                        cb_predicted_electrical_phase_q32 := pwm_phase\<rparr>))\<lparr>cb_last_reference_a_counts
                        := a,
                     cb_last_reference_b_counts := b\<rparr>)))"

definition current_loop_backend_start :: "'h platform \<Rightarrow> 'h loop_backend \<Rightarrow>
  bool \<times> 'h loop_backend" where
  "current_loop_backend_start pf s =
     (if \<not> cb_initialized s \<or> cb_active s \<or> cb_fault_flags s \<noteq> CURRENT_LOOP_BACKEND_FAULT_NONE
      then (False, s)
      else case on_bridge (tim3_bridge_pwm_stage_duties (pf_bus pf) (Some [0, 0, 0, 0])) s of
        (False, s) \<Rightarrow> (False, s)
      | (True, s) \<Rightarrow>
          let s = timing_capture_off pf (s\<lparr>cb_output_generation := 0, cb_guardian_generation := 0,
                cb_guardian_empty_updates := 0, cb_guardian_missed_update_count := 0,
                cb_guardian_maximum_empty_updates := 0, cb_guardian_primed := False,
                cb_trace_count := 0,
                cb_trace_armed := False\<rparr>);
              s = s\<lparr>cb_maximum_observed_phase_prediction_age_us := 0,
              cb_rejected_phase_prediction_age_us := 0,
                cb_phase_prediction_reject_reason := CURRENT_LOOP_PHASE_PREDICTION_REJECT_NONE\<rparr>
          in (case phase_current_loop_start (Some (cb_loop s)) of
                (False, loop) \<Rightarrow>
                  (False, force_bridge_low pf (add_fault CURRENT_LOOP_BACKEND_FAULT_INTERNAL
                  (s\<lparr>cb_loop := the loop\<rparr>)))
              | (True, loop) \<Rightarrow>
                  let s = s\<lparr>cb_loop := the loop, cb_bootstrap_probe_completed := False, cb_active :=
                  True\<rparr>;
                      (enabled, s) = on_bridge (tim3_bridge_pwm_update_irq_enable (pf_bus pf) True)
                      s
                  in if \<not> enabled then (False,
                  fault_from_interrupt pf CURRENT_LOOP_BACKEND_FAULT_PWM s)
                     else (True, s)))"

definition near_zero_current :: "u16 \<Rightarrow> u16 \<Rightarrow> bool" where
  "near_zero_current raw zero \<longleftrightarrow>
     - CURRENT_LOOP_BACKEND_BOOTSTRAP_ENTRY_CURRENT_COUNTS \<le> uint raw - uint zero \<and>
     uint raw - uint zero \<le> CURRENT_LOOP_BACKEND_BOOTSTRAP_ENTRY_CURRENT_COUNTS"

definition current_loop_backend_start_bootstrap_probe ::
  "'h platform \<Rightarrow> u32 \<Rightarrow> u16 \<Rightarrow> 'h loop_backend \<Rightarrow> bool \<times> 'h loop_backend" where
  "current_loop_backend_start_bootstrap_probe pf duration_millis vbus_raw s =
     (if duration_millis = 0 \<or> CURRENT_LOOP_BACKEND_BOOTSTRAP_MAX_DURATION_MS < duration_millis \<or>
         \<not> bootstrap_vbus_valid vbus_raw then (False, s)
      else if \<not> cb_initialized s \<or> cb_active s \<or> cb_bootstrap_probe_active s \<or> cb_fault_flags s \<noteq> 0
      then (False, s)
      else case on_hw (pf_adc1_read_synchronized_current pf) s of
        ((status, current), s) \<Rightarrow>
          if status \<noteq> ADC1_STATUS_OK then (False, s)
          else if \<not> near_zero_current (as_current_a_raw current)
            (lc_current_a_zero_raw (cb_config s)) \<or>
                  \<not> near_zero_current (as_current_b_raw current)
                  (lc_current_b_zero_raw (cb_config s))
          then (False, s)
          else case and_then (current_loop_backend_start pf)
            (current_loop_backend_set_reference_counts pf 0 0 s) of
            (False, s) \<Rightarrow> (False, s)
          | (True, s) \<Rightarrow>
              (True, s\<lparr>cb_bootstrap_probe_staged := False, cb_bootstrap_probe_completed := False,
                 cb_bootstrap_remaining_ticks := duration_millis * BOOTSTRAP_TICKS_PER_MS,
                 cb_bootstrap_vbus_lease_ticks := BOOTSTRAP_VBUS_LEASE_TICKS,
                 cb_bootstrap_probe_active := True\<rparr>))"

definition current_loop_backend_refresh_bootstrap_probe_vbus ::
  "'h platform \<Rightarrow> u16 \<Rightarrow> 'h loop_backend \<Rightarrow> bool \<times> 'h loop_backend" where
  "current_loop_backend_refresh_bootstrap_probe_vbus pf vbus_raw s =
     (if \<not> (cb_active s \<and> cb_bootstrap_probe_active s) then (False, s)
      else if bootstrap_vbus_valid vbus_raw
      then (True, s\<lparr>cb_bootstrap_vbus_lease_ticks := BOOTSTRAP_VBUS_LEASE_TICKS\<rparr>)
      else (False, fault_from_interrupt pf CURRENT_LOOP_BACKEND_FAULT_BOOTSTRAP_VBUS s))"

definition current_loop_backend_stop :: "'h platform \<Rightarrow> 'h loop_backend \<Rightarrow>
  bool \<times> 'h loop_backend" where
  "current_loop_backend_stop pf s =
     (if \<not> cb_initialized s then (False, s)
      else
        let fault_was_latched = (cb_fault_flags s \<noteq> CURRENT_LOOP_BACKEND_FAULT_NONE);
            was_bootstrap_probe = (cb_bootstrap_probe_active s \<or> cb_bootstrap_probe_completed s);
            s = timing_capture_off pf (s\<lparr>cb_active := False, cb_bootstrap_probe_active := False,
                  cb_bootstrap_probe_completed := False, cb_trace_armed := False\<rparr>);
            s = update_irq_off pf s;
            s = reset_predictor (stop_loop s);
            s = s\<lparr>cb_phase_prediction_active := False, cb_rotating_reference_active := False,
                  cb_aligned_q_reference_counts := 0, cb_predicted_electrical_phase_q32 := 0,
                  cb_phase_prediction_age_us := 0, cb_last_reference_a_counts := 0,
                  cb_last_reference_b_counts := 0\<rparr>
        in if fault_was_latched then (True, force_bridge_low pf s)
           else case on_bridge (tim3_bridge_pwm_zero (pf_bus pf)) s of
             (False, s) \<Rightarrow> (False, add_fault CURRENT_LOOP_BACKEND_FAULT_PWM (force_bridge_low pf s))
           | (True, s) \<Rightarrow> (True, if was_bootstrap_probe then s\<lparr>cb_latest_output :=
             zero_output\<rparr> else s))"

text \<open>Rebuilding the idle PWM binding: pins and timer, update handler, zero duties.\<close>

definition rebuild_pwm :: "'h platform \<Rightarrow> 'h loop_backend \<Rightarrow> bool \<times> 'h loop_backend" where
  "rebuild_pwm pf s =
     and_then (on_bridge (tim3_bridge_pwm_zero (pf_bus pf)))
       (and_then (install_update_handler pf)
         (on_bridge (board_bridge_pwm_init (pf_bus pf) (pf_apb1_timer_clock_hz pf (br_hw (cb_bridge
           s)))) s))"

definition current_loop_backend_reconfigure_gains ::
  "'h platform \<Rightarrow> i32 \<Rightarrow> i32 \<Rightarrow> 'h loop_backend \<Rightarrow> bool \<times> 'h loop_backend" where
  "current_loop_backend_reconfigure_gains pf kp ki s =
     (let candidate = (cb_config s)\<lparr>lc_proportional_gain_q16_per_count := kp,
            lc_integral_gain_q16_per_count_per_step := ki\<rparr>
      in if \<not> cb_initialized s \<or> \<not> phase_current_loop_config_is_valid (Some candidate) then (False,
        s)
         else case (phase_current_loop_init (Some (cb_loop s)) (Some candidate),
                    electrical_phase_predictor_init (Some (cb_phase_predictor s))
                    (Some (cb_phase_predictor_config s))) of
           ((loop_reset, new_loop), (predictor_reset, new_predictor)) \<Rightarrow>
             if \<not> loop_reset \<or> \<not> predictor_reset \<or> cb_active s \<or>
                cb_fault_flags s \<noteq> CURRENT_LOOP_BACKEND_FAULT_NONE then (False, s)
             else
               let s = timing_capture_off pf (s\<lparr>cb_trace_armed := False\<rparr>);
                   s = force_bridge_low pf (update_irq_off pf s);
                   (accepted, s) = rebuild_pwm pf s
               in if accepted
                  then (True, reset_reporting (s\<lparr>cb_config := candidate, cb_loop := the new_loop,
                          cb_phase_predictor := the new_predictor\<rparr>))
                  else (False, add_fault CURRENT_LOOP_BACKEND_FAULT_INTERNAL (force_bridge_low pf
                  s)))"

definition restart_adc :: "'h platform \<Rightarrow> 'h loop_backend \<Rightarrow> bool \<times> 'h loop_backend" where
  "restart_adc pf s = (case on_hw (pf_adc1_restart_pwm_synchronized_current pf) s of
     (status, s) \<Rightarrow> (status = ADC1_STATUS_OK, s))"

definition restart_backend :: "'h platform \<Rightarrow> 'h loop_backend \<Rightarrow> bool \<times> 'h loop_backend" where
  "restart_backend pf s =
     and_then (rebuild_pwm pf)
       (and_then (on_hw (pf_adc1_set_current_event_handler pf))
         (and_then (restart_adc pf) (and_then init_predictor (init_loop s))))"

definition current_loop_backend_recover ::
  "'h platform \<Rightarrow> u32 ptr \<Rightarrow> 'h loop_backend \<Rightarrow> bool \<times> u32 ptr \<times> 'h loop_backend" where
  "current_loop_backend_recover pf cleared_fault_flags s =
     (let none = map_option (\<lambda>_. CURRENT_LOOP_BACKEND_FAULT_NONE) cleared_fault_flags
      in if \<not> cb_initialized s then (False, none, force_bridge_low pf s)
         else
           let previous_faults = cb_fault_flags s;
               s = timing_capture_off pf (s\<lparr>cb_active := False, cb_bootstrap_probe_active := False,
                     cb_bootstrap_probe_completed := False, cb_trace_armed := False\<rparr>);
               s = force_bridge_low pf (stop_loop (update_irq_off pf s));
               (recovered, s) = restart_backend pf s;
               s = (reset_reporting s)\<lparr>cb_trace_armed := False\<rparr>
           in if recovered
              then (True, map_option (\<lambda>_. previous_faults) cleared_fault_flags,
                    s\<lparr>cb_fault_flags := CURRENT_LOOP_BACKEND_FAULT_NONE\<rparr>)
              else (False, none, (force_bridge_low pf s)\<lparr>
                    cb_fault_flags := previous_faults OR CURRENT_LOOP_BACKEND_FAULT_INTERNAL\<rparr>))"

record current_loop_backend_snapshot =
  sn_latest_output :: phase_current_loop_output
  sn_current_a_reference_counts :: i16
  sn_current_b_reference_counts :: i16
  sn_sample_count :: u32
  sn_fault_flags :: u32
  sn_predicted_electrical_phase_q32 :: u32
  sn_electrical_phase_rate_q32_per_us :: i32
  sn_phase_prediction_age_us :: u32
  sn_maximum_observed_phase_prediction_age_us :: u32
  sn_rejected_phase_prediction_age_us :: u32
  sn_missed_pwm_update_count :: u32
  sn_maximum_consecutive_missed_pwm_updates :: u32
  sn_maximum_phase_prediction_age_us :: u32
  sn_phase_prediction_output_lead_us :: u16
  sn_phase_prediction_reject_reason :: current_loop_phase_prediction_reject
  sn_rotating_reference_controller_mode :: current_loop_backend_controller
  sn_initialized :: bool
  sn_active :: bool
  sn_phase_prediction_active :: bool
  sn_bootstrap_probe_active :: bool
  sn_bootstrap_probe_completed :: bool

definition current_loop_backend_get_snapshot ::
  "current_loop_backend_snapshot ptr \<Rightarrow> 'h loop_backend \<Rightarrow> current_loop_backend_snapshot ptr" where
  "current_loop_backend_get_snapshot snapshot s = map_option (\<lambda>_.
     \<lparr>sn_latest_output = cb_latest_output s, sn_current_a_reference_counts =
       cb_last_reference_a_counts s,
      sn_current_b_reference_counts = cb_last_reference_b_counts s, sn_sample_count =
        cb_sample_count s,
      sn_fault_flags = cb_fault_flags s, sn_predicted_electrical_phase_q32 =
        cb_predicted_electrical_phase_q32 s,
      sn_electrical_phase_rate_q32_per_us = pp_electrical_phase_rate_q32_per_us (cb_phase_predictor
        s),
      sn_phase_prediction_age_us = cb_phase_prediction_age_us s,
      sn_maximum_observed_phase_prediction_age_us = cb_maximum_observed_phase_prediction_age_us s,
      sn_rejected_phase_prediction_age_us = cb_rejected_phase_prediction_age_us s,
      sn_missed_pwm_update_count = cb_guardian_missed_update_count s,
      sn_maximum_consecutive_missed_pwm_updates = cb_guardian_maximum_empty_updates s,
      sn_maximum_phase_prediction_age_us =
        pc_maximum_prediction_age_us (pp_config (cb_phase_predictor s)),
      sn_phase_prediction_output_lead_us = pc_output_lead_us (pp_config (cb_phase_predictor s)),
      sn_phase_prediction_reject_reason = cb_phase_prediction_reject_reason s,
      sn_rotating_reference_controller_mode = cb_rotating_reference_controller_mode s,
      sn_initialized = cb_initialized s, sn_active = cb_active s,
      sn_phase_prediction_active = cb_phase_prediction_active s,
      sn_bootstrap_probe_active = cb_bootstrap_probe_active s,
      sn_bootstrap_probe_completed = cb_bootstrap_probe_completed s\<rparr>) snapshot"

definition current_loop_backend_is_active :: "'h loop_backend \<Rightarrow> bool" where
  "current_loop_backend_is_active s = cb_active s"

definition current_loop_backend_sample_count :: "'h loop_backend \<Rightarrow> u32" where
  "current_loop_backend_sample_count s = cb_sample_count s"

definition current_loop_backend_trace_count :: "'h loop_backend \<Rightarrow> u16" where
  "current_loop_backend_trace_count s = cb_trace_count s"

definition current_loop_backend_trace_arm :: "'h platform \<Rightarrow> 'h loop_backend \<Rightarrow>
  bool \<times> 'h loop_backend" where
  "current_loop_backend_trace_arm pf s =
     (if \<not> cb_initialized s \<or> \<not> cb_active s \<or> cb_bootstrap_probe_active s \<or>
         cb_fault_flags s \<noteq> CURRENT_LOOP_BACKEND_FAULT_NONE then (False, s)
      else
        let s = (timing_capture_off pf (s\<lparr>cb_trace_armed := False\<rparr>))\<lparr>cb_trace_count := 0\<rparr>;
            (ok, s) = and_then (on_hw (pf_adc1_set_current_timing_capture pf True))
                        (on_hw (pf_cycle_counter_init pf) s)
        in if \<not> ok then (False, s) else (True, s\<lparr>cb_trace_armed := True\<rparr>))"

definition current_loop_backend_trace_get ::
  "u16 \<Rightarrow> current_loop_backend_trace_sample ptr \<Rightarrow> 'h loop_backend \<Rightarrow>
     bool \<times> current_loop_backend_trace_sample ptr" where
  "current_loop_backend_trace_get index sample s =
     (case sample of
        None \<Rightarrow> (False, None)
      | Some old \<Rightarrow>
          if \<not> cb_initialized s \<or> cb_active s \<or> cb_trace_count s \<le> index then (False, Some old)
          else (True, Some (cb_trace s ! unat index)))"


end
