(* ===== verification/Backend_Faults.thy ===== *)
theory Backend_Faults
  imports Loop_Backend
begin

text \<open>
  Faults of the current loop backend: any sequence of calls, interrupts and preemptions as one step
  function, what the backend relies on of its platform (locale \<open>loop_platform\<close>),
    and the proof that a
  latched fault keeps the loop inactive and the bridge driven low until it is deliberately re-armed.
\<close>

section \<open>Any sequence of calls and interrupts\<close>

datatype 'h backend_call =
  Adc_Event bool bool bool adc1_status "adc1_current_snapshot ptr"
| Pwm_Update
| Hardware 'h
| Backend_Init "phase_current_loop_config ptr" "electrical_phase_predictor_config ptr"
| Set_Reference i16 i16
| Set_Rotating i16 u32 u32 u64 current_loop_backend_controller
| Set_Aligned i16 u32 i32 i8 u32
| Backend_Start
| Start_Probe u32 u16
| Refresh_Probe u16
| Backend_Stop
| Reconfigure i32 i32
| Recover
| Trace_Arm

text \<open>The hardware may change between the calls, as long as the ports keep what was written to
  them.\<close>

definition hardware_event :: "'h platform \<Rightarrow> 'h \<Rightarrow> 'h loop_backend \<Rightarrow> 'h loop_backend" where
  "hardware_event pf h s =
     (if same_ports (pf_bus pf) (br_hw (cb_bridge s)) h then snd (on_hw (\<lambda>_. ((), h)) s) else s)"

fun call_backend :: "'h platform \<Rightarrow> 'h loop_backend \<Rightarrow> 'h backend_call \<Rightarrow> 'h loop_backend" where
  "call_backend pf s (Adc_Event early late after status snapshot) =
    adc_current_event pf early late after status snapshot s"
| "call_backend pf s Pwm_Update = pwm_update_event pf s"
| "call_backend pf s (Hardware h) = hardware_event pf h s"
| "call_backend pf s (Backend_Init c p) = snd (current_loop_backend_init pf c p s)"
| "call_backend pf s (Set_Reference a b) = snd (current_loop_backend_set_reference_counts pf a b s)"
| "call_backend pf s (Set_Rotating a i p n m) = snd (current_loop_backend_set_rotating_reference a i
  p n m s)"
| "call_backend pf s (Set_Aligned q p v d t) = snd (current_loop_backend_set_aligned_q_reference pf
  q p v d t s)"
| "call_backend pf s Backend_Start = snd (current_loop_backend_start pf s)"
| "call_backend pf s (Start_Probe d v) = snd (current_loop_backend_start_bootstrap_probe pf d v s)"
| "call_backend pf s (Refresh_Probe v) = snd (current_loop_backend_refresh_bootstrap_probe_vbus pf v
  s)"
| "call_backend pf s Backend_Stop = snd (current_loop_backend_stop pf s)"
| "call_backend pf s (Reconfigure kp ki) = snd (current_loop_backend_reconfigure_gains pf kp ki s)"
| "call_backend pf s Recover = snd (snd (current_loop_backend_recover pf None s))"
| "call_backend pf s Trace_Arm = snd (current_loop_backend_trace_arm pf s)"

text \<open>The calls that clear a latched fault: a recovery that succeeds, and the first initialisation.\<close>

fun rearms :: "'h platform \<Rightarrow> 'h loop_backend \<Rightarrow> 'h backend_call \<Rightarrow> bool" where
  "rearms pf s Recover = fst (current_loop_backend_recover pf None s)"
| "rearms pf s (Backend_Init c p) = (\<not> cb_initialized s)"
| "rearms pf s _ = False"

text \<open>What the backend relies on: the ports work as documented, and the ADC driver,
  the clock and the cycle counter leave them alone; switching the timing capture, which is a flag of
  the ADC driver, leaves the PWM timer alone as well; and the timer's compare registers keep their
  values when its interrupts are enabled, disabled or acknowledged.\<close>

locale loop_platform =
  fixes pf :: "'h platform"
  assumes ports_work: "gpio_ports (pf_bus pf)"
    and timing_capture_same: "same_ports (pf_bus pf) h (snd (pf_adc1_set_current_timing_capture pf
      on h))"
    and event_handler_same: "same_ports (pf_bus pf) h (snd (pf_adc1_set_current_event_handler pf
      h))"
    and restart_same: "same_ports (pf_bus pf) h (snd (pf_adc1_restart_pwm_synchronized_current pf
      h))"
    and read_same: "same_ports (pf_bus pf) h (snd (pf_adc1_read_synchronized_current pf h))"
    and micros_same: "same_ports (pf_bus pf) h (snd (pf_timebase_micros pf h))"
    and cycles_same: "same_ports (pf_bus pf) h (snd (pf_cycle_counter_init pf h))"
    and timing_capture_timer: "reg_read (pf_bus pf) (snd (pf_adc1_set_current_timing_capture pf
      on h)) (TIM3 r) = reg_read (pf_bus pf) h (TIM3 r)"
    and compare_kept: "c \<in> {CCDAT1, CCDAT2, CCDAT3, CCDAT4} \<Longrightarrow> r \<in> {DINTEN, STS} \<Longrightarrow>
      reg_read (pf_bus pf) (reg_write (pf_bus pf) h (TIM3 r) v) (TIM3 c) = reg_read (pf_bus pf) h (TIM3 c)"
    and nvic_compare_kept: "reg_read (pf_bus pf) (nvic_tim3 (pf_bus pf) h op) (TIM3 r) =
      reg_read (pf_bus pf) h (TIM3 r)"

definition bridge_off :: "'h platform \<Rightarrow> 'h bridge \<Rightarrow> bool" where
  "bridge_off pf b \<longleftrightarrow> bridge_low (pf_bus pf) (br_hw b) \<and> \<not> br_initialized b"

definition fault_safe :: "'h platform \<Rightarrow> 'h loop_backend \<Rightarrow> bool" where
  "fault_safe pf s \<longleftrightarrow> (cb_fault_flags s \<noteq> 0 \<longrightarrow> \<not> cb_active s \<and> bridge_off pf (cb_bridge s)) \<and>
     (cb_bootstrap_probe_active s \<longrightarrow> cb_active s)"

definition flags_of :: "'h loop_backend \<Rightarrow> u32 \<times> bool \<times> bool" where
  "flags_of s = (cb_fault_flags s, cb_active s, cb_bootstrap_probe_active s)"

lemma on_hw_result:
  "on_hw f s = (fst (f (br_hw (cb_bridge s))), s\<lparr>cb_bridge := (cb_bridge s)\<lparr>br_hw :=
    snd (f (br_hw (cb_bridge s)))\<rparr>\<rparr>)"
  by (simp add: on_hw_def split: prod.split)

lemma on_bridge_result: "on_bridge f s = (fst (f (cb_bridge s)), s\<lparr>cb_bridge :=
  snd (f (cb_bridge s))\<rparr>)"
  by (simp add: on_bridge_def split: prod.split)

lemmas accesses = on_hw_result on_bridge_result force_bridge_low_def timing_capture_off_def
  update_irq_off_def
  stop_loop_def add_fault_def

lemma stopped_bridge:
  assumes "bridge_off pf b"
  shows "tim3_bridge_pwm_stage_duties (pf_bus pf) d b = (False,
    b)" "tim3_bridge_pwm_zero (pf_bus pf) b = (False, b)"
    "tim3_bridge_pwm_stage_bootstrap_probe (pf_bus pf) b = (False, b)"
    "tim3_bridge_pwm_set_update_handler (pf_bus pf) f b = (False, b)"
    "tim3_bridge_pwm_update_irq_enable (pf_bus pf) e b = (False, b)"
  using assms by (simp_all add: bridge_off_def stopped_driver)

lemma count_kept [simp]:
  "cb_bridge (count_empty_update s) = cb_bridge s" "cb_config (count_empty_update s) = cb_config s"
  "cb_loop (count_empty_update s) = cb_loop s" "cb_fault_flags (count_empty_update s) =
    cb_fault_flags s"
  "cb_sample_count (count_empty_update s) = cb_sample_count s"
  "cb_output_generation (count_empty_update s) = cb_output_generation s"
  "cb_aligned_q_reference_counts (count_empty_update s) = cb_aligned_q_reference_counts s"
  "cb_guardian_generation (count_empty_update s) = cb_guardian_generation s"
  "cb_initialized (count_empty_update s) = cb_initialized s" "cb_active (count_empty_update s) =
    cb_active s"
  "cb_bootstrap_probe_active (count_empty_update s) = cb_bootstrap_probe_active s"
  "cb_bootstrap_probe_completed (count_empty_update s) = cb_bootstrap_probe_completed s"
  "cb_bootstrap_remaining_ticks (count_empty_update s) = cb_bootstrap_remaining_ticks s"
  "cb_bootstrap_vbus_lease_ticks (count_empty_update s) = cb_bootstrap_vbus_lease_ticks s"
  "cb_phase_prediction_active (count_empty_update s) = cb_phase_prediction_active s"
  "cb_rotating_reference_active (count_empty_update s) = cb_rotating_reference_active s"
  "cb_rotating_reference (count_empty_update s) = cb_rotating_reference s"
  "cb_guardian_primed (count_empty_update s) = cb_guardian_primed s"
  by (simp_all add: count_empty_update_def Let_def)

lemma trace_record_kept [simp]:
  "cb_fault_flags (trace_record pf sn out c m s) = cb_fault_flags s"
  "cb_active (trace_record pf sn out c m s) = cb_active s"
  "cb_bootstrap_probe_active (trace_record pf sn out c m s) = cb_bootstrap_probe_active s"
  by (simp_all add: trace_record_def Let_def accesses)

text \<open>The steps of a chain of initialisations leave the run-time flags alone.\<close>

lemma chain_flags [simp]:
  "flags_of (snd (init_loop s)) = flags_of s" "flags_of (snd (init_predictor s)) = flags_of s"
  "flags_of (snd (on_hw g s)) = flags_of s" "flags_of (snd (on_bridge k s)) = flags_of s"
  "flags_of (snd (install_update_handler pf s)) = flags_of s"
  by (simp_all add: flags_of_def init_loop_def init_predictor_def install_update_handler_def
    on_hw_result
      on_bridge_result split: prod.split)

lemma chain_and_then:
  assumes "\<And>s. flags_of (snd (f s)) = flags_of s"
  shows "flags_of (snd (and_then f r)) = flags_of (snd r)"
  using assms by (simp add: and_then_def)

lemma chains_flags [simp]:
  "flags_of (snd (rebuild_pwm pf s)) = flags_of s" "flags_of (snd (attach_backend pf s)) =
    flags_of s"
  "flags_of (snd (restart_adc pf s)) = flags_of s" "flags_of (snd (restart_backend pf s)) =
    flags_of s"
proof -
  show r: "flags_of (snd (rebuild_pwm pf s)) = flags_of s" for s by (simp add: rebuild_pwm_def
    chain_and_then)
  show a: "flags_of (snd (restart_adc pf s)) = flags_of s" for s
    using chain_flags(3) [of "pf_adc1_restart_pwm_synchronized_current pf" s] by (simp add:
      restart_adc_def split_def)
  show "flags_of (snd (attach_backend pf s)) = flags_of s" by (simp add: attach_backend_def
    chain_and_then)
  show "flags_of (snd (restart_backend pf s)) = flags_of s" by (simp add: restart_backend_def
    chain_and_then r a)
qed

lemma set_loop_reference_result:
  "set_loop_reference a b s =
     (fst (phase_current_loop_set_reference_counts (Some (cb_loop s)) (Some (cb_config s)) a b),
      s\<lparr>cb_loop := the (snd (phase_current_loop_set_reference_counts (Some (cb_loop s))
        (Some (cb_config s)) a b))\<rparr>)"
  by (simp add: set_loop_reference_def split: prod.split)

text \<open>A successful start leaves the backend active without a fault.\<close>

lemma started:
  assumes "current_loop_backend_start pf s = (True, s')"
  shows "cb_active s'" "cb_fault_flags s' = 0"
  using assms by (auto simp: current_loop_backend_start_def Let_def accesses
    CURRENT_LOOP_BACKEND_FAULT_NONE_def
      split: bool.splits prod.splits if_splits)

text \<open>With a fault latched, everything that could drive the bridge is refused.\<close>

lemma refused:
  assumes "cb_fault_flags s \<noteq> 0"
  shows "current_loop_backend_set_reference_counts pf a b s = (False, s)"
    "current_loop_backend_set_rotating_reference a' i p n m s = (False, s)"
    "current_loop_backend_start pf s = (False, s)" "current_loop_backend_trace_arm pf s = (False,
      s)"
    "snd (current_loop_backend_start_bootstrap_probe pf d v s) = s"
    "current_loop_backend_reconfigure_gains pf kp ki s = (False, s)"
  using assms by (simp_all only: current_loop_backend_set_reference_counts_def
      current_loop_backend_set_rotating_reference_def current_loop_backend_start_def
      current_loop_backend_trace_arm_def current_loop_backend_start_bootstrap_probe_def
      current_loop_backend_reconfigure_gains_def CURRENT_LOOP_BACKEND_FAULT_NONE_def Let_def
      if_True simp_thms snd_conv split_def if_cancel split: if_split)

lemma recover_result:
  shows "cb_fault_flags (snd (snd (current_loop_backend_recover pf c s))) =
    (if fst (current_loop_backend_recover pf c s) then 0
     else if cb_initialized s then cb_fault_flags s OR CURRENT_LOOP_BACKEND_FAULT_INTERNAL else
       cb_fault_flags s)"
  by (simp add: current_loop_backend_recover_def Let_def force_bridge_low_def
    CURRENT_LOOP_BACKEND_FAULT_NONE_def
      split: prod.split)

lemma bits_kept: "f AND x = f \<Longrightarrow> f AND (x OR y) = (f :: u32)"
  by (simp add: bit_eq_iff bit_simps) blast

lemma clear_flags [simp]: "flags_of (clear_backend pf c p s) = (0, False, False)"
  by (simp add: clear_backend_def accesses reset_reporting_def flags_of_def
    CURRENT_LOOP_BACKEND_FAULT_NONE_def)

lemma init_flags:
  "snd (current_loop_backend_init pf c p s) = s \<or>
   flags_of (snd (current_loop_backend_init pf c p s)) = (0, False, False)"
proof (cases "cb_initialized s \<or> \<not> phase_current_loop_config_is_valid c \<or>
    \<not> electrical_phase_predictor_config_is_valid p")
  case True
  then show ?thesis by (simp only: current_loop_backend_init_def if_True snd_conv simp_thms)
next
  case False
  obtain ok s1 where a: "attach_backend pf (clear_backend pf (the c) (the p) s) = (ok,
    s1)" by fastforce
  then have "flags_of s1 = (0, False, False)"
    using chains_flags(2) [of pf "clear_backend pf (the c) (the p) s"] by simp
  then show ?thesis
    unfolding current_loop_backend_init_def if_not_P [OF False] a
    by (cases ok) (simp_all add: flags_of_def)
qed

lemma recover_flags:
  assumes "cb_initialized s"
  shows "\<not> cb_active (snd (snd (current_loop_backend_recover pf c s)))"
    "\<not> cb_bootstrap_probe_active (snd (snd (current_loop_backend_recover pf c s)))"
proof -
  let ?s = "force_bridge_low pf (stop_loop (update_irq_off pf (timing_capture_off pf (s\<lparr>cb_active :=
    False,
    cb_bootstrap_probe_active := False, cb_bootstrap_probe_completed := False, cb_trace_armed :=
      False\<rparr>))))"
  obtain ok s1 where b: "restart_backend pf ?s = (ok, s1)" by fastforce
  have "flags_of s1 = flags_of ?s" using chains_flags(4) [of pf ?s] b by simp
  then have "\<not> cb_active s1" "\<not> cb_bootstrap_probe_active s1" by (simp_all add: flags_of_def
    accesses)
  then show "\<not> cb_active (snd (snd (current_loop_backend_recover pf c s)))"
    "\<not> cb_bootstrap_probe_active (snd (snd (current_loop_backend_recover pf c s)))"
    unfolding current_loop_backend_recover_def Let_def b
    by (simp_all add: assms reset_reporting_def accesses)
qed

lemma reconfigure_flags:
  "cb_active s \<Longrightarrow> snd (current_loop_backend_reconfigure_gains pf kp ki s) = s"
  "\<not> cb_active s \<Longrightarrow> \<not> cb_active (snd (current_loop_backend_reconfigure_gains pf kp ki s))"
proof -
  let ?s = "force_bridge_low pf (update_irq_off pf (timing_capture_off pf (s\<lparr>cb_trace_armed :=
    False\<rparr>)))"
  obtain ok s1 where b: "rebuild_pwm pf ?s = (ok, s1)" by fastforce
  have "flags_of s1 = flags_of ?s" using chains_flags(1) [of pf ?s] b by simp
  then have a: "cb_active s1 = cb_active s" by (simp add: flags_of_def accesses)
  show "cb_active s \<Longrightarrow> snd (current_loop_backend_reconfigure_gains pf kp ki s) = s"
    "\<not> cb_active s \<Longrightarrow> \<not> cb_active (snd (current_loop_backend_reconfigure_gains pf kp ki s))"
    unfolding current_loop_backend_reconfigure_gains_def Let_def b
    using a by (auto simp: reset_reporting_def accesses
        split: prod.split simp del: phase_current_loop_config_is_valid.simps)
qed

context loop_platform
begin

lemma forced_off [simp]: "bridge_off pf (board_bridge_force_low_zero (pf_bus pf) b)"
  by (simp add: bridge_off_def gpio_ports.force_low [OF ports_work])

lemma kept_off:
  assumes "bridge_off pf b" "same_ports (pf_bus pf) (br_hw b) h"
  shows "bridge_off pf (b\<lparr>br_hw := h\<rparr>)"
  using assms(1) same_ports_low [OF assms(2)] by (simp add: bridge_off_def)

lemmas platform_same = timing_capture_same event_handler_same restart_same read_same micros_same
  cycles_same

lemmas off_intros = kept_off timing_capture_same event_handler_same restart_same read_same
  micros_same cycles_same

lemma fault_off: "\<not> cb_active (fault_from_interrupt pf f s)" "\<not> cb_bootstrap_probe_active
  (fault_from_interrupt pf f s)"
  "bridge_off pf (cb_bridge (fault_from_interrupt pf f s))"
  "cb_fault_flags (fault_from_interrupt pf f s) = cb_fault_flags s OR f"
  by (simp_all add: fault_from_interrupt_def Let_def accesses)

lemma fault_event_safe [simp]: "fault_safe pf (fault_from_interrupt pf f s)"
  by (simp add: fault_safe_def fault_off)

lemma guardian_safe: "fault_safe pf s \<Longrightarrow> fault_safe pf (guardian_check pf g s)"
  by (simp add: guardian_check_def Let_def) (auto simp: fault_safe_def)

lemma pwm_update_safe:
  assumes "fault_safe pf s"
  shows "fault_safe pf (pwm_update_event pf s)"
proof (cases "cb_active s")
  case True
  then have nf: "cb_fault_flags s = 0" using assms by (simp add: fault_safe_def)
  then have "fault_safe pf (finish_bootstrap_probe pf s)"
    by (simp add: finish_bootstrap_probe_def Let_def accesses) (simp add: fault_safe_def)
  moreover have "fault_safe pf (guardian_check pf g (s\<lparr>cb_bootstrap_remaining_ticks := a,
    cb_bootstrap_vbus_lease_ticks := b\<rparr>))" for g a b
    using assms by (intro guardian_safe) (simp add: fault_safe_def)
  ultimately show ?thesis using assms True
    by (simp add: pwm_update_event_def Let_def guardian_safe)
qed (simp add: pwm_update_event_def assms)

lemma preempt_safe: "fault_safe pf s \<Longrightarrow> fault_safe pf (preempt pf g s)"
  by (simp add: preempt_def pwm_update_safe)

text \<open>While no fault is latched, only the flags matter.\<close>

lemma fault_free: "fault_safe pf s \<Longrightarrow> cb_active s \<Longrightarrow> cb_fault_flags s = 0"
  by (auto simp: fault_safe_def)

lemma fault_free_safe: "cb_fault_flags s = 0 \<Longrightarrow> cb_bootstrap_probe_active s \<longrightarrow> cb_active s \<Longrightarrow>
  fault_safe pf s"
  by (simp add: fault_safe_def)

lemma probe_event_safe: "fault_safe pf s \<Longrightarrow> fault_safe pf (bootstrap_probe_adc_event pf snapshot s)"
  by (auto simp: bootstrap_probe_adc_event_def Let_def on_bridge_result fault_free split: prod.split
      intro!: fault_free_safe)

text \<open>Publishing after the guardian has tripped: a second fault when tracing, else only reports.\<close>

lemma publish_faulted:
  assumes "fault_safe pf s" "cb_fault_flags s \<noteq> 0"
  shows "cb_trace_armed s \<Longrightarrow> publish_output pf r snapshot output s =
      fault_from_interrupt pf CURRENT_LOOP_BACKEND_FAULT_PWM s"
    "\<not> cb_trace_armed s \<Longrightarrow> fault_safe pf (publish_output pf r snapshot output s) \<and>
      cb_fault_flags (publish_output pf r snapshot output s) = cb_fault_flags s"
proof -
  have "tim3_bridge_pwm_get_preload_margin_ticks (pf_bus pf) (Some 0) (cb_bridge s) = (False, Some 0)"
    using assms
    by (simp add: fault_safe_def bridge_off_def tim3_bridge_pwm_get_preload_margin_ticks_def)
  then show "cb_trace_armed s \<Longrightarrow> publish_output pf r snapshot output s =
      fault_from_interrupt pf CURRENT_LOOP_BACKEND_FAULT_PWM s"
    by (simp add: publish_output_def)
  show "\<not> cb_trace_armed s \<Longrightarrow> fault_safe pf (publish_output pf r snapshot output s) \<and>
      cb_fault_flags (publish_output pf r snapshot output s) = cb_fault_flags s"
    using assms by (auto simp: publish_output_def Let_def record_prediction_age_def fault_safe_def)
qed

lemma publish_output_safe:
  assumes "fault_safe pf s"
  shows "fault_safe pf (publish_output pf r snapshot output s)"
proof (cases "cb_fault_flags s = 0")
  case True
  then have "cb_bootstrap_probe_active s \<longrightarrow> cb_active s" using assms by (simp add: fault_safe_def)
  with True show ?thesis
    by (auto simp: publish_output_def Let_def record_prediction_age_def split: prod.split
      intro!: fault_free_safe)
next
  case False
  with publish_faulted [OF assms] show ?thesis by (cases "cb_trace_armed s") simp_all
qed

lemma stage_safe:
  assumes "fault_safe pf s"
  shows "fault_safe pf (stage_output pf early late after r snapshot output s)"
proof -
  let ?s = "preempt pf late (preempt pf early s)"
  have safe: "fault_safe pf ?s" using assms by (intro preempt_safe)
  show ?thesis
  proof (cases "cb_fault_flags ?s = 0")
    case True
    with safe have "fault_safe pf (publish_output pf r snapshot output
        (preempt pf after (?s\<lparr>cb_bridge := b\<rparr>)))" for b
      by (intro publish_output_safe preempt_safe) (simp_all add: fault_safe_def)
    then show ?thesis using assms by (simp add: stage_output_def Let_def on_bridge_result
      preempt_safe)
  next
    case False
    with safe have "bridge_off pf (cb_bridge ?s)" by (simp add: fault_safe_def)
    then show ?thesis using assms by (simp add: stage_output_def Let_def on_bridge_result
      preempt_safe stopped_bridge)
  qed
qed

lemma references_safe:
  assumes "cb_fault_flags s = 0" "cb_bootstrap_probe_active s \<longrightarrow> cb_active s"
  shows "case period_references pf s of Inl s' \<Rightarrow> fault_safe pf s'
    | Inr (r, s') \<Rightarrow> cb_fault_flags s' = 0 \<and> (cb_bootstrap_probe_active s' \<longrightarrow> cb_active s')"
  using assms by (auto simp: period_references_def rotating_reference_period_def
    aligned_reference_period_def Let_def
      on_hw_result split: prod.splits)

lemma adc_event_safe:
  assumes "fault_safe pf s"
  shows "fault_safe pf (adc_current_event pf early late after status snapshot s)"
proof (cases "cb_active s")
  case True
  then have nf: "cb_fault_flags s = 0" using assms by (rule fault_free [rotated])
  show ?thesis
    using references_safe [OF nf] True assms
    by (auto simp: adc_current_event_def regulator_step_def probe_event_safe split: option.split
      sum.split prod.split
        intro!: stage_safe [OF fault_free_safe])
qed (use assms in \<open>simp add: adc_current_event_def\<close>)

lemma resting_safe: "flags_of s = (0, False, False) \<Longrightarrow> fault_safe pf s"
  by (simp add: flags_of_def fault_safe_def)

lemma init_safe: "fault_safe pf s \<Longrightarrow> fault_safe pf (snd (current_loop_backend_init pf c p s))"
  using init_flags [of pf c p s] resting_safe by fastforce

lemma set_reference_safe: "fault_safe pf s \<Longrightarrow>
  fault_safe pf (snd (current_loop_backend_set_reference_counts pf a b s))"
  by (auto simp: current_loop_backend_set_reference_counts_def set_loop_reference_result Let_def
    accesses
      reset_predictor_def fault_safe_def CURRENT_LOOP_BACKEND_FAULT_NONE_def split: bool.split)

lemma set_rotating_safe:
  "fault_safe pf s \<Longrightarrow> fault_safe pf (snd (current_loop_backend_set_rotating_reference a i p n m s))"
  by (auto simp: current_loop_backend_set_rotating_reference_def set_loop_reference_result
    reset_predictor_def
      fault_safe_def CURRENT_LOOP_BACKEND_FAULT_NONE_def split: bool.split prod.split)

lemma set_aligned_safe:
  assumes "fault_safe pf s"
  shows "fault_safe pf (snd (current_loop_backend_set_aligned_q_reference pf q p v d t s))"
proof -
  obtain now s2 where m: "on_hw (pf_timebase_micros pf) s = (now, s2)" by fastforce
  then have s: "fault_safe pf s2" using assms by (auto simp: fault_safe_def on_hw_result intro!:
    kept_off micros_same)
  then show ?thesis
    unfolding current_loop_backend_set_aligned_q_reference_def m Let_def
    by (auto simp: accesses record_prediction_rejection_def record_prediction_age_def
      set_loop_reference_result
        fault_safe_def CURRENT_LOOP_BACKEND_FAULT_NONE_def split: bool.split prod.split sum.split)
qed

lemma start_safe: "fault_safe pf s \<Longrightarrow> fault_safe pf (snd (current_loop_backend_start pf s))"
  by (auto simp: current_loop_backend_start_def Let_def accesses CURRENT_LOOP_BACKEND_FAULT_NONE_def
      fault_safe_def fault_off split: bool.split prod.split)

lemma read_safe: "fault_safe pf s \<Longrightarrow> on_hw (pf_adc1_read_synchronized_current pf) s = (r, s') \<Longrightarrow>
  fault_safe pf s'"
  by (auto simp: on_hw_result fault_safe_def intro!: kept_off read_same)

lemma start_probe_safe:
  assumes "fault_safe pf s"
  shows "fault_safe pf (snd (current_loop_backend_start_bootstrap_probe pf d v s))"
proof -
  obtain status current s1 where r: "on_hw (pf_adc1_read_synchronized_current pf) s = ((status,
    current), s1)"
    by (cases "on_hw (pf_adc1_read_synchronized_current pf) s") auto
  obtain a s2 where a: "current_loop_backend_set_reference_counts pf 0 0 s1 = (a, s2)" by fastforce
  obtain b s3 where b: "and_then (current_loop_backend_start pf) (a, s2) = (b, s3)" by fastforce
  have s1: "fault_safe pf s1" using read_safe [OF assms r] .
  have s2: "fault_safe pf s2" using set_reference_safe [OF s1, of 0 0] a by simp
  have s3: "fault_safe pf s3" using start_safe [OF s2] s2 b by (auto simp: and_then_def split:
    if_splits)
  have up: "cb_active s3 \<and> cb_fault_flags s3 = 0" if b using b that started by (auto simp:
    and_then_def split: if_splits)
  show ?thesis using assms s1 s3 up
    unfolding current_loop_backend_start_bootstrap_probe_def
    by (cases b) (simp_all add: r a b fault_safe_def)
qed

lemma refresh_safe: "fault_safe pf s \<Longrightarrow>
  fault_safe pf (snd (current_loop_backend_refresh_bootstrap_probe_vbus pf v s))"
  by (auto simp: current_loop_backend_refresh_bootstrap_probe_vbus_def) (simp add: fault_safe_def)

lemma stop_safe: "fault_safe pf s \<Longrightarrow> fault_safe pf (snd (current_loop_backend_stop pf s))"
  by (auto simp: current_loop_backend_stop_def Let_def accesses reset_predictor_def fault_safe_def
      CURRENT_LOOP_BACKEND_FAULT_NONE_def split: bool.split prod.split)

lemma trace_arm_safe: "fault_safe pf s \<Longrightarrow> fault_safe pf (snd (current_loop_backend_trace_arm pf s))"
  by (auto simp: current_loop_backend_trace_arm_def and_then_def Let_def accesses fault_safe_def
      CURRENT_LOOP_BACKEND_FAULT_NONE_def split: prod.split)

lemma hardware_safe: "fault_safe pf s \<Longrightarrow> fault_safe pf (hardware_event pf h s)"
  by (auto simp: hardware_event_def on_hw_result fault_safe_def intro: kept_off)

lemma reconfigure_safe:
  assumes "fault_safe pf s"
  shows "fault_safe pf (snd (current_loop_backend_reconfigure_gains pf kp ki s))"
proof -
  let ?s = "force_bridge_low pf (update_irq_off pf (timing_capture_off pf (s\<lparr>cb_trace_armed :=
    False\<rparr>)))"
  obtain ok s1 where b: "rebuild_pwm pf ?s = (ok, s1)" by fastforce
  have "flags_of s1 = flags_of ?s" using chains_flags(1) [of pf ?s] b by simp
  then have fl: "cb_fault_flags s1 = cb_fault_flags s" "cb_active s1 = cb_active s"
    "cb_bootstrap_probe_active s1 = cb_bootstrap_probe_active s"
    by (simp_all add: flags_of_def accesses)
  show ?thesis
    unfolding current_loop_backend_reconfigure_gains_def Let_def b
    using assms fl by (auto simp: fault_safe_def reset_reporting_def accesses
      CURRENT_LOOP_BACKEND_FAULT_NONE_def
        split: prod.split simp del: phase_current_loop_config_is_valid.simps)
qed

lemma recover_safe:
  assumes "fault_safe pf s"
  shows "fault_safe pf (snd (snd (current_loop_backend_recover pf c s)))"
proof -
  let ?s = "force_bridge_low pf (stop_loop (update_irq_off pf (timing_capture_off pf (s\<lparr>cb_active :=
    False,
    cb_bootstrap_probe_active := False, cb_bootstrap_probe_completed := False, cb_trace_armed :=
      False\<rparr>))))"
  obtain ok s1 where b: "restart_backend pf ?s = (ok, s1)" by fastforce
  have "flags_of s1 = flags_of ?s" using chains_flags(4) [of pf ?s] b by simp
  then have fl: "\<not> cb_active s1" "\<not> cb_bootstrap_probe_active s1"
    by (simp_all add: flags_of_def accesses)
  show ?thesis
    unfolding current_loop_backend_recover_def Let_def b
    using assms fl by (auto simp: fault_safe_def reset_reporting_def accesses
      CURRENT_LOOP_BACKEND_FAULT_NONE_def)
qed

lemma call_backend_safe: "fault_safe pf s \<Longrightarrow> fault_safe pf (call_backend pf s e)"
  by (cases e) (simp_all add: adc_event_safe pwm_update_safe hardware_safe init_safe
    set_reference_safe
      set_rotating_safe set_aligned_safe start_safe start_probe_safe refresh_safe stop_safe
        reconfigure_safe
      recover_safe trace_arm_safe)

text \<open>A latched fault, with every one of its bits, survives every call but a re-arming one.\<close>

lemma fault_kept:
  assumes "fault_safe pf s" "f AND cb_fault_flags s = f" "f \<noteq> 0" "\<not> rearms pf s e"
  shows "f AND cb_fault_flags (call_backend pf s e) = f"
proof -
  have fl: "cb_fault_flags s \<noteq> 0" using assms(2,3) by auto
  then have off: "\<not> cb_active s" "\<not> cb_bootstrap_probe_active s"
    using assms(1) by (auto simp: fault_safe_def)
  have grow: "f AND (cb_fault_flags s OR x) = f" for x
    using assms(2) by (rule bits_kept)
  show ?thesis
  proof (cases e)
    case (Adc_Event early late after status snapshot)
    then show ?thesis using assms(2) off by (simp add: adc_current_event_def fault_off grow)
  next
    case (Backend_Init c p)
    then show ?thesis using assms(2,4) by (simp add: current_loop_backend_init_def)
  next
    case Backend_Stop
    then show ?thesis using assms(2) fl
      by (simp add: current_loop_backend_stop_def Let_def accesses reset_predictor_def
        CURRENT_LOOP_BACKEND_FAULT_NONE_def)
  next
    case Recover
    then show ?thesis using assms(2,4) by (simp add: recover_result grow)
  next
    case (Set_Aligned q p v d t)
    then show ?thesis using assms(2) fl
      by (simp add: current_loop_backend_set_aligned_q_reference_def on_hw_result
        CURRENT_LOOP_BACKEND_FAULT_NONE_def)
  next
    case (Hardware h)
    then show ?thesis using assms(2) by (simp add: hardware_event_def on_hw_result)
  next
    case (Refresh_Probe v)
    then show ?thesis using assms(2)
      off by (simp add: current_loop_backend_refresh_bootstrap_probe_vbus_def)
  qed (use assms(2) off in \<open>simp_all add: pwm_update_event_def refused [OF fl]\<close>)
qed

lemma run_safe: "flags_of s = (0, False, False) \<Longrightarrow> fault_safe pf (foldl (call_backend pf) s es)"
  by (induction es rule: rev_induct) (simp_all add: resting_safe call_backend_safe)

lemma latched_run_low:
  assumes "fault_safe pf s" "f AND cb_fault_flags s = f" "f \<noteq> 0"
  shows "(let s' = foldl (call_backend pf) s fs in
      bridge_low (pf_bus pf) (br_hw (cb_bridge s')) \<and> \<not> cb_active s' \<and> f AND cb_fault_flags s' = f)
        \<or>
    (\<exists>as e bs. fs = as @ e # bs \<and> rearms pf (foldl (call_backend pf) s as) e)"
proof (cases "f AND cb_fault_flags (foldl (call_backend pf) s fs) = f")
  case True
  have "fault_safe pf (foldl (call_backend pf) s fs)"
    using assms(1) by (induction fs rule: rev_induct) (simp_all add: call_backend_safe)
  then show ?thesis using True assms(3) by (auto simp: fault_safe_def bridge_off_def Let_def)
next
  case False
  let ?P = "\<lambda>s. fault_safe pf s \<and> f AND cb_fault_flags s = f"
  obtain as e bs where c: "fs = as @ e # bs" "?P (foldl (call_backend pf) s as)"
    "\<not> ?P (call_backend pf (foldl (call_backend pf) s as) e)"
    using run_crossing [where Q = "\<lambda>s. \<not> ?P s" and f = "call_backend pf" and s = s and es =
      fs] assms False by auto
  then have "rearms pf (foldl (call_backend pf) s as) e"
    using fault_kept [of "foldl (call_backend pf) s as" f e] call_backend_safe assms(3) by blast
  then show ?thesis using c(1) by blast
qed

end

text \<open>
  C6. A fault holds the bridge low. Whatever calls, interrupts and preemptions follow power-up, once
  a fault is latched the four command pins are driven low, the loop is inactive and no bit of the
  fault is lost, whatever comes next, until a recovery succeeds or the backend is initialised for
  the first time.
\<close>

theorem fault_holds_bridge_low:
  assumes "loop_platform pf" and "flags_of s0 = (0, False, False)"
    and "cb_fault_flags (foldl (call_backend pf) s0 es) = f" "f \<noteq> 0"
  shows "(let s = foldl (call_backend pf) s0 (es @ fs) in
      bridge_low (pf_bus pf) (br_hw (cb_bridge s)) \<and> \<not> cb_active s \<and> f AND cb_fault_flags s = f) \<or>
    (\<exists>as e bs. fs = as @ e # bs \<and> rearms pf (foldl (call_backend pf) s0 (es @ as)) e)"
  using loop_platform.latched_run_low [OF assms(1) loop_platform.run_safe [OF assms(1,2)],
    of f es fs] assms(3,4)
  by simp

end
