(* ===== verification/Backend_Control.thy ===== *)
theory Backend_Control
  imports Backend_Faults
begin

text \<open>
  The regulated current: the invariant that the backend keeps of its regulator, its references and
  its configuration, and the outcome of every ADC sample, with the guardian preempting it anywhere.
\<close>

section \<open>The regulated current\<close>

definition control_ok :: "'h loop_backend \<Rightarrow> bool" where
  "control_ok s \<longleftrightarrow>
     (cb_initialized s \<longrightarrow> phase_current_loop_config_is_valid (Some (cb_config s)) \<and>
       loop_ok (cb_config s) (cb_loop s)) \<and>
     (cb_active s \<longrightarrow> cb_initialized s \<and> pl_running (cb_loop s) \<and> \<not> cb_bootstrap_probe_completed s) \<and>
     (cb_phase_prediction_active s \<longrightarrow>
        \<bar>sint (cb_aligned_q_reference_counts s)\<bar> \<le> uint (lc_reference_limit_counts (cb_config s))) \<and>
     (cb_rotating_reference_active s \<longrightarrow>
        \<bar>sint (rt_amplitude_counts (cb_rotating_reference s))\<bar> \<le> uint (lc_reference_limit_counts
          (cb_config s)))"


declare phase_current_loop_config_is_valid.simps [simp del] phase_current_loop_stop.simps [simp del]
  phase_current_loop_start.simps [simp del]
    phase_current_loop_set_reference_counts_prevalidated.simps [simp del]
  phase_current_loop_init.simps [simp del]

lemma control_frame [simp]:
  "control_ok (cb_bridge_update u1 s) = control_ok s"
  "control_ok (cb_fault_flags_update u2 s) = control_ok s"
  "control_ok (cb_sample_count_update u3 s) = control_ok s"
  "control_ok (cb_output_generation_update u4 s) = control_ok s"
  "control_ok (cb_last_reference_a_counts_update u5 s) = control_ok s"
  "control_ok (cb_last_reference_b_counts_update u6 s) = control_ok s"
  "control_ok (cb_predicted_electrical_phase_q32_update u7 s) = control_ok s"
  "control_ok (cb_phase_prediction_age_us_update u8 s) = control_ok s"
  "control_ok (cb_maximum_observed_phase_prediction_age_us_update u9 s) = control_ok s"
  "control_ok (cb_rejected_phase_prediction_age_us_update u10 s) = control_ok s"
  "control_ok (cb_guardian_generation_update u11 s) = control_ok s"
  "control_ok (cb_guardian_empty_updates_update u12 s) = control_ok s"
  "control_ok (cb_guardian_missed_update_count_update u13 s) = control_ok s"
  "control_ok (cb_guardian_maximum_empty_updates_update u14 s) = control_ok s"
  "control_ok (cb_guardian_primed_update u15 s) = control_ok s"
  "control_ok (cb_phase_prediction_reject_reason_update u16 s) = control_ok s"
  "control_ok (cb_rotating_reference_controller_mode_update u17 s) = control_ok s"
  "control_ok (cb_bootstrap_probe_active_update u18 s) = control_ok s"
  "control_ok (cb_bootstrap_probe_staged_update u19 s) = control_ok s"
  "control_ok (cb_bootstrap_remaining_ticks_update u20 s) = control_ok s"
  "control_ok (cb_bootstrap_vbus_lease_ticks_update u21 s) = control_ok s"
  "control_ok (cb_latest_output_update u22 s) = control_ok s"
  "control_ok (cb_trace_update u23 s) = control_ok s"
  "control_ok (cb_trace_count_update u24 s) = control_ok s"
  "control_ok (cb_trace_armed_update u25 s) = control_ok s"
  "control_ok (cb_phase_predictor_update u26 s) = control_ok s"
  "control_ok (cb_phase_predictor_config_update u27 s) = control_ok s"
  "control_ok (count_empty_update s) = control_ok s"
  by (simp_all add: control_ok_def)

lemma loop_ops_ok:
  assumes "phase_current_loop_config_is_valid (Some c)" "loop_ok c l"
  shows "loop_ok c (the (phase_current_loop_stop (Some l)))"
    "loop_ok c (the (snd (phase_current_loop_start (Some l))))"
    "loop_ok c (the (snd (phase_current_loop_set_reference_counts_prevalidated (Some l) (Some c)
      a b)))"
    "loop_ok c (the (snd (phase_current_loop_set_reference_counts (Some l) (Some c) a b)))"
  using call_loop_keeps [OF assms, of Loop_Stop] call_loop_keeps [OF assms, of Loop_Start]
    call_loop_keeps [OF assms, of "Loop_Set_Reference a b"] assms
  by (simp_all only: call_loop.simps phase_current_loop_set_reference_counts_def if_False
    not_True_eq_False simp_thms)

lemma accepted_reference:
  assumes "phase_current_loop_set_reference_counts_prevalidated (Some l) (Some c) a b = (True, l')"
  shows "pl_running (the l') = pl_running l"
  using assms by (auto simp: phase_current_loop_set_reference_counts_prevalidated.simps split:
    if_splits)

lemma fault_control: "control_ok s \<Longrightarrow> control_ok (fault_from_interrupt pf f s)"
  by (simp add: control_ok_def fault_from_interrupt_def Let_def accesses loop_ops_ok)

lemma guardian_control: "control_ok s \<Longrightarrow> control_ok (guardian_check pf g s)"
  by (simp add: guardian_check_def Let_def fault_control)

lemma pwm_update_control:
  assumes "control_ok s"
  shows "control_ok (pwm_update_event pf s)"
proof -
  have "control_ok (stop_loop (s\<lparr>cb_active := False, cb_bootstrap_probe_active := False\<rparr>))"
    using assms by (simp add: control_ok_def accesses loop_ops_ok)
  then have "control_ok (finish_bootstrap_probe pf s)"
    unfolding finish_bootstrap_probe_def
    by (auto simp: Let_def on_bridge_result intro!: fault_control)
      (simp add: control_ok_def accesses)
  then show ?thesis using assms
    by (simp add: pwm_update_event_def Let_def guardian_control fault_control)
qed

lemma preempt_control: "control_ok s \<Longrightarrow> control_ok (preempt pf g s)"
  by (simp add: preempt_def pwm_update_control)

lemma measure_keeps_loop:
  assumes "loop_ok c l" "pl_running l" "phase_current_loop_config_is_valid (Some c)"
    "phase_current_loop_measure_prevalidated l c a b zero_output = (ok, l', out)"
  shows "loop_ok c l'" "ok \<Longrightarrow> l' = l"
proof -
  have nf: "pl_fault_flags l = PHASE_CURRENT_LOOP_FAULT_NONE" using assms(1,2)
    by (simp add: loop_ok_def)
  have "(ok \<and> l' = l) \<or> (\<not> ok \<and> loop_ok c l')"
  proof (cases "sample_ok c a b")
    case True
    then show ?thesis using measure_accepts [OF assms(3) True nf] assms(4) by auto
  next
    case False
    note r = measure_rejects [OF False assms(4)]
    then show ?thesis using assms(1) by (simp add: loop_ok_def fault_latched_def)
  qed
  then show "loop_ok c l'" "ok \<Longrightarrow> l' = l" using assms(1) by auto
qed

lemma probe_event_control:
  assumes "control_ok s"
  shows "control_ok (bootstrap_probe_adc_event pf sn s)"
proof (cases "cb_active s")
  case True
  obtain ok l out where m: "phase_current_loop_measure_prevalidated (cb_loop s) (cb_config s)
      (as_current_a_raw sn) (as_current_b_raw sn) zero_output = (ok, l, out)"
    by (metis prod_cases3)
  have i: "loop_ok (cb_config s)
    (cb_loop s)" "pl_running (cb_loop s)" "phase_current_loop_config_is_valid (Some (cb_config s))"
    using assms True by (simp_all add: control_ok_def)
  note k = measure_keeps_loop [OF i m]
  have "control_ok (s\<lparr>cb_active := ok, cb_loop := l\<rparr>)" using assms True k by (simp add:
    control_ok_def)
  then have "control_ok (fault_from_interrupt pf f (s\<lparr>cb_loop := l\<rparr>))" for f
    using fault_control [of "s\<lparr>cb_active := ok, cb_loop := l\<rparr>" pf f]
    by (simp add: fault_from_interrupt_def Let_def accesses)
  moreover have "control_ok (s\<lparr>cb_loop := l\<rparr>)" if ok using assms k that by simp
  ultimately show ?thesis using assms
    by (simp add: bootstrap_probe_adc_event_def m Let_def on_bridge_result fault_control)
qed (simp add: bootstrap_probe_adc_event_def assms)

text \<open>The references of a period are within the configured limit.\<close>

definition references_ok :: "'h loop_backend \<Rightarrow> 'h loop_backend + (period_reference \<times> 'h
  loop_backend) \<Rightarrow> bool" where
  "references_ok s r = (case r of
     Inl s' \<Rightarrow> control_ok s' \<and> cb_fault_flags s' \<noteq> 0
   | Inr (p, s') \<Rightarrow> control_ok s' \<and> flags_of s' = flags_of s \<and> cb_config s' = cb_config s \<and>
       cb_sample_count s' = cb_sample_count s \<and>
       (pr_rotating p \<longrightarrow> \<bar>sint (pr_d p)\<bar> \<le> uint (lc_reference_limit_counts (cb_config s)) \<and>
          \<bar>sint (pr_q p)\<bar> \<le> uint (lc_reference_limit_counts (cb_config s))))"

lemma generator_amplitude:
  "rotating_current_test_step (Some g) (Some a) (Some b) = (ok, g', r) \<Longrightarrow>
     rt_amplitude_counts (the g') = rt_amplitude_counts g"
  by (auto simp: rotating_step_def ramp_advance_def Let_def split: if_splits bool.splits
    prod.splits)

lemma loop_fault_nonzero: "loop_fault s \<noteq> 0"
  by (simp add: loop_fault_def Let_def CURRENT_LOOP_BACKEND_FAULT_INTERNAL_def)

lemma fault_nonzero: "f \<noteq> 0 \<Longrightarrow> cb_fault_flags (fault_from_interrupt pf f s) \<noteq> 0"
  by (simp add: fault_from_interrupt_def Let_def accesses or_eq_0_iff)

text \<open>A fault whose reason came with a changed regulator.\<close>

lemma fault_control_inactive:
  assumes "control_ok (s\<lparr>cb_active := False\<rparr>)"
  shows "control_ok (fault_from_interrupt pf f s)"
  using fault_control [OF assms, of pf f] by (simp add: fault_from_interrupt_def Let_def accesses)

lemma rotating_references:
  assumes "control_ok s" "cb_active s" "cb_rotating_reference_active s"
  shows "references_ok s (rotating_reference_period pf s)"
proof -
  obtain ok g a b where st: "rotating_current_test_step (Some (cb_rotating_reference s)) (Some 0)
    (Some 0) = (ok, g, a, b)"
    by (metis prod_cases4)
  let ?s = "s\<lparr>cb_rotating_reference := the g\<rparr>"
  have c: "control_ok ?s" "cb_active ?s" "cb_rotating_reference_active ?s"
    using assms generator_amplitude [OF st] by (simp_all add: control_ok_def)
  have lim: "\<bar>sint (rt_amplitude_counts (the g))\<bar> \<le> uint (lc_reference_limit_counts (cb_config s))"
    using assms generator_amplitude [OF st] by (simp add: control_ok_def)
  obtain acc l where sr: "phase_current_loop_set_reference_counts_prevalidated (Some (cb_loop s))
    (Some (cb_config s))
      (the a) (the b) = (acc, l)" by fastforce
  have i: "phase_current_loop_config_is_valid (Some (cb_config s))" "loop_ok (cb_config s)
    (cb_loop s)"
    using assms by (simp_all add: control_ok_def)
  have l: "loop_ok (cb_config s) (the l)" using loop_ops_ok(3) [OF i, of "the a" "the b"] sr by simp
  have acc: "pl_running (the l) = pl_running (cb_loop s)" if acc using accepted_reference [of
    "cb_loop s" "cb_config s" "the a" "the b" l] sr that by simp
  have l2: "control_ok (?s\<lparr>cb_loop := the l\<rparr>)" if acc
    using c l acc [OF that] by (simp add: control_ok_def)
  have f: "control_ok (fault_from_interrupt pf f (?s\<lparr>cb_loop := the l\<rparr>))" for f
    using c l by (intro fault_control_inactive) (simp add: control_ok_def)
  show ?thesis
    unfolding rotating_reference_period_def Let_def st references_ok_def
    by (simp add: sr fault_control c fault_nonzero loop_fault_nonzero flags_of_def lim f l2)
qed

lemma aligned_references:
  assumes "control_ok s" "cb_active s" "cb_phase_prediction_active s"
  shows "references_ok s (aligned_reference_period pf s)"
  using assms(1)
  unfolding aligned_reference_period_def Let_def references_ok_def on_hw_result
  by (auto simp: fault_control fault_nonzero record_prediction_rejection_def flags_of_def
      CURRENT_LOOP_BACKEND_FAULT_PHASE_PREDICTION_def split: prod.split)
    (use assms in \<open>simp add: control_ok_def\<close>)

lemma period_references_ok:
  assumes "control_ok s" "cb_active s"
  shows "references_ok s (period_references pf s)"
  using rotating_references [OF assms, of pf] aligned_references [OF assms, of pf] assms
  by (simp add: period_references_def) (simp add: references_ok_def)

lemma regulator_outcome:
  assumes "control_ok s" "cb_active s"
    and "pr_rotating r \<longrightarrow> \<bar>sint (pr_d r)\<bar> \<le> uint (lc_reference_limit_counts (cb_config s)) \<and>
          \<bar>sint (pr_q r)\<bar> \<le> uint (lc_reference_limit_counts (cb_config s))"
    and "regulator_step r sn s = (ok, output, s')"
  obtains l where "s' = s\<lparr>cb_loop := l\<rparr>" "loop_ok (cb_config s) l" "safe_result (cb_config s) (ok,
    l, output)"
    "ok \<longleftrightarrow> sample_ok (cb_config s) (as_current_a_raw sn) (as_current_b_raw sn)" "ok \<Longrightarrow> pl_running l"
proof -
  have i: "phase_current_loop_config_is_valid (Some (cb_config s))" "loop_ok (cb_config s)
    (cb_loop s)"
    "pl_running (cb_loop s)" using assms(1,2) by (simp_all add: control_ok_def)
  let ?c = "cb_config s" and ?a = "as_current_a_raw sn" and ?b = "as_current_b_raw sn"
  show thesis
  proof (cases "pr_rotating r")
    case True
    obtain ok' l out where st: "step_rotating (cb_loop s) ?c ?a ?b (pr_d r) (pr_q r)
      (pr_sample_phase r) (pr_pwm_phase r) =
      (ok', l, out)" by (metis prod_cases3)
    then have "s' = s\<lparr>cb_loop := l\<rparr>" "ok' = ok" "out = output"
      using assms(4) True by (simp_all add: regulator_step_def split: prod.splits)
    then show ?thesis using that [of l] st assms(3) True
        rotating_accepts [OF i, of ?a ?b "pr_d r" "pr_q r" "pr_sample_phase r" "pr_pwm_phase r"]
        rotating_rejects [OF i(1,2) _ st]
      by (cases "sample_ok ?c ?a ?b") auto
  next
    case False
    obtain ok' l out where st: "step_stationary (cb_loop s) ?c ?a ?b = (ok', l,
      out)" by (metis prod_cases3)
    then have "s' = s\<lparr>cb_loop := l\<rparr>" "ok' = ok" "out = output"
      using assms(4) False by (simp_all add: regulator_step_def split: prod.splits)
    then show ?thesis using that [of l] st stationary_accepts [OF i,
      of ?a ?b] stationary_rejects [OF i(2) _ st]
      by (cases "sample_ok ?c ?a ?b") auto
  qed
qed

lemma publish_control: "control_ok s \<Longrightarrow> control_ok (publish_output pf r sn out s)"
  by (simp add: publish_output_def Let_def fault_control record_prediction_age_def
      record_prediction_rejection_def trace_record_def accesses split: prod.split)

lemma stage_control: "control_ok s \<Longrightarrow> control_ok (stage_output pf early late after r sn out s)"
  by (simp add: stage_output_def Let_def preempt_control fault_control publish_control
    on_bridge_result)

lemma adc_event_control:
  assumes "control_ok s"
  shows "control_ok (adc_current_event pf early late after status snapshot s)"
proof (cases "cb_active s")
  case True
  note refs = period_references_ok [OF assms True, of pf]
  have step: "control_ok (case regulator_step r sn s' of (ok, output, s) \<Rightarrow>
                 if \<not> ok then fault_from_interrupt pf (loop_fault s) (s\<lparr>cb_latest_output := output\<rparr>)
                 else stage_output pf early late after r sn output s)"
    if r: "period_references pf s = Inr (r, s')" for r s' sn
  proof -
    obtain ok out s2 where st: "regulator_step r sn s' = (ok, out, s2)" by (metis prod_cases3)
    have c: "control_ok s'" "cb_active s'" "pr_rotating r \<longrightarrow> \<bar>sint (pr_d r)\<bar> \<le> uint
      (lc_reference_limit_counts (cb_config s')) \<and>
          \<bar>sint (pr_q r)\<bar> \<le> uint (lc_reference_limit_counts (cb_config s'))"
      using refs True r by (simp_all add: references_ok_def flags_of_def)
    obtain l where l: "s2 = s'\<lparr>cb_loop := l\<rparr>" "loop_ok (cb_config s') l" "ok \<Longrightarrow> pl_running l"
      using regulator_outcome [OF c st] by metis
    have "control_ok (fault_from_interrupt pf f (s2\<lparr>cb_latest_output := out\<rparr>))" for f
      using c(1) l(1,2) by (intro fault_control_inactive) (simp add: control_ok_def)
    moreover have "control_ok s2" if ok using c(1) l that by (simp add: control_ok_def)
    ultimately show ?thesis by (simp add: st stage_control)
  qed
  show ?thesis
    using refs step assms
    by (auto simp: adc_current_event_def fault_control probe_event_control references_ok_def
        split: option.split sum.split)
qed (simp add: adc_current_event_def assms fault_control)

section \<open>The foreground calls\<close>

lemma set_loop_reference_control:
  assumes "control_ok s" "cb_initialized s" "set_loop_reference a b s = (ok, s')"
  obtains l where "s' = s\<lparr>cb_loop := l\<rparr>" "loop_ok (cb_config s) l" "ok \<Longrightarrow> control_ok s'"
proof -
  obtain l where sr: "phase_current_loop_set_reference_counts (Some (cb_loop s))
    (Some (cb_config s)) a b = (ok, l)"
    "s' = s\<lparr>cb_loop := the l\<rparr>"
    using assms(3) by (cases "phase_current_loop_set_reference_counts (Some (cb_loop s))
      (Some (cb_config s)) a b")
      (simp add: set_loop_reference_result)
  have i: "phase_current_loop_config_is_valid (Some (cb_config s))" "loop_ok (cb_config s)
    (cb_loop s)"
    using assms by (simp_all add: control_ok_def)
  have l: "loop_ok (cb_config s) (the l)" using loop_ops_ok(4) [OF i, of a b] sr by simp
  have "pl_running (the l) = pl_running (cb_loop s)" if ok
    using accepted_reference [of "cb_loop s" "cb_config s" a b l] sr that i by (simp add:
      phase_current_loop_set_reference_counts_def)
  then have "control_ok s'" if ok using assms l sr(2) that by (simp add: control_ok_def)
  then show thesis using that sr(2) l by blast
qed

definition fresh_loop :: phase_current_loop where
  "fresh_loop = empty_loop\<lparr>pl_initialized := True\<rparr>"

lemma stopped_control:
  assumes "control_ok s" "cb_initialized s \<longrightarrow> loop_ok (cb_config s) l"
  shows "control_ok (s\<lparr>cb_loop := l, cb_active := False\<rparr>)"
  using assms by (simp add: control_ok_def)

lemma set_reference_control:
  assumes "control_ok s"
  shows "control_ok (snd (current_loop_backend_set_reference_counts pf a b s))"
proof (cases "cb_initialized s")
  case True
  obtain ok s2 where sr: "set_loop_reference a b s = (ok, s2)" by fastforce
  obtain l where l: "s2 = s\<lparr>cb_loop := l\<rparr>" "loop_ok (cb_config s) l" "ok \<Longrightarrow> control_ok s2"
    using set_loop_reference_control [OF assms True sr] by metis
  show ?thesis using assms l stopped_control [OF assms, of l]
    by (cases ok) (simp_all add: current_loop_backend_set_reference_counts_def sr Let_def
      accesses reset_predictor_def control_ok_def)
qed (simp add: current_loop_backend_set_reference_counts_def assms)

lemma set_rotating_control:
  assumes "control_ok s"
  shows "control_ok (snd (current_loop_backend_set_rotating_reference amp i p n m s))"
proof -
  let ?refuse = "\<not> cb_initialized s \<or> cb_active s \<or> cb_fault_flags s \<noteq>
    CURRENT_LOOP_BACKEND_FAULT_NONE \<or>
         m = CURRENT_LOOP_BACKEND_CONTROLLER_COUNT \<or> lc_reference_limit_counts (cb_config s) < amp"
  obtain ok g where g: "rotating_current_test_init (Some empty_rotating_test) amp i p n = (ok,
    g)" by fastforce
  show ?thesis
  proof (cases "?refuse \<or> \<not> ok")
    case False
    then have init: "cb_initialized s" by simp
    obtain ok2 s2 where sr: "set_loop_reference 0 0 s = (ok2, s2)" by fastforce
    obtain l where l: "s2 = s\<lparr>cb_loop := l\<rparr>" "loop_ok (cb_config s) l" "ok2 \<Longrightarrow> control_ok s2"
      using set_loop_reference_control [OF assms init sr] by metis
    have "rt_amplitude_counts (the g) = amp" "0 < sint amp"
      using g False by (auto split: if_splits)
    moreover have "uint amp \<le> uint (lc_reference_limit_counts (cb_config s))"
      using False by (simp add: word_less_def not_less)
    moreover have "sint amp \<le> uint amp"
      using order_trans [OF _ uint_ge_0 [of amp],
        of "- 32768"] by (simp add: sint_uint signed_take_bit_int_less_eq_self_iff)
    ultimately show ?thesis using assms l False
      by (cases ok2) (simp_all add: current_loop_backend_set_rotating_reference_def g sr
        reset_predictor_def control_ok_def)
  qed (use assms g in \<open>auto simp: current_loop_backend_set_rotating_reference_def\<close>)
qed

lemma set_aligned_control:
  assumes "control_ok s"
  shows "control_ok (snd (current_loop_backend_set_aligned_q_reference pf q p v d t s))"
proof -
  obtain now s1 where m: "on_hw (pf_timebase_micros pf) s = (now, s1)" by fastforce
  then have c: "control_ok s1" using assms by (auto simp: on_hw_result)
  show ?thesis
  proof (cases "cb_initialized s1")
    case True
    obtain ok s2 where sr: "set_loop_reference 0 q s1 = (ok, s2)" by fastforce
    obtain l where l: "s2 = s1\<lparr>cb_loop := l\<rparr>" "loop_ok (cb_config s1) l" "ok \<Longrightarrow> control_ok s2"
      using set_loop_reference_control [OF c True sr] by metis
    have lim: "\<bar>sint q\<bar> \<le> uint (lc_reference_limit_counts (cb_config s1))"
      if "aligned_candidate q p v d t now s1 = Inr x" for x
      using that by (auto simp: aligned_candidate_def not_less split: if_splits)
    show ?thesis using c l lim
      unfolding current_loop_backend_set_aligned_q_reference_def m Let_def prod.case sr
      by (cases ok) (auto simp: accesses record_prediction_rejection_def record_prediction_age_def
        sr control_ok_def
        split: sum.split)
  qed (simp add: current_loop_backend_set_aligned_q_reference_def m c)
qed

lemma start_control:
  assumes "control_ok s"
  shows "control_ok (snd (current_loop_backend_start pf s))"
proof (cases "cb_initialized s \<and> \<not> cb_active s")
  case True
  obtain ok l where st: "phase_current_loop_start (Some (cb_loop s)) = (ok, l)" by fastforce
  have i: "phase_current_loop_config_is_valid (Some (cb_config s))" "loop_ok (cb_config s)
    (cb_loop s)"
    using assms True by (simp_all add: control_ok_def)
  have l: "loop_ok (cb_config s) (the l)" using loop_ops_ok(2) [OF i] st by simp
  have "pl_running (the l)" if ok using st that by (auto simp: phase_current_loop_start.simps split:
    if_splits)
  then have c: "control_ok (s\<lparr>cb_loop := the l, cb_bootstrap_probe_completed := False, cb_active :=
    ok\<rparr>)"
    "control_ok (s\<lparr>cb_loop := the l\<rparr>)"
    using assms l True by (simp_all add: control_ok_def)
  show ?thesis using assms c
    by (cases ok; auto simp: current_loop_backend_start_def st Let_def accesses split: bool.split
      prod.split
        intro!: fault_control; simp add: control_ok_def)
qed (auto simp: current_loop_backend_start_def assms)

lemma start_probe_control:
  assumes "control_ok s"
  shows "control_ok (snd (current_loop_backend_start_bootstrap_probe pf d v s))"
proof -
  obtain status current s1 where r: "on_hw (pf_adc1_read_synchronized_current pf) s = ((status,
    current), s1)"
    by (cases "on_hw (pf_adc1_read_synchronized_current pf) s") auto
  obtain a s2 where a: "current_loop_backend_set_reference_counts pf 0 0 s1 = (a, s2)" by fastforce
  obtain b s3 where b: "and_then (current_loop_backend_start pf) (a, s2) = (b, s3)" by fastforce
  have s1: "control_ok s1" using assms r by (auto simp: on_hw_result)
  have s2: "control_ok s2" using set_reference_control [OF s1, of pf 0 0] a by simp
  have s3: "control_ok s3" using start_control [OF s2,
    of pf] s2 b by (auto simp: and_then_def split: if_splits)
  then have "control_ok (s3\<lparr>cb_bootstrap_probe_completed := False\<rparr>)" by (simp add: control_ok_def)
  then show ?thesis using assms s1 s3
    unfolding current_loop_backend_start_bootstrap_probe_def
    by (cases b) (simp_all add: r a b control_ok_def)
qed

lemma refresh_control: "control_ok s \<Longrightarrow>
  control_ok (snd (current_loop_backend_refresh_bootstrap_probe_vbus pf v s))"
  by (simp add: current_loop_backend_refresh_bootstrap_probe_vbus_def fault_control)

lemma stop_control: "control_ok s \<Longrightarrow> control_ok (snd (current_loop_backend_stop pf s))"
  by (simp add: current_loop_backend_stop_def Let_def accesses reset_predictor_def split: bool.split
    prod.split)
    (simp add: control_ok_def loop_ops_ok)

lemma trace_arm_control: "control_ok s \<Longrightarrow> control_ok (snd (current_loop_backend_trace_arm pf s))"
  by (simp add: current_loop_backend_trace_arm_def and_then_def Let_def accesses split: prod.split)

lemma hardware_control: "control_ok s \<Longrightarrow> control_ok (hardware_event pf h s)"
  by (simp add: hardware_event_def on_hw_result)

lemma init_loop_valid:
  "phase_current_loop_config_is_valid (Some (cb_config s)) \<Longrightarrow> init_loop s = (True, s\<lparr>cb_loop :=
    fresh_loop\<rparr>)"
  by (simp add: init_loop_def phase_current_loop_init.simps fresh_loop_def)

lemma fresh_loop_ok: "phase_current_loop_config_is_valid (Some c) \<Longrightarrow> loop_ok c fresh_loop"
  by (rule initialised_ok [of empty_loop]) (simp add: phase_current_loop_init.simps fresh_loop_def)

lemma chain_control [simp]:
  "control_ok (snd (init_predictor s)) = control_ok s" "control_ok (snd (on_hw g s)) = control_ok s"
  "control_ok (snd (on_bridge k s)) = control_ok s" "control_ok (snd (install_update_handler pf s))
    = control_ok s"
  "control_ok (snd (restart_adc pf s)) = control_ok s"
  by (simp_all add: init_predictor_def install_update_handler_def restart_adc_def on_hw_result
      on_bridge_result split: prod.split)

lemma control_and_then: "(\<And>s. control_ok (snd (f s)) = control_ok s) \<Longrightarrow>
  control_ok (snd (and_then f r)) = control_ok (snd r)"
  by (simp add: and_then_def)

lemma rebuild_control [simp]: "control_ok (snd (rebuild_pwm pf s)) = control_ok s"
  by (simp add: rebuild_pwm_def control_and_then)

lemma chain_control_init:
  "control_ok (snd (init_predictor s)\<lparr>cb_initialized := x\<rparr>) = control_ok (s\<lparr>cb_initialized := x\<rparr>)"
  "control_ok (snd (on_hw g s)\<lparr>cb_initialized := x\<rparr>) = control_ok (s\<lparr>cb_initialized := x\<rparr>)"
  "control_ok (snd (install_update_handler pf s)\<lparr>cb_initialized := x\<rparr>) =
    control_ok (s\<lparr>cb_initialized := x\<rparr>)"
  "(\<And>s. control_ok (snd (f s)\<lparr>cb_initialized := x\<rparr>) = control_ok (s\<lparr>cb_initialized := x\<rparr>)) \<Longrightarrow>
     control_ok (snd (and_then f r)\<lparr>cb_initialized := x\<rparr>) = control_ok (snd r\<lparr>cb_initialized := x\<rparr>)"
  by (simp_all add: control_ok_def init_predictor_def install_update_handler_def on_hw_result
    on_bridge_result
      and_then_def split: prod.split)

lemma attach_initialized: "cb_initialized (snd (attach_backend pf s)) = cb_initialized s"
  by (simp add: attach_backend_def init_predictor_def init_loop_def install_update_handler_def
    on_hw_result
      on_bridge_result and_then_def split: prod.split)

lemma rebuild_config: "cb_config (snd (rebuild_pwm pf s)) = cb_config s"
  by (simp add: rebuild_pwm_def install_update_handler_def on_bridge_result and_then_def)

lemma restart_control:
  assumes "control_ok s" "\<not> cb_active s" "cb_initialized s"
  shows "control_ok (snd (restart_backend pf s))"
proof -
  have v: "phase_current_loop_config_is_valid (Some (cb_config s))" using assms by (simp add:
    control_ok_def)
  have "control_ok (s\<lparr>cb_loop := fresh_loop\<rparr>)" using assms fresh_loop_ok [OF v] by (simp add:
    control_ok_def)
  then show ?thesis by (simp add: restart_backend_def control_and_then init_loop_valid [OF v])
qed

lemma reset_control: "control_ok s \<Longrightarrow> control_ok (reset_reporting s)"
  by (simp add: reset_reporting_def) (simp add: control_ok_def)

lemma recover_control:
  assumes "control_ok s"
  shows "control_ok (snd (snd (current_loop_backend_recover pf c s)))"
proof (cases "cb_initialized s")
  case True
  let ?s = "force_bridge_low pf (stop_loop (update_irq_off pf (timing_capture_off pf (s\<lparr>cb_active :=
    False,
    cb_bootstrap_probe_active := False, cb_bootstrap_probe_completed := False, cb_trace_armed :=
      False\<rparr>))))"
  obtain ok s1 where b: "restart_backend pf ?s = (ok, s1)" by fastforce
  have "control_ok ?s" using assms by (simp add: accesses) (simp add: control_ok_def loop_ops_ok)
  then have "control_ok s1" using restart_control [of ?s pf] b True by (simp add: accesses)
  then show ?thesis unfolding current_loop_backend_recover_def Let_def b
    by (simp add: reset_control accesses True)
qed (simp add: current_loop_backend_recover_def assms accesses)

lemma init_control:
  assumes "control_ok s"
  shows "control_ok (snd (current_loop_backend_init pf c p s))"
proof (cases "cb_initialized s \<or> \<not> phase_current_loop_config_is_valid c \<or>
    \<not> electrical_phase_predictor_config_is_valid p")
  case True
  then show ?thesis using assms by (simp only: current_loop_backend_init_def if_True snd_conv)
next
  case False
  then obtain c' where c: "c = Some c'" by (cases c)
    (auto simp: phase_current_loop_config_is_valid.simps)
  let ?s = "clear_backend pf (the c) (the p) s"
  have cfg: "cb_config ?s = c'" by (simp add: clear_backend_def accesses reset_reporting_def c)
  have v: "phase_current_loop_config_is_valid (Some (cb_config ?s))" using False cfg c by simp
  have "control_ok (?s\<lparr>cb_loop := fresh_loop, cb_initialized := x\<rparr>)" for x
    using fresh_loop_ok [OF v] v by (simp add: control_ok_def clear_backend_def accesses
      reset_reporting_def)
  then have i: "control_ok (snd (attach_backend pf ?s)\<lparr>cb_initialized := x\<rparr>)" for x
    by (simp add: attach_backend_def chain_control_init init_loop_valid [OF v])
  have "\<not> cb_initialized (snd (attach_backend pf ?s))"
    by (simp add: attach_initialized) (simp add: clear_backend_def accesses reset_reporting_def)
  then have "control_ok (snd (attach_backend pf ?s))" using i [of False] by (simp add:
    control_ok_def)
  then show ?thesis using i [of True]
    unfolding current_loop_backend_init_def if_not_P [OF False]
    by (cases "attach_backend pf ?s") (simp split: bool.split)
qed

lemma reconfigure_control:
  assumes "control_ok s"
  shows "control_ok (snd (current_loop_backend_reconfigure_gains pf kp ki s))"
proof -
  let ?c = "(cb_config s)\<lparr>lc_proportional_gain_q16_per_count := kp,
    lc_integral_gain_q16_per_count_per_step := ki\<rparr>"
  let ?s = "force_bridge_low pf (update_irq_off pf (timing_capture_off pf (s\<lparr>cb_trace_armed :=
    False\<rparr>)))"
  obtain lo l po p where r: "phase_current_loop_init (Some (cb_loop s)) (Some ?c) = (lo, l)"
    "electrical_phase_predictor_init (Some (cb_phase_predictor s))
      (Some (cb_phase_predictor_config s)) = (po, p)"
    by fastforce
  obtain ok s1 where b: "rebuild_pwm pf ?s = (ok, s1)" by fastforce
  have "control_ok ?s" using assms by (simp add: accesses)
  then have s1: "control_ok s1" using rebuild_control [of pf ?s, unfolded b snd_conv] by simp
  have a1: "cb_active s1 = cb_active s" using chains_flags(1)
    [of pf ?s] b by (simp add: flags_of_def accesses)
  have lim: "cb_config s1 = cb_config s" using rebuild_config [of pf ?s] b by (simp add: accesses)
  have "control_ok (reset_reporting (s1\<lparr>cb_config := ?c, cb_loop := the l, cb_phase_predictor :=
    the p\<rparr>))"
    if "phase_current_loop_config_is_valid (Some ?c)" "\<not> cb_active s"
    using s1 a1 lim that fresh_loop_ok [OF that(1)] r(1)
    by (auto simp: control_ok_def reset_reporting_def phase_current_loop_init.simps fresh_loop_def)
  then show ?thesis using assms s1
    unfolding current_loop_backend_reconfigure_gains_def Let_def b r
    by (simp add: accesses)
qed

text \<open>Every call and interrupt keeps the invariant.\<close>

lemma call_backend_control: "control_ok s \<Longrightarrow> control_ok (call_backend pf s e)"
  by (cases e) (simp_all add: adc_event_control pwm_update_control hardware_control init_control
    set_reference_control
      set_rotating_control set_aligned_control start_control start_probe_control refresh_control
        stop_control
      reconfigure_control recover_control trace_arm_control)

interpretation control_run: invariant_machine "call_backend pf" control_ok for pf
  by unfold_locales (rule call_backend_control)

section \<open>The outcome of a sample\<close>

definition tripped :: "'h platform \<Rightarrow> 'h loop_backend \<Rightarrow> bool" where
  "tripped pf s \<longleftrightarrow> cb_fault_flags s \<noteq> 0 \<and> \<not> cb_active s \<and> bridge_low (pf_bus pf)
    (br_hw (cb_bridge s))"

definition power_up :: "'h loop_backend \<Rightarrow> bool" where
  "power_up s \<longleftrightarrow> flags_of s = (0, False, False) \<and> \<not> cb_initialized s \<and>
    \<not> cb_phase_prediction_active s \<and>
     \<not> cb_rotating_reference_active s"

lemma power_up_control: "power_up s \<Longrightarrow> control_ok (foldl (call_backend pf) s es)"
  by (rule control_run.run_inv) (simp add: power_up_def control_ok_def flags_of_def)

context loop_platform
begin

lemma fault_trips: "f \<noteq> 0 \<Longrightarrow> tripped pf (fault_from_interrupt pf f s)"
  using fault_off(3) [of f s] by (simp add: tripped_def fault_off bridge_off_def or_eq_0_iff)

lemmas backend_faults = CURRENT_LOOP_BACKEND_FAULT_ADC_def CURRENT_LOOP_BACKEND_FAULT_PWM_def
  CURRENT_LOOP_BACKEND_FAULT_DEADLINE_def CURRENT_LOOP_BACKEND_FAULT_INTERNAL_def
  CURRENT_LOOP_BACKEND_FAULT_PHASE_PREDICTION_def CURRENT_LOOP_BACKEND_FAULT_BOOTSTRAP_VBUS_def

text \<open>The guardian preempts a running regulator: it either trips or only counts.\<close>

lemma guardian_preempts:
  assumes "cb_active s" "\<not> cb_bootstrap_probe_active s"
  shows "tripped pf (preempt pf g s) \<or>
    (cb_active (preempt pf g s) \<and> \<not> cb_bootstrap_probe_active (preempt pf g s) \<and>
     cb_sample_count (preempt pf g s) = cb_sample_count s)"
  using assms by (simp add: preempt_def pwm_update_event_def guardian_check_def Let_def fault_trips
    backend_faults)

lemma compares_staged_capture:
  "compares_staged (pf_bus pf) d (b\<lparr>br_hw := snd (pf_adc1_set_current_timing_capture pf on (br_hw
    b))\<rparr>)
     = compares_staged (pf_bus pf) d b"
  by (simp add: compares_staged_def rd16_def rd_def timing_capture_timer)

lemma trace_record_parts:
  "cb_active (trace_record pf sn out c m s) = cb_active s"
  "cb_sample_count (trace_record pf sn out c m s) = cb_sample_count s"
  "compares_staged (pf_bus pf) d (cb_bridge (trace_record pf sn out c m s))
     = compares_staged (pf_bus pf) d (cb_bridge s)"
  by (simp_all add: trace_record_def Let_def accesses compares_staged_capture)

text \<open>A published output: the loop still active, the sample counted, and the compare registers
  still holding the duties of the output.\<close>

lemma publish_outcome:
  "tripped pf (publish_output pf r sn out s) \<or>
   (cb_active (publish_output pf r sn out s) = cb_active s \<and>
     cb_latest_output (publish_output pf r sn out s) = out \<and>
    cb_sample_count (publish_output pf r sn out s) = cb_sample_count s + 1 \<and>
    compares_staged (pf_bus pf) d (cb_bridge (publish_output pf r sn out s))
      = compares_staged (pf_bus pf) d (cb_bridge s))"
  by (simp add: publish_output_def Let_def fault_trips backend_faults record_prediction_age_def
    trace_record_parts split: prod.split)

lemma publish_tripped:
  assumes "tripped pf s" "fault_safe pf s"
  shows "tripped pf (publish_output pf r sn out s)"
proof -
  have "cb_fault_flags s \<noteq> 0" using assms(1) by (simp add: tripped_def)
  note f = publish_faulted [OF assms(2) this, of r sn out]
  show ?thesis
  proof (cases "cb_trace_armed s")
    case True
    then show ?thesis by (simp add: f(1) fault_trips backend_faults)
  next
    case False
    then show ?thesis using f(2) \<open>cb_fault_flags s \<noteq> 0\<close>
      by (simp add: fault_safe_def tripped_def bridge_off_def)
  qed
qed

text \<open>A guardian that does not trip leaves the bridge alone.\<close>

lemma guardian_bridge:
  assumes "cb_active s" "\<not> cb_bootstrap_probe_active s" "\<not> tripped pf (preempt pf g s)"
  shows "cb_bridge (preempt pf g s) = cb_bridge s"
  using assms by (auto simp: preempt_def pwm_update_event_def guardian_check_def Let_def fault_trips
    backend_faults count_empty_update_def split: if_splits)

lemma staged_outcome:
  assumes "fault_safe pf s" "cb_active s" "\<not> cb_bootstrap_probe_active s"
    "compares_staged (pf_bus pf) d (cb_bridge s)" "s' = publish_output pf r sn out (preempt pf g s)"
  shows "tripped pf s' \<or> (cb_active s' \<and> cb_latest_output s' = out \<and>
    cb_sample_count s' = cb_sample_count s + 1 \<and> compares_staged (pf_bus pf) d (cb_bridge s'))"
proof (cases "tripped pf (preempt pf g s)")
  case True
  then show ?thesis using publish_tripped [OF True preempt_safe [OF assms(1)]] assms(5) by simp
next
  case False
  then show ?thesis
    using guardian_preempts [OF assms(2,3), of g] guardian_bridge [OF assms(2,3) False] assms(4,5)
      publish_outcome [of r sn out "preempt pf g s" d] by auto
qed

lemma stage_outcome:
  assumes "fault_safe pf s" "cb_active s" "\<not> cb_bootstrap_probe_active s"
    "length (po_duty_permille out) = 4" "s' = stage_output pf early late after r sn out s"
  shows "tripped pf s' \<or> (cb_active s' \<and> cb_latest_output s' = out \<and> cb_sample_count s' =
    cb_sample_count s + 1 \<and> compares_staged (pf_bus pf) (po_duty_permille out) (cb_bridge s'))"
proof -
  let ?e = "preempt pf early s" and ?l = "preempt pf late (preempt pf early s)"
  let ?st = "tim3_bridge_pwm_stage_duties (pf_bus pf) (Some (po_duty_permille out)) (cb_bridge ?l)"
  have s': "s' = (if \<not> cb_active ?e then ?e else if \<not> fst ?st then fault_from_interrupt pf
    CURRENT_LOOP_BACKEND_FAULT_PWM (?l\<lparr>cb_bridge := snd ?st\<rparr>)
    else publish_output pf r sn out (preempt pf after (?l\<lparr>cb_bridge := snd ?st\<rparr>)))"
    using assms(5) by (simp add: stage_output_def Let_def on_bridge_result)
  have safe: "fault_safe pf ?l" by (intro preempt_safe assms(1))
  from guardian_preempts [OF assms(2,3), of early] consider "\<not> cb_active ?e" "tripped pf ?e"
    | "cb_active ?e" "\<not> cb_bootstrap_probe_active ?e" "cb_sample_count ?e = cb_sample_count s"
    by (auto simp: tripped_def)
  then show ?thesis
  proof cases
    case 1
    then show ?thesis using s' by simp
  next
    case 2
    show ?thesis
    proof (cases "cb_active ?l \<and> fst ?st")
      case True
      then have "cb_sample_count ?l = cb_sample_count s" "\<not> cb_bootstrap_probe_active ?l"
        using guardian_preempts [OF 2(1,2), of late] 2(3) by (auto simp: tripped_def)
      moreover have "compares_staged (pf_bus pf) (po_duty_permille out) (snd ?st)"
        using True by (intro stage_compares [of _ _ "cb_bridge ?l", OF _ assms(4)])
          (simp add: prod_eq_iff)
      moreover have "fault_safe pf (?l\<lparr>cb_bridge := snd ?st\<rparr>)"
        using safe True by (simp add: fault_safe_def)
      ultimately show ?thesis
        using s' 2(1) True staged_outcome [of "?l\<lparr>cb_bridge := snd ?st\<rparr>"] by simp
    next
      case False
      then have "\<not> fst ?st" if "\<not> cb_active ?l"
        using guardian_preempts [OF 2(1,2), of late] safe that
        by (auto simp: tripped_def fault_safe_def stopped_bridge)
      then show ?thesis using s' 2(1) False by (auto simp: fault_trips backend_faults)
    qed
  qed
qed

lemma sample_outcome:
  assumes "fault_safe pf s" "control_ok s" "cb_active s" "\<not> cb_bootstrap_probe_active s"
    and "s' = adc_current_event pf early late after ADC1_STATUS_OK (Some sn) s"
  shows "tripped pf s' \<or> (sample_ok (cb_config s) (as_current_a_raw sn) (as_current_b_raw sn) \<and>
    cb_active s' \<and>
    cb_sample_count s' = cb_sample_count s + 1 \<and> safe_result (cb_config s) (True, cb_loop s',
      cb_latest_output s') \<and>
    compares_staged (pf_bus pf) (po_duty_permille (cb_latest_output s')) (cb_bridge s'))"
proof -
  have nc: "\<not> cb_bootstrap_probe_completed s" and nf: "cb_fault_flags s = 0"
    using assms(1-3) by (auto simp: control_ok_def fault_safe_def)
  note refs = period_references_ok [OF assms(2,3), of pf]
  show ?thesis
  proof (cases "period_references pf s")
    case (Inl s1)
    moreover have "fault_safe pf s1" using references_safe [of s] nf assms(4) Inl by simp
    ultimately show ?thesis using assms(3,4,5) nc refs
      by (auto simp: adc_current_event_def references_ok_def tripped_def fault_safe_def
        bridge_off_def)
  next
    case (Inr x)
    obtain r s1 where x: "x = (r, s1)" by fastforce
    obtain ok out s2 where st: "regulator_step r sn s1 = (ok, out, s2)" by (metis prod_cases3)
    have c: "control_ok s1" "cb_active s1" "pr_rotating r \<longrightarrow> \<bar>sint (pr_d r)\<bar> \<le> uint
      (lc_reference_limit_counts (cb_config s1)) \<and>
          \<bar>sint (pr_q r)\<bar> \<le> uint (lc_reference_limit_counts (cb_config s1))"
      "cb_config s1 = cb_config s" "cb_sample_count s1 =
        cb_sample_count s" "\<not> cb_bootstrap_probe_active s1" "cb_fault_flags s1 = 0"
      using refs Inr x assms(3,4) nf by (simp_all add: references_ok_def flags_of_def)
    obtain l where l: "s2 = s1\<lparr>cb_loop := l\<rparr>" "safe_result (cb_config s1) (ok, l, out)"
      "ok \<longleftrightarrow> sample_ok (cb_config s) (as_current_a_raw sn) (as_current_b_raw sn)"
      using regulator_outcome [OF c(1-3) st] c(4) by metis
    have s': "s' = (if \<not> ok then fault_from_interrupt pf (loop_fault s2) (s2\<lparr>cb_latest_output :=
      out\<rparr>)
      else stage_output pf early late after r sn out s2)"
      using assms(3,4,5) nc Inr x by (simp add: adc_current_event_def st)
    have "fault_safe pf s2" using c(6,7) l(1) by (simp add: fault_safe_def)
    moreover have "ok \<Longrightarrow> length (po_duty_permille out) = 4"
      using l(2) by (auto simp: duties_match_def)
    ultimately have "ok \<Longrightarrow> tripped pf s' \<or> (cb_active s' \<and> cb_latest_output s' = out \<and>
      cb_sample_count s' = cb_sample_count s + 1 \<and>
      compares_staged (pf_bus pf) (po_duty_permille out) (cb_bridge s'))"
      using stage_outcome [of s2 out s' early late after r sn] l(1) c(2,5,6) s' by simp
    then show ?thesis using s' l(2,3) c(4) by (cases ok) (auto simp: fault_trips loop_fault_nonzero)
  qed
qed

end

text \<open>
  C7. Every sample of a running loop is decided safely. In any state reached from power-up in which
  the loop is active and no bootstrap probe runs, an ADC event, with the guardian preempting it or
  not before its second look at the active flag, before it stages the duties and before it
  publishes, either trips the backend (fault latched, loop inactive, bridge driven low) or both
  samples were plausible and within the hard limit, and the published output has phase voltages
  within the configured limit and the duties that realise them, none above the permitted duty; and
  the four compare registers of the bridge timer hold these very duties, each to the nearest tick
  of the period.
\<close>

theorem every_sample_decided:
  assumes "loop_platform pf" "power_up s0" "s = foldl (call_backend pf) s0 es"
    and "cb_active s" "\<not> cb_bootstrap_probe_active s"
    and "s' = adc_current_event pf early late after ADC1_STATUS_OK (Some sn) s"
  shows "tripped pf s' \<or> (sample_ok (cb_config s) (as_current_a_raw sn) (as_current_b_raw sn) \<and>
    cb_active s' \<and>
    cb_sample_count s' = cb_sample_count s + 1 \<and> safe_result (cb_config s) (True, cb_loop s',
      cb_latest_output s') \<and>
    compares_staged (pf_bus pf) (po_duty_permille (cb_latest_output s')) (cb_bridge s'))"
  using loop_platform.sample_outcome [OF assms(1) _ _ assms(4-6)] power_up_control [OF assms(2)]
    assms(2,3)
    loop_platform.run_safe [OF assms(1)] by (simp add: power_up_def)

end
