(* ===== verification/Backend_Deadlines.thy ===== *)
theory Backend_Deadlines
  imports Backend_Control
begin

text \<open>
  Deadlines of the current loop backend, as countdowns (locale \<open>countdown_machine\<close>): the guardian
    that
  trips a loop whose samples stop, the duration of the bootstrap probe and the lease on its supply
  voltage. At the end an executable platform on which the theorems of the backend are applied.
\<close>

section \<open>Deadlines\<close>

text \<open>
  A machine whose rank an event of a permitted kind never raises, and a tick lowers: after as many
  ticks as the rank had, it is zero.
\<close>

locale countdown_machine = invariant_machine step inv
  for step :: "'s \<Rightarrow> 'e \<Rightarrow> 's" and inv :: "'s \<Rightarrow> bool" +
  fixes rank :: "'s \<Rightarrow> nat"
    and tick :: "'e \<Rightarrow> bool"
    and permitted :: "'e \<Rightarrow> bool"
  assumes rank_step: "inv s \<Longrightarrow> permitted e \<Longrightarrow> rank (step s e) \<le> rank s - (if tick e then 1 else 0)"
begin

lemma countdown:
  "inv s \<Longrightarrow> list_all permitted es \<Longrightarrow> rank (foldl step s es) \<le> rank s - length (filter tick es)"
proof (induction es arbitrary: s)
  case (Cons e es)
  have "rank (step s e) \<le> rank s - (if tick e then 1 else 0)" using Cons.prems rank_step by simp
  moreover have "rank (foldl step (step s e) es) \<le> rank (step s e) - length (filter tick es)"
    using Cons step_inv by simp
  ultimately show ?case by (cases "tick e") auto
qed simp

end

fun is_tick :: "'h backend_call \<Rightarrow> bool" where
  "is_tick Pwm_Update = True" | "is_tick _ = False"

fun no_sample :: "'h backend_call \<Rightarrow> bool" where
  "no_sample (Adc_Event early late after status snapshot) = False" | "no_sample Backend_Start =
    False"
| "no_sample (Start_Probe d v) = False" | "no_sample _ = True"

fun no_probe_start :: "'h backend_call \<Rightarrow> bool" where
  "no_probe_start (Start_Probe d v) = False" | "no_probe_start _ = True"

fun no_refresh :: "'h backend_call \<Rightarrow> bool" where
  "no_refresh (Start_Probe d v) = False" | "no_refresh (Refresh_Probe v) = False" | "no_refresh _ =
    True"

text \<open>How many more updates without a sample the guardian allows, and how many the probe has left.\<close>

definition guardian_rank :: "'h loop_backend \<Rightarrow> nat" where
  "guardian_rank s =
     (if \<not> cb_active s then 0
      else if \<not> cb_guardian_primed s \<or> cb_output_generation s \<noteq> cb_guardian_generation s then 3
      else if cb_guardian_empty_updates s = 0 then 2 else 1)"

definition probe_rank :: "'h loop_backend \<Rightarrow> nat" where
  "probe_rank s = (if cb_bootstrap_probe_active s then max 1 (unat (cb_bootstrap_remaining_ticks s))
    else 0)"

definition lease_rank :: "'h loop_backend \<Rightarrow> nat" where
  "lease_rank s = (if cb_bootstrap_probe_active s then max 1 (unat (cb_bootstrap_vbus_lease_ticks
    s)) else 0)"

definition timing_of :: "'h loop_backend \<Rightarrow> u32 \<times> u32 \<times> bool \<times> u32 \<times> bool \<times> u32 \<times> u32" where
  "timing_of s = (cb_output_generation s, cb_guardian_generation s, cb_guardian_primed s,
    cb_guardian_empty_updates s,
     cb_bootstrap_probe_active s, cb_bootstrap_remaining_ticks s, cb_bootstrap_vbus_lease_ticks s)"

lemma guardian_rank_timing: "cb_active s' = cb_active s \<Longrightarrow> timing_of s' = timing_of s \<Longrightarrow>
  guardian_rank s' = guardian_rank s"
  by (simp add: guardian_rank_def timing_of_def)

lemma empty_count: "cb_guardian_empty_updates (count_empty_update s) =
  (if cb_guardian_empty_updates s = 0xFFFFFFFF then 0xFFFFFFFF else cb_guardian_empty_updates s +
    1)"
  by (simp add: count_empty_update_def Let_def)

lemma above_one: "(x :: u32) \<noteq> 0 \<Longrightarrow> x \<noteq> 1 \<Longrightarrow> 1 < x"
  by (metis linorder_neqE word_less_1 word_not_simps(1) word_neq_0_conv)

lemma second_empty_update: "(e :: u32) \<noteq> 0 \<Longrightarrow> e \<noteq> 0xFFFFFFFF \<Longrightarrow> 1 < e + 1"
proof (rule above_one)
  assume "e \<noteq> 0xFFFFFFFF"
  moreover have "- 1 = (0xFFFFFFFF :: u32)" by simp
  ultimately show "e + 1 \<noteq> 0" by (metis eq_neg_iff_add_eq_0)
qed simp

context loop_platform
begin

lemma fault_ranks [simp]: "guardian_rank (fault_from_interrupt pf f s) =
  0" "probe_rank (fault_from_interrupt pf f s) = 0"
  "lease_rank (fault_from_interrupt pf f s) = 0"
  by (simp_all add: guardian_rank_def probe_rank_def lease_rank_def fault_off)

lemma guardian_check_rank:
  assumes "cb_active s" "g = cb_output_generation s"
  shows "guardian_rank (guardian_check pf g s) \<le> guardian_rank s - 1"
  using assms second_empty_update [of "cb_guardian_empty_updates s"]
  by (auto simp: guardian_check_def Let_def empty_count MAX_CONSECUTIVE_EMPTY_PWM_UPDATES_def)
    (auto simp: guardian_rank_def empty_count)

lemma guardian_check_probe:
  "probe_rank (guardian_check pf g s) \<le> probe_rank s" "lease_rank (guardian_check pf g s)
    \<le> lease_rank s"
  by (simp_all add: guardian_check_def Let_def) (simp_all add: probe_rank_def lease_rank_def)

lemma finish_ranks [simp]:
  "guardian_rank (finish_bootstrap_probe pf s) = 0" "probe_rank (finish_bootstrap_probe pf s) = 0"
  "lease_rank (finish_bootstrap_probe pf s) = 0"
  by (simp_all add: finish_bootstrap_probe_def Let_def on_bridge_result stop_loop_def)
    (simp_all add: guardian_rank_def probe_rank_def lease_rank_def)

lemma tick_down: "\<not> (x :: u32) \<le> 1 \<Longrightarrow> max 1 (unat (x - 1)) \<le> max 1 (unat x) - 1"
proof -
  assume "\<not> x \<le> 1"
  then have "1 < unat x" by (simp add: word_le_nat_alt)
  moreover from this have "unat (x - 1) = unat x - 1" by (simp add: unat_sub word_le_nat_alt)
  ultimately show ?thesis by simp
qed

lemma pwm_update_ranks:
  assumes "fault_safe pf s"
  shows "guardian_rank (pwm_update_event pf s) \<le> guardian_rank s - 1 \<and>
    probe_rank (pwm_update_event pf s) \<le> probe_rank s - 1 \<and> lease_rank (pwm_update_event pf s)
      \<le> lease_rank s - 1"
proof -
  let ?g = "cb_output_generation s"
  consider "\<not> cb_active s" "\<not> cb_bootstrap_probe_active s" | "cb_active s" "\<not>
    cb_bootstrap_probe_active s"
    | "cb_active s" "cb_bootstrap_probe_active s" using assms by (auto simp: fault_safe_def)
  then show ?thesis
  proof cases
    case 1
    then show ?thesis by (simp add: pwm_update_event_def guardian_rank_def probe_rank_def
      lease_rank_def)
  next
    case 2
    then have "probe_rank s = 0" "lease_rank s = 0" by (simp_all add: probe_rank_def lease_rank_def)
    then show ?thesis using 2 guardian_check_rank [OF 2(1) refl] guardian_check_probe [of ?g s]
      by (simp add: pwm_update_event_def)
  next
    case 3
    let ?s = "s\<lparr>cb_bootstrap_remaining_ticks := cb_bootstrap_remaining_ticks s - 1,
      cb_bootstrap_vbus_lease_ticks := cb_bootstrap_vbus_lease_ticks s - 1\<rparr>"
    have r: "guardian_rank ?s = guardian_rank s" by (simp add: guardian_rank_def)
    have down: "probe_rank ?s \<le> probe_rank s - 1" if "\<not> cb_bootstrap_remaining_ticks s \<le> 1"
      using tick_down [OF that] 3 by (simp add: probe_rank_def)
    have down2: "lease_rank ?s \<le> lease_rank s - 1" if "\<not> cb_bootstrap_vbus_lease_ticks s \<le> 1"
      using tick_down [OF that] 3 by (simp add: lease_rank_def)
    show ?thesis using 3 guardian_check_rank [of ?s ?g] guardian_check_probe [of ?g ?s] r down down2
      by (auto simp: pwm_update_event_def Let_def)
  qed
qed

text \<open>The calls that neither sample nor start leave the timing alone,
  unless they deactivate the loop.\<close>

lemma timing_kept:
  assumes "fault_safe pf s" "no_sample e" "\<not> is_tick e" "no_refresh e" "cb_active (call_backend pf s
    e)"
  shows "cb_active s \<and> timing_of (call_backend pf s e) = timing_of s"
proof (cases e)
  case (Set_Reference a b)
  with assms show ?thesis
    by (auto simp: current_loop_backend_set_reference_counts_def set_loop_reference_result Let_def
      accesses
      reset_predictor_def timing_of_def split: if_splits bool.splits)
next
  case (Set_Rotating a i p n m)
  with assms show ?thesis
    by (auto simp: current_loop_backend_set_rotating_reference_def set_loop_reference_result
      reset_predictor_def timing_of_def split: if_splits bool.splits prod.splits)
next
  case (Set_Aligned q p v d t)
  with assms show ?thesis
    by (auto simp: current_loop_backend_set_aligned_q_reference_def set_loop_reference_result
      Let_def accesses
      record_prediction_rejection_def record_prediction_age_def timing_of_def
      split: if_splits bool.splits prod.splits sum.splits)
next
  case Backend_Stop
  with assms show ?thesis
    by (auto simp: current_loop_backend_stop_def Let_def accesses reset_predictor_def
      timing_of_def split: if_splits bool.splits prod.splits)
next
  case (Hardware h)
  with assms show ?thesis by (auto simp: hardware_event_def on_hw_result timing_of_def split:
    if_splits)
next
  case Trace_Arm
  with assms show ?thesis
    by (auto simp: current_loop_backend_trace_arm_def and_then_def Let_def accesses timing_of_def
      split: if_splits prod.splits)
next
  case (Backend_Init c p)
  with assms(5) init_flags [of pf c p s] show ?thesis by (auto simp: flags_of_def)
next
  case (Reconfigure kp ki)
  with assms(5) reconfigure_flags [of s pf kp ki] show ?thesis by (cases "cb_active s") auto
next
  case Recover
  with assms(5) recover_flags(1) [of s pf None] have "\<not> cb_initialized s" by auto
  then show ?thesis using assms(5) Recover
    by (simp add: current_loop_backend_recover_def accesses timing_of_def)
qed (use assms in simp_all)

text \<open>What the other events do to the ranks.\<close>

lemma other_ranks:
  assumes "fault_safe pf s" "no_sample e" "\<not> is_tick e" "no_refresh e"
  shows "guardian_rank (call_backend pf s e) \<le> guardian_rank s \<and> probe_rank (call_backend pf s e)
    \<le> probe_rank s \<and>
    lease_rank (call_backend pf s e) \<le> lease_rank s"
proof (cases "cb_active (call_backend pf s e)")
  case True
  with timing_kept [OF assms] show ?thesis
    by (simp add: timing_of_def guardian_rank_def probe_rank_def lease_rank_def)
next
  case False
  then have "\<not> cb_bootstrap_probe_active (call_backend pf s e)"
    using call_backend_safe [OF assms(1), of e] by (auto simp: fault_safe_def)
  with False show ?thesis by (simp add: guardian_rank_def probe_rank_def lease_rank_def)
qed

lemma refresh_ranks:
  "guardian_rank (call_backend pf s (Refresh_Probe v)) \<le> guardian_rank s \<and>
   probe_rank (call_backend pf s (Refresh_Probe v)) \<le> probe_rank s"
  by (simp add: current_loop_backend_refresh_bootstrap_probe_vbus_def)
    (simp add: guardian_rank_def probe_rank_def)

lemma start_ranks:
  assumes "fault_safe pf s"
  shows "probe_rank (call_backend pf s Backend_Start) \<le> probe_rank s \<and>
   lease_rank (call_backend pf s Backend_Start) \<le> lease_rank s"
proof (cases "cb_active s")
  case False
  then have "\<not> cb_bootstrap_probe_active s" using assms by (auto simp: fault_safe_def)
  then have "\<not> cb_bootstrap_probe_active (snd (current_loop_backend_start pf s))"
    by (auto simp: current_loop_backend_start_def Let_def accesses fault_off split: bool.split
      prod.split)
  then show ?thesis by (simp add: probe_rank_def lease_rank_def)
qed (simp add: current_loop_backend_start_def)

text \<open>No sample starts a probe.\<close>

lemma no_probe_update: "\<not> cb_bootstrap_probe_active s \<Longrightarrow> \<not> cb_bootstrap_probe_active (preempt pf g
  s)"
  by (simp add: preempt_def pwm_update_event_def guardian_check_def Let_def fault_off)

lemma no_probe_publish:
  "\<not> cb_bootstrap_probe_active s \<Longrightarrow> \<not> cb_bootstrap_probe_active (publish_output pf r sn out s)"
  by (simp add: publish_output_def Let_def fault_off record_prediction_age_def split: prod.split)

lemma no_probe_stage:
  assumes "\<not> cb_bootstrap_probe_active s"
  shows "\<not> cb_bootstrap_probe_active (stage_output pf early late after r sn out s)"
proof -
  have "\<not> cb_bootstrap_probe_active (preempt pf late (preempt pf early s))" using assms by (intro
    no_probe_update)
  then have "\<not> cb_bootstrap_probe_active (preempt pf after
      (preempt pf late (preempt pf early s)\<lparr>cb_bridge := b\<rparr>))" for b
    by (intro no_probe_update) simp
  then have "\<not> cb_bootstrap_probe_active (publish_output pf r sn out (preempt pf after
      (preempt pf late (preempt pf early s)\<lparr>cb_bridge := b\<rparr>)))" for b
    by (intro no_probe_publish)
  then show ?thesis using no_probe_update [OF assms, of early]
    by (simp add: stage_output_def Let_def on_bridge_result fault_off)
qed

lemma no_probe_references:
  assumes "\<not> cb_bootstrap_probe_active s"
  shows "case period_references pf s of Inl s' \<Rightarrow> \<not> cb_bootstrap_probe_active s'
    | Inr (r, s') \<Rightarrow> \<not> cb_bootstrap_probe_active s'"
  using assms by (auto simp: period_references_def rotating_reference_period_def
    aligned_reference_period_def Let_def
      on_hw_result fault_off split: prod.splits)

lemma adc_event_ranks:
  "probe_rank (call_backend pf s (Adc_Event early late after status snapshot)) \<le> probe_rank s \<and>
   lease_rank (call_backend pf s (Adc_Event early late after status snapshot)) \<le> lease_rank s"
proof (cases "cb_bootstrap_probe_active s")
  case True
  then show ?thesis
    by (simp add: adc_current_event_def bootstrap_probe_adc_event_def Let_def on_bridge_result
      split: option.split prod.split)
      (simp add: probe_rank_def lease_rank_def)
next
  case False
  have "\<not> cb_bootstrap_probe_active (bootstrap_probe_adc_event pf sn s)" for sn
    using False by (simp add: bootstrap_probe_adc_event_def)
  then have "\<not> cb_bootstrap_probe_active (adc_current_event pf early late after status snapshot s)"
    using False no_probe_references [OF False]
    by (auto simp: adc_current_event_def regulator_step_def fault_off no_probe_stage split:
      option.split sum.split prod.split)
  then show ?thesis by (simp add: probe_rank_def lease_rank_def)
qed

end

sublocale loop_platform \<subseteq> guardian: countdown_machine "call_backend pf" "fault_safe pf"
  guardian_rank is_tick no_sample
proof
  fix s :: "'h loop_backend" and e :: "'h backend_call"
  assume a: "fault_safe pf s" "no_sample e"
  show "guardian_rank (call_backend pf s e) \<le> guardian_rank s - (if is_tick e then 1 else 0)"
    using a other_ranks [OF a] pwm_update_ranks [OF a(1)] refresh_ranks by (cases e) simp_all
qed (rule call_backend_safe)

sublocale loop_platform \<subseteq> probe: countdown_machine "call_backend pf" "fault_safe pf" probe_rank
  is_tick no_probe_start
proof
  fix s :: "'h loop_backend" and e :: "'h backend_call"
  assume a: "fault_safe pf s" "no_probe_start e"
  show "probe_rank (call_backend pf s e) \<le> probe_rank s - (if is_tick e then 1 else 0)"
    using a other_ranks [OF a(1), of e] pwm_update_ranks [OF a(1)] refresh_ranks start_ranks [OF
      a(1)] adc_event_ranks
    by (cases e) simp_all
qed

sublocale loop_platform \<subseteq> lease: countdown_machine "call_backend pf" "fault_safe pf" lease_rank
  is_tick no_refresh
proof
  fix s :: "'h loop_backend" and e :: "'h backend_call"
  assume a: "fault_safe pf s" "no_refresh e"
  show "lease_rank (call_backend pf s e) \<le> lease_rank s - (if is_tick e then 1 else 0)"
    using a other_ranks [OF a(1), of e] pwm_update_ranks [OF a(1)] start_ranks [OF a(1)]
      adc_event_ranks
    by (cases e) simp_all
qed

fun only_time :: "'h backend_call \<Rightarrow> bool" where
  "only_time Pwm_Update = True" | "only_time (Hardware h) = True" | "only_time _ = False"

definition deadline_tripped :: "'h platform \<Rightarrow> 'h loop_backend \<Rightarrow> bool" where
  "deadline_tripped pf s \<longleftrightarrow> tripped pf s \<and>
     cb_fault_flags s AND CURRENT_LOOP_BACKEND_FAULT_DEADLINE = CURRENT_LOOP_BACKEND_FAULT_DEADLINE"

context loop_platform
begin

lemma deadline_fault: "deadline_tripped pf (fault_from_interrupt pf
  CURRENT_LOOP_BACKEND_FAULT_DEADLINE s)"
  by (simp add: deadline_tripped_def fault_trips fault_off backend_faults)

lemma time_step:
  assumes "only_time e" "cb_active s \<and> \<not> cb_bootstrap_probe_active s \<or> deadline_tripped pf s"
  shows "cb_active (call_backend pf s e) \<and> \<not> cb_bootstrap_probe_active (call_backend pf s e) \<or>
    deadline_tripped pf (call_backend pf s e)"
proof (cases e)
  case Pwm_Update
  then show ?thesis using assms(2) deadline_fault
    by (auto simp: pwm_update_event_def guardian_check_def Let_def deadline_tripped_def tripped_def)
next
  case (Hardware h)
  then show ?thesis using assms(2) same_ports_low [of "pf_bus pf" "br_hw (cb_bridge s)" h]
    by (auto simp: hardware_event_def on_hw_result deadline_tripped_def tripped_def)
qed (use assms in simp_all)

lemma time_run:
  "list_all only_time es \<Longrightarrow> cb_active s \<and> \<not> cb_bootstrap_probe_active s \<or> deadline_tripped pf s \<Longrightarrow>
   cb_active (foldl (call_backend pf) s es) \<and> \<not> cb_bootstrap_probe_active (foldl (call_backend pf)
     s es) \<or>
   deadline_tripped pf (foldl (call_backend pf) s es)"
  by (induction es arbitrary: s) (simp_all add: time_step)

lemma only_time_no_sample: "only_time e \<Longrightarrow> no_sample e"
  by (cases e) simp_all

lemma guardian_deadline:
  assumes "fault_safe pf s" "list_all no_sample fs" "3 \<le> length (filter is_tick fs)"
  shows "\<not> cb_active (foldl (call_backend pf) s fs)"
proof -
  have "guardian_rank s \<le> 3" by (simp add: guardian_rank_def)
  then have "guardian_rank (foldl (call_backend pf) s fs) = 0"
    using guardian.countdown [OF assms(1,2)] assms(3) by simp
  then show ?thesis by (auto simp: guardian_rank_def split: if_splits)
qed

lemmas probe_countdown = probe.countdown lease.countdown

lemma probe_started:
  assumes "current_loop_backend_start_bootstrap_probe pf d v s = (True, s')"
  shows "unat d \<le> 5000" "probe_rank s' = unat d * 20" "lease_rank s' = 600"
proof -
  have d: "d \<noteq> 0" "\<not> 5000 < d" and t: "cb_bootstrap_probe_active s'" "cb_bootstrap_remaining_ticks
    s' = d * 20"
    "cb_bootstrap_vbus_lease_ticks s' = 600"
    using assms by (auto simp: current_loop_backend_start_bootstrap_probe_def
      CURRENT_LOOP_BACKEND_BOOTSTRAP_MAX_DURATION_MS_def
        BOOTSTRAP_TICKS_PER_MS_def BOOTSTRAP_VBUS_LEASE_TICKS_def split: if_splits prod.splits
          bool.splits)
  show u: "unat d \<le> 5000" using d(2) by (simp add: word_less_nat_alt)
  then have "unat (d * 20) = unat d * 20" by (simp add: unat_mult_lem [THEN iffD1])
  moreover have "0 < unat d" using d(1) by (simp add: unat_gt_0)
  ultimately show "probe_rank s' = unat d * 20" "lease_rank s' = 600"
    using t by (simp_all add: probe_rank_def lease_rank_def)
qed

end

text \<open>No current is driven: the bridge pins are low, or every compare register of the timer reads
  zero.\<close>

definition outputs_off :: "'h platform \<Rightarrow> 'h bridge \<Rightarrow> bool" where
  "outputs_off pf b \<longleftrightarrow> bridge_low (pf_bus pf) (br_hw b) \<or>
     rd16 (pf_bus pf) CCDAT1 b = 0 \<and> rd16 (pf_bus pf) CCDAT2 b = 0 \<and>
     rd16 (pf_bus pf) CCDAT3 b = 0 \<and> rd16 (pf_bus pf) CCDAT4 b = 0"

context loop_platform
begin

lemma calls_safe: "fault_safe pf s \<Longrightarrow> fault_safe pf (foldl (call_backend pf) s es)"
  by (induction es arbitrary: s) (simp_all add: call_backend_safe)

lemma fault_outputs_off: "outputs_off pf (cb_bridge (fault_from_interrupt pf f s))"
  using fault_off(3) [of f s] by (simp add: outputs_off_def bridge_off_def)

lemma low_outputs_off: "outputs_off pf (cb_bridge (force_bridge_low pf s))"
  by (simp add: outputs_off_def force_bridge_low_def gpio_ports.force_low(1) [OF ports_work])

lemma zero_outputs_off:
  "fst (tim3_bridge_pwm_zero (pf_bus pf) b) \<Longrightarrow> outputs_off pf (snd (tim3_bridge_pwm_zero (pf_bus pf)
    b))"
  by (auto simp: tim3_bridge_pwm_zero_def Let_def compares_match_def outputs_off_def
    TIM3_BRIDGE_PWM_CHANNEL_COUNT_def split: if_splits)

lemma irq_off_outputs:
  assumes "outputs_off pf b"
  shows "outputs_off pf (snd (tim3_bridge_pwm_update_irq_enable (pf_bus pf) False b))"
proof -
  have "bridge_low (pf_bus pf) (br_hw (snd (tim3_bridge_pwm_update_irq_enable (pf_bus pf) False b)))
    =
    bridge_low (pf_bus pf) (br_hw b)"
    using gpio_ports.irq_enable_same [OF ports_work same_ports_refl, THEN same_ports_low] .
  moreover have "rd16 (pf_bus pf) c (snd (tim3_bridge_pwm_update_irq_enable (pf_bus pf) False b)) =
    rd16 (pf_bus pf) c b" if "c \<in> {CCDAT1, CCDAT2, CCDAT3, CCDAT4}" for c
    using that by (simp add: tim3_bridge_pwm_update_irq_enable_def Let_def rd16_def rd_def wr16_def
      wr_def nvic_def compare_kept nvic_compare_kept)
  ultimately show ?thesis using assms by (simp add: outputs_off_def)
qed

lemma probe_finish_off: "outputs_off pf (cb_bridge (finish_bootstrap_probe pf s))"
proof -
  let ?s = "stop_loop (s\<lparr>cb_active := False, cb_bootstrap_probe_active := False\<rparr>)"
  let ?z = "tim3_bridge_pwm_zero (pf_bus pf) (cb_bridge ?s)"
  let ?q = "tim3_bridge_pwm_update_irq_enable (pf_bus pf) False (snd ?z)"
  have "outputs_off pf (snd ?q)" if "fst ?z" using that by (intro irq_off_outputs zero_outputs_off)
  then show ?thesis
    by (auto simp: finish_bootstrap_probe_def Let_def on_bridge_result fault_outputs_off)
qed

lemma probe_stop_off:
  assumes "cb_fault_flags s = 0" "cb_initialized s"
  shows "outputs_off pf (cb_bridge (snd (current_loop_backend_stop pf s)))"
  using assms zero_outputs_off
  by (auto simp: current_loop_backend_stop_def Let_def on_bridge_result low_outputs_off
    CURRENT_LOOP_BACKEND_FAULT_NONE_def add_fault_def timing_capture_off_def on_hw_result
    update_irq_off_def reset_predictor_def stop_loop_def split: bool.split prod.split)

lemma recover_off: "outputs_off pf (cb_bridge (call_backend pf s Recover))"
proof -
  have rebuilt: "outputs_off pf (cb_bridge (snd (restart_backend pf t)))"
    if "fst (restart_backend pf t)" for t
    using that zero_outputs_off
    by (auto simp: restart_backend_def rebuild_pwm_def and_then_def on_bridge_result split:
      if_splits)
  then have "outputs_off pf (cb_bridge t')" if "restart_backend pf t = (True, t')" for t t'
    using that by (metis fst_conv snd_conv)
  then show ?thesis
    by (auto simp: current_loop_backend_recover_def Let_def low_outputs_off
      reset_reporting_def split: prod.split)
qed

text \<open>Whatever call ends the probe, the outputs are off after it.\<close>

lemma probe_ends_off:
  assumes "fault_safe pf s" "control_ok s" "cb_bootstrap_probe_active s"
    "\<not> cb_bootstrap_probe_active (call_backend pf s e)"
  shows "outputs_off pf (cb_bridge (call_backend pf s e))"
proof (cases e)
  case (Adc_Event early late after status snapshot)
  have "cb_active s" using assms(1,3) by (simp add: fault_safe_def)
  then show ?thesis using assms(3,4) Adc_Event
    by (auto simp: adc_current_event_def bootstrap_probe_adc_event_def Let_def on_bridge_result
      fault_outputs_off split: option.splits prod.splits if_splits)
next
  case Pwm_Update
  then show ?thesis using assms(3,4)
    by (auto simp: pwm_update_event_def Let_def guardian_check_def fault_outputs_off
      probe_finish_off
      split: if_splits)
next
  case Backend_Stop
  then show ?thesis using assms by (auto simp: fault_safe_def control_ok_def intro!: probe_stop_off)
next
  case Recover
  then show ?thesis using recover_off by simp
next
  case (Refresh_Probe v)
  then show ?thesis using assms(3,4)
    by (auto simp: current_loop_backend_refresh_bootstrap_probe_vbus_def fault_outputs_off
      split: if_splits)
next
  case (Backend_Init c p)
  then show ?thesis using assms
    by (auto simp: current_loop_backend_init_def fault_safe_def control_ok_def low_outputs_off)
next
  case (Set_Reference a b)
  then show ?thesis using assms
    by (auto simp: current_loop_backend_set_reference_counts_def Let_def accesses
      reset_predictor_def
      set_loop_reference_result split: prod.splits bool.splits if_splits)
next
  case (Set_Rotating a i p n m)
  then show ?thesis using assms
    by (auto simp: current_loop_backend_set_rotating_reference_def Let_def accesses
      reset_predictor_def set_loop_reference_result split: prod.splits bool.splits if_splits)
next
  case (Set_Aligned q p v d t)
  then show ?thesis using assms
    by (auto simp: current_loop_backend_set_aligned_q_reference_def Let_def accesses
      set_loop_reference_result record_prediction_rejection_def record_prediction_age_def
      split: prod.splits bool.splits sum.splits if_splits)
next
  case (Reconfigure kp ki)
  then show ?thesis using assms reconfigure_flags(1) [of s pf kp ki] by (simp add: fault_safe_def)
next
  case Trace_Arm
  then show ?thesis using assms
    by (auto simp: current_loop_backend_trace_arm_def Let_def accesses split: prod.splits)
next
  case Backend_Start
  then show ?thesis using assms by (simp add: current_loop_backend_start_def fault_safe_def)
next
  case (Start_Probe d v)
  then show ?thesis using assms by (auto simp: current_loop_backend_start_bootstrap_probe_def
    fault_safe_def)
next
  case (Hardware h)
  then show ?thesis using assms by (simp add: hardware_event_def on_hw_result split: if_splits)
qed

end

text \<open>
  C8. The guardian. From any state reached after power-up, no sequence of calls and interrupts in
  which the PWM update interrupt runs three times without an ADC event or a start leaves the loop
  active. If nothing else happens in between and a loop without a probe was active, the backend has
  tripped with the deadline fault: the bridge is driven low.
\<close>

theorem missed_samples_trip:
  assumes "loop_platform pf" "flags_of s0 = (0, False, False)" "s = foldl (call_backend pf) s0 es"
    and "list_all no_sample fs" "3 \<le> length (filter is_tick fs)"
  shows "\<not> cb_active (foldl (call_backend pf) s fs) \<and>
    (cb_active s \<and> \<not> cb_bootstrap_probe_active s \<and> list_all only_time fs \<longrightarrow>
       deadline_tripped pf (foldl (call_backend pf) s fs))"
  using loop_platform.guardian_deadline [OF assms(1) _ assms(4,5),
    of s] loop_platform.run_safe [OF assms(1,2), of es]
    loop_platform.time_run [OF assms(1), of fs s] assms(3) by auto

text \<open>
  C35. The bootstrap probe, which drives all four outputs high, ends by itself, and its end switches
  the outputs off. It is accepted for at most five seconds. After any calls and interrupts that do
  not start another probe: if it is still active, fewer PWM updates have passed since its start
  than its duration has periods of 50 us, and fewer than 600 (30 ms) if the supply voltage was not
  measured again. And whatever the next call or interrupt is, if the probe ends with it, then the
  bridge pins are low or all four compare registers of the timer read zero.
\<close>

theorem bootstrap_probe_expires:
  assumes "loop_platform pf" "power_up s0" "s = foldl (call_backend pf) s0 es"
    and "current_loop_backend_start_bootstrap_probe pf d v s = (True, s1)"
    and "list_all no_probe_start fs" "s2 = foldl (call_backend pf) s1 fs"
  shows "unat d \<le> 5000 \<and>
    (cb_bootstrap_probe_active s2 \<longrightarrow> length (filter is_tick fs) < unat d * 20 \<and>
       (list_all no_refresh fs \<longrightarrow> length (filter is_tick fs) < 600) \<and>
       (\<not> cb_bootstrap_probe_active (call_backend pf s2 e) \<longrightarrow>
          outputs_off pf (cb_bridge (call_backend pf s2 e))))"
proof -
  have s: "fault_safe pf s" "control_ok s"
    using loop_platform.run_safe [OF assms(1), of s0 es] power_up_control [OF assms(2), of pf es]
      assms(2,3) by (simp_all add: power_up_def)
  have s1: "fault_safe pf s1" "control_ok s1"
    using loop_platform.start_probe_safe [OF assms(1), of s d v] s
      call_backend_control [of s pf "Start_Probe d v"] assms(4) by simp_all
  have s2: "fault_safe pf s2" "control_ok s2"
    using loop_platform.calls_safe [OF assms(1) s1(1)] control_run.run_inv [OF s1(2)] assms(6)
    by simp_all
  have "0 < probe_rank s2" "0 < lease_rank s2" if "cb_bootstrap_probe_active s2"
    using that by (simp_all add: probe_rank_def lease_rank_def)
  then show ?thesis
    using loop_platform.probe_countdown(1) [OF assms(1) s1(1) assms(5)]
      loop_platform.probe_countdown(2) [OF assms(1) s1(1), of fs] assms(6)
      loop_platform.probe_started [OF assms(1,4)]
      loop_platform.probe_ends_off [OF assms(1) s2, of e] by auto
qed

section \<open>A platform\<close>

text \<open>The register file, with an ADC that always delivers the idle sample and a clock that stands
  still.\<close>

definition bench_sample :: adc1_current_snapshot where
  "bench_sample = \<lparr>as_current_b_raw = 2050, as_current_a_raw = 2048, as_trigger_timer_count = 0,
     as_trigger_to_dma_timer_ticks = 0, as_dma_entry_cycle_count = 0, as_timing_valid = True\<rparr>"

definition bench_platform :: "(mcu_register \<Rightarrow> u32) platform" where
  "bench_platform = \<lparr>pf_bus = register_file, pf_adc1_set_current_timing_capture = \<lambda>on h. (True, h),
     pf_adc1_set_current_event_handler = \<lambda>h. (True, h),
     pf_adc1_restart_pwm_synchronized_current = \<lambda>h. (ADC1_STATUS_OK, h),
     pf_adc1_read_synchronized_current = \<lambda>h. ((ADC1_STATUS_OK, bench_sample), h),
     pf_timebase_micros = \<lambda>h. (0, h), pf_cycle_counter_init = \<lambda>h. (True, h), pf_cycle_counter_read =
       \<lambda>h. 0,
     pf_apb1_timer_clock_hz = \<lambda>h. 48000000\<rparr>"

lemma register_file_compares:
  "r \<in> {DINTEN, STS} \<Longrightarrow> c \<in> {CCDAT1, CCDAT2, CCDAT3, CCDAT4} \<Longrightarrow>
   reg_read register_file (reg_write register_file h (TIM3 r) v) (TIM3 c) =
     reg_read register_file h (TIM3 c)"
  "reg_read register_file (nvic_tim3 register_file h op) q = reg_read register_file h q"
  by (auto simp: register_file_def)

interpretation bench: loop_platform bench_platform
  by (rule loop_platform.intro) (simp_all add: bench_platform_def ports.gpio_ports_axioms
    same_ports_refl register_file_compares)

definition bench_backend :: "(mcu_register \<Rightarrow> u32) loop_backend" where
  "bench_backend = \<lparr>cb_bridge = ready_bridge, cb_config = demo_loop_config,
     cb_phase_predictor_config = bench_predictor_config, cb_loop = empty_loop, cb_phase_predictor =
       bench_predictor,
     cb_fault_flags = 0, cb_sample_count = 0, cb_output_generation = 0, cb_last_reference_a_counts =
       0,
     cb_last_reference_b_counts = 0, cb_aligned_q_reference_counts = 0,
       cb_predicted_electrical_phase_q32 = 0,
     cb_phase_prediction_age_us = 0, cb_maximum_observed_phase_prediction_age_us = 0,
     cb_rejected_phase_prediction_age_us = 0, cb_guardian_generation = 0,
       cb_guardian_empty_updates = 0,
     cb_guardian_missed_update_count = 0, cb_guardian_maximum_empty_updates = 0,
     cb_phase_prediction_reject_reason = CURRENT_LOOP_PHASE_PREDICTION_REJECT_NONE,
     cb_rotating_reference_controller_mode = CURRENT_LOOP_BACKEND_CONTROLLER_STATIONARY,
       cb_initialized = False,
     cb_active = False, cb_bootstrap_probe_active = False, cb_bootstrap_probe_completed = False,
     cb_bootstrap_probe_staged = False, cb_bootstrap_remaining_ticks = 0,
       cb_bootstrap_vbus_lease_ticks = 0,
     cb_phase_prediction_active = False, cb_rotating_reference_active = False, cb_guardian_primed =
       False,
     cb_rotating_reference = empty_rotating_test, cb_latest_output = zero_output, cb_trace = [],
       cb_trace_count = 0,
     cb_trace_armed = False\<rparr>"

lemma bench_power_up: "power_up bench_backend" "flags_of bench_backend = (0, False, False)"
  by (simp_all add: power_up_def bench_backend_def flags_of_def)

theorem fault_holds_bridge_low_witness:
  "let s = foldl (call_backend bench_platform) bench_backend
     ([Adc_Event False False False ADC1_STATUS_DMA_ERROR None] @
      [Backend_Start, Pwm_Update, Set_Reference 100 100, Backend_Stop, Trace_Arm]) in
   bridge_low register_file (br_hw (cb_bridge s)) \<and> \<not> cb_active s \<and>
   CURRENT_LOOP_BACKEND_FAULT_ADC AND cb_fault_flags s = CURRENT_LOOP_BACKEND_FAULT_ADC"
proof -
  let ?es = "[Adc_Event False False False ADC1_STATUS_DMA_ERROR None]"
  let ?fs = "[Backend_Start, Pwm_Update, Set_Reference 100 100, Backend_Stop, Trace_Arm]"
  have f: "cb_fault_flags (foldl (call_backend bench_platform) bench_backend ?es) =
    CURRENT_LOOP_BACKEND_FAULT_ADC"
    by (simp add: adc_current_event_def bench.fault_off bench_backend_def)
  have "\<not> rearms bench_platform s e" if "?fs = as @ e # bs" for s e as bs
    using that by (auto simp: Cons_eq_append_conv)
  then show ?thesis
    using fault_holds_bridge_low [OF bench.loop_platform_axioms bench_power_up(2) f, of ?fs]
    by (auto simp: bench_platform_def CURRENT_LOOP_BACKEND_FAULT_ADC_def simp del: foldl.simps)
qed

lemma bench_fields [simp]:
  "pf_bus bench_platform = register_file" "pf_adc1_set_current_timing_capture bench_platform on h =
    (True, h)"
  "pf_adc1_read_synchronized_current bench_platform h = ((ADC1_STATUS_OK, bench_sample), h)"
  "cb_bridge bench_backend = ready_bridge" "cb_active bench_backend = False"
  "cb_bootstrap_probe_active bench_backend = False" "cb_fault_flags bench_backend = 0"
  "cb_config bench_backend = demo_loop_config"  "cb_phase_predictor bench_backend = bench_predictor"
  "cb_phase_predictor_config bench_backend = bench_predictor_config" "cb_initialized bench_backend =
    False"
  by (simp_all add: bench_platform_def bench_backend_def)

lemma bench_init:
  "current_loop_backend_init bench_platform (Some demo_loop_config) (Some bench_predictor_config)
    bench_backend =
     (True, bench_backend\<lparr>cb_loop := fresh_loop, cb_initialized := True\<rparr>)"
proof -
  have c: "phase_current_loop_config_is_valid (Some demo_loop_config)"
    "electrical_phase_predictor_config_is_valid (Some bench_predictor_config)"
    by (simp_all add: phase_current_loop_config_is_valid.simps demo_loop_config_def
      polarity_is_valid_def
        bench_predictor_config_def rate_numerator_def sdiv_nonneg)
  have p: "electrical_phase_predictor_init (Some bench_predictor) (Some bench_predictor_config) =
    (True, Some bench_predictor)"
    by (simp add: bench_predictor_def bench_predictor_config_def rate_numerator_def sdiv_nonneg)
  have h: "tim3_bridge_pwm_set_update_handler register_file (Some PWM_UPDATE_EVENT) ready_bridge =
    (True, ready_bridge)"
    by (simp add: tim3_bridge_pwm_set_update_handler_def ready_bridge_def rd16_def rd_def
      register_file_def)
  have r: "clear_backend bench_platform demo_loop_config bench_predictor_config bench_backend =
    bench_backend"
    by (simp add: clear_backend_def accesses reset_reporting_def bench_backend_def
      bench_platform_def CURRENT_LOOP_BACKEND_FAULT_NONE_def)
  have "init_loop bench_backend = (True, bench_backend\<lparr>cb_loop := fresh_loop\<rparr>)"
    using c(1) by (intro init_loop_valid) simp
  moreover have "pf_adc1_set_current_event_handler bench_platform h = (True,
    h)" for h by (simp add: bench_platform_def)
  moreover have "bench_backend\<lparr>cb_loop := fresh_loop, cb_phase_predictor := bench_predictor,
    cb_bridge := ready_bridge\<rparr> =
    bench_backend\<lparr>cb_loop := fresh_loop\<rparr>" by (simp add: bench_backend_def)
  ultimately have "attach_backend bench_platform bench_backend = (True, bench_backend\<lparr>cb_loop :=
    fresh_loop\<rparr>)"
    using p h by (simp add: attach_backend_def and_then_def init_predictor_def
      install_update_handler_def on_hw_result
      on_bridge_result del: electrical_phase_predictor_init.simps)
  then show ?thesis using c r
    by (simp add: current_loop_backend_init_def del:
      electrical_phase_predictor_config_is_valid.simps)
qed

lemma bench_stage: "fst (tim3_bridge_pwm_stage_duties register_file (Some [0, 0, 0, 0])
  ready_bridge)"
  by (auto simp: tim3_bridge_pwm_stage_duties_def ready_bridge_def register_file_def
      Let_def rd_def rd16_def wr16_def wr_def write_duty_compares_def duty_compares_match_def
        RCC_APB1PCLKEN_TIM3EN_def
        TIM_CTRL1_CNTEN_def ALL_CHANNEL_OUTPUTS_ENABLED_def)

lemma bench_irq: "fst (tim3_bridge_pwm_update_irq_enable register_file True
   (snd (tim3_bridge_pwm_stage_duties register_file (Some [0, 0, 0, 0]) ready_bridge)))"
  by (auto simp: tim3_bridge_pwm_update_irq_enable_def tim3_bridge_pwm_stage_duties_def
    ready_bridge_def register_file_def
      Let_def rd_def rd16_def wr16_def wr_def write_duty_compares_def duty_compares_match_def
        RCC_APB1PCLKEN_TIM3EN_def
        TIM_CTRL1_CNTEN_def ALL_CHANNEL_OUTPUTS_ENABLED_def nvic_def TIM_DINTEN_UIEN_def)

definition bench_running :: "(mcu_register \<Rightarrow> u32) loop_backend" where
  "bench_running = foldl (call_backend bench_platform) bench_backend
     [Backend_Init (Some demo_loop_config) (Some bench_predictor_config), Backend_Start]"

lemma fresh_start: "phase_current_loop_start (Some fresh_loop) = (True,
  Some (fresh_loop\<lparr>pl_running := True\<rparr>))"
  by (simp add: phase_current_loop_start.simps fresh_loop_def empty_loop_def fault_bits)

lemma bench_loop_start:
  assumes "cb_bridge s = ready_bridge" "cb_loop s = fresh_loop" "cb_initialized s" "\<not> cb_active s"
    "\<not> cb_bootstrap_probe_active s" "cb_fault_flags s = 0"
  shows "fst (current_loop_backend_start bench_platform s)"
    "cb_active (snd (current_loop_backend_start bench_platform s))"
    "\<not> cb_bootstrap_probe_active (snd (current_loop_backend_start bench_platform s))"
    "\<not> cb_guardian_primed (snd (current_loop_backend_start bench_platform s))"
  using assms bench_stage bench_irq fresh_start
  by (simp_all add: current_loop_backend_start_def on_bridge_result Let_def timing_capture_off_def
    on_hw_result
      CURRENT_LOOP_BACKEND_FAULT_NONE_def)

lemma bench_active: "cb_active bench_running" "\<not> cb_bootstrap_probe_active bench_running"
  using bench_loop_start [of "bench_backend\<lparr>cb_loop := fresh_loop, cb_initialized := True\<rparr>"]
  by (simp_all add: bench_running_def bench_init)

theorem every_sample_decided_witness:
  "let s' = adc_current_event bench_platform False True False ADC1_STATUS_OK (Some bench_sample)
    bench_running in
   tripped bench_platform s' \<or> (sample_ok (cb_config bench_running) 2048 2050 \<and> cb_active s' \<and>
     cb_sample_count s' = cb_sample_count bench_running + 1 \<and>
     safe_result (cb_config bench_running) (True, cb_loop s', cb_latest_output s') \<and>
     compares_staged register_file (po_duty_permille (cb_latest_output s')) (cb_bridge s'))"
  using every_sample_decided [OF bench.loop_platform_axioms bench_power_up(1)
    bench_running_def bench_active refl,
      of False True False bench_sample]
  by (simp add: bench_sample_def Let_def)

theorem missed_samples_trip_witness:
  "deadline_tripped bench_platform (foldl (call_backend bench_platform) bench_running [Pwm_Update,
    Pwm_Update, Pwm_Update])"
  using missed_samples_trip [OF bench.loop_platform_axioms bench_power_up(2) bench_running_def,
      of "[Pwm_Update, Pwm_Update, Pwm_Update]"] bench_active by simp

lemma bench_probe:
  defines "s \<equiv> foldl (call_backend bench_platform)
    bench_backend [Backend_Init (Some demo_loop_config) (Some bench_predictor_config)]"
  obtains s1 where "current_loop_backend_start_bootstrap_probe bench_platform 1 800 s = (True, s1)"
    "cb_bootstrap_probe_active (foldl (call_backend bench_platform) s1 [Pwm_Update])"
proof -
  have s: "s = bench_backend\<lparr>cb_loop := fresh_loop, cb_initialized :=
    True\<rparr>" by (simp add: s_def bench_init)
  have fields: "cb_initialized s" "\<not> cb_active s" "\<not> cb_bootstrap_probe_active s" "cb_fault_flags s
    = 0"
    "cb_config s = demo_loop_config" by (simp_all add: s)
  have v: "phase_current_loop_config_is_valid (Some demo_loop_config)"
    by (simp add: phase_current_loop_config_is_valid.simps demo_loop_config_def
      polarity_is_valid_def)
  have l: "phase_current_loop_set_reference_counts (Some fresh_loop) (Some demo_loop_config) 0 0 =
    (True, Some fresh_loop)"
    by (simp add: phase_current_loop_set_reference_counts_def v
      phase_current_loop_set_reference_counts_prevalidated.simps
        fresh_loop_def empty_loop_def fault_bits)
  obtain s2 where s2: "current_loop_backend_set_reference_counts bench_platform 0 0 s = (True, s2)"
    "cb_bridge s2 = ready_bridge" "cb_loop s2 = fresh_loop" "cb_initialized s2" "\<not> cb_active s2"
    "\<not> cb_bootstrap_probe_active s2" "cb_fault_flags s2 = 0"
    by (simp add: current_loop_backend_set_reference_counts_def s set_loop_reference_result l
      reset_predictor_def
      CURRENT_LOOP_BACKEND_FAULT_NONE_def)
  note st = bench_loop_start [OF s2(2-7)]
  obtain s3 where s3: "current_loop_backend_start bench_platform s2 = (True,
    s3)" "cb_active s3" "\<not> cb_guardian_primed s3"
    using st by (cases "current_loop_backend_start bench_platform s2") simp
  have r: "on_hw (pf_adc1_read_synchronized_current bench_platform) s = ((ADC1_STATUS_OK,
    bench_sample), s)"
    by (simp add: on_hw_result)
  have near: "near_zero_current 2048 (lc_current_a_zero_raw demo_loop_config)"
    "near_zero_current 2050 (lc_current_b_zero_raw demo_loop_config)"
    by (simp_all add: near_zero_current_def demo_loop_config_def
      CURRENT_LOOP_BACKEND_BOOTSTRAP_ENTRY_CURRENT_COUNTS_def)
  let ?s = "s3\<lparr>cb_bootstrap_probe_staged := False, cb_bootstrap_probe_completed := False,
      cb_bootstrap_remaining_ticks := 20, cb_bootstrap_vbus_lease_ticks := 600,
        cb_bootstrap_probe_active := True\<rparr>"
  have "current_loop_backend_start_bootstrap_probe bench_platform 1 800 s = (True, ?s)"
    unfolding current_loop_backend_start_bootstrap_probe_def r
    using near fields by (simp add: s2(1) and_then_def s3(1)
      bench_sample_def bootstrap_vbus_valid_def BOOTSTRAP_TICKS_PER_MS_def
      BOOTSTRAP_VBUS_LEASE_TICKS_def CURRENT_LOOP_BACKEND_BOOTSTRAP_MAX_DURATION_MS_def
      CURRENT_LOOP_BACKEND_BOOTSTRAP_VBUS_MIN_RAW_def
        CURRENT_LOOP_BACKEND_BOOTSTRAP_VBUS_MAX_RAW_def)
  moreover have "\<not> (20 :: u32) \<le> 1" "\<not> (600 :: u32) \<le> 1" by (simp_all add: word_le_nat_alt)
  then have "cb_bootstrap_probe_active (pwm_update_event bench_platform ?s)"
    using s3 by (simp add: pwm_update_event_def guardian_check_def Let_def)
  ultimately show thesis using that [of ?s] by simp
qed

theorem bootstrap_probe_expires_witness:
  "\<exists>s1. current_loop_backend_start_bootstrap_probe bench_platform 1 800
      (foldl (call_backend bench_platform) bench_backend [Backend_Init (Some demo_loop_config)
        (Some bench_predictor_config)])
      = (True, s1) \<and> cb_bootstrap_probe_active (foldl (call_backend bench_platform) s1 [Pwm_Update])
        \<and>
    \<not> cb_bootstrap_probe_active (foldl (call_backend bench_platform) s1 (replicate 20 Pwm_Update)) \<and>
    (let s3 = call_backend bench_platform (foldl (call_backend bench_platform) s1 [Pwm_Update])
       Backend_Stop
     in cb_bootstrap_probe_active s3 \<or> outputs_off bench_platform (cb_bridge s3))"
proof -
  let ?s = "foldl (call_backend bench_platform) bench_backend [Backend_Init (Some demo_loop_config)
    (Some bench_predictor_config)]"
  obtain s1 where s1: "current_loop_backend_start_bootstrap_probe bench_platform 1 800 ?s = (True,
    s1)"
    "cb_bootstrap_probe_active (foldl (call_backend bench_platform) s1 [Pwm_Update])"
    by (rule bench_probe)
  note expires = bootstrap_probe_expires [OF bench.loop_platform_axioms bench_power_up(1) refl s1(1)
    _
    refl]
  have "\<not> cb_bootstrap_probe_active (foldl (call_backend bench_platform)
    s1 (replicate 20 Pwm_Update))"
    using expires [of "replicate 20 Pwm_Update"] by (auto simp: list_all_iff filter_replicate)
  moreover have "let s3 = call_backend bench_platform
      (foldl (call_backend bench_platform) s1 [Pwm_Update]) Backend_Stop
    in cb_bootstrap_probe_active s3 \<or> outputs_off bench_platform (cb_bridge s3)"
  proof -
    have "list_all no_probe_start [Pwm_Update]" by simp
    then show ?thesis using expires [of "[Pwm_Update]" Backend_Stop] s1(2)
      unfolding Let_def by blast
  qed
  ultimately show ?thesis using s1 by blast
qed

end
