(* ===== verification/Float32.thy ===== *)
theory Float32
  imports Prelude Complex_Main "HOL-Library.Log_Nat"
begin

text \<open>
  The single precision arithmetic of the target (an ARM FPv4-SP unit, round to nearest, ties to
  even). A value is not a number, an infinity or a finite number, here its exact rational value; the
  two zeros are one value, as no operation of the modelled code tells them apart. The compiler may
  contract a product and the sum that uses it into one operation with a single rounding (\<open>gnu11\<close>
  permits it), so that every such place has a flag, and what is proved holds for both. A conversion
  to an integer is the unit's: it saturates, and not a number becomes zero.
\<close>

section \<open>Rounding\<close>

datatype f32 = NaN | Infinite bool | Finite rat

definition exponent_of :: "rat \<Rightarrow> int" where
  "exponent_of x = (case quotient_of \<bar>x\<bar> of (p, q) \<Rightarrow>
     let k = bitlen p - bitlen q in if 2 powi k \<le> \<bar>x\<bar> then k else k - 1)"

definition half_even :: "rat \<Rightarrow> int" where
  "half_even x = (let n = \<lfloor>x\<rfloor>; d = x - of_int n in
     if d < 1 / 2 then n else if 1 / 2 < d then n + 1 else if even n then n else n + 1)"

definition spacing_of :: "rat \<Rightarrow> int" where
  "spacing_of x = max (exponent_of x - 23) (- 149)"

definition rounded :: "rat \<Rightarrow> rat" where
  "rounded x = (if x = 0 then 0 else of_int (half_even (x / 2 powi spacing_of x))
    * 2 powi spacing_of x)"

definition f32_round :: "rat \<Rightarrow> f32" where
  "f32_round x = (if 2 ^ 128 \<le> \<bar>rounded x\<bar> then Infinite (x < 0) else Finite (rounded x))"

section \<open>Operations\<close>

fun f32_neg :: "f32 \<Rightarrow> f32" where
  "f32_neg NaN = NaN" | "f32_neg (Infinite n) = Infinite (\<not> n)" | "f32_neg (Finite x) =
    Finite (- x)"

fun f32_abs :: "f32 \<Rightarrow> f32" where
  "f32_abs NaN = NaN" | "f32_abs (Infinite n) = Infinite False" | "f32_abs (Finite x) = Finite \<bar>x\<bar>"

fun f32_add :: "f32 \<Rightarrow> f32 \<Rightarrow> f32" where
  "f32_add (Finite x) (Finite y) = f32_round (x + y)"
| "f32_add (Finite x) (Infinite n) = Infinite n"
| "f32_add (Infinite n) (Finite y) = Infinite n"
| "f32_add (Infinite n) (Infinite m) = (if n = m then Infinite n else NaN)"
| "f32_add _ _ = NaN"

definition f32_sub :: "f32 \<Rightarrow> f32 \<Rightarrow> f32" where
  "f32_sub a b = f32_add a (f32_neg b)"

fun f32_mul :: "f32 \<Rightarrow> f32 \<Rightarrow> f32" where
  "f32_mul (Finite x) (Finite y) = f32_round (x * y)"
| "f32_mul (Finite x) (Infinite n) = (if x = 0 then NaN else Infinite (n \<noteq> (x < 0)))"
| "f32_mul (Infinite n) (Finite y) = (if y = 0 then NaN else Infinite (n \<noteq> (y < 0)))"
| "f32_mul (Infinite n) (Infinite m) = Infinite (n \<noteq> m)"
| "f32_mul _ _ = NaN"

text \<open>A division by zero is an infinity of the sign of the dividend.\<close>

fun f32_div :: "f32 \<Rightarrow> f32 \<Rightarrow> f32" where
  "f32_div (Finite x) (Finite y) =
     (if y \<noteq> 0 then f32_round (x / y) else if x = 0 then NaN else Infinite (x < 0))"
| "f32_div (Finite x) (Infinite n) = Finite 0"
| "f32_div (Infinite n) (Finite y) = Infinite (n \<noteq> (y < 0))"
| "f32_div _ _ = NaN"

text \<open>A product and a sum, contracted or not.\<close>

fun f32_mul_add :: "bool \<Rightarrow> f32 \<Rightarrow> f32 \<Rightarrow> f32 \<Rightarrow> f32" where
  "f32_mul_add True (Finite x) (Finite y) (Finite z) = f32_round (x * y + z)"
| "f32_mul_add True (Finite x) (Finite y) c = c"
| "f32_mul_add _ a b c = f32_add (f32_mul a b) c"

fun f32_less :: "f32 \<Rightarrow> f32 \<Rightarrow> bool" where
  "f32_less (Finite x) (Finite y) = (x < y)"
| "f32_less (Finite x) (Infinite n) = (\<not> n)"
| "f32_less (Infinite n) (Finite y) = n"
| "f32_less (Infinite n) (Infinite m) = (n \<and> \<not> m)"
| "f32_less _ _ = False"

fun f32_le :: "f32 \<Rightarrow> f32 \<Rightarrow> bool" where
  "f32_le (Finite x) (Finite y) = (x \<le> y)"
| "f32_le (Finite x) (Infinite n) = (\<not> n)"
| "f32_le (Infinite n) (Finite y) = n"
| "f32_le (Infinite n) (Infinite m) = (n \<or> \<not> m)"
| "f32_le _ _ = False"

fun isfinite :: "f32 \<Rightarrow> bool" where
  "isfinite (Finite x) = True" | "isfinite _ = False"

text \<open>\<open>fminf\<close>: a number is preferred to not a number.\<close>

definition fminf :: "f32 \<Rightarrow> f32 \<Rightarrow> f32" where
  "fminf a b = (if a = NaN then b else if b = NaN then a else if f32_less b a then b else a)"

definition f32_of_int :: "int \<Rightarrow> f32" where
  "f32_of_int n = f32_round (of_int n)"

definition toward_zero :: "rat \<Rightarrow> int" where
  "toward_zero x = (if 0 \<le> x then \<lfloor>x\<rfloor> else \<lceil>x\<rceil>)"

fun f32_to_i32 :: "f32 \<Rightarrow> i32" where
  "f32_to_i32 NaN = 0"
| "f32_to_i32 (Infinite n) = (if n then 0x80000000 else 0x7FFFFFFF)"
| "f32_to_i32 (Finite x) =
     (let n = toward_zero x in
      if n < - 2147483648 then 0x80000000 else if 2147483647 < n then 0x7FFFFFFF else word_of_int
        n)"

text \<open>The square root: the largest integer whose square fits gives the two candidates.\<close>

function int_sqrt :: "int \<Rightarrow> int" where
  "int_sqrt n = (if n \<le> 0 then 0 else
     let r = 2 * int_sqrt (n div 4) in if (r + 1) * (r + 1) \<le> n then r + 1 else r)"
  by pat_completeness auto
termination by (relation "measure nat") auto

declare int_sqrt.simps [simp del]

definition rounded_sqrt :: "rat \<Rightarrow> rat" where
  "rounded_sqrt x =
     (let t = exponent_of x div 2 - 23;
          scaled = x / 2 powi (2 * t);
          n = int_sqrt \<lfloor>scaled\<rfloor>;
          middle = of_int (n * n + n) + 1 / 4
      in of_int (if scaled < middle \<or> scaled = middle \<and> even n then n else n + 1) * 2 powi t)"

fun f32_sqrt :: "f32 \<Rightarrow> f32" where
  "f32_sqrt (Finite x) = (if x < 0 then NaN else if x = 0 then Finite 0 else Finite (rounded_sqrt
    x))"
| "f32_sqrt (Infinite n) = (if n then NaN else Infinite n)"
| "f32_sqrt NaN = NaN"

section \<open>Rounding is exact on, and never crosses, a representable number\<close>

definition representable :: "rat \<Rightarrow> bool" where
  "representable y \<longleftrightarrow> (\<exists>m s. y = of_int m * 2 powi s \<and> \<bar>m\<bar> < 2 ^ 24 \<and> - 149 \<le> s)"

lemma half_even_int [simp]: "half_even (of_int n) = n"
  by (simp add: half_even_def)

lemma half_even_range: "\<lfloor>x\<rfloor> \<le> half_even x" "half_even x \<le> \<lfloor>x\<rfloor> + 1"
  by (simp_all add: half_even_def Let_def)

lemma half_even_mono:
  assumes "x \<le> y"
  shows "half_even x \<le> half_even y"
proof (cases "\<lfloor>x\<rfloor> = \<lfloor>y\<rfloor>")
  case True
  then show ?thesis using assms by (simp add: half_even_def Let_def)
next
  case False
  then have "\<lfloor>x\<rfloor> + 1 \<le> \<lfloor>y\<rfloor>" using assms floor_mono by force
  then show ?thesis using half_even_range [of x] half_even_range [of y] by linarith
qed

lemma half_even_minus: "half_even (- x) = - half_even x"
proof (cases "x \<in> \<int>")
  case True
  then obtain n where "x = of_int n" by (rule Ints_cases)
  then show ?thesis using half_even_int [of "- n"] by simp
next
  case False
  then have "of_int \<lfloor>x\<rfloor> < x" by (metis Ints_of_int of_int_floor_le order_le_less)
  then have "\<lfloor>- x\<rfloor> = - \<lfloor>x\<rfloor> - 1" using floor_correct [of x] by (intro floor_unique) simp_all
  then show ?thesis by (simp add: half_even_def Let_def)
qed

lemma rounded_minus: "rounded (- x) = - rounded x"
  by (simp add: rounded_def spacing_of_def exponent_of_def half_even_minus)

lemma bitlen_powi:
  assumes "0 < n"
  shows "2 powi (bitlen n - 1) \<le> (of_int n :: rat)" "(of_int n :: rat) < 2 powi bitlen n"
proof -
  have b: "2 ^ nat (bitlen n - 1) \<le> n" "n < 2 ^ nat (bitlen n)" using bitlen_bounds [OF assms] by
    simp_all
  have l: "1 \<le> bitlen n" using bitlen_eq_zero_iff [of n] bitlen_nonneg [of n] assms by linarith
  have "(of_int (2 ^ nat (bitlen n - 1)) :: rat) \<le> of_int n" "(of_int n :: rat)
    < of_int (2 ^ nat (bitlen n))"
    using b by (simp_all only: of_int_le_iff of_int_less_iff)
  then show "2 powi (bitlen n - 1) \<le> (of_int n :: rat)" "(of_int n :: rat) < 2 powi bitlen n"
    using l by (simp_all add: power_int_def)
qed

lemma exponent_of_bounds:
  assumes "x \<noteq> 0"
  shows "2 powi exponent_of x \<le> \<bar>x\<bar>" "\<bar>x\<bar> < 2 powi (exponent_of x + 1)"
proof -
  obtain p q where pq: "quotient_of \<bar>x\<bar> = (p, q)" by fastforce
  have q: "0 < q" using quotient_of_denom_pos [OF pq] .
  have x: "\<bar>x\<bar> = of_int p / of_int q" using quotient_of_div [OF pq] .
  then have "0 < (of_int p / of_int q :: rat)" using assms by simp
  then have p: "0 < p" using q by (simp add: zero_less_divide_iff)
  let ?k = "bitlen p - bitlen q"
  note bp = bitlen_powi [OF p] and bq = bitlen_powi [OF q]
  have up: "\<bar>x\<bar> < 2 powi (?k + 1)"
  proof -
    have "of_int p < (2 powi bitlen p :: rat)" by (rule bp)
    also have "\<dots> = 2 powi (?k + 1) * 2 powi (bitlen q - 1)" by (simp flip: power_int_add)
    also have "\<dots> \<le> 2 powi (?k + 1) * of_int q" using bq(1) by (intro mult_left_mono) simp_all
    finally show ?thesis using q by (simp add: x divide_less_eq)
  qed
  have low: "2 powi (?k - 1) \<le> \<bar>x\<bar>"
  proof -
    have "2 powi (?k - 1) * of_int q \<le> 2 powi (?k - 1) * (2 powi bitlen q :: rat)"
      using bq(2) by (intro mult_left_mono) simp_all
    also have "\<dots> = 2 powi (bitlen p - 1)" by (simp flip: power_int_add)
    also have "\<dots> \<le> of_int p" by (rule bp)
    finally show ?thesis using q by (simp add: x le_divide_eq)
  qed
  show "2 powi exponent_of x \<le> \<bar>x\<bar>" "\<bar>x\<bar> < 2 powi (exponent_of x + 1)"
    using up low by (auto simp: exponent_of_def pq Let_def)
qed

lemma powi_mult_int:
  assumes "s \<le> t"
  shows "of_int m * 2 powi t / 2 powi s = (of_int (m * 2 ^ nat (t - s)) :: rat)"
proof -
  have "(2 powi t :: rat) = 2 powi (t - s) * 2 powi s" by (simp flip: power_int_add)
  moreover have "(2 powi (t - s) :: rat) = 2 ^ nat (t - s)" using assms by (simp add: power_int_def)
  ultimately show ?thesis by simp
qed

lemma powi_less_iff: "(2 powi a :: rat) < 2 powi b \<longleftrightarrow> a < b"
proof
  show "a < b" if "(2 powi a :: rat) < 2 powi b"
    using that power_int_increasing [of b a "2 :: rat"] by (meson leD leI one_le_numeral)
qed (simp add: power_int_strict_increasing)

lemma exponent_unique:
  assumes "2 powi k \<le> \<bar>x\<bar>" "\<bar>x\<bar> < 2 powi (k + 1)"
  shows "exponent_of x = k"
proof -
  have "(0 :: rat) < 2 powi k" by simp
  then have x: "x \<noteq> 0" using assms(1) by (metis abs_zero not_le)
  have "(2 powi k :: rat) < 2 powi (exponent_of x + 1)" "(2 powi exponent_of x :: rat)
    < 2 powi (k + 1)"
    using exponent_of_bounds [OF x] assms by linarith+
  then show ?thesis by (simp add: powi_less_iff)
qed

lemma representable_cases:
  assumes "representable y"
  obtains "y = 0" | m s where "y = of_int m * 2 powi s" "- 149 \<le> s" "\<bar>y\<bar> < 2 powi (s + 24)"
  using assms
proof -
  obtain m s where y: "y = of_int m * 2 powi s" "\<bar>m\<bar> < 2 ^ 24" "- 149 \<le> s"
    using assms by (auto simp: representable_def)
  have "\<bar>of_int m :: rat\<bar> < 2 ^ 24" using y(2) by (metis of_int_abs of_int_less_iff of_int_numeral
    of_int_power)
  then have "\<bar>y\<bar> < 2 ^ 24 * 2 powi s" by (simp add: y(1) abs_mult)
  also have "\<dots> = 2 powi (s + 24)" by (simp add: power_int_add)
  finally show thesis using that y by blast
qed

lemma spacing_le:
  assumes "\<bar>x\<bar> < 2 powi (s + 24)" "- 149 \<le> s" "x \<noteq> 0"
  shows "spacing_of x \<le> s"
proof -
  have "(2 powi exponent_of x :: rat) < 2 powi (s + 24)"
    using exponent_of_bounds(1) [OF assms(3)] assms(1) by linarith
  then show ?thesis using assms(2) by (simp add: powi_less_iff spacing_of_def)
qed

text \<open>A multiple of a number's spacing rounds to itself, and rounding does not cross it.\<close>

lemma rounded_grid:
  assumes "x \<noteq> 0" "y = of_int m * 2 powi t" "spacing_of x \<le> t"
  shows "x \<le> y \<Longrightarrow> rounded x \<le> y" "y \<le> x \<Longrightarrow> y \<le> rounded x"
proof -
  let ?s = "spacing_of x"
  obtain n where n: "y / 2 powi ?s = (of_int n :: rat)" using powi_mult_int [OF assms(3)] assms(2)
    by metis
  then have y: "y = of_int n * 2 powi ?s" by (simp add: divide_eq_eq)
  show "rounded x \<le> y" if "x \<le> y"
  proof -
    have "half_even (x / 2 powi ?s) \<le> half_even (y / 2 powi ?s)" using that by (intro half_even_mono
      divide_right_mono) simp_all
    then show ?thesis using assms(1) by (simp add: n) (simp add: rounded_def y)
  qed
  show "y \<le> rounded x" if "y \<le> x"
  proof -
    have "half_even (y / 2 powi ?s) \<le> half_even (x / 2 powi ?s)" using that by (intro half_even_mono
      divide_right_mono) simp_all
    then show ?thesis using assms(1) by (simp add: n) (simp add: rounded_def y)
  qed
qed

lemma rounded_exact:
  assumes "representable y"
  shows "rounded y = y"
proof (cases "y = 0")
  case False
  from assms show ?thesis
  proof (cases rule: representable_cases)
    case (2 m s)
    have "spacing_of y \<le> s" using spacing_le 2 False by blast
    from rounded_grid [OF False 2(1) this] show ?thesis by simp
  qed (use False in simp)
qed (simp add: rounded_def)

text \<open>A rounded number is representable, or too large.\<close>

lemma rounded_representable: "representable (rounded x)"
proof (cases "x = 0")
  case False
  let ?s = "spacing_of x" and ?m = "half_even (x / 2 powi spacing_of x)"
  have s: "- 149 \<le> ?s" by (simp add: spacing_of_def)
  have "\<bar>x\<bar> < 2 powi (?s + 24)"
  proof -
    have "exponent_of x + 1 \<le> ?s + 24" by (simp add: spacing_of_def)
    then have "(2 powi (exponent_of x + 1) :: rat)
      \<le> 2 powi (?s + 24)" by (simp add: power_int_increasing)
    then show ?thesis using exponent_of_bounds(2) [OF False] by linarith
  qed
  then have b: "\<bar>x / 2 powi ?s\<bar> < 2 ^ 24" by (simp add: abs_div divide_less_eq power_int_add
    mult.commute)
  have he: "\<bar>half_even z\<bar> \<le> 2 ^ 24" if "\<bar>z\<bar> < 2 ^ 24" for z
  proof -
    have "half_even z \<le> half_even (of_int (2 ^ 24))" "half_even (of_int (- (2 ^ 24))) \<le> half_even z"
      using that by (intro half_even_mono; simp)+
    then show ?thesis by (simp only: half_even_int)
  qed
  have m: "\<bar>?m\<bar> \<le> 2 ^ 24" using he [OF b] .
  have r: "rounded x = of_int ?m * 2 powi ?s" using False by (simp add: rounded_def)
  show ?thesis
  proof (cases "\<bar>?m\<bar> = 2 ^ 24")
    case True
    then have "?m = 16777216 \<or> ?m = - 16777216" by (simp add: abs_if split: if_splits)
    then have half: "?m = 2 * (?m div 2)" "\<bar>?m div 2\<bar> < 2 ^ 24" by auto
    then have "rounded x = of_int (?m div 2) * 2 powi (?s + 1)"
      using r arg_cong [OF half(1), of "of_int :: int \<Rightarrow> rat"] by (simp add: power_int_add)
    then show ?thesis using s half(2) unfolding representable_def
      by (intro exI [of _ "?m div 2"] exI [of _ "?s + 1"]) simp
  next
    case False
    then show ?thesis using m r s unfolding representable_def by (intro exI [of _ ?m] exI [of _ ?s])
      simp
  qed
qed (simp add: rounded_def representable_def exI [of _ 0])

text \<open>Rounding does not cross a representable number.\<close>

lemma rounded_between:
  assumes "representable y"
  shows "x \<le> y \<Longrightarrow> rounded x \<le> y" "y \<le> x \<Longrightarrow> y \<le> rounded x"
proof -
  have zero: "(x \<le> 0 \<longrightarrow> rounded x \<le> 0) \<and> (0 \<le> x \<longrightarrow> 0 \<le> rounded x)"
    using rounded_grid [of x 0 0 "spacing_of x"] by (cases "x = 0") (auto simp: rounded_def)
  have "(x \<le> y \<longrightarrow> rounded x \<le> y) \<and> (y \<le> x \<longrightarrow> y \<le> rounded x)"
  proof (cases "x = 0")
    case True
    then show ?thesis by (simp add: rounded_def)
  next
    case x: False
    from assms show ?thesis
    proof (cases rule: representable_cases)
      case 1
      then show ?thesis using zero by simp
    next
      case (2 m s)
      show ?thesis
      proof (cases "spacing_of x \<le> s")
        case True
        from rounded_grid [OF x 2(1) this] show ?thesis by blast
      next
        case False
        let ?t = "spacing_of x + 23"
        have t: "?t = exponent_of x" using False 2(2) by (auto simp: spacing_of_def)
        have "(2 powi (s + 24) :: rat) \<le> 2 powi ?t" using False by (intro power_int_increasing)
          simp_all
        then have y: "\<bar>y\<bar> < 2 powi ?t" using 2(3) by linarith
        have big: "2 powi ?t \<le> \<bar>x\<bar>" using exponent_of_bounds(1) [OF x] t by simp
        have g: "(2 powi ?t :: rat) = of_int 1 * 2 powi ?t" "- (2 powi ?t :: rat) = of_int (- 1)
          * 2 powi ?t" by simp_all
        have "spacing_of x \<le> ?t" by simp
        note gr = rounded_grid [OF x g(1) this] rounded_grid [OF x g(2) this]
        show ?thesis using y big gr(2,3) by (cases "0 \<le> x") auto
      qed
    qed
  qed
  then show "x \<le> y \<Longrightarrow> rounded x \<le> y" "y \<le> x \<Longrightarrow> y \<le> rounded x" by auto
qed

lemma representable_int: "\<bar>n\<bar> < 2 ^ 24 \<Longrightarrow> representable (of_int n)"
  unfolding representable_def by (intro exI [of _ n] exI [of _ 0]) simp

lemma representable_half: "\<bar>n\<bar> < 2 ^ 24 \<Longrightarrow> representable (of_int n / 2)"
  unfolding representable_def by (intro exI [of _ n] exI [of _ "- 1"]) (simp add: power_int_minus)

lemma representable_neg:
  assumes "representable x"
  shows "representable (- x)"
proof -
  obtain m s where "x = of_int m * 2 powi s" "\<bar>m\<bar> < 2 ^ 24" "- 149 \<le> s" using assms by (auto simp:
    representable_def)
  then show ?thesis unfolding representable_def by (intro exI [of _ "- m"] exI [of _ s]) simp
qed

lemma representable_scale:
  assumes "representable x"
  shows "representable (2 ^ k * x)"
proof -
  obtain m s where "x = of_int m * 2 powi s" "\<bar>m\<bar> < 2 ^ 24" "- 149 \<le> s" using assms by (auto simp:
    representable_def)
  then show ?thesis unfolding representable_def
    by (intro exI [of _ m] exI [of _ "s + int k"]) (simp add: power_int_add)
qed

lemma representable_minimum: "representable x \<Longrightarrow> representable y \<Longrightarrow> representable (min x y)"
  by (simp add: min_def)

text \<open>Rounding is monotone: between two numbers of different spacing lies a power of two.\<close>

lemma spacing_separates:
  assumes "x \<noteq> 0" "y \<noteq> 0" "spacing_of x < spacing_of y"
  obtains p where "representable p" "\<bar>x\<bar> < p" "p \<le> \<bar>y\<bar>"
proof -
  let ?e = "exponent_of y"
  have e: "exponent_of x < ?e" "- 126 < ?e" using assms(3)
    by (auto simp: spacing_of_def max_def split: if_splits)
  have "(2 powi (exponent_of x + 1) :: rat) \<le> 2 powi ?e" using e(1) by (intro power_int_increasing)
    simp_all
  moreover have "representable (2 powi ?e)"
    unfolding representable_def using e(2) by (intro exI [of _ 1] exI [of _ ?e]) simp
  ultimately show thesis
    using that [of "2 powi ?e"] exponent_of_bounds [OF assms(1)] exponent_of_bounds [OF assms(2)] by
      linarith
qed

lemma rounded_mono:
  assumes "x \<le> y"
  shows "rounded x \<le> rounded y"
proof -
  have sign: "z \<le> 0 \<Longrightarrow> rounded z \<le> 0" "0 \<le> z \<Longrightarrow> 0 \<le> rounded z" for z
    using rounded_between [of 0 z] representable_int [of 0] by simp_all
  consider "x = 0 \<or> y = 0" | (same) "x \<noteq> 0" "y \<noteq> 0" "spacing_of x = spacing_of y"
    | (up) "x \<noteq> 0" "y \<noteq> 0" "spacing_of x < spacing_of y"
    | (down) "x \<noteq> 0" "y \<noteq> 0" "spacing_of y < spacing_of x" by linarith
  then show ?thesis
  proof cases
    case 1
    then show ?thesis using assms sign [of x] sign [of y] by (auto simp: rounded_def [of 0])
  next
    case same
    then have "half_even (x / 2 powi spacing_of x) \<le> half_even (y / 2 powi spacing_of x)"
      using assms by (intro half_even_mono divide_right_mono) simp_all
    then show ?thesis using same by (simp add: rounded_def)
  next
    case up
    obtain p where "representable p" "\<bar>x\<bar> < p" "p \<le> \<bar>y\<bar>" using spacing_separates up by blast
    then show ?thesis using assms rounded_between [of p x] rounded_between [of p y] by (auto simp:
      abs_if split: if_splits)
  next
    case down
    obtain p where "representable p" "\<bar>y\<bar> < p" "p \<le> \<bar>x\<bar>" using spacing_separates down by blast
    then show ?thesis using assms representable_neg [of p] rounded_between [of "- p" x]
      rounded_between [of "- p" y]
      by (auto simp: abs_if split: if_splits)
  qed
qed

lemma rounded_zero [simp]: "rounded 0 = 0"
  by (simp add: rounded_def)

lemma rounded_abs: "rounded \<bar>x\<bar> = \<bar>rounded x\<bar>"
  using rounded_mono [of 0 x] rounded_mono [of x 0] rounded_minus [of x]
  by (cases "x < 0") (auto simp: abs_if)

lemma round_finite: "f32_round x = Finite y \<Longrightarrow> y = rounded x"
  by (auto simp: f32_round_def split: if_splits)

lemma round_representable: "f32_round x = Finite y \<Longrightarrow> representable y"
  using round_finite rounded_representable by blast

lemma round_exact: "representable x \<Longrightarrow> \<bar>x\<bar> < 2 ^ 128 \<Longrightarrow> f32_round x = Finite x"
  by (simp add: f32_round_def rounded_exact)

text \<open>The finite single precision numbers, and the values of the type.\<close>

definition single :: "rat \<Rightarrow> bool" where
  "single x \<longleftrightarrow> representable x \<and> \<bar>x\<bar> < 2 ^ 128"

definition f32_value :: "f32 \<Rightarrow> bool" where
  "f32_value v \<longleftrightarrow> (\<forall>x. v = Finite x \<longrightarrow> single x)"

lemma round_single: "f32_round x = Finite y \<Longrightarrow> single y"
  using round_representable [of x y] by (auto simp: single_def f32_round_def split: if_splits)

lemma round_value: "f32_value (f32_round x)"
  using round_single by (simp add: f32_value_def)

lemma round_between_single:
  assumes "single l" "single h" "l \<le> x" "x \<le> h"
  obtains y where "f32_round x = Finite y" "l \<le> y" "y \<le> h" "single y"
proof -
  have y: "l \<le> rounded x" "rounded x \<le> h" using rounded_between assms by (auto simp: single_def)
  then have "\<bar>rounded x\<bar> < 2 ^ 128" using assms by (auto simp: single_def abs_if split: if_splits)
  then have "f32_round x = Finite (rounded x)" by (simp add: f32_round_def)
  then show thesis using that y round_single by blast
qed

text \<open>A symmetric bound that is representable survives rounding.\<close>

lemma rounded_within: "representable m \<Longrightarrow> \<bar>x\<bar> \<le> m \<Longrightarrow> \<bar>rounded x\<bar> \<le> m"
  using rounded_between(1) [of m x] rounded_between(2) [OF representable_neg,
    of m x] by (auto simp: abs_le_iff)

lemma round_within:
  assumes "representable m" "\<bar>x\<bar> \<le> m" "m < 2 ^ 128"
  obtains y where "f32_round x = Finite y" "\<bar>y\<bar> \<le> m"
  using that [of "rounded x"] rounded_within [OF assms(1,2)] assms(3) by (simp add: f32_round_def)

lemma to_i32_abs: "of_int \<bar>sint (f32_to_i32 (Finite z))\<bar> \<le> \<bar>z\<bar>"
proof -
  let ?n = "toward_zero z"
  have n: "of_int \<bar>?n\<bar> \<le> \<bar>z\<bar>"
  proof (cases "0 \<le> z")
    case False
    then have "\<lceil>z\<rceil> \<le> 0" by (simp add: ceiling_le_iff)
    then show ?thesis using False le_of_int_ceiling [of z] by (simp add: toward_zero_def)
  qed (simp add: toward_zero_def)
  have le: "\<bar>k\<bar> \<le> \<bar>?n\<bar> \<Longrightarrow> of_int \<bar>k\<bar> \<le> \<bar>z\<bar>" for k :: int using n by (meson of_int_le_iff order_trans)
  consider "?n < - 2147483648" | "2147483647 < ?n" | "- 2147483648 \<le> ?n" "?n \<le> 2147483647" by
    linarith
  then show ?thesis
  proof cases
    case 3
    then have "sint (f32_to_i32 (Finite z)) = ?n" by (simp add: Let_def sint_of_int32)
    then show ?thesis using n by simp
  qed (use le [of 2147483648] le [of 2147483647] in \<open>simp_all add: Let_def\<close>)
qed

lemma of_int_exact: "\<bar>n\<bar> < 2 ^ 24 \<Longrightarrow> f32_of_int n = Finite (of_int n)"
  unfolding f32_of_int_def
proof (rule round_exact [OF representable_int])
  assume "\<bar>n\<bar> < 2 ^ 24"
  moreover have "(2 :: int) ^ 24 \<le> 2 ^ 128" by (rule power_increasing) simp_all
  ultimately have "\<bar>n\<bar> < 2 ^ 128" by (rule order.strict_trans2)
  then show "\<bar>of_int n :: rat\<bar> < 2 ^ 128" by (metis of_int_abs of_int_less_iff of_int_numeral
    of_int_power)
qed

lemma round_dyadic:
  assumes "\<bar>m\<bar> < 2 ^ 24" "k \<le> 149"
  shows "f32_round (of_int m / 2 ^ k) = Finite (of_int m / 2 ^ k)"
proof (rule round_exact)
  show "representable (of_int m / 2 ^ k)" unfolding representable_def
    using assms by (intro exI [of _ m] exI [of _ "- int k"])
      (simp add: power_int_minus divide_inverse)
  have "(1 :: rat) \<le> 2 ^ k" by simp
  then have "\<bar>of_int m / 2 ^ k :: rat\<bar> \<le> \<bar>of_int m\<bar>" by (simp add: divide_le_eq
    mult_le_cancel_left1)
  also have "\<dots> < 2 ^ 24" using assms(1) by (metis of_int_abs of_int_less_iff of_int_numeral
    of_int_power)
  finally show "\<bar>of_int m / 2 ^ k :: rat\<bar> < 2 ^ 128" by simp
qed

text \<open>The square root is the nearest multiple of its spacing.\<close>

lemma int_sqrt_bounds:
  "0 \<le> n \<Longrightarrow> 0 \<le> int_sqrt n \<and> int_sqrt n * int_sqrt n \<le> n \<and> n < (int_sqrt n + 1) * (int_sqrt n + 1)"
proof (induction n rule: int_sqrt.induct)
  case (1 n)
  show ?case
  proof (cases "n \<le> 0")
    case False
    let ?q = "int_sqrt (n div 4)"
    have ih: "0 \<le> ?q" "?q * ?q \<le> n div 4" "n div 4 < (?q + 1) * (?q + 1)" using 1 False by auto
    have "4 * (?q * ?q) \<le> n" "n < 4 * ((?q + 1) * (?q + 1))" using ih by linarith+
    moreover have "int_sqrt n = (if (2 * ?q + 1) * (2 * ?q + 1) \<le> n then 2 * ?q + 1 else 2 * ?q)"
      using False by (subst int_sqrt.simps) (simp add: Let_def)
    ultimately show ?thesis using ih(1) by (auto simp: algebra_simps)
  qed (use 1 in \<open>simp add: int_sqrt.simps\<close>)
qed

lemma rounded_sqrt_near:
  assumes "0 < x"
  obtains r t where "rounded_sqrt x = of_int r * 2 powi t" "0 \<le> r"
    "(of_int r - 1 / 2) * (of_int r - 1 / 2) \<le> x / 2 powi (2 * t) \<or> r = 0"
    "x / 2 powi (2 * t) \<le> (of_int r + 1 / 2) * (of_int r + 1 / 2)"
proof -
  define t where "t = exponent_of x div 2 - 23"
  define z where "z = x / 2 powi (2 * t)"
  define n where "n = int_sqrt \<lfloor>z\<rfloor>"
  have z: "0 \<le> z" using assms by (simp add: z_def)
  have "0 \<le> n" "n * n \<le> \<lfloor>z\<rfloor>" "\<lfloor>z\<rfloor> < (n + 1) * (n + 1)" using int_sqrt_bounds [of "\<lfloor>z\<rfloor>"] z by
    (simp_all add: n_def)
  then have n: "0 \<le> n" and b: "of_int (n * n) \<le> z" "z < of_int ((n + 1)
    * (n + 1))" by (simp_all add: le_floor_iff floor_less_iff)
  define r where "r = (if z < of_int (n * n + n) + 1 / 4 \<or> z = of_int (n * n + n) + 1 / 4 \<and>
    even n then n else n + 1)"
  have "rounded_sqrt x = of_int r * 2 powi t"
    by (simp add: rounded_sqrt_def Let_def r_def z_def n_def t_def)
  moreover have "(of_int r - 1 / 2) * (of_int r - 1 / 2) \<le> z \<or> r = 0" "z \<le> (of_int r + 1 / 2)
    * (of_int r + 1 / 2)"
    using b n by (auto simp: r_def algebra_simps split: if_splits)
  ultimately show thesis using that [of r t] n by (auto simp: z_def r_def)
qed

end
