(* ===== verification/Pi_Controller.thy ===== *)
theory Pi_Controller
  imports Float32
begin

text \<open>
  The helpers of \<open>firmware/include/mks57d/control_math.h\<close> and the PI controller of
  \<open>firmware/src/control/pi_controller.c\<close>, in single precision, and the observation of the rotor that
  the controllers of the cascade share (\<open>rotor_observation.h\<close>). A function with multiply-adds takes
    as
  \<open>fp\<close> which of them the compiler contracts, numbered in the order of the text.
\<close>

section \<open>Helpers\<close>

definition finite_positive :: "f32 \<Rightarrow> bool" where
  "finite_positive value \<longleftrightarrow> isfinite value \<and> f32_less (Finite 0) value"

definition clamp_symmetric :: "f32 \<Rightarrow> f32 \<Rightarrow> f32" where
  "clamp_symmetric value limit =
     (if f32_less limit value then limit
      else if f32_less value (f32_neg limit) then f32_neg limit
      else value)"

definition q16_16_to_float :: "i32 \<Rightarrow> f32" where
  "q16_16_to_float value = f32_div (f32_of_int (sint value)) (Finite 65536)"

definition float_to_q16_16 :: "f32 \<Rightarrow> i32" where
  "float_to_q16_16 value =
     (let maximum = f32_round (32767 + 9999847412109375 / 10 ^ 16)
      in if f32_le maximum value then 0x7FFFFFFF
         else if f32_le value (Finite (- 32768)) then 0x80000000
         else f32_to_i32 (f32_mul value (Finite 65536)))"

section \<open>The controller\<close>

record pi_controller_config =
  pg_proportional_gain :: f32
  pg_integral_gain_per_second :: f32
  pg_output_limit :: f32
  pg_integrator_limit :: f32

record pi_controller =
  pi_integrator :: f32
  pi_initialized :: bool

definition finite_nonnegative :: "f32 \<Rightarrow> bool" where
  "finite_nonnegative value \<longleftrightarrow> isfinite value \<and> f32_le (Finite 0) value"

fun pi_controller_config_is_valid :: "pi_controller_config ptr \<Rightarrow> bool" where
  "pi_controller_config_is_valid None = False"
| "pi_controller_config_is_valid (Some config) \<longleftrightarrow>
     finite_nonnegative (pg_proportional_gain config) \<and>
     finite_nonnegative (pg_integral_gain_per_second config) \<and>
     isfinite (pg_output_limit config) \<and> f32_less (Finite 0) (pg_output_limit config) \<and>
     isfinite (pg_integrator_limit config) \<and> f32_less (Finite 0) (pg_integrator_limit config)"

definition pi_controller_reset :: "pi_controller ptr \<Rightarrow> pi_controller ptr" where
  "pi_controller_reset = map_option (\<lambda>c. c\<lparr>pi_integrator := Finite 0, pi_initialized := True\<rparr>)"

definition pi_step ::
  "(nat \<Rightarrow> bool) \<Rightarrow> pi_controller \<Rightarrow> pi_controller_config \<Rightarrow> f32 \<Rightarrow> f32 \<Rightarrow> pi_controller \<times> f32" where
  "pi_step fp controller config error elapsed_seconds =
     (let candidate_integrator = clamp_symmetric
            (f32_mul_add (fp 0) (f32_mul (pg_integral_gain_per_second config) error) elapsed_seconds
               (pi_integrator controller))
            (pg_integrator_limit config);
          candidate_output = f32_mul_add (fp 1) (pg_proportional_gain config)
            error candidate_integrator;
          saturating_high = (f32_less (pg_output_limit config) candidate_output \<and>
            f32_less (Finite 0) error);
          saturating_low =
            (f32_less candidate_output (f32_neg (pg_output_limit config)) \<and>
            f32_less error (Finite 0));
          controller = (if \<not> saturating_high \<and> \<not> saturating_low
                        then controller\<lparr>pi_integrator := candidate_integrator\<rparr> else controller)
      in (controller, clamp_symmetric
            (f32_mul_add (fp 2) (pg_proportional_gain config) error (pi_integrator controller))
            (pg_output_limit config)))"

fun pi_controller_step ::
  "(nat \<Rightarrow> bool) \<Rightarrow> pi_controller ptr \<Rightarrow> pi_controller_config ptr \<Rightarrow> f32 \<Rightarrow> f32 \<Rightarrow> f32 ptr \<Rightarrow>
     bool \<times> pi_controller ptr \<times> f32 ptr" where
  "pi_controller_step fp (Some controller) (Some config) error elapsed_seconds (Some output) =
     (if \<not> pi_initialized controller \<or> \<not> pi_controller_config_is_valid (Some config) \<or>
         \<not> isfinite error \<or> \<not> isfinite elapsed_seconds \<or> f32_le elapsed_seconds (Finite 0)
      then (False, Some controller, Some output)
      else case pi_step fp controller config error elapsed_seconds of
        (controller, output) \<Rightarrow> (isfinite output, Some controller, Some output))"
| "pi_controller_step fp controller config error elapsed_seconds output = (False, controller,
  output)"

section \<open>The observation of the rotor\<close>

record rotor_observation =
  ro_position_revolutions :: f32
  ro_velocity_revolutions_per_second :: f32
  ro_timestamp_us :: u32
  ro_valid :: bool

section \<open>Bounds\<close>

lemma isfinite_iff: "isfinite x \<longleftrightarrow> (\<exists>r. x = Finite r)"
  by (cases x) simp_all

lemma clamp_bounds:
  assumes "clamp_symmetric v (Finite l) = Finite y" "0 \<le> l"
  shows "\<bar>y\<bar> \<le> l" "y = l \<or> y = - l \<or> v = Finite y"
  using assms by (cases v; auto simp: clamp_symmetric_def split: if_splits)+

lemma add_representable: "f32_add a b = Finite y \<Longrightarrow> representable y"
  by (cases "(a, b)" rule: f32_add.cases) (auto intro: round_representable split: if_splits)

lemma mul_add_representable: "f32_mul_add fused a b c = Finite y \<Longrightarrow> representable y"
  by (cases "(fused, a, b, c)" rule: f32_mul_add.cases)
    (auto intro: round_representable add_representable simp del: f32_add.simps f32_mul.simps)

text \<open>A successful step delivers a number within the limit, and representable if the limit is.\<close>

lemma pi_step_bounded:
  assumes "pi_controller_step fp (Some c) (Some g) e t (Some o0) = (True, Some c', Some out)"
    and "pg_output_limit g = Finite l" "representable l"
  obtains y where "out = Finite y" "\<bar>y\<bar> \<le> l" "representable y"
proof -
  have v: "pi_controller_config_is_valid (Some g)" and s: "pi_step fp c g e t = (c',
    out)" "isfinite out"
    using assms(1) by (auto simp del: pi_controller_config_is_valid.simps split: if_splits
      prod.splits)
  have l: "0 < l" using v assms(2) by simp
  obtain y where y: "out = Finite y" using s(2) by (auto simp: isfinite_iff)
  have c: "clamp_symmetric (f32_mul_add (fp 2) (pg_proportional_gain g) e (pi_integrator c'))
    (Finite l) = Finite y"
    using s(1) y assms(2) by (auto simp: pi_step_def Let_def)
  have "\<bar>y\<bar> \<le> l" using clamp_bounds(1) [OF c] l by simp
  moreover have "representable y"
    using clamp_bounds(2) [OF c] l assms(3) mul_add_representable representable_neg by auto
  ultimately show thesis using that y by blast
qed

lemma pi_step_keeps:
  assumes "pi_controller_step fp (Some c) (Some g) e t (Some o0) = (ok, Some c', Some out)"
  shows "pi_initialized c' = pi_initialized c"
  using assms by (auto simp: pi_step_def Let_def split: if_splits)

lemma pi_step_defined:
  "\<exists>ok c' out. pi_controller_step fp (Some c) (Some g) e t (Some o0) = (ok, Some c', Some out)"
  by (cases "pi_step fp c g e t") auto

section \<open>Fixed point conversions\<close>

text \<open>The largest value of the conversion is the power of two that the literal rounds to.\<close>

lemma q16_maximum: "f32_round (32767 + 9999847412109375 / 10 ^ 16) = Finite 32768"
proof -
  let ?x = "32767 + 9999847412109375 / 10 ^ 16 :: rat"
  have s: "spacing_of ?x = - 9"
    using exponent_unique [of 14 ?x] by (simp add: spacing_of_def)
  have "\<lfloor>?x * 512\<rfloor> = 16777215" by (rule floor_unique) simp_all
  then have "half_even (?x * 512) = 16777216" by (simp add: half_even_def Let_def)
  moreover have "?x / 2 powi - 9 = ?x * 512" by (simp add: power_int_minus)
  ultimately have "rounded ?x = 32768" using s by (simp add: rounded_def power_int_minus)
  then show ?thesis by (simp add: f32_round_def)
qed

lemma float_to_q16_bound:
  assumes "single m" "\<bar>y\<bar> \<le> m"
  shows "of_int \<bar>sint (float_to_q16_16 (Finite y))\<bar> \<le> 65536 * m"
proof -
  consider "32768 \<le> y" | "y \<le> - 32768" | (mid) "- 32768 < y" "y < 32768" by linarith
  then show ?thesis
  proof cases
    case mid
    let ?m = "min m 32768"
    have "representable (2 ^ 16 * ?m)"
      using assms representable_int [of 32768] by (intro representable_scale representable_minimum)
        (simp_all add: single_def)
    moreover have "\<bar>y * 65536\<bar> \<le> 2 ^ 16 * ?m" using assms(2) mid by (simp add: abs_mult)
    ultimately obtain z where "f32_round (y * 65536) = Finite z" "\<bar>z\<bar> \<le> 2 ^ 16 * ?m"
      by (rule round_within) simp
    moreover have "2 ^ 16 * ?m \<le> 65536 * m" by simp
    ultimately show ?thesis using mid to_i32_abs [of z]
      by (simp add: float_to_q16_16_def q16_maximum [simplified] Let_def del: f32_to_i32.simps)
  qed (use assms in \<open>simp_all add: float_to_q16_16_def q16_maximum [simplified] Let_def\<close>)
qed

lemma q16_to_float_bound:
  assumes "single m" "of_int \<bar>sint v\<bar> \<le> 65536 * m"
  obtains y where "q16_16_to_float v = Finite y" "\<bar>y\<bar> \<le> m"
proof -
  let ?m = "min m 32768"
  have m: "representable ?m" using assms(1)
    representable_int [of 32768] by (intro representable_minimum) (simp_all add: single_def)
  have "(of_int \<bar>sint v\<bar> :: rat) \<le> of_int 2147483648" using sint32_range [of v] by (simp only:
    of_int_le_iff) auto
  then have v: "\<bar>of_int (sint v) :: rat\<bar> \<le> 2 ^ 16 * ?m" using assms(2) by (simp add: min_def)
  obtain x where x: "f32_round (of_int (sint v)) = Finite x" "\<bar>x\<bar> \<le> 2 ^ 16 * ?m"
    by (rule round_within [OF representable_scale [OF m] v]) simp
  have x': "\<bar>x / 65536\<bar> \<le> ?m" using x(2) by (auto simp: abs_div divide_le_eq min_def split:
    if_splits)
  obtain y where "f32_round (x / 65536) = Finite y" "\<bar>y\<bar> \<le> ?m"
    by (rule round_within [OF m x']) simp
  then show thesis using that x(1) by (simp add: q16_16_to_float_def f32_of_int_def)
qed

end
