(* ===== verification/Velocity_Controller.thy ===== *)
theory Velocity_Controller
  imports Pi_Controller
begin

text \<open>
  The velocity controller, \<open>firmware/src/control/velocity_controller.c\<close>: a velocity reference is
  ramped towards the target at a limited acceleration and a PI controller turns the velocity error
  into a q-axis current request, until the deadline, a stop, or feedback that is missing, late or
  too fast. The lemmas show, for all inputs (not a number and the infinities included) and every
  choice of contractions, that the request never exceeds the limit of the run, that it is zero
  whenever the controller is not active, and that a run ends by its deadline.
\<close>

section \<open>Data\<close>

datatype velocity_control_state = VELOCITY_CONTROL_STATE_IDLE | VELOCITY_CONTROL_STATE_RAMPING
  | VELOCITY_CONTROL_STATE_TRACKING | VELOCITY_CONTROL_STATE_COMPLETE
  | VELOCITY_CONTROL_STATE_STOPPED | VELOCITY_CONTROL_STATE_FAILED

datatype velocity_control_result = VELOCITY_CONTROL_RESULT_NONE | VELOCITY_CONTROL_RESULT_DEADLINE
  | VELOCITY_CONTROL_RESULT_STOPPED | VELOCITY_CONTROL_RESULT_INVALID_FEEDBACK
  | VELOCITY_CONTROL_RESULT_FEEDBACK_TIMING | VELOCITY_CONTROL_RESULT_OVERSPEED
  | VELOCITY_CONTROL_RESULT_INTERNAL_NUMERIC | VELOCITY_CONTROL_RESULT_ACTUATOR_FAULT

datatype velocity_control_event = VELOCITY_CONTROL_EVENT_NONE
  | VELOCITY_CONTROL_EVENT_CURRENT_CHANGED | VELOCITY_CONTROL_EVENT_COMPLETED
  | VELOCITY_CONTROL_EVENT_FAILED

definition VELOCITY_CONTROL_FAULT_INVALID_FEEDBACK :: u32 where
  "VELOCITY_CONTROL_FAULT_INVALID_FEEDBACK = 1"
definition VELOCITY_CONTROL_FAULT_FEEDBACK_TIMING :: u32 where
  "VELOCITY_CONTROL_FAULT_FEEDBACK_TIMING = 2"
definition VELOCITY_CONTROL_FAULT_OVERSPEED :: u32 where "VELOCITY_CONTROL_FAULT_OVERSPEED = 4"
definition VELOCITY_CONTROL_FAULT_INTERNAL_NUMERIC :: u32 where
  "VELOCITY_CONTROL_FAULT_INTERNAL_NUMERIC = 8"
definition VELOCITY_CONTROL_FAULT_ACTUATOR :: u32 where "VELOCITY_CONTROL_FAULT_ACTUATOR = 16"

record velocity_controller_config =
  vg_current_controller :: pi_controller_config
  vg_maximum_target_velocity :: f32
  vg_maximum_target_acceleration :: f32
  vg_maximum_feedback_velocity :: f32
  vg_maximum_current_counts :: u16
  vg_maximum_feedback_interval_us :: u16
  vg_minimum_duration_millis :: u32
  vg_maximum_duration_millis :: u32

record velocity_controller_status =
  vl_state :: velocity_control_state
  vl_result :: velocity_control_result
  vl_fault_flags :: u32
  vl_target_velocity_q16_16 :: i32
  vl_reference_velocity_q16_16 :: i32
  vl_measured_velocity_q16_16 :: i32
  vl_velocity_error_q16_16 :: i32
  vl_requested_q_current_counts :: i16
  vl_current_limit_counts :: u16
  vl_elapsed_millis :: u32
  vl_active :: bool

record velocity_controller =
  vc_config :: velocity_controller_config
  vc_status :: velocity_controller_status
  vc_current_controller :: pi_controller
  vc_target_velocity :: f32
  vc_reference_velocity :: f32
  vc_target_acceleration :: f32
  vc_start_millis :: u32
  vc_deadline_millis :: u32
  vc_last_feedback_timestamp_us :: u32
  vc_actuator_direction :: i8
  vc_initialized :: bool

definition empty_velocity_status :: velocity_controller_status where
  "empty_velocity_status = \<lparr>vl_state = VELOCITY_CONTROL_STATE_IDLE,
     vl_result = VELOCITY_CONTROL_RESULT_NONE, vl_fault_flags = 0, vl_target_velocity_q16_16 = 0,
     vl_reference_velocity_q16_16 = 0, vl_measured_velocity_q16_16 = 0,
     vl_velocity_error_q16_16 = 0, vl_requested_q_current_counts = 0, vl_current_limit_counts = 0,
     vl_elapsed_millis = 0, vl_active = False\<rparr>"

section \<open>Operations\<close>

definition round_to_i16 :: "f32 \<Rightarrow> i16" where
  "round_to_i16 value =
     (if f32_le (Finite 32767) value then 0x7FFF
      else if f32_le value (Finite (- 32768)) then 0x8000
      else if f32_le (Finite 0) value
        then word_of_int (sint (f32_to_i32 (f32_add value (Finite (1 / 2)))))
        else word_of_int (sint (f32_to_i32 (f32_sub value (Finite (1 / 2))))))"

definition velocity_clear_request :: "velocity_controller \<Rightarrow> velocity_controller" where
  "velocity_clear_request controller = controller\<lparr>vc_status := (vc_status controller)
     \<lparr>vl_requested_q_current_counts := 0, vl_active := False\<rparr>\<rparr>"

definition velocity_fail_controller ::
  "velocity_controller \<Rightarrow> velocity_control_result \<Rightarrow> u32 \<Rightarrow> u32 \<Rightarrow>
     velocity_control_event \<times> velocity_controller" where
  "velocity_fail_controller controller result fault now_millis =
     (VELOCITY_CONTROL_EVENT_FAILED, velocity_clear_request
        (controller\<lparr>vc_status := (vc_status controller)
           \<lparr>vl_state := VELOCITY_CONTROL_STATE_FAILED, vl_result := result,
            vl_fault_flags := vl_fault_flags (vc_status controller) OR fault,
            vl_elapsed_millis := now_millis - vc_start_millis controller\<rparr>\<rparr>))"

fun velocity_controller_config_is_valid :: "velocity_controller_config ptr \<Rightarrow> bool" where
  "velocity_controller_config_is_valid None = False"
| "velocity_controller_config_is_valid (Some config) \<longleftrightarrow>
     pi_controller_config_is_valid (Some (vg_current_controller config)) \<and>
     finite_positive (vg_maximum_target_velocity config) \<and>
     finite_positive (vg_maximum_target_acceleration config) \<and>
     finite_positive (vg_maximum_feedback_velocity config) \<and>
     f32_le (vg_maximum_target_velocity config) (vg_maximum_feedback_velocity config) \<and>
     0 < vg_maximum_current_counts config \<and>
     f32_le (f32_of_int (uint (vg_maximum_current_counts config)))
       (pg_output_limit (vg_current_controller config)) \<and>
     f32_le (pg_integrator_limit (vg_current_controller config))
       (pg_output_limit (vg_current_controller config)) \<and>
     0 < vg_maximum_feedback_interval_us config \<and>
     0 < vg_minimum_duration_millis config \<and>
     vg_minimum_duration_millis config \<le> vg_maximum_duration_millis config \<and>
     vg_maximum_duration_millis config \<le> 0x7FFFFFFF"

fun velocity_controller_init ::
  "velocity_controller ptr \<Rightarrow> velocity_controller_config ptr \<Rightarrow> bool \<times> velocity_controller ptr" where
  "velocity_controller_init (Some controller) (Some config) =
     (if \<not> velocity_controller_config_is_valid (Some config) then (False, Some controller)
      else (True, Some \<lparr>vc_config = config, vc_status = empty_velocity_status,
        vc_current_controller = \<lparr>pi_integrator = Finite 0, pi_initialized = True\<rparr>,
        vc_target_velocity = Finite 0, vc_reference_velocity = Finite 0,
        vc_target_acceleration = Finite 0, vc_start_millis = 0, vc_deadline_millis = 0,
        vc_last_feedback_timestamp_us = 0, vc_actuator_direction = 0, vc_initialized = True\<rparr>))"
| "velocity_controller_init controller config = (False, controller)"

text \<open>The check of a target against the largest one, shared by the starts and a new target.\<close>

definition target_in_range :: "velocity_controller \<Rightarrow> f32 \<Rightarrow> bool" where
  "target_in_range controller target_velocity \<longleftrightarrow> isfinite target_velocity \<and>
     \<not> f32_less (vg_maximum_target_velocity (vc_config controller)) (f32_abs target_velocity)"

fun velocity_start_controller ::
  "velocity_controller ptr \<Rightarrow> i32 \<Rightarrow> f32 \<Rightarrow> u16 \<Rightarrow> u32 \<Rightarrow> i8 \<Rightarrow> u32 \<Rightarrow> rotor_observation ptr \<Rightarrow> bool \<Rightarrow>
     bool \<times> velocity_controller ptr" where
  "velocity_start_controller (Some controller) target_q16_16 target_acceleration
     current_limit_counts duration_millis actuator_direction now_millis (Some observation)
     allow_zero_target =
     (let config = vc_config controller;
          measured = ro_velocity_revolutions_per_second observation;
          target_velocity = q16_16_to_float target_q16_16
      in if \<not> vc_initialized controller \<or> vl_active (vc_status controller) \<or>
            \<not> ro_valid observation \<or> \<not> isfinite (ro_position_revolutions observation) \<or>
            \<not> isfinite measured \<or> \<not> allow_zero_target \<and> target_q16_16 = 0 \<or>
            \<not> finite_positive target_acceleration \<or>
            f32_less (vg_maximum_target_acceleration config) target_acceleration \<or>
            current_limit_counts = 0 \<or> vg_maximum_current_counts config < current_limit_counts \<or>
            duration_millis < vg_minimum_duration_millis config \<or>
            vg_maximum_duration_millis config < duration_millis \<or>
            sint actuator_direction \<noteq> 1 \<and> sint actuator_direction \<noteq> - 1 \<or>
            f32_less (vg_maximum_feedback_velocity config) (f32_abs measured)
         then (False, Some controller)
         else if \<not> target_in_range controller target_velocity then (False, Some controller)
         else (True, Some (controller\<lparr>
           vc_status := empty_velocity_status\<lparr>vl_state := VELOCITY_CONTROL_STATE_RAMPING,
             vl_target_velocity_q16_16 := target_q16_16,
             vl_reference_velocity_q16_16 := float_to_q16_16 measured,
             vl_measured_velocity_q16_16 := float_to_q16_16 measured,
             vl_current_limit_counts := current_limit_counts, vl_active := True\<rparr>,
           vc_target_velocity := target_velocity, vc_reference_velocity := measured,
           vc_target_acceleration := target_acceleration, vc_start_millis := now_millis,
           vc_deadline_millis := now_millis + duration_millis,
           vc_last_feedback_timestamp_us := ro_timestamp_us observation,
           vc_actuator_direction := actuator_direction,
           vc_current_controller :=
             the (pi_controller_reset (Some (vc_current_controller controller)))\<rparr>)))"
| "velocity_start_controller controller target_q16_16 target_acceleration current_limit_counts
     duration_millis actuator_direction now_millis observation allow_zero_target =
     (False, controller)"

definition velocity_controller_start ::
  "velocity_controller ptr \<Rightarrow> i32 \<Rightarrow> i32 \<Rightarrow> u16 \<Rightarrow> u32 \<Rightarrow> i8 \<Rightarrow> u32 \<Rightarrow> rotor_observation ptr \<Rightarrow>
     bool \<times> velocity_controller ptr" where
  "velocity_controller_start controller target_q16_16 acceleration_q16_16 current_limit_counts
     duration_millis actuator_direction now_millis observation =
     velocity_start_controller controller target_q16_16 (q16_16_to_float acceleration_q16_16)
       current_limit_counts duration_millis actuator_direction now_millis observation False"

fun velocity_controller_start_tracking ::
  "velocity_controller ptr \<Rightarrow> i32 \<Rightarrow> u16 \<Rightarrow> u32 \<Rightarrow> i8 \<Rightarrow> u32 \<Rightarrow> rotor_observation ptr \<Rightarrow>
     bool \<times> velocity_controller ptr" where
  "velocity_controller_start_tracking None target_q16_16 current_limit_counts duration_millis
     actuator_direction now_millis observation = (False, None)"
| "velocity_controller_start_tracking (Some controller) target_q16_16 current_limit_counts
     duration_millis actuator_direction now_millis observation =
     velocity_start_controller (Some controller) target_q16_16
       (vg_maximum_target_acceleration (vc_config controller)) current_limit_counts
       duration_millis actuator_direction now_millis observation True"

fun velocity_controller_set_target ::
  "velocity_controller ptr \<Rightarrow> i32 \<Rightarrow> bool \<times> velocity_controller ptr" where
  "velocity_controller_set_target None target_q16_16 = (False, None)"
| "velocity_controller_set_target (Some controller) target_q16_16 =
     (let target_velocity = q16_16_to_float target_q16_16
      in if \<not> vc_initialized controller \<or> \<not> vl_active (vc_status controller) \<or>
            \<not> target_in_range controller target_velocity
         then (False, Some controller)
         else (True, Some (controller\<lparr>vc_target_velocity := target_velocity,
           vc_status := (vc_status controller)\<lparr>vl_target_velocity_q16_16 := target_q16_16,
             vl_state := (if vl_state (vc_status controller) = VELOCITY_CONTROL_STATE_TRACKING
                          then VELOCITY_CONTROL_STATE_RAMPING
                          else vl_state (vc_status controller))\<rparr>\<rparr>)))"

text \<open>The ramp of the reference; its sum is the third place where the compiler may contract.\<close>

definition ramp_reference :: "(nat \<Rightarrow> bool) \<Rightarrow> velocity_controller \<Rightarrow> f32 \<Rightarrow> velocity_controller" where
  "ramp_reference fp controller elapsed_seconds =
     (let maximum_delta = f32_mul (vc_target_acceleration controller) elapsed_seconds;
          reference = vc_reference_velocity controller;
          remaining = f32_sub (vc_target_velocity controller) reference
      in if f32_le (f32_abs remaining) maximum_delta
         then controller\<lparr>vc_reference_velocity := vc_target_velocity controller,
           vc_status := (vc_status controller)\<lparr>vl_state := VELOCITY_CONTROL_STATE_TRACKING\<rparr>\<rparr>
         else if f32_less (Finite 0) remaining
         then controller\<lparr>vc_reference_velocity :=
           f32_mul_add (fp 3) (vc_target_acceleration controller) elapsed_seconds reference\<rparr>
         else controller\<lparr>vc_reference_velocity :=
           f32_mul_add (fp 4) (f32_neg (vc_target_acceleration controller)) elapsed_seconds
             reference\<rparr>)"

text \<open>The PI configuration of the run: the limits are those of the run.\<close>

definition run_current_config :: "velocity_controller \<Rightarrow> pi_controller_config" where
  "run_current_config controller =
     (let limit = f32_of_int (uint (vl_current_limit_counts (vc_status controller)));
          config = (vg_current_controller (vc_config controller))\<lparr>pg_output_limit := limit\<rparr>
      in if f32_less limit (pg_integrator_limit config)
         then config\<lparr>pg_integrator_limit := limit\<rparr> else config)"

definition velocity_track ::
  "(nat \<Rightarrow> bool) \<Rightarrow> velocity_controller \<Rightarrow> u32 \<Rightarrow> rotor_observation \<Rightarrow> f32 \<Rightarrow>
     velocity_control_event \<times> velocity_controller \<times> i16" where
  "velocity_track fp controller now_millis observation elapsed_seconds =
     (let controller = ramp_reference fp controller elapsed_seconds;
          velocity_error = f32_sub (vc_reference_velocity controller)
            (ro_velocity_revolutions_per_second observation);
          (stepped, current_controller, current_request) =
            (if isfinite velocity_error
             then pi_controller_step fp (Some (vc_current_controller controller))
               (Some (run_current_config controller)) velocity_error elapsed_seconds
               (Some (Finite 0))
             else (False, Some (vc_current_controller controller), Some (Finite 0)));
          controller = controller\<lparr>vc_current_controller := the current_controller\<rparr>
      in if \<not> stepped
         then (case velocity_fail_controller controller VELOCITY_CONTROL_RESULT_INTERNAL_NUMERIC
                 VELOCITY_CONTROL_FAULT_INTERNAL_NUMERIC now_millis of
               (event, controller) \<Rightarrow> (event, controller, 0))
         else let request = round_to_i16 (f32_mul (the current_request)
                    (f32_of_int (sint (vc_actuator_direction controller))))
              in (VELOCITY_CONTROL_EVENT_CURRENT_CHANGED, controller\<lparr>
                    vc_status := (vc_status controller)\<lparr>
                      vl_reference_velocity_q16_16 :=
                        float_to_q16_16 (vc_reference_velocity controller),
                      vl_measured_velocity_q16_16 :=
                        float_to_q16_16 (ro_velocity_revolutions_per_second observation),
                      vl_velocity_error_q16_16 := float_to_q16_16 velocity_error,
                      vl_requested_q_current_counts := request\<rparr>,
                    vc_last_feedback_timestamp_us := ro_timestamp_us observation\<rparr>, request))"

definition velocity_update_active ::
  "(nat \<Rightarrow> bool) \<Rightarrow> velocity_controller \<Rightarrow> u32 \<Rightarrow> rotor_observation \<Rightarrow>
     velocity_control_event \<times> velocity_controller \<times> i16" where
  "velocity_update_active fp controller now_millis observation =
     (let controller = controller\<lparr>vc_status := (vc_status controller)
            \<lparr>vl_elapsed_millis := now_millis - vc_start_millis controller\<rparr>\<rparr>;
          config = vc_config controller;
          measured = ro_velocity_revolutions_per_second observation;
          elapsed_us = ro_timestamp_us observation - vc_last_feedback_timestamp_us controller;
          failed = (\<lambda>result fault. case velocity_fail_controller controller result fault now_millis
                      of (event, controller) \<Rightarrow> (event, controller, 0))
      in if \<not> ro_valid observation \<or> \<not> isfinite (ro_position_revolutions observation) \<or>
            \<not> isfinite measured
         then failed VELOCITY_CONTROL_RESULT_INVALID_FEEDBACK
           VELOCITY_CONTROL_FAULT_INVALID_FEEDBACK
         else if elapsed_us = 0 \<or> ucast (vg_maximum_feedback_interval_us config) < elapsed_us
         then failed VELOCITY_CONTROL_RESULT_FEEDBACK_TIMING VELOCITY_CONTROL_FAULT_FEEDBACK_TIMING
         else if f32_less (vg_maximum_feedback_velocity config) (f32_abs measured)
         then failed VELOCITY_CONTROL_RESULT_OVERSPEED VELOCITY_CONTROL_FAULT_OVERSPEED
         else if 0 \<le> sint (now_millis - vc_deadline_millis controller)
         then (VELOCITY_CONTROL_EVENT_COMPLETED, velocity_clear_request (controller\<lparr>vc_status :=
                 (vc_status controller)\<lparr>vl_state := VELOCITY_CONTROL_STATE_COMPLETE,
                    vl_result := VELOCITY_CONTROL_RESULT_DEADLINE\<rparr>\<rparr>), 0)
         else velocity_track fp controller now_millis observation
                (f32_div (f32_of_int (uint elapsed_us)) (f32_of_int 1000000)))"

fun velocity_controller_update ::
  "(nat \<Rightarrow> bool) \<Rightarrow> velocity_controller ptr \<Rightarrow> u32 \<Rightarrow> rotor_observation ptr \<Rightarrow> i16 ptr \<Rightarrow>
     velocity_control_event \<times> velocity_controller ptr \<times> i16 ptr" where
  "velocity_controller_update fp (Some controller) now_millis (Some observation) (Some requested) =
     (if \<not> vc_initialized controller \<or> \<not> vl_active (vc_status controller)
      then (VELOCITY_CONTROL_EVENT_NONE, Some controller, Some 0)
      else case velocity_update_active fp controller now_millis observation of
        (event, controller, requested) \<Rightarrow> (event, Some controller, Some requested))"
| "velocity_controller_update fp controller now_millis observation requested =
     (VELOCITY_CONTROL_EVENT_NONE, controller, map_option (\<lambda>_. 0) requested)"

fun velocity_controller_stop :: "velocity_controller ptr \<Rightarrow> u32 \<Rightarrow>
  bool \<times> velocity_controller ptr" where
  "velocity_controller_stop None now_millis = (False, None)"
| "velocity_controller_stop (Some controller) now_millis =
     (if \<not> vc_initialized controller \<or> \<not> vl_active (vc_status controller)
      then (False, Some controller)
      else (True, Some (velocity_clear_request (controller\<lparr>vc_status := (vc_status controller)
        \<lparr>vl_state := VELOCITY_CONTROL_STATE_STOPPED, vl_result := VELOCITY_CONTROL_RESULT_STOPPED,
         vl_elapsed_millis := now_millis - vc_start_millis controller\<rparr>\<rparr>))))"

fun velocity_controller_actuator_failed ::
  "velocity_controller ptr \<Rightarrow> u32 \<Rightarrow> bool \<times> velocity_controller ptr" where
  "velocity_controller_actuator_failed None now_millis = (False, None)"
| "velocity_controller_actuator_failed (Some controller) now_millis =
     (if \<not> vc_initialized controller \<or> \<not> vl_active (vc_status controller)
      then (False, Some controller)
      else (True, Some (snd (velocity_fail_controller controller
        VELOCITY_CONTROL_RESULT_ACTUATOR_FAULT VELOCITY_CONTROL_FAULT_ACTUATOR now_millis))))"

fun velocity_controller_is_active :: "velocity_controller ptr \<Rightarrow> bool" where
  "velocity_controller_is_active None = False"
| "velocity_controller_is_active (Some controller) \<longleftrightarrow>
     vc_initialized controller \<and> vl_active (vc_status controller)"

fun velocity_controller_get_status ::
  "velocity_controller ptr \<Rightarrow> velocity_controller_status ptr \<Rightarrow> velocity_controller_status ptr" where
  "velocity_controller_get_status controller None = None"
| "velocity_controller_get_status (Some controller) (Some status) =
     Some (if vc_initialized controller then vc_status controller else empty_velocity_status)"
| "velocity_controller_get_status None (Some status) = Some empty_velocity_status"

section \<open>Bounds of the request\<close>

lemma add_half_between:
  assumes "0 \<le> y" "y \<le> of_int l" "l \<le> 65536"
  obtains z where "f32_add (Finite y) (Finite (1 / 2)) = Finite z" "0 \<le> z" "z \<le> of_int l + 1 / 2"
proof -
  have l: "representable (of_int l + 1 / 2)" "0 \<le> l"
    using representable_half [of "2 * l + 1"] assms by (simp_all add: add_divide_distrib)
  have "rounded (y + 1 / 2) \<le> of_int l + 1 / 2" "0 \<le> rounded (y + 1 / 2)"
    using rounded_between(1) [OF l(1)] rounded_between(2) [of 0] representable_int [of 0] assms by
      simp_all
  moreover have "(of_int l :: rat) + 1 / 2 < 2 ^ 128"
  proof -
    have "(of_int l :: rat) \<le> 65536" using assms(3) by (metis of_int_le_iff of_int_numeral)
    then show ?thesis by simp
  qed
  ultimately show thesis using that by (simp add: f32_round_def)
qed

lemma toward_zero_half:
  assumes "0 \<le> z" "z \<le> of_int l + 1 / 2"
  shows "0 \<le> toward_zero z" "toward_zero z \<le> l" "toward_zero (- z) = - toward_zero z"
proof -
  show "0 \<le> toward_zero z" using assms(1) by (simp add: toward_zero_def)
  show "toward_zero z \<le> l" using assms by (simp add: toward_zero_def floor_le_iff)
  show "toward_zero (- z) = - toward_zero z" using assms by (auto simp: toward_zero_def ceiling_def)
qed

lemma sub_half: "y < 0 \<Longrightarrow> f32_sub (Finite y) (Finite (1 / 2)) = f32_neg (f32_add (Finite (- y))
  (Finite (1 / 2)))"
  using rounded_minus [of "- y + 1 / 2"] by (simp add: f32_sub_def f32_round_def)

lemma round_to_i16_bound:
  assumes "\<bar>y\<bar> \<le> of_int l" "l \<le> 65535"
  shows "\<bar>sint (round_to_i16 (Finite y))\<bar> \<le> l"
proof -
  have int_y: "of_int k \<le> y \<Longrightarrow> k \<le> l" "y \<le> - of_int k \<Longrightarrow> k \<le> l" for k
    using assms(1) by (metis abs_ge_self abs_ge_minus_self of_int_le_iff order_trans le_minus_iff)+
  consider (high) "32767 \<le> y" | (low) "y \<le> - 32768" | (pos) "0 \<le> y" "y < 32767"
    | (neg) "y < 0" "- 32768 < y" by linarith
  then show ?thesis
  proof cases
    case high
    then show ?thesis using int_y(1) [of 32767] by (simp add: round_to_i16_def)
  next
    case low
    then show ?thesis using int_y(2) [of 32768] by (simp add: round_to_i16_def)
  next
    case pos
    let ?l = "min l 32767"
    have "y \<le> of_int ?l" using pos assms(1) by (simp add: min_def)
    then obtain z where z: "f32_add (Finite y) (Finite (1 / 2)) = Finite z" "0 \<le> z" "z \<le> of_int ?l +
      1 / 2"
      by (rule add_half_between [OF pos(1)]) simp_all
    note t = toward_zero_half [OF z(2,3)]
    have "round_to_i16 (Finite y) = word_of_int (toward_zero z)"
      using pos z t by (simp add: round_to_i16_def Let_def sint_of_int32 del: f32_add.simps)
    then show ?thesis using t by (simp add: sint_of_int16)
  next
    case neg
    let ?l = "min l 32768"
    have "- y \<le> of_int ?l" using neg assms(1) by (simp add: min_def)
    then obtain z where z: "f32_add (Finite (- y)) (Finite (1 / 2)) =
      Finite z" "0 \<le> z" "z \<le> of_int ?l + 1 / 2"
      by (rule add_half_between [rotated]) (use neg in simp_all)
    note t = toward_zero_half [OF z(2,3)]
    have "round_to_i16 (Finite y) = word_of_int (sint (f32_to_i32 (Finite (- z))))"
      using neg z(1) by (simp add: round_to_i16_def sub_half del: f32_add.simps f32_to_i32.simps)
    moreover have "f32_to_i32 (Finite (- z)) = word_of_int (- toward_zero z)" using t by (simp add:
      Let_def)
    moreover have "sint (word_of_int (- toward_zero z) :: i32) = - toward_zero z"
      "sint (word_of_int (- toward_zero z) :: i16) = - toward_zero z"
      using t by (intro sint_of_int32 sint_of_int16; linarith)+
    ultimately show ?thesis using t by (simp only:)
  qed
qed

text \<open>The request of a successful PI step, turned by the direction of the actuator.\<close>

lemma directed_request_bound:
  assumes "\<bar>y\<bar> \<le> of_int l" "l \<le> 65535" "d = 1 \<or> d = - 1"
  shows "\<bar>sint (round_to_i16 (f32_mul (Finite y) (f32_of_int d)))\<bar> \<le> l"
proof -
  have l: "representable (of_int l)" "0 \<le> l" using representable_int [of l] assms by auto
  have "\<bar>rounded (y * of_int d)\<bar> \<le> of_int l"
    using rounded_between(1) [OF l(1), of "y * of_int d"]
      rounded_between(2) [OF representable_neg [OF l(1)],
        of "y * of_int d"] assms by (auto simp: abs_le_iff)
  moreover have "(of_int l :: rat) < 2 ^ 128"
  proof -
    have "(of_int l :: rat) \<le> 65535" using assms(2) by (metis of_int_le_iff of_int_numeral)
    then show ?thesis by simp
  qed
  ultimately obtain z where "f32_mul (Finite y) (Finite (of_int d)) = Finite z" "\<bar>z\<bar> \<le> of_int l"
    by (simp add: f32_round_def)
  moreover have "f32_of_int d = Finite (of_int d)" using assms(3) by (intro of_int_exact) auto
  ultimately show ?thesis using round_to_i16_bound assms(2) by simp
qed

section \<open>The invariant\<close>

definition velocity_ok :: "velocity_controller \<Rightarrow> bool" where
  "velocity_ok c \<longleftrightarrow> (let s = vc_status c; limit = uint (vl_current_limit_counts s) in
     vc_initialized c \<and> velocity_controller_config_is_valid (Some (vc_config c)) \<and>
     limit \<le> uint (vg_maximum_current_counts (vc_config c)) \<and>
     \<bar>sint (vl_requested_q_current_counts s)\<bar> \<le> limit \<and>
     (vl_active s \<longrightarrow> sint (vc_actuator_direction c) = 1 \<or> sint (vc_actuator_direction c) = - 1) \<and>
     (vl_active s \<longleftrightarrow>
        vl_state s \<in> {VELOCITY_CONTROL_STATE_RAMPING, VELOCITY_CONTROL_STATE_TRACKING}) \<and>
     (\<not> vl_active s \<longrightarrow> vl_requested_q_current_counts s = 0))"

text \<open>What every way of ending leaves: no request, and the parameters of the run.\<close>

definition velocity_ended ::
  "velocity_controller \<Rightarrow> velocity_controller \<Rightarrow> velocity_control_state \<Rightarrow> velocity_control_result \<Rightarrow>
    bool" where
  "velocity_ended c c' st r \<longleftrightarrow> velocity_ok c' \<and> vc_config c' = vc_config c \<and>
     vl_state (vc_status c') = st \<and> vl_result (vc_status c') = r \<and> \<not> vl_active (vc_status c')"

lemma velocity_cleared:
  assumes "velocity_ok c" "st \<notin> {VELOCITY_CONTROL_STATE_RAMPING, VELOCITY_CONTROL_STATE_TRACKING}"
    "vc_config c' = vc_config c" "vc_initialized c' = vc_initialized c"
    "vl_state (vc_status c') = st" "vl_result (vc_status c') = r"
    "vl_current_limit_counts (vc_status c') = vl_current_limit_counts (vc_status c)"
  shows "velocity_ended c (velocity_clear_request c') st r"
  using assms by (simp add: velocity_ended_def velocity_ok_def velocity_clear_request_def Let_def
    del: velocity_controller_config_is_valid.simps)

lemma velocity_failed:
  assumes "velocity_ok c" "vc_config c' = vc_config c" "vc_initialized c' = vc_initialized c"
    "vl_current_limit_counts (vc_status c') = vl_current_limit_counts (vc_status c)"
  obtains c'' where "velocity_fail_controller c' r f now = (VELOCITY_CONTROL_EVENT_FAILED, c'')"
    "velocity_ended c c'' VELOCITY_CONTROL_STATE_FAILED r"
proof -
  let ?s = "(vc_status c')\<lparr>vl_state := VELOCITY_CONTROL_STATE_FAILED, vl_result := r,
    vl_fault_flags := vl_fault_flags (vc_status c') OR f, vl_elapsed_millis :=
      now - vc_start_millis c'\<rparr>"
  have "velocity_ended c (velocity_clear_request (c'\<lparr>vc_status := ?s\<rparr>))
    VELOCITY_CONTROL_STATE_FAILED r"
    by (rule velocity_cleared [OF assms(1)]) (simp_all add: assms)
  then show thesis using that by (simp add: velocity_fail_controller_def)
qed

lemma ramp_keeps:
  "vc_config (ramp_reference fp c t) = vc_config c" "vc_initialized (ramp_reference fp c t) =
    vc_initialized c"
  "vc_deadline_millis (ramp_reference fp c t) = vc_deadline_millis c"
  "vc_target_velocity (ramp_reference fp c t) = vc_target_velocity c"
  "vc_actuator_direction (ramp_reference fp c t) = vc_actuator_direction c"
  "vc_current_controller (ramp_reference fp c t) = vc_current_controller c"
  "vl_current_limit_counts (vc_status (ramp_reference fp c t)) =
    vl_current_limit_counts (vc_status c)"
  "vl_active (vc_status (ramp_reference fp c t)) = vl_active (vc_status c)"
  "vl_state (vc_status (ramp_reference fp c t)) \<in> {vl_state (vc_status c),
    VELOCITY_CONTROL_STATE_TRACKING}"
  by (simp_all add: ramp_reference_def Let_def)

text \<open>A continuing update: the ramped reference and a request within the limit of the run.\<close>

definition velocity_continued ::
  "(nat \<Rightarrow> bool) \<Rightarrow> velocity_controller \<Rightarrow> velocity_controller \<Rightarrow> f32 \<Rightarrow> i16 \<Rightarrow> bool" where
  "velocity_continued fp c c' elapsed_seconds request \<longleftrightarrow> velocity_ok c' \<and> vc_config c' =
    vc_config c \<and>
     vc_deadline_millis c' = vc_deadline_millis c \<and> vc_target_velocity c' = vc_target_velocity c \<and>
     vc_reference_velocity c' = vc_reference_velocity (ramp_reference fp c elapsed_seconds) \<and>
     vl_active (vc_status c') \<and> vl_requested_q_current_counts (vc_status c') = request"

lemma velocity_track_cases:
  assumes ok: "velocity_ok c" "vl_active (vc_status c)"
    and track: "velocity_track fp c now obs t = (ev, c', r)"
  shows "ev = VELOCITY_CONTROL_EVENT_FAILED \<and> r = 0 \<and>
    velocity_ended c c' VELOCITY_CONTROL_STATE_FAILED
       VELOCITY_CONTROL_RESULT_INTERNAL_NUMERIC \<or>
     ev = VELOCITY_CONTROL_EVENT_CURRENT_CHANGED \<and> velocity_continued fp c c' t r"
proof -
  define c1 where "c1 = ramp_reference fp c t"
  define e where "e = f32_sub (vc_reference_velocity c1) (ro_velocity_revolutions_per_second obs)"
  obtain stepped p y where step: "(if isfinite e then pi_controller_step fp (Some
    (vc_current_controller c1))
      (Some (run_current_config c1)) e t (Some (Finite 0))
      else (False, Some (vc_current_controller c1), Some (Finite 0))) = (stepped, Some p, Some y)"
    using pi_step_defined [of fp "vc_current_controller c1" "run_current_config c1" e t "Finite 0"]
      by fastforce
  note keep = ramp_keeps [of fp c t, folded c1_def]
  let ?c2 = "c1\<lparr>vc_current_controller := p\<rparr>"
  show ?thesis
  proof (cases stepped)
    case False
    obtain c'' where "velocity_fail_controller ?c2 VELOCITY_CONTROL_RESULT_INTERNAL_NUMERIC
        VELOCITY_CONTROL_FAULT_INTERNAL_NUMERIC now = (VELOCITY_CONTROL_EVENT_FAILED, c'')"
      "velocity_ended c c'' VELOCITY_CONTROL_STATE_FAILED VELOCITY_CONTROL_RESULT_INTERNAL_NUMERIC"
      by (rule velocity_failed [OF ok(1), of ?c2 VELOCITY_CONTROL_RESULT_INTERNAL_NUMERIC
        VELOCITY_CONTROL_FAULT_INTERNAL_NUMERIC now]) (simp_all add: keep)
    with False track show ?thesis
      unfolding velocity_track_def c1_def [symmetric] Let_def e_def [symmetric] step by simp
  next
    case True
    let ?l = "vl_current_limit_counts (vc_status c)"
    define q where "q = round_to_i16 (f32_mul y (f32_of_int (sint (vc_actuator_direction c))))"
    have l: "pg_output_limit (run_current_config c1) = Finite (of_int (uint ?l))"
      using uint16_range [of ?l] by (simp add: run_current_config_def Let_def keep of_int_exact)
    have "pi_controller_step fp (Some (vc_current_controller c1)) (Some (run_current_config c1)) e t
        (Some (Finite 0)) = (True, Some p, Some y)"
      using step True by (simp split: if_splits del: pi_controller_step.simps)
    from pi_step_bounded [OF this l] obtain v where v: "y = Finite v" "\<bar>v\<bar> \<le> of_int (uint ?l)"
      using representable_int [of "uint ?l"] uint16_range [of ?l] by auto
    have bound: "\<bar>sint q\<bar> \<le> uint ?l"
      unfolding q_def v(1) using ok uint16_range [of ?l]
      by (intro directed_request_bound v(2)) (auto simp: velocity_ok_def Let_def)
    have "ev = VELOCITY_CONTROL_EVENT_CURRENT_CHANGED" "r = q" and c': "c' = ?c2\<lparr>
          vc_status := (vc_status c1)\<lparr>
            vl_reference_velocity_q16_16 := float_to_q16_16 (vc_reference_velocity c1),
            vl_measured_velocity_q16_16 := float_to_q16_16 (ro_velocity_revolutions_per_second obs),
            vl_velocity_error_q16_16 := float_to_q16_16 e, vl_requested_q_current_counts := q\<rparr>,
          vc_last_feedback_timestamp_us := ro_timestamp_us obs\<rparr>"
      using True track unfolding velocity_track_def c1_def [symmetric] Let_def e_def [symmetric]
        step
      by (auto simp: q_def keep)
    moreover have "velocity_continued fp c c' t q"
      using ok bound keep(9) unfolding c' velocity_continued_def velocity_ok_def Let_def
      by (auto simp: keep c1_def [symmetric] simp del: velocity_controller_config_is_valid.simps)
    ultimately show ?thesis by simp
  qed
qed

text \<open>
  The reason that ends an update of an active controller before the controllers run, in the order
  of the checks, or none.
\<close>

definition velocity_verdict :: "velocity_controller \<Rightarrow> u32 \<Rightarrow> rotor_observation \<Rightarrow>
  velocity_control_result" where
  "velocity_verdict c now_millis observation =
     (let elapsed_us = ro_timestamp_us observation - vc_last_feedback_timestamp_us c;
          measured = ro_velocity_revolutions_per_second observation
      in if \<not> ro_valid observation \<or> \<not> isfinite (ro_position_revolutions observation)
        \<or> \<not> isfinite measured
         then VELOCITY_CONTROL_RESULT_INVALID_FEEDBACK
         else if elapsed_us = 0 \<or> ucast (vg_maximum_feedback_interval_us (vc_config c)) < elapsed_us
         then VELOCITY_CONTROL_RESULT_FEEDBACK_TIMING
         else if f32_less (vg_maximum_feedback_velocity (vc_config c)) (f32_abs measured)
         then VELOCITY_CONTROL_RESULT_OVERSPEED
         else if time_reached now_millis (vc_deadline_millis c)
           then VELOCITY_CONTROL_RESULT_DEADLINE
         else VELOCITY_CONTROL_RESULT_NONE)"

definition feedback_seconds :: "velocity_controller \<Rightarrow> rotor_observation \<Rightarrow> f32" where
  "feedback_seconds c observation =
     f32_div (f32_of_int (uint (ro_timestamp_us observation - vc_last_feedback_timestamp_us c)))
       (f32_of_int 1000000)"

lemma velocity_update_cases:
  assumes ok: "velocity_ok c" "vl_active (vc_status c)"
    and upd: "velocity_update_active fp c now obs = (ev, c', r)"
  shows "(case velocity_verdict c now obs of
      VELOCITY_CONTROL_RESULT_NONE \<Rightarrow>
        ev = VELOCITY_CONTROL_EVENT_FAILED \<and> r = 0 \<and>
          velocity_ended c c' VELOCITY_CONTROL_STATE_FAILED
          VELOCITY_CONTROL_RESULT_INTERNAL_NUMERIC \<or>
        ev = VELOCITY_CONTROL_EVENT_CURRENT_CHANGED \<and> velocity_continued fp c c' (feedback_seconds c
          obs) r
    | VELOCITY_CONTROL_RESULT_DEADLINE \<Rightarrow>
        ev = VELOCITY_CONTROL_EVENT_COMPLETED \<and> r = 0 \<and>
        velocity_ended c c' VELOCITY_CONTROL_STATE_COMPLETE VELOCITY_CONTROL_RESULT_DEADLINE
    | reason \<Rightarrow> ev = VELOCITY_CONTROL_EVENT_FAILED \<and> r = 0 \<and>
        velocity_ended c c' VELOCITY_CONTROL_STATE_FAILED reason)"
proof -
  define c1 where "c1 = c\<lparr>vc_status := (vc_status c)\<lparr>vl_elapsed_millis := now - vc_start_millis c\<rparr>\<rparr>"
  have ok1: "velocity_ok c1" "vl_active (vc_status c1)" and same: "vc_config c1 = vc_config c"
    "vc_deadline_millis c1 = vc_deadline_millis c" "vc_last_feedback_timestamp_us c1 =
      vc_last_feedback_timestamp_us c"
    "vc_target_velocity c1 = vc_target_velocity c"
    using ok by (simp_all add: c1_def velocity_ok_def Let_def del:
      velocity_controller_config_is_valid.simps)
  have ramp: "vc_reference_velocity (ramp_reference fp c1 t) =
    vc_reference_velocity (ramp_reference fp c t)" for t
    by (simp add: c1_def ramp_reference_def Let_def)
  have fails: "\<exists>c''. velocity_fail_controller c1 reason f now = (VELOCITY_CONTROL_EVENT_FAILED, c'') \<and>
     velocity_ended c c'' VELOCITY_CONTROL_STATE_FAILED reason" for reason f
    using velocity_failed [OF ok1(1), of c1 reason f now] by (auto simp: velocity_ended_def same)
  then obtain g where g: "velocity_fail_controller c1 reason f now = (VELOCITY_CONTROL_EVENT_FAILED,
    g reason f)"
    "velocity_ended c (g reason f) VELOCITY_CONTROL_STATE_FAILED reason" for reason f by metis
  have ends: "velocity_ended c (velocity_clear_request (c1\<lparr>vc_status := (vc_status c1)
      \<lparr>vl_state := VELOCITY_CONTROL_STATE_COMPLETE, vl_result :=
        VELOCITY_CONTROL_RESULT_DEADLINE\<rparr>\<rparr>))
      VELOCITY_CONTROL_STATE_COMPLETE VELOCITY_CONTROL_RESULT_DEADLINE"
    by (rule velocity_cleared [OF ok(1)]) (simp_all add: c1_def)
  have go: "ev' = VELOCITY_CONTROL_EVENT_FAILED \<and> r' = 0 \<and> velocity_ended c c'' VELOCITY_CONTROL_STATE_FAILED
       VELOCITY_CONTROL_RESULT_INTERNAL_NUMERIC \<or>
     ev' = VELOCITY_CONTROL_EVENT_CURRENT_CHANGED \<and> velocity_continued fp c c'' t r'"
    if "velocity_track fp c1 now obs t = (ev', c'', r')" for t ev' c'' r'
    using velocity_track_cases [OF ok1 that] by (simp add: velocity_ended_def velocity_continued_def
      same ramp)
  have "feedback_seconds c1 obs = feedback_seconds c obs" by (simp add: feedback_seconds_def same)
  then show ?thesis
    using upd g(2) ends go [of "feedback_seconds c obs" ev c' r]
    unfolding velocity_update_active_def velocity_verdict_def Let_def time_reached_def
      c1_def [symmetric] same feedback_seconds_def [symmetric] g(1) prod.case
    by (simp split: if_split_asm) auto
qed

section \<open>The ramp\<close>

text \<open>
  A step of the ramp lands between the old reference and the target, whatever the compiler
  contracts.
\<close>

lemma ramp_step:
  assumes "single r" "single t" "f32_round (a * e) = Finite d"
    and "r \<le> t \<and> 0 \<le> a * e \<and> a * e \<le> t - r \<and> 0 \<le> d \<and> d \<le> t - r \<or>
      t \<le> r \<and> a * e \<le> 0 \<and> t - r \<le> a * e \<and> d \<le> 0 \<and> t - r \<le> d"
  obtains r' where "f32_mul_add fused (Finite a) (Finite e) (Finite r) = Finite r'"
    "min r t \<le> r'" "r' \<le> max r t" "single r'"
proof -
  define x where "x = (if fused then a * e else d) + r"
  have "f32_mul_add fused (Finite a) (Finite e) (Finite r) = f32_round x"
    using assms(3) by (cases fused) (simp_all add: x_def)
  moreover have "min r t \<le> x" "x \<le> max r t" using assms(4) by (auto simp: x_def)
  moreover have "single (min r t)" "single (max r t)" using assms(1,2)
    by (simp_all add: min_def max_def)
  ultimately show thesis using round_between_single that by metis
qed

text \<open>The comparison of the rounded distance decides like the exact one.\<close>

lemma rounded_less: "rounded x < rounded y \<Longrightarrow> x < y" "representable x \<Longrightarrow> x < rounded y \<Longrightarrow> x < y"
  using rounded_mono [of y x] rounded_between(1) [of x y] by (auto simp: not_le [symmetric])

lemma ramp_between:
  assumes r: "vc_reference_velocity c = Finite r" "single r" and t: "vc_target_velocity c =
    Finite t" "single t"
    and a: "vc_target_acceleration c = Finite a" "0 < a" and e: "0 < e"
  obtains r' where "vc_reference_velocity (ramp_reference fp c (Finite e)) = Finite r'" "single r'"
    "min r t \<le> r'" "r' \<le> max r t"
proof -
  let ?rem = "f32_round (t - r)" and ?d = "f32_round (a * e)"
  have rem: "f32_sub (vc_target_velocity c) (vc_reference_velocity c) =
    ?rem" using r t by (simp add: f32_sub_def)
  have ae: "0 < a * e" using a e by simp
  then have d0: "0 \<le> rounded (a * e)" using rounded_mono [of 0 "a * e"] by simp
  show thesis
  proof (cases "f32_le (f32_abs ?rem) ?d")
    case True
    then show thesis using that [of t] r t a rem by (simp add: ramp_reference_def Let_def)
  next
    case False
    then have d: "?d = Finite (rounded (a * e))" using d0 ae
      by (cases ?rem) (auto simp: f32_round_def split: if_splits)
    have far: "a * e < \<bar>t - r\<bar> \<and> rounded (a * e) < \<bar>t - r\<bar>"
    proof -
      have "\<not> \<bar>rounded (t - r)\<bar> \<le> rounded (a * e)"
        using False d by (auto simp: f32_round_def split: if_splits)
      then have "rounded (a * e) < rounded \<bar>t - r\<bar>" by (simp add: rounded_abs)
      then show ?thesis using rounded_less rounded_representable by blast
    qed
    have pos: "f32_less (Finite 0) ?rem \<longleftrightarrow> r < t"
    proof -
      have "rounded (t - r) \<noteq> 0" using far d0 False d rounded_mono by (auto simp: f32_round_def)
      moreover have "t \<noteq> r" using far ae by auto
      ultimately show ?thesis using rounded_mono [of 0 "t - r"] rounded_mono [of "t - r" 0] by
        (cases "r < t") (auto simp: f32_round_def)
    qed
    show thesis
    proof (cases "r < t")
      case True
      obtain r' where "f32_mul_add (fp 3) (Finite a) (Finite e) (Finite r) = Finite r'"
        "min r t \<le> r'" "r' \<le> max r t" "single r'"
        by (rule ramp_step [OF r(2) t(2) d]) (use True far d0 ae in auto)
      then show thesis using that [of r'] False True pos rem r t a by (simp add: ramp_reference_def
        Let_def)
    next
      case not: False
      have "f32_round (- a * e) = Finite (- rounded (a * e))" using d rounded_minus [of "a * e"] by
        (auto simp: f32_round_def split: if_splits)
      then obtain r' where "f32_mul_add (fp 4) (Finite (- a)) (Finite e) (Finite r) = Finite r'"
        "min r t \<le> r'" "r' \<le> max r t" "single r'"
        by (rule ramp_step [OF r(2) t(2)]) (use not far d0 ae in auto)
      then show thesis using that [of r'] False not pos rem r t a by (simp add: ramp_reference_def
        Let_def)
    qed
  qed
qed

lemma interval_range:
  assumes "e \<noteq> 0" "\<not> ucast (m :: u16) < (e :: u32)"
  shows "0 < uint e" "uint e \<le> 65535"
proof -
  have "uint e \<noteq> 0" using assms(1) uint_0_iff by blast
  moreover have "uint e \<le> uint m" using assms(2) by (simp add: word_less_def not_less)
  ultimately show "0 < uint e" "uint e \<le> 65535" using uint32_range [of e] uint16_range [of m] by
    linarith+
qed

text \<open>An accepted interval is a positive number of seconds.\<close>

lemma feedback_positive:
  assumes "0 < n" "n \<le> 65535"
  obtains e where "f32_div (f32_of_int n) (f32_of_int 1000000) = Finite e" "0 < e"
proof -
  have eq: "f32_div (f32_of_int n) (f32_of_int 1000000) = f32_round (of_int n / 1000000)"
    using assms by (simp add: of_int_exact)
  have "representable (1 / 2 ^ 20)"
    unfolding representable_def by (intro exI [of _ 1] exI [of _ "- 20"])
      (simp add: power_int_minus)
  then have "single (1 / 2 ^ 20)" "single 1" using representable_int [of 1] by (simp_all add:
    single_def)
  moreover have "1 / 2 ^ 20 \<le> (of_int n / 1000000 :: rat)" "of_int n / 1000000 \<le> (1 :: rat)"
    using assms by simp_all
  ultimately obtain y where "f32_round (of_int n / 1000000) = Finite y" "1 / 2 ^ 20 \<le> y"
    by (rule round_between_single)
  moreover have "(0 :: rat) < 1 / 2 ^ 20" by simp
  ultimately show thesis using that eq by (metis order_less_le_trans)
qed

section \<open>Any sequence of calls\<close>

datatype velocity_call =
  Velocity_Start i32 i32 u16 u32 i8 u32 rotor_observation
| Velocity_Start_Tracking i32 u16 u32 i8 u32 rotor_observation
| Velocity_Target i32
| Velocity_Update u32 rotor_observation
| Velocity_Stop u32
| Velocity_Actuator_Failed u32

fun starts_velocity :: "velocity_call \<Rightarrow> bool" where
  "starts_velocity (Velocity_Start v a l d k now obs) = True"
| "starts_velocity (Velocity_Start_Tracking v l d k now obs) = True"
| "starts_velocity _ = False"

fun call_velocity :: "(nat \<Rightarrow> bool) \<Rightarrow> velocity_controller \<Rightarrow> velocity_call \<Rightarrow>
  velocity_controller" where
  "call_velocity fp c (Velocity_Start v a l d k now obs) =
     the (snd (velocity_controller_start (Some c) v a l d k now (Some obs)))"
| "call_velocity fp c (Velocity_Start_Tracking v l d k now obs) =
     the (snd (velocity_controller_start_tracking (Some c) v l d k now (Some obs)))"
| "call_velocity fp c (Velocity_Target v) = the (snd (velocity_controller_set_target (Some c) v))"
| "call_velocity fp c (Velocity_Update now obs) =
     the (fst (snd (velocity_controller_update fp (Some c) now (Some obs) (Some 0))))"
| "call_velocity fp c (Velocity_Stop now) = the (snd (velocity_controller_stop (Some c) now))"
| "call_velocity fp c (Velocity_Actuator_Failed now) =
     the (snd (velocity_controller_actuator_failed (Some c) now))"

lemma velocity_start_ok:
  assumes "velocity_ok c"
  shows "velocity_ok (the (snd (velocity_start_controller (Some c) v a l d k now (Some obs) z)))"
  using assms by (auto simp: velocity_ok_def empty_velocity_status_def Let_def word_less_def
    not_less
    simp del: velocity_controller_config_is_valid.simps)

text \<open>A call other than a start keeps the invariant, and the deadline of a run that goes on.\<close>

definition velocity_running :: "u32 \<Rightarrow> velocity_controller \<Rightarrow> bool" where
  "velocity_running deadline c \<longleftrightarrow> velocity_ok c \<and> (vl_active (vc_status c) \<longrightarrow> vc_deadline_millis c =
    deadline)"

lemma velocity_update_running:
  assumes "velocity_running deadline c"
  shows "velocity_running deadline (call_velocity fp c (Velocity_Update now obs))"
proof (cases "vl_active (vc_status c)")
  case True
  obtain ev c' r where u: "velocity_update_active fp c now obs = (ev, c', r)" by (rule prod_cases3)
  have "velocity_running deadline c'"
    using velocity_update_cases [OF _ True u] assms True
    by (auto simp: velocity_running_def velocity_ended_def velocity_continued_def split:
      velocity_control_result.splits)
  with True assms u show ?thesis by (simp add: velocity_running_def velocity_ok_def Let_def)
qed (use assms in simp)

lemma velocity_stop_running:
  assumes "velocity_running deadline c"
  shows "velocity_running deadline (call_velocity fp c (Velocity_Stop now))"
    "velocity_running deadline (call_velocity fp c (Velocity_Actuator_Failed now))"
proof -
  have ok: "velocity_ok c" using assms by (simp add: velocity_running_def)
  have ended: "velocity_ended c c' st r \<Longrightarrow> velocity_running deadline c'" for c' st r
    by (simp add: velocity_running_def velocity_ended_def)
  have "velocity_ended c (velocity_clear_request (c\<lparr>vc_status := (vc_status c)
      \<lparr>vl_state := VELOCITY_CONTROL_STATE_STOPPED, vl_result := VELOCITY_CONTROL_RESULT_STOPPED,
       vl_elapsed_millis := now - vc_start_millis c\<rparr>\<rparr>))
         VELOCITY_CONTROL_STATE_STOPPED VELOCITY_CONTROL_RESULT_STOPPED"
    by (rule velocity_cleared [OF ok]) simp_all
  from ended [OF this] show "velocity_running deadline (call_velocity fp c (Velocity_Stop now))"
    using assms by simp
  obtain c' where "velocity_fail_controller c VELOCITY_CONTROL_RESULT_ACTUATOR_FAULT
      VELOCITY_CONTROL_FAULT_ACTUATOR now = (VELOCITY_CONTROL_EVENT_FAILED, c')"
    "velocity_ended c c' VELOCITY_CONTROL_STATE_FAILED VELOCITY_CONTROL_RESULT_ACTUATOR_FAULT"
    by (rule velocity_failed [OF ok refl refl refl])
  with ended show "velocity_running deadline (call_velocity fp c (Velocity_Actuator_Failed now))"
    using assms by simp
qed

lemma velocity_call_running:
  assumes "velocity_running deadline c" "\<not> starts_velocity e"
  shows "velocity_running deadline (call_velocity fp c e)"
proof (cases e)
  case (Velocity_Target v)
  with assms show ?thesis by (auto simp: velocity_running_def velocity_ok_def Let_def
    simp del: velocity_controller_config_is_valid.simps)
qed (use assms velocity_update_running velocity_stop_running in \<open>auto simp del:
  call_velocity.simps\<close>)

lemma velocity_call_ok: "velocity_ok c \<Longrightarrow> velocity_ok (call_velocity fp c e)"
  using velocity_call_running [of "vc_deadline_millis c" c e fp] velocity_start_ok [of c]
  by (cases e) (simp_all add: velocity_running_def velocity_controller_start_def
    del: velocity_start_controller.simps velocity_controller_update.simps
      velocity_controller_stop.simps
      velocity_controller_set_target.simps velocity_controller_actuator_failed.simps)

interpretation velocity_run: invariant_machine "call_velocity fp" velocity_ok for fp
  by unfold_locales (rule velocity_call_ok)

interpretation velocity_deadline: latching_machine "call_velocity fp" "velocity_running deadline"
  starts_velocity
  for fp deadline
  by unfold_locales (rule velocity_call_running)

lemma init_velocity_ok: "velocity_controller_init (Some c) (Some k) = (True, Some c0) \<Longrightarrow>
  velocity_ok c0 \<and> vc_config c0 = k"
  by (auto simp: velocity_ok_def empty_velocity_status_def Let_def
    simp del: velocity_controller_config_is_valid.simps split: if_splits)

text \<open>
  C36. The velocity loop never asks for more current than it was given. After any sequence of calls
  on an initialised velocity controller, whatever the observations (not a number included) and
  whatever multiply-adds the compiler contracts, the requested q current is within the limit of
  the run, the limit is within the configured maximum, and a controller that is not active asks
  for no current.
\<close>

theorem velocity_request_bounded:
  assumes "velocity_controller_init (Some c) (Some k) = (True, Some c0)"
    and "foldl (call_velocity fp) c0 es = c1"
  shows "\<exists>s. velocity_controller_get_status (Some c1) (Some s0) = Some s \<and>
     \<bar>sint (vl_requested_q_current_counts s)\<bar> \<le> uint (vl_current_limit_counts s) \<and>
     uint (vl_current_limit_counts s) \<le> uint (vg_maximum_current_counts (vc_config c1)) \<and>
     (\<not> velocity_controller_is_active (Some c1) \<longrightarrow> vl_requested_q_current_counts s = 0)"
proof -
  have "velocity_ok c1" using velocity_run.run_inv [of c0 fp es] init_velocity_ok [OF assms(1)]
    assms(2) by simp
  then show ?thesis by (auto simp: velocity_ok_def Let_def)
qed

text \<open>
  A velocity run ends by its deadline. Once a run of some duration is started, and whatever
  updates, new targets, stops and failures follow, an update at or after the deadline (within half
  the range of the millisecond counter) finds the run already over or ends it: no current is
  requested, and the controller is inactive afterwards.
\<close>

theorem velocity_run_ends:
  assumes "velocity_controller_init (Some c) (Some k) = (True, Some c0)"
    and "velocity_controller_start (Some (foldl (call_velocity fp) c0 before))
      v a l duration dir start
           (Some obs0) = (True, Some c1)"
    and "list_all (\<lambda>e. \<not> starts_velocity e) during"
    and "unat duration \<le> unat elapsed" "unat elapsed < 2 ^ 31"
  shows "\<exists>ev c2. velocity_controller_update fp (Some (foldl (call_velocity fp) c1 during))
    (start + elapsed)
     (Some obs) (Some r0) = (ev, Some c2, Some 0) \<and> ev \<noteq> VELOCITY_CONTROL_EVENT_CURRENT_CHANGED \<and>
     \<not> velocity_controller_is_active (Some c2)"
proof -
  let ?b = "foldl (call_velocity fp) c0 before" and ?c = "foldl (call_velocity fp) c1 during"
  have b: "velocity_ok ?b" using velocity_run.run_inv init_velocity_ok [OF assms(1)] by blast
  have ok: "velocity_ok c1" using velocity_start_ok [OF b,
    of v "q16_16_to_float a" l duration dir start obs0 False] assms(2)
    by (simp add: velocity_controller_start_def del: velocity_start_controller.simps)
  have d: "vc_deadline_millis c1 = start + duration"
    using assms(2) by (auto simp: velocity_controller_start_def Let_def split: if_splits)
  have run: "velocity_running (start + duration) ?c"
    by (intro velocity_deadline.latched_run assms(3)) (simp add: velocity_running_def ok d)
  then have i: "vc_initialized ?c" and okc: "velocity_ok ?c" by (simp_all add: velocity_running_def
    velocity_ok_def Let_def)
  show ?thesis
  proof (cases "vl_active (vc_status ?c)")
    case True
    have "time_reached (start + elapsed) (vc_deadline_millis ?c)"
      using run True assms(4,5) by (simp add: velocity_running_def time_reached_iff)
    then have v: "velocity_verdict ?c (start + elapsed) obs \<noteq> VELOCITY_CONTROL_RESULT_NONE"
      by (simp add: velocity_verdict_def Let_def)
    obtain ev c' r where u: "velocity_update_active fp ?c (start + elapsed) obs = (ev, c',
      r)" by (rule prod_cases3)
    have "r = 0 \<and> ev \<noteq> VELOCITY_CONTROL_EVENT_CURRENT_CHANGED \<and> \<not> vl_active (vc_status c')"
      using velocity_update_cases [OF okc True u] v
      by (auto simp: velocity_ended_def split: velocity_control_result.splits)
    with True i u show ?thesis by simp
  qed (use i in simp)
qed

text \<open>
  The velocity reference approaches its target and never passes it. When an update of a running
  controller asks for a current, the new reference lies between the old one and the target, for
  any acceleration, interval and choice of contractions, although each is rounded.
\<close>

theorem velocity_reference_no_overshoot:
  assumes "velocity_controller_init (Some c) (Some k) = (True, Some c0)"
    and "foldl (call_velocity fp) c0 es = c1"
    and "velocity_controller_update fp (Some c1) now (Some obs) (Some r0) =
           (VELOCITY_CONTROL_EVENT_CURRENT_CHANGED, Some c2, Some r1)"
    and "vc_reference_velocity c1 = Finite r" "single r" "vc_target_velocity c1 =
      Finite t" "single t"
    and "vc_target_acceleration c1 = Finite a" "0 < a"
  shows "\<exists>r'. vc_reference_velocity c2 = Finite r' \<and> single r' \<and> min r t \<le> r' \<and> r' \<le> max r t"
proof -
  have ok: "velocity_ok c1" using velocity_run.run_inv [of c0 fp es] init_velocity_ok [OF assms(1)]
    assms(2) by simp
  have active: "vl_active (vc_status c1)"
    and u: "velocity_update_active fp c1 now obs = (VELOCITY_CONTROL_EVENT_CURRENT_CHANGED, c2, r1)"
    using assms(3) by (auto split: if_splits prod.splits)
  let ?us = "ro_timestamp_us obs - vc_last_feedback_timestamp_us c1"
  have v: "velocity_verdict c1 now obs = VELOCITY_CONTROL_RESULT_NONE"
    and ref: "vc_reference_velocity c2 = vc_reference_velocity (ramp_reference fp c1
      (feedback_seconds c1 obs))"
    using velocity_update_cases [OF ok active u]
    by (auto simp: velocity_continued_def split: velocity_control_result.splits)
  have "?us \<noteq> 0" "\<not> ucast (vg_maximum_feedback_interval_us (vc_config c1)) < ?us"
    using v by (auto simp: velocity_verdict_def Let_def split: if_splits)
  note us = interval_range [OF this]
  obtain e where e: "feedback_seconds c1 obs = Finite e" "0 < e"
    using feedback_positive [OF us] by (auto simp: feedback_seconds_def)
  obtain r' where "vc_reference_velocity (ramp_reference fp c1 (Finite e)) = Finite r'" "single r'"
    "min r t \<le> r'" "r' \<le> max r t"
    by (rule ramp_between [OF assms(4-9) e(2)])
  then show ?thesis using ref e(1) by auto
qed

section \<open>A concrete run\<close>

lemma q16_exact: "\<bar>sint v\<bar> < 2 ^ 24 \<Longrightarrow> q16_16_to_float v = Finite (of_int (sint v) / 65536)"
  using round_dyadic [of "sint v" 16] by (simp add: q16_16_to_float_def of_int_exact)

text \<open>The gains and limits of the firmware, with an interval of a sixty-fourth of a second allowed.\<close>

definition bench_velocity_config :: velocity_controller_config where
  "bench_velocity_config = \<lparr>
     vg_current_controller = \<lparr>pg_proportional_gain = Finite 100, pg_integral_gain_per_second =
       Finite 200,
       pg_output_limit = Finite 495, pg_integrator_limit = Finite 495\<rparr>,
     vg_maximum_target_velocity = Finite 17, vg_maximum_target_acceleration = Finite 256,
     vg_maximum_feedback_velocity = Finite 20, vg_maximum_current_counts = 495,
     vg_maximum_feedback_interval_us = 20000, vg_minimum_duration_millis = 3,
     vg_maximum_duration_millis = 0x7FFFFFFF\<rparr>"

definition bench_velocity :: velocity_controller where
  "bench_velocity = \<lparr>vc_config = bench_velocity_config, vc_status = empty_velocity_status,
     vc_current_controller = \<lparr>pi_integrator = Finite 0, pi_initialized = True\<rparr>,
     vc_target_velocity = Finite 0, vc_reference_velocity = Finite 0,
     vc_target_acceleration = Finite 0, vc_start_millis = 0, vc_deadline_millis = 0,
     vc_last_feedback_timestamp_us = 0, vc_actuator_direction = 0, vc_initialized = True\<rparr>"

definition bench_observation :: "u32 \<Rightarrow> rotor_observation" where
  "bench_observation t = \<lparr>ro_position_revolutions = Finite 0, ro_velocity_revolutions_per_second =
    Finite 0,
     ro_timestamp_us = t, ro_valid = True\<rparr>"

lemma bench_velocity_init:
  "velocity_controller_init (Some c) (Some bench_velocity_config) = (True, Some bench_velocity)"
  by (simp add: bench_velocity_config_def bench_velocity_def finite_nonnegative_def
    finite_positive_def of_int_exact)

definition bench_started :: velocity_controller where
  "bench_started = the (snd (velocity_controller_start (Some bench_velocity)
    0x20000 0x400000 495 1000 1 5
     (Some (bench_observation 10))))"

lemma bench_velocity_start:
  "velocity_controller_start (Some bench_velocity)
    0x20000 0x400000 495 1000 1 5 (Some (bench_observation 10)) =
     (True, Some bench_started)"
  by (simp add: bench_started_def velocity_controller_start_def bench_velocity_def
    bench_velocity_config_def
    bench_observation_def empty_velocity_status_def q16_exact finite_positive_def
      target_in_range_def Let_def)

theorem velocity_request_bounded_witness:
  "\<exists>s. velocity_controller_get_status (Some (foldl (call_velocity (\<lambda>_. True)) bench_velocity
        [Velocity_Start 0x20000 0x400000 495 1000 1 5 (bench_observation 10),
          Velocity_Update 9 (bench_observation 900)]))
      (Some empty_velocity_status) = Some s \<and>
     \<bar>sint (vl_requested_q_current_counts s)\<bar> \<le> uint (vl_current_limit_counts s)"
  using velocity_request_bounded [OF bench_velocity_init refl, of "\<lambda>_. True"
    "[Velocity_Start 0x20000 0x400000 495 1000 1 5 (bench_observation 10),
      Velocity_Update 9 (bench_observation 900)]"
    empty_velocity_status] by blast

theorem velocity_run_ends_witness:
  "\<exists>ev c2. velocity_controller_update (\<lambda>_. True) (Some bench_started)
    1005 (Some (bench_observation 400))
     (Some 7) = (ev, Some c2, Some 0) \<and> ev \<noteq> VELOCITY_CONTROL_EVENT_CURRENT_CHANGED \<and>
     \<not> velocity_controller_is_active (Some c2)"
proof -
  have "velocity_controller_start (Some (foldl (call_velocity (\<lambda>_. True)) bench_velocity []))
    0x20000 0x400000
      495 1000 1 5 (Some (bench_observation 10)) = (True, Some bench_started)"
    using bench_velocity_start by simp
  from velocity_run_ends [OF bench_velocity_init this, of "[]" 1000 "bench_observation 400" 7] show
    ?thesis
    by (simp del: velocity_controller_update.simps velocity_controller_is_active.simps)
qed

lemma bench_rounding:
  "f32_round 1 = Finite 1" "f32_round 2 = Finite 2" "f32_round 200 = Finite 200"
  "f32_round (1 / 64) = Finite (1 / 64)" "f32_round (25 / 8) = Finite (25 / 8)"
  "f32_round (825 / 8) = Finite (825 / 8)"
  using round_dyadic [of 1 0] round_dyadic [of 2 0] round_dyadic [of 200 0] round_dyadic [of 1 6]
    round_dyadic [of 25 3] round_dyadic [of 825 3] by simp_all

theorem velocity_reference_no_overshoot_witness:
  "\<exists>c2 r1 r'. velocity_controller_update (\<lambda>_. True) (Some bench_started)
    30 (Some (bench_observation 15635)) (Some 0) =
     (VELOCITY_CONTROL_EVENT_CURRENT_CHANGED, Some c2, Some r1) \<and>
     vc_reference_velocity c2 = Finite r' \<and> single r' \<and> 0 \<le> r' \<and> r' \<le> 2"
proof -
  have fields: "vc_reference_velocity bench_started = Finite 0" "vc_target_velocity bench_started =
    Finite 2"
    "vc_target_acceleration bench_started = Finite 64"
    by (simp_all add: bench_started_def velocity_controller_start_def bench_velocity_def
      bench_velocity_config_def
      bench_observation_def empty_velocity_status_def q16_exact finite_positive_def
        target_in_range_def Let_def)
  have run: "foldl (call_velocity (\<lambda>_. True)) bench_velocity
      [Velocity_Start 0x20000 0x400000 495 1000 1 5 (bench_observation 10)] = bench_started"
    using bench_velocity_start by simp
  have "\<exists>c2 r1. velocity_controller_update (\<lambda>_. True) (Some bench_started)
    30 (Some (bench_observation 15635)) (Some 0) =
     (VELOCITY_CONTROL_EVENT_CURRENT_CHANGED, Some c2, Some r1)"
    by (simp add: bench_started_def velocity_controller_start_def bench_velocity_def
      bench_velocity_config_def
      bench_observation_def empty_velocity_status_def q16_exact finite_positive_def
        target_in_range_def Let_def
      velocity_update_active_def velocity_track_def ramp_reference_def run_current_config_def
        pi_controller_reset_def
      pi_step_def f32_sub_def clamp_symmetric_def of_int_exact bench_rounding
        finite_nonnegative_def)
  then obtain c2 r1 where u: "velocity_controller_update (\<lambda>_. True) (Some bench_started) 30
      (Some (bench_observation 15635)) (Some 0) = (VELOCITY_CONTROL_EVENT_CURRENT_CHANGED, Some c2,
        Some r1)" by blast
  have "single 0" "single 2" using representable_int [of 0] representable_int [of 2] by (simp_all
    add: single_def)
  from velocity_reference_no_overshoot [OF bench_velocity_init run u fields(1) this(1) fields(2)
    this(2) fields(3)] u
  show ?thesis by (auto simp del: velocity_controller_update.simps)
qed

end
