(* ===== verification/Position_Controller.thy ===== *)
theory Position_Controller
  imports Motion_Profile
begin

text \<open>
  The position controller, \<open>firmware/src/control/position_controller.c\<close>: a relative move follows a
  motion profile, and the profile's velocity plus a proportional correction of the following error
  is the target of the velocity controller, until the rotor has settled, the deadline, a stop, or
  feedback that is missing, late, too fast or too far away. The lemmas show that the velocity
  target stays within its limit, that a move ends by its deadline, and that it is reported as
  settled only after the required number of consecutive settled observations.
\<close>

section \<open>Data\<close>

datatype position_control_state = POSITION_CONTROL_STATE_IDLE | POSITION_CONTROL_STATE_MOVING
  | POSITION_CONTROL_STATE_SETTLING | POSITION_CONTROL_STATE_COMPLETE
  | POSITION_CONTROL_STATE_STOPPED | POSITION_CONTROL_STATE_FAILED

datatype position_control_result = POSITION_CONTROL_RESULT_NONE | POSITION_CONTROL_RESULT_SETTLED
  | POSITION_CONTROL_RESULT_DEADLINE | POSITION_CONTROL_RESULT_STOPPED
  | POSITION_CONTROL_RESULT_INVALID_FEEDBACK | POSITION_CONTROL_RESULT_FEEDBACK_TIMING
  | POSITION_CONTROL_RESULT_FOLLOWING_ERROR | POSITION_CONTROL_RESULT_INTERNAL_NUMERIC
  | POSITION_CONTROL_RESULT_ACTUATOR_FAULT

datatype position_control_event = POSITION_CONTROL_EVENT_NONE
  | POSITION_CONTROL_EVENT_VELOCITY_CHANGED | POSITION_CONTROL_EVENT_COMPLETED
  | POSITION_CONTROL_EVENT_FAILED

definition POSITION_CONTROL_FAULT_INVALID_FEEDBACK :: u32 where
  "POSITION_CONTROL_FAULT_INVALID_FEEDBACK = 1"
definition POSITION_CONTROL_FAULT_FEEDBACK_TIMING :: u32 where
  "POSITION_CONTROL_FAULT_FEEDBACK_TIMING = 2"
definition POSITION_CONTROL_FAULT_FOLLOWING_ERROR :: u32 where
  "POSITION_CONTROL_FAULT_FOLLOWING_ERROR = 4"
definition POSITION_CONTROL_FAULT_INTERNAL_NUMERIC :: u32 where
  "POSITION_CONTROL_FAULT_INTERNAL_NUMERIC = 8"
definition POSITION_CONTROL_FAULT_ACTUATOR :: u32 where "POSITION_CONTROL_FAULT_ACTUATOR = 16"

record position_controller_config =
  xg_maximum_relative_travel :: f32
  xg_maximum_velocity :: f32
  xg_maximum_velocity_target :: f32
  xg_maximum_acceleration :: f32
  xg_maximum_feedback_velocity :: f32
  xg_maximum_start_velocity :: f32
  xg_maximum_following_error :: f32
  xg_position_gain_per_second :: f32
  xg_position_tolerance :: f32
  xg_velocity_tolerance :: f32
  xg_maximum_current_counts :: u16
  xg_required_settle_samples :: u16
  xg_maximum_feedback_interval_us :: u32
  xg_minimum_duration_millis :: u32
  xg_maximum_duration_millis :: u32

record position_controller_status =
  xs_state :: position_control_state
  xs_result :: position_control_result
  xs_fault_flags :: u32
  xs_requested_displacement_q16_16 :: i32
  xs_target_position_q16_16 :: i32
  xs_reference_position_q16_16 :: i32
  xs_measured_position_q16_16 :: i32
  xs_reference_velocity_q16_16 :: i32
  xs_target_velocity_q16_16 :: i32
  xs_measured_velocity_q16_16 :: i32
  xs_following_error_q16_16 :: i32
  xs_maximum_velocity_q16_16 :: i32
  xs_maximum_acceleration_q16_16 :: i32
  xs_current_limit_counts :: u16
  xs_settle_sample_count :: u16
  xs_elapsed_millis :: u32
  xs_active :: bool
  xs_profile_at_target :: bool
  xs_target_settled :: bool

record position_controller =
  xc_config :: position_controller_config
  xc_status :: position_controller_status
  xc_profile :: motion_profile
  xc_active_profile_config :: motion_profile_config
  xc_target_position :: f32
  xc_start_millis :: u32
  xc_deadline_millis :: u32
  xc_last_feedback_timestamp_us :: u32
  xc_initialized :: bool

definition empty_position_status :: position_controller_status where
  "empty_position_status = \<lparr>xs_state = POSITION_CONTROL_STATE_IDLE,
     xs_result = POSITION_CONTROL_RESULT_NONE, xs_fault_flags = 0,
     xs_requested_displacement_q16_16 = 0, xs_target_position_q16_16 = 0,
     xs_reference_position_q16_16 = 0, xs_measured_position_q16_16 = 0,
     xs_reference_velocity_q16_16 = 0, xs_target_velocity_q16_16 = 0,
     xs_measured_velocity_q16_16 = 0, xs_following_error_q16_16 = 0,
     xs_maximum_velocity_q16_16 = 0, xs_maximum_acceleration_q16_16 = 0,
     xs_current_limit_counts = 0, xs_settle_sample_count = 0, xs_elapsed_millis = 0,
     xs_active = False, xs_profile_at_target = False, xs_target_settled = False\<rparr>"

section \<open>Operations\<close>

definition position_clear_request :: "position_controller \<Rightarrow> position_controller" where
  "position_clear_request controller = controller\<lparr>xc_status := (xc_status controller)
     \<lparr>xs_active := False, xs_target_velocity_q16_16 := 0\<rparr>\<rparr>"

definition position_fail_controller ::
  "position_controller \<Rightarrow> position_control_result \<Rightarrow> u32 \<Rightarrow> u32 \<Rightarrow>
     position_control_event \<times> position_controller" where
  "position_fail_controller controller result fault now_millis =
     (POSITION_CONTROL_EVENT_FAILED, position_clear_request
        (controller\<lparr>xc_status := (xc_status controller)
           \<lparr>xs_state := POSITION_CONTROL_STATE_FAILED, xs_result := result,
            xs_fault_flags := xs_fault_flags (xc_status controller) OR fault,
            xs_elapsed_millis := now_millis - xc_start_millis controller\<rparr>\<rparr>))"

fun position_controller_config_is_valid :: "position_controller_config ptr \<Rightarrow> bool" where
  "position_controller_config_is_valid None = False"
| "position_controller_config_is_valid (Some config) \<longleftrightarrow>
     finite_positive (xg_maximum_relative_travel config) \<and>
     finite_positive (xg_maximum_velocity config) \<and>
     finite_positive (xg_maximum_velocity_target config) \<and>
     finite_positive (xg_maximum_acceleration config) \<and>
     finite_positive (xg_maximum_feedback_velocity config) \<and>
     finite_positive (xg_maximum_start_velocity config) \<and>
     f32_le (xg_maximum_start_velocity config) (xg_maximum_feedback_velocity config) \<and>
     f32_less (xg_maximum_velocity config) (xg_maximum_velocity_target config) \<and>
     f32_less (xg_maximum_velocity_target config) (xg_maximum_feedback_velocity config) \<and>
     finite_positive (xg_maximum_following_error config) \<and>
     finite_positive (xg_position_gain_per_second config) \<and>
     finite_positive (xg_position_tolerance config) \<and>
     finite_positive (xg_velocity_tolerance config) \<and>
     0 < xg_maximum_current_counts config \<and> 0 < xg_required_settle_samples config \<and>
     0 < xg_maximum_feedback_interval_us config \<and> 0 < xg_minimum_duration_millis config \<and>
     xg_minimum_duration_millis config \<le> xg_maximum_duration_millis config \<and>
     xg_maximum_duration_millis config \<le> 0x7FFFFFFF"

fun position_controller_init ::
  "position_controller ptr \<Rightarrow> position_controller_config ptr \<Rightarrow> bool \<times> position_controller ptr" where
  "position_controller_init (Some controller) (Some config) =
     (if \<not> position_controller_config_is_valid (Some config) then (False, Some controller)
      else (True, Some \<lparr>xc_config = config, xc_status = empty_position_status,
        xc_profile = \<lparr>mp_position = Finite 0, mp_velocity = Finite 0,
          mp_target_position = Finite 0, mp_initialized = False\<rparr>,
        xc_active_profile_config = \<lparr>mg_maximum_velocity = Finite 0,
          mg_maximum_acceleration = Finite 0, mg_maximum_step_seconds = Finite 0,
          mg_position_tolerance = Finite 0, mg_velocity_tolerance = Finite 0\<rparr>,
        xc_target_position = Finite 0, xc_start_millis = 0, xc_deadline_millis = 0,
        xc_last_feedback_timestamp_us = 0, xc_initialized = True\<rparr>))"
| "position_controller_init controller config = (False, controller)"

text \<open>The profile configuration of a move.\<close>

definition move_profile_config :: "position_controller_config \<Rightarrow> f32 \<Rightarrow> f32 \<Rightarrow>
  motion_profile_config" where
  "move_profile_config config maximum_velocity maximum_acceleration =
     \<lparr>mg_maximum_velocity = maximum_velocity, mg_maximum_acceleration = maximum_acceleration,
      mg_maximum_step_seconds =
        f32_div (f32_of_int (uint (xg_maximum_feedback_interval_us config))) (f32_of_int 1000000),
      mg_position_tolerance = xg_position_tolerance config,
      mg_velocity_tolerance = xg_velocity_tolerance config\<rparr>"

text \<open>The acceptance of a move, once its parameters are converted.\<close>

definition move_in_range :: "position_controller_config \<Rightarrow> f32 \<Rightarrow> f32 \<Rightarrow> f32 \<Rightarrow> f32 \<Rightarrow> bool" where
  "move_in_range config displacement maximum_velocity maximum_acceleration target_position \<longleftrightarrow>
     isfinite displacement \<and>
     \<not> f32_less (xg_maximum_relative_travel config) (f32_abs displacement) \<and>
     finite_positive maximum_velocity \<and>
     \<not> f32_less (xg_maximum_velocity config) maximum_velocity \<and>
     finite_positive maximum_acceleration \<and>
     \<not> f32_less (xg_maximum_acceleration config) maximum_acceleration \<and>
     isfinite target_position \<and> \<not> f32_less target_position (Finite (- 32768)) \<and>
     \<not> f32_le (Finite 32768) target_position"

fun position_controller_start_relative ::
  "position_controller ptr \<Rightarrow> i32 \<Rightarrow> i32 \<Rightarrow> i32 \<Rightarrow> u16 \<Rightarrow> u32 \<Rightarrow> u32 \<Rightarrow> rotor_observation ptr \<Rightarrow>
     bool \<times> position_controller ptr" where
  "position_controller_start_relative (Some controller) displacement_q16_16 velocity_q16_16
     acceleration_q16_16 current_limit_counts duration_millis now_millis (Some observation) =
     (let config = xc_config controller;
          position = ro_position_revolutions observation;
          measured = ro_velocity_revolutions_per_second observation;
          displacement = q16_16_to_float displacement_q16_16;
          maximum_velocity = q16_16_to_float velocity_q16_16;
          maximum_acceleration = q16_16_to_float acceleration_q16_16;
          target_position = f32_add position displacement
      in if \<not> xc_initialized controller \<or> xs_active (xc_status controller) \<or>
            \<not> ro_valid observation \<or> \<not> isfinite position \<or> \<not> isfinite measured \<or>
            displacement_q16_16 = 0 \<or> sint velocity_q16_16 \<le> 0 \<or> sint acceleration_q16_16 \<le> 0 \<or>
            current_limit_counts = 0 \<or> xg_maximum_current_counts config < current_limit_counts \<or>
            duration_millis < xg_minimum_duration_millis config \<or>
            xg_maximum_duration_millis config < duration_millis \<or>
            f32_less (xg_maximum_start_velocity config) (f32_abs measured)
         then (False, Some controller)
         else if \<not> move_in_range config displacement maximum_velocity maximum_acceleration
                   target_position
         then (False, Some controller)
         else let controller = controller\<lparr>xc_status := empty_position_status,
                    xc_active_profile_config :=
                      move_profile_config config maximum_velocity maximum_acceleration\<rparr>;
                  (initialised, profile) = motion_profile_init (Some (xc_profile controller))
                  position;
                  (targeted, profile) = (if initialised
                    then motion_profile_set_target profile target_position else (False, profile))
              in if \<not> initialised \<or> \<not> targeted
                 then (False, Some (controller\<lparr>xc_profile := the profile\<rparr>))
                 else (True, Some (controller\<lparr>
                   xc_profile := (the profile)\<lparr>mp_velocity := measured\<rparr>,
                   xc_target_position := target_position, xc_start_millis := now_millis,
                   xc_deadline_millis := now_millis + duration_millis,
                   xc_last_feedback_timestamp_us := ro_timestamp_us observation,
                   xc_status := (xc_status controller)\<lparr>
                     xs_state := POSITION_CONTROL_STATE_MOVING,
                     xs_result := POSITION_CONTROL_RESULT_NONE,
                     xs_requested_displacement_q16_16 := displacement_q16_16,
                     xs_target_position_q16_16 := float_to_q16_16 target_position,
                     xs_reference_position_q16_16 := float_to_q16_16 position,
                     xs_measured_position_q16_16 := float_to_q16_16 position,
                     xs_reference_velocity_q16_16 := float_to_q16_16 measured,
                     xs_measured_velocity_q16_16 := float_to_q16_16 measured,
                     xs_maximum_velocity_q16_16 := velocity_q16_16,
                     xs_maximum_acceleration_q16_16 := acceleration_q16_16,
                     xs_current_limit_counts := current_limit_counts, xs_active := True\<rparr>\<rparr>)))"
| "position_controller_start_relative controller displacement_q16_16 velocity_q16_16
     acceleration_q16_16 current_limit_counts duration_millis now_millis observation =
     (False, controller)"

text \<open>The last part of an update: the settle counter, the report, and the completion of the move.\<close>

definition position_settle ::
  "position_controller \<Rightarrow> u32 \<Rightarrow> rotor_observation \<Rightarrow> f32 \<Rightarrow> f32 \<Rightarrow>
     position_control_event \<times> position_controller \<times> i32" where
  "position_settle controller now_millis observation following_error velocity_target =
     (let config = xc_config controller;
          position = ro_position_revolutions observation;
          measured = ro_velocity_revolutions_per_second observation;
          target_error = f32_sub (xc_target_position controller) position;
          profile_at_target = motion_profile_is_settled (Some (xc_profile controller))
            (Some (xc_active_profile_config controller));
          target_settled = (profile_at_target \<and>
            f32_le (f32_abs target_error) (xg_position_tolerance config) \<and>
            f32_le (f32_abs measured) (xg_velocity_tolerance config));
          count = xs_settle_sample_count (xc_status controller);
          count = (if target_settled then if count < 0xFFFF then count + 1 else count else 0);
          controller = controller\<lparr>
            xc_status := (xc_status controller)\<lparr>xs_settle_sample_count := count,
              xs_state := (if profile_at_target then POSITION_CONTROL_STATE_SETTLING
                           else POSITION_CONTROL_STATE_MOVING),
              xs_reference_position_q16_16 := float_to_q16_16 (mp_position (xc_profile controller)),
              xs_measured_position_q16_16 := float_to_q16_16 position,
              xs_reference_velocity_q16_16 := float_to_q16_16 (mp_velocity (xc_profile controller)),
              xs_target_velocity_q16_16 := float_to_q16_16 velocity_target,
              xs_measured_velocity_q16_16 := float_to_q16_16 measured,
              xs_following_error_q16_16 := float_to_q16_16 following_error,
              xs_elapsed_millis := now_millis - xc_start_millis controller,
              xs_profile_at_target := profile_at_target, xs_target_settled := target_settled\<rparr>,
            xc_last_feedback_timestamp_us := ro_timestamp_us observation\<rparr>
      in if xg_required_settle_samples config \<le> count
         then (POSITION_CONTROL_EVENT_COMPLETED, position_clear_request (controller\<lparr>xc_status :=
                 (xc_status controller)\<lparr>xs_state := POSITION_CONTROL_STATE_COMPLETE,
                    xs_result := POSITION_CONTROL_RESULT_SETTLED\<rparr>\<rparr>), 0)
         else (POSITION_CONTROL_EVENT_VELOCITY_CHANGED, controller,
               xs_target_velocity_q16_16 (xc_status controller)))"

definition position_fail ::
  "position_controller \<Rightarrow> u32 \<Rightarrow> position_control_result \<Rightarrow> u32 \<Rightarrow>
     position_control_event \<times> position_controller \<times> i32" where
  "position_fail controller now_millis result fault =
     (case position_fail_controller controller result fault now_millis of
       (event, controller) \<Rightarrow> (event, controller, 0))"

text \<open>The middle part: the profile, the following error and the velocity target.\<close>

definition position_follow ::
  "(nat \<Rightarrow> bool) \<Rightarrow> position_controller \<Rightarrow> u32 \<Rightarrow> rotor_observation \<Rightarrow> f32 \<Rightarrow>
     position_control_event \<times> position_controller \<times> i32" where
  "position_follow fp controller now_millis observation elapsed_seconds =
     (let config = xc_config controller;
          (stepped, profile) = motion_profile_step fp (Some (xc_profile controller))
            (Some (xc_active_profile_config controller)) elapsed_seconds;
          controller = controller\<lparr>xc_profile := the profile\<rparr>
      in if \<not> stepped
         then position_fail controller now_millis POSITION_CONTROL_RESULT_INTERNAL_NUMERIC
           POSITION_CONTROL_FAULT_INTERNAL_NUMERIC
         else
           let following_error = f32_sub (mp_position (xc_profile controller))
                 (ro_position_revolutions observation)
           in if \<not> isfinite following_error \<or>
                 f32_less (xg_maximum_following_error config) (f32_abs following_error)
              then position_fail controller now_millis POSITION_CONTROL_RESULT_FOLLOWING_ERROR
                POSITION_CONTROL_FAULT_FOLLOWING_ERROR
              else
                let velocity_target = clamp_symmetric
                      (f32_mul_add (fp 8) (xg_position_gain_per_second config) following_error
                        (mp_velocity (xc_profile controller)))
                      (xg_maximum_velocity_target config)
                in if \<not> isfinite velocity_target
                   then position_fail controller now_millis POSITION_CONTROL_RESULT_INTERNAL_NUMERIC
                     POSITION_CONTROL_FAULT_INTERNAL_NUMERIC
                   else position_settle controller now_millis observation following_error
                     velocity_target)"

definition position_update_active ::
  "(nat \<Rightarrow> bool) \<Rightarrow> position_controller \<Rightarrow> u32 \<Rightarrow> rotor_observation \<Rightarrow>
     position_control_event \<times> position_controller \<times> i32" where
  "position_update_active fp controller now_millis observation =
     (let config = xc_config controller;
          measured = ro_velocity_revolutions_per_second observation;
          elapsed_us = ro_timestamp_us observation - xc_last_feedback_timestamp_us controller
      in if \<not> ro_valid observation \<or> \<not> isfinite (ro_position_revolutions observation) \<or>
            \<not> isfinite measured
         then position_fail controller now_millis POSITION_CONTROL_RESULT_INVALID_FEEDBACK
           POSITION_CONTROL_FAULT_INVALID_FEEDBACK
         else if elapsed_us = 0 \<or> xg_maximum_feedback_interval_us config < elapsed_us
         then position_fail controller now_millis POSITION_CONTROL_RESULT_FEEDBACK_TIMING
           POSITION_CONTROL_FAULT_FEEDBACK_TIMING
         else if f32_less (xg_maximum_feedback_velocity config) (f32_abs measured)
         then position_fail controller now_millis POSITION_CONTROL_RESULT_INVALID_FEEDBACK
           POSITION_CONTROL_FAULT_INVALID_FEEDBACK
         else if 0 \<le> sint (now_millis - xc_deadline_millis controller)
         then (POSITION_CONTROL_EVENT_COMPLETED, position_clear_request (controller\<lparr>xc_status :=
                 (xc_status controller)\<lparr>xs_state := POSITION_CONTROL_STATE_COMPLETE,
                    xs_result := POSITION_CONTROL_RESULT_DEADLINE,
                    xs_elapsed_millis := now_millis - xc_start_millis controller\<rparr>\<rparr>), 0)
         else position_follow fp controller now_millis observation
                (f32_div (f32_of_int (uint elapsed_us)) (f32_of_int 1000000)))"

fun position_controller_update ::
  "(nat \<Rightarrow> bool) \<Rightarrow> position_controller ptr \<Rightarrow> u32 \<Rightarrow> rotor_observation ptr \<Rightarrow> i32 ptr \<Rightarrow>
     position_control_event \<times> position_controller ptr \<times> i32 ptr" where
  "position_controller_update fp (Some controller) now_millis (Some observation) (Some velocity) =
     (if \<not> xc_initialized controller \<or> \<not> xs_active (xc_status controller)
      then (POSITION_CONTROL_EVENT_NONE, Some controller, Some velocity)
      else case position_update_active fp controller now_millis observation of
        (event, controller, velocity) \<Rightarrow> (event, Some controller, Some velocity))"
| "position_controller_update fp controller now_millis observation velocity =
     (POSITION_CONTROL_EVENT_NONE, controller, velocity)"

fun position_controller_stop :: "position_controller ptr \<Rightarrow> u32 \<Rightarrow>
  bool \<times> position_controller ptr" where
  "position_controller_stop None now_millis = (False, None)"
| "position_controller_stop (Some controller) now_millis =
     (if \<not> xc_initialized controller \<or> \<not> xs_active (xc_status controller)
      then (False, Some controller)
      else (True, Some (position_clear_request (controller\<lparr>xc_status := (xc_status controller)
        \<lparr>xs_state := POSITION_CONTROL_STATE_STOPPED, xs_result := POSITION_CONTROL_RESULT_STOPPED,
         xs_elapsed_millis := now_millis - xc_start_millis controller\<rparr>\<rparr>))))"

fun position_controller_actuator_failed ::
  "position_controller ptr \<Rightarrow> u32 \<Rightarrow> bool \<times> position_controller ptr" where
  "position_controller_actuator_failed None now_millis = (False, None)"
| "position_controller_actuator_failed (Some controller) now_millis =
     (if \<not> xc_initialized controller \<or> \<not> xs_active (xc_status controller)
      then (False, Some controller)
      else (True, Some (snd (position_fail_controller controller
        POSITION_CONTROL_RESULT_ACTUATOR_FAULT POSITION_CONTROL_FAULT_ACTUATOR now_millis))))"

fun position_controller_is_active :: "position_controller ptr \<Rightarrow> bool" where
  "position_controller_is_active None = False"
| "position_controller_is_active (Some controller) \<longleftrightarrow>
     xc_initialized controller \<and> xs_active (xc_status controller)"

fun position_controller_get_status ::
  "position_controller ptr \<Rightarrow> position_controller_status ptr \<Rightarrow> position_controller_status ptr" where
  "position_controller_get_status (Some controller) (Some status) = Some (xc_status controller)"
| "position_controller_get_status controller status = status"

section \<open>The invariant\<close>

text \<open>A velocity target in fixed point that the limit admits.\<close>

definition admitted_target :: "position_controller_config \<Rightarrow> i32 \<Rightarrow> bool" where
  "admitted_target config velocity_q16_16 \<longleftrightarrow> (\<forall>m. xg_maximum_velocity_target config =
    Finite m \<longrightarrow> single m \<longrightarrow>
     of_int \<bar>sint velocity_q16_16\<bar> \<le> 65536 * m)"

definition position_ok :: "position_controller \<Rightarrow> bool" where
  "position_ok c \<longleftrightarrow> xc_initialized c \<and> position_controller_config_is_valid (Some (xc_config c)) \<and>
     xs_current_limit_counts (xc_status c) \<le> xg_maximum_current_counts (xc_config c) \<and>
     admitted_target (xc_config c) (xs_target_velocity_q16_16 (xc_status c)) \<and>
     (xs_active (xc_status c) \<longleftrightarrow>
        xs_state (xc_status c) \<in> {POSITION_CONTROL_STATE_MOVING, POSITION_CONTROL_STATE_SETTLING}) \<and>
     (\<not> xs_active (xc_status c) \<longrightarrow> xs_target_velocity_q16_16 (xc_status c) = 0)"

definition position_ended ::
  "position_controller \<Rightarrow> position_controller \<Rightarrow> position_control_state \<Rightarrow> position_control_result \<Rightarrow>
    bool" where
  "position_ended c c' st r \<longleftrightarrow> position_ok c' \<and> xc_config c' = xc_config c \<and>
     xs_state (xc_status c') = st \<and> xs_result (xc_status c') = r \<and> \<not> xs_active (xc_status c')"

text \<open>An observation at rest at the target.\<close>

definition settled_sample :: "position_controller \<Rightarrow> rotor_observation \<Rightarrow> bool" where
  "settled_sample c observation \<longleftrightarrow>
     f32_le (f32_abs (f32_sub (xc_target_position c) (ro_position_revolutions observation)))
       (xg_position_tolerance (xc_config c)) \<and>
     f32_le (f32_abs (ro_velocity_revolutions_per_second observation))
       (xg_velocity_tolerance (xc_config c))"

text \<open>The settle counter after an observation: zero, or one more than before and the rotor is at
  rest.\<close>

definition counted :: "position_controller \<Rightarrow> position_controller \<Rightarrow> rotor_observation \<Rightarrow> bool" where
  "counted c c' observation \<longleftrightarrow> (xs_settle_sample_count (xc_status c') \<noteq> 0 \<longrightarrow> settled_sample c
    observation \<and>
     unat (xs_settle_sample_count (xc_status c')) \<le> unat (xs_settle_sample_count (xc_status c))
       + 1)"

definition position_continued ::
  "position_controller \<Rightarrow> position_controller \<Rightarrow> rotor_observation \<Rightarrow> i32 \<Rightarrow> bool" where
  "position_continued c c' observation r \<longleftrightarrow> position_ok c' \<and> xc_config c' = xc_config c \<and>
     xc_deadline_millis c' = xc_deadline_millis c \<and> xc_target_position c' = xc_target_position c \<and>
     xs_active (xc_status c') \<and> xs_target_velocity_q16_16 (xc_status c') = r \<and>
       counted c c' observation"

lemma admitted_zero [simp]: "position_controller_config_is_valid (Some k) \<Longrightarrow> admitted_target k 0"
  by (auto simp: admitted_target_def finite_positive_def)

lemma position_cleared:
  assumes "position_ok c" "st \<notin> {POSITION_CONTROL_STATE_MOVING, POSITION_CONTROL_STATE_SETTLING}"
    "xc_config c' = xc_config c" "xc_initialized c' = xc_initialized c"
    "xs_state (xc_status c') = st" "xs_result (xc_status c') = r"
    "xs_current_limit_counts (xc_status c') = xs_current_limit_counts (xc_status c)"
  shows "position_ended c (position_clear_request c') st r"
  using assms by (simp add: position_ended_def position_ok_def position_clear_request_def
    del: position_controller_config_is_valid.simps)

lemma position_failed:
  assumes "position_ok c" "xc_config c' = xc_config c" "xc_initialized c' = xc_initialized c"
    "xs_current_limit_counts (xc_status c') = xs_current_limit_counts (xc_status c)"
  obtains c'' where "position_fail_controller c' r f now = (POSITION_CONTROL_EVENT_FAILED, c'')"
    "position_ended c c'' POSITION_CONTROL_STATE_FAILED r"
proof -
  let ?s = "(xc_status c')\<lparr>xs_state := POSITION_CONTROL_STATE_FAILED, xs_result := r,
    xs_fault_flags := xs_fault_flags (xc_status c') OR f, xs_elapsed_millis :=
      now - xc_start_millis c'\<rparr>"
  have "position_ended c (position_clear_request (c'\<lparr>xc_status := ?s\<rparr>))
    POSITION_CONTROL_STATE_FAILED r"
    by (rule position_cleared [OF assms(1)]) (simp_all add: assms)
  then show thesis using that by (simp add: position_fail_controller_def)
qed

lemma position_settle_cases:
  assumes ok: "position_ok c" "xs_active (xc_status c)"
    and v: "\<And>m. xg_maximum_velocity_target (xc_config c) = Finite m \<Longrightarrow> \<exists>y. v = Finite y \<and> \<bar>y\<bar> \<le> m"
    and settle: "position_settle c now obs err v = (ev, c', r)"
  shows "ev = POSITION_CONTROL_EVENT_COMPLETED \<and> r = 0 \<and> settled_sample c obs \<and>
       position_ended c c' POSITION_CONTROL_STATE_COMPLETE POSITION_CONTROL_RESULT_SETTLED \<and>
       unat (xg_required_settle_samples (xc_config c)) \<le> unat (xs_settle_sample_count (xc_status c))
         + 1 \<or>
     ev = POSITION_CONTROL_EVENT_VELOCITY_CHANGED \<and> position_continued c c' obs r"
proof -
  define arrived where "arrived \<longleftrightarrow> motion_profile_is_settled (Some (xc_profile c))
    (Some (xc_active_profile_config c))"
  define n where "n = xs_settle_sample_count (xc_status c)"
  define k where "k = (if arrived \<and> settled_sample c obs then if n < 0xFFFF then n + 1 else n else
    0)"
  define c1 where "c1 = c\<lparr>xc_status := (xc_status c)\<lparr>xs_settle_sample_count := k,
      xs_state := (if arrived then POSITION_CONTROL_STATE_SETTLING else
        POSITION_CONTROL_STATE_MOVING),
      xs_reference_position_q16_16 := float_to_q16_16 (mp_position (xc_profile c)),
      xs_measured_position_q16_16 := float_to_q16_16 (ro_position_revolutions obs),
      xs_reference_velocity_q16_16 := float_to_q16_16 (mp_velocity (xc_profile c)),
      xs_target_velocity_q16_16 := float_to_q16_16 v,
      xs_measured_velocity_q16_16 := float_to_q16_16 (ro_velocity_revolutions_per_second obs),
      xs_following_error_q16_16 := float_to_q16_16 err,
      xs_elapsed_millis := now - xc_start_millis c, xs_profile_at_target := arrived,
      xs_target_settled := (arrived \<and> settled_sample c obs)\<rparr>,
    xc_last_feedback_timestamp_us := ro_timestamp_us obs\<rparr>"
  have k: "k \<noteq> 0 \<longrightarrow> settled_sample c obs \<and> unat k \<le> unat n + 1"
    using unat_plus_if' [of n 1] by (auto simp: k_def word_less_nat_alt)
  have adm: "admitted_target (xc_config c) (float_to_q16_16 v)"
    using v float_to_q16_bound by (auto simp: admitted_target_def)
  have eq: "position_settle c now obs err v =
      (if xg_required_settle_samples (xc_config c) \<le> k
       then (POSITION_CONTROL_EVENT_COMPLETED, position_clear_request (c1\<lparr>xc_status :=
         (xc_status c1)
               \<lparr>xs_state := POSITION_CONTROL_STATE_COMPLETE, xs_result :=
               POSITION_CONTROL_RESULT_SETTLED\<rparr>\<rparr>), 0)
       else (POSITION_CONTROL_EVENT_VELOCITY_CHANGED, c1, float_to_q16_16 v))"
    unfolding position_settle_def Let_def arrived_def [symmetric] settled_sample_def [symmetric]
      n_def [symmetric]
      k_def [symmetric] c1_def [symmetric] by (simp add: c1_def)
  have pos: "0 < xg_required_settle_samples (xc_config c)" using ok(1)
    by (simp add: position_ok_def)
  show ?thesis
  proof (cases "xg_required_settle_samples (xc_config c) \<le> k")
    case True
    then have "k \<noteq> 0" using pos by auto
    moreover have "unat (xg_required_settle_samples (xc_config c))
      \<le> unat k" using True by (simp add: word_le_nat_alt)
    moreover have "position_ended c (position_clear_request (c1\<lparr>xc_status := (xc_status c1)
        \<lparr>xs_state := POSITION_CONTROL_STATE_COMPLETE, xs_result :=
          POSITION_CONTROL_RESULT_SETTLED\<rparr>\<rparr>))
        POSITION_CONTROL_STATE_COMPLETE POSITION_CONTROL_RESULT_SETTLED"
      by (rule position_cleared [OF ok(1)]) (simp_all add: c1_def)
    ultimately show ?thesis using settle k True unfolding eq by (auto simp: n_def)
  next
    case False
    have "position_continued c c1 obs (float_to_q16_16 v)"
      using ok adm k unfolding position_continued_def counted_def position_ok_def
      by (simp add: c1_def n_def del: position_controller_config_is_valid.simps)
    then show ?thesis using settle False unfolding eq by auto
  qed
qed

text \<open>The outcome of an update of an active controller.\<close>

definition position_outcome ::
  "position_controller \<Rightarrow> rotor_observation \<Rightarrow> position_control_event \<Rightarrow> position_controller \<Rightarrow> i32 \<Rightarrow>
    bool" where
  "position_outcome c obs ev c' r \<longleftrightarrow>
     ev = POSITION_CONTROL_EVENT_FAILED \<and> r = 0 \<and>
       (\<exists>reason. reason \<notin> {POSITION_CONTROL_RESULT_SETTLED, POSITION_CONTROL_RESULT_DEADLINE} \<and>
          position_ended c c' POSITION_CONTROL_STATE_FAILED reason) \<or>
     ev = POSITION_CONTROL_EVENT_COMPLETED \<and> r = 0 \<and>
       (position_ended c c' POSITION_CONTROL_STATE_COMPLETE POSITION_CONTROL_RESULT_DEADLINE \<or>
        position_ended c c' POSITION_CONTROL_STATE_COMPLETE POSITION_CONTROL_RESULT_SETTLED \<and>
          settled_sample c obs \<and>
          unat (xg_required_settle_samples (xc_config c)) \<le> unat (xs_settle_sample_count (xc_status
            c)) + 1) \<or>
     ev = POSITION_CONTROL_EVENT_VELOCITY_CHANGED \<and> position_continued c c' obs r"

lemma position_fail_outcome:
  assumes "position_ok c" "xc_config k = xc_config c" "xc_initialized k = xc_initialized c"
    "xs_current_limit_counts (xc_status k) = xs_current_limit_counts (xc_status c)"
    and "reason \<notin> {POSITION_CONTROL_RESULT_SETTLED, POSITION_CONTROL_RESULT_DEADLINE}"
    and "position_fail k now reason f = (ev, c', r)"
  shows "position_outcome c obs ev c' r \<and> ev = POSITION_CONTROL_EVENT_FAILED"
proof -
  obtain c'' where "position_fail_controller k reason f now = (POSITION_CONTROL_EVENT_FAILED, c'')"
    "position_ended c c'' POSITION_CONTROL_STATE_FAILED reason"
    by (rule position_failed [OF assms(1-4)])
  then show ?thesis using assms(5,6) by (auto simp: position_fail_def position_outcome_def)
qed

lemma clamp_within:
  assumes "isfinite (clamp_symmetric v limit)" "limit = Finite m" "0 \<le> m"
  shows "\<exists>y. clamp_symmetric v limit = Finite y \<and> \<bar>y\<bar> \<le> m"
  using assms clamp_bounds(1) [of v m] by (auto simp: isfinite_iff)

lemma position_follow_cases:
  assumes ok: "position_ok c" "xs_active (xc_status c)"
    and follow: "position_follow fp c now obs t = (ev, c', r)"
  shows "position_outcome c obs ev c' r"
proof -
  obtain stepped p where step: "motion_profile_step fp (Some (xc_profile c))
    (Some (xc_active_profile_config c)) t =
      (stepped, Some p)"
    using motion_profile_step_keeps by (metis surj_pair)
  define c1 where "c1 = c\<lparr>xc_profile := p\<rparr>"
  have ok1: "position_ok c1" "xs_active (xc_status c1)"
    using ok by (simp_all add: c1_def position_ok_def del:
      position_controller_config_is_valid.simps)
  have same: "xc_config c1 = xc_config c" "xc_initialized c1 = xc_initialized c"
    "xs_current_limit_counts (xc_status c1) = xs_current_limit_counts (xc_status c)" by (simp_all
      add: c1_def)
  have outcome: "position_outcome c1 obs e k q \<longleftrightarrow> position_outcome c obs e k q" for e k q
    by (simp add: position_outcome_def position_ended_def position_continued_def counted_def
      settled_sample_def c1_def)
  define err where "err = f32_sub (mp_position p) (ro_position_revolutions obs)"
  define v where "v = clamp_symmetric (f32_mul_add (fp 8)
    (xg_position_gain_per_second (xc_config c)) err (mp_velocity p))
    (xg_maximum_velocity_target (xc_config c))"
  have fails: "position_fail c1 now reason f = (ev, c', r) \<Longrightarrow>
      reason \<notin> {POSITION_CONTROL_RESULT_SETTLED, POSITION_CONTROL_RESULT_DEADLINE} \<Longrightarrow>
        ?thesis" for reason f
    using position_fail_outcome [OF ok(1) same] by blast
  have bound: "\<exists>y. v = Finite y \<and> \<bar>y\<bar> \<le> m"
    if "isfinite v" "xg_maximum_velocity_target (xc_config c) = Finite m" for m
    using that ok(1) unfolding v_def by (intro clamp_within)
      (auto simp: position_ok_def finite_positive_def)
  have eq: "(ev, c', r) = (if \<not> stepped
      then position_fail c1 now POSITION_CONTROL_RESULT_INTERNAL_NUMERIC
        POSITION_CONTROL_FAULT_INTERNAL_NUMERIC
      else if \<not> isfinite err \<or> f32_less (xg_maximum_following_error (xc_config c)) (f32_abs err)
      then position_fail c1 now POSITION_CONTROL_RESULT_FOLLOWING_ERROR
        POSITION_CONTROL_FAULT_FOLLOWING_ERROR
      else if \<not> isfinite v
      then position_fail c1 now POSITION_CONTROL_RESULT_INTERNAL_NUMERIC
        POSITION_CONTROL_FAULT_INTERNAL_NUMERIC
      else position_settle c1 now obs err v)"
    unfolding follow [symmetric] position_follow_def Let_def step prod.case option.sel c1_def
      [symmetric]
    by (simp add: err_def v_def c1_def)
  show ?thesis
  proof (cases "stepped \<and> \<not> (\<not> isfinite err \<or> f32_less (xg_maximum_following_error (xc_config c))
    (f32_abs err)) \<and> isfinite v")
    case True
    then have "position_settle c1 now obs err v = (ev, c', r)" using eq by simp
    from position_settle_cases [OF ok1 _ this] bound True have "position_outcome c1 obs ev c' r"
      unfolding position_outcome_def same by blast
    then show ?thesis by (simp only: outcome)
  next
    case False
    then obtain reason f where "position_fail c1 now reason f = (ev, c', r)"
      "reason \<notin> {POSITION_CONTROL_RESULT_SETTLED, POSITION_CONTROL_RESULT_DEADLINE}"
      using eq by (auto split: if_splits)
    then show ?thesis by (rule fails)
  qed
qed

lemma position_update_cases:
  assumes ok: "position_ok c" "xs_active (xc_status c)"
    and upd: "position_update_active fp c now obs = (ev, c', r)"
  shows "position_outcome c obs ev c' r"
    and "time_reached now (xc_deadline_millis c) \<Longrightarrow> ev \<noteq> POSITION_CONTROL_EVENT_VELOCITY_CHANGED"
proof -
  let ?us = "ro_timestamp_us obs - xc_last_feedback_timestamp_us c"
  define c1 where "c1 = position_clear_request (c\<lparr>xc_status := (xc_status c)\<lparr>xs_state :=
    POSITION_CONTROL_STATE_COMPLETE,
      xs_result := POSITION_CONTROL_RESULT_DEADLINE, xs_elapsed_millis :=
        now - xc_start_millis c\<rparr>\<rparr>)"
  have ended: "position_ended c c1 POSITION_CONTROL_STATE_COMPLETE POSITION_CONTROL_RESULT_DEADLINE"
    unfolding c1_def by (rule position_cleared [OF ok(1)]) simp_all
  consider (fail) reason f where "position_fail c now reason f = (ev, c', r)"
      "reason \<notin> {POSITION_CONTROL_RESULT_SETTLED, POSITION_CONTROL_RESULT_DEADLINE}"
    | (deadline) "ev = POSITION_CONTROL_EVENT_COMPLETED" "c' = c1" "r = 0"
    | (follow) t where "\<not> time_reached now (xc_deadline_millis c)" "position_follow fp c now obs t =
      (ev, c', r)"
  proof -
    define a b d where "a \<longleftrightarrow> \<not> ro_valid obs \<or> \<not> isfinite (ro_position_revolutions obs) \<or>
        \<not> isfinite (ro_velocity_revolutions_per_second obs)"
      and "b \<longleftrightarrow> ?us = 0 \<or> xg_maximum_feedback_interval_us (xc_config c) < ?us"
      and "d \<longleftrightarrow> f32_less (xg_maximum_feedback_velocity (xc_config c))
        (f32_abs (ro_velocity_revolutions_per_second obs))"
    note eq = upd [unfolded position_update_active_def Let_def c1_def [symmetric] time_reached_def
      [symmetric],
      folded a_def b_def d_def]
    consider "a \<or> b \<or> d" | "\<not> a" "\<not> b" "\<not> d" "time_reached now (xc_deadline_millis c)"
      | "\<not> a" "\<not> b" "\<not> d" "\<not> time_reached now (xc_deadline_millis c)" by blast
    then show thesis
    proof cases
      case 1
      then show thesis using eq that(1) by (cases a; cases b; simp)
    next
      case 2
      then show thesis using eq that(2) by simp
    next
      case 3
      then show thesis using eq that(3) by simp
    qed
  qed
  note cases = this
  from cases show "position_outcome c obs ev c' r"
  proof cases
    case fail
    from position_fail_outcome [OF ok(1) refl refl refl fail(2,1)] show ?thesis by blast
  next
    case deadline
    then show ?thesis using ended by (simp add: position_outcome_def)
  next
    case follow
    from position_follow_cases [OF ok follow(2)] show ?thesis .
  qed
  from cases show "ev \<noteq> POSITION_CONTROL_EVENT_VELOCITY_CHANGED" if "time_reached now
    (xc_deadline_millis c)"
  proof cases
    case fail
    from position_fail_outcome [OF ok(1) refl refl refl fail(2,1)] show ?thesis by simp
  qed (use that in simp_all)
qed

section \<open>Any sequence of calls\<close>

datatype position_call =
  Position_Start i32 i32 i32 u16 u32 u32 rotor_observation
| Position_Update u32 rotor_observation
| Position_Stop u32
| Position_Actuator_Failed u32

fun starts_position :: "position_call \<Rightarrow> bool" where
  "starts_position (Position_Start x v a l d now obs) = True"
| "starts_position _ = False"

fun call_position :: "(nat \<Rightarrow> bool) \<Rightarrow> position_controller \<Rightarrow> position_call \<Rightarrow>
  position_controller" where
  "call_position fp c (Position_Start x v a l d now obs) =
     the (snd (position_controller_start_relative (Some c) x v a l d now (Some obs)))"
| "call_position fp c (Position_Update now obs) =
     the (fst (snd (position_controller_update fp (Some c) now (Some obs) (Some 0))))"
| "call_position fp c (Position_Stop now) = the (snd (position_controller_stop (Some c) now))"
| "call_position fp c (Position_Actuator_Failed now) =
     the (snd (position_controller_actuator_failed (Some c) now))"

text \<open>An accepted start: the profile is never refused, as its inputs were checked.\<close>

lemma position_start_cases:
  assumes "position_controller_start_relative (Some c) x v a l d now (Some obs) = (ok,
    c')" "position_ok c"
  obtains "\<not> ok" "c' = Some c"
  | k where "ok" "c' = Some k" "position_ok k" "xs_active (xc_status k)" "xc_config k = xc_config c"
    "xc_deadline_millis k = now + d" "xs_settle_sample_count (xc_status k) = 0"
    "xc_target_position k = f32_add (ro_position_revolutions obs) (q16_16_to_float x)"
  using assms by (auto simp: Let_def position_ok_def empty_position_status_def move_in_range_def
    not_less
    simp del: position_controller_config_is_valid.simps split: if_splits)

definition position_running :: "u32 \<Rightarrow> position_controller \<Rightarrow> bool" where
  "position_running deadline c \<longleftrightarrow> position_ok c \<and> (xs_active (xc_status c) \<longrightarrow> xc_deadline_millis c =
    deadline)"

lemma position_ended_running: "position_ended c c' st r \<Longrightarrow> position_running deadline c'"
  by (simp add: position_running_def position_ended_def)

lemma position_update_running:
  assumes "position_running deadline c"
  shows "position_running deadline (call_position fp c (Position_Update now obs))"
proof (cases "xs_active (xc_status c)")
  case True
  obtain ev c' r where u: "position_update_active fp c now obs = (ev, c', r)" by (rule prod_cases3)
  have "position_running deadline c'"
    using position_update_cases(1) [OF _ True u] assms True position_ended_running
    by (auto simp: position_outcome_def position_continued_def position_running_def)
  with True assms u show ?thesis by (simp add: position_running_def position_ok_def)
qed (use assms in simp)

lemma position_stop_running:
  assumes "position_running deadline c"
  shows "position_running deadline (call_position fp c (Position_Stop now))"
    "position_running deadline (call_position fp c (Position_Actuator_Failed now))"
proof -
  have ok: "position_ok c" using assms by (simp add: position_running_def)
  have "position_ended c (position_clear_request (c\<lparr>xc_status := (xc_status c)
      \<lparr>xs_state := POSITION_CONTROL_STATE_STOPPED, xs_result := POSITION_CONTROL_RESULT_STOPPED,
       xs_elapsed_millis := now - xc_start_millis c\<rparr>\<rparr>))
         POSITION_CONTROL_STATE_STOPPED POSITION_CONTROL_RESULT_STOPPED"
    by (rule position_cleared [OF ok]) simp_all
  from position_ended_running [OF this] show "position_running deadline (call_position fp c
    (Position_Stop now))"
    using assms by simp
  obtain c' where "position_fail_controller c POSITION_CONTROL_RESULT_ACTUATOR_FAULT
      POSITION_CONTROL_FAULT_ACTUATOR now = (POSITION_CONTROL_EVENT_FAILED, c')"
    "position_ended c c' POSITION_CONTROL_STATE_FAILED POSITION_CONTROL_RESULT_ACTUATOR_FAULT"
    by (rule position_failed [OF ok refl refl refl])
  with position_ended_running show "position_running deadline (call_position fp c
    (Position_Actuator_Failed now))"
    using assms by simp
qed

lemma position_call_running:
  assumes "position_running deadline c" "\<not> starts_position e"
  shows "position_running deadline (call_position fp c e)"
  using assms position_update_running position_stop_running by (cases e)
    (auto simp del: call_position.simps)

lemma position_call_ok:
  assumes "position_ok c"
  shows "position_ok (call_position fp c e)"
proof (cases "starts_position e")
  case True
  then obtain x v a l d now obs where e: "e = Position_Start x v a l d now obs" by (cases e) auto
  obtain ok c' where s: "position_controller_start_relative (Some c) x v a l d now (Some obs) = (ok,
    c')" by (rule prod.exhaust)
  from s assms show ?thesis
    by (cases rule: position_start_cases) (use s assms in \<open>simp_all add: e del:
      position_controller_start_relative.simps\<close>)
next
  case False
  then show ?thesis using position_call_running [of "xc_deadline_millis c" c e fp] assms
    by (simp add: position_running_def)
qed

interpretation position_run: invariant_machine "call_position fp" position_ok for fp
  by unfold_locales (rule position_call_ok)

interpretation position_deadline: latching_machine "call_position fp" "position_running deadline"
  starts_position
  for fp deadline
  by unfold_locales (rule position_call_running)

lemma init_position_ok:
  "position_controller_init (Some c) (Some k) = (True, Some c0) \<Longrightarrow> position_ok c0 \<and> xc_config c0 = k"
  by (auto simp: position_ok_def empty_position_status_def
    simp del: position_controller_config_is_valid.simps split: if_splits)

lemma reached_position_ok:
  "position_controller_init (Some c) (Some k) = (True, Some c0) \<Longrightarrow>
    position_ok (foldl (call_position fp) c0 es)"
  by (rule position_run.run_inv) (simp add: init_position_ok)

text \<open>
  C37. A move ends by its deadline. Once a move of some duration is started, and whatever updates,
  stops and failures follow, an update at or after the deadline (within half the range of the
  millisecond counter) finds the move already over or ends it, and asks for no velocity.
\<close>

theorem position_move_ends:
  assumes "position_controller_init (Some c) (Some k) = (True, Some c0)"
    and "position_controller_start_relative (Some (foldl (call_position fp) c0 before))
      x v a l duration start
           (Some obs0) = (True, Some c1)"
    and "list_all (\<lambda>e. \<not> starts_position e) during"
    and "unat duration \<le> unat elapsed" "unat elapsed < 2 ^ 31"
  shows "\<exists>ev c2. position_controller_update fp (Some (foldl (call_position fp) c1 during))
    (start + elapsed)
     (Some obs) (Some 0) = (ev, Some c2, Some 0) \<and> ev \<noteq> POSITION_CONTROL_EVENT_VELOCITY_CHANGED \<and>
     \<not> position_controller_is_active (Some c2)"
proof -
  let ?c = "foldl (call_position fp) c1 during"
  have b: "position_ok (foldl (call_position fp) c0 before)" by (rule reached_position_ok [OF
    assms(1)])
  have "position_ok c1" "xc_deadline_millis c1 = start + duration"
    using position_start_cases [OF assms(2) b] by (metis option.inject)+
  then have run: "position_running (start + duration) ?c"
    by (intro position_deadline.latched_run assms(3)) (simp add: position_running_def)
  then have i: "xc_initialized ?c" and okc: "position_ok ?c" by (simp_all add: position_running_def
    position_ok_def)
  show ?thesis
  proof (cases "xs_active (xc_status ?c)")
    case True
    have t: "time_reached (start + elapsed) (xc_deadline_millis ?c)"
      using run True assms(4,5) by (simp add: position_running_def time_reached_iff)
    obtain ev c' r where u: "position_update_active fp ?c (start + elapsed) obs = (ev, c',
      r)" by (rule prod_cases3)
    have "r = 0 \<and> ev \<noteq> POSITION_CONTROL_EVENT_VELOCITY_CHANGED \<and> \<not> xs_active (xc_status c')"
      using position_update_cases [OF okc True u] t by (auto simp: position_outcome_def
        position_ended_def)
    with True i u show ?thesis by simp
  qed (use i in simp)
qed

section \<open>Settling\<close>

fun run_updates :: "(nat \<Rightarrow> bool) \<Rightarrow> position_controller \<Rightarrow> (u32 \<times> rotor_observation) list \<Rightarrow>
  position_controller" where
  "run_updates fp c us = foldl (call_position fp) c (map (\<lambda>(now, obs). Position_Update now obs) us)"

text \<open>A stretch of elements at the end of a list, one element later.\<close>

lemma stretch_extends:
  assumes "list_all P (drop (length xs - n) xs)" "m \<noteq> 0 \<Longrightarrow> P y \<and> m \<le> n + 1"
  shows "list_all P (drop (length xs + 1 - m) (xs @ [y]))"
proof (cases "m = 0")
  case False
  then have "length xs - n \<le> length xs + 1 - m" using assms(2) by linarith
  then have "set (drop (length xs + 1 - m) xs) \<subseteq> set (drop (length xs - n)
    xs)" by (rule set_drop_subset_set_drop)
  then show ?thesis using assms False by (auto simp: list_all_iff)
qed simp

text \<open>The counter never exceeds the length of the last stretch of settled observations.\<close>

lemma settle_history:
  assumes "position_ok c" "xs_settle_sample_count (xc_status c) = 0"
    and "xs_active (xc_status (run_updates fp c us))"
  defines "k \<equiv> run_updates fp c us" and "n \<equiv> unat (xs_settle_sample_count (xc_status (run_updates fp
    c us)))"
  shows "position_ok k \<and> xc_config k = xc_config c \<and> xc_target_position k = xc_target_position c \<and>
    n \<le> length us \<and> list_all (settled_sample c) (drop (length us - n) (map snd us))"
  using assms(3) unfolding k_def n_def
proof (induction us rule: rev_induct)
  case Nil
  then show ?case using assms(1,2) by simp
next
  case (snoc u us)
  obtain now obs where u: "u = (now, obs)" by (rule prod.exhaust)
  let ?k = "run_updates fp c us"
  define n where "n = unat (xs_settle_sample_count (xc_status ?k))"
  have step: "run_updates fp c (us @ [u]) = call_position fp ?k (Position_Update now obs)" by (simp
    add: u)
  have active: "xs_active (xc_status ?k)"
    using snoc.prems unfolding step by (auto split: if_splits)
  note ih = snoc.IH [OF active, folded n_def]
  obtain ev k' r where up: "position_update_active fp ?k now obs = (ev, k',
    r)" by (rule prod_cases3)
  have k': "run_updates fp c (us @ [u]) = k'"
    unfolding step using ih active up by (simp add: position_ok_def del: run_updates.simps)
  then have cont: "position_continued ?k k' obs r"
    using position_update_cases(1) [OF _ active up] ih snoc.prems
    by (auto simp: position_outcome_def position_ended_def simp del: run_updates.simps)
  have s: "settled_sample ?k obs = settled_sample c obs" using ih by (simp add: settled_sample_def)
  let ?m = "unat (xs_settle_sample_count (xc_status k'))"
  have m: "?m \<noteq> 0 \<Longrightarrow> settled_sample c obs \<and> ?m \<le> n + 1"
    using cont s by (simp add: position_continued_def counted_def n_def unat_eq_0 del:
      run_updates.simps)
  have "list_all (settled_sample c) (drop (length (us @ [u]) - ?m) (map snd (us @ [u])))"
    using stretch_extends [of "settled_sample c" "map snd us" n ?m obs] ih m by (simp add: u)
  moreover have "?m \<le> length (us @ [u])" using m ih by (cases "?m = 0") auto
  ultimately show ?case using cont ih unfolding k' position_continued_def by simp
qed

text \<open>
  C38. A move is reported as settled only when the rotor has settled. If an update after a start
  completes the move as settled, at least the required number of updates were made, and in each of
  the last that many observations, the completing one included, the rotor was within the position
  tolerance of the target and slower than the velocity tolerance.
\<close>

theorem settled_after_required_samples:
  assumes "position_controller_init (Some c) (Some k) = (True, Some c0)"
    and "position_controller_start_relative (Some (foldl (call_position fp) c0 before))
      x v a l duration start
           (Some obs0) = (True, Some c1)"
    and "position_controller_update fp (Some (run_updates fp c1 us)) now (Some obs) (Some v0) = (ev,
      Some c2, Some v1)"
    and "ev = POSITION_CONTROL_EVENT_COMPLETED" "xs_result (xc_status c2) =
      POSITION_CONTROL_RESULT_SETTLED"
  defines "n \<equiv> unat (xg_required_settle_samples (xc_config c1))"
  shows "0 < n \<and> n \<le> length us + 1 \<and>
     list_all (settled_sample c1) (drop (length us + 1 - n) (map snd us @ [obs]))"
proof -
  let ?k = "run_updates fp c1 us"
  define m where "m = unat (xs_settle_sample_count (xc_status ?k))"
  have b: "position_ok (foldl (call_position fp) c0 before)" by (rule reached_position_ok [OF
    assms(1)])
  have ok: "position_ok c1" "xs_settle_sample_count (xc_status c1) = 0"
    using position_start_cases [OF assms(2) b] by (metis option.inject)+
  have active: "xs_active (xc_status ?k)" using assms(3,4)
    by (auto split: if_splits simp del: run_updates.simps)
  note h = settle_history [OF ok active, folded m_def]
  have "position_update_active fp ?k now obs = (ev, c2, v1)"
    using assms(3) active h by (auto simp: position_ok_def split: prod.splits simp del:
      run_updates.simps)
  from position_update_cases(1) [OF _ active this] h assms(4,5)
  have "settled_sample ?k obs" "n \<le> m + 1"
    by (auto simp: position_outcome_def position_ended_def n_def m_def simp del: run_updates.simps)
  moreover have "settled_sample ?k obs = settled_sample c1 obs" using h by (simp add:
    settled_sample_def)
  moreover have "0 < n" using ok(1) by (auto simp: n_def position_ok_def unat_gt_0)
  ultimately show ?thesis
    using h stretch_extends [of "settled_sample c1" "map snd us" m n obs] by (simp del:
      run_updates.simps)
qed

section \<open>A concrete move\<close>

definition bench_position_config :: position_controller_config where
  "bench_position_config = \<lparr>xg_maximum_relative_travel = Finite 100, xg_maximum_velocity =
    Finite 16,
     xg_maximum_velocity_target = Finite 17, xg_maximum_acceleration = Finite 64,
     xg_maximum_feedback_velocity = Finite 20, xg_maximum_start_velocity = Finite (1 / 8),
     xg_maximum_following_error = Finite (1 / 4), xg_position_gain_per_second = Finite 4,
     xg_position_tolerance = Finite (1 / 512), xg_velocity_tolerance = Finite (1 / 64),
     xg_maximum_current_counts = 495, xg_required_settle_samples = 2,
     xg_maximum_feedback_interval_us = 15625, xg_minimum_duration_millis = 100,
     xg_maximum_duration_millis = 0x7FFFFFFF\<rparr>"

definition bench_rest :: "u32 \<Rightarrow> rotor_observation" where
  "bench_rest t = \<lparr>ro_position_revolutions = Finite 0, ro_velocity_revolutions_per_second =
    Finite 0,
     ro_timestamp_us = t, ro_valid = True\<rparr>"

definition bench_position :: position_controller where
  "bench_position = the (snd (position_controller_init (Some undefined)
    (Some bench_position_config)))"

definition bench_moving :: position_controller where
  "bench_moving = the (snd (position_controller_start_relative (Some bench_position)
    64 0x10000 0x100000 100 1000 5
     (Some (bench_rest 10))))"

lemma bench_position_init:
  "position_controller_init (Some undefined) (Some bench_position_config) = (True,
    Some bench_position)"
  by (simp add: bench_position_def bench_position_config_def finite_positive_def)

lemma bench_position_rounding:
  "f32_round 0 = Finite 0" "f32_round 1 = Finite 1" "f32_round 16 = Finite 16" "f32_round (1 / 1024)
    = Finite (1 / 1024)"
  "f32_round (1 / 64) = Finite (1 / 64)" "f32_round (1 / 256) = Finite (1 / 256)"
  using round_dyadic [of 0 0] round_dyadic [of 1 0] round_dyadic [of 16 0] round_dyadic [of 1 10]
    round_dyadic [of 1 6]
    round_dyadic [of 1 8] by simp_all

lemma bench_position_start:
  "position_controller_start_relative (Some bench_position)
    64 0x10000 0x100000 100 1000 5 (Some (bench_rest 10)) =
     (True, Some bench_moving)"
  by (simp add: bench_moving_def bench_position_def bench_position_config_def bench_rest_def
    finite_positive_def
    move_in_range_def empty_position_status_def q16_16_to_float_def of_int_exact
      bench_position_rounding Let_def)

theorem position_move_ends_witness:
  "\<exists>ev c2. position_controller_update (\<lambda>_. True) (Some bench_moving) 1005 (Some (bench_rest 400))
     (Some 0) = (ev, Some c2, Some 0) \<and> ev \<noteq> POSITION_CONTROL_EVENT_VELOCITY_CHANGED \<and>
     \<not> position_controller_is_active (Some c2)"
proof -
  have "position_controller_start_relative (Some (foldl (call_position (\<lambda>_. True))
    bench_position [])) 64 0x10000
      0x100000 100 1000 5 (Some (bench_rest 10)) = (True, Some bench_moving)"
    using bench_position_start by simp
  from position_move_ends [OF bench_position_init this, of "[]" 1000 "bench_rest 400"] show ?thesis
    by (simp del: position_controller_update.simps position_controller_is_active.simps)
qed

lemma bench_first_update:
  "\<exists>c2. position_controller_update (\<lambda>_. True) (Some (run_updates (\<lambda>_. True) bench_moving [(20,
    bench_rest 15635)])) 36
     (Some (bench_rest 31260)) (Some 0) = (POSITION_CONTROL_EVENT_COMPLETED, Some c2, Some 0) \<and>
     xs_result (xc_status c2) = POSITION_CONTROL_RESULT_SETTLED"
  by (simp add: bench_moving_def bench_position_def bench_position_config_def bench_rest_def
    finite_positive_def
    move_in_range_def empty_position_status_def q16_16_to_float_def of_int_exact
      bench_position_rounding Let_def
    position_update_active_def position_follow_def position_settle_def motion_step_def f32_sub_def
      clamp_symmetric_def
    move_profile_config_def position_clear_request_def word_le_def)

theorem settled_after_required_samples_witness:
  "\<exists>c2. position_controller_update (\<lambda>_. True) (Some (run_updates (\<lambda>_. True) bench_moving [(20,
    bench_rest 15635)])) 36
      (Some (bench_rest 31260)) (Some 0) = (POSITION_CONTROL_EVENT_COMPLETED, Some c2, Some 0) \<and>
     list_all (settled_sample bench_moving) [bench_rest 15635, bench_rest 31260]"
proof -
  obtain c2 where u: "position_controller_update (\<lambda>_. True) (Some (run_updates (\<lambda>_. True)
    bench_moving
      [(20, bench_rest 15635)])) 36 (Some (bench_rest 31260)) (Some 0) =
        (POSITION_CONTROL_EVENT_COMPLETED, Some c2, Some 0)"
    "xs_result (xc_status c2) = POSITION_CONTROL_RESULT_SETTLED" using bench_first_update by blast
  have s: "position_controller_start_relative (Some (foldl (call_position (\<lambda>_. True))
    bench_position [])) 64 0x10000
      0x100000 100 1000 5 (Some (bench_rest 10)) = (True, Some bench_moving)"
    using bench_position_start by simp
  have "unat (xg_required_settle_samples (xc_config bench_moving)) = 2"
    by (simp add: bench_moving_def bench_position_def bench_position_config_def bench_rest_def
      finite_positive_def
      move_in_range_def empty_position_status_def q16_16_to_float_def of_int_exact
        bench_position_rounding Let_def)
  with settled_after_required_samples [OF bench_position_init s u(1) refl u(2)] u(1)
    show ?thesis by auto
qed

end
