(* ===== verification/Angle_Tracker.thy ===== *)
theory Angle_Tracker
  imports Pi_Controller
begin

text \<open>
  The rotor estimator, \<open>firmware/src/control/angle_tracker.c\<close>: raw encoder angles with time stamps
  are unwrapped into a position in revolutions and a filtered velocity. The lemmas show that the
  unwrapping takes the shorter way round, that a sample that is late or implies too high a speed is
  refused, and that a refused sample changes nothing.
\<close>

record angle_tracker_config =
  ag_counts_per_revolution :: u32
  ag_maximum_sample_interval_us :: u32
  ag_maximum_velocity :: f32
  ag_velocity_filter_alpha :: f32

record angle_tracker =
  at_config :: angle_tracker_config
  at_last_timestamp_us :: u32
  at_last_raw_angle :: u16
  at_position_revolutions :: f32
  at_velocity_revolutions_per_second :: f32
  at_initialized :: bool

fun angle_tracker_config_is_valid :: "angle_tracker_config ptr \<Rightarrow> bool" where
  "angle_tracker_config_is_valid None = False"
| "angle_tracker_config_is_valid (Some config) \<longleftrightarrow>
     2 \<le> ag_counts_per_revolution config \<and> ag_counts_per_revolution config \<le> 0xFFFF \<and>
     ag_maximum_sample_interval_us config \<noteq> 0 \<and> finite_positive (ag_maximum_velocity config) \<and>
     isfinite (ag_velocity_filter_alpha config) \<and>
     f32_less (Finite 0) (ag_velocity_filter_alpha config) \<and>
     f32_le (ag_velocity_filter_alpha config) (Finite 1)"

fun angle_tracker_init ::
  "angle_tracker ptr \<Rightarrow> angle_tracker_config ptr \<Rightarrow> bool \<times> angle_tracker ptr" where
  "angle_tracker_init (Some tracker) (Some config) =
     (if \<not> angle_tracker_config_is_valid (Some config) then (False, Some tracker)
      else (True, Some \<lparr>at_config = config, at_last_timestamp_us = 0, at_last_raw_angle = 0,
        at_position_revolutions = Finite 0, at_velocity_revolutions_per_second = Finite 0,
        at_initialized = False\<rparr>))"
| "angle_tracker_init tracker config = (False, tracker)"

text \<open>The difference of two angles, taken the shorter way round.\<close>

definition unwrapped_delta :: "u32 \<Rightarrow> u16 \<Rightarrow> u16 \<Rightarrow> int" where
  "unwrapped_delta counts_per_revolution raw_angle last_raw_angle =
     (let delta_counts = uint raw_angle - uint last_raw_angle;
          half_revolution_counts = uint (counts_per_revolution div 2)
      in if half_revolution_counts < delta_counts then delta_counts - uint counts_per_revolution
         else if delta_counts < - half_revolution_counts then delta_counts + uint
           counts_per_revolution
         else delta_counts)"

definition tracker_advance ::
  "(nat \<Rightarrow> bool) \<Rightarrow> angle_tracker \<Rightarrow> u16 \<Rightarrow> u32 \<Rightarrow> bool \<times> angle_tracker" where
  "tracker_advance fp tracker raw_angle timestamp_us =
     (let config = at_config tracker;
          counts = ag_counts_per_revolution config;
          elapsed_us = timestamp_us - at_last_timestamp_us tracker;
          delta_counts = unwrapped_delta counts raw_angle (at_last_raw_angle tracker);
          elapsed_seconds = f32_mul (f32_of_int (uint elapsed_us)) (f32_round (1 / 1000000));
          delta_revolutions = f32_div (f32_of_int delta_counts) (f32_of_int (uint counts));
          allowed_delta_revolutions = f32_mul_add (fp 9) (ag_maximum_velocity config)
            elapsed_seconds
            (f32_div (Finite (3 / 2)) (f32_of_int (uint counts)))
      in if f32_less allowed_delta_revolutions (f32_abs delta_revolutions) then (False, tracker)
         else
           let instantaneous_velocity = f32_div delta_revolutions elapsed_seconds;
               velocity = at_velocity_revolutions_per_second tracker
           in (True, tracker\<lparr>
                 at_velocity_revolutions_per_second := f32_mul_add (fp 10)
                   (ag_velocity_filter_alpha config) (f32_sub instantaneous_velocity velocity)
                   velocity,
                 at_position_revolutions :=
                   f32_add (at_position_revolutions tracker) delta_revolutions,
                 at_last_raw_angle := raw_angle, at_last_timestamp_us := timestamp_us\<rparr>))"

definition tracker_push ::
  "(nat \<Rightarrow> bool) \<Rightarrow> angle_tracker \<Rightarrow> u16 \<Rightarrow> u32 \<Rightarrow> bool \<times> angle_tracker" where
  "tracker_push fp tracker raw_angle timestamp_us =
     (let config = at_config tracker;
          elapsed_us = timestamp_us - at_last_timestamp_us tracker
      in if \<not> angle_tracker_config_is_valid (Some config) \<or>
            ag_counts_per_revolution config \<le> ucast raw_angle then (False, tracker)
         else if \<not> at_initialized tracker
         then (True, tracker\<lparr>at_last_raw_angle := raw_angle, at_last_timestamp_us := timestamp_us,
                 at_position_revolutions := f32_div (f32_of_int (uint raw_angle))
                   (f32_of_int (uint (ag_counts_per_revolution config))),
                 at_velocity_revolutions_per_second := Finite 0, at_initialized := True\<rparr>)
         else if elapsed_us = 0 \<or> ag_maximum_sample_interval_us config < elapsed_us
         then (False, tracker)
         else tracker_advance fp tracker raw_angle timestamp_us)"

fun angle_tracker_push ::
  "(nat \<Rightarrow> bool) \<Rightarrow> angle_tracker ptr \<Rightarrow> u16 \<Rightarrow> u32 \<Rightarrow> bool \<times> angle_tracker ptr" where
  "angle_tracker_push fp None raw_angle timestamp_us = (False, None)"
| "angle_tracker_push fp (Some tracker) raw_angle timestamp_us =
     map_prod id Some (tracker_push fp tracker raw_angle timestamp_us)"

section \<open>Unwrapping\<close>

text \<open>The shorter way round: at most half a revolution, and the same angle.\<close>

lemma unwrapped_delta_short:
  assumes "uint raw < uint n" "uint old < uint n"
  shows "\<bar>unwrapped_delta n raw old\<bar> \<le> uint n div 2"
    and "(uint old + unwrapped_delta n raw old) mod uint n = uint raw"
proof -
  have h: "uint (n div 2) = uint n div 2" by (simp add: uint_div)
  have r: "0 \<le> uint raw" "0 \<le> uint old" by simp_all
  have "uint n \<le> 2 * (uint n div 2) + 1" "2 * (uint n div 2) \<le> uint n" by linarith+
  then show "\<bar>unwrapped_delta n raw old\<bar> \<le> uint n div 2"
    using assms r unfolding unwrapped_delta_def h Let_def abs_le_iff
    by (simp only: split: if_split) linarith
  show "(uint old + unwrapped_delta n raw old) mod uint n = uint raw"
    using assms r by (auto simp: unwrapped_delta_def Let_def mod_pos_pos_trivial)
qed

lemma tracker_push_refused: "fst (tracker_push fp t raw us) = False \<Longrightarrow> snd (tracker_push fp t raw us)
  = t"
  by (auto simp: tracker_push_def tracker_advance_def Let_def split: if_splits)

lemma tracker_push_keeps:
  assumes "tracker_push fp t raw us = (ok, t')"
  shows "at_config t' = at_config t"
    and "ok \<Longrightarrow> at_initialized t' \<and> at_last_raw_angle t' = raw \<and> at_last_timestamp_us t' = us \<and>
      angle_tracker_config_is_valid (Some (at_config t)) \<and>
        ucast raw < ag_counts_per_revolution (at_config t)"
    and "\<not> ok \<Longrightarrow> t' = t"
  using assms by (auto simp: tracker_push_def tracker_advance_def Let_def not_le
    simp del: angle_tracker_config_is_valid.simps split: if_splits)

lemma tracker_push_config: "at_config (snd (tracker_push fp t raw us)) = at_config t"
  using tracker_push_keeps(1) by (cases "tracker_push fp t raw us") simp

text \<open>What an accepted sample that is not the first satisfies and does.\<close>

lemma accepted_advance:
  assumes "tracker_push fp t raw us = (True, t')" "at_initialized t"
  defines "n \<equiv> ag_counts_per_revolution (at_config t)"
  defines "d \<equiv> f32_div (f32_of_int (unwrapped_delta n raw (at_last_raw_angle t)))
    (f32_of_int (uint n))"
  shows "0 < us - at_last_timestamp_us t" "us - at_last_timestamp_us t \<le>
    ag_maximum_sample_interval_us (at_config t)"
    "at_position_revolutions t' = f32_add (at_position_revolutions t) d"
    "\<not> f32_less (f32_mul_add (fp 9) (ag_maximum_velocity (at_config t))
        (f32_mul (f32_of_int (uint (us - at_last_timestamp_us t))) (f32_round (1 / 1000000)))
        (f32_div (Finite (3 / 2)) (f32_of_int (uint n)))) (f32_abs d)"
  using assms by (auto simp: tracker_push_def tracker_advance_def Let_def not_less word_gt_0
    simp del: angle_tracker_config_is_valid.simps f32_mul_add.simps f32_div.simps f32_less.simps
      split: if_splits)

text \<open>The estimator remembers an angle of its revolution.\<close>

definition tracker_ok :: "angle_tracker \<Rightarrow> bool" where
  "tracker_ok t \<longleftrightarrow> angle_tracker_config_is_valid (Some (at_config t)) \<and>
     uint (at_last_raw_angle t) < uint (ag_counts_per_revolution (at_config t))"

lemma tracker_init_ok: "angle_tracker_init (Some t0) (Some k) = (True, Some t) \<Longrightarrow> tracker_ok t \<and>
  at_config t = k"
  by (auto simp: tracker_ok_def word_le_def simp del: word_of_int_numeral split: if_splits)

lemma tracker_push_ok:
  assumes "tracker_ok t"
  shows "tracker_ok (snd (tracker_push fp t (fst s) (snd s)))"
proof -
  obtain ok t' where p: "tracker_push fp t (fst s) (snd s) = (ok, t')" by (rule prod.exhaust)
  have "tracker_ok t'"
  proof (cases ok)
    case True
    then show ?thesis using tracker_push_keeps(1,2) [OF p]
      by (simp add: tracker_ok_def word_less_def del: angle_tracker_config_is_valid.simps)
  qed (use tracker_push_keeps(3) [OF p] assms in simp)
  then show ?thesis using p by simp
qed

interpretation tracker_run: invariant_machine "\<lambda>t s. snd (tracker_push fp t (fst s)
  (snd s))" tracker_ok for fp
  by unfold_locales (rule tracker_push_ok)

text \<open>
  C39. The estimator unwraps the encoder the shorter way round and refuses what cannot be unwrapped.
  After any samples on an initialised estimator, a further sample is either refused, and then the
  estimate is unchanged, or accepted; an accepted one that is not the first is no older than the
  longest interval, differs from the last by at most half a revolution in a way that is the same
  angle, moves the position by that difference, and implies a speed within the configured limit.
\<close>

theorem tracker_unwraps_or_refuses:
  assumes "angle_tracker_init (Some t0) (Some k) = (True, Some t1)"
    and "foldl (\<lambda>t s. snd (tracker_push fp t (fst s) (snd s))) t1 samples = t"
    and "angle_tracker_push fp (Some t) raw us = (ok, Some t')"
  shows "if \<not> ok then t' = t else
     at_initialized t' \<and> at_last_raw_angle t' = raw \<and> at_last_timestamp_us t' = us \<and>
     (at_initialized t \<longrightarrow> (\<exists>d.
        (uint (at_last_raw_angle t) + d) mod uint (ag_counts_per_revolution k) = uint raw \<and>
        2 * \<bar>d\<bar> \<le> uint (ag_counts_per_revolution k) \<and>
        0 < us - at_last_timestamp_us t \<and>
          us - at_last_timestamp_us t \<le> ag_maximum_sample_interval_us k \<and>
        at_position_revolutions t' = f32_add (at_position_revolutions t)
          (f32_div (f32_of_int d) (f32_of_int (uint (ag_counts_per_revolution k)))) \<and>
        \<not> f32_less (f32_mul_add (fp 9) (ag_maximum_velocity k)
            (f32_mul (f32_of_int (uint (us - at_last_timestamp_us t))) (f32_round (1 / 1000000)))
            (f32_div (Finite (3 / 2)) (f32_of_int (uint (ag_counts_per_revolution k)))))
          (f32_abs (f32_div (f32_of_int d) (f32_of_int (uint (ag_counts_per_revolution k)))))))"
proof -
  have t1: "tracker_ok t1" "at_config t1 = k" using tracker_init_ok [OF assms(1)] by simp_all
  have ok: "tracker_ok t" unfolding assms(2) [symmetric] by (rule tracker_run.run_inv [OF t1(1)])
  have cfg: "at_config t = k"
  proof -
    have "at_config (foldl (\<lambda>t s. snd (tracker_push fp t (fst s) (snd s))) x samples) =
      at_config x" for x
      by (induction samples arbitrary: x) (simp_all add: tracker_push_config)
    from this [of t1] show ?thesis unfolding assms(2) t1(2) .
  qed
  have push: "tracker_push fp t raw us = (ok, t')" using assms(3)
    by (cases "tracker_push fp t raw us") simp
  note keeps = tracker_push_keeps [OF push]
  let ?n = "ag_counts_per_revolution k" and ?d = "unwrapped_delta (ag_counts_per_revolution k)
    raw (at_last_raw_angle t)"
  show ?thesis
  proof (cases ok)
    case False
    then show ?thesis using keeps(3) by simp
  next
    case True
    then have raw: "uint raw < uint ?n" using keeps(2) cfg by (simp add: word_less_def)
    have last: "uint (at_last_raw_angle t) < uint ?n" using \<open>tracker_ok t\<close> cfg by (simp add:
      tracker_ok_def)
    note short = unwrapped_delta_short [OF raw last]
    have "2 * \<bar>?d\<bar> \<le> uint ?n" using short(1) by linarith
    note bound = this
    have p: "tracker_push fp t raw us = (True, t')" using push True by simp
    note adv = accepted_advance [OF p, unfolded cfg]
    have k: "at_initialized t'" "at_last_raw_angle t' = raw" "at_last_timestamp_us t' =
      us" using keeps(2) True by simp_all
    show ?thesis unfolding eqTrueI [OF True] not_True_eq_False if_False
      by (intro conjI impI exI [of _ ?d] k adv short(2) bound) assumption+
  qed
qed

section \<open>A concrete sample\<close>

definition bench_tracker_config :: angle_tracker_config where
  "bench_tracker_config = \<lparr>ag_counts_per_revolution = 16384, ag_maximum_sample_interval_us = 2000,
     ag_maximum_velocity = Finite 20, ag_velocity_filter_alpha = Finite (1 / 8)\<rparr>"

definition bench_tracker :: angle_tracker where
  "bench_tracker = \<lparr>at_config = bench_tracker_config, at_last_timestamp_us = 0, at_last_raw_angle =
    0,
     at_position_revolutions = Finite 0, at_velocity_revolutions_per_second = Finite 0,
       at_initialized = False\<rparr>"

definition bench_tracking :: angle_tracker where
  "bench_tracking = bench_tracker\<lparr>at_last_raw_angle := 16383, at_last_timestamp_us := 10,
     at_position_revolutions := f32_div (f32_of_int 16383) (f32_of_int 16384), at_initialized :=
       True\<rparr>"

lemmas bench_tracker_defs = bench_tracking_def bench_tracker_def bench_tracker_config_def
  finite_positive_def

lemma bench_tracker_init: "angle_tracker_init (Some t) (Some bench_tracker_config) = (True,
  Some bench_tracker)"
  by (simp add: bench_tracker_defs)

lemma bench_first_sample:
  "foldl (\<lambda>t s. snd (tracker_push (\<lambda>_. True) t (fst s) (snd s))) bench_tracker [(16383, 10)] =
    bench_tracking"
  by (simp add: bench_tracker_defs tracker_push_def Let_def)

lemma bench_second_sample: "fst (angle_tracker_push (\<lambda>_. True) (Some bench_tracking) 0 1010)"
proof -
  have i: "single (of_int n)" if "\<bar>n\<bar> < 2 ^ 20" for n
  proof -
    have "(of_int \<bar>n\<bar> :: rat) \<le> of_int (2 ^ 20)" using that by (simp only: of_int_le_iff)
    then show ?thesis using that representable_int [of n] by (simp add: single_def)
  qed
  obtain y where y: "f32_round (1 / 1000000) = Finite y" "0 \<le> y" "y \<le> 1"
    by (rule round_between_single [of 0 1 "1 / 1000000"]) (use i [of 0] i [of 1] in simp_all)
  obtain e where e: "f32_round (1000 * y) = Finite e" "0 \<le> e" "e \<le> 1000"
    by (rule round_between_single [of 0 1000 "1000 * y"]) (use i [of 0] i [of 1000] y in simp_all)
  have s: "single (3 / 32768)" using round_single [OF round_dyadic [of 3 15]] by simp
  obtain z where z: "f32_round (20 * e + 3 / 32768) = Finite z" "3 / 32768 \<le> z"
    by (rule round_between_single [of "3 / 32768" 30000 "20 * e + 3 / 32768"])
      (use s i [of 30000] e in simp_all)
  have d: "f32_round (1 / 16384) = Finite (1 / 16384)" "f32_round (3 / 32768) = Finite (3 / 32768)"
    using round_dyadic [of 1 14] round_dyadic [of 3 15] by simp_all
  show ?thesis
    using z(2) by (simp add: bench_tracker_defs tracker_push_def tracker_advance_def
      unwrapped_delta_def Let_def
      of_int_exact y(1) e(1) z(1) d)
qed

theorem tracker_unwraps_or_refuses_witness:
  "\<exists>t'. angle_tracker_push (\<lambda>_. True) (Some bench_tracking) 0 1010 = (True, Some t') \<and>
     (\<exists>d. (16383 + d) mod 16384 = 0 \<and> 2 * \<bar>d\<bar> \<le> 16384 \<and>
        at_position_revolutions t' = f32_add (at_position_revolutions bench_tracking)
          (f32_div (f32_of_int d) (f32_of_int 16384)))"
proof -
  obtain t' where p: "angle_tracker_push (\<lambda>_. True) (Some bench_tracking) 0 1010 = (True, Some t')"
    using bench_second_sample by (cases "tracker_push (\<lambda>_. True) bench_tracking 0 1010") auto
  have i: "at_initialized bench_tracking" "at_last_raw_angle bench_tracking = 16383"
    "ag_counts_per_revolution bench_tracker_config = 16384" by (simp_all add: bench_tracker_defs)
  from tracker_unwraps_or_refuses [OF bench_tracker_init bench_first_sample p] i
  obtain d where "(16383 + d) mod 16384 = 0 \<and> 2 * \<bar>d\<bar> \<le> 16384 \<and>
      at_position_revolutions t' = f32_add (at_position_revolutions bench_tracking)
        (f32_div (f32_of_int d) (f32_of_int 16384))"
    by (auto simp: mod_eq_0_iff_dvd)
  note d = this
  show ?thesis by (intro exI [of _ t'] conjI exI [of _ d] p) (use d in simp_all)
qed

end
