(* ===== verification/Runtime_Profile.thy ===== *)
theory Runtime_Profile
  imports Prelude
begin

text \<open>
  The profile of the deferred control release, \<open>firmware/src/platform/runtime_profile.c\<close>: once
  armed, it collects the cycle counts of the stages of 256 releases, with saturating totals, and
  then freezes. Its static variables are one record. The lemmas show that an armed profile captures
  every release that begins and completes, exactly once, and is complete after the 256th; that the
  figures of a release are recorded only if all of its stages were seen in their order; and that a
  complete profile does not change until it is armed again.
\<close>

section \<open>Data\<close>

definition RUNTIME_PROFILE_SCHEMA_VERSION :: u8 where "RUNTIME_PROFILE_SCHEMA_VERSION = 1"
definition RUNTIME_PROFILE_TARGET_RELEASE_COUNT :: u16 where
  "RUNTIME_PROFILE_TARGET_RELEASE_COUNT = 256"

datatype runtime_profile_state = RUNTIME_PROFILE_STATE_IDLE | RUNTIME_PROFILE_STATE_ARMED
  | RUNTIME_PROFILE_STATE_COMPLETE

datatype runtime_profile_metric_index = RUNTIME_PROFILE_METRIC_PEND_TO_ENTRY
  | RUNTIME_PROFILE_METRIC_DISPATCH | RUNTIME_PROFILE_METRIC_ENCODER_DECODE
  | RUNTIME_PROFILE_METRIC_ESTIMATOR | RUNTIME_PROFILE_METRIC_CONTROL
  | RUNTIME_PROFILE_METRIC_PUBLICATION | RUNTIME_PROFILE_METRIC_PENDSV_TOTAL
  | RUNTIME_PROFILE_METRIC_FOREGROUND | RUNTIME_PROFILE_METRIC_COUNT

record runtime_profile_metric =
  me_total_cycles :: u32
  me_maximum_cycles :: u32

record runtime_profile_snapshot =
  sh_schema_version :: u8
  sh_state :: runtime_profile_state
  sh_captured_release_count :: u16
  sh_incomplete_release_count :: u16
  sh_foreground_sample_count :: u16
  sh_current_loop_completion_count :: u32
  sh_maximum_current_loop_completions_per_release :: u16
  sh_metrics :: "runtime_profile_metric_index \<Rightarrow> runtime_profile_metric"

record runtime_profile =
  rf_snapshot :: runtime_profile_snapshot
  rf_armed :: bool
  rf_pended_valid :: bool
  rf_release_active :: bool
  rf_release_pended_valid :: bool
  rf_callback_valid :: bool
  rf_decode_valid :: bool
  rf_estimator_valid :: bool
  rf_control_valid :: bool
  rf_callback_complete_valid :: bool
  rf_pended_cycle_count :: u32
  rf_release_pended_cycle_count :: u32
  rf_pendsv_entry_cycle_count :: u32
  rf_callback_cycle_count :: u32
  rf_decode_cycle_count :: u32
  rf_estimator_cycle_count :: u32
  rf_control_cycle_count :: u32
  rf_callback_complete_cycle_count :: u32
  rf_current_loop_completion_count :: u32

section \<open>Operations\<close>

definition saturating_add_u32 :: "u32 \<Rightarrow> u32 \<Rightarrow> u32" where
  "saturating_add_u32 left right = (if 0xFFFFFFFF - left < right then 0xFFFFFFFF else left + right)"

definition saturating_increment_u16 :: "u16 \<Rightarrow> u16" where
  "saturating_increment_u16 value = (if value = 0xFFFF then 0xFFFF else value + 1)"

definition profile_saturate_u16 :: "u32 \<Rightarrow> u16" where
  "profile_saturate_u16 value = (if 0xFFFF < value then 0xFFFF else ucast value)"

definition record_metric ::
  "runtime_profile_metric_index \<Rightarrow> u32 \<Rightarrow> runtime_profile_snapshot \<Rightarrow> runtime_profile_snapshot" where
  "record_metric index cycles snapshot =
     (if index = RUNTIME_PROFILE_METRIC_COUNT then snapshot
      else let metric = sh_metrics snapshot index
           in snapshot\<lparr>sh_metrics := (sh_metrics snapshot)(index := \<lparr>
                me_total_cycles = saturating_add_u32 (me_total_cycles metric) cycles,
                me_maximum_cycles = (if me_maximum_cycles metric < cycles then cycles
                                     else me_maximum_cycles metric)\<rparr>)\<rparr>)"

definition armed_snapshot :: runtime_profile_snapshot where
  "armed_snapshot = \<lparr>sh_schema_version = RUNTIME_PROFILE_SCHEMA_VERSION,
     sh_state = RUNTIME_PROFILE_STATE_ARMED, sh_captured_release_count = 0,
     sh_incomplete_release_count = 0, sh_foreground_sample_count = 0,
     sh_current_loop_completion_count = 0, sh_maximum_current_loop_completions_per_release = 0,
     sh_metrics = (\<lambda>_. \<lparr>me_total_cycles = 0, me_maximum_cycles = 0\<rparr>)\<rparr>"

definition runtime_profile_arm :: "runtime_profile \<Rightarrow> bool \<times> runtime_profile" where
  "runtime_profile_arm p =
     (if rf_armed p then (False, p)
      else (True, p\<lparr>rf_snapshot := armed_snapshot, rf_pended_valid := False,
              rf_release_active := False, rf_armed := True\<rparr>))"

definition runtime_profile_is_armed :: "runtime_profile \<Rightarrow> bool" where
  "runtime_profile_is_armed p = rf_armed p"

definition runtime_profile_deferred_pended :: "u32 \<Rightarrow> runtime_profile \<Rightarrow> runtime_profile" where
  "runtime_profile_deferred_pended cycle_count p =
     (if rf_armed p \<and> \<not> rf_pended_valid p
      then p\<lparr>rf_pended_cycle_count := cycle_count, rf_pended_valid := True\<rparr> else p)"

definition runtime_profile_pendsv_begin ::
  "u32 \<Rightarrow> u32 \<Rightarrow> runtime_profile \<Rightarrow> bool \<times> runtime_profile" where
  "runtime_profile_pendsv_begin cycle_count current_loop_completion_count p =
     (if \<not> rf_armed p \<or> rf_release_active p then (False, p)
      else
        let pended = (rf_pended_valid p \<and> 0 \<le> sint (cycle_count - rf_pended_cycle_count p));
            p = p\<lparr>rf_release_active := True, rf_release_pended_valid := pended\<rparr>;
            p = (if pended then p\<lparr>rf_release_pended_cycle_count := rf_pended_cycle_count p,
                                   rf_pended_valid := False\<rparr> else p)
        in (True, p\<lparr>rf_callback_valid := False, rf_decode_valid := False,
              rf_estimator_valid := False, rf_control_valid := False,
              rf_callback_complete_valid := False, rf_pendsv_entry_cycle_count := cycle_count,
              rf_current_loop_completion_count := current_loop_completion_count\<rparr>))"

definition runtime_profile_release_active :: "runtime_profile \<Rightarrow> bool" where
  "runtime_profile_release_active p = rf_release_active p"

definition runtime_profile_callback_begin :: "u32 \<Rightarrow> runtime_profile \<Rightarrow> runtime_profile" where
  "runtime_profile_callback_begin cycle_count p =
     (if rf_release_active p
      then p\<lparr>rf_callback_cycle_count := cycle_count, rf_callback_valid := True\<rparr> else p)"

definition runtime_profile_encoder_decode_complete :: "u32 \<Rightarrow> runtime_profile \<Rightarrow>
  runtime_profile" where
  "runtime_profile_encoder_decode_complete cycle_count p =
     (if rf_release_active p \<and> rf_callback_valid p
      then p\<lparr>rf_decode_cycle_count := cycle_count, rf_decode_valid := True\<rparr> else p)"

definition runtime_profile_estimator_complete :: "u32 \<Rightarrow> runtime_profile \<Rightarrow> runtime_profile" where
  "runtime_profile_estimator_complete cycle_count p =
     (if rf_release_active p \<and> rf_decode_valid p
      then p\<lparr>rf_estimator_cycle_count := cycle_count, rf_estimator_valid := True\<rparr> else p)"

definition runtime_profile_control_complete :: "u32 \<Rightarrow> runtime_profile \<Rightarrow> runtime_profile" where
  "runtime_profile_control_complete cycle_count p =
     (if rf_release_active p \<and> rf_estimator_valid p
      then p\<lparr>rf_control_cycle_count := cycle_count, rf_control_valid := True\<rparr> else p)"

definition runtime_profile_callback_complete :: "u32 \<Rightarrow> runtime_profile \<Rightarrow> runtime_profile" where
  "runtime_profile_callback_complete cycle_count p =
     (if rf_release_active p \<and> rf_control_valid p
      then p\<lparr>rf_callback_complete_cycle_count := cycle_count, rf_callback_complete_valid := True\<rparr>
      else p)"

text \<open>The stages of the release that were all seen.\<close>

definition release_complete :: "runtime_profile \<Rightarrow> bool" where
  "release_complete p \<longleftrightarrow> rf_release_pended_valid p \<and> rf_callback_valid p \<and> rf_decode_valid p \<and>
     rf_estimator_valid p \<and> rf_control_valid p \<and> rf_callback_complete_valid p"

definition record_release :: "u32 \<Rightarrow> runtime_profile \<Rightarrow> runtime_profile_snapshot \<Rightarrow>
  runtime_profile_snapshot" where
  "record_release cycle_count p snapshot =
     record_metric RUNTIME_PROFILE_METRIC_PENDSV_TOTAL (cycle_count - rf_pendsv_entry_cycle_count p)
     (record_metric RUNTIME_PROFILE_METRIC_PUBLICATION
       (rf_callback_complete_cycle_count p - rf_control_cycle_count p)
     (record_metric RUNTIME_PROFILE_METRIC_CONTROL
       (rf_control_cycle_count p - rf_estimator_cycle_count p)
     (record_metric RUNTIME_PROFILE_METRIC_ESTIMATOR
       (rf_estimator_cycle_count p - rf_decode_cycle_count p)
     (record_metric RUNTIME_PROFILE_METRIC_ENCODER_DECODE
       (rf_decode_cycle_count p - rf_callback_cycle_count p)
     (record_metric RUNTIME_PROFILE_METRIC_DISPATCH
       (rf_callback_cycle_count p - rf_pendsv_entry_cycle_count p)
     (record_metric RUNTIME_PROFILE_METRIC_PEND_TO_ENTRY
       (rf_pendsv_entry_cycle_count p - rf_release_pended_cycle_count p) snapshot))))))"

definition count_completions :: "u32 \<Rightarrow> runtime_profile_snapshot \<Rightarrow> runtime_profile_snapshot" where
  "count_completions completions snapshot = snapshot\<lparr>
     sh_current_loop_completion_count :=
       saturating_add_u32 (sh_current_loop_completion_count snapshot) completions,
     sh_maximum_current_loop_completions_per_release :=
       (if ucast (sh_maximum_current_loop_completions_per_release snapshot) < completions
        then profile_saturate_u16 completions
        else sh_maximum_current_loop_completions_per_release snapshot)\<rparr>"

definition runtime_profile_pendsv_complete :: "u32 \<Rightarrow> u32 \<Rightarrow> runtime_profile \<Rightarrow> runtime_profile" where
  "runtime_profile_pendsv_complete cycle_count current_loop_completion_count p =
     (if \<not> rf_release_active p then p
      else
        let snapshot = count_completions
              (current_loop_completion_count - rf_current_loop_completion_count p) (rf_snapshot p);
            snapshot = (if release_complete p then record_release cycle_count p snapshot
              else snapshot\<lparr>sh_incomplete_release_count :=
                saturating_increment_u16 (sh_incomplete_release_count snapshot)\<rparr>);
            snapshot = snapshot\<lparr>sh_captured_release_count :=
              saturating_increment_u16 (sh_captured_release_count snapshot)\<rparr>;
            p = p\<lparr>rf_release_active := False\<rparr>
        in if RUNTIME_PROFILE_TARGET_RELEASE_COUNT \<le> sh_captured_release_count snapshot
           then p\<lparr>rf_snapshot := snapshot\<lparr>sh_state := RUNTIME_PROFILE_STATE_COMPLETE\<rparr>,
                   rf_armed := False, rf_pended_valid := False\<rparr>
           else p\<lparr>rf_snapshot := snapshot\<rparr>)"

definition runtime_profile_foreground_complete :: "u32 \<Rightarrow> u32 \<Rightarrow> runtime_profile \<Rightarrow>
  runtime_profile" where
  "runtime_profile_foreground_complete start_cycle_count end_cycle_count p =
     (if \<not> rf_armed p then p
      else let snapshot = record_metric RUNTIME_PROFILE_METRIC_FOREGROUND
                 (end_cycle_count - start_cycle_count) (rf_snapshot p)
           in p\<lparr>rf_snapshot := snapshot\<lparr>sh_foreground_sample_count :=
                saturating_increment_u16 (sh_foreground_sample_count snapshot)\<rparr>\<rparr>)"

definition runtime_profile_get_snapshot ::
  "runtime_profile_snapshot ptr \<Rightarrow> runtime_profile \<Rightarrow> bool \<times> runtime_profile_snapshot ptr" where
  "runtime_profile_get_snapshot snapshot p =
     (if snapshot = None \<or> rf_armed p \<or> sh_state (rf_snapshot p) \<noteq> RUNTIME_PROFILE_STATE_COMPLETE
      then (False, snapshot) else (True, Some (rf_snapshot p)))"

section \<open>Any sequence of calls\<close>

datatype profile_call = Profile_Arm | Deferred_Pended u32 | Pendsv_Begin u32 u32 | Callback_Begin
  u32
  | Decode_Complete u32 | Estimator_Complete u32 | Control_Complete u32 | Callback_Complete u32
  | Pendsv_Complete u32 u32 | Foreground_Complete u32 u32

fun call_profile :: "runtime_profile \<Rightarrow> profile_call \<Rightarrow> runtime_profile" where
  "call_profile p Profile_Arm = snd (runtime_profile_arm p)"
| "call_profile p (Deferred_Pended c) = runtime_profile_deferred_pended c p"
| "call_profile p (Pendsv_Begin c n) = snd (runtime_profile_pendsv_begin c n p)"
| "call_profile p (Callback_Begin c) = runtime_profile_callback_begin c p"
| "call_profile p (Decode_Complete c) = runtime_profile_encoder_decode_complete c p"
| "call_profile p (Estimator_Complete c) = runtime_profile_estimator_complete c p"
| "call_profile p (Control_Complete c) = runtime_profile_control_complete c p"
| "call_profile p (Callback_Complete c) = runtime_profile_callback_complete c p"
| "call_profile p (Pendsv_Complete c n) = runtime_profile_pendsv_complete c n p"
| "call_profile p (Foreground_Complete a b) = runtime_profile_foreground_complete a b p"

text \<open>
  The foreground is not masked: an interrupt may come between its test of the armed flag and its
  stores, and complete the profile there. The two write different figures, so this is the same as
  the foreground call done first, and a call is one step. The delivered snapshot is read by the
  foreground too, after such a call has ended.
\<close>

definition foreground_figures :: "u32 \<Rightarrow> runtime_profile_snapshot \<Rightarrow> runtime_profile_snapshot" where
  "foreground_figures cycles snapshot =
     (record_metric RUNTIME_PROFILE_METRIC_FOREGROUND cycles snapshot)\<lparr>sh_foreground_sample_count :=
        saturating_increment_u16 (sh_foreground_sample_count snapshot)\<rparr>"

lemma foreground_is_figures:
  "runtime_profile_foreground_complete a b p =
     (if rf_armed p then p\<lparr>rf_snapshot := foreground_figures (b - a) (rf_snapshot p)\<rparr> else p)"
  by (simp add: runtime_profile_foreground_complete_def foreground_figures_def record_metric_def
    Let_def)

lemma figures_commute:
  "i \<noteq> RUNTIME_PROFILE_METRIC_FOREGROUND \<Longrightarrow>
     record_metric i n (foreground_figures cycles s) = foreground_figures cycles (record_metric i n
       s)"
  "count_completions n (foreground_figures cycles s) = foreground_figures cycles (count_completions
    n s)"
  by (simp_all add: foreground_figures_def record_metric_def count_completions_def Let_def
    fun_upd_twist)

lemma foreground_preempted:
  assumes "e \<noteq> Profile_Arm" "\<And>a b. e \<noteq> Foreground_Complete a b"
  shows "(call_profile p e)\<lparr>rf_snapshot := foreground_figures cycles (rf_snapshot (call_profile p
    e))\<rparr>
       = call_profile (p\<lparr>rf_snapshot := foreground_figures cycles (rf_snapshot p)\<rparr>) e"
proof (cases e)
  case (Pendsv_Complete c n)
  have "record_release c (p\<lparr>rf_snapshot := t\<rparr>) (foreground_figures cycles s)
      = foreground_figures cycles (record_release c p s)" for s t
    by (simp add: record_release_def figures_commute)
  moreover have "release_complete (p\<lparr>rf_snapshot := t\<rparr>) = release_complete p" for t
    by (simp add: release_complete_def)
  moreover have "sh_captured_release_count (foreground_figures cycles s) =
    sh_captured_release_count s"
    "sh_incomplete_release_count (foreground_figures cycles s) = sh_incomplete_release_count s"
    "(foreground_figures cycles s)\<lparr>sh_incomplete_release_count := u\<rparr>
       = foreground_figures cycles (s\<lparr>sh_incomplete_release_count := u\<rparr>)"
    "(foreground_figures cycles s)\<lparr>sh_captured_release_count := u\<rparr>
       = foreground_figures cycles (s\<lparr>sh_captured_release_count := u\<rparr>)"
    "(foreground_figures cycles s)\<lparr>sh_state := v\<rparr> = foreground_figures cycles (s\<lparr>sh_state :=
      v\<rparr>)" for s u v
    by (simp_all add: foreground_figures_def record_metric_def Let_def)
  ultimately show ?thesis
    using Pendsv_Complete by (simp add: runtime_profile_pendsv_complete_def Let_def figures_commute)
qed (use assms in \<open>simp_all add: runtime_profile_deferred_pended_def
  runtime_profile_pendsv_begin_def
    runtime_profile_callback_begin_def runtime_profile_encoder_decode_complete_def
    runtime_profile_estimator_complete_def runtime_profile_control_complete_def
    runtime_profile_callback_complete_def Let_def\<close>)

text \<open>
  What holds of the profile after power-up: while armed fewer than 256 releases are captured, no
  more releases are incomplete than captured, and a release is only open while armed; afterwards
  exactly 256 are captured.
\<close>

definition profile_ok :: "runtime_profile \<Rightarrow> bool" where
  "profile_ok p \<longleftrightarrow> (let s = rf_snapshot p in
     (rf_armed p \<longleftrightarrow> sh_state s = RUNTIME_PROFILE_STATE_ARMED) \<and> (rf_release_active p \<longrightarrow> rf_armed p) \<and>
     (rf_armed p \<longrightarrow> unat (sh_captured_release_count s) < 256) \<and>
     (sh_state s = RUNTIME_PROFILE_STATE_COMPLETE \<longrightarrow> unat (sh_captured_release_count s) = 256) \<and>
     unat (sh_incomplete_release_count s) \<le> unat (sh_captured_release_count s))"

lemma increment_unat: "unat x < 65535 \<Longrightarrow> unat (saturating_increment_u16 x) = unat x + 1"
  using unat_plus_if' [of x 1] by (auto simp: saturating_increment_u16_def)

lemma record_metric_counts [simp]:
  "sh_state (record_metric i n s) = sh_state s"
  "sh_captured_release_count (record_metric i n s) = sh_captured_release_count s"
  "sh_incomplete_release_count (record_metric i n s) = sh_incomplete_release_count s"
  by (simp_all add: record_metric_def Let_def)

lemma record_release_counts [simp]:
  "sh_state (record_release c p s) = sh_state s"
  "sh_captured_release_count (record_release c p s) = sh_captured_release_count s"
  "sh_incomplete_release_count (record_release c p s) = sh_incomplete_release_count s"
  by (simp_all add: record_release_def)

lemma count_completions_counts [simp]:
  "sh_state (count_completions n s) = sh_state s"
  "sh_captured_release_count (count_completions n s) = sh_captured_release_count s"
  "sh_incomplete_release_count (count_completions n s) = sh_incomplete_release_count s"
  by (simp_all add: count_completions_def)

text \<open>A completed release is captured once, and the 256th completes the profile.\<close>

lemma pendsv_complete_counts:
  fixes c n
  assumes "profile_ok p" "rf_release_active p"
  defines "q \<equiv> runtime_profile_pendsv_complete c n p"
  shows "unat (sh_captured_release_count (rf_snapshot q)) =
    unat (sh_captured_release_count (rf_snapshot p)) + 1"
    "unat (sh_incomplete_release_count (rf_snapshot q)) =
       unat (sh_incomplete_release_count (rf_snapshot p)) + (if release_complete p then 0 else 1)"
    "rf_armed q \<longleftrightarrow> unat (sh_captured_release_count (rf_snapshot p)) + 1 < 256"
    "sh_state (rf_snapshot q) = (if unat (sh_captured_release_count (rf_snapshot p)) + 1 < 256
       then RUNTIME_PROFILE_STATE_ARMED else RUNTIME_PROFILE_STATE_COMPLETE)"
    "\<not> rf_release_active q"
proof -
  let ?s = "rf_snapshot p"
  have b: "unat (sh_captured_release_count ?s) < 256" "unat (sh_incomplete_release_count ?s) < 256"
    "sh_state ?s = RUNTIME_PROFILE_STATE_ARMED" "rf_armed p"
    using assms(1,2) by (auto simp: profile_ok_def Let_def)
  then have i: "unat (saturating_increment_u16 (sh_captured_release_count ?s)) =
    unat (sh_captured_release_count ?s) + 1"
    "unat (saturating_increment_u16 (sh_incomplete_release_count ?s)) =
      unat (sh_incomplete_release_count ?s) + 1"
    by (simp_all add: increment_unat)
  have le: "RUNTIME_PROFILE_TARGET_RELEASE_COUNT \<le> saturating_increment_u16
    (sh_captured_release_count ?s) \<longleftrightarrow>
      \<not> unat (sh_captured_release_count ?s) + 1 < 256"
    using i(1) by (simp add: RUNTIME_PROFILE_TARGET_RELEASE_COUNT_def word_le_nat_alt not_less)
  show "unat (sh_captured_release_count (rf_snapshot q)) = unat (sh_captured_release_count ?s) + 1"
    "unat (sh_incomplete_release_count (rf_snapshot q)) =
       unat (sh_incomplete_release_count ?s) + (if release_complete p then 0 else 1)"
    "rf_armed q \<longleftrightarrow> unat (sh_captured_release_count ?s) + 1 < 256"
    "sh_state (rf_snapshot q) = (if unat (sh_captured_release_count ?s) + 1 < 256
       then RUNTIME_PROFILE_STATE_ARMED else RUNTIME_PROFILE_STATE_COMPLETE)"
    "\<not> rf_release_active q"
    using assms(2) b i le by (simp_all add: q_def runtime_profile_pendsv_complete_def Let_def)
qed

lemma call_profile_ok:
  assumes "profile_ok p"
  shows "profile_ok (call_profile p e)"
proof (cases e)
  case (Pendsv_Complete c n)
  show ?thesis
  proof (cases "rf_release_active p")
    case True
    from pendsv_complete_counts [OF assms True, of c n] assms True show ?thesis
      by (auto simp: Pendsv_Complete profile_ok_def Let_def)
  qed (use assms in \<open>simp add: Pendsv_Complete runtime_profile_pendsv_complete_def\<close>)
qed (use assms in \<open>auto simp: profile_ok_def Let_def armed_snapshot_def runtime_profile_arm_def
    runtime_profile_deferred_pended_def runtime_profile_pendsv_begin_def
      runtime_profile_callback_begin_def
    runtime_profile_encoder_decode_complete_def runtime_profile_estimator_complete_def
    runtime_profile_control_complete_def runtime_profile_callback_complete_def
    runtime_profile_foreground_complete_def\<close>)

interpretation profile_run: invariant_machine call_profile profile_ok
  by unfold_locales (rule call_profile_ok)

text \<open>A complete profile is frozen until it is armed.\<close>

definition profile_frozen :: "runtime_profile_snapshot \<Rightarrow> runtime_profile \<Rightarrow> bool" where
  "profile_frozen s p \<longleftrightarrow> profile_ok p \<and> \<not> rf_armed p \<and> rf_snapshot p = s"

lemma frozen_step: "profile_frozen s p \<Longrightarrow> e \<noteq> Profile_Arm \<Longrightarrow> profile_frozen s (call_profile p e)"
  using call_profile_ok [of p e]
  by (cases e) (auto simp: profile_frozen_def profile_ok_def Let_def
    runtime_profile_deferred_pended_def
    runtime_profile_pendsv_begin_def runtime_profile_callback_begin_def
    runtime_profile_encoder_decode_complete_def runtime_profile_estimator_complete_def
    runtime_profile_control_complete_def runtime_profile_callback_complete_def
    runtime_profile_foreground_complete_def runtime_profile_pendsv_complete_def)

interpretation profile_latch: latching_machine call_profile "profile_frozen s" "\<lambda>e. e =
  Profile_Arm" for s
  by unfold_locales (rule frozen_step)

text \<open>
  The specification: whether a release is open, and the number of releases that began and were
  completed.
\<close>

fun track_release :: "bool \<times> nat \<Rightarrow> profile_call \<Rightarrow> bool \<times> nat" where
  "track_release (opened, n) (Pendsv_Begin c k) = (True, n)"
| "track_release (opened, n) (Pendsv_Complete c k) = (False, if opened then n + 1 else n)"
| "track_release (opened, n) _ = (opened, n)"

definition releases_completed :: "profile_call list \<Rightarrow> nat" where
  "releases_completed es = snd (foldl track_release (False, 0) es)"

definition abs_profile :: "runtime_profile \<Rightarrow> bool \<times> nat" where
  "abs_profile p = (rf_release_active p, unat (sh_captured_release_count (rf_snapshot p)))"

lemma track_grows: "snd x \<le> snd (track_release x e)"
  by (cases x; cases e) simp_all

text \<open>An armed profile refines the specification until the 256th release, which completes it.\<close>

lemma call_profile_refines:
  assumes "profile_ok p" "rf_armed p" "e \<noteq> Profile_Arm"
  shows "if snd (track_release (abs_profile p) e) < 256
     then rf_armed (call_profile p e) \<and> abs_profile (call_profile p e) =
       track_release (abs_profile p) e
     else sh_state (rf_snapshot (call_profile p e)) = RUNTIME_PROFILE_STATE_COMPLETE"
proof -
  have b: "unat (sh_captured_release_count (rf_snapshot p))
    < 256" using assms by (simp add: profile_ok_def Let_def)
  show ?thesis
  proof (cases e)
    case (Pendsv_Complete c n)
    show ?thesis
    proof (cases "rf_release_active p")
      case True
      then show ?thesis using pendsv_complete_counts [OF assms(1) True, of c n]
        by (simp add: Pendsv_Complete abs_profile_def)
    qed (use b assms(2) in \<open>simp add: Pendsv_Complete abs_profile_def
      runtime_profile_pendsv_complete_def\<close>)
  qed (use b assms(2,3) in \<open>simp_all add: abs_profile_def Let_def
    runtime_profile_deferred_pended_def
      runtime_profile_pendsv_begin_def runtime_profile_callback_begin_def
      runtime_profile_encoder_decode_complete_def runtime_profile_estimator_complete_def
      runtime_profile_control_complete_def runtime_profile_callback_complete_def
      runtime_profile_foreground_complete_def record_metric_def\<close>)
qed

lemma profile_refines:
  assumes "profile_ok p" "rf_armed p" "abs_profile p = (False, 0)" "Profile_Arm \<notin> set es"
  defines "q \<equiv> foldl call_profile p es"
  shows "if releases_completed es < 256 then rf_armed q \<and> abs_profile q =
    foldl track_release (False, 0) es
     else \<not> rf_armed q \<and> sh_state (rf_snapshot q) = RUNTIME_PROFILE_STATE_COMPLETE"
  using assms(4) unfolding q_def
proof (induction es rule: rev_induct)
  case Nil
  then show ?case using assms(2,3) by (simp add: releases_completed_def)
next
  case (snoc e es)
  let ?q = "foldl call_profile p es" and ?t = "foldl track_release (False, 0) es"
  have ok: "profile_ok ?q" "profile_ok (call_profile ?q e)"
    using profile_run.run_inv [OF assms(1), of es] call_profile_ok by blast+
  have e: "e \<noteq> Profile_Arm" "Profile_Arm \<notin> set es" using snoc.prems by auto
  note ih = snoc.IH [OF e(2)]
  have t: "releases_completed (es @ [e]) = snd (track_release ?t e)" "releases_completed es =
    snd ?t"
    by (simp_all add: releases_completed_def)
  show ?case
  proof (cases "releases_completed es < 256")
    case True
    with ih have q: "rf_armed ?q" "abs_profile ?q = ?t" by simp_all
    from call_profile_refines [OF ok(1) q(1) e(1)] q(2) ok(2) show ?thesis
      by (auto simp: t profile_ok_def Let_def)
  next
    case False
    then have "256 \<le> releases_completed (es @ [e])" using track_grows [of ?t e] t by simp
    moreover have "profile_frozen (rf_snapshot ?q) (call_profile ?q e)"
      using frozen_step [OF _ e(1)] ih False ok(1) by (simp add: profile_frozen_def)
    ultimately show ?thesis using ih False by (simp add: profile_frozen_def)
  qed
qed

text \<open>
  C40. A profile run captures exactly 256 releases. After a successful arming, and whatever calls
  follow (without a second arming), the snapshot is delivered if and only if at least 256 releases
  have begun and completed, it then holds exactly 256 of them, of which the incomplete ones are a
  part, and it no longer changes.
\<close>

theorem profile_captures_256:
  assumes "runtime_profile_arm p = (True, p0)" and "Profile_Arm \<notin> set es" "Profile_Arm \<notin> set fs"
    and "foldl call_profile p0 es = q"
  shows "(fst (runtime_profile_get_snapshot (Some s0) q) \<longleftrightarrow> 256 \<le> releases_completed es) \<and>
     (256 \<le> releases_completed es \<longrightarrow> (\<exists>s. runtime_profile_get_snapshot (Some s0) q = (True, Some s) \<and>
        unat (sh_captured_release_count s) = 256 \<and> unat (sh_incomplete_release_count s) \<le> 256 \<and>
        runtime_profile_get_snapshot (Some s0) (foldl call_profile q fs) = (True, Some s)))"
proof -
  have p0: "p0 = p\<lparr>rf_snapshot := armed_snapshot, rf_pended_valid := False, rf_release_active :=
    False, rf_armed := True\<rparr>"
    using assms(1) by (auto simp: runtime_profile_arm_def split: if_splits)
  then have ok: "profile_ok p0" "rf_armed p0" "abs_profile p0 = (False, 0)"
    by (simp_all add: profile_ok_def abs_profile_def armed_snapshot_def Let_def)
  note r = profile_refines [OF ok assms(2), unfolded assms(4)]
  have okq: "profile_ok q" using profile_run.run_inv [OF ok(1), of es] assms(4) by simp
  show ?thesis
  proof (cases "releases_completed es < 256")
    case True
    then show ?thesis using r by (simp add: runtime_profile_get_snapshot_def)
  next
    case False
    then have q: "\<not> rf_armed q" "sh_state (rf_snapshot q) =
      RUNTIME_PROFILE_STATE_COMPLETE" using r by simp_all
    have "profile_frozen (rf_snapshot q) (foldl call_profile q fs)"
      by (rule profile_latch.latched_run) (use q(1) okq assms(3)
        in \<open>auto simp: profile_frozen_def list_all_iff\<close>)
    then show ?thesis using False q okq by (auto simp: runtime_profile_get_snapshot_def
      profile_frozen_def profile_ok_def Let_def)
  qed
qed

definition idle_profile :: runtime_profile where
  "idle_profile = \<lparr>rf_snapshot = armed_snapshot\<lparr>sh_state := RUNTIME_PROFILE_STATE_IDLE\<rparr>, rf_armed =
    False,
     rf_pended_valid = False, rf_release_active = False, rf_release_pended_valid = False,
     rf_callback_valid = False, rf_decode_valid = False, rf_estimator_valid = False,
     rf_control_valid = False, rf_callback_complete_valid = False, rf_pended_cycle_count = 0,
     rf_release_pended_cycle_count = 0, rf_pendsv_entry_cycle_count = 0, rf_callback_cycle_count =
       0,
     rf_decode_cycle_count = 0, rf_estimator_cycle_count = 0, rf_control_cycle_count = 0,
     rf_callback_complete_cycle_count = 0, rf_current_loop_completion_count = 0\<rparr>"

lemma repeated_releases:
  "foldl track_release (False, k) (concat (replicate n [Pendsv_Begin a b, Pendsv_Complete c d])) =
    (False, k + n)"
  by (induction n arbitrary: k) simp_all

theorem profile_captures_256_witness:
  "\<exists>s. runtime_profile_get_snapshot (Some armed_snapshot)
    (foldl call_profile (snd (runtime_profile_arm idle_profile))
       (concat (replicate 256 [Pendsv_Begin 1 2, Pendsv_Complete 3 4]))) = (True, Some s) \<and>
     unat (sh_captured_release_count s) = 256"
proof -
  let ?es = "concat (replicate 256 [Pendsv_Begin 1 2, Pendsv_Complete 3 4])"
  have arm: "runtime_profile_arm idle_profile = (True, snd (runtime_profile_arm idle_profile))"
    by (simp add: runtime_profile_arm_def idle_profile_def)
  have n: "Profile_Arm \<notin> set ?es" by auto
  have "releases_completed ?es = 256" using repeated_releases [of 0 256 1 2 3 4] by (simp only:
    releases_completed_def) simp
  with profile_captures_256 [OF arm n, of "[]" _ armed_snapshot, OF _ refl] show ?thesis by auto
qed

end
