(* ===== verification/Rotor_Runtime.thy ===== *)
theory Rotor_Runtime
  imports Backend_Faults Alignment_Controller Aligned_Torque Velocity_Controller
    Position_Controller Angle_Tracker Mt6816 Runtime_Profile
begin

text \<open>
  The rotor control runtime, \<open>firmware/src/app/rotor_control_runtime.c\<close>: it owns the estimator, the
  motor alignment and the four controllers of the cascade, takes requests from the foreground, and
  runs one controller per encoder sample in the deferred SPI callback, over the current loop
  backend. The state of the system is the runtime together with the backend (record
  \<open>rotor_system\<close>). The millisecond clock and the cycle counter are read through parameters. The
  foreground functions mask the callback around their accesses, so that each call is one step; the
  reading of a snapshot, which the callback may interrupt, spins while the sequence number is odd.
\<close>

section \<open>Data\<close>

datatype spi_status = SPI_STATUS_OK | SPI_STATUS_INVALID_ARGUMENT | SPI_STATUS_NOT_READY
  | SPI_STATUS_BUS_BUSY | SPI_STATUS_TRANSMIT_TIMEOUT | SPI_STATUS_RECEIVE_TIMEOUT
  | SPI_STATUS_COMPLETE_TIMEOUT | SPI_STATUS_PERIPHERAL_ERROR

definition ROTOR_CONTROL_EVENT_NONE :: u32 where "ROTOR_CONTROL_EVENT_NONE = 0"
definition ROTOR_CONTROL_EVENT_AUTHORITY_RELEASED :: u32 where
  "ROTOR_CONTROL_EVENT_AUTHORITY_RELEASED = 1"
definition ROTOR_CONTROL_EVENT_ALIGNMENT_COMPLETED :: u32 where
  "ROTOR_CONTROL_EVENT_ALIGNMENT_COMPLETED = 2"
definition ROTOR_CONTROL_EVENT_FAULT :: u32 where "ROTOR_CONTROL_EVENT_FAULT = 4"

definition ROTOR_CONTROL_FAULT_SOURCE_ESTIMATOR :: u32 where
  "ROTOR_CONTROL_FAULT_SOURCE_ESTIMATOR = 1"
definition ROTOR_CONTROL_FAULT_SOURCE_ALIGNMENT :: u32 where
  "ROTOR_CONTROL_FAULT_SOURCE_ALIGNMENT = 2"
definition ROTOR_CONTROL_FAULT_SOURCE_ALIGNED_TORQUE :: u32 where
  "ROTOR_CONTROL_FAULT_SOURCE_ALIGNED_TORQUE = 4"
definition ROTOR_CONTROL_FAULT_SOURCE_VELOCITY :: u32 where
  "ROTOR_CONTROL_FAULT_SOURCE_VELOCITY = 8"
definition ROTOR_CONTROL_FAULT_SOURCE_POSITION :: u32 where
  "ROTOR_CONTROL_FAULT_SOURCE_POSITION = 16"

definition ROTOR_CONTROL_ACTIVE_NONE :: u32 where "ROTOR_CONTROL_ACTIVE_NONE = 0"
definition ROTOR_CONTROL_ACTIVE_ALIGNMENT :: u32 where "ROTOR_CONTROL_ACTIVE_ALIGNMENT = 1"
definition ROTOR_CONTROL_ACTIVE_ALIGNED_TORQUE :: u32 where
  "ROTOR_CONTROL_ACTIVE_ALIGNED_TORQUE = 2"
definition ROTOR_CONTROL_ACTIVE_VELOCITY :: u32 where "ROTOR_CONTROL_ACTIVE_VELOCITY = 4"
definition ROTOR_CONTROL_ACTIVE_POSITION :: u32 where "ROTOR_CONTROL_ACTIVE_POSITION = 8"

definition ROTOR_CONTROL_REQUEST_ALIGNMENT :: u32 where "ROTOR_CONTROL_REQUEST_ALIGNMENT = 1"
definition ROTOR_CONTROL_REQUEST_TORQUE :: u32 where "ROTOR_CONTROL_REQUEST_TORQUE = 2"
definition ROTOR_CONTROL_REQUEST_STOP :: u32 where "ROTOR_CONTROL_REQUEST_STOP = 4"
definition ROTOR_CONTROL_REQUEST_VELOCITY :: u32 where "ROTOR_CONTROL_REQUEST_VELOCITY = 8"
definition ROTOR_CONTROL_REQUEST_POSITION :: u32 where "ROTOR_CONTROL_REQUEST_POSITION = 16"
definition ROTOR_CONTROL_ESTIMATOR_FAULT_INVALID_SAMPLE :: u32 where
  "ROTOR_CONTROL_ESTIMATOR_FAULT_INVALID_SAMPLE = 1"
definition ROTOR_CONTROL_MT6816_RESPONSE_LENGTH :: u32 where
  "ROTOR_CONTROL_MT6816_RESPONSE_LENGTH = 4"
definition ROTOR_CONTROL_FULL_SNAPSHOT_PERIOD_US :: u32 where
  "ROTOR_CONTROL_FULL_SNAPSHOT_PERIOD_US = 10000"

lemmas rotor_constants = ROTOR_CONTROL_EVENT_NONE_def ROTOR_CONTROL_EVENT_AUTHORITY_RELEASED_def
  ROTOR_CONTROL_EVENT_ALIGNMENT_COMPLETED_def ROTOR_CONTROL_EVENT_FAULT_def
  ROTOR_CONTROL_REQUEST_ALIGNMENT_def ROTOR_CONTROL_REQUEST_TORQUE_def
  ROTOR_CONTROL_REQUEST_STOP_def ROTOR_CONTROL_REQUEST_VELOCITY_def
  ROTOR_CONTROL_REQUEST_POSITION_def

record diagnostics_encoder =
  de_status :: mt6816_status
  de_transport_status :: spi_status
  de_angle_raw :: u32
  de_flags :: u32
  de_sample_count :: u32
  de_error_count :: u32
  de_last_attempt_millis :: u32

record diagnostics_encoder_error =
  dx_last_error_status :: mt6816_status
  dx_last_error_transport_status :: spi_status
  dx_last_error_response_length :: u32
  dx_last_error_register_03 :: u32
  dx_last_error_register_04 :: u32
  dx_last_error_register_05 :: u32
  dx_last_error_timestamp_us :: u32

record rotor_control_progress_snapshot =
  ry_encoder_diagnostics :: diagnostics_encoder
  ry_estimator_position_revolutions :: f32
  ry_estimator_velocity_revolutions_per_second :: f32
  ry_estimator_timestamp_us :: u32
  ry_estimator_fault_flags :: u32
  ry_active_control_flags :: u32
  ry_estimator_initialized :: u32
  ry_full_snapshot_sequence :: u32

record rotor_control_snapshot =
  rz_encoder_diagnostics :: diagnostics_encoder
  rz_observation :: rotor_observation
  rz_angle_tracker :: angle_tracker
  rz_motor_alignment :: motor_alignment
  rz_alignment_controller :: alignment_controller
  rz_torque_controller :: aligned_torque_controller
  rz_velocity_controller :: velocity_controller
  rz_position_controller :: position_controller
  rz_estimator_fault_flags :: u32
  rz_estimator_sample_interval_us :: u32
  rz_estimator_maximum_sample_interval_us :: u32

record rotor_control_runtime =
  ru_angle_tracker :: angle_tracker
  ru_motor_alignment :: motor_alignment
  ru_alignment_controller :: alignment_controller
  ru_torque_controller :: aligned_torque_controller
  ru_velocity_controller :: velocity_controller
  ru_position_controller :: position_controller
  ru_encoder_diagnostics :: diagnostics_encoder
  ru_encoder_error_sequence :: u32
  ru_encoder_last_error :: diagnostics_encoder_error
  ru_estimator_fault_flags :: u32
  ru_estimator_sample_interval_us :: u32
  ru_estimator_maximum_sample_interval_us :: u32
  ru_progress_sequence :: u32
  ru_progress_published :: rotor_control_progress_snapshot
  ru_snapshot_sequence :: u32
  ru_published :: rotor_control_snapshot
  ru_last_full_snapshot_timestamp_us :: u32
  ru_full_snapshot_timestamp_valid :: bool
  ru_request_flags :: u32
  ru_requested_alignment_current_counts :: u16
  ru_requested_q_current_counts :: i16
  ru_requested_torque_duration_millis :: u32
  ru_requested_velocity_q16_16 :: i32
  ru_requested_velocity_acceleration_q16_16 :: i32
  ru_requested_velocity_current_limit_counts :: u16
  ru_requested_velocity_duration_millis :: u32
  ru_requested_position_displacement_q16_16 :: i32
  ru_requested_position_maximum_velocity_q16_16 :: i32
  ru_requested_position_maximum_acceleration_q16_16 :: i32
  ru_requested_position_current_limit_counts :: u16
  ru_requested_position_duration_millis :: u32
  ru_event_flags :: u32
  ru_initialized :: bool

record 'h rotor_system =
  sy_runtime :: rotor_control_runtime
  sy_backend :: "'h loop_backend"
  sy_profile :: runtime_profile

section \<open>Access\<close>

definition upd :: "(rotor_control_runtime \<Rightarrow> rotor_control_runtime) \<Rightarrow> 'h rotor_system \<Rightarrow>
  'h rotor_system" where
  "upd f y = y\<lparr>sy_runtime := f (sy_runtime y)\<rparr>"

definition on_backend ::
  "('h loop_backend \<Rightarrow> bool \<times> 'h loop_backend) \<Rightarrow> 'h rotor_system \<Rightarrow> bool \<times> 'h rotor_system" where
  "on_backend f y = (case f (sy_backend y) of (ok, b) \<Rightarrow> (ok, y\<lparr>sy_backend := b\<rparr>))"

definition force_low :: "'h platform \<Rightarrow> 'h rotor_system \<Rightarrow> 'h rotor_system" where
  "force_low pf y = y\<lparr>sy_backend := force_bridge_low pf (sy_backend y)\<rparr>"

definition raise_event :: "u32 \<Rightarrow> 'h rotor_system \<Rightarrow> 'h rotor_system" where
  "raise_event event = upd (\<lambda>r. r\<lparr>ru_event_flags := ru_event_flags r OR event\<rparr>)"

definition backend_stop :: "'h platform \<Rightarrow> 'h rotor_system \<Rightarrow> 'h rotor_system" where
  "backend_stop pf y = snd (on_backend (current_loop_backend_stop pf) y)"

text \<open>A chain of calls joined by \<open>||\<close> on their failure: it ends at the first that fails.\<close>

fun all_succeed ::
  "('h rotor_system \<Rightarrow> bool \<times> 'h rotor_system) list \<Rightarrow> 'h rotor_system \<Rightarrow> bool \<times> 'h rotor_system" where
  "all_succeed [] y = (True, y)"
| "all_succeed (f # fs) y = (case f y of (ok, y) \<Rightarrow> if ok then all_succeed fs y else (False, y))"

section \<open>Static functions\<close>

definition publish_aligned_q_reference ::
  "'h platform \<Rightarrow> aligned_torque_status \<Rightarrow> u32 \<Rightarrow> 'h rotor_system \<Rightarrow> bool \<times> 'h rotor_system" where
  "publish_aligned_q_reference pf status encoder_timestamp_us y =
     on_backend (current_loop_backend_set_aligned_q_reference pf (ts_applied_q_current_counts
       status)
       (ts_electrical_phase_q32 status) (ts_velocity_revolutions_per_second_q16_16 status)
       (ms_encoder_direction (ma_status (ru_motor_alignment (sy_runtime y)))) encoder_timestamp_us)
         y"

definition runtime_active :: "rotor_control_runtime \<Rightarrow> bool" where
  "runtime_active r \<longleftrightarrow> alignment_controller_is_active (Some (ru_alignment_controller r)) \<or>
     aligned_torque_controller_is_active (Some (ru_torque_controller r)) \<or>
     velocity_controller_is_active (Some (ru_velocity_controller r)) \<or>
     position_controller_is_active (Some (ru_position_controller r))"

definition runtime_observation :: "rotor_control_runtime \<Rightarrow> rotor_observation" where
  "runtime_observation r =
     \<lparr>ro_position_revolutions = at_position_revolutions (ru_angle_tracker r),
      ro_velocity_revolutions_per_second =
        at_velocity_revolutions_per_second (ru_angle_tracker r),
      ro_timestamp_us = at_last_timestamp_us (ru_angle_tracker r),
      ro_valid = (at_initialized (ru_angle_tracker r) \<and>
        de_status (ru_encoder_diagnostics r) = MT6816_STATUS_OK \<and>
        de_transport_status (ru_encoder_diagnostics r) = SPI_STATUS_OK \<and>
        de_flags (ru_encoder_diagnostics r) = 0 \<and> ru_estimator_fault_flags r = 0)\<rparr>"

definition runtime_active_control_flags :: "rotor_control_runtime \<Rightarrow> u32" where
  "runtime_active_control_flags r =
     (let flags = ROTOR_CONTROL_ACTIVE_NONE;
          flags = (if alignment_controller_is_active (Some (ru_alignment_controller r))
                   then flags OR ROTOR_CONTROL_ACTIVE_ALIGNMENT else flags);
          flags = (if aligned_torque_controller_is_active (Some (ru_torque_controller r))
                   then flags OR ROTOR_CONTROL_ACTIVE_ALIGNED_TORQUE else flags);
          flags = (if velocity_controller_is_active (Some (ru_velocity_controller r))
                   then flags OR ROTOR_CONTROL_ACTIVE_VELOCITY else flags);
          flags = (if position_controller_is_active (Some (ru_position_controller r))
                   then flags OR ROTOR_CONTROL_ACTIVE_POSITION else flags)
      in flags)"

definition publish_progress_snapshot :: "rotor_control_runtime \<Rightarrow> rotor_control_runtime" where
  "publish_progress_snapshot r = r\<lparr>
     ru_progress_sequence := ru_progress_sequence r + 1 + 1,
     ru_progress_published := \<lparr>
       ry_encoder_diagnostics = ru_encoder_diagnostics r,
       ry_estimator_position_revolutions = at_position_revolutions (ru_angle_tracker r),
       ry_estimator_velocity_revolutions_per_second =
         at_velocity_revolutions_per_second (ru_angle_tracker r),
       ry_estimator_timestamp_us = at_last_timestamp_us (ru_angle_tracker r),
       ry_estimator_fault_flags = ru_estimator_fault_flags r,
       ry_active_control_flags = runtime_active_control_flags r,
       ry_estimator_initialized = (if at_initialized (ru_angle_tracker r) then 1 else 0),
       ry_full_snapshot_sequence = ru_snapshot_sequence r\<rparr>\<rparr>"

definition publish_full_snapshot :: "rotor_control_runtime \<Rightarrow> rotor_control_runtime" where
  "publish_full_snapshot r = r\<lparr>
     ru_snapshot_sequence := ru_snapshot_sequence r + 1 + 1,
     ru_published := \<lparr>
       rz_encoder_diagnostics = ru_encoder_diagnostics r, rz_observation = runtime_observation r,
       rz_angle_tracker = ru_angle_tracker r, rz_motor_alignment = ru_motor_alignment r,
       rz_alignment_controller = ru_alignment_controller r,
       rz_torque_controller = ru_torque_controller r,
       rz_velocity_controller = ru_velocity_controller r,
       rz_position_controller = ru_position_controller r,
       rz_estimator_fault_flags = ru_estimator_fault_flags r,
       rz_estimator_sample_interval_us = ru_estimator_sample_interval_us r,
       rz_estimator_maximum_sample_interval_us = ru_estimator_maximum_sample_interval_us r\<rparr>\<rparr>"

definition publish_callback_state :: "u32 \<Rightarrow> bool \<Rightarrow> rotor_control_runtime \<Rightarrow>
  rotor_control_runtime" where
  "publish_callback_state timestamp_us force_full_snapshot r =
     publish_progress_snapshot
       (if force_full_snapshot \<or> \<not> ru_full_snapshot_timestamp_valid r \<or>
           ROTOR_CONTROL_FULL_SNAPSHOT_PERIOD_US
             \<le> timestamp_us - ru_last_full_snapshot_timestamp_us r
        then (publish_full_snapshot r)\<lparr>ru_last_full_snapshot_timestamp_us := timestamp_us,
               ru_full_snapshot_timestamp_valid := True\<rparr>
        else r)"

definition stop_backend :: "'h platform \<Rightarrow> u32 \<Rightarrow> 'h rotor_system \<Rightarrow> bool \<times> 'h rotor_system" where
  "stop_backend pf event y =
     (case on_backend (current_loop_backend_stop pf) y of (stopped, y) \<Rightarrow>
        if \<not> stopped then (False, raise_event ROTOR_CONTROL_EVENT_FAULT (force_low pf y))
        else if cb_fault_flags (sy_backend y) \<noteq> 0
        then (False, raise_event ROTOR_CONTROL_EVENT_FAULT (force_low pf y))
        else (True, raise_event event y))"

text \<open>The sequence that every failure of the runtime ends with.\<close>

definition stop_and_fault :: "'h platform \<Rightarrow> 'h rotor_system \<Rightarrow> 'h rotor_system" where
  "stop_and_fault pf y =
     raise_event ROTOR_CONTROL_EVENT_FAULT (force_low pf (backend_stop pf y))"

definition velocity_actuator_failed :: "u32 \<Rightarrow> rotor_control_runtime \<Rightarrow> rotor_control_runtime" where
  "velocity_actuator_failed now_millis r =
     r\<lparr>ru_velocity_controller := the (snd (velocity_controller_actuator_failed
       (Some (ru_velocity_controller r)) now_millis))\<rparr>"

definition position_actuator_failed :: "u32 \<Rightarrow> rotor_control_runtime \<Rightarrow> rotor_control_runtime" where
  "position_actuator_failed now_millis r =
     r\<lparr>ru_position_controller := the (snd (position_controller_actuator_failed
       (Some (ru_position_controller r)) now_millis))\<rparr>"

definition fail_velocity :: "u32 \<Rightarrow> rotor_control_runtime \<Rightarrow> rotor_control_runtime" where
  "fail_velocity now_millis r =
     (if velocity_controller_is_active (Some (ru_velocity_controller r))
      then velocity_actuator_failed now_millis r else r)"

definition fail_position :: "u32 \<Rightarrow> rotor_control_runtime \<Rightarrow> rotor_control_runtime" where
  "fail_position now_millis r =
     (if position_controller_is_active (Some (ru_position_controller r))
      then position_actuator_failed now_millis r else r)"

definition stop_torque :: "u32 \<Rightarrow> rotor_control_runtime \<Rightarrow> rotor_control_runtime" where
  "stop_torque now_millis r =
     (if aligned_torque_controller_is_active (Some (ru_torque_controller r))
      then r\<lparr>ru_torque_controller := the (snd (aligned_torque_controller_stop
             (Some (ru_torque_controller r)) now_millis))\<rparr>
      else r)"

definition stop_velocity :: "u32 \<Rightarrow> rotor_control_runtime \<Rightarrow> rotor_control_runtime" where
  "stop_velocity now_millis r =
     (if velocity_controller_is_active (Some (ru_velocity_controller r))
      then r\<lparr>ru_velocity_controller := the (snd (velocity_controller_stop
             (Some (ru_velocity_controller r)) now_millis))\<rparr>
      else r)"

definition stop_position :: "u32 \<Rightarrow> rotor_control_runtime \<Rightarrow> rotor_control_runtime" where
  "stop_position now_millis r =
     (if position_controller_is_active (Some (ru_position_controller r))
      then r\<lparr>ru_position_controller := the (snd (position_controller_stop
             (Some (ru_position_controller r)) now_millis))\<rparr>
      else r)"

definition abort_alignment :: "u32 \<Rightarrow> rotor_control_runtime \<Rightarrow> rotor_control_runtime" where
  "abort_alignment now_millis r = r\<lparr>ru_alignment_controller := the (alignment_controller_abort
     (Some (ru_alignment_controller r)) now_millis)\<rparr>"

definition fail_active_control :: "'h platform \<Rightarrow> u32 \<Rightarrow> u32 \<Rightarrow> 'h rotor_system \<Rightarrow>
  'h rotor_system" where
  "fail_active_control pf now_millis timestamp_us y =
     (if \<not> runtime_active (sy_runtime y) then y
      else
        let y = upd (abort_alignment now_millis \<circ> fail_position now_millis \<circ> fail_velocity
          now_millis) y;
            torque = ru_torque_controller (sy_runtime y);
            y = (if aligned_torque_controller_is_active (Some torque)
                 then upd (\<lambda>r. r\<lparr>ru_torque_controller := the (snd (aligned_torque_controller_update
                        (Some torque) now_millis timestamp_us False 0 0 (cb_active (sy_backend
                        y))))\<rparr>) y
                 else y)
        in stop_and_fault pf y)"

definition process_stop_request :: "'h platform \<Rightarrow> u32 \<Rightarrow> 'h rotor_system \<Rightarrow> 'h rotor_system" where
  "process_stop_request pf now_millis y =
     (let stopped = runtime_active (sy_runtime y);
          abort = (\<lambda>r. if alignment_controller_is_active (Some (ru_alignment_controller r))
                       then abort_alignment now_millis r else r);
          y = upd (stop_torque now_millis \<circ> stop_velocity now_millis \<circ> stop_position now_millis \<circ>
            abort) y
      in if stopped then snd (stop_backend pf ROTOR_CONTROL_EVENT_AUTHORITY_RELEASED y)
         else raise_event ROTOR_CONTROL_EVENT_AUTHORITY_RELEASED y)"

definition reject_requests_without_feedback ::
  "'h platform \<Rightarrow> u32 \<Rightarrow> u32 \<Rightarrow> 'h rotor_system \<Rightarrow> 'h rotor_system" where
  "reject_requests_without_feedback pf now_millis timestamp_us y =
     (let requests = ru_request_flags (sy_runtime y);
          y = fail_active_control pf now_millis timestamp_us (upd (\<lambda>r. r\<lparr>ru_request_flags := 0\<rparr>) y)
      in if requests AND ROTOR_CONTROL_REQUEST_STOP \<noteq> 0 then process_stop_request pf now_millis y
         else if requests AND (ROTOR_CONTROL_REQUEST_ALIGNMENT OR ROTOR_CONTROL_REQUEST_TORQUE OR
                ROTOR_CONTROL_REQUEST_VELOCITY OR ROTOR_CONTROL_REQUEST_POSITION) \<noteq> 0
         then stop_and_fault pf y else y)"

section \<open>Starts\<close>

text \<open>The steps of the starts, each a condition of the \<open>||\<close> chain.\<close>

definition loop_idle :: "'h rotor_system \<Rightarrow> bool \<times> 'h rotor_system" where
  "loop_idle y = (\<not> runtime_active (sy_runtime y) \<and> cb_initialized (sy_backend y) \<and>
     \<not> cb_active (sy_backend y) \<and> cb_fault_flags (sy_backend y) = 0, y)"

definition phase_known :: "mt6816_sample \<Rightarrow> 'h rotor_system \<Rightarrow> bool \<times> 'h rotor_system" where
  "phase_known sample y = (fst (motor_alignment_electrical_phase_q32
     (Some (ru_motor_alignment (sy_runtime y))) (ms_angle_raw sample) (Some 0)), y)"

definition begin_alignment :: "u32 \<Rightarrow> 'h rotor_system \<Rightarrow> bool \<times> 'h rotor_system" where
  "begin_alignment now_millis y =
     (let r = sy_runtime y
      in case alignment_controller_start (Some (ru_alignment_controller r))
                (Some (ru_motor_alignment r)) (ru_requested_alignment_current_counts r)
                now_millis of
           (ok, c) \<Rightarrow> (ok, upd (\<lambda>r. r\<lparr>ru_alignment_controller := the c\<rparr>) y))"

definition apply_alignment_reference :: "'h platform \<Rightarrow> 'h rotor_system \<Rightarrow>
  bool \<times> 'h rotor_system" where
  "apply_alignment_reference pf y =
     (case alignment_controller_get_reference_counts
             (Some (ru_alignment_controller (sy_runtime y))) (Some 0) (Some 0) of
        (ok, a, b) \<Rightarrow> if \<not> ok then (False, y)
          else on_backend (current_loop_backend_set_reference_counts pf (the a) (the b)) y)"

definition zero_reference :: "'h platform \<Rightarrow> 'h rotor_system \<Rightarrow> bool \<times> 'h rotor_system" where
  "zero_reference pf = on_backend (current_loop_backend_set_reference_counts pf 0 0)"

definition start_loop :: "'h platform \<Rightarrow> 'h rotor_system \<Rightarrow> bool \<times> 'h rotor_system" where
  "start_loop pf = on_backend (current_loop_backend_start pf)"

definition begin_torque :: "u32 \<Rightarrow> u32 \<Rightarrow> 'h rotor_system \<Rightarrow> bool \<times> 'h rotor_system" where
  "begin_torque now_millis timestamp_us y =
     (let r = sy_runtime y
      in case aligned_torque_controller_start (Some (ru_torque_controller r))
                (ru_requested_q_current_counts r) (ru_requested_torque_duration_millis r) now_millis
                timestamp_us
                (float_to_q16_16 (at_velocity_revolutions_per_second (ru_angle_tracker r))) of
           (ok, c) \<Rightarrow> (ok, upd (\<lambda>r. r\<lparr>ru_torque_controller := the c\<rparr>) y))"

definition track_torque :: "u32 \<Rightarrow> u32 \<Rightarrow> u32 \<Rightarrow> 'h rotor_system \<Rightarrow> bool \<times> 'h rotor_system" where
  "track_torque duration_millis now_millis timestamp_us y =
     (let r = sy_runtime y
      in case aligned_torque_controller_start_tracking (Some (ru_torque_controller r))
        duration_millis
                now_millis timestamp_us
                (float_to_q16_16 (at_velocity_revolutions_per_second (ru_angle_tracker r))) of
           (ok, c) \<Rightarrow> (ok, upd (\<lambda>r. r\<lparr>ru_torque_controller := the c\<rparr>) y))"

definition begin_velocity :: "u32 \<Rightarrow> 'h rotor_system \<Rightarrow> bool \<times> 'h rotor_system" where
  "begin_velocity now_millis y =
     (let r = sy_runtime y
      in case velocity_controller_start (Some (ru_velocity_controller r))
                (ru_requested_velocity_q16_16 r) (ru_requested_velocity_acceleration_q16_16 r)
                (ru_requested_velocity_current_limit_counts r)
                (ru_requested_velocity_duration_millis r)
                (ms_encoder_direction (ma_status (ru_motor_alignment r))) now_millis
                (Some (runtime_observation r)) of
           (ok, c) \<Rightarrow> (ok, upd (\<lambda>r. r\<lparr>ru_velocity_controller := the c\<rparr>) y))"

definition begin_position :: "u32 \<Rightarrow> 'h rotor_system \<Rightarrow> bool \<times> 'h rotor_system" where
  "begin_position now_millis y =
     (let r = sy_runtime y
      in case position_controller_start_relative (Some (ru_position_controller r))
                (ru_requested_position_displacement_q16_16 r)
                (ru_requested_position_maximum_velocity_q16_16 r)
                (ru_requested_position_maximum_acceleration_q16_16 r)
                (ru_requested_position_current_limit_counts r)
                (ru_requested_position_duration_millis r) now_millis
                (Some (runtime_observation r)) of
           (ok, c) \<Rightarrow> (ok, upd (\<lambda>r. r\<lparr>ru_position_controller := the c\<rparr>) y))"

definition track_velocity :: "u32 \<Rightarrow> 'h rotor_system \<Rightarrow> bool \<times> 'h rotor_system" where
  "track_velocity now_millis y =
     (let r = sy_runtime y
      in case velocity_controller_start_tracking (Some (ru_velocity_controller r)) 0
                (ru_requested_position_current_limit_counts r)
                (ru_requested_position_duration_millis r)
                (ms_encoder_direction (ma_status (ru_motor_alignment r))) now_millis
                (Some (runtime_observation r)) of
           (ok, c) \<Rightarrow> (ok, upd (\<lambda>r. r\<lparr>ru_velocity_controller := the c\<rparr>) y))"

definition start_alignment :: "'h platform \<Rightarrow> u32 \<Rightarrow> 'h rotor_system \<Rightarrow> bool \<times> 'h rotor_system" where
  "start_alignment pf now_millis y =
     (case all_succeed [loop_idle, begin_alignment now_millis, apply_alignment_reference pf,
             start_loop pf] y of
        (ok, y) \<Rightarrow> if ok then (True, y)
          else (False, stop_and_fault pf (upd (abort_alignment now_millis) y)))"

definition start_torque ::
  "'h platform \<Rightarrow> mt6816_sample \<Rightarrow> u32 \<Rightarrow> u32 \<Rightarrow> 'h rotor_system \<Rightarrow> bool \<times> 'h rotor_system" where
  "start_torque pf sample now_millis timestamp_us y =
     (case all_succeed [loop_idle, phase_known sample, begin_torque now_millis timestamp_us,
             zero_reference pf, start_loop pf] y of
        (ok, y) \<Rightarrow> if ok then (True, y)
          else (False, stop_and_fault pf (upd (stop_torque now_millis) y)))"

definition start_velocity ::
  "'h platform \<Rightarrow> mt6816_sample \<Rightarrow> u32 \<Rightarrow> u32 \<Rightarrow> 'h rotor_system \<Rightarrow> bool \<times> 'h rotor_system" where
  "start_velocity pf sample now_millis timestamp_us y =
     (case all_succeed [loop_idle, phase_known sample, begin_velocity now_millis,
             track_torque (ru_requested_velocity_duration_millis (sy_runtime y))
             now_millis timestamp_us,
             zero_reference pf, start_loop pf] y of
        (ok, y) \<Rightarrow> if ok then (True, y)
          else (False, stop_and_fault pf
                 (upd (stop_torque now_millis \<circ> fail_velocity now_millis) y)))"

definition start_position ::
  "'h platform \<Rightarrow> mt6816_sample \<Rightarrow> u32 \<Rightarrow> u32 \<Rightarrow> 'h rotor_system \<Rightarrow> bool \<times> 'h rotor_system" where
  "start_position pf sample now_millis timestamp_us y =
     (case all_succeed [loop_idle, phase_known sample, begin_position now_millis,
             track_velocity now_millis,
             track_torque (ru_requested_position_duration_millis (sy_runtime y))
             now_millis timestamp_us,
             zero_reference pf, start_loop pf] y of
        (ok, y) \<Rightarrow> if ok then (True, y)
          else (False, stop_and_fault pf
                 (upd (stop_torque now_millis \<circ> fail_velocity now_millis \<circ> fail_position now_millis)
                 y)))"

section \<open>Updates\<close>

text \<open>\<open>None\<close>: the update of the alignment controller does not return.\<close>

definition update_alignment ::
  "'h platform \<Rightarrow> mt6816_sample \<Rightarrow> u32 \<Rightarrow> 'h rotor_system \<Rightarrow> 'h rotor_system option" where
  "update_alignment pf sample now_millis y =
     (let r = sy_runtime y; loop = sy_backend y
      in case alignment_controller_update (Some (ru_alignment_controller r)) (ru_motor_alignment r)
                now_millis True (ms_angle_raw sample)
                (po_current_a_measured_counts (cb_latest_output loop))
                (po_current_b_measured_counts (cb_latest_output loop)) (cb_active loop) of
           None \<Rightarrow> None
         | Some ((event, controller), alignment) \<Rightarrow>
             let y = upd (\<lambda>r. r\<lparr>ru_alignment_controller := the controller,
                   ru_motor_alignment := alignment\<rparr>) y
             in Some (case event of
                  ALIGNMENT_CONTROLLER_EVENT_REFERENCE_CHANGED \<Rightarrow>
                    (case apply_alignment_reference pf y of (ok, y) \<Rightarrow>
                       if ok then y else stop_and_fault pf (upd (abort_alignment now_millis) y))
                | ALIGNMENT_CONTROLLER_EVENT_COMPLETED \<Rightarrow>
                    snd (stop_backend pf ROTOR_CONTROL_EVENT_ALIGNMENT_COMPLETED y)
                | ALIGNMENT_CONTROLLER_EVENT_FAILED \<Rightarrow>
                    snd (stop_backend pf ROTOR_CONTROL_EVENT_AUTHORITY_RELEASED y)
                | ALIGNMENT_CONTROLLER_EVENT_NONE \<Rightarrow> y))"

text \<open>The phase of the sample and the state of the loop, as the updates read them first.\<close>

definition sample_phase :: "mt6816_sample \<Rightarrow> 'h rotor_system \<Rightarrow> bool \<times> u32" where
  "sample_phase sample y =
     (case motor_alignment_electrical_phase_q32 (Some (ru_motor_alignment (sy_runtime y)))
             (ms_angle_raw sample) (Some 0) of
        (phase_valid, electrical_phase_q32) \<Rightarrow> (phase_valid, the electrical_phase_q32))"

text \<open>
  The update of the torque controller and the publication of its reference, which the updates of
  torque, velocity and position share.
\<close>

definition torque_step ::
  "'h platform \<Rightarrow> u32 \<Rightarrow> u32 \<Rightarrow> bool \<times> u32 \<Rightarrow> f32 \<Rightarrow> bool \<Rightarrow> 'h rotor_system \<Rightarrow>
     aligned_torque_event \<times> 'h rotor_system" where
  "torque_step pf now_millis timestamp_us phase velocity backend_active y =
     (case aligned_torque_controller_update (Some (ru_torque_controller (sy_runtime y))) now_millis
             timestamp_us (fst phase) (snd phase) (float_to_q16_16 velocity) backend_active of
        (event, controller) \<Rightarrow>
          let y = upd (\<lambda>r. r\<lparr>ru_torque_controller := the controller\<rparr>) y
          in if event \<noteq> ALIGNED_TORQUE_EVENT_REFERENCE_CHANGED then (event, y)
             else case publish_aligned_q_reference pf
                    (the (aligned_torque_controller_get_status controller (Some
                    empty_torque_status)))
                    timestamp_us y of
               (True, y) \<Rightarrow> (event, y)
             | (False, y) \<Rightarrow> (ALIGNED_TORQUE_EVENT_FAILED,
                 upd (\<lambda>r. r\<lparr>ru_torque_controller :=
                   the (snd (aligned_torque_controller_reference_rejected
                     (Some (ru_torque_controller r)) now_millis))\<rparr>) y))"

definition update_torque ::
  "'h platform \<Rightarrow> mt6816_sample \<Rightarrow> u32 \<Rightarrow> u32 \<Rightarrow> 'h rotor_system \<Rightarrow> 'h rotor_system" where
  "update_torque pf sample now_millis timestamp_us y =
     (case torque_step pf now_millis timestamp_us (sample_phase sample y)
             (at_velocity_revolutions_per_second (ru_angle_tracker (sy_runtime y)))
             (current_loop_backend_is_active (sy_backend y)) y of
        (event, y) \<Rightarrow>
          if event = ALIGNED_TORQUE_EVENT_COMPLETED
          then snd (stop_backend pf ROTOR_CONTROL_EVENT_AUTHORITY_RELEASED y)
          else if event = ALIGNED_TORQUE_EVENT_FAILED then stop_and_fault pf y else y)"

definition velocity_step ::
  "(nat \<Rightarrow> bool) \<Rightarrow> u32 \<Rightarrow> rotor_observation \<Rightarrow> 'h rotor_system \<Rightarrow>
     velocity_control_event \<times> i16 \<times> 'h rotor_system" where
  "velocity_step fp now_millis observation y =
     (case velocity_controller_update fp (Some (ru_velocity_controller (sy_runtime y))) now_millis
             (Some observation) (Some 0) of
        (event, controller, request) \<Rightarrow>
          (event, the request, upd (\<lambda>r. r\<lparr>ru_velocity_controller := the controller\<rparr>) y))"

definition set_torque_target :: "i16 \<Rightarrow> 'h rotor_system \<Rightarrow> bool \<times> 'h rotor_system" where
  "set_torque_target q_current_request y =
     (case aligned_torque_controller_set_target (Some (ru_torque_controller (sy_runtime y)))
             q_current_request of
        (ok, controller) \<Rightarrow> (ok, upd (\<lambda>r. r\<lparr>ru_torque_controller := the controller\<rparr>) y))"

definition set_velocity_target :: "i32 \<Rightarrow> 'h rotor_system \<Rightarrow> bool \<times> 'h rotor_system" where
  "set_velocity_target velocity_target_q16_16 y =
     (case velocity_controller_set_target (Some (ru_velocity_controller (sy_runtime y)))
             velocity_target_q16_16 of
        (ok, controller) \<Rightarrow> (ok, upd (\<lambda>r. r\<lparr>ru_velocity_controller := the controller\<rparr>) y))"

definition drive_velocity ::
  "'h platform \<Rightarrow> (nat \<Rightarrow> bool) \<Rightarrow> u32 \<Rightarrow> u32 \<Rightarrow> rotor_observation \<Rightarrow> bool \<times> u32 \<Rightarrow> bool \<Rightarrow>
     'h rotor_system \<Rightarrow> velocity_control_event \<times> 'h rotor_system" where
  "drive_velocity pf fp now_millis timestamp_us observation phase backend_active y =
     (case velocity_step fp now_millis observation y of (event, request, y) \<Rightarrow>
        if event \<noteq> VELOCITY_CONTROL_EVENT_CURRENT_CHANGED then (event, y)
        else case set_torque_target request y of
          (False, y) \<Rightarrow>
            (VELOCITY_CONTROL_EVENT_FAILED, upd (velocity_actuator_failed now_millis) y)
        | (True, y) \<Rightarrow>
            (case torque_step pf now_millis timestamp_us phase
                    (ro_velocity_revolutions_per_second observation) backend_active y of
               (torque_event, y) \<Rightarrow>
                 if torque_event \<noteq> ALIGNED_TORQUE_EVENT_REFERENCE_CHANGED
                 then (VELOCITY_CONTROL_EVENT_FAILED, upd (velocity_actuator_failed now_millis) y)
                 else (event, y)))"

definition update_velocity ::
  "'h platform \<Rightarrow> (nat \<Rightarrow> bool) \<Rightarrow> mt6816_sample \<Rightarrow> u32 \<Rightarrow> u32 \<Rightarrow> 'h rotor_system \<Rightarrow> 'h rotor_system" where
  "update_velocity pf fp sample now_millis timestamp_us y =
     (case drive_velocity pf fp now_millis timestamp_us
             ((runtime_observation (sy_runtime y))\<lparr>ro_timestamp_us := timestamp_us\<rparr>)
             (sample_phase sample y) (current_loop_backend_is_active (sy_backend y)) y of
        (event, y) \<Rightarrow>
          if event = VELOCITY_CONTROL_EVENT_COMPLETED
          then snd (stop_backend pf ROTOR_CONTROL_EVENT_AUTHORITY_RELEASED
                      (upd (stop_torque now_millis) y))
          else if event = VELOCITY_CONTROL_EVENT_FAILED
          then stop_and_fault pf (upd (stop_torque now_millis) y) else y)"

text \<open>The inner part of a position update: velocity loop and torque under the new target.\<close>

definition drive_inner ::
  "'h platform \<Rightarrow> (nat \<Rightarrow> bool) \<Rightarrow> u32 \<Rightarrow> u32 \<Rightarrow> rotor_observation \<Rightarrow> bool \<times> u32 \<Rightarrow> bool \<Rightarrow>
     'h rotor_system \<Rightarrow> bool \<times> 'h rotor_system" where
  "drive_inner pf fp now_millis timestamp_us observation phase backend_active y =
     (case velocity_step fp now_millis observation y of (velocity_event, request, y) \<Rightarrow>
        (case (if velocity_event = VELOCITY_CONTROL_EVENT_CURRENT_CHANGED
               then set_torque_target request y else (False, y)) of
           (False, y) \<Rightarrow> (False, y)
         | (True, y) \<Rightarrow>
             (case torque_step pf now_millis timestamp_us phase
                     (ro_velocity_revolutions_per_second observation) backend_active y of
                (torque_event, y) \<Rightarrow>
                  (torque_event = ALIGNED_TORQUE_EVENT_REFERENCE_CHANGED, y))))"

definition drive_position ::
  "'h platform \<Rightarrow> (nat \<Rightarrow> bool) \<Rightarrow> u32 \<Rightarrow> u32 \<Rightarrow> rotor_observation \<Rightarrow> bool \<times> u32 \<Rightarrow> bool \<Rightarrow>
     'h rotor_system \<Rightarrow> position_control_event \<times> 'h rotor_system" where
  "drive_position pf fp now_millis timestamp_us observation phase backend_active y =
     (case position_controller_update fp (Some (ru_position_controller (sy_runtime y))) now_millis
             (Some observation) (Some 0) of
        (event, controller, target) \<Rightarrow>
          let y = upd (\<lambda>r. r\<lparr>ru_position_controller := the controller\<rparr>) y
          in if event \<noteq> POSITION_CONTROL_EVENT_VELOCITY_CHANGED then (event, y)
             else case all_succeed [set_velocity_target (the target),
                    drive_inner pf fp now_millis timestamp_us observation phase backend_active] y of
               (True, y) \<Rightarrow> (event, y)
             | (False, y) \<Rightarrow>
                 (POSITION_CONTROL_EVENT_FAILED, upd (position_actuator_failed now_millis) y))"

definition update_position ::
  "'h platform \<Rightarrow> (nat \<Rightarrow> bool) \<Rightarrow> mt6816_sample \<Rightarrow> u32 \<Rightarrow> u32 \<Rightarrow> 'h rotor_system \<Rightarrow> 'h rotor_system" where
  "update_position pf fp sample now_millis timestamp_us y =
     (case drive_position pf fp now_millis timestamp_us
             ((runtime_observation (sy_runtime y))\<lparr>ro_timestamp_us := timestamp_us\<rparr>)
             (sample_phase sample y) (current_loop_backend_is_active (sy_backend y)) y of
        (event, y) \<Rightarrow>
          if event = POSITION_CONTROL_EVENT_COMPLETED
          then snd (stop_backend pf ROTOR_CONTROL_EVENT_AUTHORITY_RELEASED
                      (upd (stop_torque now_millis \<circ> stop_velocity now_millis) y))
          else if event = POSITION_CONTROL_EVENT_FAILED
          then stop_and_fault pf (upd (stop_torque now_millis \<circ> fail_velocity now_millis) y)
          else y)"

section \<open>The foreground\<close>

definition clear_requests :: "rotor_control_runtime \<Rightarrow> rotor_control_runtime" where
  "clear_requests r = r\<lparr>ru_request_flags := 0, ru_requested_alignment_current_counts := 0,
     ru_requested_q_current_counts := 0, ru_requested_torque_duration_millis := 0,
     ru_requested_velocity_q16_16 := 0, ru_requested_velocity_acceleration_q16_16 := 0,
     ru_requested_velocity_current_limit_counts := 0, ru_requested_velocity_duration_millis := 0,
     ru_requested_position_displacement_q16_16 := 0,
     ru_requested_position_maximum_velocity_q16_16 := 0,
     ru_requested_position_maximum_acceleration_q16_16 := 0,
     ru_requested_position_current_limit_counts := 0,
     ru_requested_position_duration_millis := 0\<rparr>"

definition publish_snapshots :: "rotor_control_runtime \<Rightarrow> rotor_control_runtime" where
  "publish_snapshots r = publish_progress_snapshot (publish_full_snapshot r)"

definition empty_encoder :: diagnostics_encoder where
  "empty_encoder = \<lparr>de_status = MT6816_STATUS_NOT_ATTEMPTED,
     de_transport_status = SPI_STATUS_NOT_READY, de_angle_raw = 0, de_flags = 0,
     de_sample_count = 0, de_error_count = 0, de_last_attempt_millis = 0\<rparr>"

definition empty_encoder_error :: diagnostics_encoder_error where
  "empty_encoder_error = \<lparr>dx_last_error_status = MT6816_STATUS_NOT_ATTEMPTED,
     dx_last_error_transport_status = SPI_STATUS_OK, dx_last_error_response_length = 0,
     dx_last_error_register_03 = 0, dx_last_error_register_04 = 0, dx_last_error_register_05 = 0,
     dx_last_error_timestamp_us = 0\<rparr>"

fun rotor_control_runtime_init ::
  "rotor_control_runtime ptr \<Rightarrow> angle_tracker ptr \<Rightarrow> motor_alignment ptr \<Rightarrow>
     alignment_controller ptr \<Rightarrow> aligned_torque_controller ptr \<Rightarrow> velocity_controller ptr \<Rightarrow>
     position_controller ptr \<Rightarrow> bool \<times> rotor_control_runtime ptr" where
  "rotor_control_runtime_init (Some r) (Some tracker) (Some alignment) (Some alignment_controller)
     (Some torque_controller) (Some velocity_controller) (Some position_controller) =
     (if \<not> angle_tracker_config_is_valid (Some (at_config tracker)) \<or> \<not> ma_initialized alignment \<or>
         \<not> ak_initialized alignment_controller \<or> \<not> tq_initialized torque_controller \<or>
         \<not> vc_initialized velocity_controller \<or> \<not> xc_initialized position_controller
      then (False, Some r)
      else (True, Some (publish_snapshots (clear_requests (r\<lparr>
        ru_angle_tracker := tracker, ru_motor_alignment := alignment,
        ru_alignment_controller := alignment_controller\<lparr>ak_alignment_set := False\<rparr>,
        ru_torque_controller := torque_controller, ru_velocity_controller := velocity_controller,
        ru_position_controller := position_controller, ru_encoder_diagnostics := empty_encoder,
        ru_encoder_error_sequence := 0, ru_encoder_last_error := empty_encoder_error,
        ru_estimator_fault_flags := 0, ru_estimator_sample_interval_us := 0,
        ru_estimator_maximum_sample_interval_us := 0, ru_progress_sequence := 0,
        ru_snapshot_sequence := 0, ru_last_full_snapshot_timestamp_us := 0,
        ru_full_snapshot_timestamp_valid := False, ru_event_flags := 0,
        ru_initialized := True\<rparr>)))))"
| "rotor_control_runtime_init r tracker alignment alignment_controller torque_controller
     velocity_controller position_controller = (False, r)"

text \<open>The common part of the requests: refused while one is pending or a controller is active.\<close>

definition latch_request ::
  "bool \<Rightarrow> (rotor_control_runtime \<Rightarrow> rotor_control_runtime) \<Rightarrow> u32 \<Rightarrow> rotor_control_runtime ptr \<Rightarrow>
     bool \<times> rotor_control_runtime ptr" where
  "latch_request refused store flag runtime =
     (case runtime of
        None \<Rightarrow> (False, None)
      | Some r \<Rightarrow>
          if \<not> ru_initialized r \<or> refused then (False, Some r)
          else if ru_request_flags r \<noteq> 0 \<or> runtime_active r then (False, Some r)
          else (True, Some ((store r)\<lparr>ru_request_flags := flag\<rparr>)))"

definition rotor_control_runtime_request_alignment ::
  "rotor_control_runtime ptr \<Rightarrow> u16 \<Rightarrow> bool \<times> rotor_control_runtime ptr" where
  "rotor_control_runtime_request_alignment runtime alignment_current_counts =
     latch_request (alignment_current_counts = 0)
       (\<lambda>r. r\<lparr>ru_requested_alignment_current_counts := alignment_current_counts\<rparr>)
       ROTOR_CONTROL_REQUEST_ALIGNMENT runtime"

definition rotor_control_runtime_request_torque ::
  "rotor_control_runtime ptr \<Rightarrow> i16 \<Rightarrow> u32 \<Rightarrow> bool \<times> rotor_control_runtime ptr" where
  "rotor_control_runtime_request_torque runtime q_current_counts duration_millis =
     latch_request (q_current_counts = 0 \<or> duration_millis = 0)
       (\<lambda>r. r\<lparr>ru_requested_q_current_counts := q_current_counts,
             ru_requested_torque_duration_millis := duration_millis\<rparr>)
       ROTOR_CONTROL_REQUEST_TORQUE runtime"

definition rotor_control_runtime_request_velocity ::
  "rotor_control_runtime ptr \<Rightarrow> i32 \<Rightarrow> i32 \<Rightarrow> u16 \<Rightarrow> u32 \<Rightarrow> bool \<times> rotor_control_runtime ptr" where
  "rotor_control_runtime_request_velocity runtime velocity_q16_16 acceleration_q16_16
     current_limit_counts duration_millis =
     latch_request (velocity_q16_16 = 0 \<or> sint acceleration_q16_16 \<le> 0 \<or>
         current_limit_counts = 0 \<or> duration_millis = 0)
       (\<lambda>r. r\<lparr>ru_requested_velocity_q16_16 := velocity_q16_16,
             ru_requested_velocity_acceleration_q16_16 := acceleration_q16_16,
             ru_requested_velocity_current_limit_counts := current_limit_counts,
             ru_requested_velocity_duration_millis := duration_millis\<rparr>)
       ROTOR_CONTROL_REQUEST_VELOCITY runtime"

definition rotor_control_runtime_request_position_relative ::
  "rotor_control_runtime ptr \<Rightarrow> i32 \<Rightarrow> i32 \<Rightarrow> i32 \<Rightarrow> u16 \<Rightarrow> u32 \<Rightarrow> bool \<times> rotor_control_runtime ptr" where
  "rotor_control_runtime_request_position_relative runtime displacement_q16_16 velocity_q16_16
     acceleration_q16_16 current_limit_counts duration_millis =
     latch_request (displacement_q16_16 = 0 \<or> sint velocity_q16_16 \<le> 0 \<or>
         sint acceleration_q16_16 \<le> 0 \<or> current_limit_counts = 0 \<or> duration_millis = 0)
       (\<lambda>r. r\<lparr>ru_requested_position_displacement_q16_16 := displacement_q16_16,
             ru_requested_position_maximum_velocity_q16_16 := velocity_q16_16,
             ru_requested_position_maximum_acceleration_q16_16 := acceleration_q16_16,
             ru_requested_position_current_limit_counts := current_limit_counts,
             ru_requested_position_duration_millis := duration_millis\<rparr>)
       ROTOR_CONTROL_REQUEST_POSITION runtime"

definition rotor_control_runtime_request_stop ::
  "rotor_control_runtime ptr \<Rightarrow> rotor_control_runtime ptr" where
  "rotor_control_runtime_request_stop runtime = map_option (\<lambda>r.
     if \<not> ru_initialized r then r
     else r\<lparr>ru_request_flags := ROTOR_CONTROL_REQUEST_STOP\<rparr>) runtime"

text \<open>
  The functions below act on the runtime of the system; \<open>null\<close> is the argument that is a null
  pointer instead.
\<close>

definition rotor_control_runtime_force_fault ::
  "'h platform \<Rightarrow> bool \<Rightarrow> u32 \<Rightarrow> u32 \<Rightarrow> 'h rotor_system \<Rightarrow> 'h rotor_system" where
  "rotor_control_runtime_force_fault pf null now_millis timestamp_us y =
     (if null \<or> \<not> ru_initialized (sy_runtime y) then force_low pf y
      else
        let y = upd (\<lambda>r. r\<lparr>ru_request_flags := 0\<rparr>) y;
            y = (if runtime_active (sy_runtime y)
                 then fail_active_control pf now_millis timestamp_us y else stop_and_fault pf y)
        in upd publish_snapshots y)"

definition fault_sources :: "rotor_control_runtime \<Rightarrow> u32" where
  "fault_sources r =
     (let sources = 0;
          sources = (if ru_estimator_fault_flags r \<noteq> 0
            then sources OR ROTOR_CONTROL_FAULT_SOURCE_ESTIMATOR else sources);
          sources = (if ks_state (ak_status (ru_alignment_controller r))
              = ALIGNMENT_CONTROLLER_STATE_FAILED
            then sources OR ROTOR_CONTROL_FAULT_SOURCE_ALIGNMENT else sources);
          sources = (if ts_state (tq_status (ru_torque_controller r)) =
            ALIGNED_TORQUE_STATE_FAILED \<or>
              ts_fault_flags (tq_status (ru_torque_controller r)) \<noteq> 0
            then sources OR ROTOR_CONTROL_FAULT_SOURCE_ALIGNED_TORQUE else sources);
          sources = (if vl_state (vc_status (ru_velocity_controller r))
                = VELOCITY_CONTROL_STATE_FAILED \<or>
              vl_fault_flags (vc_status (ru_velocity_controller r)) \<noteq> 0
            then sources OR ROTOR_CONTROL_FAULT_SOURCE_VELOCITY else sources);
          sources = (if xs_state (xc_status (ru_position_controller r))
                = POSITION_CONTROL_STATE_FAILED \<or>
              xs_fault_flags (xc_status (ru_position_controller r)) \<noteq> 0
            then sources OR ROTOR_CONTROL_FAULT_SOURCE_POSITION else sources)
      in sources)"

text \<open>The fresh controllers, or nothing if one of the initialisations is refused.\<close>

definition fresh_controllers :: "rotor_control_runtime \<Rightarrow> rotor_control_runtime option" where
  "fresh_controllers r =
     (let reset_estimator = (ru_estimator_fault_flags r \<noteq> 0);
          (tracker_ok, tracker) = (if reset_estimator
            then angle_tracker_init (Some (ru_angle_tracker r))
                   (Some (at_config (ru_angle_tracker r)))
            else (True, Some (ru_angle_tracker r)));
          (alignment_ok, alignment_controller) =
            alignment_controller_init (Some (ru_alignment_controller r))
              (Some (ak_config (ru_alignment_controller r)));
          (torque_ok, torque_controller) =
            aligned_torque_controller_init (Some (ru_torque_controller r))
              (Some (tq_config (ru_torque_controller r)));
          (velocity_ok, velocity_controller) =
            velocity_controller_init (Some (ru_velocity_controller r))
              (Some (vc_config (ru_velocity_controller r)));
          (position_ok, position_controller) =
            position_controller_init (Some (ru_position_controller r))
              (Some (xc_config (ru_position_controller r)))
      in if \<not> (tracker_ok \<and> alignment_ok \<and> torque_ok \<and> velocity_ok \<and> position_ok) then None
         else Some (r\<lparr>ru_angle_tracker := the tracker,
           ru_alignment_controller := (the alignment_controller)\<lparr>ak_alignment_set := False\<rparr>,
           ru_torque_controller := the torque_controller,
           ru_velocity_controller := the velocity_controller,
           ru_position_controller := the position_controller\<rparr>))"

fun rotor_control_runtime_clear_faults ::
  "rotor_control_runtime ptr \<Rightarrow> u32 ptr \<Rightarrow> bool \<times> rotor_control_runtime ptr \<times> u32 ptr" where
  "rotor_control_runtime_clear_faults None cleared = (False, None, map_option (\<lambda>_. 0) cleared)"
| "rotor_control_runtime_clear_faults (Some r) cleared =
     (if \<not> ru_initialized r then (False, Some r, map_option (\<lambda>_. 0) cleared)
      else case fresh_controllers r of
        None \<Rightarrow> (False, Some r, map_option (\<lambda>_. 0) cleared)
      | Some fresh \<Rightarrow>
          (True, Some (publish_snapshots (clear_requests (fresh\<lparr>ru_estimator_fault_flags := 0,
             ru_estimator_sample_interval_us := 0, ru_estimator_maximum_sample_interval_us := 0,
             ru_event_flags := ROTOR_CONTROL_EVENT_NONE\<rparr>))),
           map_option (\<lambda>_. fault_sources r) cleared))"

fun rotor_control_runtime_clear_alignment ::
  "rotor_control_runtime ptr \<Rightarrow> bool \<times> rotor_control_runtime ptr" where
  "rotor_control_runtime_clear_alignment None = (False, None)"
| "rotor_control_runtime_clear_alignment (Some r) =
     (if \<not> ru_initialized r then (False, Some r)
      else if runtime_active r \<or> ru_request_flags r \<noteq> 0 then (False, Some r)
      else (True, Some (publish_snapshots (r\<lparr>ru_motor_alignment :=
              the (motor_alignment_clear (Some (ru_motor_alignment r)))\<rparr>))))"

fun rotor_control_runtime_take_events ::
  "rotor_control_runtime ptr \<Rightarrow> u32 \<times> rotor_control_runtime ptr" where
  "rotor_control_runtime_take_events None = (ROTOR_CONTROL_EVENT_NONE, None)"
| "rotor_control_runtime_take_events (Some r) =
     (if \<not> ru_initialized r then (ROTOR_CONTROL_EVENT_NONE, Some r)
      else (ru_event_flags r, Some (r\<lparr>ru_event_flags := ROTOR_CONTROL_EVENT_NONE\<rparr>)))"

section \<open>The callback\<close>

text \<open>A profile mark, taken only while a release is profiled.\<close>

definition profile_mark ::
  "(u32 \<Rightarrow> runtime_profile \<Rightarrow> runtime_profile) \<Rightarrow> u32 \<Rightarrow> 'h rotor_system \<Rightarrow> 'h rotor_system" where
  "profile_mark stage cycle_count y =
     (if runtime_profile_release_active (sy_profile y)
      then y\<lparr>sy_profile := stage cycle_count (sy_profile y)\<rparr> else y)"

definition decode_response ::
  "spi_status \<Rightarrow> bytes ptr \<Rightarrow> u32 \<Rightarrow> mt6816_status \<times> mt6816_sample" where
  "decode_response transport_status receive len =
     (let sample = \<lparr>ms_angle_raw = 0, ms_flags = 0, ms_register_03 = 0, ms_register_04 = 0,
            ms_register_05 = 0\<rparr>
      in if transport_status \<noteq> SPI_STATUS_OK \<or> receive = None \<or>
            len \<noteq> ROTOR_CONTROL_MT6816_RESPONSE_LENGTH
         then (MT6816_STATUS_TRANSPORT_ERROR, sample)
         else case mt6816_decode_registers (the receive ! 1) (the receive ! 2) (the receive ! 3)
                (Some sample) of
           (status, sample) \<Rightarrow> (status, the sample))"

definition error_register :: "bytes ptr \<Rightarrow> u32 \<Rightarrow> nat \<Rightarrow> u32" where
  "error_register receive len i =
     (if receive \<noteq> None \<and> i < unat len then ucast (the receive ! i) else 0)"

definition record_encoder_error ::
  "mt6816_status \<Rightarrow> spi_status \<Rightarrow> bytes ptr \<Rightarrow> u32 \<Rightarrow> u32 \<Rightarrow> rotor_control_runtime \<Rightarrow>
     rotor_control_runtime" where
  "record_encoder_error encoder_status transport_status receive len timestamp_us r = r\<lparr>
     ru_encoder_diagnostics := (ru_encoder_diagnostics r)\<lparr>
       de_error_count := de_error_count (ru_encoder_diagnostics r) + 1\<rparr>,
     ru_encoder_error_sequence := ru_encoder_error_sequence r + 1 + 1,
     ru_encoder_last_error := \<lparr>dx_last_error_status = encoder_status,
       dx_last_error_transport_status = transport_status, dx_last_error_response_length = len,
       dx_last_error_register_03 = error_register receive len 1,
       dx_last_error_register_04 = error_register receive len 2,
       dx_last_error_register_05 = error_register receive len 3,
       dx_last_error_timestamp_us = timestamp_us\<rparr>\<rparr>"

definition record_sample :: "mt6816_sample \<Rightarrow> u32 \<Rightarrow> rotor_control_runtime \<Rightarrow>
  rotor_control_runtime" where
  "record_sample sample timestamp_us r =
     (let r = r\<lparr>ru_encoder_diagnostics := (ru_encoder_diagnostics r)\<lparr>
            de_angle_raw := ucast (ms_angle_raw sample), de_flags := ucast (ms_flags sample),
            de_sample_count := de_sample_count (ru_encoder_diagnostics r) + 1\<rparr>\<rparr>;
          previous_timestamp_us = at_last_timestamp_us (ru_angle_tracker r);
          interval = timestamp_us - previous_timestamp_us
      in if at_initialized (ru_angle_tracker r) \<and> previous_timestamp_us \<noteq> 0
         then r\<lparr>ru_estimator_sample_interval_us := interval,
                ru_estimator_maximum_sample_interval_us :=
                  (if ru_estimator_maximum_sample_interval_us r < interval then interval
                   else ru_estimator_maximum_sample_interval_us r)\<rparr>
         else r)"

definition push_sample ::
  "(nat \<Rightarrow> bool) \<Rightarrow> mt6816_sample \<Rightarrow> u32 \<Rightarrow> 'h rotor_system \<Rightarrow> bool \<times> 'h rotor_system" where
  "push_sample fp sample timestamp_us y =
     (if ms_flags sample \<noteq> 0 then (False, y)
      else case angle_tracker_push fp (Some (ru_angle_tracker (sy_runtime y)))
             (ms_angle_raw sample) timestamp_us of
        (ok, tracker) \<Rightarrow> (ok, upd (\<lambda>r. r\<lparr>ru_angle_tracker := the tracker\<rparr>) y))"

text \<open>
  The tail of every path of the callback: \<open>c2\<close> and \<open>c3\<close> are the cycle counts read after the control
  step and after the publication.
\<close>

definition finish_callback ::
  "u32 \<Rightarrow> u32 \<Rightarrow> u32 \<Rightarrow> u32 \<Rightarrow> bool \<Rightarrow> 'h rotor_system \<Rightarrow> 'h rotor_system" where
  "finish_callback c2 c3 timestamp_us events_before force_full_snapshot y =
     (let y = profile_mark runtime_profile_control_complete c2 y;
          y = upd (\<lambda>r. publish_callback_state timestamp_us
                (force_full_snapshot \<or> ru_event_flags r \<noteq> events_before) r) y
      in profile_mark runtime_profile_callback_complete c3 y)"

text \<open>The request that is served with a good sample, other than a stop.\<close>

definition serve_request ::
  "'h platform \<Rightarrow> mt6816_sample \<Rightarrow> u32 \<Rightarrow> u32 \<Rightarrow> u32 \<Rightarrow> 'h rotor_system \<Rightarrow> bool \<times> 'h rotor_system" where
  "serve_request pf sample now_millis timestamp_us requests y =
     (if requests AND ROTOR_CONTROL_REQUEST_ALIGNMENT \<noteq> 0 then start_alignment pf now_millis y
      else if requests AND ROTOR_CONTROL_REQUEST_TORQUE \<noteq> 0
      then start_torque pf sample now_millis timestamp_us y
      else if requests AND ROTOR_CONTROL_REQUEST_VELOCITY \<noteq> 0
      then start_velocity pf sample now_millis timestamp_us y
      else if requests AND ROTOR_CONTROL_REQUEST_POSITION \<noteq> 0
      then start_position pf sample now_millis timestamp_us y
      else (False, y))"

definition update_control ::
  "'h platform \<Rightarrow> (nat \<Rightarrow> bool) \<Rightarrow> mt6816_sample \<Rightarrow> u32 \<Rightarrow> u32 \<Rightarrow> 'h rotor_system \<Rightarrow>
     'h rotor_system option" where
  "update_control pf fp sample now_millis timestamp_us y =
     (let r = sy_runtime y
      in if alignment_controller_is_active (Some (ru_alignment_controller r))
         then update_alignment pf sample now_millis y
         else if position_controller_is_active (Some (ru_position_controller r))
         then Some (update_position pf fp sample now_millis timestamp_us y)
         else if velocity_controller_is_active (Some (ru_velocity_controller r))
         then Some (update_velocity pf fp sample now_millis timestamp_us y)
         else if aligned_torque_controller_is_active (Some (ru_torque_controller r))
         then Some (update_torque pf sample now_millis timestamp_us y)
         else Some y)"

text \<open>
  The callback on a sample that the estimator has accepted, and the whole callback. \<open>reads\<close> gives
  the cycle counter at the four profile marks. \<open>None\<close>: the callback does not return.
\<close>

definition callback_control ::
  "'h platform \<Rightarrow> (nat \<Rightarrow> bool) \<Rightarrow> mt6816_sample \<Rightarrow> u32 \<Rightarrow> u32 \<Rightarrow> u32 \<Rightarrow> (nat \<Rightarrow> u32) \<Rightarrow>
     'h rotor_system \<Rightarrow> 'h rotor_system option" where
  "callback_control pf fp sample now_millis timestamp_us events_before reads y =
     (let requests = ru_request_flags (sy_runtime y);
          y = upd (\<lambda>r. r\<lparr>ru_request_flags := 0\<rparr>) y
      in if requests AND ROTOR_CONTROL_REQUEST_STOP \<noteq> 0
         then Some (finish_callback (reads 2) (reads 3) timestamp_us events_before True
                (process_stop_request pf now_millis y))
         else case serve_request pf sample now_millis timestamp_us requests y of
           (started, y) \<Rightarrow>
             map_option (finish_callback (reads 2) (reads 3) timestamp_us events_before
               (requests \<noteq> 0))
               (if started then Some y else update_control pf fp sample now_millis timestamp_us y))"

definition rotor_control_runtime_spi_callback ::
  "'h platform \<Rightarrow> (nat \<Rightarrow> bool) \<Rightarrow> bool \<Rightarrow> u32 \<Rightarrow> (nat \<Rightarrow> u32) \<Rightarrow> spi_status \<Rightarrow> bytes ptr \<Rightarrow> u32 \<Rightarrow>
     u32 \<Rightarrow> 'h rotor_system \<Rightarrow> 'h rotor_system option" where
  "rotor_control_runtime_spi_callback pf fp null now_millis reads transport_status receive len
     timestamp_us y =
     (if null \<or> \<not> ru_initialized (sy_runtime y) then Some (force_low pf y)
      else
        let events_before = ru_event_flags (sy_runtime y);
            (encoder_status, sample) = decode_response transport_status receive len;
            y = upd (\<lambda>r. r\<lparr>ru_encoder_diagnostics := (ru_encoder_diagnostics r)\<lparr>
                  de_last_attempt_millis := now_millis, de_transport_status := transport_status,
                  de_status := encoder_status\<rparr>\<rparr>) y;
            y = profile_mark runtime_profile_encoder_decode_complete (reads 0) y
        in if encoder_status \<noteq> MT6816_STATUS_OK
           then
             let y = profile_mark runtime_profile_estimator_complete (reads 1) y;
                 y = upd (record_encoder_error encoder_status transport_status receive len
                       timestamp_us) y;
                 y = reject_requests_without_feedback pf now_millis timestamp_us y
             in Some (finish_callback (reads 2) (reads 3) timestamp_us events_before False y)
           else
             case push_sample fp sample timestamp_us (upd (record_sample sample timestamp_us) y) of
               (estimator_valid, y) \<Rightarrow>
                 let y = profile_mark runtime_profile_estimator_complete (reads 1) y
                 in if \<not> estimator_valid
                    then
                      let y = upd (\<lambda>r. r\<lparr>ru_estimator_fault_flags := ru_estimator_fault_flags r OR
                                ROTOR_CONTROL_ESTIMATOR_FAULT_INVALID_SAMPLE\<rparr>) y;
                          y = reject_requests_without_feedback pf now_millis timestamp_us y
                      in Some (finish_callback (reads 2) (reads 3)
                      timestamp_us events_before False y)
                    else callback_control pf fp sample now_millis timestamp_us events_before reads
                    y)"

end
