(* ===== verification/Rotor_Safety.thy ===== *)
theory Rotor_Safety
  imports Rotor_Runtime Backend_Control
begin

text \<open>
  The rotor control runtime over the current loop backend: the mode of the runtime, which of its
  controllers are active in it, and what the callback, the requests and the interrupts make of it.
  The lemmas of the first sections say what a call of a controller, and of the backend, does to the
  activity of that controller and of the loop; the callback is then followed path by path.
\<close>

section \<open>The controllers\<close>

lemma torque_after_update:
  assumes "torque_ok c" "ts_active (tq_status c)"
  obtains ev k where "aligned_torque_controller_update (Some c) now t valid phase velocity act =
    (ev, Some k)"
    "torque_ok k" "ev = ALIGNED_TORQUE_EVENT_REFERENCE_CHANGED" "ts_active (tq_status k)"
    "tq_deadline_millis k = tq_deadline_millis c" "tq_config k = tq_config c" "act" "valid"
    "\<not> time_reached now (tq_deadline_millis c)"
  | ev k where "aligned_torque_controller_update (Some c) now t valid phase velocity act = (ev,
    Some k)"
    "torque_ok k" "ev \<in> {ALIGNED_TORQUE_EVENT_COMPLETED, ALIGNED_TORQUE_EVENT_FAILED}"
    "\<not> ts_active (tq_status k)" "tq_config k = tq_config c" "act \<or> ev = ALIGNED_TORQUE_EVENT_FAILED"
proof -
  obtain ev k where u: "torque_update_active c now t valid phase velocity act = (ev,
    k)" by fastforce
  have i: "tq_initialized c" using assms(1) by (simp add: torque_ok_def Let_def)
  let ?v = "update_verdict c now t valid velocity act"
  have go: "act \<and> valid \<and> \<not> time_reached now (tq_deadline_millis c)" if "?v =
    ALIGNED_TORQUE_RESULT_NONE"
    using that by (simp add: update_verdict_def Let_def split: if_splits)
  have bad: "act" if "?v = ALIGNED_TORQUE_RESULT_DEADLINE"
    using that by (simp add: update_verdict_def Let_def split: if_splits)
  from torque_update_cases [OF assms u] i assms(2) u go bad that show thesis
    by (cases "?v = ALIGNED_TORQUE_RESULT_NONE"; cases "?v = ALIGNED_TORQUE_RESULT_DEADLINE")
      (auto simp: continued_def torque_ended_def)
qed

lemma torque_after_stop:
  assumes "torque_ok c"
  shows "torque_ok (the (snd (aligned_torque_controller_stop (Some c) now)))"
    "\<not> ts_active (tq_status (the (snd (aligned_torque_controller_stop (Some c) now))))"
    "tq_config (the (snd (aligned_torque_controller_stop (Some c) now))) = tq_config c"
    "torque_ok (the (snd (aligned_torque_controller_reference_rejected (Some c) now)))"
    "\<not> ts_active (tq_status (the (snd (aligned_torque_controller_reference_rejected (Some c)
      now))))"
    "tq_config (the (snd (aligned_torque_controller_reference_rejected (Some c) now))) =
      tq_config c"
  using call_torque_ok [OF assms, of "Torque_Stop now"] call_torque_ok [OF assms,
    of "Torque_Rejected now"] assms
  by (auto simp: clear_applied_reference_def fail_controller_def torque_ok_def Let_def)

lemma torque_after_start:
  assumes "torque_ok c" "start_controller (Some c) i d now t v = (ok, k)"
  obtains "\<not> ok" "k = Some c"
  | c' where "ok" "k = Some c'" "torque_ok c'" "ts_active (tq_status c')" "tq_deadline_millis c' =
    now + d"
      "tq_config c' = tq_config c"
proof -
  note ok = start_controller_ok [OF assms(1), of i d now t v]
  show thesis using that assms(2) ok
    by (auto simp: empty_torque_status_def simp del: aligned_torque_config_is_valid.simps split:
      if_splits)
qed

lemma velocity_after_update:
  assumes "velocity_ok c" "vl_active (vc_status c)"
  obtains ev k q where "velocity_controller_update fp (Some c) now (Some obs) (Some 0) = (ev,
    Some k, Some q)"
    "velocity_ok k" "ev = VELOCITY_CONTROL_EVENT_CURRENT_CHANGED" "vl_active (vc_status k)"
    "vc_deadline_millis k = vc_deadline_millis c" "vc_config k = vc_config c"
    "\<bar>sint q\<bar> \<le> uint (vg_maximum_current_counts (vc_config c))"
  | ev k q where "velocity_controller_update fp (Some c) now (Some obs) (Some 0) = (ev, Some k,
    Some q)"
    "velocity_ok k" "ev \<in> {VELOCITY_CONTROL_EVENT_COMPLETED, VELOCITY_CONTROL_EVENT_FAILED}"
    "\<not> vl_active (vc_status k)" "vc_config k = vc_config c"
    "time_reached now (vc_deadline_millis c) \<or> ev = VELOCITY_CONTROL_EVENT_FAILED"
proof -
  obtain ev k q where u: "velocity_update_active fp c now obs = (ev, k, q)" by (rule prod_cases3)
  have i: "vc_initialized c" using assms(1) by (simp add: velocity_ok_def Let_def)
  have d: "time_reached now (vc_deadline_millis c)" if "velocity_verdict c now obs =
    VELOCITY_CONTROL_RESULT_DEADLINE"
    using that by (simp add: velocity_verdict_def Let_def split: if_splits)
  have q: "\<bar>sint q\<bar> \<le> uint (vg_maximum_current_counts (vc_config c))"
    if "velocity_continued fp c k (feedback_seconds c obs) q"
  proof -
    have "velocity_ok k" "vl_requested_q_current_counts (vc_status k) = q" "vc_config k =
      vc_config c"
      using that by (simp_all add: velocity_continued_def)
    then show ?thesis unfolding velocity_ok_def Let_def by (metis order_trans)
  qed
  from velocity_update_cases [OF assms u] u i assms(2) d q that show thesis
    by (auto simp: velocity_continued_def velocity_ended_def split: velocity_control_result.splits)
qed

lemma velocity_after_start:
  assumes "velocity_ok c" "velocity_start_controller (Some c) v a l d k now (Some obs) z = (ok, c')"
  obtains "\<not> ok" "c' = Some c"
  | c1 where "ok" "c' = Some c1" "velocity_ok c1" "vl_active (vc_status c1)" "vc_deadline_millis c1
    = now + d"
proof -
  note ok = velocity_start_ok [OF assms(1), of v a l d k now obs z]
  show thesis using that assms(2) ok
    by (auto simp: Let_def empty_velocity_status_def simp del:
      velocity_controller_config_is_valid.simps split: if_splits)
qed

lemma alignment_after_start:
  assumes "controller_ok c" "alignment_controller_start (Some c) (Some al) i now = (ok, c')"
  obtains "\<not> ok" "c' = Some c"
  | c1 where "ok" "c' = Some c1" "controller_ok c1" "state_is_active (ks_state (ak_status c1))"
proof -
  obtain c1 where c1: "c' = Some c1" using assms(2) start_result [of c al i now] by auto
  have "controller_ok c1" using start_ok [OF assms(1)] assms(2) c1 by simp
  then show thesis using that assms(2) c1
    by (auto simp: set_reference_def state_is_active_def split: if_splits)
qed

lemma velocity_after_stop:
  assumes "velocity_ok c"
  shows "velocity_ok (the (snd (velocity_controller_stop (Some c) now)))"
    "\<not> vl_active (vc_status (the (snd (velocity_controller_stop (Some c) now))))"
    "vc_config (the (snd (velocity_controller_stop (Some c) now))) = vc_config c"
    "velocity_ok (the (snd (velocity_controller_actuator_failed (Some c) now)))"
    "\<not> vl_active (vc_status (the (snd (velocity_controller_actuator_failed (Some c) now))))"
    "vc_config (the (snd (velocity_controller_actuator_failed (Some c) now))) = vc_config c"
  using velocity_call_ok [OF assms, of _ "Velocity_Stop now"] velocity_call_ok [OF assms,
    of _ "Velocity_Actuator_Failed now"] assms
  by (auto simp: velocity_clear_request_def velocity_fail_controller_def velocity_ok_def Let_def)

lemma position_after_update:
  assumes "position_ok c" "xs_active (xc_status c)"
  obtains ev k v where "position_controller_update fp (Some c) now (Some obs) (Some 0) = (ev,
    Some k, Some v)"
    "position_ok k" "ev = POSITION_CONTROL_EVENT_VELOCITY_CHANGED" "xs_active (xc_status k)"
    "xc_deadline_millis k = xc_deadline_millis c" "xc_config k =
      xc_config c" "admitted_target (xc_config c) v"
    "\<not> time_reached now (xc_deadline_millis c)"
  | ev k v where "position_controller_update fp (Some c) now (Some obs) (Some 0) = (ev, Some k,
    Some v)"
    "position_ok k" "ev \<in> {POSITION_CONTROL_EVENT_COMPLETED, POSITION_CONTROL_EVENT_FAILED}"
    "\<not> xs_active (xc_status k)" "xc_config k = xc_config c"
proof -
  obtain ev k v where u: "position_update_active fp c now obs = (ev, k, v)" by (rule prod_cases3)
  have i: "xc_initialized c" using assms(1) by (simp add: position_ok_def)
  have nd: "ev = POSITION_CONTROL_EVENT_VELOCITY_CHANGED \<longrightarrow> \<not> time_reached now (xc_deadline_millis
    c)"
    using position_update_cases(2) [OF assms u] by blast
  have ad: "position_ok k \<Longrightarrow> admitted_target (xc_config k) (xs_target_velocity_q16_16 (xc_status k))"
    by (simp add: position_ok_def)
  from position_update_cases(1) [OF assms u] nd ad u i assms(2) that show thesis
    by (auto simp: position_outcome_def position_continued_def position_ended_def)
qed

lemma position_after_stop:
  assumes "position_ok c"
  shows "position_ok (the (snd (position_controller_stop (Some c) now)))"
    "\<not> xs_active (xc_status (the (snd (position_controller_stop (Some c) now))))"
    "xc_config (the (snd (position_controller_stop (Some c) now))) = xc_config c"
    "position_ok (the (snd (position_controller_actuator_failed (Some c) now)))"
    "\<not> xs_active (xc_status (the (snd (position_controller_actuator_failed (Some c) now))))"
    "xc_config (the (snd (position_controller_actuator_failed (Some c) now))) = xc_config c"
  using position_call_ok [OF assms, of _ "Position_Stop now"] position_call_ok [OF assms,
    of _ "Position_Actuator_Failed now"] assms
  by (auto simp: position_clear_request_def position_fail_controller_def position_ok_def)

text \<open>An alignment update ends the run exactly when it reports completion or failure.\<close>

lemma alignment_stage_activity:
  assumes "state_is_active (ks_state (ak_status c))" "sample_stage c al now raw a b = Some ((e, k),
    al')"
  shows "state_is_active (ks_state (ak_status k)) \<longleftrightarrow>
     e \<in> {ALIGNMENT_CONTROLLER_EVENT_NONE, ALIGNMENT_CONTROLLER_EVENT_REFERENCE_CHANGED}"
proof -
  let ?ends = "\<lambda>e k. state_is_active (ks_state (ak_status k)) \<longleftrightarrow>
     e \<in> {ALIGNMENT_CONTROLLER_EVENT_NONE, ALIGNMENT_CONTROLLER_EVENT_REFERENCE_CHANGED}"
  have f: "fail x r now = (e', k') \<Longrightarrow> ?ends e' k'" for x r e' k'
    by (auto simp: fail_def set_reference_def state_is_active_def)
  have r: "finish_return x al m now = ((e', k'), al'') \<Longrightarrow> ?ends e' k'" for x m e' k' al''
    using f by (auto simp: finish_return_def Let_def set_reference_def state_is_active_def
      split: if_splits prod.splits option.splits bool.splits)
  have g: "finish_stop x al m now = ((e', k'), al'') \<Longrightarrow> ?ends e' k'" for x m e' k' al''
    using f r [of x m e' k' al''] by (auto simp: finish_stop_def finish_zero_def finish_quarter_def next_stop_def Let_def
      set_reference_def state_is_active_def split: alignment_controller_state.splits)
  show ?thesis
    using assms f g by (auto simp: sample_stage_def Let_def split: if_splits prod.splits bool.splits
      option.splits)
qed

lemma alignment_after_update:
  assumes "controller_ok c" "state_is_active (ks_state (ak_status c))" "ma_initialized al"
  obtains e k al' where "alignment_controller_update (Some c) al now v raw a b act = Some ((e,
    Some k), al')"
    "controller_ok k" "ma_initialized al'" "state_is_active (ks_state (ak_status k)) \<longleftrightarrow>
     e \<in> {ALIGNMENT_CONTROLLER_EVENT_NONE, ALIGNMENT_CONTROLLER_EVENT_REFERENCE_CHANGED}"
    "e \<in> {ALIGNMENT_CONTROLLER_EVENT_NONE, ALIGNMENT_CONTROLLER_EVENT_REFERENCE_CHANGED} \<longrightarrow> act"
proof -
  obtain e k al' where u: "alignment_controller_update (Some c) al now v raw a b act = Some ((e,
    Some k), al')"
    "update_active c al now v raw a b act = Some ((e, k), al')"
    using update_result [OF assms(1), of al now v raw a b act] assms(2,3) by auto
  note o = update_active_outcome [OF u(2) assms(1,2)]
  define c1 where "c1 = c\<lparr>ak_status := (ak_status c)\<lparr>ks_elapsed_millis :=
    now - ak_operation_start_millis c\<rparr>\<rparr>"
  have s: "state_is_active (ks_state (ak_status (settle_stage c1 now)))"
    using assms(2) by (auto simp: c1_def settle_stage_def begin_sampling_def Let_def
      state_is_active_def
      split: alignment_controller_state.splits)
  have "state_is_active (ks_state (ak_status k)) \<longleftrightarrow>
      e \<in> {ALIGNMENT_CONTROLLER_EVENT_NONE, ALIGNMENT_CONTROLLER_EVENT_REFERENCE_CHANGED}"
    "e \<in> {ALIGNMENT_CONTROLLER_EVENT_NONE, ALIGNMENT_CONTROLLER_EVENT_REFERENCE_CHANGED} \<longrightarrow> act"
    using u(2) alignment_stage_activity [OF s, of al now raw a b e k al']
    by (auto simp: update_active_def Let_def c1_def [symmetric] fail_def set_reference_def
      state_is_active_def
      split: if_splits)
  moreover have "ma_initialized al'" using o assms(3)
    by (auto simp: completed_run_def split: if_splits option.splits)
  ultimately show thesis using that u(1) o by simp
qed

lemma alignment_after_abort:
  assumes "controller_ok c"
  shows "controller_ok (the (alignment_controller_abort (Some c) now))"
    "\<not> state_is_active (ks_state (ak_status (the (alignment_controller_abort (Some c) now))))"
  using call_alignment_keeps [of "(c, undefined)" "Align_Abort now"] assms
  by (auto simp: controller_ok_def state_is_active_def set_reference_def)

declare alignment_controller_update.simps [simp del] alignment_controller_abort.simps [simp del]
  alignment_controller_start.simps [simp del] alignment_controller_is_active.simps [simp del]
  aligned_torque_controller_update.simps [simp del] aligned_torque_controller_stop.simps [simp del]
  aligned_torque_controller_reference_rejected.simps [simp del]
  aligned_torque_controller_set_target.simps [simp del] start_controller.simps [simp del]
  aligned_torque_controller_is_active.simps [simp del] velocity_controller_update.simps [simp del]
  velocity_controller_stop.simps [simp del] velocity_controller_actuator_failed.simps [simp del]
  velocity_controller_set_target.simps [simp del] velocity_start_controller.simps [simp del]
  velocity_controller_start_tracking.simps [simp del] velocity_controller_is_active.simps [simp del]
  position_controller_update.simps [simp del] position_controller_stop.simps [simp del]
  position_controller_actuator_failed.simps [simp del]
  position_controller_start_relative.simps [simp del] position_controller_is_active.simps [simp del]

lemmas activity = alignment_controller_is_active.simps aligned_torque_controller_is_active.simps
  velocity_controller_is_active.simps position_controller_is_active.simps

section \<open>The backend\<close>

lemma upd_parts [simp]: "sy_runtime (upd f y) = f (sy_runtime y)" "sy_backend (upd f y) =
  sy_backend y"
  "sy_profile (upd f y) = sy_profile y"
  by (simp_all add: upd_def)

lemma upd_upd: "upd f (upd g y) = upd (f \<circ> g) y"
  by (simp add: upd_def)

lemma on_backend_parts:
  "fst (on_backend f y) = fst (f (sy_backend y))" "sy_runtime (snd (on_backend f y)) = sy_runtime y"
  "sy_backend (snd (on_backend f y)) = snd (f (sy_backend y))" "sy_profile (snd (on_backend f y)) =
    sy_profile y"
  by (simp_all add: on_backend_def split: prod.split)

lemma force_low_parts [simp]: "sy_runtime (force_low pf y) =
  sy_runtime y" "sy_profile (force_low pf y) = sy_profile y"
  "sy_backend (force_low pf y) = force_bridge_low pf (sy_backend y)"
  by (simp_all add: force_low_def)

lemma force_low_backend [simp]: "cb_active (force_bridge_low pf s) = cb_active s"
  "cb_fault_flags (force_bridge_low pf s) = cb_fault_flags s" "control_ok (force_bridge_low pf s) =
    control_ok s"
  "cb_bootstrap_probe_active (force_bridge_low pf s) = cb_bootstrap_probe_active s"
  by (simp_all add: force_bridge_low_def)

text \<open>Only the two starts activate the loop; a stop deactivates it.\<close>

fun starts_loop :: "'h backend_call \<Rightarrow> bool" where
  "starts_loop Backend_Start = True"
| "starts_loop (Start_Probe d v) = True"
| "starts_loop _ = False"

lemma stop_inactive:
  assumes "control_ok s"
  shows "\<not> cb_active (snd (current_loop_backend_stop pf s))"
  using assms by (auto simp: current_loop_backend_stop_def Let_def accesses reset_predictor_def
    control_ok_def split: prod.split bool.split)

lemma fault_inactive: "\<not> cb_active (fault_from_interrupt pf f s)"
  by (simp add: fault_from_interrupt_def Let_def accesses)

lemma inactive_aligned:
  "\<not> cb_active s \<Longrightarrow> \<not> cb_active (snd (current_loop_backend_set_aligned_q_reference pf q p v d t s))"
  by (auto simp: current_loop_backend_set_aligned_q_reference_def Let_def accesses
    set_loop_reference_result
    record_prediction_rejection_def record_prediction_age_def split: prod.splits bool.splits
      sum.splits if_splits)

lemma inactive_reference:
  "\<not> cb_active s \<Longrightarrow> \<not> cb_active (snd (current_loop_backend_set_reference_counts pf a b s))"
  by (auto simp: current_loop_backend_set_reference_counts_def Let_def accesses reset_predictor_def
    set_loop_reference_result split: prod.splits bool.splits if_splits)

lemma inactive_rotating:
  "\<not> cb_active s \<Longrightarrow> \<not> cb_active (snd (current_loop_backend_set_rotating_reference a i p n m s))"
  by (auto simp: current_loop_backend_set_rotating_reference_def Let_def accesses
    reset_predictor_def
    set_loop_reference_result split: prod.splits bool.splits if_splits)

lemma inactive_call:
  assumes "\<not> cb_active s" "\<not> starts_loop e"
  shows "\<not> cb_active (call_backend pf s e)"
proof (cases e)
  case (Adc_Event early late after status snapshot)
  then show ?thesis using assms by (simp add: adc_current_event_def fault_inactive)
next
  case Pwm_Update
  then show ?thesis using assms by (simp add: pwm_update_event_def Let_def)
next
  case (Backend_Init c p)
  then show ?thesis using assms init_flags [of pf c p s] by (auto simp: flags_of_def)
next
  case Recover
  then show ?thesis using assms recover_flags(1) [of s pf None]
    by (cases "cb_initialized s") (auto simp: current_loop_backend_recover_def)
next
  case (Reconfigure kp ki)
  then show ?thesis using assms reconfigure_flags(2) [of s pf kp ki] by simp
next
  case Backend_Stop
  then show ?thesis using assms by (auto simp: current_loop_backend_stop_def Let_def accesses
    reset_predictor_def
    split: prod.splits bool.splits)
next
  case (Refresh_Probe v)
  then show ?thesis using assms by (simp add: current_loop_backend_refresh_bootstrap_probe_vbus_def)
next
  case Trace_Arm
  then show ?thesis using assms by (auto simp: current_loop_backend_trace_arm_def Let_def accesses
    split: prod.splits)
next
  case (Hardware h)
  then show ?thesis using assms by (simp add: hardware_event_def on_hw_result)
qed (use assms in \<open>simp_all add: inactive_aligned inactive_reference inactive_rotating\<close>)

lemma start_outcome:
  assumes "\<not> cb_active s"
  shows "cb_active (snd (current_loop_backend_start pf s)) \<longleftrightarrow> fst (current_loop_backend_start pf s)"
  using assms by (auto simp: current_loop_backend_start_def Let_def accesses fault_inactive split:
    prod.splits bool.splits if_splits)

lemma reference_keeps_active:
  "fst (current_loop_backend_set_reference_counts pf a b s) \<Longrightarrow>
     cb_active (snd (current_loop_backend_set_reference_counts pf a b s)) = cb_active s"
  "fst (current_loop_backend_set_aligned_q_reference pf q p v d t s) \<Longrightarrow>
     cb_active (snd (current_loop_backend_set_aligned_q_reference pf q p v d t s)) = cb_active s"
  by (auto simp: current_loop_backend_set_reference_counts_def
    current_loop_backend_set_aligned_q_reference_def
    Let_def accesses reset_predictor_def record_prediction_age_def
    set_loop_reference_result split: prod.splits bool.splits if_splits sum.splits)

section \<open>Modes\<close>

datatype drive_mode = Mode_Idle | Mode_Alignment | Mode_Torque | Mode_Velocity | Mode_Position

text \<open>The mode, by the order in which the callback asks for the active controller.\<close>

definition mode_of :: "rotor_control_runtime \<Rightarrow> drive_mode" where
  "mode_of r =
     (if alignment_controller_is_active (Some (ru_alignment_controller r)) then Mode_Alignment
      else if position_controller_is_active (Some (ru_position_controller r)) then Mode_Position
      else if velocity_controller_is_active (Some (ru_velocity_controller r)) then Mode_Velocity
      else if aligned_torque_controller_is_active (Some (ru_torque_controller r)) then Mode_Torque
      else Mode_Idle)"

text \<open>The controllers below the one that gives the mode are active, with the same deadline.\<close>

definition cascade_ok :: "rotor_control_runtime \<Rightarrow> bool" where
  "cascade_ok r \<longleftrightarrow> (let tq = aligned_torque_controller_is_active (Some (ru_torque_controller r));
       ve = velocity_controller_is_active (Some (ru_velocity_controller r));
       po = position_controller_is_active (Some (ru_position_controller r));
       deadline = tq_deadline_millis (ru_torque_controller r)
     in (alignment_controller_is_active (Some (ru_alignment_controller r)) \<longrightarrow> \<not> tq \<and> \<not> ve \<and> \<not> po) \<and>
        (ve \<longrightarrow> tq \<and> vc_deadline_millis (ru_velocity_controller r) = deadline) \<and>
        (po \<longrightarrow> ve \<and> xc_deadline_millis (ru_position_controller r) = deadline))"

definition controllers_ok :: "rotor_control_runtime \<Rightarrow> bool" where
  "controllers_ok r \<longleftrightarrow> ru_initialized r \<and> ma_initialized (ru_motor_alignment r) \<and>
     controller_ok (ru_alignment_controller r) \<and> torque_ok (ru_torque_controller r) \<and>
     velocity_ok (ru_velocity_controller r) \<and> position_ok (ru_position_controller r)"

definition request_ok :: "rotor_control_runtime \<Rightarrow> bool" where
  "request_ok r \<longleftrightarrow> ru_request_flags r \<in> {0, ROTOR_CONTROL_REQUEST_STOP} \<or> mode_of r = Mode_Idle \<and>
     ru_request_flags r \<in> {ROTOR_CONTROL_REQUEST_ALIGNMENT, ROTOR_CONTROL_REQUEST_TORQUE,
       ROTOR_CONTROL_REQUEST_VELOCITY, ROTOR_CONTROL_REQUEST_POSITION}"

definition backend_ok :: "'h platform \<Rightarrow> 'h loop_backend \<Rightarrow> bool" where
  "backend_ok pf s \<longleftrightarrow> fault_safe pf s \<and> control_ok s"

text \<open>The invariant. It does not tie the loop to a controller: the foreground starts the loop on its
  own for the commissioning test and the bootstrap probe.\<close>

definition rotor_ok :: "'h platform \<Rightarrow> 'h rotor_system \<Rightarrow> bool" where
  "rotor_ok pf y \<longleftrightarrow> controllers_ok (sy_runtime y) \<and> cascade_ok (sy_runtime y) \<and>
     request_ok (sy_runtime y) \<and> backend_ok pf (sy_backend y)"

text \<open>What the mode depends on.\<close>

definition core_of :: "rotor_control_runtime \<Rightarrow> bool \<times> motor_alignment \<times> alignment_controller \<times>
    aligned_torque_controller \<times> velocity_controller \<times> position_controller" where
  "core_of r = (ru_initialized r, ru_motor_alignment r, ru_alignment_controller r,
    ru_torque_controller r,
     ru_velocity_controller r, ru_position_controller r)"

lemma core_determines:
  assumes "core_of r' = core_of r"
  shows "mode_of r' = mode_of r" "cascade_ok r' = cascade_ok r" "controllers_ok r' =
    controllers_ok r"
    "runtime_active r' = runtime_active r" "tq_deadline_millis (ru_torque_controller r') =
      tq_deadline_millis (ru_torque_controller r)"
  using assms by (simp_all add: core_of_def mode_of_def cascade_ok_def controllers_ok_def
    runtime_active_def)

lemma active_iff_mode: "runtime_active r \<longleftrightarrow> mode_of r \<noteq> Mode_Idle"
  by (simp add: runtime_active_def mode_of_def)

lemma published_core [simp]:
  "core_of (publish_full_snapshot r) = core_of r" "core_of (publish_progress_snapshot r) =
    core_of r"
  "core_of (publish_callback_state t b r) = core_of r" "core_of (publish_snapshots r) = core_of r"
  "core_of (clear_requests r) = core_of r"
  by (simp_all add: core_of_def publish_full_snapshot_def publish_progress_snapshot_def
    publish_callback_state_def
    publish_snapshots_def clear_requests_def)

lemma published_flags [simp]:
  "ru_event_flags (publish_full_snapshot r) =
    ru_event_flags r" "ru_event_flags (publish_progress_snapshot r) = ru_event_flags r"
  "ru_event_flags (publish_callback_state t b r) =
    ru_event_flags r" "ru_event_flags (publish_snapshots r) = ru_event_flags r"
  "ru_request_flags (publish_full_snapshot r) =
    ru_request_flags r" "ru_request_flags (publish_progress_snapshot r) = ru_request_flags r"
  "ru_request_flags (publish_callback_state t b r) =
    ru_request_flags r" "ru_request_flags (publish_snapshots r) = ru_request_flags r"
  "ru_request_flags (clear_requests r) = 0" "ru_event_flags (clear_requests r) = ru_event_flags r"
  by (simp_all add: publish_full_snapshot_def publish_progress_snapshot_def
    publish_callback_state_def
    publish_snapshots_def clear_requests_def)

section \<open>Ends of a run\<close>

text \<open>A run has ended with the given event: idle, loop off, and on a fault the bridge driven low.\<close>

definition ended_with :: "'h platform \<Rightarrow> u32 \<Rightarrow> 'h rotor_system \<Rightarrow> 'h rotor_system \<Rightarrow> bool" where
  "ended_with pf event y y' \<longleftrightarrow> controllers_ok (sy_runtime y') \<and> mode_of (sy_runtime y') = Mode_Idle \<and>
     ru_request_flags (sy_runtime y') = ru_request_flags (sy_runtime y) \<and>
     ru_event_flags (sy_runtime y') = ru_event_flags (sy_runtime y) OR event \<and>
     backend_ok pf (sy_backend y') \<and> \<not> cb_active (sy_backend y') \<and>
     (event = ROTOR_CONTROL_EVENT_FAULT \<longrightarrow> bridge_off pf (cb_bridge (sy_backend y')))"

lemma stop_and_fault_runtime:
  "sy_runtime (stop_and_fault pf y) = (sy_runtime y)\<lparr>ru_event_flags := ru_event_flags (sy_runtime y)
    OR ROTOR_CONTROL_EVENT_FAULT\<rparr>"
  by (simp add: stop_and_fault_def raise_event_def backend_stop_def on_backend_parts)

lemma event_core [simp]: "core_of (r\<lparr>ru_event_flags := e\<rparr>) = core_of r" "core_of (r\<lparr>ru_request_flags
  := e\<rparr>) = core_of r"
  "core_of (ru_encoder_diagnostics_update f r) =
    core_of r" "core_of (ru_estimator_fault_flags_update g r) = core_of r"
  "core_of (ru_angle_tracker_update h r) = core_of r"
  by (simp_all add: core_of_def)

context loop_platform
begin

lemma force_low_ok: "backend_ok pf s \<Longrightarrow> backend_ok pf (force_bridge_low pf s)"
  by (auto simp: backend_ok_def fault_safe_def force_bridge_low_def)

lemma stop_ok: "backend_ok pf s \<Longrightarrow> backend_ok pf (snd (current_loop_backend_stop pf s))"
  by (simp add: backend_ok_def stop_safe stop_control)

lemma call_ok: "backend_ok pf s \<Longrightarrow> backend_ok pf (call_backend pf s e)"
  by (simp add: backend_ok_def call_backend_safe call_backend_control)

lemma stop_and_fault_ends:
  assumes "backend_ok pf (sy_backend y)" "controllers_ok (sy_runtime y)" "mode_of (sy_runtime y) =
    Mode_Idle"
  shows "ended_with pf ROTOR_CONTROL_EVENT_FAULT y (stop_and_fault pf y)"
proof -
  have b: "sy_backend (stop_and_fault pf y) = force_bridge_low pf (snd (current_loop_backend_stop pf
    (sy_backend y)))"
    by (simp add: stop_and_fault_def raise_event_def backend_stop_def on_backend_parts)
  have "core_of (sy_runtime (stop_and_fault pf y)) =
    core_of (sy_runtime y)" by (simp add: stop_and_fault_runtime)
  from core_determines [OF this] show ?thesis
    using assms force_low_ok [OF stop_ok [OF assms(1)]] stop_inactive [of "sy_backend y" pf]
    by (simp add: ended_with_def b backend_ok_def stop_and_fault_runtime force_bridge_low_def)
qed

lemma stop_backend_ends:
  assumes "backend_ok pf (sy_backend y)" "controllers_ok (sy_runtime y)" "mode_of (sy_runtime y) =
    Mode_Idle"
    "event \<noteq> ROTOR_CONTROL_EVENT_FAULT"
  shows "\<exists>e \<in> {event, ROTOR_CONTROL_EVENT_FAULT}. ended_with pf e y (snd (stop_backend pf event y))"
proof -
  define ok s where "ok = fst (current_loop_backend_stop pf (sy_backend y))"
    and "s = snd (current_loop_backend_stop pf (sy_backend y))"
  have b: "backend_ok pf s" "\<not> cb_active s"
    using stop_ok [OF assms(1)] stop_inactive [of "sy_backend y" pf] assms(1)
      by (simp_all add: s_def backend_ok_def)
  have on: "on_backend (current_loop_backend_stop pf) y = (ok, y\<lparr>sy_backend := s\<rparr>)"
    by (simp add: on_backend_def ok_def s_def split: prod.split)
  show ?thesis
  proof (cases "ok \<and> cb_fault_flags s = 0")
    case True
    with b assms core_determines [OF event_core(1)] show ?thesis
      by (auto simp: stop_backend_def on raise_event_def ended_with_def)
  next
    case False
    with b force_low_ok [OF b(1)] assms core_determines [OF event_core(1)] show ?thesis
      by (auto simp: stop_backend_def on raise_event_def ended_with_def force_bridge_low_def)
  qed
qed

lemma backend_calls_ok:
  assumes "backend_ok pf s"
  shows "backend_ok pf (snd (current_loop_backend_set_reference_counts pf a b s))"
    "backend_ok pf (snd (current_loop_backend_set_aligned_q_reference pf q p v d t s))"
    "backend_ok pf (snd (current_loop_backend_start pf s))"
  using call_ok [OF assms, of "Set_Reference a b"] call_ok [OF assms, of "Set_Aligned q p v d t"]
    call_ok [OF assms, of Backend_Start] by simp_all

end

section \<open>Updates\<close>

text \<open>A run goes on: same mode, the loop active before and after, no event, and the deadline not
  reached.\<close>

definition goes_on :: "'h platform \<Rightarrow> u32 \<Rightarrow> 'h rotor_system \<Rightarrow> 'h rotor_system \<Rightarrow> bool" where
  "goes_on pf now y y' \<longleftrightarrow> controllers_ok (sy_runtime y') \<and> cascade_ok (sy_runtime y') \<and>
     mode_of (sy_runtime y') = mode_of (sy_runtime y) \<and>
     ru_request_flags (sy_runtime y') = ru_request_flags (sy_runtime y) \<and>
     ru_event_flags (sy_runtime y') = ru_event_flags (sy_runtime y) \<and>
     backend_ok pf (sy_backend y') \<and> cb_active (sy_backend y) \<and> cb_active (sy_backend y') \<and>
     (mode_of (sy_runtime y) \<noteq> Mode_Alignment \<longrightarrow>
        \<not> time_reached now (tq_deadline_millis (ru_torque_controller (sy_runtime y))) \<and>
        tq_deadline_millis (ru_torque_controller (sy_runtime y')) =
          tq_deadline_millis (ru_torque_controller (sy_runtime y)))"

lemma torque_step_cases:
  fixes pf :: "'h platform"
  assumes "loop_platform pf" "backend_ok pf (sy_backend y)" "torque_ok (ru_torque_controller
    (sy_runtime y))"
    "ts_active (tq_status (ru_torque_controller (sy_runtime y)))"
  obtains k y' where "torque_step pf now t phase v (cb_active (sy_backend y)) y =
    (ALIGNED_TORQUE_EVENT_REFERENCE_CHANGED, y')"
    "sy_runtime y' = (sy_runtime y)\<lparr>ru_torque_controller := k\<rparr>" "torque_ok k" "ts_active (tq_status
      k)"
    "tq_deadline_millis k = tq_deadline_millis (ru_torque_controller (sy_runtime y))"
    "\<not> time_reached now (tq_deadline_millis k)" "backend_ok pf (sy_backend y')" "cb_active
      (sy_backend y')" "cb_active (sy_backend y)"
  | ev k y' where "torque_step pf now t phase v (cb_active (sy_backend y)) y = (ev, y')"
    "ev \<in> {ALIGNED_TORQUE_EVENT_COMPLETED, ALIGNED_TORQUE_EVENT_FAILED}"
    "sy_runtime y' = (sy_runtime y)\<lparr>ru_torque_controller := k\<rparr>" "torque_ok k" "\<not> ts_active
      (tq_status k)"
    "backend_ok pf (sy_backend y')"
proof -
  let ?c = "ru_torque_controller (sy_runtime y)" and ?act = "cb_active (sy_backend y)"
  show thesis
  proof (cases rule: torque_after_update [OF assms(3,4),
    of now t "fst phase" "snd phase" "float_to_q16_16 v" ?act])
    case (1 ev k)
    define st where "st = the (aligned_torque_controller_get_status (Some k)
      (Some empty_torque_status))"
    let ?y = "upd (\<lambda>r. r\<lparr>ru_torque_controller := k\<rparr>) y"
    define ok y1 where "ok = fst (publish_aligned_q_reference pf st t ?y)" and "y1 =
      snd (publish_aligned_q_reference pf st t ?y)"
    have y1: "sy_runtime y1 = (sy_runtime y)\<lparr>ru_torque_controller :=
      k\<rparr>" "backend_ok pf (sy_backend y1)"
      "ok \<Longrightarrow> cb_active (sy_backend y1)"
      using loop_platform.backend_calls_ok(2) [OF assms(1,2)] 1(7)
      by (simp_all add: y1_def ok_def publish_aligned_q_reference_def on_backend_parts
        reference_keeps_active)
    have step: "torque_step pf now t phase v ?act y = (if ok then (ev, y1)
      else (ALIGNED_TORQUE_EVENT_FAILED,
        upd (\<lambda>r. r\<lparr>ru_torque_controller := the (snd (aligned_torque_controller_reference_rejected
          (Some (ru_torque_controller r)) now))\<rparr>) y1))"
      using 1(1,3) by (simp add: torque_step_def Let_def ok_def y1_def st_def split: prod.split
        bool.split)
    show thesis
    proof (cases ok)
      case True
      with step y1 1 that(1) show thesis by simp
    next
      case False
      with step y1 torque_after_stop(4,5) [OF 1(2), of now] that(2) show thesis by simp
    qed
  next
    case (2 ev k)
    then show thesis using that(2) assms(2) by (auto simp: torque_step_def Let_def)
  qed
qed

lemma ended_with_same:
  assumes "ended_with pf e y1 y'" "ru_event_flags (sy_runtime y1) = ru_event_flags (sy_runtime y)"
    "ru_request_flags (sy_runtime y1) = ru_request_flags (sy_runtime y)"
  shows "ended_with pf e y y'"
  using assms by (simp add: ended_with_def)

text \<open>With initialised controllers, the mode in terms of their status.\<close>

lemma mode_by_status:
  assumes "controllers_ok r"
  shows "mode_of r =
     (if state_is_active (ks_state (ak_status (ru_alignment_controller r))) then Mode_Alignment
      else if xs_active (xc_status (ru_position_controller r)) then Mode_Position
      else if vl_active (vc_status (ru_velocity_controller r)) then Mode_Velocity
      else if ts_active (tq_status (ru_torque_controller r)) then Mode_Torque else Mode_Idle)"
    "cascade_ok r \<longleftrightarrow> (state_is_active (ks_state (ak_status (ru_alignment_controller r))) \<longrightarrow>
        \<not> ts_active (tq_status (ru_torque_controller r)) \<and>
          \<not> vl_active (vc_status (ru_velocity_controller r)) \<and>
        \<not> xs_active (xc_status (ru_position_controller r))) \<and>
      (vl_active (vc_status (ru_velocity_controller r)) \<longrightarrow> ts_active (tq_status (ru_torque_controller
        r)) \<and>
        vc_deadline_millis (ru_velocity_controller r) = tq_deadline_millis (ru_torque_controller r))
          \<and>
      (xs_active (xc_status (ru_position_controller r))
        \<longrightarrow> vl_active (vc_status (ru_velocity_controller r)) \<and>
        xc_deadline_millis (ru_position_controller r) = tq_deadline_millis (ru_torque_controller
          r))"
  using assms by (auto simp: mode_of_def cascade_ok_def controllers_ok_def controller_ok_def
    torque_ok_def
      velocity_ok_def position_ok_def activity Let_def)

text \<open>Replacing a controller by one that keeps its invariant.\<close>

lemma controllers_ok_replace:
  assumes "controllers_ok r"
  shows "controller_ok a \<Longrightarrow> ma_initialized m \<Longrightarrow> controllers_ok (r\<lparr>ru_alignment_controller := a,
    ru_motor_alignment := m\<rparr>)"
    "controller_ok a \<Longrightarrow> controllers_ok (r\<lparr>ru_alignment_controller := a\<rparr>)"
    "torque_ok t \<Longrightarrow> controllers_ok (r\<lparr>ru_torque_controller := t\<rparr>)"
    "velocity_ok v \<Longrightarrow> controllers_ok (r\<lparr>ru_velocity_controller := v\<rparr>)"
    "position_ok x \<Longrightarrow> controllers_ok (r\<lparr>ru_position_controller := x\<rparr>)"
  using assms by (simp_all add: controllers_ok_def)

lemma apply_alignment_parts:
  "sy_runtime (snd (apply_alignment_reference pf y)) = sy_runtime y"
  "loop_platform pf \<Longrightarrow> backend_ok pf (sy_backend y) \<Longrightarrow>
    backend_ok pf (sy_backend (snd (apply_alignment_reference pf y)))"
  "fst (apply_alignment_reference pf y) \<Longrightarrow> cb_active (sy_backend (snd (apply_alignment_reference pf
    y))) = cb_active (sy_backend y)"
  "\<not> cb_active (sy_backend y) \<Longrightarrow> \<not> cb_active (sy_backend (snd (apply_alignment_reference pf y)))"
  by (auto simp: apply_alignment_reference_def on_backend_parts loop_platform.backend_calls_ok
    reference_keeps_active
    inactive_reference split: prod.splits)

context loop_platform
begin

text \<open>Two ways to end once the controllers are off.\<close>

lemma ends_released:
  assumes "backend_ok pf (sy_backend y1)" "controllers_ok (sy_runtime y1)" "mode_of (sy_runtime y1)
    = Mode_Idle"
    "ru_event_flags (sy_runtime y1) = ru_event_flags (sy_runtime y)" "ru_request_flags (sy_runtime
      y1) = ru_request_flags (sy_runtime y)"
  shows "event \<noteq> ROTOR_CONTROL_EVENT_FAULT \<Longrightarrow> \<exists>e \<in> {event, ROTOR_CONTROL_EVENT_FAULT}.
      ended_with pf e y (snd (stop_backend pf event y1))"
    "ended_with pf ROTOR_CONTROL_EVENT_FAULT y (stop_and_fault pf y1)"
  using stop_backend_ends [OF assms(1-3)] stop_and_fault_ends [OF assms(1-3)]
    ended_with_same [OF _ assms(4,5)] by auto

lemma alignment_update_cases:
  assumes "rotor_ok pf y" "mode_of (sy_runtime y) = Mode_Alignment"
  obtains y' where "update_alignment pf sample now y = Some y'" "goes_on pf now y y'"
  | y' e where "update_alignment pf sample now y = Some y'" "ended_with pf e y y'"
    "e \<in> {ROTOR_CONTROL_EVENT_AUTHORITY_RELEASED, ROTOR_CONTROL_EVENT_ALIGNMENT_COMPLETED,
      ROTOR_CONTROL_EVENT_FAULT}"
proof -
  let ?r = "sy_runtime y" and ?s = "sy_backend y"
  have ok: "controllers_ok ?r" "cascade_ok ?r" "backend_ok pf ?s" using assms(1)
    by (simp_all add: rotor_ok_def)
  have on: "state_is_active (ks_state (ak_status (ru_alignment_controller ?r)))"
    and others: "\<not> ts_active (tq_status (ru_torque_controller ?r))" "\<not> vl_active (vc_status
      (ru_velocity_controller ?r))"
     "\<not> xs_active (xc_status (ru_position_controller ?r))"
    using assms(2) ok(2) unfolding mode_by_status [OF ok(1)] by (auto split: if_splits)
  obtain e k al where u: "alignment_controller_update (Some (ru_alignment_controller ?r))
    (ru_motor_alignment ?r) now True
      (ms_angle_raw sample) (po_current_a_measured_counts (cb_latest_output ?s))
      (po_current_b_measured_counts (cb_latest_output ?s)) (cb_active ?s) = Some ((e, Some k), al)"
    and k: "controller_ok k" "ma_initialized al" "state_is_active (ks_state (ak_status k)) \<longleftrightarrow>
       e \<in> {ALIGNMENT_CONTROLLER_EVENT_NONE, ALIGNMENT_CONTROLLER_EVENT_REFERENCE_CHANGED}"
      "e \<in> {ALIGNMENT_CONTROLLER_EVENT_NONE, ALIGNMENT_CONTROLLER_EVENT_REFERENCE_CHANGED} \<longrightarrow>
        cb_active ?s"
    using ok(1) on by (auto simp: controllers_ok_def intro: alignment_after_update [of
      "ru_alignment_controller ?r" "ru_motor_alignment ?r"
      now True "ms_angle_raw sample" "po_current_a_measured_counts (cb_latest_output ?s)"
      "po_current_b_measured_counts (cb_latest_output ?s)" "cb_active ?s"])
  define y1 where "y1 = upd (\<lambda>r. r\<lparr>ru_alignment_controller := k, ru_motor_alignment := al\<rparr>) y"
  have y1: "controllers_ok (sy_runtime y1)" "backend_ok pf (sy_backend y1)" "sy_backend y1 = ?s"
    "ru_event_flags (sy_runtime y1) = ru_event_flags ?r" "ru_request_flags (sy_runtime y1) =
      ru_request_flags ?r"
    using controllers_ok_replace(1) [OF ok(1) k(1,2)] ok(3) by (simp_all add: y1_def)
  have m: "mode_of (sy_runtime y1) = (if state_is_active (ks_state (ak_status k))
    then Mode_Alignment else Mode_Idle)"
    "cascade_ok (sy_runtime y1)"
    using others unfolding mode_by_status [OF y1(1)] by (simp_all add: y1_def)
  have upd: "update_alignment pf sample now y = Some (case e of
      ALIGNMENT_CONTROLLER_EVENT_REFERENCE_CHANGED \<Rightarrow> (case apply_alignment_reference pf y1 of (ok,
        y) \<Rightarrow>
        if ok then y else stop_and_fault pf (upd (abort_alignment now) y))
    | ALIGNMENT_CONTROLLER_EVENT_COMPLETED \<Rightarrow>
      snd (stop_backend pf ROTOR_CONTROL_EVENT_ALIGNMENT_COMPLETED y1)
    | ALIGNMENT_CONTROLLER_EVENT_FAILED \<Rightarrow>
      snd (stop_backend pf ROTOR_CONTROL_EVENT_AUTHORITY_RELEASED y1)
    | ALIGNMENT_CONTROLLER_EVENT_NONE \<Rightarrow> y1)"
    by (cases e) (simp_all add: update_alignment_def Let_def u y1_def)
  show thesis
  proof (cases e)
    case ALIGNMENT_CONTROLLER_EVENT_NONE
    then have "goes_on pf now y y1" using m k y1 assms(2) by (simp add: goes_on_def)
    with that(1) upd ALIGNMENT_CONTROLLER_EVENT_NONE show thesis by simp
  next
    case ALIGNMENT_CONTROLLER_EVENT_REFERENCE_CHANGED
    obtain ok' y2 where a: "apply_alignment_reference pf y1 = (ok', y2)" by fastforce
    note p = apply_alignment_parts [where pf = pf and y = y1, unfolded a,
      simplified] apply_alignment_parts(2) [OF loop_platform_axioms y1(2), unfolded a, simplified]
    show thesis
    proof (cases ok')
      case True
      then have "goes_on pf now y y2" using p m k y1 assms(2)
        ALIGNMENT_CONTROLLER_EVENT_REFERENCE_CHANGED by (simp add: goes_on_def)
      with that(1) upd a True ALIGNMENT_CONTROLLER_EVENT_REFERENCE_CHANGED show thesis by simp
    next
      case False
      let ?y3 = "upd (abort_alignment now) y2"
      have kk: "ru_alignment_controller (sy_runtime y2) = k" by (simp add: p y1_def)
      have c3: "controllers_ok (sy_runtime ?y3)"
        using controllers_ok_replace(2) [OF y1(1) alignment_after_abort(1) [OF k(1),
          of now]] by (simp add: abort_alignment_def p kk y1_def)
      have m3: "mode_of (sy_runtime ?y3) = Mode_Idle"
        using alignment_after_abort(2) [OF k(1), of now] others unfolding mode_by_status [OF c3]
        by (simp add: abort_alignment_def p kk y1_def)
      have "ended_with pf ROTOR_CONTROL_EVENT_FAULT y (stop_and_fault pf ?y3)"
        by (rule ends_released(2) [OF _ c3 m3]) (simp_all add: abort_alignment_def p y1)
      with that(2) upd a False ALIGNMENT_CONTROLLER_EVENT_REFERENCE_CHANGED show thesis by simp
    qed
  next
    case ALIGNMENT_CONTROLLER_EVENT_COMPLETED
    then have "mode_of (sy_runtime y1) = Mode_Idle" using m k by simp
    from ends_released(1) [OF y1(2,1) this y1(4,5), of ROTOR_CONTROL_EVENT_ALIGNMENT_COMPLETED]
      that(2) upd ALIGNMENT_CONTROLLER_EVENT_COMPLETED show thesis by (auto simp: rotor_constants)
  next
    case ALIGNMENT_CONTROLLER_EVENT_FAILED
    then have "mode_of (sy_runtime y1) = Mode_Idle" using m k by simp
    from ends_released(1) [OF y1(2,1) this y1(4,5), of ROTOR_CONTROL_EVENT_AUTHORITY_RELEASED]
      that(2) upd ALIGNMENT_CONTROLLER_EVENT_FAILED show thesis by (auto simp: rotor_constants)
  qed
qed

lemma torque_update_ends:
  assumes "rotor_ok pf y" "mode_of (sy_runtime y) = Mode_Torque"
  obtains "goes_on pf now y (update_torque pf sample now t y)"
  | e where "ended_with pf e y (update_torque pf sample now t y)"
    "e \<in> {ROTOR_CONTROL_EVENT_AUTHORITY_RELEASED, ROTOR_CONTROL_EVENT_FAULT}"
proof -
  let ?r = "sy_runtime y" and ?s = "sy_backend y"
  have ok: "controllers_ok ?r" "cascade_ok ?r" "backend_ok pf ?s" using assms(1)
    by (simp_all add: rotor_ok_def)
  have on: "ts_active (tq_status (ru_torque_controller ?r))"
    and others: "\<not> state_is_active (ks_state (ak_status (ru_alignment_controller ?r)))"
      "\<not> vl_active (vc_status (ru_velocity_controller ?r))" "\<not> xs_active (xc_status
        (ru_position_controller ?r))"
    using assms(2) ok(2) unfolding mode_by_status [OF ok(1)] by (auto split: if_splits)
  have tq: "torque_ok (ru_torque_controller ?r)" using ok(1) by (simp add: controllers_ok_def)
  show thesis
  proof (cases rule: torque_step_cases [OF loop_platform_axioms ok(3) tq on,
    of now t "sample_phase sample y"
      "at_velocity_revolutions_per_second (ru_angle_tracker ?r)"])
    case (1 k y')
    have c: "controllers_ok (sy_runtime y')" using controllers_ok_replace(3) [OF ok(1) 1(3)] 1(2)
      by simp
    have "goes_on pf now y y'"
      using 1 others assms(2) c unfolding goes_on_def mode_by_status [OF c] by simp
    then show thesis using that(1) 1(1)
      by (simp add: update_torque_def current_loop_backend_is_active_def)
  next
    case (2 ev k y')
    have c: "controllers_ok (sy_runtime y')" using controllers_ok_replace(3) [OF ok(1) 2(4)] 2(3)
      by simp
    have m: "mode_of (sy_runtime y') = Mode_Idle" using 2 others unfolding mode_by_status [OF c] by
      simp
    from ends_released(1) [OF 2(6) c m, of y ROTOR_CONTROL_EVENT_AUTHORITY_RELEASED]
      ends_released(2) [OF 2(6) c m, of y]
      2(1-3) that(2) show thesis
      by (auto simp: update_torque_def current_loop_backend_is_active_def rotor_constants)
  qed
qed

end

section \<open>The cascade\<close>

lemma set_torque_target_parts:
  assumes "torque_ok (ru_torque_controller (sy_runtime y))"
  obtains ok k y' where "set_torque_target q y = (ok, y')" "sy_runtime y' =
    (sy_runtime y)\<lparr>ru_torque_controller := k\<rparr>"
    "torque_ok k" "ts_active (tq_status k) = ts_active (tq_status (ru_torque_controller (sy_runtime
      y)))"
    "tq_deadline_millis k = tq_deadline_millis (ru_torque_controller (sy_runtime y))"
    "tq_config k = tq_config (ru_torque_controller (sy_runtime y))" "sy_backend y' = sy_backend y"
proof -
  let ?c = "ru_torque_controller (sy_runtime y)"
  obtain ok k where k: "aligned_torque_controller_set_target (Some ?c) q = (ok, Some k)"
    by (simp add: aligned_torque_controller_set_target.simps) metis
  then have "k = call_torque ?c (Torque_Target q)" by simp
  then have "torque_ok k" using call_torque_ok assms by metis
  moreover have "ts_active (tq_status k) = ts_active (tq_status ?c)" "tq_deadline_millis k =
    tq_deadline_millis ?c"
    "tq_config k = tq_config ?c"
    using k by (auto simp: aligned_torque_controller_set_target.simps split: if_splits)
  ultimately show thesis using that [where ok = ok and k = k] k by (simp add: set_torque_target_def)
qed

lemma set_velocity_target_parts:
  assumes "velocity_ok (ru_velocity_controller (sy_runtime y))"
  obtains ok k y' where "set_velocity_target v y = (ok, y')" "sy_runtime y' =
    (sy_runtime y)\<lparr>ru_velocity_controller := k\<rparr>"
    "velocity_ok k" "vl_active (vc_status k) = vl_active (vc_status (ru_velocity_controller
      (sy_runtime y)))"
    "vc_deadline_millis k = vc_deadline_millis (ru_velocity_controller (sy_runtime y))" "sy_backend
      y' = sy_backend y"
proof -
  let ?c = "ru_velocity_controller (sy_runtime y)"
  obtain ok k where k: "velocity_controller_set_target (Some ?c) v = (ok, Some k)"
    by (simp add: velocity_controller_set_target.simps Let_def) metis
  then have "k = call_velocity fp ?c (Velocity_Target v)" for fp by simp
  then have "velocity_ok k" using velocity_call_ok assms by metis
  moreover have "vl_active (vc_status k) = vl_active (vc_status ?c)" "vc_deadline_millis k =
    vc_deadline_millis ?c"
    using k by (auto simp: velocity_controller_set_target.simps Let_def split: if_splits)
  ultimately show thesis using that [where ok = ok and k =
    k] k by (simp add: set_velocity_target_def)
qed

text \<open>The velocity loop with the torque below it: both go on, or the step reports an end.\<close>

lemma drive_inner_cases:
  fixes pf :: "'h platform"
  assumes "loop_platform pf" "backend_ok pf (sy_backend y)" "torque_ok (ru_torque_controller
    (sy_runtime y))"
    "ts_active (tq_status (ru_torque_controller (sy_runtime y)))" "velocity_ok
      (ru_velocity_controller (sy_runtime y))"
    "vl_active (vc_status (ru_velocity_controller (sy_runtime y)))"
  obtains v k y' where "drive_inner pf fp now t obs phase (cb_active (sy_backend y)) y = (True, y')"
    "drive_velocity pf fp now t obs phase (cb_active (sy_backend y)) y =
      (VELOCITY_CONTROL_EVENT_CURRENT_CHANGED, y')"
    "sy_runtime y' = (sy_runtime y)\<lparr>ru_velocity_controller := v, ru_torque_controller := k\<rparr>"
    "torque_ok k" "ts_active (tq_status k)" "tq_deadline_millis k =
      tq_deadline_millis (ru_torque_controller (sy_runtime y))"
    "velocity_ok v" "vl_active (vc_status v)" "vc_deadline_millis v =
      vc_deadline_millis (ru_velocity_controller (sy_runtime y))"
    "\<not> time_reached now (tq_deadline_millis k)" "backend_ok pf (sy_backend y')" "cb_active
      (sy_backend y')" "cb_active (sy_backend y)"
  | v k v' ev y' y'' where "drive_inner pf fp now t obs phase (cb_active (sy_backend y)) y = (False, y')"
    "sy_runtime y' = (sy_runtime y)\<lparr>ru_velocity_controller := v, ru_torque_controller := k\<rparr>"
    "torque_ok k" "velocity_ok v" "backend_ok pf (sy_backend y')"
    "drive_velocity pf fp now t obs phase (cb_active (sy_backend y)) y = (ev, y'')"
    "ev \<in> {VELOCITY_CONTROL_EVENT_COMPLETED, VELOCITY_CONTROL_EVENT_FAILED}"
    "sy_runtime y'' = (sy_runtime y)\<lparr>ru_velocity_controller := v', ru_torque_controller := k\<rparr>" "velocity_ok v'"
    "\<not> vl_active (vc_status v')" "sy_backend y'' = sy_backend y'"
proof -
  let ?r = "sy_runtime y"
  let ?v = "ru_velocity_controller ?r" and ?act = "cb_active (sy_backend y)"
  show thesis
  proof (cases rule: velocity_after_update [OF assms(5,6), of fp now obs])
    case (2 ev v q)
    let ?y1 = "upd (\<lambda>r. r\<lparr>ru_velocity_controller := v\<rparr>) y"
    have step: "velocity_step fp now obs y = (ev, q, ?y1)" using 2(1)
      by (simp add: velocity_step_def)
    with 2 assms(2,3) that(2) [where v = v and v' = v and k = "ru_torque_controller ?r" and ev = ev and y' = ?y1 and y'' = ?y1] show thesis
      by (auto simp: drive_inner_def drive_velocity_def)
  next
    case (1 ev v q)
    define y1 where "y1 = upd (\<lambda>r. r\<lparr>ru_velocity_controller := v\<rparr>) y"
    have step: "velocity_step fp now obs y = (ev, q, y1)" using 1(1)
      by (simp add: velocity_step_def y1_def)
    have t1: "torque_ok (ru_torque_controller (sy_runtime y1))" using assms(3) by (simp add: y1_def)
    obtain ok k1 y2 where t: "set_torque_target q y1 = (ok, y2)" "sy_runtime y2 =
      (sy_runtime y1)\<lparr>ru_torque_controller := k1\<rparr>"
        "torque_ok k1" "ts_active (tq_status k1)" "tq_deadline_millis k1 =
          tq_deadline_millis (ru_torque_controller ?r)"
        "sy_backend y2 = sy_backend y"
      by (rule set_torque_target_parts [OF t1, of q]) (use assms(4) in \<open>simp add: y1_def\<close>)
    have failed: "velocity_ok (the (snd (velocity_controller_actuator_failed (Some v) now)))"
      "\<not> vl_active (vc_status (the (snd (velocity_controller_actuator_failed (Some v) now))))"
      using velocity_after_stop(4,5) [OF 1(2)] by simp_all
    show thesis
    proof (cases ok)
      case False
      with 1(3) step t failed 1(2) assms(2) that(2) [where v = v and v' = "the (snd (velocity_controller_actuator_failed (Some v) now))" and k = k1 and ev = VELOCITY_CONTROL_EVENT_FAILED and y' = y2 and y'' = "upd (velocity_actuator_failed now) y2"]
      show thesis by (auto simp: drive_inner_def drive_velocity_def velocity_actuator_failed_def
        y1_def)
    next
      case True
      have b: "backend_ok pf (sy_backend y2)" "torque_ok (ru_torque_controller (sy_runtime y2))"
        "ts_active (tq_status (ru_torque_controller (sy_runtime y2)))" "cb_active (sy_backend y2) =
          ?act"
        using assms(2) t by simp_all
      show thesis
      proof (cases rule: torque_step_cases [OF assms(1) b(1-3),
        of now t phase "ro_velocity_revolutions_per_second obs"])
        case (1 k y')
        with True \<open>ev = _\<close> step t \<open>velocity_ok v\<close> \<open>vl_active (vc_status v)\<close> \<open>vc_deadline_millis v =
          _\<close> b(4)
          that(1) [where v = v and k = k and y' = y'] show thesis
          by (simp add: drive_inner_def drive_velocity_def y1_def)
      next
        case (2 ev' k y')
        with True \<open>ev = _\<close> step t \<open>velocity_ok v\<close> b(4) failed
          that(2) [where v = v and v' = "the (snd (velocity_controller_actuator_failed (Some v) now))" and k = k and ev = VELOCITY_CONTROL_EVENT_FAILED and y' = y' and y'' = "upd (velocity_actuator_failed now) y'"] show thesis
          by (auto simp: drive_inner_def drive_velocity_def velocity_actuator_failed_def y1_def)
      qed
    qed
  qed
qed

text \<open>The guarded stops replace a controller by an inactive one.\<close>

lemma stopped_controllers:
  assumes "controllers_ok r"
  shows "\<exists>k. stop_torque now r = r\<lparr>ru_torque_controller := k\<rparr> \<and> torque_ok k \<and>
    \<not> ts_active (tq_status k)"
    "\<exists>v. stop_velocity now r = r\<lparr>ru_velocity_controller := v\<rparr> \<and> velocity_ok v \<and>
      \<not> vl_active (vc_status v)"
    "\<exists>v. fail_velocity now r = r\<lparr>ru_velocity_controller := v\<rparr> \<and> velocity_ok v \<and>
      \<not> vl_active (vc_status v)"
    "\<exists>x. stop_position now r = r\<lparr>ru_position_controller := x\<rparr> \<and> position_ok x \<and>
      \<not> xs_active (xc_status x)"
    "\<exists>x. fail_position now r = r\<lparr>ru_position_controller := x\<rparr> \<and> position_ok x \<and>
      \<not> xs_active (xc_status x)"
    "\<exists>a. abort_alignment now r = r\<lparr>ru_alignment_controller := a\<rparr> \<and> controller_ok a \<and>
      \<not> state_is_active (ks_state (ak_status a))"
proof -
  have ok: "torque_ok (ru_torque_controller r)" "velocity_ok (ru_velocity_controller r)"
    "position_ok (ru_position_controller r)"
    "controller_ok (ru_alignment_controller r)" using assms by (simp_all add: controllers_ok_def)
  have i: "tq_initialized (ru_torque_controller r)" "vc_initialized (ru_velocity_controller r)"
    "xc_initialized (ru_position_controller r)"
    using ok by (simp_all add: torque_ok_def velocity_ok_def position_ok_def Let_def)
  have same: "r = r\<lparr>ru_torque_controller := ru_torque_controller r\<rparr>" "r =
    r\<lparr>ru_velocity_controller := ru_velocity_controller r\<rparr>"
    "r = r\<lparr>ru_position_controller := ru_position_controller r\<rparr>" by simp_all
  show "\<exists>k. stop_torque now r = r\<lparr>ru_torque_controller := k\<rparr> \<and> torque_ok k \<and>
    \<not> ts_active (tq_status k)"
    using torque_after_stop(1,2) [OF ok(1), of now] ok(1) i(1) same(1)
      unfolding stop_torque_def activity by metis
  show "\<exists>v. stop_velocity now r = r\<lparr>ru_velocity_controller := v\<rparr> \<and> velocity_ok v \<and>
    \<not> vl_active (vc_status v)"
    using velocity_after_stop(1,2) [OF ok(2), of now] ok(2) i(2) same(2)
      unfolding stop_velocity_def activity by metis
  show "\<exists>v. fail_velocity now r = r\<lparr>ru_velocity_controller := v\<rparr> \<and> velocity_ok v \<and>
    \<not> vl_active (vc_status v)"
    using velocity_after_stop(4,5) [OF ok(2), of now] ok(2) i(2) same(2)
      unfolding fail_velocity_def velocity_actuator_failed_def activity by metis
  show "\<exists>x. stop_position now r = r\<lparr>ru_position_controller := x\<rparr> \<and> position_ok x \<and>
    \<not> xs_active (xc_status x)"
    using position_after_stop(1,2) [OF ok(3), of now] ok(3) i(3) same(3)
      unfolding stop_position_def activity by metis
  show "\<exists>x. fail_position now r = r\<lparr>ru_position_controller := x\<rparr> \<and> position_ok x \<and>
    \<not> xs_active (xc_status x)"
    using position_after_stop(4,5) [OF ok(3), of now] ok(3) i(3) same(3)
      unfolding fail_position_def position_actuator_failed_def activity by metis
  show "\<exists>a. abort_alignment now r = r\<lparr>ru_alignment_controller := a\<rparr> \<and> controller_ok a \<and>
    \<not> state_is_active (ks_state (ak_status a))"
    using alignment_after_abort [OF ok(4), of now] by (simp add: abort_alignment_def) metis
qed

lemma cascade_released:
  assumes "controllers_ok r" "\<not> state_is_active (ks_state (ak_status (ru_alignment_controller r)))"
    "\<not> xs_active (xc_status (ru_position_controller r))" "g \<in> {stop_velocity now,
      fail_velocity now}"
  shows "controllers_ok (stop_torque now (g r))" "mode_of (stop_torque now (g r)) = Mode_Idle"
    "ru_event_flags (stop_torque now (g r)) = ru_event_flags r" "ru_request_flags (stop_torque now
      (g r)) = ru_request_flags r"
proof -
  obtain v where v: "g r = r\<lparr>ru_velocity_controller := v\<rparr>" "velocity_ok v" "\<not> vl_active (vc_status
    v)"
    using stopped_controllers(2,3) [OF assms(1), of now] assms(4) by auto
  have c: "controllers_ok (g r)" using controllers_ok_replace(4) [OF assms(1) v(2)] v(1) by simp
  obtain k where k: "stop_torque now (g r) = (g r)\<lparr>ru_torque_controller :=
    k\<rparr>" "torque_ok k" "\<not> ts_active (tq_status k)"
    using stopped_controllers(1) [OF c, of now] by blast
  show c': "controllers_ok (stop_torque now (g r))" using controllers_ok_replace(3) [OF c k(2)] k(1)
    by simp
  show "mode_of (stop_torque now (g r)) = Mode_Idle"
    using k v assms(2,3) unfolding mode_by_status [OF c'] by simp
  show "ru_event_flags (stop_torque now (g r)) = ru_event_flags r" "ru_request_flags (stop_torque
    now (g r)) = ru_request_flags r"
    using k v by simp_all
qed

context loop_platform
begin

lemma velocity_update_ends:
  assumes "rotor_ok pf y" "mode_of (sy_runtime y) = Mode_Velocity"
  obtains "goes_on pf now y (update_velocity pf fp sample now t y)"
  | e where "ended_with pf e y (update_velocity pf fp sample now t y)"
    "e \<in> {ROTOR_CONTROL_EVENT_AUTHORITY_RELEASED, ROTOR_CONTROL_EVENT_FAULT}"
proof -
  let ?r = "sy_runtime y" and ?s = "sy_backend y"
  have ok: "controllers_ok ?r" "cascade_ok ?r" "backend_ok pf ?s" using assms(1)
    by (simp_all add: rotor_ok_def)
  have on: "ts_active (tq_status (ru_torque_controller ?r))" "vl_active (vc_status
    (ru_velocity_controller ?r))"
      "vc_deadline_millis (ru_velocity_controller ?r) = tq_deadline_millis (ru_torque_controller
        ?r)"
    and others: "\<not> state_is_active (ks_state (ak_status (ru_alignment_controller ?r)))"
      "\<not> xs_active (xc_status (ru_position_controller ?r))"
    using assms(2) ok(2) unfolding mode_by_status [OF ok(1)] by (auto split: if_splits)
  have c: "torque_ok (ru_torque_controller ?r)" "velocity_ok (ru_velocity_controller ?r)" using
    ok(1) by (simp_all add: controllers_ok_def)
  define obs phase where "obs = (runtime_observation ?r)\<lparr>ro_timestamp_us := t\<rparr>" and "phase =
    sample_phase sample y"
  note upd = update_velocity_def [of pf fp sample now t y, folded obs_def phase_def,
    unfolded current_loop_backend_is_active_def]
  show thesis
  proof (cases rule: drive_inner_cases [OF loop_platform_axioms ok(3) c(1) on(1) c(2) on(2),
    of fp now t obs phase])
    case (1 v k y')
    have c': "controllers_ok (sy_runtime y')"
      using controllers_ok_replace(3) [OF controllers_ok_replace(4) [OF ok(1) 1(7)] 1(4)] 1(3)
        by simp
    have "goes_on pf now y y'"
      using 1 others on(3) assms(2) c' unfolding goes_on_def mode_by_status [OF c'] by simp
    then show thesis using that(1) upd 1(2) by simp
  next
    case (2 v k v' ev y' y'')
    have c'': "controllers_ok (sy_runtime y'')"
      using controllers_ok_replace(3) [OF controllers_ok_replace(4) [OF ok(1) 2(9)] 2(3)] 2(8)
        by simp
    obtain k' where k': "stop_torque now (sy_runtime y'') = (sy_runtime y'')\<lparr>ru_torque_controller := k'\<rparr>" "torque_ok k'" "\<not> ts_active (tq_status k')"
      using stopped_controllers(1) [OF c''] by blast
    let ?y1 = "upd (stop_torque now) y''"
    have c1: "controllers_ok (sy_runtime ?y1)" using controllers_ok_replace(3) [OF c'' k'(2)] k'(1) by simp
    have m1: "mode_of (sy_runtime ?y1) = Mode_Idle"
      using k' others 2(8,10) unfolding mode_by_status [OF c1] by simp
    have b1: "backend_ok pf (sy_backend ?y1)" using 2(5,11) by simp
    have f: "ru_event_flags (sy_runtime ?y1) = ru_event_flags ?r" "ru_request_flags (sy_runtime ?y1)
      = ru_request_flags ?r"
      using k'(1) 2(8) by simp_all
    from ends_released(1) [OF b1 c1 m1 f, of ROTOR_CONTROL_EVENT_AUTHORITY_RELEASED]
      ends_released(2) [OF b1 c1 m1 f]
      2(6,7) that(2) upd show thesis
      by (auto simp: rotor_constants)
  qed
qed

lemma position_update_ends:
  assumes "rotor_ok pf y" "mode_of (sy_runtime y) = Mode_Position"
  obtains "goes_on pf now y (update_position pf fp sample now t y)"
  | e where "ended_with pf e y (update_position pf fp sample now t y)"
    "e \<in> {ROTOR_CONTROL_EVENT_AUTHORITY_RELEASED, ROTOR_CONTROL_EVENT_FAULT}"
proof -
  let ?r = "sy_runtime y" and ?s = "sy_backend y"
  have ok: "controllers_ok ?r" "cascade_ok ?r" "backend_ok pf ?s" using assms(1)
    by (simp_all add: rotor_ok_def)
  have on: "ts_active (tq_status (ru_torque_controller ?r))" "vl_active (vc_status
    (ru_velocity_controller ?r))"
      "xs_active (xc_status (ru_position_controller ?r))"
      "vc_deadline_millis (ru_velocity_controller ?r) = tq_deadline_millis (ru_torque_controller
        ?r)"
      "xc_deadline_millis (ru_position_controller ?r) = tq_deadline_millis (ru_torque_controller
        ?r)"
    and others: "\<not> state_is_active (ks_state (ak_status (ru_alignment_controller ?r)))"
    using assms(2) ok(2) unfolding mode_by_status [OF ok(1)] by (auto split: if_splits)
  define obs phase act where "obs = (runtime_observation ?r)\<lparr>ro_timestamp_us := t\<rparr>" and "phase =
    sample_phase sample y"
    and "act = cb_active ?s"
  define ev y1 where "ev = fst (drive_position pf fp now t obs phase act y)" and "y1 =
    snd (drive_position pf fp now t obs phase act y)"
  have upd: "update_position pf fp sample now t y =
      (if ev = POSITION_CONTROL_EVENT_COMPLETED then snd (stop_backend pf
        ROTOR_CONTROL_EVENT_AUTHORITY_RELEASED
          (upd (stop_torque now \<circ> stop_velocity now) y1))
       else if ev = POSITION_CONTROL_EVENT_FAILED then stop_and_fault pf (upd (stop_torque now \<circ>
         fail_velocity now) y1) else y1)"
    by (simp add: update_position_def obs_def phase_def act_def ev_def y1_def
      current_loop_backend_is_active_def split: prod.split)
  have x: "position_ok (ru_position_controller ?r)" and v: "velocity_ok (ru_velocity_controller ?r)"
    and k: "torque_ok (ru_torque_controller ?r)" using ok(1) by (simp_all add: controllers_ok_def)
  consider (running) "ev = POSITION_CONTROL_EVENT_VELOCITY_CHANGED" "goes_on pf now y y1"
    | (over) x v k where "ev \<in> {POSITION_CONTROL_EVENT_COMPLETED, POSITION_CONTROL_EVENT_FAILED}"
      "sy_runtime y1 = ?r\<lparr>ru_position_controller := x, ru_velocity_controller := v,
        ru_torque_controller := k\<rparr>"
      "position_ok x" "\<not> xs_active (xc_status x)" "velocity_ok v" "torque_ok k" "backend_ok pf
        (sy_backend y1)"
  proof (cases rule: position_after_update [OF x on(3), of fp now obs])
    case (2 e x' target)
    then have "ev = e" "y1 = upd (\<lambda>r. r\<lparr>ru_position_controller := x'\<rparr>) y"
      by (auto simp: ev_def y1_def drive_position_def Let_def)
    with 2 that(2) [where x = x' and v = "ru_velocity_controller ?r" and k =
      "ru_torque_controller ?r"] v k ok(3) show thesis by simp
  next
    case (1 e x' target)
    define y0 where "y0 = upd (\<lambda>r. r\<lparr>ru_position_controller := x'\<rparr>) y"
    have v0: "velocity_ok (ru_velocity_controller (sy_runtime y0))" using v by (simp add: y0_def)
    obtain ok' v1 y2 where s: "set_velocity_target target y0 = (ok', y2)"
      "sy_runtime y2 = (sy_runtime y0)\<lparr>ru_velocity_controller := v1\<rparr>"
      "velocity_ok v1" "vl_active (vc_status v1)" "vc_deadline_millis v1 =
        vc_deadline_millis (ru_velocity_controller ?r)"
      "sy_backend y2 = ?s"
      by (rule set_velocity_target_parts [OF v0, of target]) (use on(2) in \<open>simp add: y0_def\<close>)
    have drive: "drive_position pf fp now t obs phase act y =
      (case all_succeed [set_velocity_target target,
          drive_inner pf fp now t obs phase act] y0 of (True, y) \<Rightarrow>
            (POSITION_CONTROL_EVENT_VELOCITY_CHANGED, y)
        | (False, y) \<Rightarrow> (POSITION_CONTROL_EVENT_FAILED, upd (position_actuator_failed now) y))"
      using 1(1,3) by (simp add: drive_position_def Let_def y0_def)
    let ?x = "the (snd (position_controller_actuator_failed (Some x') now))"
    have x2: "position_ok ?x" "\<not> xs_active (xc_status ?x)" using position_after_stop(4,5)
      [OF 1(2)] by simp_all
    show thesis
    proof (cases ok')
      case False
      then have "ev = POSITION_CONTROL_EVENT_FAILED" "y1 = upd (position_actuator_failed now) y2"
        using drive s(1) by (simp_all add: ev_def y1_def)
      with s x2 k ok(3) that(2) [where x = ?x and v = v1 and k =
        "ru_torque_controller ?r"] show thesis
        by (simp add: y0_def position_actuator_failed_def)
    next
      case True
      have b: "backend_ok pf (sy_backend y2)" "torque_ok (ru_torque_controller (sy_runtime y2))"
        "ts_active (tq_status (ru_torque_controller (sy_runtime y2)))" "velocity_ok
          (ru_velocity_controller (sy_runtime y2))"
        "vl_active (vc_status (ru_velocity_controller (sy_runtime y2)))" "cb_active (sy_backend y2)
          = act"
        using ok(3) k on(1) s by (simp_all add: y0_def act_def)
      show thesis
      proof (cases rule: drive_inner_cases [OF loop_platform_axioms b(1-5), of fp now t obs phase])
        case (1 v2 k2 y3)
        then have ev: "ev = POSITION_CONTROL_EVENT_VELOCITY_CHANGED" "y1 = y3" using drive s(1)
          True b(6) by (simp_all add: ev_def y1_def)
        have c3: "controllers_ok (sy_runtime y3)" using ok(1) 1 \<open>position_ok x'\<close> by (simp add:
          controllers_ok_def s y0_def)
        have "goes_on pf now y y3"
          using 1 s on(4,5) others \<open>xs_active (xc_status x')\<close> \<open>xc_deadline_millis x' = _\<close> assms(2)
            c3
          unfolding goes_on_def mode_by_status [OF c3] by (simp add: y0_def)
        with that(1) ev show thesis by simp
      next
        case (2 v2 k2 v' e' y3 y4)
        then have "ev = POSITION_CONTROL_EVENT_FAILED" "y1 = upd (position_actuator_failed now) y3"
          using drive s(1) True b(6) by (simp_all add: ev_def y1_def)
        with 2 s x2 that(2) [where x = ?x and v = v2 and k = k2] show thesis
          by (simp add: y0_def position_actuator_failed_def)
      qed
    qed
  qed
  then show thesis
  proof cases
    case running
    then show thesis using that(1) upd by simp
  next
    case over
    have c1: "controllers_ok (sy_runtime y1)" using ok(1) over by (simp add: controllers_ok_def)
    have idle: "\<not> state_is_active (ks_state (ak_status (ru_alignment_controller (sy_runtime y1))))"
      "\<not> xs_active (xc_status (ru_position_controller (sy_runtime y1)))" using over(2,4)
        others by simp_all
    have ends: "g \<in> {stop_velocity now, fail_velocity now} \<Longrightarrow>
        (\<exists>e \<in> {ROTOR_CONTROL_EVENT_AUTHORITY_RELEASED, ROTOR_CONTROL_EVENT_FAULT}.
          ended_with pf e y (snd (stop_backend pf ROTOR_CONTROL_EVENT_AUTHORITY_RELEASED (upd
            (stop_torque now \<circ> g) y1)))) \<and>
        ended_with pf ROTOR_CONTROL_EVENT_FAULT y (stop_and_fault pf (upd (stop_torque now \<circ> g)
          y1))" for g
      using cascade_released [OF c1 idle, of g now] over(2,7)
      by (intro conjI ends_released) (auto simp: rotor_constants)
    from ends [of "stop_velocity now"] ends [of "fail_velocity now"] over(1) that(2)
      upd show thesis by auto
  qed
qed

end

section \<open>Starts\<close>

lemma all_succeed_inv:
  "(\<And>f z. f \<in> set fs \<Longrightarrow> P z \<Longrightarrow> P (snd (f z))) \<Longrightarrow> P y \<Longrightarrow> P (snd (all_succeed fs y))"
proof (induction fs arbitrary: y)
  case (Cons f fs)
  have "P (snd (f y))" using Cons.prems by simp
  moreover have "P (snd (all_succeed fs z))" if "P z" for z using Cons.IH [of z] Cons.prems(1)
    that by simp
  ultimately show ?case by (cases "f y") auto
qed simp

lemma all_succeed_Cons:
  "all_succeed (f # fs) y = (True, y') \<longleftrightarrow> (\<exists>z. f y = (True, z) \<and> all_succeed fs z = (True, y'))"
  by (auto split: prod.splits if_splits)

text \<open>What each step of a start does to the controllers.\<close>

lemma begin_alignment_step:
  assumes "controllers_ok (sy_runtime y)" "begin_alignment now y = (ok, y')"
  shows "\<exists>a. y' = upd (\<lambda>r. r\<lparr>ru_alignment_controller := a\<rparr>) y \<and> controller_ok a \<and>
       (ok \<longrightarrow> state_is_active (ks_state (ak_status a)))"
proof -
  let ?r = "sy_runtime y"
  obtain b c' where s: "alignment_controller_start (Some (ru_alignment_controller ?r))
    (Some (ru_motor_alignment ?r))
    (ru_requested_alignment_current_counts ?r) now = (b, c')" by fastforce
  have ok: "controller_ok (ru_alignment_controller ?r)" using assms(1)
    by (simp add: controllers_ok_def)
  from ok s show ?thesis
    by (cases rule: alignment_after_start) (use assms(2) s ok in \<open>auto simp: begin_alignment_def
      Let_def\<close>)
qed

lemma begin_torque_step:
  assumes "controllers_ok (sy_runtime y)" "begin_torque now t y = (ok, y')"
  shows "\<exists>k. y' = upd (\<lambda>r. r\<lparr>ru_torque_controller := k\<rparr>) y \<and> torque_ok k \<and>
    (ok \<longrightarrow> ts_active (tq_status k))"
proof -
  let ?r = "sy_runtime y"
  let ?v = "float_to_q16_16 (at_velocity_revolutions_per_second (ru_angle_tracker ?r))"
  obtain b c' where s: "start_controller (Some (ru_torque_controller ?r))
    (ru_requested_q_current_counts ?r)
    (ru_requested_torque_duration_millis ?r) now t ?v = (b, c')" by fastforce
  have ok: "torque_ok (ru_torque_controller ?r)" using assms(1) by (simp add: controllers_ok_def)
  from ok s show ?thesis
    by (cases rule: torque_after_start)
      (use assms(2) s ok in \<open>auto simp: begin_torque_def aligned_torque_controller_start_def Let_def
        split: if_splits\<close>)
qed

lemma track_torque_step:
  assumes "controllers_ok (sy_runtime y)" "track_torque d now t y = (ok, y')"
  shows "\<exists>k. y' = upd (\<lambda>r. r\<lparr>ru_torque_controller := k\<rparr>) y \<and> torque_ok k \<and>
       (ok \<longrightarrow> ts_active (tq_status k) \<and> tq_deadline_millis k = now + d)"
proof -
  let ?r = "sy_runtime y"
  let ?v = "float_to_q16_16 (at_velocity_revolutions_per_second (ru_angle_tracker ?r))"
  obtain b c' where s: "start_controller (Some (ru_torque_controller ?r)) 0 d now t ?v = (b,
    c')" by fastforce
  have ok: "torque_ok (ru_torque_controller ?r)" using assms(1) by (simp add: controllers_ok_def)
  from ok s show ?thesis
    by (cases rule: torque_after_start)
      (use assms(2) s ok in \<open>auto simp: track_torque_def
        aligned_torque_controller_start_tracking_def Let_def\<close>)
qed

lemma begin_velocity_step:
  assumes "controllers_ok (sy_runtime y)" "begin_velocity now y = (ok, y')"
  shows "\<exists>v. y' = upd (\<lambda>r. r\<lparr>ru_velocity_controller := v\<rparr>) y \<and> velocity_ok v \<and>
       (ok \<longrightarrow> vl_active (vc_status v) \<and> vc_deadline_millis v =
         now + ru_requested_velocity_duration_millis (sy_runtime y))"
proof -
  let ?r = "sy_runtime y"
  obtain b c' where s: "velocity_start_controller (Some (ru_velocity_controller ?r))
    (ru_requested_velocity_q16_16 ?r)
    (q16_16_to_float (ru_requested_velocity_acceleration_q16_16 ?r))
      (ru_requested_velocity_current_limit_counts ?r)
    (ru_requested_velocity_duration_millis ?r) (ms_encoder_direction (ma_status (ru_motor_alignment
      ?r))) now
    (Some (runtime_observation ?r)) False = (b, c')" by fastforce
  have ok: "velocity_ok (ru_velocity_controller ?r)" using assms(1)
    by (simp add: controllers_ok_def)
  from ok s show ?thesis
    by (cases rule: velocity_after_start)
      (use assms(2) s ok in \<open>auto simp: begin_velocity_def velocity_controller_start_def Let_def\<close>)
qed

lemma track_velocity_step:
  assumes "controllers_ok (sy_runtime y)" "track_velocity now y = (ok, y')"
  shows "\<exists>v. y' = upd (\<lambda>r. r\<lparr>ru_velocity_controller := v\<rparr>) y \<and> velocity_ok v \<and>
       (ok \<longrightarrow> vl_active (vc_status v) \<and> vc_deadline_millis v =
         now + ru_requested_position_duration_millis (sy_runtime y))"
proof -
  let ?r = "sy_runtime y"
  obtain b c' where s: "velocity_start_controller (Some (ru_velocity_controller ?r)) 0
    (vg_maximum_target_acceleration (vc_config (ru_velocity_controller ?r)))
      (ru_requested_position_current_limit_counts ?r)
    (ru_requested_position_duration_millis ?r) (ms_encoder_direction (ma_status (ru_motor_alignment
      ?r))) now
    (Some (runtime_observation ?r)) True = (b, c')" by fastforce
  have ok: "velocity_ok (ru_velocity_controller ?r)" using assms(1)
    by (simp add: controllers_ok_def)
  from ok s show ?thesis
    by (cases rule: velocity_after_start)
      (use assms(2) s ok in \<open>auto simp: track_velocity_def velocity_controller_start_tracking.simps
        Let_def\<close>)
qed

lemma begin_position_step:
  assumes "controllers_ok (sy_runtime y)" "begin_position now y = (ok, y')"
  shows "\<exists>x. y' = upd (\<lambda>r. r\<lparr>ru_position_controller := x\<rparr>) y \<and> position_ok x \<and>
       (ok \<longrightarrow> xs_active (xc_status x) \<and> xc_deadline_millis x =
         now + ru_requested_position_duration_millis (sy_runtime y))"
proof -
  let ?r = "sy_runtime y"
  obtain b c' where s: "position_controller_start_relative (Some (ru_position_controller ?r))
    (ru_requested_position_displacement_q16_16 ?r) (ru_requested_position_maximum_velocity_q16_16
      ?r)
    (ru_requested_position_maximum_acceleration_q16_16 ?r)
      (ru_requested_position_current_limit_counts ?r)
    (ru_requested_position_duration_millis ?r) now (Some (runtime_observation ?r)) = (b,
      c')" by fastforce
  have ok: "position_ok (ru_position_controller ?r)" using assms(1)
    by (simp add: controllers_ok_def)
  from s ok show ?thesis
    by (cases rule: position_start_cases) (use assms(2) s ok in \<open>auto simp: begin_position_def
      Let_def\<close>)
qed

text \<open>While a start is under way, at most the controllers of its mode are active.\<close>

definition prepared :: "'h platform \<Rightarrow> drive_mode \<Rightarrow> 'h rotor_system \<Rightarrow> 'h rotor_system \<Rightarrow> bool" where
  "prepared pf m y z \<longleftrightarrow> (let r = sy_runtime z in controllers_ok r \<and> backend_ok pf (sy_backend z) \<and>
     ru_event_flags r = ru_event_flags (sy_runtime y) \<and> ru_request_flags r =
       ru_request_flags (sy_runtime y) \<and>
     (m \<noteq> Mode_Alignment \<longrightarrow> \<not> state_is_active (ks_state (ak_status (ru_alignment_controller r)))) \<and>
     (m = Mode_Alignment \<longrightarrow> \<not> ts_active (tq_status (ru_torque_controller r))) \<and>
     (m \<notin> {Mode_Velocity, Mode_Position} \<longrightarrow> \<not> vl_active (vc_status (ru_velocity_controller r))) \<and>
     (m \<noteq> Mode_Position \<longrightarrow> \<not> xs_active (xc_status (ru_position_controller r))))"

lemma prepared_steps:
  assumes "loop_platform pf" "prepared pf m y z"
  shows "prepared pf m y (snd (loop_idle z))" "prepared pf m y (snd (phase_known sample z))"
    "prepared pf m y (snd (apply_alignment_reference pf z))" "prepared pf m y (snd (zero_reference
      pf z))"
    "prepared pf m y (snd (start_loop pf z))"
    "m = Mode_Alignment \<Longrightarrow> prepared pf m y (snd (begin_alignment now z))"
    "m \<noteq> Mode_Alignment \<Longrightarrow> prepared pf m y (snd (begin_torque now t z))"
    "m \<noteq> Mode_Alignment \<Longrightarrow> prepared pf m y (snd (track_torque d now t z))"
    "m \<in> {Mode_Velocity, Mode_Position} \<Longrightarrow> prepared pf m y (snd (begin_velocity now z))"
    "m \<in> {Mode_Velocity, Mode_Position} \<Longrightarrow> prepared pf m y (snd (track_velocity now z))"
    "m = Mode_Position \<Longrightarrow> prepared pf m y (snd (begin_position now z))"
proof -
  have c: "controllers_ok (sy_runtime z)" and b: "backend_ok pf (sy_backend z)" using assms(2)
    by (simp_all add: prepared_def Let_def)
  note calls = loop_platform.backend_calls_ok [OF assms(1) b]
  show "prepared pf m y (snd (loop_idle z))" "prepared pf m y (snd (phase_known sample z))"
    using assms(2) by (simp_all add: loop_idle_def phase_known_def)
  show "prepared pf m y (snd (apply_alignment_reference pf z))" "prepared pf m y (snd
    (zero_reference pf z))"
    "prepared pf m y (snd (start_loop pf z))"
    using assms(2) calls apply_alignment_parts(2) [OF assms(1) b]
    by (simp_all add: prepared_def Let_def apply_alignment_parts zero_reference_def start_loop_def
      on_backend_parts)
  show "prepared pf m y (snd (begin_alignment now z))" if "m = Mode_Alignment"
    using begin_alignment_step [OF c, of now "fst (begin_alignment now z)" "snd (begin_alignment now
      z)"] assms(2) that
    by (auto simp: prepared_def Let_def controllers_ok_def)
  show "prepared pf m y (snd (begin_torque now t z))" if "m \<noteq> Mode_Alignment"
    using begin_torque_step [OF c, of now t "fst (begin_torque now t z)" "snd (begin_torque now t
      z)"] assms(2) that
    by (auto simp: prepared_def Let_def controllers_ok_def)
  show "prepared pf m y (snd (track_torque d now t z))" if "m \<noteq> Mode_Alignment"
    using track_torque_step [OF c, of d now t "fst (track_torque d now t z)" "snd (track_torque d
      now t z)"] assms(2) that
    by (auto simp: prepared_def Let_def controllers_ok_def)
  show "prepared pf m y (snd (begin_velocity now z))" if "m \<in> {Mode_Velocity, Mode_Position}"
    using begin_velocity_step [OF c, of now "fst (begin_velocity now z)" "snd (begin_velocity now
      z)"] assms(2) that
    by (auto simp: prepared_def Let_def controllers_ok_def)
  show "prepared pf m y (snd (track_velocity now z))" if "m \<in> {Mode_Velocity, Mode_Position}"
    using track_velocity_step [OF c, of now "fst (track_velocity now z)" "snd (track_velocity now
      z)"] assms(2) that
    by (auto simp: prepared_def Let_def controllers_ok_def)
  show "prepared pf m y (snd (begin_position now z))" if "m = Mode_Position"
    using begin_position_step [OF c, of now "fst (begin_position now z)" "snd (begin_position now
      z)"] assms(2) that
    by (auto simp: prepared_def Let_def controllers_ok_def)
qed

definition has_started :: "'h platform \<Rightarrow> drive_mode \<Rightarrow> 'h rotor_system \<Rightarrow> 'h rotor_system \<Rightarrow>
  bool" where
  "has_started pf m y y' \<longleftrightarrow> controllers_ok (sy_runtime y') \<and> cascade_ok (sy_runtime y') \<and>
     mode_of (sy_runtime y') = m \<and> ru_request_flags (sy_runtime y') =
       ru_request_flags (sy_runtime y) \<and>
     ru_event_flags (sy_runtime y') = ru_event_flags (sy_runtime y) \<and>
     backend_ok pf (sy_backend y') \<and> cb_active (sy_backend y')"

lemma idle_prepared:
  assumes "controllers_ok (sy_runtime y)" "backend_ok pf (sy_backend y)" "mode_of (sy_runtime y) =
    Mode_Idle"
  shows "prepared pf m y y"
  using assms(3) unfolding mode_by_status [OF assms(1)] prepared_def
  by (simp add: assms(1,2) split: if_splits)

context loop_platform
begin

lemma failed_start_ends:
  assumes "prepared pf m y z"
  shows "m = Mode_Alignment \<Longrightarrow> ended_with pf ROTOR_CONTROL_EVENT_FAULT y (stop_and_fault pf (upd
    (abort_alignment now) z))"
    "m = Mode_Torque \<Longrightarrow> ended_with pf ROTOR_CONTROL_EVENT_FAULT y (stop_and_fault pf (upd
      (stop_torque now) z))"
    "m = Mode_Velocity \<Longrightarrow> ended_with pf ROTOR_CONTROL_EVENT_FAULT y (stop_and_fault pf (upd
      (stop_torque now \<circ> fail_velocity now) z))"
    "m = Mode_Position \<Longrightarrow> ended_with pf ROTOR_CONTROL_EVENT_FAULT y
       (stop_and_fault pf (upd (stop_torque now \<circ> fail_velocity now \<circ> fail_position now) z))"
proof -
  let ?r = "sy_runtime z"
  have c: "controllers_ok ?r" and b: "backend_ok pf (sy_backend z)" using assms by (simp_all add:
    prepared_def Let_def)
  have f: "ru_event_flags ?r = ru_event_flags (sy_runtime y)" "ru_request_flags ?r =
    ru_request_flags (sy_runtime y)"
    using assms by (simp_all add: prepared_def Let_def)
  show "ended_with pf ROTOR_CONTROL_EVENT_FAULT y (stop_and_fault pf (upd (abort_alignment now)
    z))" if "m = Mode_Alignment"
  proof -
    obtain a where a: "abort_alignment now ?r = ?r\<lparr>ru_alignment_controller :=
      a\<rparr>" "controller_ok a" "\<not> state_is_active (ks_state (ak_status a))"
      using stopped_controllers(6) [OF c] by blast
    have c': "controllers_ok (abort_alignment now ?r)" using controllers_ok_replace(2)
      [OF c a(2)] a(1) by simp
    have "mode_of (abort_alignment now ?r) = Mode_Idle"
      using a that assms unfolding mode_by_status [OF c'] by (simp add: prepared_def Let_def)
    then show ?thesis using c' b f a by (intro ends_released(2)) simp_all
  qed
  show "ended_with pf ROTOR_CONTROL_EVENT_FAULT y (stop_and_fault pf (upd (stop_torque now)
    z))" if "m = Mode_Torque"
  proof -
    obtain k where k: "stop_torque now ?r = ?r\<lparr>ru_torque_controller :=
      k\<rparr>" "torque_ok k" "\<not> ts_active (tq_status k)"
      using stopped_controllers(1) [OF c] by blast
    have c': "controllers_ok (stop_torque now ?r)" using controllers_ok_replace(3) [OF c k(2)] k(1)
      by simp
    have "mode_of (stop_torque now ?r) = Mode_Idle"
      using k that assms unfolding mode_by_status [OF c'] by (simp add: prepared_def Let_def)
    then show ?thesis using c' b f k by (intro ends_released(2)) simp_all
  qed
  show "ended_with pf ROTOR_CONTROL_EVENT_FAULT y (stop_and_fault pf (upd (stop_torque now \<circ>
    fail_velocity now) z))" if "m = Mode_Velocity"
    using cascade_released [OF c, of "fail_velocity now" now] b f assms that
    by (intro ends_released(2)) (simp_all add: prepared_def Let_def)
  show "ended_with pf ROTOR_CONTROL_EVENT_FAULT y (stop_and_fault pf (upd (stop_torque now \<circ>
    fail_velocity now \<circ> fail_position now) z))"
    if "m = Mode_Position"
  proof -
    obtain x where x: "fail_position now ?r = ?r\<lparr>ru_position_controller :=
      x\<rparr>" "position_ok x" "\<not> xs_active (xc_status x)"
      using stopped_controllers(5) [OF c] by blast
    have c': "controllers_ok (fail_position now ?r)" using controllers_ok_replace(5)
      [OF c x(2)] x(1) by simp
    from cascade_released [OF c', of "fail_velocity now" now] x b f assms that show ?thesis
      by (intro ends_released(2)) (simp_all add: prepared_def Let_def)
  qed
qed

lemma start_loop_success:
  assumes "start_loop pf z = (True, y')"
  shows "sy_runtime y' = sy_runtime z" "backend_ok pf (sy_backend z) \<Longrightarrow>
    backend_ok pf (sy_backend y')" "cb_active (sy_backend y')"
  using assms backend_calls_ok(3) [of "sy_backend z"] started(1)
    [of pf "sy_backend z" "sy_backend y'"]
  by (auto simp: start_loop_def on_backend_def split: prod.splits)

lemma zero_reference_success:
  assumes "zero_reference pf z = (ok, y')"
  shows "sy_runtime y' = sy_runtime z" "backend_ok pf (sy_backend z) \<Longrightarrow>
    backend_ok pf (sy_backend y')"
  using assms backend_calls_ok(1) [of "sy_backend z" 0 0] by (auto simp: zero_reference_def
    on_backend_def split: prod.splits)

lemma idle_steps: "loop_idle y = (ok, z) \<Longrightarrow> z = y" "phase_known sample y = (ok, z) \<Longrightarrow> z = y"
  by (simp_all add: loop_idle_def phase_known_def)

lemma start_prepared:
  assumes "controllers_ok (sy_runtime y)" "backend_ok pf (sy_backend y)" "mode_of (sy_runtime y) =
    Mode_Idle"
    "all_succeed fs y = (False, z)" "\<And>f z. f \<in> set fs \<Longrightarrow> prepared pf m y z \<Longrightarrow>
      prepared pf m y (snd (f z))"
  shows "prepared pf m y z"
  using all_succeed_inv [of fs "prepared pf m y" y] idle_prepared [OF assms(1-3)] assms(4,5) by simp

lemma idle_controllers:
  assumes "controllers_ok r" "mode_of r = Mode_Idle"
  shows "\<not> state_is_active (ks_state (ak_status (ru_alignment_controller r)))" "\<not> ts_active
    (tq_status (ru_torque_controller r))"
    "\<not> vl_active (vc_status (ru_velocity_controller r))" "\<not> xs_active (xc_status
      (ru_position_controller r))"
  using assms(2) [unfolded mode_by_status(1) [OF assms(1)]] by (auto split: if_splits)

lemmas steps_prepared = prepared_steps [OF loop_platform_axioms]

lemma start_alignment_outcome:
  assumes "controllers_ok (sy_runtime y)" "backend_ok pf (sy_backend y)" "mode_of (sy_runtime y) =
    Mode_Idle"
    "start_alignment pf now y = (ok, y')"
  shows "if ok then has_started pf Mode_Alignment y y' else ended_with pf ROTOR_CONTROL_EVENT_FAULT
    y y'"
proof -
  let ?fs = "[loop_idle, begin_alignment now, apply_alignment_reference pf, start_loop pf]"
  obtain b z where z: "all_succeed ?fs y = (b, z)" by fastforce
  show ?thesis
  proof (cases b)
    case True
    then obtain z1 z2 where z12: "begin_alignment now y = (True,
      z1)" "apply_alignment_reference pf z1 = (True, z2)"
        "start_loop pf z2 = (True, z)"
      using z by (simp add: all_succeed_Cons del: all_succeed.simps(2)) (metis idle_steps)
    obtain a where a: "z1 = upd (\<lambda>r. r\<lparr>ru_alignment_controller := a\<rparr>)
      y" "controller_ok a" "state_is_active (ks_state (ak_status a))"
      using begin_alignment_step [OF assms(1) z12(1)] by auto
    have z2: "sy_runtime z2 = (sy_runtime y)\<lparr>ru_alignment_controller :=
      a\<rparr>" "backend_ok pf (sy_backend z2)"
      using apply_alignment_parts(1,2) [where y = z1 and pf = pf] z12(2) a(1) assms(2)
        loop_platform_axioms by auto
    have c: "controllers_ok (sy_runtime z)" using controllers_ok_replace(2) [OF assms(1)
      a(2)] z2 start_loop_success(1) [OF z12(3)] by simp
    have "has_started pf Mode_Alignment y z"
      using c start_loop_success [OF z12(3)] z2 a idle_controllers [OF assms(1,3)]
      unfolding has_started_def mode_by_status [OF c] by simp
    then show ?thesis using assms(4) z True by (simp add: start_alignment_def del:
      all_succeed.simps)
  next
    case False
    have "prepared pf Mode_Alignment y z"
      by (rule start_prepared [OF assms(1-3), of ?fs]) (use z False in \<open>auto intro: steps_prepared\<close>)
    from failed_start_ends(1) [OF this refl, of now] show ?thesis using assms(4)
      z False by (auto simp: start_alignment_def simp del: all_succeed.simps)
  qed
qed

lemma start_torque_outcome:
  assumes "controllers_ok (sy_runtime y)" "backend_ok pf (sy_backend y)" "mode_of (sy_runtime y) =
    Mode_Idle"
    "start_torque pf sample now t y = (ok, y')"
  shows "if ok then has_started pf Mode_Torque y y' else ended_with pf ROTOR_CONTROL_EVENT_FAULT y
    y'"
proof -
  let ?fs = "[loop_idle, phase_known sample, begin_torque now t, zero_reference pf, start_loop pf]"
  obtain b z where z: "all_succeed ?fs y = (b, z)" by fastforce
  show ?thesis
  proof (cases b)
    case True
    then obtain z1 z2 where z12: "begin_torque now t y = (True, z1)" "zero_reference pf z1 = (True,
      z2)" "start_loop pf z2 = (True, z)"
      using z by (simp add: all_succeed_Cons del: all_succeed.simps(2)) (metis idle_steps)
    obtain k where k: "z1 = upd (\<lambda>r. r\<lparr>ru_torque_controller := k\<rparr>)
      y" "torque_ok k" "ts_active (tq_status k)"
      using begin_torque_step [OF assms(1) z12(1)] by auto
    note z2 = zero_reference_success [OF z12(2)]
    have c: "controllers_ok (sy_runtime z)"
      using controllers_ok_replace(3) [OF assms(1) k(2)] z2(1) k(1) start_loop_success(1)
        [OF z12(3)] by simp
    have "has_started pf Mode_Torque y z"
      using c start_loop_success [OF z12(3)] z2 k assms(2) idle_controllers [OF assms(1,3)]
      unfolding has_started_def mode_by_status [OF c] by simp
    then show ?thesis using assms(4) z True by (simp add: start_torque_def del: all_succeed.simps)
  next
    case False
    have "prepared pf Mode_Torque y z"
      by (rule start_prepared [OF assms(1-3), of ?fs]) (use z False in \<open>auto intro: steps_prepared\<close>)
    from failed_start_ends(2) [OF this refl, of now] show ?thesis using assms(4)
      z False by (auto simp: start_torque_def simp del: all_succeed.simps)
  qed
qed

lemma start_velocity_outcome:
  assumes "controllers_ok (sy_runtime y)" "backend_ok pf (sy_backend y)" "mode_of (sy_runtime y) =
    Mode_Idle"
    "start_velocity pf sample now t y = (ok, y')"
  shows "if ok then has_started pf Mode_Velocity y y' else ended_with pf ROTOR_CONTROL_EVENT_FAULT y
    y'"
proof -
  let ?d = "ru_requested_velocity_duration_millis (sy_runtime y)"
  let ?fs = "[loop_idle, phase_known sample, begin_velocity now, track_torque ?d now t,
    zero_reference pf, start_loop pf]"
  obtain b z where z: "all_succeed ?fs y = (b, z)" by fastforce
  show ?thesis
  proof (cases b)
    case True
    then obtain z1 z2 z3 where z12: "begin_velocity now y = (True, z1)" "track_torque ?d now t z1 =
      (True, z2)"
        "zero_reference pf z2 = (True, z3)" "start_loop pf z3 = (True, z)"
      using z by (simp add: all_succeed_Cons del: all_succeed.simps(2)) (metis idle_steps)
    obtain v where v: "z1 = upd (\<lambda>r. r\<lparr>ru_velocity_controller := v\<rparr>)
      y" "velocity_ok v" "vl_active (vc_status v)" "vc_deadline_millis v = now + ?d"
      using begin_velocity_step [OF assms(1) z12(1)] by auto
    have c1: "controllers_ok (sy_runtime z1)" using controllers_ok_replace(4) [OF assms(1)
      v(2)] v(1) by simp
    obtain k where k: "z2 = upd (\<lambda>r. r\<lparr>ru_torque_controller := k\<rparr>)
      z1" "torque_ok k" "ts_active (tq_status k)" "tq_deadline_millis k = now + ?d"
      using track_torque_step [OF c1 z12(2)] by auto
    note z3 = zero_reference_success [OF z12(3)]
    have c: "controllers_ok (sy_runtime z)"
      using controllers_ok_replace(3) [OF c1 k(2)] z3(1) k(1) start_loop_success(1)
        [OF z12(4)] by simp
    have "has_started pf Mode_Velocity y z"
      using c start_loop_success [OF z12(4)] z3 k v assms(2) idle_controllers [OF assms(1,3)]
      unfolding has_started_def mode_by_status [OF c] by simp
    then show ?thesis using assms(4) z True by (simp add: start_velocity_def del: all_succeed.simps)
  next
    case False
    have "prepared pf Mode_Velocity y z"
      by (rule start_prepared [OF assms(1-3), of ?fs]) (use z False in \<open>auto intro: steps_prepared\<close>)
    from failed_start_ends(3) [OF this refl, of now] show ?thesis using assms(4)
      z False by (auto simp: start_velocity_def simp del: all_succeed.simps)
  qed
qed

lemma start_position_outcome:
  assumes "controllers_ok (sy_runtime y)" "backend_ok pf (sy_backend y)" "mode_of (sy_runtime y) =
    Mode_Idle"
    "start_position pf sample now t y = (ok, y')"
  shows "if ok then has_started pf Mode_Position y y' else ended_with pf ROTOR_CONTROL_EVENT_FAULT y
    y'"
proof -
  let ?d = "ru_requested_position_duration_millis (sy_runtime y)"
  let ?fs = "[loop_idle, phase_known sample, begin_position now, track_velocity now,
    track_torque ?d now t, zero_reference pf, start_loop pf]"
  obtain b z where z: "all_succeed ?fs y = (b, z)" by fastforce
  show ?thesis
  proof (cases b)
    case True
    then obtain z0 z1 z2 z3 where z12: "begin_position now y = (True, z0)" "track_velocity now z0 =
      (True, z1)" "track_torque ?d now t z1 = (True, z2)"
        "zero_reference pf z2 = (True, z3)" "start_loop pf z3 = (True, z)"
      using z by (simp add: all_succeed_Cons del: all_succeed.simps(2)) (metis idle_steps)
    obtain x where x: "z0 = upd (\<lambda>r. r\<lparr>ru_position_controller := x\<rparr>)
      y" "position_ok x" "xs_active (xc_status x)" "xc_deadline_millis x = now + ?d"
      using begin_position_step [OF assms(1) z12(1)] by auto
    have c0: "controllers_ok (sy_runtime z0)" using controllers_ok_replace(5) [OF assms(1)
      x(2)] x(1) by simp
    obtain v where v: "z1 = upd (\<lambda>r. r\<lparr>ru_velocity_controller := v\<rparr>)
      z0" "velocity_ok v" "vl_active (vc_status v)" "vc_deadline_millis v = now + ?d"
      using track_velocity_step [OF c0 z12(2)] x(1) by auto
    have c1: "controllers_ok (sy_runtime z1)" using controllers_ok_replace(4) [OF c0 v(2)] v(1)
      by simp
    obtain k where k: "z2 = upd (\<lambda>r. r\<lparr>ru_torque_controller := k\<rparr>)
      z1" "torque_ok k" "ts_active (tq_status k)" "tq_deadline_millis k = now + ?d"
      using track_torque_step [OF c1 z12(3)] by auto
    note z3 = zero_reference_success [OF z12(4)]
    have c: "controllers_ok (sy_runtime z)"
      using controllers_ok_replace(3) [OF c1 k(2)] z3(1) k(1) start_loop_success(1)
        [OF z12(5)] by simp
    have "has_started pf Mode_Position y z"
      using c start_loop_success [OF z12(5)] z3 k v x assms(2) idle_controllers [OF assms(1,3)]
      unfolding has_started_def mode_by_status [OF c] by simp
    then show ?thesis using assms(4) z True by (simp add: start_position_def del: all_succeed.simps)
  next
    case False
    have "prepared pf Mode_Position y z"
      by (rule start_prepared [OF assms(1-3), of ?fs]) (use z False in \<open>auto intro: steps_prepared\<close>)
    from failed_start_ends(4) [OF this refl, of now] show ?thesis using assms(4)
      z False by (auto simp: start_position_def simp del: all_succeed.simps)
  qed
qed

end

section \<open>The callback\<close>

text \<open>States that differ only in what the control does not read: diagnostics, estimator, profile.\<close>

definition same_control :: "'h rotor_system \<Rightarrow> 'h rotor_system \<Rightarrow> bool" where
  "same_control y z \<longleftrightarrow> core_of (sy_runtime z) = core_of (sy_runtime y) \<and> sy_backend z =
    sy_backend y \<and>
     ru_event_flags (sy_runtime z) = ru_event_flags (sy_runtime y) \<and>
     ru_request_flags (sy_runtime z) = ru_request_flags (sy_runtime y)"

lemma same_control_refl [simp]: "same_control y y" by (simp add: same_control_def)

lemma same_control_trans: "same_control x y \<Longrightarrow> same_control y z \<Longrightarrow>
  same_control x z" by (simp add: same_control_def)

lemma same_control_ok: "same_control y z \<Longrightarrow> rotor_ok pf z = rotor_ok pf y"
  using core_determines [of "sy_runtime z" "sy_runtime y"] by (auto simp: same_control_def
    rotor_ok_def request_ok_def)

lemma same_control_after:
  assumes "same_control y' z"
  shows "ended_with pf e y z = ended_with pf e y y'" "goes_on pf now y z = goes_on pf now y y'"
    "has_started pf m y z = has_started pf m y y'"
  using assms core_determines [of "sy_runtime z" "sy_runtime y'"]
  by (simp_all add: same_control_def ended_with_def goes_on_def has_started_def)

lemma same_control_before:
  assumes "same_control y z"
  shows "ended_with pf e z y' = ended_with pf e y y'" "goes_on pf now z y' = goes_on pf now y y'"
    "has_started pf m z y' = has_started pf m y y'" "mode_of (sy_runtime z) =
      mode_of (sy_runtime y)"
    "sy_backend z = sy_backend y" "ru_request_flags (sy_runtime z) =
      ru_request_flags (sy_runtime y)"
    "ru_event_flags (sy_runtime z) = ru_event_flags (sy_runtime y)"
  using assms core_determines [of "sy_runtime z" "sy_runtime y"]
  by (simp_all add: same_control_def ended_with_def goes_on_def has_started_def)

lemma same_control_steps:
  "same_control y (profile_mark f c y)" "same_control y (finish_callback c2 c3 t e b y)"
  "same_control y (upd (ru_encoder_diagnostics_update f1)
    y)" "same_control y (upd (ru_estimator_fault_flags_update f2) y)"
  "same_control y (upd (\<lambda>r. r\<lparr>ru_estimator_fault_flags := g r\<rparr>) y)"
  "same_control y (upd (\<lambda>r. r\<lparr>ru_encoder_diagnostics := h r\<rparr>) y)"
  "same_control y (upd (record_encoder_error s ts rx n t) y)" "same_control y (upd (record_sample m
    t) y)"
  "same_control y (snd (push_sample fp m t y))"
proof -
  show m: "same_control y (profile_mark f c y)" for f c and y :: "'h rotor_system"
    by (simp add: profile_mark_def same_control_def)
  show "same_control y (finish_callback c2 c3 t e b y)"
  proof -
    have "same_control z (upd (\<lambda>r. publish_callback_state t (b \<or> ru_event_flags r \<noteq> e) r)
      z)" for z :: "'h rotor_system"
      by (simp add: same_control_def)
    then show ?thesis unfolding finish_callback_def Let_def by (blast intro: m same_control_trans)
  qed
qed (simp_all add: same_control_def core_of_def record_encoder_error_def record_sample_def
  push_sample_def Let_def split: prod.split)

lemma raise_event_parts [simp]: "sy_backend (raise_event e y) = sy_backend y"
  "sy_runtime (raise_event e y) = (sy_runtime y)\<lparr>ru_event_flags := ru_event_flags (sy_runtime y)
    OR e\<rparr>"
  by (simp_all add: raise_event_def)

text \<open>The stop of all controllers, as a stop request and a failure make it.\<close>

lemma all_stopped:
  assumes "controllers_ok r"
    and "a r = r\<lparr>ru_alignment_controller := al\<rparr>" "controller_ok al" "\<not> state_is_active (ks_state
      (ak_status al))"
    and "\<And>r. controllers_ok r \<Longrightarrow> \<exists>x. p r = r\<lparr>ru_position_controller := x\<rparr> \<and> position_ok x \<and>
      \<not> xs_active (xc_status x)"
    and "\<And>r. controllers_ok r \<Longrightarrow> \<exists>v. f r = r\<lparr>ru_velocity_controller := v\<rparr> \<and> velocity_ok v \<and>
      \<not> vl_active (vc_status v)"
    and "\<And>r. controllers_ok r \<Longrightarrow> \<exists>k. t r = r\<lparr>ru_torque_controller := k\<rparr> \<and> torque_ok k \<and>
      \<not> ts_active (tq_status k)"
  shows "\<exists>al x v k. t (f (p (a r))) = r\<lparr>ru_alignment_controller := al, ru_position_controller := x,
    ru_velocity_controller := v, ru_torque_controller := k\<rparr> \<and>
     controllers_ok (t (f (p (a r)))) \<and> mode_of (t (f (p (a r)))) = Mode_Idle"
proof -
  have c1: "controllers_ok (a r)" using controllers_ok_replace(2) [OF assms(1,3)] assms(2) by simp
  from assms(5) [OF c1] obtain x where x: "p (a r) = (a r)\<lparr>ru_position_controller :=
    x\<rparr>" "position_ok x" "\<not> xs_active (xc_status x)" by blast
  have c2: "controllers_ok (p (a r))" using controllers_ok_replace(5) [OF c1 x(2)] x(1) by simp
  from assms(6) [OF c2] obtain v where v: "f (p (a r)) = (p (a r))\<lparr>ru_velocity_controller :=
    v\<rparr>" "velocity_ok v" "\<not> vl_active (vc_status v)" by blast
  have c3: "controllers_ok (f (p (a r)))" using controllers_ok_replace(4) [OF c2 v(2)] v(1) by simp
  from assms(7) [OF c3] obtain k where k: "t (f (p (a r))) = (f (p (a r)))\<lparr>ru_torque_controller :=
    k\<rparr>" "torque_ok k" "\<not> ts_active (tq_status k)" by blast
  have c4: "controllers_ok (t (f (p (a r))))" using controllers_ok_replace(3) [OF c3 k(2)] k(1)
    by simp
  have "mode_of (t (f (p (a r)))) = Mode_Idle" using assms(2,4)
    x v k unfolding mode_by_status [OF c4] by simp
  with c4 k(1) v(1) x(1) assms(2) show ?thesis by simp blast
qed

fun request_of :: "drive_mode \<Rightarrow> u32" where
  "request_of Mode_Idle = 0"
| "request_of Mode_Alignment = ROTOR_CONTROL_REQUEST_ALIGNMENT"
| "request_of Mode_Torque = ROTOR_CONTROL_REQUEST_TORQUE"
| "request_of Mode_Velocity = ROTOR_CONTROL_REQUEST_VELOCITY"
| "request_of Mode_Position = ROTOR_CONTROL_REQUEST_POSITION"

text \<open>
  What one callback may do to the mode: nothing while idle; acknowledge a stop while idle, which
  leaves the loop alone; end with an event what is running or requested; continue a run; or start
  the requested one.
\<close>

definition quiet :: "'h rotor_system \<Rightarrow> 'h rotor_system \<Rightarrow> bool" where
  "quiet y y' \<longleftrightarrow> mode_of (sy_runtime y) = Mode_Idle \<and> ru_request_flags (sy_runtime y) = 0 \<and>
    same_control y y'"

definition released_idle :: "'h rotor_system \<Rightarrow> 'h rotor_system \<Rightarrow> bool" where
  "released_idle y y' \<longleftrightarrow> controllers_ok (sy_runtime y') \<and> mode_of (sy_runtime y') = Mode_Idle \<and>
     ru_request_flags (sy_runtime y') = ru_request_flags (sy_runtime y) \<and>
     ru_event_flags (sy_runtime y') =
       ru_event_flags (sy_runtime y) OR ROTOR_CONTROL_EVENT_AUTHORITY_RELEASED \<and>
     sy_backend y' = sy_backend y"

definition acknowledges :: "'h rotor_system \<Rightarrow> 'h rotor_system \<Rightarrow> bool" where
  "acknowledges y y' \<longleftrightarrow> mode_of (sy_runtime y) = Mode_Idle \<and>
     ru_request_flags (sy_runtime y) = ROTOR_CONTROL_REQUEST_STOP \<and>
     released_idle (upd (\<lambda>r. r\<lparr>ru_request_flags := 0\<rparr>) y) y'"

definition ends :: "'h platform \<Rightarrow> 'h rotor_system \<Rightarrow> 'h rotor_system \<Rightarrow> u32 \<Rightarrow> bool" where
  "ends pf y y' e \<longleftrightarrow> ended_with pf e (upd (\<lambda>r. r\<lparr>ru_request_flags := 0\<rparr>) y) y' \<and> e \<noteq> 0 \<and>
     (mode_of (sy_runtime y) = Mode_Idle \<longrightarrow>
        ru_request_flags (sy_runtime y) \<notin> {0, ROTOR_CONTROL_REQUEST_STOP} \<and>
        e AND ROTOR_CONTROL_EVENT_FAULT \<noteq> 0)"

definition continues :: "'h platform \<Rightarrow> u32 \<Rightarrow> 'h rotor_system \<Rightarrow> 'h rotor_system \<Rightarrow> bool" where
  "continues pf now y y' \<longleftrightarrow> mode_of (sy_runtime y) \<noteq> Mode_Idle \<and> ru_request_flags (sy_runtime y) =
    0 \<and> goes_on pf now y y'"

definition starts :: "'h platform \<Rightarrow> 'h rotor_system \<Rightarrow> 'h rotor_system \<Rightarrow> drive_mode \<Rightarrow> bool" where
  "starts pf y y' m \<longleftrightarrow> mode_of (sy_runtime y) = Mode_Idle \<and> m \<noteq> Mode_Idle \<and>
    ru_request_flags (sy_runtime y) = request_of m \<and>
     has_started pf m (upd (\<lambda>r. r\<lparr>ru_request_flags := 0\<rparr>) y) y'"

lemma outcomes_same_after:
  assumes "same_control y' z"
  shows "quiet y z = quiet y y'" "ends pf y z e = ends pf y y' e" "continues pf now y z =
    continues pf now y y'"
    "starts pf y z m = starts pf y y' m" "acknowledges y z = acknowledges y y'"
proof -
  have "same_control y z = same_control y y'" using assms by (simp add: same_control_def)
  then show "quiet y z = quiet y y'" "ends pf y z e = ends pf y y' e" "continues pf now y z =
    continues pf now y y'"
    "starts pf y z m = starts pf y y' m"
    by (simp_all add: quiet_def ends_def continues_def starts_def same_control_after [OF assms])
  show "acknowledges y z = acknowledges y y'"
    using assms core_determines [of "sy_runtime z" "sy_runtime y'"]
    by (simp add: acknowledges_def released_idle_def same_control_def)
qed

lemma outcomes_same_before:
  assumes "same_control y z"
  shows "quiet z y' = quiet y y'" "ends pf z y' e = ends pf y y' e" "continues pf now z y' =
    continues pf now y y'"
    "starts pf z y' m = starts pf y y' m" "acknowledges z y' = acknowledges y y'"
proof -
  have s: "same_control (upd (\<lambda>r. r\<lparr>ru_request_flags := 0\<rparr>) y) (upd (\<lambda>r. r\<lparr>ru_request_flags := 0\<rparr>)
    z)"
    using assms by (simp add: same_control_def)
  have "same_control z y' = same_control y y'" using assms by (simp add: same_control_def)
  then show "quiet z y' = quiet y y'" "ends pf z y' e = ends pf y y' e" "continues pf now z y' =
    continues pf now y y'"
    "starts pf z y' m = starts pf y y' m"
    using same_control_before(4,6) [OF assms] same_control_before(1,3) [OF s] same_control_before(2)
      [OF assms]
    by (simp_all add: quiet_def ends_def continues_def starts_def)
  show "acknowledges z y' = acknowledges y y'"
    using assms same_control_before(4) [OF assms]
    by (simp add: acknowledges_def released_idle_def same_control_def)
qed

context loop_platform
begin

lemma process_stop_ends:
  assumes "rotor_ok pf y"
  shows "mode_of (sy_runtime y) \<noteq> Mode_Idle \<Longrightarrow>
      \<exists>e \<in> {ROTOR_CONTROL_EVENT_AUTHORITY_RELEASED, ROTOR_CONTROL_EVENT_FAULT}.
        ended_with pf e y (process_stop_request pf now y)"
    "mode_of (sy_runtime y) = Mode_Idle \<Longrightarrow> released_idle y (process_stop_request pf now y)"
proof -
  let ?r = "sy_runtime y"
  have c: "controllers_ok ?r" and b: "backend_ok pf (sy_backend y)" using assms by (simp_all add:
    rotor_ok_def)
  define a where "a r = (if alignment_controller_is_active (Some (ru_alignment_controller r))
    then abort_alignment now r else r)" for r
  have "\<exists>al. a ?r = ?r\<lparr>ru_alignment_controller := al\<rparr> \<and> controller_ok al \<and>
    \<not> state_is_active (ks_state (ak_status al))"
    using stopped_controllers(6) [OF c, of now] c
    by (cases "alignment_controller_is_active (Some (ru_alignment_controller ?r))")
      (auto simp: a_def activity controllers_ok_def controller_ok_def intro!: exI [of _
        "ru_alignment_controller ?r"])
  then obtain al where al: "a ?r = ?r\<lparr>ru_alignment_controller :=
    al\<rparr>" "controller_ok al" "\<not> state_is_active (ks_state (ak_status al))" by blast
  define r' where "r' = stop_torque now (stop_velocity now (stop_position now (a ?r)))"
  have r': "controllers_ok r'" "mode_of r' = Mode_Idle" "ru_event_flags r' =
    ru_event_flags ?r" "ru_request_flags r' = ru_request_flags ?r"
    using all_stopped [where a = a and p = "stop_position now" and f = "stop_velocity now" and t =
      "stop_torque now" and r = ?r,
        OF c al stopped_controllers(4) stopped_controllers(2)
          stopped_controllers(1)] unfolding r'_def by auto
  have y1: "sy_runtime (upd (stop_torque now \<circ> stop_velocity now \<circ> stop_position now \<circ> a) y) =
    r'" by (simp add: r'_def)
  note req = process_stop_request_def [of pf now y, unfolded Let_def, folded a_def]
  show "released_idle y (process_stop_request pf now y)" if "mode_of ?r = Mode_Idle"
  proof -
    have "process_stop_request pf now y = raise_event ROTOR_CONTROL_EVENT_AUTHORITY_RELEASED
        (upd (stop_torque now \<circ> stop_velocity now \<circ> stop_position now \<circ> a) y)"
      using req that by (simp add: active_iff_mode a_def [abs_def])
    then show ?thesis using r' core_determines [OF event_core(1)]
      by (simp add: released_idle_def r'_def [symmetric])
  qed
  show "\<exists>e \<in> {ROTOR_CONTROL_EVENT_AUTHORITY_RELEASED, ROTOR_CONTROL_EVENT_FAULT}.
    ended_with pf e y (process_stop_request pf now y)" if "mode_of ?r \<noteq> Mode_Idle"
  proof -
    have "process_stop_request pf now y =
      snd (stop_backend pf ROTOR_CONTROL_EVENT_AUTHORITY_RELEASED
        (upd (stop_torque now \<circ> stop_velocity now \<circ> stop_position now \<circ> a) y))"
      using req that by (simp add: active_iff_mode a_def [abs_def])
    then show ?thesis using ends_released(1) [of _ y ROTOR_CONTROL_EVENT_AUTHORITY_RELEASED] r' y1 b
      by (simp add: rotor_constants)
  qed
qed

lemma fail_active_ends:
  assumes "rotor_ok pf y"
  shows "if mode_of (sy_runtime y) = Mode_Idle then fail_active_control pf now t y = y
    else ended_with pf ROTOR_CONTROL_EVENT_FAULT y (fail_active_control pf now t y)"
proof (cases "mode_of (sy_runtime y) = Mode_Idle")
  case True
  then show ?thesis by (simp add: fail_active_control_def active_iff_mode)
next
  case False
  let ?r = "sy_runtime y"
  have c: "controllers_ok ?r" and b: "backend_ok pf (sy_backend y)" using assms by (simp_all add:
    rotor_ok_def)
  define tf where "tf r = (if aligned_torque_controller_is_active (Some (ru_torque_controller r))
      then r\<lparr>ru_torque_controller := the (snd (aligned_torque_controller_update (Some
        (ru_torque_controller r)) now t False 0 0
        (cb_active (sy_backend y))))\<rparr> else r)" for r :: rotor_control_runtime
  have tf: "\<exists>k. tf r = r\<lparr>ru_torque_controller := k\<rparr> \<and> torque_ok k \<and>
    \<not> ts_active (tq_status k)" if "controllers_ok r" for r
  proof (cases "ts_active (tq_status (ru_torque_controller r))")
    case True
    have ok: "torque_ok (ru_torque_controller r)" "tq_initialized (ru_torque_controller r)"
      using that by (simp_all add: controllers_ok_def torque_ok_def Let_def)
    show ?thesis
      by (cases rule: torque_after_update [OF ok(1) True, of now t False 0 0 "cb_active (sy_backend
        y)"])
        (use True ok in \<open>auto simp: tf_def activity\<close>)
  next
    case False
    then show ?thesis using that by (auto simp: tf_def activity controllers_ok_def intro: exI [of _
      "ru_torque_controller r"])
  qed
  obtain v where v: "fail_velocity now ?r = ?r\<lparr>ru_velocity_controller :=
    v\<rparr>" "velocity_ok v" "\<not> vl_active (vc_status v)"
    using stopped_controllers(3) [OF c] by blast
  have c1: "controllers_ok (fail_velocity now ?r)" using controllers_ok_replace(4) [OF c v(2)] v(1)
    by simp
  obtain x where x: "fail_position now (fail_velocity now ?r) =
    (fail_velocity now ?r)\<lparr>ru_position_controller := x\<rparr>" "position_ok x" "\<not> xs_active (xc_status x)"
    using stopped_controllers(5) [OF c1] by blast
  have c2: "controllers_ok (fail_position now (fail_velocity now ?r))" using
    controllers_ok_replace(5) [OF c1 x(2)] x(1) by simp
  obtain a where a: "abort_alignment now (fail_position now (fail_velocity now ?r)) =
      (fail_position now (fail_velocity now ?r))\<lparr>ru_alignment_controller :=
        a\<rparr>" "controller_ok a" "\<not> state_is_active (ks_state (ak_status a))"
    using stopped_controllers(6) [OF c2] by blast
  define r3 where "r3 = abort_alignment now (fail_position now (fail_velocity now ?r))"
  have c3: "controllers_ok r3" using controllers_ok_replace(2) [OF c2 a(2)] a(1)
    by (simp add: r3_def)
  obtain k where k: "tf r3 = r3\<lparr>ru_torque_controller := k\<rparr>" "torque_ok k" "\<not> ts_active (tq_status
    k)" using tf [OF c3] by blast
  have c4: "controllers_ok (tf r3)" using controllers_ok_replace(3) [OF c3 k(2)] k(1) by simp
  have m: "mode_of (tf r3) = Mode_Idle" using k a v x unfolding mode_by_status [OF c4] by (simp add:
    r3_def)
  have r3: "ru_event_flags r3 = ru_event_flags ?r" "ru_request_flags r3 =
    ru_request_flags ?r" using a v x by (simp_all add: r3_def)
  have "fail_active_control pf now t y = stop_and_fault pf (upd (\<lambda>_. tf r3) y)"
    using False unfolding fail_active_control_def Let_def active_iff_mode
    by (simp add: upd_def tf_def r3_def [symmetric])
  moreover have "ended_with pf ROTOR_CONTROL_EVENT_FAULT y (stop_and_fault pf (upd (\<lambda>_. tf r3) y))"
    by (rule ends_released(2)) (use b c4 m r3 k in simp_all)
  ultimately show ?thesis using False by simp
qed

lemma ended_ok:
  assumes "ended_with pf e y y'" "ru_request_flags (sy_runtime y) = 0"
  shows "rotor_ok pf y'"
  using assms by (auto simp: ended_with_def rotor_ok_def request_ok_def mode_of_def cascade_ok_def
    Let_def split: if_splits)

text \<open>Without a usable sample: what was running or requested ends with a fault.\<close>

lemma reject_ends:
  fixes now t
  assumes "rotor_ok pf y"
  defines "y0 \<equiv> upd (\<lambda>r. r\<lparr>ru_request_flags := 0\<rparr>) y"
    and "y' \<equiv> reject_requests_without_feedback pf now t y"
    and "idle \<equiv> mode_of (sy_runtime y) = Mode_Idle"
  shows "idle \<Longrightarrow> ru_request_flags (sy_runtime y) = 0 \<Longrightarrow> y' = y0"
    "idle \<Longrightarrow> ru_request_flags (sy_runtime y) = ROTOR_CONTROL_REQUEST_STOP \<Longrightarrow> released_idle y0 y'"
    "\<not> idle \<or> ru_request_flags (sy_runtime y) \<notin> {0, ROTOR_CONTROL_REQUEST_STOP} \<Longrightarrow>
      \<exists>e. ended_with pf e y0 y' \<and> e AND ROTOR_CONTROL_EVENT_FAULT \<noteq> 0 \<and>
        bridge_off pf (cb_bridge (sy_backend y'))"
proof -
  let ?q = "ru_request_flags (sy_runtime y)" and ?m = "mode_of (sy_runtime y)"
  define y1 where "y1 = fail_active_control pf now t y0"
  have m0: "mode_of (sy_runtime y0) = ?m" "sy_backend y0 =
    sy_backend y" "ru_request_flags (sy_runtime y0) = 0"
    using core_determines [OF event_core(2)] by (simp_all add: y0_def)
  have ok0: "rotor_ok pf y0" using assms(1) core_determines [OF event_core(2)] by (simp add: y0_def
    rotor_ok_def request_ok_def)
  have y1: "if ?m = Mode_Idle then y1 = y0 else ended_with pf ROTOR_CONTROL_EVENT_FAULT y0 y1"
    using fail_active_ends [OF ok0, of now t] m0(1) by (simp add: y1_def)
  have ok1: "rotor_ok pf y1" using y1 ok0 ended_ok m0(3) by (auto split: if_splits)
  have rej: "y' =
      (if ?q AND ROTOR_CONTROL_REQUEST_STOP \<noteq> 0 then process_stop_request pf now y1
       else if ?q AND (ROTOR_CONTROL_REQUEST_ALIGNMENT OR ROTOR_CONTROL_REQUEST_TORQUE OR
          ROTOR_CONTROL_REQUEST_VELOCITY OR ROTOR_CONTROL_REQUEST_POSITION)
            \<noteq> 0 then stop_and_fault pf y1 else y1)"
    by (simp add: y'_def reject_requests_without_feedback_def Let_def y0_def y1_def)
  have idle1: "mode_of (sy_runtime y1) = Mode_Idle" using y1 m0(1)
    by (simp add: ended_with_def split: if_splits)
  have stop: "released_idle y1 (process_stop_request pf now y1)"
    using process_stop_ends(2) [OF ok1 idle1] .
  have fault: "ended_with pf ROTOR_CONTROL_EVENT_FAULT y1 (stop_and_fault pf y1)"
    using ok1 idle1 by (intro stop_and_fault_ends) (simp_all add: rotor_ok_def)
  show "y' = y0" if "idle" "?q = 0" using that y1 rej by (simp add: idle_def)
  show "released_idle y0 y'" if "idle" "?q = ROTOR_CONTROL_REQUEST_STOP"
    using that y1 rej stop by (simp add: idle_def rotor_constants)
  show "\<exists>e. ended_with pf e y0 y' \<and> e AND ROTOR_CONTROL_EVENT_FAULT \<noteq> 0 \<and>
      bridge_off pf (cb_bridge (sy_backend y'))"
    if "\<not> idle \<or> ?q \<notin> {0, ROTOR_CONTROL_REQUEST_STOP}"
  proof (cases idle)
    case True
    then have "y1 = y0" using y1 by (simp add: idle_def)
    moreover have "?q \<in> {ROTOR_CONTROL_REQUEST_ALIGNMENT, ROTOR_CONTROL_REQUEST_TORQUE,
        ROTOR_CONTROL_REQUEST_VELOCITY, ROTOR_CONTROL_REQUEST_POSITION}"
      using assms(1) that True by (auto simp: rotor_ok_def request_ok_def)
    then have "y' = stop_and_fault pf y1" using rej by (auto simp: rotor_constants)
    ultimately show ?thesis using fault
      by (auto simp: rotor_constants ended_with_def intro!: exI [of _ 4])
  next
    case False
    then have e: "ended_with pf ROTOR_CONTROL_EVENT_FAULT y0 y1" using y1 by (simp add: idle_def)
    from False have "?q \<in> {0, ROTOR_CONTROL_REQUEST_STOP}" using assms(1)
      by (auto simp: rotor_ok_def request_ok_def idle_def)
    then consider "y' = y1" | "y' = process_stop_request pf now y1"
      using rej by (auto simp: rotor_constants)
    then show ?thesis
    proof cases
      case 1
      then show ?thesis using e by (auto simp: rotor_constants ended_with_def intro!: exI [of _ 4])
    next
      case 2
      then show ?thesis using e stop
        by (auto simp: rotor_constants ended_with_def released_idle_def or.assoc intro!: exI [of _
          5])
    qed
  qed
qed

lemma update_control_outcome:
  assumes "rotor_ok pf y" "mode_of (sy_runtime y) \<noteq> Mode_Idle"
  obtains y' where "update_control pf fp sample now t y = Some y'" "goes_on pf now y y'"
  | y' e where "update_control pf fp sample now t y = Some y'" "ended_with pf e y y'"
    "e \<in> {ROTOR_CONTROL_EVENT_AUTHORITY_RELEASED, ROTOR_CONTROL_EVENT_ALIGNMENT_COMPLETED,
      ROTOR_CONTROL_EVENT_FAULT}"
proof (cases "mode_of (sy_runtime y)")
  case Mode_Idle
  then show thesis using assms(2) by simp
next
  case Mode_Alignment
  then have u: "update_control pf fp sample now t y = update_alignment pf sample now y"
    by (simp add: update_control_def mode_of_def Let_def split: if_splits)
  show thesis by (cases rule: alignment_update_cases [OF assms(1) Mode_Alignment, of sample now])
    (use u that in auto)
next
  case Mode_Torque
  then have u: "update_control pf fp sample now t y = Some (update_torque pf sample now t y)"
    by (simp add: update_control_def mode_of_def Let_def split: if_splits)
  show thesis by (cases rule: torque_update_ends [OF assms(1) Mode_Torque, of now sample t])
    (use u that in auto)
next
  case Mode_Velocity
  then have u: "update_control pf fp sample now t y = Some (update_velocity pf fp sample now t y)"
    by (simp add: update_control_def mode_of_def Let_def split: if_splits)
  show thesis by (cases rule: velocity_update_ends [OF assms(1) Mode_Velocity, of now fp sample t])
    (use u that in auto)
next
  case Mode_Position
  then have u: "update_control pf fp sample now t y = Some (update_position pf fp sample now t y)"
    by (simp add: update_control_def mode_of_def Let_def split: if_splits)
  show thesis by (cases rule: position_update_ends [OF assms(1) Mode_Position, of now fp sample t])
    (use u that in auto)
qed

lemma idle_update: "mode_of (sy_runtime y) = Mode_Idle \<Longrightarrow> update_control pf fp sample now t y =
  Some y"
  by (simp add: update_control_def mode_of_def Let_def split: if_splits)

lemma serve_request_outcome:
  assumes "controllers_ok (sy_runtime y)" "backend_ok pf (sy_backend y)" "mode_of (sy_runtime y) =
    Mode_Idle"
    and "m \<noteq> Mode_Idle" "serve_request pf sample now t (request_of m) y = (ok, y')"
  shows "if ok then has_started pf m y y' else ended_with pf ROTOR_CONTROL_EVENT_FAULT y y'"
  using assms(4,5) start_alignment_outcome [OF assms(1-3)] start_torque_outcome [OF assms(1-3)]
    start_velocity_outcome [OF assms(1-3)] start_position_outcome [OF assms(1-3)]
  by (cases m) (simp_all add: serve_request_def ROTOR_CONTROL_REQUEST_ALIGNMENT_def
    ROTOR_CONTROL_REQUEST_TORQUE_def
    ROTOR_CONTROL_REQUEST_VELOCITY_def ROTOR_CONTROL_REQUEST_POSITION_def)

lemma callback_control_outcome:
  assumes "rotor_ok pf y"
  obtains y' where "callback_control pf fp sample now t ev reads y = Some y'" "quiet y y'"
  | y' e where "callback_control pf fp sample now t ev reads y = Some y'" "ends pf y y' e"
      "e \<in> {ROTOR_CONTROL_EVENT_AUTHORITY_RELEASED, ROTOR_CONTROL_EVENT_ALIGNMENT_COMPLETED,
        ROTOR_CONTROL_EVENT_FAULT}"
  | y' where "callback_control pf fp sample now t ev reads y = Some y'" "continues pf now y y'"
  | y' m where "callback_control pf fp sample now t ev reads y = Some y'" "starts pf y y' m"
  | y' where "callback_control pf fp sample now t ev reads y = Some y'" "acknowledges y y'"
proof -
  let ?q = "ru_request_flags (sy_runtime y)" and ?m = "mode_of (sy_runtime y)"
  define y0 where "y0 = upd (\<lambda>r. r\<lparr>ru_request_flags := 0\<rparr>) y"
  have m0: "mode_of (sy_runtime y0) = ?m" "sy_backend y0 =
    sy_backend y" "ru_request_flags (sy_runtime y0) = 0"
    using core_determines [OF event_core(2)] by (simp_all add: y0_def)
  have ok0: "rotor_ok pf y0" using assms(1) core_determines [OF event_core(2)] by (simp add: y0_def
    rotor_ok_def request_ok_def)
  have c0: "controllers_ok (sy_runtime y0)" "backend_ok pf (sy_backend y0)" using ok0 by (simp_all
    add: rotor_ok_def)
  define fin where "fin b = (finish_callback (reads 2) (reads 3) t ev b :: 'h rotor_system \<Rightarrow>
    _)" for b
  have fin: "same_control z (fin b z)" for b z by (simp add: fin_def same_control_steps)
  note cb = callback_control_def [of pf fp sample now t ev reads y, unfolded Let_def, folded y0_def,
    folded fin_def]
  show thesis
  proof (cases "?q = ROTOR_CONTROL_REQUEST_STOP")
    case True
    then have "callback_control pf fp sample now t ev reads y =
      Some (fin True (process_stop_request pf now y0))"
      using cb by (simp add: rotor_constants)
    note stopped = this
    show thesis
    proof (cases "?m = Mode_Idle")
      case idle: True
      then have "released_idle y0 (process_stop_request pf now y0)"
        using process_stop_ends(2) [OF ok0] m0(1) by simp
      then have "acknowledges y (process_stop_request pf now y0)"
        using True idle by (simp add: acknowledges_def y0_def [symmetric])
      with that(5) [OF stopped] show thesis by (simp add: outcomes_same_after(5) [OF fin])
    next
      case False
      then obtain e where "e \<in> {ROTOR_CONTROL_EVENT_AUTHORITY_RELEASED, ROTOR_CONTROL_EVENT_FAULT}"
        "ended_with pf e y0 (process_stop_request pf now y0)"
        using process_stop_ends(1) [OF ok0] m0(1) by auto
      with that(2) [OF stopped, where e = e] False show thesis
        by (auto simp: ends_def same_control_after [OF fin] y0_def [symmetric] rotor_constants)
    qed
  next
    case False
    show thesis
    proof (cases "?q = 0")
      case True
      then have cb': "callback_control pf fp sample now t ev reads y = map_option (fin False)
        (update_control pf fp sample now t y0)"
        using cb by (simp add: serve_request_def)
      have y0: "y0 = y" using True by (simp add: y0_def upd_def)
      show thesis
      proof (cases "?m = Mode_Idle")
        case True
        then show thesis using that(1) cb' idle_update [of y0] m0(1) fin [of y False] \<open>?q =
          0\<close> by (simp add: quiet_def y0)
      next
        case False
        then have "mode_of (sy_runtime y0) \<noteq> Mode_Idle" using m0(1) by simp
        from ok0 this show thesis
        proof (cases rule: update_control_outcome [of y0 fp sample now t])
          case (1 y')
          then show thesis using that(3) cb' False \<open>?q =
            0\<close> by (simp add: continues_def same_control_after [OF fin] y0)
        next
          case (2 y' e)
          then show thesis using that(2) [where e = e] cb' False
            by (auto simp: ends_def same_control_after [OF fin] y0_def [symmetric] rotor_constants)
        qed
      qed
    next
      case nz: False
      then have idle: "?m = Mode_Idle" and "\<exists>m. m \<noteq> Mode_Idle \<and> ?q = request_of m"
        using assms False unfolding rotor_ok_def request_ok_def by (auto intro: exI [of _
          Mode_Alignment] exI [of _ Mode_Torque]
          exI [of _ Mode_Velocity] exI [of _ Mode_Position])
      then obtain m where m: "m \<noteq> Mode_Idle" "?q = request_of m" by blast
      obtain b z where z: "serve_request pf sample now t (request_of m) y0 = (b, z)" by fastforce
      have idle0: "mode_of (sy_runtime y0) = Mode_Idle" using idle m0(1) by simp
      note out = serve_request_outcome [OF c0 idle0 m(1) z]
      have "request_of m AND ROTOR_CONTROL_REQUEST_STOP = 0" by (cases m)
        (simp_all add: rotor_constants)
      then have cb': "callback_control pf fp sample now t ev reads y = map_option (fin True)
        (if b then Some z else update_control pf fp sample now t z)"
        using cb z m nz by simp
      show thesis
      proof (cases b)
        case True
        then show thesis using that(4) [where m = m] cb' out m idle
          by (simp add: starts_def same_control_after [OF fin] y0_def [symmetric])
      next
        case False
        then have e: "ended_with pf ROTOR_CONTROL_EVENT_FAULT y0 z" using out by simp
        then have "update_control pf fp sample now t z = Some z" by (intro idle_update)
          (simp add: ended_with_def)
        then show thesis using that(2) [where e = ROTOR_CONTROL_EVENT_FAULT] cb' e False nz
            \<open>?q \<noteq> ROTOR_CONTROL_REQUEST_STOP\<close>
          by (auto simp: ends_def same_control_after [OF fin] y0_def [symmetric] rotor_constants)
      qed
    qed
  qed
qed

text \<open>A sample the estimator accepts: transport, parity, flags, interval and speed are all good.\<close>

end

definition usable_sample :: "(nat \<Rightarrow> bool) \<Rightarrow> rotor_control_runtime \<Rightarrow> spi_status \<Rightarrow> bytes ptr \<Rightarrow> u32 \<Rightarrow>
  u32 \<Rightarrow> bool" where
  "usable_sample fp r transport_status receive len timestamp_us \<longleftrightarrow>
     (case decode_response transport_status receive len of (status, sample) \<Rightarrow>
        status = MT6816_STATUS_OK \<and> ms_flags sample = 0 \<and>
        fst (angle_tracker_push fp (Some (ru_angle_tracker r)) (ms_angle_raw sample) timestamp_us))"

context loop_platform
begin

lemma reject_outcome:
  assumes "rotor_ok pf y" "same_control y z"
    and y': "y' = finish_callback c2 c3 t ev b (reject_requests_without_feedback pf now t z)"
  shows "quiet y y' \<or> acknowledges y y' \<or>
    (\<exists>e. ends pf y y' e \<and> e AND ROTOR_CONTROL_EVENT_FAULT \<noteq> 0 \<and>
       bridge_off pf (cb_bridge (sy_backend y')))"
proof -
  let ?w = "reject_requests_without_feedback pf now t z"
  let ?z0 = "upd (\<lambda>r. r\<lparr>ru_request_flags := 0\<rparr>) z" and ?y0 = "upd (\<lambda>r. r\<lparr>ru_request_flags := 0\<rparr>) y"
  let ?idle = "mode_of (sy_runtime y) = Mode_Idle" and ?q = "ru_request_flags (sy_runtime y)"
  have okz: "rotor_ok pf z" using assms(1) same_control_ok [OF assms(2)] by simp
  have f: "same_control ?w y'" unfolding y' by (rule same_control_steps)
  note sb = same_control_before [OF assms(2)]
  note r = reject_ends [OF okz, of now t, unfolded sb(4,6)]
  consider "?idle" "?q = 0" | "?idle" "?q = ROTOR_CONTROL_REQUEST_STOP"
    | "\<not> ?idle \<or> ?q \<notin> {0, ROTOR_CONTROL_REQUEST_STOP}" by blast
  then show ?thesis
  proof cases
    case 1
    then have w: "?w = ?z0" using r(1) by simp
    have "same_control z ?w" using 1 sb(6) by (simp add: w same_control_def)
    then have "same_control y y'" by (intro same_control_trans [OF assms(2)] same_control_trans [OF
      _ f])
    then show ?thesis using 1 by (simp add: quiet_def)
  next
    case 2
    then have "acknowledges z ?w" using r(2) sb(4,6) by (simp add: acknowledges_def)
    then show ?thesis
      using outcomes_same_before(5) [OF assms(2)] outcomes_same_after(5) [OF f] by simp
  next
    case 3
    have "same_control ?y0 ?z0" using assms(2) by (simp add: same_control_def)
    note before = same_control_before(1) [OF this]
    from r(3) [OF 3] obtain e where e: "ended_with pf e ?z0 ?w" "e AND ROTOR_CONTROL_EVENT_FAULT \<noteq>
      0"
      "bridge_off pf (cb_bridge (sy_backend ?w))" by blast
    have nz: "e \<noteq> 0" using e(2) by auto
    have "ends pf y y' e" using 3 e nz by (auto simp: ends_def before same_control_after [OF f])
    moreover have "sy_backend y' = sy_backend ?w" using f by (simp add: same_control_def)
    ultimately show ?thesis using e by auto
  qed
qed

lemma callback_outcome:
  fixes fp now reads transport receive len t
  assumes "rotor_ok pf y"
  defines "cb \<equiv> rotor_control_runtime_spi_callback pf fp False now reads transport receive len t y"
    and "usable \<equiv> usable_sample fp (sy_runtime y) transport receive len t"
  obtains y' where "cb = Some y'" "quiet y y'"
  | y' e where "cb = Some y'" "ends pf y y' e"
      "usable \<longrightarrow> e \<in> {ROTOR_CONTROL_EVENT_AUTHORITY_RELEASED,
        ROTOR_CONTROL_EVENT_ALIGNMENT_COMPLETED, ROTOR_CONTROL_EVENT_FAULT}"
      "\<not> usable \<longrightarrow>
        e AND ROTOR_CONTROL_EVENT_FAULT \<noteq> 0 \<and> bridge_off pf (cb_bridge (sy_backend y'))"
  | y' where "cb = Some y'" "continues pf now y y'" "usable"
  | y' m where "cb = Some y'" "starts pf y y' m" "usable"
  | y' where "cb = Some y'" "acknowledges y y'"
proof -
  let ?ev = "ru_event_flags (sy_runtime y)"
  obtain st sample where d: "decode_response transport receive len = (st, sample)" by fastforce
  define y1 where "y1 = profile_mark runtime_profile_encoder_decode_complete (reads 0)
     (upd (\<lambda>r. r\<lparr>ru_encoder_diagnostics := (ru_encoder_diagnostics r)\<lparr>de_last_attempt_millis := now,
        de_transport_status := transport, de_status := st\<rparr>\<rparr>) y)"
  have s1: "same_control y y1" unfolding y1_def by (rule same_control_trans [OF
    same_control_steps(6) same_control_steps(1)])
  have i: "ru_initialized (sy_runtime y)" using assms(1)
    by (simp add: rotor_ok_def controllers_ok_def)
  have t1: "ru_angle_tracker (sy_runtime y1) = ru_angle_tracker (sy_runtime y)" by (simp add: y1_def
    profile_mark_def)
  define p where "p = push_sample fp sample t (upd (record_sample sample t) y1)"
  define y2 where "y2 = profile_mark runtime_profile_estimator_complete (reads 1) (snd p)"
  have s2: "same_control y y2" unfolding y2_def p_def
    by (intro same_control_trans [OF _ same_control_steps(1)] same_control_trans [OF _
      same_control_steps(9)]
      same_control_trans [OF s1 same_control_steps(8)])
  have u: "usable \<longleftrightarrow> st = MT6816_STATUS_OK \<and> fst p"
    by (simp add: usable_def usable_sample_def d p_def push_sample_def record_sample_def t1 Let_def
      split_def)
  let ?fin = "finish_callback (reads 2) (reads 3) t ?ev False"
  have cb: "cb = (if st \<noteq> MT6816_STATUS_OK then Some (?fin (reject_requests_without_feedback pf now
    t
        (upd (record_encoder_error st transport receive len t)
          (profile_mark runtime_profile_estimator_complete (reads 1) y1))))
      else if \<not> fst p then Some (?fin (reject_requests_without_feedback pf now t
        (upd (\<lambda>r. r\<lparr>ru_estimator_fault_flags :=
          ru_estimator_fault_flags r OR ROTOR_CONTROL_ESTIMATOR_FAULT_INVALID_SAMPLE\<rparr>) y2)))
      else callback_control pf fp sample now t ?ev reads y2)"
    unfolding cb_def rotor_control_runtime_spi_callback_def Let_def d using i
    by (simp add: y1_def p_def y2_def split: prod.split)
  show thesis
  proof (cases usable)
    case False
    then obtain z where "same_control y z" "cb = Some (?fin (reject_requests_without_feedback pf now
      t z))"
    proof (cases "st = MT6816_STATUS_OK")
      case True
      then show thesis using that [OF same_control_trans [OF s2 same_control_steps(5)]] False u cb
        by simp
    next
      case False
      then show thesis using that [OF same_control_trans [OF same_control_trans [OF s1
        same_control_steps(1)] same_control_steps(7)]] cb by simp
    qed
    with reject_outcome [OF assms(1) this(1) refl] that(1,2,5) False show thesis by metis
  next
    case True
    then have cb': "cb = callback_control pf fp sample now t ?ev reads y2" using cb u by simp
    have ok2: "rotor_ok pf y2" using assms(1) same_control_ok [OF s2] by simp
    note ob = outcomes_same_before [OF s2]
    show thesis
      by (cases rule: callback_control_outcome [OF ok2, of fp sample now t ?ev reads])
        (use that True cb' in \<open>auto simp: ob\<close>)
  qed
qed

end

end
