(* ===== verification/Rotor_System.thy ===== *)
theory Rotor_System
  imports Rotor_Safety Backend_Deadlines
begin

text \<open>
  The runtime and the current loop as one system: any sequence of callbacks, foreground calls and
  interrupts after the start-up, and what holds in every state that is reached. The starts of the
  loop that the foreground makes on its own, for the commissioning test and the bootstrap probe,
  are among the calls. The fault recovery of \<open>main.c\<close> is two calls, as its two halves mask the
  interrupts separately and the encoder callback can run between them.
\<close>

section \<open>Any sequence of calls\<close>

datatype 'h rotor_call =
  Sample_Ready u32 "nat \<Rightarrow> u32" spi_status "bytes ptr" u32 u32
| Request_Alignment u16
| Request_Torque i16 u32
| Request_Velocity i32 i32 u16 u32
| Request_Position i32 i32 i32 u16 u32
| Request_Stop
| Force_Fault u32 u32
| Take_Events
| Clear_Alignment
| Loop_Event "'h backend_call"
| Profile_Event profile_call

definition on_runtime ::
  "(rotor_control_runtime ptr \<Rightarrow> bool \<times> rotor_control_runtime ptr) \<Rightarrow> 'h rotor_system \<Rightarrow>
    'h rotor_system" where
  "on_runtime f y = upd (\<lambda>r. the (snd (f (Some r)))) y"

fun call_rotor :: "'h platform \<Rightarrow> (nat \<Rightarrow> bool) \<Rightarrow> 'h rotor_system \<Rightarrow> 'h rotor_call \<Rightarrow>
  'h rotor_system" where
  "call_rotor pf fp y (Sample_Ready now reads transport receive len t) =
     (case rotor_control_runtime_spi_callback pf fp False now reads transport receive len t y of
        Some y \<Rightarrow> y | None \<Rightarrow> y)"
| "call_rotor pf fp y (Request_Alignment i) =
     on_runtime (\<lambda>r. rotor_control_runtime_request_alignment r i) y"
| "call_rotor pf fp y (Request_Torque q d) =
     on_runtime (\<lambda>r. rotor_control_runtime_request_torque r q d) y"
| "call_rotor pf fp y (Request_Velocity v a l d) =
     on_runtime (\<lambda>r. rotor_control_runtime_request_velocity r v a l d) y"
| "call_rotor pf fp y (Request_Position x v a l d) =
     on_runtime (\<lambda>r. rotor_control_runtime_request_position_relative r x v a l d) y"
| "call_rotor pf fp y Request_Stop = upd (\<lambda>r. the (rotor_control_runtime_request_stop (Some r))) y"
| "call_rotor pf fp y (Force_Fault now t) = rotor_control_runtime_force_fault pf False now t y"
| "call_rotor pf fp y Take_Events =
     upd (\<lambda>r. the (snd (rotor_control_runtime_take_events (Some r)))) y"
| "call_rotor pf fp y Clear_Alignment = on_runtime rotor_control_runtime_clear_alignment y"
| "call_rotor pf fp y (Loop_Event e) = y\<lparr>sy_backend := call_backend pf (sy_backend y) e\<rparr>"
| "call_rotor pf fp y (Profile_Event e) = y\<lparr>sy_profile := call_profile (sy_profile y) e\<rparr>"

text \<open>
  The foreground is one thread: while it is inside the recovery of \<open>drive_clear_faults\<close>, between
  \<open>current_loop_backend_recover\<close> and \<open>rotor_control_runtime_clear_faults\<close>, only interrupts run.
  \<open>dr_recovering\<close> is that place in the foreground's code.
\<close>

record 'h drive_system =
  dr_system :: "'h rotor_system"
  dr_recovering :: bool

datatype 'h drive_call = Rotor_Call "'h rotor_call" | Begin_Recovery | Finish_Recovery

fun from_interrupt :: "'h rotor_call \<Rightarrow> bool" where
  "from_interrupt (Sample_Ready now reads transport receive len t) = True"
| "from_interrupt (Loop_Event (Adc_Event early late after status snapshot)) = True"
| "from_interrupt (Loop_Event Pwm_Update) = True"
| "from_interrupt (Loop_Event (Hardware h)) = True"
| "from_interrupt (Profile_Event e) = True"
| "from_interrupt _ = False"

fun call_drive :: "'h platform \<Rightarrow> (nat \<Rightarrow> bool) \<Rightarrow> 'h drive_system \<Rightarrow> 'h drive_call \<Rightarrow>
  'h drive_system" where
  "call_drive pf fp d (Rotor_Call e) =
     (if dr_recovering d \<and> \<not> from_interrupt e then d
      else d\<lparr>dr_system := call_rotor pf fp (dr_system d) e\<rparr>)"
| "call_drive pf fp d Begin_Recovery =
     (if dr_recovering d then d
      else case current_loop_backend_recover pf (Some 0) (sy_backend (dr_system d)) of
        (recovered, faults, s) \<Rightarrow>
          d\<lparr>dr_system := (dr_system d)\<lparr>sy_backend := s\<rparr>, dr_recovering := recovered\<rparr>)"
| "call_drive pf fp d Finish_Recovery =
     (if \<not> dr_recovering d then d
      else case rotor_control_runtime_clear_faults (Some (sy_runtime (dr_system d))) (Some 0) of
        (cleared, runtime, sources) \<Rightarrow>
          d\<lparr>dr_system := (dr_system d)\<lparr>sy_runtime := the runtime\<rparr>, dr_recovering := False\<rparr>)"

text \<open>The state after start-up: initialised controllers in the runtime, and an idle loop.\<close>

definition booted :: "'h platform \<Rightarrow> 'h rotor_system \<Rightarrow> bool" where
  "booted pf y \<longleftrightarrow> (\<exists>r0 tracker alignment a0 a ka t0 t kt v0 v kv x0 x kx s0 es.
     alignment_controller_init (Some a0) ka = (True, Some a) \<and>
     aligned_torque_controller_init (Some t0) kt = (True, Some t) \<and>
     velocity_controller_init (Some v0) (Some kv) = (True, Some v) \<and>
     position_controller_init (Some x0) (Some kx) = (True, Some x) \<and>
     rotor_control_runtime_init (Some r0) (Some tracker) (Some alignment) (Some a) (Some t) (Some v)
       (Some x) = (True, Some (sy_runtime y)) \<and>
     power_up s0 \<and> sy_backend y = foldl (call_backend pf) s0 es \<and> \<not> cb_active (sy_backend y))"

definition reachable :: "'h platform \<Rightarrow> (nat \<Rightarrow> bool) \<Rightarrow> 'h drive_system \<Rightarrow> bool" where
  "reachable pf fp d \<longleftrightarrow> (\<exists>d0 es. booted pf (dr_system d0) \<and> \<not> dr_recovering d0 \<and>
     d = foldl (call_drive pf fp) d0 es)"

section \<open>The invariant\<close>

lemma fresh_idle:
  assumes "alignment_controller_init (Some a0) ka = (True, Some a)"
    "aligned_torque_controller_init (Some t0) kt = (True, Some t)"
    "velocity_controller_init (Some v0) (Some kv) = (True, Some v)"
    "position_controller_init (Some x0) (Some kx) = (True, Some x)"
  shows "controller_ok (a\<lparr>ak_alignment_set := False\<rparr>)" "\<not> state_is_active (ks_state (ak_status a))"
    "torque_ok t" "\<not> ts_active (tq_status t)"
    "velocity_ok v" "\<not> vl_active (vc_status v)" "position_ok x" "\<not> xs_active (xc_status x)"
proof -
  show off: "\<not> state_is_active (ks_state (ak_status a))" "\<not> ts_active (tq_status t)" "\<not> vl_active
    (vc_status v)" "\<not> xs_active (xc_status x)"
    using assms by (auto simp: empty_controller_status_def empty_torque_status_def
      empty_velocity_status_def empty_position_status_def
      state_is_active_def simp del: alignment_controller_config_is_valid.simps
        aligned_torque_config_is_valid.simps
      velocity_controller_config_is_valid.simps position_controller_config_is_valid.simps split:
        if_splits)
  show "controller_ok (a\<lparr>ak_alignment_set := False\<rparr>)" using init_controller_ok [OF assms(1)] off(1)
    by (simp add: controller_ok_def)
  show "torque_ok t" "velocity_ok v" "position_ok x"
    using init_torque_ok [OF assms(2)] init_velocity_ok [OF assms(3)] init_position_ok [OF assms(4)]
      by simp_all
qed

lemma idle_mode:
  assumes "controllers_ok r" "\<not> state_is_active (ks_state (ak_status (ru_alignment_controller r)))"
    "\<not> ts_active (tq_status (ru_torque_controller r))" "\<not> vl_active (vc_status
      (ru_velocity_controller r))"
    "\<not> xs_active (xc_status (ru_position_controller r))"
  shows "mode_of r = Mode_Idle" "cascade_ok r"
  using assms(2-) by (simp_all add: mode_by_status [OF assms(1)])

lemma request_stays:
  assumes "rotor_ok pf y" "latch_request refused store flag (Some (sy_runtime y)) = (ok, Some r)"
    "flag \<in> {ROTOR_CONTROL_REQUEST_ALIGNMENT, ROTOR_CONTROL_REQUEST_TORQUE,
      ROTOR_CONTROL_REQUEST_VELOCITY, ROTOR_CONTROL_REQUEST_POSITION}"
    "\<And>r. core_of (store r) = core_of r"
  shows "rotor_ok pf (y\<lparr>sy_runtime := r\<rparr>)" "core_of r = core_of (sy_runtime y)"
proof -
  have c: "core_of r = core_of (sy_runtime y)" "ok \<Longrightarrow> mode_of (sy_runtime y) = Mode_Idle \<and>
    ru_request_flags r = flag" "\<not> ok \<Longrightarrow> r = sy_runtime y"
    using assms(2,4) by (auto simp: latch_request_def active_iff_mode split: if_splits)
  show "core_of r = core_of (sy_runtime y)" by (rule c(1))
  show "rotor_ok pf (y\<lparr>sy_runtime := r\<rparr>)"
    using assms(1,3) c core_determines [OF c(1)] by (cases ok)
      (auto simp: rotor_ok_def request_ok_def)
qed

text \<open>A timed run goes on under its own deadline.\<close>

definition run_kept :: "rotor_control_runtime \<Rightarrow> rotor_control_runtime \<Rightarrow> bool" where
  "run_kept r r' \<longleftrightarrow> (mode_of r \<notin> {Mode_Idle, Mode_Alignment} \<and> mode_of r' \<noteq> Mode_Idle \<longrightarrow>
     mode_of r' = mode_of r \<and>
     tq_deadline_millis (ru_torque_controller r') = tq_deadline_millis (ru_torque_controller r))"

lemma run_kept_core: "core_of r' = core_of r \<Longrightarrow> run_kept r r'"
  using core_determines [of r' r] by (simp add: run_kept_def)

lemma recover_state:
  "snd (snd (current_loop_backend_recover pf c s)) = call_backend pf s Recover"
  "cb_active s \<longrightarrow> cb_initialized s \<Longrightarrow> \<not> cb_active (snd (snd (current_loop_backend_recover pf c s)))"
proof -
  show "snd (snd (current_loop_backend_recover pf c s)) = call_backend pf s Recover"
    by (simp add: current_loop_backend_recover_def Let_def split: prod.split)
  show "\<not> cb_active (snd (snd (current_loop_backend_recover pf c s)))" if "cb_active s \<longrightarrow>
    cb_initialized s"
    using that recover_flags(1) [of s pf c]
    by (cases "cb_initialized s") (auto simp: current_loop_backend_recover_def)
qed

lemma fresh_controllers_idle:
  assumes "controllers_ok r" "fresh_controllers r = Some r'"
  shows "controllers_ok r'" "mode_of r' = Mode_Idle" "cascade_ok r'"
proof -
  obtain a t v x where i: "alignment_controller_init (Some (ru_alignment_controller r))
    (Some (ak_config (ru_alignment_controller r))) = (True, Some a)"
    "aligned_torque_controller_init (Some (ru_torque_controller r))
      (Some (tq_config (ru_torque_controller r))) = (True, Some t)"
    "velocity_controller_init (Some (ru_velocity_controller r))
      (Some (vc_config (ru_velocity_controller r))) = (True, Some v)"
    "position_controller_init (Some (ru_position_controller r))
      (Some (xc_config (ru_position_controller r))) = (True, Some x)"
    and r': "ru_alignment_controller r' = a\<lparr>ak_alignment_set := False\<rparr>" "ru_torque_controller r' =
      t"
      "ru_velocity_controller r' = v" "ru_position_controller r' = x" "ru_initialized r' =
        ru_initialized r"
      "ru_motor_alignment r' = ru_motor_alignment r"
    using assms(2) unfolding fresh_controllers_def
    by (auto simp: Let_def simp del: alignment_controller_config_is_valid.simps
      aligned_torque_config_is_valid.simps
      velocity_controller_config_is_valid.simps position_controller_config_is_valid.simps
      split: if_splits prod.splits option.splits)
  note f = fresh_idle [OF i]
  show c: "controllers_ok r'" using assms(1) f r' by (simp add: controllers_ok_def)
  show "mode_of r' = Mode_Idle" "cascade_ok r'" using idle_mode [OF c] f r' by simp_all
qed

lemma runtime_init_state:
  assumes "rotor_control_runtime_init (Some r0) (Some tracker) (Some alignment) (Some a) (Some t)
    (Some v) (Some x) =
    (True, Some r)"
  shows "core_of r = (True, alignment, a\<lparr>ak_alignment_set := False\<rparr>, t, v,
    x)" "ma_initialized alignment"
    "ru_request_flags r = 0" "ru_event_flags r = 0" "ru_angle_tracker r = tracker"
proof -
  obtain z where z: "r = publish_snapshots (clear_requests z)" "core_of z = (True, alignment,
    a\<lparr>ak_alignment_set := False\<rparr>, t, v, x)"
    "ru_event_flags z = 0" "ru_angle_tracker z = tracker"
    using assms by (auto simp: core_of_def simp del: angle_tracker_config_is_valid.simps
      intro: that [OF sym] split: if_splits)
  show "ma_initialized alignment" using assms by (simp split: if_splits)
  show "core_of r = (True, alignment, a\<lparr>ak_alignment_set := False\<rparr>, t, v, x)" "ru_request_flags r =
    0" "ru_event_flags r = 0"
    "ru_angle_tracker r = tracker"
    using z by (simp_all add: publish_snapshots_def publish_full_snapshot_def
      publish_progress_snapshot_def
      clear_requests_def core_of_def)
qed

lemma idle_state_ok:
  assumes "controllers_ok (sy_runtime y)" "mode_of (sy_runtime y) =
    Mode_Idle" "request_ok (sy_runtime y)"
    "backend_ok pf (sy_backend y)"
  shows "rotor_ok pf y"
  using assms by (auto simp: rotor_ok_def mode_of_def cascade_ok_def Let_def split: if_splits)

text \<open>The loop runs with no controller above it.\<close>

definition undriven :: "'h rotor_system \<Rightarrow> bool" where
  "undriven y \<longleftrightarrow> cb_active (sy_backend y) \<and> mode_of (sy_runtime y) = Mode_Idle"

fun foreground_start :: "'h rotor_call \<Rightarrow> bool" where
  "foreground_start (Loop_Event e) = starts_loop e"
| "foreground_start _ = False"

text \<open>What every call keeps: the invariant, the deadline of a run, and, but for the starts of the
  foreground, that the loop is not undriven; and no call but such a start turns the loop on under a
  run that goes on.\<close>

definition call_kept :: "'h platform \<Rightarrow> 'h rotor_call \<Rightarrow> 'h rotor_system \<Rightarrow> 'h rotor_system \<Rightarrow>
  bool" where
  "call_kept pf e y y' \<longleftrightarrow> rotor_ok pf y' \<and> run_kept (sy_runtime y) (sy_runtime y') \<and>
     (\<not> foreground_start e \<longrightarrow> (undriven y' \<longrightarrow> undriven y) \<and>
        (mode_of (sy_runtime y) \<noteq> Mode_Idle \<and> mode_of (sy_runtime y') \<noteq> Mode_Idle \<and>
         cb_active (sy_backend y') \<longrightarrow> cb_active (sy_backend y)))"

lemma call_kept_core:
  assumes "rotor_ok pf y'" "core_of (sy_runtime y') = core_of (sy_runtime y)"
    "\<not> foreground_start e \<Longrightarrow> cb_active (sy_backend y') \<Longrightarrow> cb_active (sy_backend y)"
  shows "call_kept pf e y y'"
  using assms core_determines(1) [OF assms(2)] run_kept_core [OF assms(2)]
  by (simp add: call_kept_def undriven_def)

lemma latched_call:
  assumes "rotor_ok pf y" "\<And>r. f r = latch_request refused store flag r"
    "flag \<in> {ROTOR_CONTROL_REQUEST_ALIGNMENT, ROTOR_CONTROL_REQUEST_TORQUE,
      ROTOR_CONTROL_REQUEST_VELOCITY, ROTOR_CONTROL_REQUEST_POSITION}"
    "\<And>r. core_of (store r) = core_of r"
  shows "call_kept pf e y (on_runtime f y)"
proof -
  have "\<exists>ok r. latch_request refused store flag (Some (sy_runtime y)) = (ok, Some r)"
    by (auto simp: latch_request_def)
  then obtain ok r where r: "latch_request refused store flag (Some (sy_runtime y)) = (ok,
    Some r)" by blast
  then have "on_runtime f y = y\<lparr>sy_runtime := r\<rparr>" by (simp add: on_runtime_def upd_def assms(2))
  then show ?thesis using request_stays [OF assms(1) r assms(3,4)]
    by (intro call_kept_core) simp_all
qed

lemma call_kept_ended:
  assumes "rotor_ok pf y'" "mode_of (sy_runtime y') = Mode_Idle" "\<not> cb_active (sy_backend y')"
  shows "call_kept pf e y y'"
  using assms by (simp add: call_kept_def undriven_def run_kept_def)

text \<open>What every call keeps of the whole: while a run lasts that was not begun inside a
  recovery, a recovery has the loop off, and the run's end leaves it off.\<close>

definition drive_kept :: "'h platform \<Rightarrow> 'h drive_call \<Rightarrow> 'h drive_system \<Rightarrow> 'h drive_system \<Rightarrow>
  bool" where
  "drive_kept pf e d d' \<longleftrightarrow> rotor_ok pf (dr_system d') \<and>
     run_kept (sy_runtime (dr_system d)) (sy_runtime (dr_system d')) \<and>
     (undriven (dr_system d') \<longrightarrow> undriven (dr_system d) \<or>
        (\<exists>l. e = Rotor_Call (Loop_Event l) \<and> starts_loop l) \<or>
        e = Finish_Recovery \<and> dr_recovering d \<and> cb_active (sy_backend (dr_system d)) \<and>
          mode_of (sy_runtime (dr_system d)) \<noteq> Mode_Idle) \<and>
     (mode_of (sy_runtime (dr_system d)) \<noteq> Mode_Idle \<and>
      (dr_recovering d \<longrightarrow> \<not> cb_active (sy_backend (dr_system d))) \<longrightarrow>
        (mode_of (sy_runtime (dr_system d')) \<noteq> Mode_Idle \<and> dr_recovering d' \<longrightarrow>
           \<not> cb_active (sy_backend (dr_system d'))) \<and>
        (mode_of (sy_runtime (dr_system d')) = Mode_Idle \<longrightarrow>
           \<not> cb_active (sy_backend (dr_system d'))))"

text \<open>A run with a deadline, and the mode after a sequence of calls.\<close>

definition timed_run :: "'h drive_system \<Rightarrow> bool" where
  "timed_run d \<longleftrightarrow> mode_of (sy_runtime (dr_system d)) \<notin> {Mode_Idle, Mode_Alignment}"

abbreviation mode_after ::
  "'h platform \<Rightarrow> (nat \<Rightarrow> bool) \<Rightarrow> 'h drive_system \<Rightarrow> 'h drive_call list \<Rightarrow> drive_mode" where
  "mode_after pf fp d es \<equiv> mode_of (sy_runtime (dr_system (foldl (call_drive pf fp) d es)))"

lemma foreground_start_inv: "foreground_start e \<Longrightarrow> \<exists>l. e = Loop_Event l \<and> starts_loop l"
  by (cases e) simp_all

lemma interrupt_no_start: "from_interrupt e \<Longrightarrow> \<not> foreground_start e"
  by (cases e rule: from_interrupt.cases) simp_all

context loop_platform
begin

lemma ended_kept:
  assumes "ended_with pf e (upd (\<lambda>r. r\<lparr>ru_request_flags := 0\<rparr>) y) y'"
  shows "call_kept pf c y y'"
  using ended_ok [OF assms] assms by (intro call_kept_ended) (simp_all add: ended_with_def)

lemma sample_step:
  assumes "rotor_ok pf y" "rotor_control_runtime_spi_callback pf fp False now reads transport
    receive len t y = Some y'"
  shows "call_kept pf (Sample_Ready now reads transport receive len t) y y'"
  using assms(1)
proof (cases rule: callback_outcome [where fp = fp and now = now and reads = reads and transport =
    transport and receive = receive and len = len and t = t])
  case (1 z)
  then show ?thesis using assms same_control_ok [of y z pf]
    by (intro call_kept_core) (auto simp: quiet_def same_control_def)
next
  case (2 z e)
  then show ?thesis using assms(2) by (intro ended_kept [of e]) (simp add: ends_def)
next
  case (3 z)
  then show ?thesis using assms by (auto simp: continues_def goes_on_def rotor_ok_def
    request_ok_def run_kept_def call_kept_def undriven_def)
next
  case (4 z m)
  then show ?thesis using assms(2) by (auto simp: starts_def has_started_def rotor_ok_def
    request_ok_def run_kept_def call_kept_def undriven_def)
next
  case (5 z)
  then have z: "z = y'" "released_idle (upd (\<lambda>r. r\<lparr>ru_request_flags := 0\<rparr>) y) y'"
    "mode_of (sy_runtime y) = Mode_Idle" using assms(2) by (simp_all add: acknowledges_def)
  then have "rotor_ok pf y'" using assms(1)
    by (intro idle_state_ok) (simp_all add: released_idle_def request_ok_def rotor_ok_def)
  then show ?thesis using z by (simp add: call_kept_def undriven_def run_kept_def released_idle_def)
qed

lemma force_fault_step:
  assumes "rotor_ok pf y"
  shows "ended_with pf ROTOR_CONTROL_EVENT_FAULT (upd (\<lambda>r. r\<lparr>ru_request_flags := 0\<rparr>) y)
    (rotor_control_runtime_force_fault pf False now t y)"
proof -
  define y0 where "y0 = upd (\<lambda>r. r\<lparr>ru_request_flags := 0\<rparr>) y"
  have ok: "rotor_ok pf y0" using assms core_determines [OF event_core(2)]
    by (simp add: y0_def rotor_ok_def request_ok_def)
  have i: "ru_initialized (sy_runtime y)" using assms by (simp add: rotor_ok_def controllers_ok_def)
  define z where "z = (if runtime_active (sy_runtime y0) then fail_active_control pf now t y0 else
    stop_and_fault pf y0)"
  have "ended_with pf ROTOR_CONTROL_EVENT_FAULT y0 z"
    using fail_active_ends [OF ok, of now t] stop_and_fault_ends [of y0] ok
    by (auto simp: z_def active_iff_mode rotor_ok_def)
  moreover have "same_control z (upd publish_snapshots z)" by (simp add: same_control_def)
  moreover have "rotor_control_runtime_force_fault pf False now t y = upd publish_snapshots z"
    using i by (simp add: rotor_control_runtime_force_fault_def y0_def z_def Let_def)
  ultimately show ?thesis by (simp add: same_control_after y0_def)
qed

lemma begin_recovery_step:
  assumes "rotor_ok pf y" "current_loop_backend_recover pf c (sy_backend y) = (ok, w, s)"
  shows "call_kept pf e y (y\<lparr>sy_backend := s\<rparr>)" "\<not> cb_active s"
proof -
  have b: "backend_ok pf (sy_backend y)" using assms(1) by (simp add: rotor_ok_def)
  show s: "\<not> cb_active s"
    using recover_state(2) [of "sy_backend y" pf c] assms(2) b
    by (simp add: backend_ok_def control_ok_def)
  have "backend_ok pf s"
    using call_ok [OF b, of Recover] recover_state(1) [of pf c "sy_backend y"] assms(2) by simp
  then show "call_kept pf e y (y\<lparr>sy_backend := s\<rparr>)"
    using assms(1) s by (intro call_kept_core) (simp_all add: rotor_ok_def)
qed

lemma finish_recovery_step:
  assumes "rotor_ok pf y"
    "rotor_control_runtime_clear_faults (Some (sy_runtime y)) c = (cleared, r, w)"
  shows "rotor_ok pf (y\<lparr>sy_runtime := the r\<rparr>)"
    "if cleared then mode_of (the r) = Mode_Idle else the r = sy_runtime y"
proof -
  have c: "controllers_ok (sy_runtime y)" "ru_initialized (sy_runtime y)"
    and b: "backend_ok pf (sy_backend y)"
    using assms(1) by (simp_all add: rotor_ok_def controllers_ok_def)
  have "rotor_ok pf (y\<lparr>sy_runtime := the r\<rparr>) \<and>
    (if cleared then mode_of (the r) = Mode_Idle else the r = sy_runtime y)"
  proof (cases "fresh_controllers (sy_runtime y)")
    case None
    then show ?thesis using assms c(2) by auto
  next
    case (Some f)
    define r' where "r' = publish_snapshots (clear_requests (f\<lparr>ru_estimator_fault_flags := 0,
             ru_estimator_sample_interval_us := 0, ru_estimator_maximum_sample_interval_us := 0,
             ru_event_flags := ROTOR_CONTROL_EVENT_NONE\<rparr>))"
    have r: "the r = r'" "cleared" using assms(2) c(2) Some by (auto simp: r'_def)
    have "core_of r' = core_of f" by (simp add: r'_def) (simp add: core_of_def)
    note m = core_determines [OF this] fresh_controllers_idle [OF c(1) Some]
    have "rotor_ok pf (y\<lparr>sy_runtime := r'\<rparr>)"
      by (intro idle_state_ok) (use b m in \<open>simp_all add: request_ok_def r'_def\<close>)
    then show ?thesis using m r by simp
  qed
  then show "rotor_ok pf (y\<lparr>sy_runtime := the r\<rparr>)"
    "if cleared then mode_of (the r) = Mode_Idle else the r = sy_runtime y" by blast+
qed

lemma clear_alignment_step:
  assumes "rotor_ok pf y"
  shows "call_kept pf Clear_Alignment y (on_runtime rotor_control_runtime_clear_alignment y)"
proof (cases "runtime_active (sy_runtime y) \<or> ru_request_flags (sy_runtime y) \<noteq> 0")
  case True
  then have "on_runtime rotor_control_runtime_clear_alignment y =
    y" by (auto simp: on_runtime_def upd_def)
  then show ?thesis using assms by (simp add: call_kept_core)
next
  case False
  let ?r = "sy_runtime y"
  have c: "controllers_ok ?r" "ru_initialized ?r" using assms by (simp_all add: rotor_ok_def
    controllers_ok_def)
  define r' where "r' = ?r\<lparr>ru_motor_alignment :=
    the (motor_alignment_clear (Some (ru_motor_alignment ?r)))\<rparr>"
  have "mode_of r' = mode_of ?r" "cascade_ok r' =
    cascade_ok ?r" "controllers_ok r'" "ru_request_flags r' = ru_request_flags ?r"
    using c(1) by (simp_all add: r'_def mode_of_def cascade_ok_def controllers_ok_def)
  moreover have "on_runtime rotor_control_runtime_clear_alignment y = y\<lparr>sy_runtime :=
    publish_snapshots r'\<rparr>"
    using False c(2) by (simp add: on_runtime_def upd_def r'_def)
  ultimately show ?thesis using assms False core_determines [OF published_core(4)]
    by (simp add: rotor_ok_def request_ok_def active_iff_mode run_kept_def call_kept_def
      undriven_def)
qed

lemma call_rotor_keeps:
  assumes "rotor_ok pf y"
  shows "call_kept pf e y (call_rotor pf fp y e)"
proof (cases e)
  case (Sample_Ready now reads transport receive len t)
  then show ?thesis using assms sample_step [OF assms] by (auto simp: call_kept_core split:
    option.split)
next
  case (Request_Alignment i)
  then show ?thesis using latched_call [OF assms rotor_control_runtime_request_alignment_def]
    by (simp add: core_of_def)
next
  case (Request_Torque q d)
  then show ?thesis using latched_call [OF assms rotor_control_runtime_request_torque_def]
    by (simp add: core_of_def)
next
  case (Request_Velocity v a l d)
  then show ?thesis using latched_call [OF assms rotor_control_runtime_request_velocity_def]
    by (simp add: core_of_def)
next
  case (Request_Position x v a l d)
  then show ?thesis
    using latched_call [OF assms rotor_control_runtime_request_position_relative_def]
    by (simp add: core_of_def)
next
  case Request_Stop
  then show ?thesis using assms core_determines [OF event_core(2)]
    by (intro call_kept_core) (auto simp: rotor_control_runtime_request_stop_def rotor_ok_def
      request_ok_def upd_def)
next
  case (Force_Fault now t)
  then show ?thesis using ended_kept [OF force_fault_step [OF assms]] by simp
next
  case Take_Events
  then show ?thesis using assms core_determines [OF event_core(1)]
    by (intro call_kept_core) (auto simp: rotor_ok_def request_ok_def upd_def)
next
  case Clear_Alignment
  then show ?thesis using clear_alignment_step [OF assms] by simp
next
  case (Loop_Event l)
  then show ?thesis using assms call_ok [of "sy_backend y" l] inactive_call [of "sy_backend y" l]
    by (intro call_kept_core) (auto simp: rotor_ok_def)
next
  case (Profile_Event p)
  then show ?thesis using assms by (intro call_kept_core) (simp_all add: rotor_ok_def)
qed

lemma start_keeps_mode:
  "foreground_start e \<Longrightarrow> sy_runtime (call_rotor pf fp y e) = sy_runtime y"
  using foreground_start_inv by fastforce

lemma call_drive_keeps:
  assumes "rotor_ok pf (dr_system d)"
  shows "drive_kept pf e d (call_drive pf fp d e)"
proof (cases e)
  case (Rotor_Call c)
  show ?thesis
  proof (cases "dr_recovering d \<and> \<not> from_interrupt c")
    case True
    then show ?thesis using Rotor_Call assms by (auto simp: drive_kept_def run_kept_def
      undriven_def)
  next
    case False
    note k = call_rotor_keeps [OF assms, of c fp, unfolded call_kept_def]
    show ?thesis
      using k False Rotor_Call foreground_start_inv [of c] interrupt_no_start [of c]
        start_keeps_mode [of c fp "dr_system d"]
      by (cases "foreground_start c") (auto simp: drive_kept_def undriven_def)
  qed
next
  case Begin_Recovery
  obtain ok w s where r: "current_loop_backend_recover pf (Some 0) (sy_backend (dr_system d)) =
    (ok, w, s)" by (rule prod_cases3)
  note k = begin_recovery_step [OF assms r, unfolded call_kept_def]
  show ?thesis using k r Begin_Recovery assms
    by (cases "dr_recovering d") (auto simp: drive_kept_def undriven_def run_kept_def)
next
  case Finish_Recovery
  obtain ok r w where r: "rotor_control_runtime_clear_faults (Some (sy_runtime (dr_system d)))
    (Some 0) = (ok, r, w)" by (rule prod_cases3)
  note k = finish_recovery_step [OF assms r]
  show ?thesis using k r Finish_Recovery assms
    by (cases "dr_recovering d"; cases ok)
      (auto simp: drive_kept_def undriven_def run_kept_def
        simp del: rotor_control_runtime_clear_faults.simps)
qed

end

sublocale loop_platform \<subseteq> rotor_run: invariant_machine "call_drive pf fp"
  "\<lambda>d. rotor_ok pf (dr_system d)" for fp
  by unfold_locales (use call_drive_keeps in \<open>simp add: drive_kept_def\<close>)

context loop_platform
begin

lemma booted_ok:
  assumes "booted pf y"
  shows "rotor_ok pf y" "mode_of (sy_runtime y) = Mode_Idle"
proof -
  obtain r0 tracker alignment a0 a ka t0 t kt v0 v kv x0 x kx s0 es where i:
     "alignment_controller_init (Some a0) ka = (True, Some a)"
     "aligned_torque_controller_init (Some t0) kt = (True, Some t)"
     "velocity_controller_init (Some v0) (Some kv) = (True, Some v)"
     "position_controller_init (Some x0) (Some kx) = (True, Some x)"
    and r: "rotor_control_runtime_init (Some r0) (Some tracker) (Some alignment) (Some a) (Some t)
      (Some v)
       (Some x) = (True, Some (sy_runtime y))"
    and b: "power_up s0" "sy_backend y = foldl (call_backend pf) s0 es" "\<not> cb_active (sy_backend y)"
    using assms unfolding booted_def by blast
  note f = fresh_idle [OF i] and z = runtime_init_state [OF r]
  then have c: "controllers_ok (sy_runtime y)" by (simp add: controllers_ok_def core_of_def)
  then show m: "mode_of (sy_runtime y) = Mode_Idle" using idle_mode(1)
    [OF c] f z by (simp add: core_of_def)
  show "rotor_ok pf y"
    by (rule idle_state_ok [OF c m])
      (use z b power_up_control [OF b(1)] run_safe [of s0 es] in \<open>simp_all add: request_ok_def
        backend_ok_def power_up_def\<close>)
qed

lemma run_ok:
  "rotor_ok pf (dr_system d) \<Longrightarrow> rotor_ok pf (dr_system (foldl (call_drive pf fp) d es))"
  by (rule rotor_run.run_inv)

lemma reachable_rotor_ok: "reachable pf fp d \<Longrightarrow> rotor_ok pf (dr_system d)"
  using rotor_run.run_inv booted_ok(1) unfolding reachable_def by blast

lemma late_sample_ends:
  assumes "rotor_ok pf y" "mode_of (sy_runtime y) \<notin> {Mode_Idle, Mode_Alignment}"
    "time_reached now (tq_deadline_millis (ru_torque_controller (sy_runtime y)))"
  shows "mode_of (sy_runtime (call_rotor pf fp y (Sample_Ready now reads transport receive len t)))
    = Mode_Idle"
  using assms(1)
  by (cases rule: callback_outcome [where fp = fp and now = now and reads = reads and transport =
    transport
      and receive = receive and len = len and t = t])
    (use assms(2,3) in \<open>auto simp: quiet_def ends_def ended_with_def continues_def goes_on_def
      starts_def acknowledges_def\<close>)

lemma kept_until_idle:
  assumes "rotor_ok pf (dr_system d)" "timed_run d"
    "\<forall>n \<le> length es. mode_after pf fp d (take n es) \<noteq> Mode_Idle"
  defines "z \<equiv> foldl (call_drive pf fp) d es"
  shows "run_kept (sy_runtime (dr_system d)) (sy_runtime (dr_system z)) \<and>
    mode_of (sy_runtime (dr_system z)) = mode_of (sy_runtime (dr_system d)) \<and>
    (\<not> dr_recovering d \<longrightarrow> dr_recovering z \<longrightarrow> \<not> cb_active (sy_backend (dr_system z)))"
  using assms(3) unfolding z_def
proof (induction es rule: rev_induct)
  case Nil
  then show ?case by (simp add: run_kept_def)
next
  case (snoc e es)
  let ?z = "foldl (call_drive pf fp) d es"
  have "mode_after pf fp d (take n es) \<noteq> Mode_Idle" if "n \<le> length es" for n
    using snoc.prems [rule_format, of n] that by simp
  then have z: "run_kept (sy_runtime (dr_system d)) (sy_runtime (dr_system ?z))"
    "mode_of (sy_runtime (dr_system ?z)) = mode_of (sy_runtime (dr_system d))"
    "\<not> dr_recovering d \<longrightarrow> dr_recovering ?z \<longrightarrow> \<not> cb_active (sy_backend (dr_system ?z))"
    using snoc.IH by blast+
  have "drive_kept pf e ?z (call_drive pf fp ?z e)"
    using call_drive_keeps rotor_run.run_inv [OF assms(1)] by blast
  moreover have "mode_of (sy_runtime (dr_system (call_drive pf fp ?z e))) \<noteq> Mode_Idle"
    using snoc.prems [rule_format, of "length es + 1"] by simp
  ultimately show ?case using assms(2) z
    by (simp add: run_kept_def drive_kept_def timed_run_def del: call_drive.simps)
qed

text \<open>The first call after which the drive is idle leaves the loop off, unless the run was begun
  inside a recovery.\<close>

lemma idle_with_loop_off:
  assumes "rotor_ok pf (dr_system d)" "timed_run d" "mode_after pf fp d es = Mode_Idle"
  shows "\<exists>n \<le> length es. mode_after pf fp d (take n es) = Mode_Idle \<and> (\<not> dr_recovering d \<longrightarrow>
    \<not> cb_active (sy_backend (dr_system (foldl (call_drive pf fp) d (take n es)))))"
proof -
  define n where "n = (LEAST n. mode_after pf fp d (take n es) = Mode_Idle)"
  have n: "mode_after pf fp d (take n es) = Mode_Idle" unfolding n_def
    by (rule LeastI [of "\<lambda>n. mode_after pf fp d (take n es) = Mode_Idle" "length es"])
      (use assms(3) in simp)
  have le: "n \<le> length es" unfolding n_def by (rule Least_le) (use assms(3) in simp)
  have before: "mode_after pf fp d (take k es) \<noteq> Mode_Idle" if "k < n" for k
    using not_less_Least that unfolding n_def by blast
  obtain m where m: "n = Suc m" using n assms(2) by (cases n) (simp_all add: timed_run_def)
  let ?z = "foldl (call_drive pf fp) d (take m es)"
  have "\<forall>k \<le> length (take m es). mode_after pf fp d (take k (take m es)) \<noteq> Mode_Idle"
    using before m by (simp add: min_def)
  note z = kept_until_idle [OF assms(1,2) this]
  have step: "foldl (call_drive pf fp) d (take n es) = call_drive pf fp ?z (es ! m)"
    using le m by (simp add: take_Suc_conv_app_nth del: call_drive.simps)
  have "drive_kept pf (es ! m) ?z (call_drive pf fp ?z (es ! m))"
    using call_drive_keeps rotor_run.run_inv [OF assms(1)] by blast
  then have "\<not> dr_recovering d \<longrightarrow>
    \<not> cb_active (sy_backend (dr_system (foldl (call_drive pf fp) d (take n es))))"
    using z n assms(2) unfolding step drive_kept_def timed_run_def by simp
  with n le show ?thesis by blast
qed

lemma late_run_ends:
  assumes "rotor_ok pf (dr_system d)" "timed_run d"
    "Rotor_Call (Sample_Ready now reads transport receive len t) \<in> set es"
    "time_reached now (tq_deadline_millis (ru_torque_controller (sy_runtime (dr_system d))))"
  shows "\<exists>n \<le> length es. mode_after pf fp d (take n es) = Mode_Idle"
proof -
  let ?c = "Sample_Ready now reads transport receive len t"
  let ?e = "Rotor_Call ?c"
  obtain as bs where es: "es = as @ ?e # bs" using split_list [OF assms(3)] by blast
  define z where "z = foldl (call_drive pf fp) d as"
  show ?thesis
  proof (cases "\<exists>n \<le> length as. mode_after pf fp d (take n as) = Mode_Idle")
    case True
    then obtain n where "n \<le> length as" "mode_after pf fp d (take n as) = Mode_Idle" by blast
    then show ?thesis by (intro exI [of _ n]) (simp add: es)
  next
    case False
    then have "run_kept (sy_runtime (dr_system d)) (sy_runtime (dr_system z))"
      "mode_of (sy_runtime (dr_system z)) = mode_of (sy_runtime (dr_system d))"
      unfolding z_def using kept_until_idle [OF assms(1,2), of as fp] by blast+
    moreover from this have "mode_of (sy_runtime (call_rotor pf fp (dr_system z) ?c)) = Mode_Idle"
      by (intro late_sample_ends) (use run_ok [OF assms(1)] assms(2,4)
        in \<open>simp_all add: run_kept_def z_def timed_run_def\<close>)
    ultimately show ?thesis
      by (intro exI [of _ "length as + 1"]) (simp add: es z_def del: call_rotor.simps)
  qed
qed

end

section \<open>Properties\<close>

lemmas active_constants = ROTOR_CONTROL_ACTIVE_NONE_def ROTOR_CONTROL_ACTIVE_ALIGNMENT_def
  ROTOR_CONTROL_ACTIVE_ALIGNED_TORQUE_def ROTOR_CONTROL_ACTIVE_VELOCITY_def
  ROTOR_CONTROL_ACTIVE_POSITION_def

lemma flags_of_mode:
  assumes "cascade_ok r"
  shows "runtime_active_control_flags r = (case mode_of r of Mode_Idle \<Rightarrow> 0
    | Mode_Alignment \<Rightarrow> ROTOR_CONTROL_ACTIVE_ALIGNMENT
    | Mode_Torque \<Rightarrow> ROTOR_CONTROL_ACTIVE_ALIGNED_TORQUE
    | Mode_Velocity \<Rightarrow> ROTOR_CONTROL_ACTIVE_ALIGNED_TORQUE OR ROTOR_CONTROL_ACTIVE_VELOCITY
    | Mode_Position \<Rightarrow> ROTOR_CONTROL_ACTIVE_ALIGNED_TORQUE OR ROTOR_CONTROL_ACTIVE_VELOCITY OR
        ROTOR_CONTROL_ACTIVE_POSITION)"
  using assms by (auto simp: runtime_active_control_flags_def mode_of_def cascade_ok_def Let_def
    active_constants)

lemma idle_flags: "runtime_active_control_flags r = 0 \<longleftrightarrow> mode_of r = Mode_Idle"
  by (auto simp: runtime_active_control_flags_def mode_of_def Let_def active_constants)

text \<open>
  C3. Who may run the current loop, and which controllers run together. In every reachable state an
  alignment runs alone, a velocity run has the torque controller under it with the same deadline,
  and a position run has the velocity controller under it with the same deadline. From there, no
  call leads to the loop running with no controller active but these: the foreground's own starts
  (commissioning test and bootstrap probe), and the second half of a fault recovery during which
  the encoder callback had started a run.
\<close>

theorem loop_only_under_controller:
  assumes "loop_platform pf" "reachable pf fp d"
  shows "(let r = sy_runtime (dr_system d);
      alignment = alignment_controller_is_active (Some (ru_alignment_controller r));
      torque = aligned_torque_controller_is_active (Some (ru_torque_controller r));
      velocity = velocity_controller_is_active (Some (ru_velocity_controller r));
      position = position_controller_is_active (Some (ru_position_controller r));
      deadline = tq_deadline_millis (ru_torque_controller r)
    in (alignment \<longrightarrow> \<not> torque \<and> \<not> velocity \<and> \<not> position) \<and>
       (velocity \<longrightarrow> torque \<and> vc_deadline_millis (ru_velocity_controller r) = deadline) \<and>
       (position \<longrightarrow> velocity \<and> xc_deadline_millis (ru_position_controller r) = deadline)) \<and>
    (let y = dr_system d; y' = dr_system (call_drive pf fp d e)
     in cb_active (sy_backend y') \<and> \<not> runtime_active (sy_runtime y') \<longrightarrow>
       cb_active (sy_backend y) \<and> \<not> runtime_active (sy_runtime y) \<or>
       e = Rotor_Call (Loop_Event Backend_Start) \<or>
       (\<exists>n v. e = Rotor_Call (Loop_Event (Start_Probe n v))) \<or>
       e = Finish_Recovery \<and> dr_recovering d \<and> cb_active (sy_backend y) \<and>
         runtime_active (sy_runtime y))"
proof -
  note ok = loop_platform.reachable_rotor_ok [OF assms]
  have start: "starts_loop l \<Longrightarrow> l = Backend_Start \<or> (\<exists>n v. l = Start_Probe n v)"
    for l :: "'a backend_call" by (cases l) simp_all
  have "drive_kept pf e d (call_drive pf fp d e)"
    by (rule loop_platform.call_drive_keeps [OF assms(1) ok])
  then have "undriven (dr_system (call_drive pf fp d e)) \<longrightarrow> undriven (dr_system d) \<or>
      (\<exists>l. e = Rotor_Call (Loop_Event l) \<and> starts_loop l) \<or>
      e = Finish_Recovery \<and> dr_recovering d \<and> cb_active (sy_backend (dr_system d)) \<and>
        mode_of (sy_runtime (dr_system d)) \<noteq> Mode_Idle"
    unfolding drive_kept_def by blast
  then have "let y = dr_system d; y' = dr_system (call_drive pf fp d e)
     in cb_active (sy_backend y') \<and> \<not> runtime_active (sy_runtime y') \<longrightarrow>
       cb_active (sy_backend y) \<and> \<not> runtime_active (sy_runtime y) \<or>
       e = Rotor_Call (Loop_Event Backend_Start) \<or>
       (\<exists>n v. e = Rotor_Call (Loop_Event (Start_Probe n v))) \<or>
       e = Finish_Recovery \<and> dr_recovering d \<and> cb_active (sy_backend y) \<and>
         runtime_active (sy_runtime y)"
    unfolding undriven_def Let_def active_iff_mode using start by blast
  moreover have "cascade_ok (sy_runtime (dr_system d))" using ok by (simp add: rotor_ok_def)
  ultimately show ?thesis unfolding cascade_ok_def Let_def by blast
qed

text \<open>
  C2. Without a usable encoder sample no controller drives. In every reachable state, a callback
  whose sample failed (transport, parity, magnet flags, or a step or interval the estimator
  refuses) leaves every controller inactive and no request pending. If a controller was active or a
  start was pending, the loop is then off, the bridge outputs are low and the fault event is
  raised. If not, the callback leaves the current loop as it is: a loop that the foreground has
  started for a commissioning test is none of its business.
\<close>

theorem bad_sample_ends_drive:
  assumes "loop_platform pf" "reachable pf fp d" "y = dr_system d"
    and "\<not> usable_sample fp (sy_runtime y) transport receive len t"
  shows "\<exists>y'. rotor_control_runtime_spi_callback pf fp False now reads transport receive len t y =
    Some y' \<and>
     \<not> runtime_active (sy_runtime y') \<and> ru_request_flags (sy_runtime y') = 0 \<and>
     (if runtime_active (sy_runtime y) \<or> ru_request_flags (sy_runtime y) \<notin> {0,
       ROTOR_CONTROL_REQUEST_STOP}
      then \<not> cb_active (sy_backend y') \<and>
        ru_event_flags (sy_runtime y') AND ROTOR_CONTROL_EVENT_FAULT \<noteq> 0 \<and>
        bridge_low (pf_bus pf) (br_hw (cb_bridge (sy_backend y')))
      else sy_backend y' = sy_backend y)"
proof -
  have ok: "rotor_ok pf y" using loop_platform.reachable_rotor_ok [OF assms(1,2)] assms(3) by simp
  have or_bit: "(a OR e) AND ROTOR_CONTROL_EVENT_FAULT \<noteq> 0" if "e AND ROTOR_CONTROL_EVENT_FAULT \<noteq> 0"
    for a e :: u32
    using that by (auto simp: ROTOR_CONTROL_EVENT_FAULT_def bit_eq_iff bit_simps)
  show ?thesis
  proof (cases rule: loop_platform.callback_outcome [OF assms(1) ok, where fp = fp and now = now
        and reads = reads and transport = transport and receive = receive and len = len and t = t])
    case (1 y')
    then show ?thesis using core_determines(1) [of "sy_runtime y'" "sy_runtime y"]
      by (simp add: quiet_def same_control_def active_iff_mode)
  next
    case (2 y' e)
    then have "ended_with pf e (upd (\<lambda>r. r\<lparr>ru_request_flags := 0\<rparr>) y) y'"
      "runtime_active (sy_runtime y) \<or> ru_request_flags (sy_runtime y) \<notin> {0,
       ROTOR_CONTROL_REQUEST_STOP}"
      "e AND ROTOR_CONTROL_EVENT_FAULT \<noteq> 0" "bridge_off pf (cb_bridge (sy_backend y'))"
      using assms(4) by (auto simp: ends_def active_iff_mode)
    with 2(1) show ?thesis by (simp add: ended_with_def active_iff_mode bridge_off_def or_bit)
  next
    case (5 y')
    then show ?thesis by (simp add: acknowledges_def released_idle_def active_iff_mode)
  qed (use assms(4) in simp_all)
qed

text \<open>
  C5. Every callback decides, starts what was asked for, and announces every end. In every
  reachable state the callback returns, with no request left. A stop request while a controller is
  active ends it, with the loop off and an event raised; a stop request with none active is
  acknowledged by the released event and leaves the loop alone. With no stop request, active
  controllers go on, the very same ones, with the loop active and no event, or all end with the
  loop off and an event raised. An idle drive starts exactly what was requested: the alignment
  controller; the torque controller; torque under velocity; torque and velocity under position; or
  it stays idle with the loop off and the fault event raised. With nothing active and nothing
  requested, nothing changes.
\<close>

theorem callback_decides:
  assumes "loop_platform pf" "reachable pf fp d" "y = dr_system d"
  shows "\<exists>y'. rotor_control_runtime_spi_callback pf fp False now reads transport receive len t y =
    Some y' \<and> ru_request_flags (sy_runtime y') = 0 \<and>
     (let request = ru_request_flags (sy_runtime y);
          flags = runtime_active_control_flags (sy_runtime y);
          flags' = runtime_active_control_flags (sy_runtime y');
          events = ru_event_flags (sy_runtime y); events' = ru_event_flags (sy_runtime y');
          runs = (\<lambda>f. flags' = f \<and> cb_active (sy_backend y') \<and> events' = events);
          ended = (\<lambda>e. flags' = 0 \<and> \<not> cb_active (sy_backend y') \<and> e \<noteq> 0 \<and> events' = events OR e);
          starts = (\<lambda>f. runs f \<or> (\<exists>e. ended e \<and> e AND ROTOR_CONTROL_EVENT_FAULT \<noteq> 0))
      in if flags \<noteq> 0
         then (\<exists>e. ended e) \<or> request \<noteq> ROTOR_CONTROL_REQUEST_STOP \<and> runs flags
         else if request = ROTOR_CONTROL_REQUEST_STOP
         then flags' = 0 \<and> sy_backend y' = sy_backend y \<and>
           events' = events OR ROTOR_CONTROL_EVENT_AUTHORITY_RELEASED
         else if request = ROTOR_CONTROL_REQUEST_ALIGNMENT
         then starts ROTOR_CONTROL_ACTIVE_ALIGNMENT
         else if request = ROTOR_CONTROL_REQUEST_TORQUE
         then starts ROTOR_CONTROL_ACTIVE_ALIGNED_TORQUE
         else if request = ROTOR_CONTROL_REQUEST_VELOCITY
         then starts (ROTOR_CONTROL_ACTIVE_ALIGNED_TORQUE OR ROTOR_CONTROL_ACTIVE_VELOCITY)
         else if request = ROTOR_CONTROL_REQUEST_POSITION
         then starts (ROTOR_CONTROL_ACTIVE_ALIGNED_TORQUE OR ROTOR_CONTROL_ACTIVE_VELOCITY OR
           ROTOR_CONTROL_ACTIVE_POSITION)
         else request = 0 \<and> flags' = 0 \<and> sy_backend y' = sy_backend y \<and> events' = events)"
proof -
  have ok: "rotor_ok pf y" using loop_platform.reachable_rotor_ok [OF assms(1,2)] assms(3) by simp
  have casc: "cascade_ok (sy_runtime y)" using ok by (simp add: rotor_ok_def)
  have q: "ru_request_flags (sy_runtime y) \<in> {0, ROTOR_CONTROL_REQUEST_STOP} \<or>
    ru_request_flags (sy_runtime y) \<in> {ROTOR_CONTROL_REQUEST_ALIGNMENT,
      ROTOR_CONTROL_REQUEST_TORQUE, ROTOR_CONTROL_REQUEST_VELOCITY, ROTOR_CONTROL_REQUEST_POSITION}"
    using ok by (auto simp: rotor_ok_def request_ok_def)
  show ?thesis
  proof (cases rule: loop_platform.callback_outcome [OF assms(1) ok, where fp = fp and now =
    now and reads = reads
        and transport = transport and receive = receive and len = len and t = t])
    case (1 y')
    then have "mode_of (sy_runtime y') = Mode_Idle"
      using core_determines(1) [of "sy_runtime y'" "sy_runtime y"]
      by (simp add: quiet_def same_control_def)
    with 1 show ?thesis by (simp add: quiet_def same_control_def idle_flags Let_def rotor_constants)
  next
    case (2 y' e)
    then have e: "ended_with pf e (upd (\<lambda>r. r\<lparr>ru_request_flags := 0\<rparr>) y) y'" "e \<noteq> 0"
      "mode_of (sy_runtime y) = Mode_Idle \<longrightarrow>
        ru_request_flags (sy_runtime y) \<notin> {0, ROTOR_CONTROL_REQUEST_STOP} \<and>
        e AND ROTOR_CONTROL_EVENT_FAULT \<noteq> 0" by (simp_all add: ends_def)
    show ?thesis
      by (rule exI [of _ y'], unfold Let_def idle_flags) (use 2(1)
        e q in \<open>auto simp: ended_with_def\<close>)
  next
    case (3 y')
    then have "runtime_active_control_flags (sy_runtime y') =
      runtime_active_control_flags (sy_runtime y)"
      using casc by (simp add: continues_def goes_on_def flags_of_mode)
    with 3 show ?thesis
      by (simp add: continues_def goes_on_def idle_flags Let_def rotor_constants)
  next
    case (4 y' m)
    then have m: "mode_of (sy_runtime y') = m" "cascade_ok (sy_runtime y')" "m \<noteq> Mode_Idle"
      "ru_request_flags (sy_runtime y) = request_of m" "mode_of (sy_runtime y) = Mode_Idle"
      "cb_active (sy_backend y')" "ru_event_flags (sy_runtime y') = ru_event_flags (sy_runtime y)"
      "ru_request_flags (sy_runtime y') = 0"
      by (simp_all add: starts_def has_started_def)
    have "runtime_active_control_flags (sy_runtime y) = 0" using m(5) by (simp add: idle_flags)
    then show ?thesis using 4(1) m(1,3-) flags_of_mode [OF m(2)]
      by (cases m) (simp_all add: Let_def rotor_constants)
  next
    case (5 y')
    then show ?thesis
      by (simp add: acknowledges_def released_idle_def Let_def idle_flags)
  qed
qed

text \<open>
  C4. A run does not outlive its deadline. Take any reachable state in which the torque controller
  is active, on its own or under the velocity and position controllers, and any sequence of calls
  after it. If one of them is a callback at or after the deadline of the run, then at some point of
  the sequence no controller was active, and the current loop was off: no call moves the deadline
  of a run. The loop being off holds of every run but one that the callback began in the middle of
  a fault recovery.
\<close>

theorem run_ends_by_deadline:
  assumes "loop_platform pf" "reachable pf fp d"
    and "aligned_torque_controller_is_active (Some (ru_torque_controller (sy_runtime (dr_system
      d))))"
    and "Rotor_Call (Sample_Ready now reads transport receive len t) \<in> set es"
    and "time_reached now (tq_deadline_millis (ru_torque_controller (sy_runtime (dr_system d))))"
  shows "\<exists>n \<le> length es. let y' = dr_system (foldl (call_drive pf fp) d (take n es))
     in \<not> runtime_active (sy_runtime y') \<and> (\<not> cb_active (sy_backend y') \<or> dr_recovering d)"
proof -
  note ok = loop_platform.reachable_rotor_ok [OF assms(1,2)]
  have "cascade_ok (sy_runtime (dr_system d))" using ok by (simp add: rotor_ok_def)
  then have m: "timed_run d"
    using assms(3) by (simp add: mode_of_def cascade_ok_def Let_def timed_run_def)
  obtain n where n: "n \<le> length es" "mode_after pf fp d (take n es) = Mode_Idle"
    using loop_platform.late_run_ends [OF assms(1) ok m assms(4,5), of fp] by blast
  obtain k where "k \<le> length (take n es)" "mode_after pf fp d (take k (take n es)) = Mode_Idle"
    "\<not> dr_recovering d \<longrightarrow>
      \<not> cb_active (sy_backend (dr_system (foldl (call_drive pf fp) d (take k (take n es)))))"
    using loop_platform.idle_with_loop_off [OF assms(1) ok m n(2)] by blast
  then show ?thesis unfolding Let_def active_iff_mode
    by (intro exI [of _ k]) (auto simp: min_def split: if_splits)
qed

text \<open>
  The recovery race. When the callback has begun a run between the two halves of a recovery, the
  second half resets the controllers and leaves the current loop running: with no controller active,
  no request, no event and no backend fault raised by it.
\<close>

theorem recovery_race:
  assumes "loop_platform pf" "reachable pf fp d" "dr_recovering d"
    and "cb_active (sy_backend (dr_system d))"
    and "fresh_controllers (sy_runtime (dr_system d)) \<noteq> None"
  shows "let y' = dr_system (call_drive pf fp d Finish_Recovery)
    in cb_active (sy_backend y') \<and> \<not> runtime_active (sy_runtime y') \<and>
       ru_request_flags (sy_runtime y') = 0 \<and> ru_event_flags (sy_runtime y') = 0 \<and>
       cb_fault_flags (sy_backend y') = cb_fault_flags (sy_backend (dr_system d))"
proof -
  note ok = loop_platform.reachable_rotor_ok [OF assms(1,2)]
  have i: "ru_initialized (sy_runtime (dr_system d))"
    using ok by (simp add: rotor_ok_def controllers_ok_def)
  obtain r w where r: "rotor_control_runtime_clear_faults (Some (sy_runtime (dr_system d))) (Some 0)
      = (True, Some r, w)" "ru_request_flags r = 0" "ru_event_flags r = 0"
    using assms(5) i by (auto simp: rotor_constants)
  have "mode_of r = Mode_Idle"
    using loop_platform.finish_recovery_step(2) [OF assms(1) ok r(1)] by simp
  with assms(3,4) r show ?thesis
    by (simp add: Let_def active_iff_mode del: rotor_control_runtime_clear_faults.simps)
qed

section \<open>A concrete drive\<close>

text \<open>A calibrated motor on the register file, with the current loop initialised.\<close>

definition bench_runtime :: rotor_control_runtime where
  "bench_runtime = the (snd (rotor_control_runtime_init (Some undefined) (Some bench_tracker)
     (Some (bench_alignment\<lparr>ma_status := bench_status\<rparr>)) (Some bench_controller) (Some bench_torque)
     (Some bench_velocity) (Some bench_position)))"

definition bench_system :: "(mcu_register \<Rightarrow> u32) rotor_system" where
  "bench_system = \<lparr>sy_runtime = bench_runtime,
     sy_backend = foldl (call_backend bench_platform) bench_backend
       [Backend_Init (Some demo_loop_config) (Some bench_predictor_config)],
     sy_profile = idle_profile\<rparr>"

definition bench_idle_drive :: "(mcu_register \<Rightarrow> u32) drive_system" where
  "bench_idle_drive = \<lparr>dr_system = bench_system, dr_recovering = False\<rparr>"

definition bench_requested :: "(mcu_register \<Rightarrow> u32) rotor_system" where
  "bench_requested = foldl (call_rotor bench_platform (\<lambda>_. True))
    bench_system [Request_Torque 100 50]"

definition encoder_sample :: "u32 \<Rightarrow> (mcu_register \<Rightarrow> u32) rotor_call" where
  "encoder_sample now = Sample_Ready now (\<lambda>_. 0) SPI_STATUS_OK (Some [0, 0, 0, 0]) 4 10"

lemma bench_loop: "sy_backend bench_system = bench_backend\<lparr>cb_loop := fresh_loop, cb_initialized :=
  True\<rparr>"
  by (simp add: bench_system_def bench_init)

lemma bench_runtime_init:
  "rotor_control_runtime_init (Some undefined) (Some bench_tracker)
     (Some (bench_alignment\<lparr>ma_status := bench_status\<rparr>)) (Some bench_controller) (Some bench_torque)
     (Some bench_velocity) (Some bench_position) = (True, Some bench_runtime)"
  by (simp add: bench_runtime_def bench_tracker_defs bench_alignment_def bench_controller_def
    bench_torque_def
    bench_velocity_def bench_position_def position_controller_init.simps bench_position_config_def
      finite_positive_def)

lemma bench_booted: "booted bench_platform bench_system"
proof -
  have "\<not> cb_active (sy_backend bench_system)" by (simp add: bench_loop)
  then show ?thesis
    unfolding booted_def
    using bench_start(1) bench_torque_init bench_velocity_init bench_position_init
      bench_runtime_init bench_power_up(1)
    by (simp only: bench_system_def rotor_system.simps) blast
qed

lemma bench_reachable: "reachable bench_platform (\<lambda>_. True)
  \<lparr>dr_system = foldl (call_rotor bench_platform (\<lambda>_. True)) bench_system es,
   dr_recovering = False\<rparr>"
proof -
  have "foldl (call_drive bench_platform (\<lambda>_. True)) bench_idle_drive (map Rotor_Call es) =
    \<lparr>dr_system = foldl (call_rotor bench_platform (\<lambda>_. True)) bench_system es,
     dr_recovering = False\<rparr>"
    by (induction es rule: rev_induct) (simp_all add: bench_idle_drive_def del: call_rotor.simps)
  then show ?thesis unfolding reachable_def
    using bench_booted by (metis bench_idle_drive_def drive_system.select_convs)
qed

lemmas bench_state = runtime_init_state [OF bench_runtime_init, unfolded core_of_def prod.inject]

lemma bench_idle: "\<not> runtime_active bench_runtime"
  using bench.booted_ok(2) [OF bench_booted] by (simp add: active_iff_mode bench_system_def)

lemma bench_requested_state:
  "sy_runtime bench_requested = bench_runtime\<lparr>ru_requested_q_current_counts := 100,
     ru_requested_torque_duration_millis := 50, ru_request_flags := ROTOR_CONTROL_REQUEST_TORQUE\<rparr>"
  "sy_backend bench_requested = sy_backend bench_system"
  using bench_idle bench_state
  by (simp_all add: bench_requested_def on_runtime_def rotor_control_runtime_request_torque_def
    latch_request_def
    bench_system_def upd_def)

lemma bench_loop_starts:
  obtains s s' where "current_loop_backend_set_reference_counts bench_platform 0 0 (sy_backend
    bench_system) = (True, s)"
    "current_loop_backend_start bench_platform s = (True, s')"
proof -
  have v: "phase_current_loop_config_is_valid (Some demo_loop_config)"
    by (simp add: phase_current_loop_config_is_valid.simps demo_loop_config_def
      polarity_is_valid_def)
  have l: "phase_current_loop_set_reference_counts (Some fresh_loop) (Some demo_loop_config) 0 0 =
    (True, Some fresh_loop)"
    by (simp add: phase_current_loop_set_reference_counts_def v
      phase_current_loop_set_reference_counts_prevalidated.simps
      fresh_loop_def empty_loop_def fault_bits del: phase_current_loop_config_is_valid.simps)
  obtain s where s: "current_loop_backend_set_reference_counts bench_platform 0 0 (sy_backend
    bench_system) = (True, s)"
    "cb_bridge s = ready_bridge" "cb_loop s = fresh_loop" "cb_initialized s" "\<not> cb_active s"
    "\<not> cb_bootstrap_probe_active s" "cb_fault_flags s = 0"
    by (simp add: current_loop_backend_set_reference_counts_def bench_loop set_loop_reference_result
      l
      reset_predictor_def CURRENT_LOOP_BACKEND_FAULT_NONE_def)
  then show thesis using that [OF s(1)] bench_loop_start(1) [OF s(2-7)]
    by (cases "current_loop_backend_start bench_platform s") simp
qed

lemma bench_torque_start:
  assumes "\<not> runtime_active (sy_runtime y)" "sy_backend y = sy_backend bench_system"
    "ru_torque_controller (sy_runtime y) = bench_torque" "ru_requested_q_current_counts (sy_runtime
      y) = 100"
    "ru_requested_torque_duration_millis (sy_runtime y) = 50"
    "ru_motor_alignment (sy_runtime y) = bench_alignment\<lparr>ma_status := bench_status\<rparr>"
    "at_velocity_revolutions_per_second (ru_angle_tracker (sy_runtime y)) =
      Finite 0" "ms_angle_raw sample = 0"
  obtains y' where "start_torque bench_platform sample 0 10 y = (True, y')"
    "tq_deadline_millis (ru_torque_controller (sy_runtime y')) = 50"
    "aligned_torque_controller_is_active (Some (ru_torque_controller (sy_runtime y')))"
proof -
  obtain s s' where s: "current_loop_backend_set_reference_counts bench_platform 0 0 (sy_backend
    bench_system) = (True, s)"
    "current_loop_backend_start bench_platform s = (True, s')" by (rule bench_loop_starts)
  have i: "loop_idle y = (True, y)" using assms by (simp add: loop_idle_def bench_loop)
  have p: "phase_known sample y = (True, y)"
    using assms by (simp add: phase_known_def bench_alignment_def bench_status_def)
  have one: "single 1" "single 40000" using representable_int [of 1] representable_int [of 40000] by
    (simp_all add: single_def)
  obtain m where m: "f32_round (2147483647 / 65536) = Finite m" "1 \<le> m"
    by (rule round_between_single [of 1 40000 "2147483647 / 65536"]) (use one in simp_all)
  have q: "float_to_q16_16 (Finite 0) = 0" using m by (simp add: float_to_q16_16_def
    bench_position_rounding toward_zero_def)
  obtain k where k: "begin_torque 0 10 y = (True, upd (\<lambda>r. r\<lparr>ru_torque_controller := k\<rparr>) y)"
    "tq_deadline_millis k = 50" "ts_active (tq_status k)" "tq_initialized k"
    using assms by (simp add: begin_torque_def aligned_torque_controller_start_def q
      start_controller.simps
      bench_torque_def bench_torque_config_def empty_torque_status_def magnitude_i32_def)
  show thesis
    by (rule that [of "upd (\<lambda>r. r\<lparr>ru_torque_controller := k\<rparr>) y\<lparr>sy_backend := s'\<rparr>"])
      (use i p k s assms in \<open>simp_all add: start_torque_def zero_reference_def start_loop_def
        on_backend_def activity upd_def\<close>)
qed

definition bench_drive :: "(mcu_register \<Rightarrow> u32) rotor_system" where
  "bench_drive = foldl (call_rotor bench_platform (\<lambda>_. True)) bench_system [Request_Torque 100 50,
    encoder_sample 0]"

lemma bench_drive_active:
  "aligned_torque_controller_is_active (Some (ru_torque_controller (sy_runtime bench_drive)))"
  "tq_deadline_millis (ru_torque_controller (sy_runtime bench_drive)) = 50"
proof -
  let ?r = "sy_runtime bench_requested"
  have d: "decode_response SPI_STATUS_OK (Some [0, 0, 0, 0]) 4 = (MT6816_STATUS_OK,
    mt6816_candidate 0 0 0)"
    by (simp add: decode_response_def ROTOR_CONTROL_MT6816_RESPONSE_LENGTH_def) code_simp
  have c: "ms_flags (mt6816_candidate 0 0 0) = 0" "ms_angle_raw (mt6816_candidate 0 0 0) =
    0" by code_simp+
  have p: "angle_tracker_push (\<lambda>_. True) (Some bench_tracker) 0 10 = (True,
    Some (bench_tracker\<lparr>at_last_raw_angle := 0,
     at_last_timestamp_us := 10, at_initialized := True\<rparr>))"
    by (simp add: bench_tracker_defs tracker_push_def Let_def bench_position_rounding of_int_exact)
  define r where "r = (record_sample (mt6816_candidate 0 0 0) 10 (?r\<lparr>ru_encoder_diagnostics :=
    (ru_encoder_diagnostics ?r)\<lparr>
      de_last_attempt_millis := 0, de_transport_status := SPI_STATUS_OK, de_status :=
        MT6816_STATUS_OK\<rparr>\<rparr>))
     \<lparr>ru_angle_tracker := bench_tracker\<lparr>at_last_raw_angle := 0, at_last_timestamp_us := 10,
       at_initialized := True\<rparr>\<rparr>"
  have r: "core_of r = core_of bench_runtime" "ru_request_flags r = ROTOR_CONTROL_REQUEST_TORQUE"
    "ru_requested_q_current_counts r = 100" "ru_requested_torque_duration_millis r = 50"
    "at_velocity_revolutions_per_second (ru_angle_tracker r) = Finite 0"
    by (simp_all add: r_def record_sample_def Let_def bench_requested_state core_of_def
      bench_tracker_def)
  have rec: "ru_angle_tracker (record_sample m t x) = ru_angle_tracker x" for m t x by (simp add:
    record_sample_def Let_def)
  have i: "ru_initialized ?r" "ru_angle_tracker ?r = bench_tracker" "sy_profile bench_requested =
    idle_profile"
    using bench_state by (simp_all add: bench_requested_state)
      (simp add: bench_requested_def bench_system_def on_runtime_def)
  have "\<not> runtime_profile_release_active idle_profile" by (simp add:
    runtime_profile_release_active_def idle_profile_def)
  then have cb: "rotor_control_runtime_spi_callback bench_platform (\<lambda>_. True) False 0 (\<lambda>_. 0)
    SPI_STATUS_OK (Some [0, 0, 0, 0]) 4 10 bench_requested
      = callback_control bench_platform (\<lambda>_. True) (mt6816_candidate 0 0 0) 0 10 (ru_event_flags ?r)
        (\<lambda>_. 0) (bench_requested\<lparr>sy_runtime := r\<rparr>)"
    using i by (simp add: rotor_control_runtime_spi_callback_def Let_def d c push_sample_def p
      profile_mark_def upd_def r_def rec
      del: angle_tracker_push.simps)
  define y where "y = bench_requested\<lparr>sy_runtime := r\<lparr>ru_request_flags := 0\<rparr>\<rparr>"
  have y: "core_of (sy_runtime y) = core_of bench_runtime" using r(1) by (simp add: y_def)
  obtain y' where y': "start_torque bench_platform (mt6816_candidate 0 0 0) 0 10 y = (True, y')"
    "tq_deadline_millis (ru_torque_controller (sy_runtime y')) = 50"
    "aligned_torque_controller_is_active (Some (ru_torque_controller (sy_runtime y')))"
  proof (rule bench_torque_start [of y])
    show "\<not> runtime_active (sy_runtime y)" using core_determines(4) [OF y] bench_idle by simp
    show "ru_torque_controller (sy_runtime y) = bench_torque" "ru_motor_alignment (sy_runtime y) =
      bench_alignment\<lparr>ma_status := bench_status\<rparr>"
      using y bench_state by (simp_all add: core_of_def)
  qed (use r c(2) in \<open>simp_all add: y_def bench_requested_state\<close>)
  have "sy_runtime bench_drive = sy_runtime (finish_callback 0 0 10 (ru_event_flags ?r) True y')"
    using y'(1) cb r(2) by (simp add: bench_drive_def encoder_sample_def bench_requested_def
      [symmetric]
      callback_control_def Let_def serve_request_def upd_def y_def [symmetric] rotor_constants
      del: call_rotor.simps(2-11)) (simp add: bench_requested_def)
  then have "core_of (sy_runtime bench_drive) = core_of (sy_runtime y')"
    using same_control_steps(2) [of y'] by (simp add: same_control_def)
  then have "ru_torque_controller (sy_runtime bench_drive) =
    ru_torque_controller (sy_runtime y')" by (simp add: core_of_def)
  then show "aligned_torque_controller_is_active (Some (ru_torque_controller (sy_runtime
    bench_drive)))"
    "tq_deadline_millis (ru_torque_controller (sy_runtime bench_drive)) = 50" using y' by simp_all
qed

abbreviation resting :: "(mcu_register \<Rightarrow> u32) rotor_system \<Rightarrow>
  (mcu_register \<Rightarrow> u32) drive_system" where
  "resting y \<equiv> \<lparr>dr_system = y, dr_recovering = False\<rparr>"

lemma bench_reached: "reachable bench_platform (\<lambda>_. True) (resting bench_drive)"
  "reachable bench_platform (\<lambda>_. True) (resting bench_requested)"
  unfolding bench_drive_def bench_requested_def by (rule bench_reachable)+

lemma bench_drive_runs: "runtime_active (sy_runtime bench_drive)"
  using bench_drive_active(1) by (simp add: runtime_active_def)

theorem loop_only_under_controller_witness:
  "\<not> alignment_controller_is_active (Some (ru_alignment_controller (sy_runtime bench_drive))) \<and>
   \<not> (let y' = dr_system (call_drive bench_platform (\<lambda>_. True) (resting bench_drive)
        (Rotor_Call (Loop_Event Pwm_Update)))
      in cb_active (sy_backend y') \<and> \<not> runtime_active (sy_runtime y'))"
  using loop_only_under_controller [OF bench.loop_platform_axioms bench_reached(1),
      of "Rotor_Call (Loop_Event Pwm_Update)"] bench_drive_active(1) bench_drive_runs
  by (auto simp: Let_def)

theorem bad_sample_ends_drive_witness:
  "\<exists>y'. rotor_control_runtime_spi_callback bench_platform (\<lambda>_. True) False 0 (\<lambda>_. 0)
    SPI_STATUS_RECEIVE_TIMEOUT None 0 10
      bench_requested = Some y' \<and> \<not> runtime_active (sy_runtime y') \<and>
        ru_request_flags (sy_runtime y') = 0 \<and> \<not> cb_active (sy_backend y') \<and>
     ru_event_flags (sy_runtime y') AND ROTOR_CONTROL_EVENT_FAULT \<noteq> 0 \<and>
       bridge_low register_file (br_hw (cb_bridge (sy_backend y')))"
proof -
  have "\<not> usable_sample (\<lambda>_. True) (sy_runtime bench_requested)
    SPI_STATUS_RECEIVE_TIMEOUT None 0 10"
    by (simp add: usable_sample_def decode_response_def)
  moreover have q: "ru_request_flags (sy_runtime bench_requested)
    \<notin> {0, ROTOR_CONTROL_REQUEST_STOP}"
    by (simp add: bench_requested_state rotor_constants)
  moreover have "bench_requested = dr_system (resting bench_requested)" by simp
  ultimately obtain y' where
    "rotor_control_runtime_spi_callback bench_platform (\<lambda>_. True) False 0 (\<lambda>_. 0)
      SPI_STATUS_RECEIVE_TIMEOUT None 0 10 bench_requested = Some y'"
    "\<not> runtime_active (sy_runtime y')" "ru_request_flags (sy_runtime y') = 0"
    "if runtime_active (sy_runtime bench_requested) \<or>
        ru_request_flags (sy_runtime bench_requested) \<notin> {0, ROTOR_CONTROL_REQUEST_STOP}
     then \<not> cb_active (sy_backend y') \<and>
       ru_event_flags (sy_runtime y') AND ROTOR_CONTROL_EVENT_FAULT \<noteq> 0 \<and>
       bridge_low (pf_bus bench_platform) (br_hw (cb_bridge (sy_backend y')))
     else sy_backend y' = sy_backend bench_requested"
    using bad_sample_ends_drive [OF bench.loop_platform_axioms bench_reached(2),
      of bench_requested SPI_STATUS_RECEIVE_TIMEOUT None 0 10 0 "\<lambda>_. 0"] by blast
  with q show ?thesis unfolding bench_fields by (simp only: simp_thms if_True) blast
qed

theorem callback_decides_witness:
  "\<exists>y'. rotor_control_runtime_spi_callback bench_platform (\<lambda>_. True) False 0 (\<lambda>_. 0)
    SPI_STATUS_OK (Some [0, 0, 0, 0]) 4 10 bench_requested
      = Some y' \<and> runtime_active_control_flags (sy_runtime y') \<in> {0,
        ROTOR_CONTROL_ACTIVE_ALIGNED_TORQUE}"
proof -
  have "runtime_active_control_flags (sy_runtime bench_requested) = 0"
    using bench_idle core_determines(1) [of "sy_runtime bench_requested" bench_runtime]
    by (simp add: idle_flags active_iff_mode bench_requested_state core_of_def)
  then show ?thesis
    using callback_decides [OF bench.loop_platform_axioms bench_reached(2), of bench_requested
      0 "\<lambda>_. 0" SPI_STATUS_OK "Some [0, 0, 0, 0]" 4 10]
    by (auto simp: Let_def bench_requested_state rotor_constants)
qed

theorem run_ends_by_deadline_witness:
  "\<exists>n \<le> 2. let y' = dr_system (foldl (call_drive bench_platform (\<lambda>_. True))
    (resting bench_drive) (take n (map Rotor_Call [Loop_Event Pwm_Update, encoder_sample 60])))
     in \<not> runtime_active (sy_runtime y') \<and> \<not> cb_active (sy_backend y')"
proof -
  let ?es = "map Rotor_Call [Loop_Event Pwm_Update, encoder_sample 60]"
  have "Rotor_Call (encoder_sample 60) \<in> set ?es" by simp
  moreover have "time_reached 60 (tq_deadline_millis (ru_torque_controller (sy_runtime
    bench_drive)))"
    unfolding bench_drive_active(2) by (simp add: time_reached_def)
  moreover have "length ?es = 2" by simp
  ultimately show ?thesis
    using run_ends_by_deadline [OF bench.loop_platform_axioms bench_reached(1),
      of 60 "\<lambda>_. 0" SPI_STATUS_OK "Some [0, 0, 0, 0]" 4 10 ?es] bench_drive_active(1)
    unfolding encoder_sample_def drive_system.simps by (simp only: simp_thms)
qed

end
