(* ===== verification/Spec2Isabelle.thy ===== *)
theory Spec2Isabelle
  imports App_State Safety Dma_Ring Mt6816 Protocol_Server Current_Loop Config_Flash
    Alignment_Controller Aligned_Torque Phase_Predictor Bridge_Pwm Backend_Deadlines
    Velocity_Controller Position_Controller Angle_Tracker Rotor_System
begin

text \<open>
  A verification library for the SERVO57D closed-loop stepper firmware (\<open>src/firmware\<close>).

  \<^bold>\<open>The program.\<close> The firmware drives a two-phase stepper motor from a magnetic encoder. A command
  arrives over RS-485 through a DMA receive ring (\<open>dma_ring.c\<close>), is framed and checked
  (\<open>native_protocol.c\<close>) and dispatched (\<open>command_service.c\<close>). The drive supervisor (\<open>app_state.c\<close>)
  owns the authority to move; the boot self-test, the watchdog policy and the encoder liveness
  monitor (\<open>safety/\<close>) feed it. A request goes to the rotor control runtime
  (\<open>rotor_control_runtime.c\<close>), which is called with every encoder sample: it decodes the registers
  (\<open>mt6816.c\<close>), advances the estimator (\<open>angle_tracker.c\<close>) and runs one layer of the cascade:
  the alignment procedure (\<open>alignment_controller.c\<close> with \<open>motor_alignment.c\<close>), or the torque
  controller (\<open>aligned_torque_controller.c\<close>), alone or under the velocity controller
  (\<open>velocity_controller.c\<close> with \<open>pi_controller.c\<close>), itself alone or under the position controller
  (\<open>position_controller.c\<close> with \<open>motion_profile.c\<close>). The result is a current reference for the current
  loop backend (\<open>current_loop_backend.c\<close>), which at 20 kHz predicts the electrical phase
  (\<open>electrical_phase_predictor.c\<close>), regulates the phase currents (\<open>phase_current_loop.c\<close>,
  \<open>phase_current_reference.c\<close>, \<open>rotating_current_test.c\<close>) and stages the duties of the bridge timer
  (\<open>tim3_bridge_pwm.c\<close>, \<open>board.c\<close>). The calibration and the gains survive power loss in two flash pages
  (\<open>configuration_store.c\<close> over \<open>configuration_flash.c\<close>). \<open>runtime_profile.c\<close> measures the callback.

  \<^bold>\<open>The model.\<close> A C structure is a record (its fields with a short prefix), an enumeration a datatype,
  the static variables of a file a record, and a function a function from the state before to the
  result and the state after; a pointer that the code compares with NULL is an option (type \<open>ptr\<close>).
  Stored integers are words of their width, read with \<open>uint\<close> or \<open>sint\<close> and written with \<open>word_of_int\<close>;
  intermediate results that cannot overflow are \<open>int\<close>. Times are 32-bit words and compared with
  wrap-around. A large C function is split into several definitions where the code has its
  stages; all of them are executable.

  \<^item> \<open>Prelude\<close>: types, generic lemmas, and the contracts shared by the stateful components: what a step
    keeps, every run keeps (locale \<open>invariant_machine\<close>), and what only named events release
    (\<open>latching_machine\<close>). Every component interprets them on its own calls.
  \<^item> \<open>App_State\<close>, \<open>Safety\<close>: the supervisor as a function that refines a transition table; nothing moves
    after a fault until it is acknowledged; the watchdog is fed only inside its window with fresh
    evidence.
  \<^item> \<open>Dma_Ring\<close>, \<open>Mt6816\<close>, \<open>Framing\<close>: the ring delivers the bytes of the line in order or reports an
    overrun; single bit errors of an encoder sample are found; COBS and the frame codec are inverse
    to each other, a delimited wire image that is accepted is the one the encoder produces, and the
    corruption of one byte is found.
  \<^item> \<open>Command_Service\<close>, \<open>Response_Encoding\<close>, \<open>Protocol_Server\<close>: each of the 29 commands passes its decoded
    arguments to its callback; a response is serialized into the body that \<open>docs/PROTOCOL.md\<close>
    documents for it (\<open>response_fields\<close>, written down without offsets and lengths), injectively and
    within the buffer; a well-formed request gets its answer, and nothing else acts. The callbacks of
    the application and the transmit function are parameters.
  \<^item> \<open>Motor_Alignment\<close>, \<open>Alignment_Controller\<close>: the electrical phase is exact; the procedure drives
    current only while active, ends by its deadline, and calibrates only after a run whose recorded
    return mean is where it began. (Both files have their own copy of \<open>wrapped_delta\<close>; it is one
    definition.)
  \<^item> \<open>Phase_Reference\<close>, \<open>Current_Loop\<close>: references within the amplitude; every regulator step leaves
    the integrators, voltages and duties within their limits, and an overcurrent ends the drive.
  \<^item> \<open>Config_Store\<close>, \<open>Config_Flash\<close>: a damaged record is noticed, and after any history of saves, each of
    which may fail or be cut off, the last configuration reported stored or one attempted after it is
    loaded. An erase or a store to a word may go wrong and leave anything in its page or word (locale
    \<open>flash_hardware\<close>); the one thing trusted is that the wreck of an erase does not pass the record
    check as another record (\<open>torn_erase_noticed\<close>). Operations take their effect when they are
    started, so an erase that outlasts the driver's polling is not modelled. The polling loops of the
    flash driver are bounded by the counters of the code (8000000 and 1000000), so they are recursive
    functions on these counters.
  \<^item> \<open>Phase_Predictor\<close>, \<open>Aligned_Torque\<close>: the predicted phase is exact; the torque controller accepts or
    ends at every update, within its limit, its slew rate and its deadline.
  \<^item> \<open>Bridge_Pwm\<close>: the pins and the timer. Registers are accessed through a bus that is a parameter; the
    locale \<open>gpio_ports\<close> says what the ports do, and a register file interprets it.
  \<^item> \<open>Loop_Backend\<close>, \<open>Backend_Faults\<close>, \<open>Backend_Control\<close>, \<open>Backend_Deadlines\<close>: the interrupts and the
    foreground calls of the current loop. A foreground call is one step. The code masks the interrupts
    in its critical sections, but \<open>current_loop_backend_start\<close> and \<open>current_loop_backend_stop\<close> have short
    stretches outside them (the checks before, the interrupt enable and the fault bits after), where
    an interrupt is not modelled. The timer interrupt (the guardian) may preempt the ADC handler before
    its second look at the active flag, before it stages the duties and before it publishes; these are
    three arguments of that handler, and other places inside it are not preempted. The ADC driver, the
    clock and the cycle counter are parameters (record \<open>platform\<close>) under the locale \<open>loop_platform\<close>,
    whose laws also say that the timer's compare registers keep what is written to them. A latched
    fault holds the bridge low until a recovery succeeds; every sample is decided, and the compare
    registers hold the duties decided on; missing samples trip the guardian; the bootstrap probe
    expires, and its end switches the outputs off.
  \<^item> \<open>Float32\<close>, \<open>Pi_Controller\<close>, \<open>Motion_Profile\<close>, \<open>Velocity_Controller\<close>, \<open>Position_Controller\<close>,
    \<open>Angle_Tracker\<close>: single precision arithmetic as exact rationals with one rounding to nearest even
    per operation, infinities and not-a-number. The compiler may contract a product and the sum that
    uses it; whether it does at each place is an argument (\<open>fp\<close>, one flag for each place), and all
    theorems hold for every choice. The two zeros are one value, and conversions to integers saturate
    as the target instruction does. Requests are bounded whatever the estimator delivers, runs end by
    their deadlines, a move settles only after the required samples.
  \<^item> \<open>Runtime_Profile\<close>: the profile captures 256 releases and freezes; an interrupt inside the
    unmasked foreground call is the same as one after it (\<open>foreground_preempted\<close>).
  \<^item> \<open>Rotor_Runtime\<close>, \<open>Rotor_Safety\<close>, \<open>Rotor_System\<close>: the runtime over the controllers and the backend, and
    any sequence of encoder samples, requests, forced faults, foreground calls of the backend (its own
    starts for the commissioning test and the bootstrap probe included) and interrupts
    (\<open>call_rotor\<close>). A fault recovery is two steps, as in \<open>drive_clear_faults\<close> of \<open>main.c\<close>: the backend is
    reset, then the runtime, and in between only interrupts run (\<open>drive_system\<close>, \<open>call_drive\<close>).
    \<open>callback_outcome\<close> follows the callback on all its paths: it stays idle, starts what was requested,
    continues, or ends with an event. On it rest the theorems about which calls can leave the loop
    active without a controller, that a bad sample ends every controller with the bridge low, that
    the callback starts exactly what was requested and announces every end, and that a run does not
    outlive its deadline. \<open>recovery_race\<close> shows the exception: a run started between the two halves of
    a recovery loses its controllers and keeps its current loop. The clock and the cycle counter are
    arguments.

  \<^bold>\<open>Not modelled.\<close> \<open>main.c\<close> except the recovery sequence of \<open>drive_clear_faults\<close>: the boot sequence, the
  foreground loop and the copying of statuses; the calls it makes may come in any order. The
  register-level drivers of ADC, SPI, I2C, USART, timers, clock tree and
  watchdog, which are parameters or deliver arbitrary arguments; the readers that copy a published
  record under a sequence number; the display, the inputs and the diagnostics report; the portable d/q
  current controller, which is not connected to the PWM; vendor code, host tools, the load cell
  instrument and the tests.
\<close>

end
